(* ===== verification/Prelude.thy ===== *)
theory Prelude
  imports Complex_Main "HOL-Library.Multiset"
begin

text \<open>
  Shared vocabulary of the development: Python exceptions as values of a sum type, the
  sequencing of fallible computations, Python slices and ordered de-duplication, and the
  generic list lemmas the component theories use.

  The collection \<open>res_simps\<close> turns "this computation returned \<open>Inr r\<close>" into
  the conjunction of the guards that were passed, which is how almost every property of a
  validating function is proved.
\<close>

named_theorems res_simps \<open>inversion of successful fallible computations\<close>
named_theorems mat_simps \<open>shape facts of matrices and list operations\<close>

section \<open>Exceptions and fallible computations\<close>

text \<open>
  One constructor per Python exception class the modelled code raises. The string is the
  constant part of the message, shortened; interpolated values are not modelled.
\<close>

datatype exn =
    ValueError string
  | TypeError string
  | RuntimeError string
  | KeyError string
  | IndexError string
  | AssertionError string
  | ZeroDivisionError
  | NotImplementedError
  | FileNotFoundError string
  | NotADirectoryError string

type_synonym 'a res = "exn + 'a"

text \<open>Sequencing: an exception of the first computation is the result of the whole.\<close>

fun ebind :: "'a res \<Rightarrow> ('a \<Rightarrow> 'b res) \<Rightarrow> 'b res" where
  "ebind (Inl e) f = Inl e"
| "ebind (Inr x) f = f x"

text \<open>\<open>raise_if bad e rest\<close> is the Python \<open>if bad: raise e\<close> followed by \<open>rest\<close>.\<close>

definition raise_if :: "bool \<Rightarrow> exn \<Rightarrow> 'a res \<Rightarrow> 'a res" where
  "raise_if bad e rest = (if bad then Inl e else rest)"

text \<open>A list comprehension whose body may raise: the first exception wins.\<close>

fun emap :: "('a \<Rightarrow> 'b res) \<Rightarrow> 'a list \<Rightarrow> 'b list res" where
  "emap f [] = Inr []"
| "emap f (x # xs) = ebind (f x) (\<lambda>y. ebind (emap f xs) (\<lambda>ys. Inr (y # ys)))"

text \<open>A \<open>for\<close> loop whose body may raise, with the loop variables as accumulator.\<close>

fun efold :: "('a \<Rightarrow> 's \<Rightarrow> 's res) \<Rightarrow> 'a list \<Rightarrow> 's \<Rightarrow> 's res" where
  "efold f [] s = Inr s"
| "efold f (x # xs) s = ebind (f x s) (efold f xs)"

text \<open>\<open>try: m except Exception: e'\<close>: every exception of \<open>m\<close> is replaced.\<close>

fun ewrap :: "exn \<Rightarrow> 'a res \<Rightarrow> 'a res" where
  "ewrap e' (Inl e) = Inl e'"
| "ewrap e' (Inr x) = Inr x"

lemma ebind_Inr [res_simps]: "ebind m f = Inr r \<longleftrightarrow> (\<exists>x. m = Inr x \<and> f x = Inr r)"
  by (cases m) auto

lemma ebind_Inl: "ebind m f = Inl e \<longleftrightarrow> m = Inl e \<or> (\<exists>x. m = Inr x \<and> f x = Inl e)"
  by (cases m) auto

lemma raise_if_Inr [res_simps]: "raise_if b e k = Inr r \<longleftrightarrow> \<not> b \<and> k = Inr r"
  by (simp add: raise_if_def)

lemma raise_if_False [simp]: "raise_if False e k = k"
  by (simp add: raise_if_def)

lemma raise_if_True [simp]: "raise_if True e k = Inl e"
  by (simp add: raise_if_def)

lemma ewrap_Inr [res_simps]: "ewrap e m = Inr r \<longleftrightarrow> m = Inr r"
  by (cases m) auto

lemma emap_Inr [res_simps]:
  "emap f xs = Inr ys \<longleftrightarrow> list_all2 (\<lambda>x y. f x = Inr y) xs ys"
proof (induction xs arbitrary: ys)
  case Nil
  then show ?case by auto
next
  case (Cons x xs)
  then show ?case by (cases ys) (auto simp: ebind_Inr)
qed

lemma emap_Inr_length: "emap f xs = Inr ys \<Longrightarrow> length ys = length xs"
  by (auto simp: emap_Inr dest: list_all2_lengthD)

lemma emap_Inr_nth: "emap f xs = Inr ys \<Longrightarrow> i < length xs \<Longrightarrow> f (xs ! i) = Inr (ys ! i)"
  by (auto simp: emap_Inr dest: list_all2_nthD)

lemma emap_all_Inr: "(\<And>x. x \<in> set xs \<Longrightarrow> f x = Inr (g x)) \<Longrightarrow> emap f xs = Inr (map g xs)"
  by (induction xs) auto

lemma emap_cong_Inl: "emap f xs = Inl e \<Longrightarrow> \<exists>x \<in> set xs. f x = Inl e"
  by (induction xs) (auto simp: ebind_Inl)

section \<open>Python sequences\<close>

text \<open>\<open>clamp_index n i\<close> is where slice bound \<open>i\<close> falls in a sequence of length \<open>n\<close>.\<close>

definition clamp_index :: "nat \<Rightarrow> int \<Rightarrow> nat" where
  "clamp_index n i = (if i < 0 then nat (max 0 (i + int n)) else min (nat i) n)"

text \<open>\<open>py_slice i j xs\<close> is \<open>xs[i:j]\<close>; negative bounds count from the end.\<close>

definition py_slice :: "int \<Rightarrow> int \<Rightarrow> 'a list \<Rightarrow> 'a list" where
  "py_slice i j xs =
     (let a = clamp_index (length xs) i; b = clamp_index (length xs) j
      in take (b - a) (drop a xs))"

text \<open>The common case of two in-range natural bounds.\<close>

definition slice :: "nat \<Rightarrow> nat \<Rightarrow> 'a list \<Rightarrow> 'a list" where
  "slice a b xs = take (b - a) (drop a xs)"

lemma py_slice_nat: "py_slice (int a) (int b) xs = slice (min a (length xs)) (min b (length xs)) xs"
  by (simp add: py_slice_def slice_def clamp_index_def Let_def)

lemma py_slice_in_range:
  "0 \<le> i \<Longrightarrow> i \<le> j \<Longrightarrow> j \<le> int (length xs) \<Longrightarrow> py_slice i j xs = slice (nat i) (nat j) xs"
proof -
  assume a: "0 \<le> i" "i \<le> j" "j \<le> int (length xs)"
  from a have "clamp_index (length xs) i = nat i" "clamp_index (length xs) j = nat j"
    by (auto simp: clamp_index_def)
  then show ?thesis by (simp add: py_slice_def slice_def Let_def)
qed

lemma py_slice_of_nat: "b \<le> length xs \<Longrightarrow> py_slice (int a) (int b) xs = slice a b xs"
  by (cases "a \<le> length xs") (simp_all add: py_slice_nat slice_def min_def)

lemma length_slice [simp]: "length (slice a b xs) = min (b - a) (length xs - a)"
  by (simp add: slice_def)

lemma nth_slice: "i < b - a \<Longrightarrow> a + i < length xs \<Longrightarrow> slice a b xs ! i = xs ! (a + i)"
  by (simp add: slice_def)

lemma slice_append: "a \<le> b \<Longrightarrow> b \<le> c \<Longrightarrow> slice a b xs @ slice b c xs = slice a c xs"
proof -
  assume ab: "a \<le> b" and bc: "b \<le> c"
  have "drop b xs = drop (b - a) (drop a xs)" using ab by (simp add: add.commute)
  moreover have "c - a = (b - a) + (c - b)" using ab bc by simp
  ultimately show ?thesis by (simp only: slice_def take_add)
qed

lemma slice_0 [simp]: "slice 0 b xs = take b xs"
  by (simp add: slice_def)

lemma slice_to_end: "length xs \<le> b \<Longrightarrow> slice a b xs = drop a xs"
  by (simp add: slice_def)

lemma slice_empty [simp]: "b \<le> a \<Longrightarrow> slice a b xs = []"
  by (simp add: slice_def)

lemma slice_map: "slice a b (map f xs) = map f (slice a b xs)"
  by (simp add: slice_def take_map drop_map)

lemma slice_append_left: "b \<le> length xs \<Longrightarrow> slice a b (xs @ ys) = slice a b xs"
  by (cases "a \<le> b") (simp_all add: slice_def)

lemma slice_append_right:
  "length xs \<le> a \<Longrightarrow> slice a b (xs @ ys) = slice (a - length xs) (b - length xs) ys"
  by (simp add: slice_def)

lemma upt_split: "a \<le> b \<Longrightarrow> b \<le> c \<Longrightarrow> [a..<c] = [a..<b] @ [b..<c]"
  by (metis le_add_diff_inverse upt_add_eq_append)

lemma slice_upt: "b \<le> n \<Longrightarrow> slice a b [0..<n] = [a..<b]"
  by (simp add: slice_def) (metis diff_is_0_eq' le_add_diff_inverse linorder_linear take_upt upt_conv_Nil)

text \<open>Blocks of one length in a concatenation.\<close>

lemma length_concat_blocks: "\<forall>x \<in> set xss. length x = m \<Longrightarrow> length (concat xss) = length xss * m"
  by (induction xss) auto

lemma slice_concat_block:
  assumes "\<forall>x \<in> set xss. length x = m" "i < length xss"
  shows "slice (i * m) (i * m + m) (concat xss) = xss ! i"
  using assms
proof (induction xss arbitrary: i)
  case (Cons x xss)
  then show ?case by (cases i) (auto simp: slice_def)
qed simp

text \<open>\<open>list(dict.fromkeys(xs))\<close>: the distinct elements in order of first occurrence.\<close>

definition ordered_unique :: "'a list \<Rightarrow> 'a list" where
  "ordered_unique xs = rev (remdups (rev xs))"

lemma set_ordered_unique [simp]: "set (ordered_unique xs) = set xs"
  by (simp add: ordered_unique_def)

lemma distinct_ordered_unique [simp]: "distinct (ordered_unique xs)"
  by (simp add: ordered_unique_def)

text \<open>\<open>indices_of p n\<close> is \<open>[i for i in range(n) if p(i)]\<close>.\<close>

definition indices_where :: "(nat \<Rightarrow> bool) \<Rightarrow> nat \<Rightarrow> nat list" where
  "indices_where p n = filter p [0..<n]"

lemma set_indices_where [simp]: "set (indices_where p n) = {i. i < n \<and> p i}"
  by (auto simp: indices_where_def)

lemma distinct_indices_where [simp]: "distinct (indices_where p n)"
  by (simp add: indices_where_def)

text \<open>\<open>enumerate(xs)\<close>, as pairs of index and element.\<close>

definition py_enumerate :: "'a list \<Rightarrow> (nat \<times> 'a) list" where
  "py_enumerate xs = zip [0..<length xs] xs"

lemma length_py_enumerate [simp]: "length (py_enumerate xs) = length xs"
  by (simp add: py_enumerate_def)

lemma nth_py_enumerate [simp]: "i < length xs \<Longrightarrow> py_enumerate xs ! i = (i, xs ! i)"
  by (simp add: py_enumerate_def)

lemma set_py_enumerate: "set (py_enumerate xs) = {(i, xs ! i) |i. i < length xs}"
  by (force simp: py_enumerate_def set_zip)

lemma map_snd_py_enumerate [simp]: "map snd (py_enumerate xs) = xs"
  by (simp add: py_enumerate_def)

lemma map_fst_py_enumerate [simp]: "map fst (py_enumerate xs) = [0..<length xs]"
  by (simp add: py_enumerate_def)

lemma py_enumerate_append:
  "py_enumerate (xs @ [x]) = py_enumerate xs @ [(length xs, x)]"
  by (simp add: py_enumerate_def)

text \<open>Loops over \<open>enumerate(xs)\<close>: the accumulators form a chain of states.\<close>

lemma py_enumerate_shift:
  "zip [n..<n + length xs] xs = map (\<lambda>(i, x). (n + i, x)) (py_enumerate xs)"
  by (rule nth_equalityI) (auto simp: py_enumerate_def)

lemma efold_append: "efold f (xs @ ys) s = ebind (efold f xs s) (efold f ys)"
proof (induction xs arbitrary: s)
  case (Cons x xs)
  then show ?case by (cases "f x s") auto
qed simp

lemma efold_enumerate_Inr:
  "efold f (py_enumerate xs) s = Inr t \<longleftrightarrow>
     (\<exists>g. g 0 = s \<and> g (length xs) = t \<and> (\<forall>i < length xs. f (i, xs ! i) (g i) = Inr (g (Suc i))))"
proof (induction xs arbitrary: t rule: rev_induct)
  case Nil
  then show ?case by (auto simp: py_enumerate_def intro: exI [of _ "\<lambda>_. t"])
next
  case (snoc x xs)
  have "efold f (py_enumerate (xs @ [x])) s = Inr t \<longleftrightarrow>
      (\<exists>u. efold f (py_enumerate xs) s = Inr u \<and> f (length xs, x) u = Inr t)"
    by (simp add: py_enumerate_append efold_append ebind_Inr)
  also have "\<dots> \<longleftrightarrow> (\<exists>g. g 0 = s \<and> g (length (xs @ [x])) = t \<and>
      (\<forall>i < length (xs @ [x]). f (i, (xs @ [x]) ! i) (g i) = Inr (g (Suc i))))" (is "?l \<longleftrightarrow> ?r")
  proof
    assume ?l
    then obtain u g where g: "g 0 = s" "g (length xs) = u" "f (length xs, x) u = Inr t"
      "\<forall>i < length xs. f (i, xs ! i) (g i) = Inr (g (Suc i))" by (auto simp: snoc.IH)
    then show ?r
      by (intro exI [of _ "g(Suc (length xs) := t)"]) (auto simp: nth_append less_Suc_eq)
  next
    assume ?r
    then obtain g where g: "g 0 = s" "g (Suc (length xs)) = t"
      "\<forall>i < Suc (length xs). f (i, (xs @ [x]) ! i) (g i) = Inr (g (Suc i))" by auto
    then show ?l unfolding snoc.IH
      by (intro exI [of _ "g (length xs)"] conjI exI [of _ g]) (auto simp: nth_append less_Suc_eq)
  qed
  finally show ?case .
qed

section \<open>Association lists as insertion-ordered dictionaries\<close>

text \<open>A Python dict keeps insertion order; overwriting a key keeps its place.\<close>

fun dict_put :: "'k \<Rightarrow> 'v \<Rightarrow> ('k \<times> 'v) list \<Rightarrow> ('k \<times> 'v) list" where
  "dict_put k v [] = [(k, v)]"
| "dict_put k v ((k', v') # d) = (if k' = k then (k, v) # d else (k', v') # dict_put k v d)"

definition dict_get :: "'k \<Rightarrow> ('k \<times> 'v) list \<Rightarrow> 'v option" where
  "dict_get k d = map_of d k"

definition dict_get_or :: "'v \<Rightarrow> 'k \<Rightarrow> ('k \<times> 'v) list \<Rightarrow> 'v" where
  "dict_get_or dflt k d = (case map_of d k of None \<Rightarrow> dflt | Some v \<Rightarrow> v)"

lemma map_of_dict_put [simp]: "map_of (dict_put k v d) = (map_of d)(k \<mapsto> v)"
  by (induction d) auto

lemma dict_get_put [simp]: "dict_get k (dict_put k' v d) = (if k = k' then Some v else dict_get k d)"
  by (simp add: dict_get_def)

lemma dict_get_or_put [simp]:
  "dict_get_or z k (dict_put k' v d) = (if k = k' then v else dict_get_or z k d)"
  by (simp add: dict_get_or_def)

lemma keys_dict_put: "set (map fst (dict_put k v d)) = insert k (set (map fst d))"
  by (induction d rule: dict_put.induct) auto

lemma distinct_dict_put: "distinct (map fst d) \<Longrightarrow> distinct (map fst (dict_put k v d))"
proof (induction k v d rule: dict_put.induct)
  case (2 k v k' v' d)
  then show ?case using keys_dict_put [of k v d] by (auto simp del: set_map)
qed simp

end
