(* ===== verification/Heapq.thy ===== *)
theory Heapq
  imports Prelude
begin

text \<open>
  The binary heap of Python's \<open>heapq\<close> as the balancing code uses it: \<open>heappush\<close> and
  \<open>heappop\<close> on a list, comparing elements with their \<open>__lt__\<close> only. The comparison is an
  argument \<open>lt\<close>. The interface locale \<open>priority_queue\<close> states what the client relies
  on; \<open>heapq\<close> interprets it for every strict weak order.
\<close>

section \<open>The interface\<close>

locale priority_queue =
  fixes lt :: "'a \<Rightarrow> 'a \<Rightarrow> bool"
    and inv :: "'q \<Rightarrow> bool"
    and elems :: "'q \<Rightarrow> 'a multiset"
    and push :: "'q \<Rightarrow> 'a \<Rightarrow> 'q"
    and pop :: "'q \<Rightarrow> ('a \<times> 'q) res"
  assumes push_inv: "inv q \<Longrightarrow> inv (push q x)"
    and push_elems: "elems (push q x) = add_mset x (elems q)"
    and pop_some: "elems q \<noteq> {#} \<Longrightarrow> \<exists>x q'. pop q = Inr (x, q')"
    and pop_inv: "inv q \<Longrightarrow> pop q = Inr (x, q') \<Longrightarrow> inv q'"
    and pop_elems: "pop q = Inr (x, q') \<Longrightarrow> elems q = add_mset x (elems q')"
    and pop_min: "inv q \<Longrightarrow> pop q = Inr (x, q') \<Longrightarrow> y \<in># elems q \<Longrightarrow> \<not> lt y x"
begin

text \<open>
  The client's loop body: take the two least elements, put a combination of them back.
\<close>

definition combine_least :: "('a \<Rightarrow> 'a \<Rightarrow> 'a) \<Rightarrow> 'q \<Rightarrow> 'q res" where
  "combine_least f q = ebind (pop q) (\<lambda>(a, q1). ebind (pop q1) (\<lambda>(b, q2). Inr (push q2 (f a b))))"

lemma combine_least_total:
  assumes "2 \<le> size (elems q)"
  obtains a b q1 q2 where "pop q = Inr (a, q1)" "pop q1 = Inr (b, q2)"
    "combine_least f q = Inr (push q2 (f a b))" "elems q = add_mset a (add_mset b (elems q2))"
proof -
  have "elems q \<noteq> {#}" using assms by auto
  then obtain a q1 where a: "pop q = Inr (a, q1)" using pop_some by blast
  have e: "elems q = add_mset a (elems q1)" by (rule pop_elems [OF a])
  then have "elems q1 \<noteq> {#}" using assms by auto
  then obtain b q2 where b: "pop q1 = Inr (b, q2)" using pop_some by blast
  show ?thesis
    by (rule that [OF a b]) (use e pop_elems [OF b] in \<open>simp_all add: combine_least_def a b\<close>)
qed

text \<open>The two elements combined are the least and the least of the rest.\<close>

lemma combine_least_least:
  assumes "inv q" "pop q = Inr (a, q1)" "pop q1 = Inr (b, q2)" "y \<in># elems q2"
  shows "\<not> lt y a" "\<not> lt y b" "\<not> lt b a"
proof -
  have "elems q = add_mset a (elems q1)" "elems q1 = add_mset b (elems q2)"
    using pop_elems assms(2,3) by blast+
  then have "y \<in># elems q" "y \<in># elems q1" "b \<in># elems q" using assms(4) by auto
  then show "\<not> lt y a" "\<not> lt y b" "\<not> lt b a"
    using pop_min [OF assms(1,2)] pop_min [OF pop_inv [OF assms(1,2)] assms(3)] by blast+
qed

end

section \<open>The list heap\<close>

text \<open>\<open>_siftdown(heap, startpos, pos)\<close>, with the loop variable \<open>newitem\<close>.\<close>

function sift_down :: "('a \<Rightarrow> 'a \<Rightarrow> bool) \<Rightarrow> nat \<Rightarrow> nat \<Rightarrow> 'a \<Rightarrow> 'a list \<Rightarrow> 'a list" where
  "sift_down lt startpos pos newitem heap =
     (if pos > startpos then
        let parentpos = (pos - 1) div 2; parent = heap ! parentpos in
        if lt newitem parent then sift_down lt startpos parentpos newitem (heap[pos := parent])
        else heap[pos := newitem]
      else heap[pos := newitem])"
  by pat_completeness auto
termination by (relation "measure (\<lambda>(_, _, pos, _, _). pos)") auto

declare sift_down.simps [simp del]

text \<open>The loop of \<open>_siftup\<close>: move the hole at \<open>pos\<close> to a leaf, along the smaller child.\<close>

definition smaller_child :: "('a \<Rightarrow> 'a \<Rightarrow> bool) \<Rightarrow> nat \<Rightarrow> 'a list \<Rightarrow> nat" where
  "smaller_child lt pos heap =
     (let childpos = 2 * pos + 1; rightpos = childpos + 1 in
      if rightpos < length heap \<and> \<not> lt (heap ! childpos) (heap ! rightpos) then rightpos else childpos)"

lemma smaller_child_bounds:
  "2 * p + 1 < length h \<Longrightarrow> smaller_child lt p h < length h"
  "p < smaller_child lt p h" "(smaller_child lt p h - 1) div 2 = p"
  by (auto simp: smaller_child_def Let_def)

function hole_to_leaf :: "('a \<Rightarrow> 'a \<Rightarrow> bool) \<Rightarrow> nat \<Rightarrow> 'a list \<Rightarrow> nat \<times> 'a list" where
  "hole_to_leaf lt pos heap =
     (if 2 * pos + 1 < length heap then
        let child = smaller_child lt pos heap in hole_to_leaf lt child (heap[pos := heap ! child])
      else (pos, heap))"
  by pat_completeness auto
termination
  by (relation "measure (\<lambda>(_, pos, heap). length heap - pos)")
    (auto simp: less_diff_conv2 smaller_child_bounds intro!: diff_less_mono2)

declare hole_to_leaf.simps [simp del]

definition sift_up :: "('a \<Rightarrow> 'a \<Rightarrow> bool) \<Rightarrow> nat \<Rightarrow> 'a list \<Rightarrow> 'a list" where
  "sift_up lt startpos heap =
     (let newitem = heap ! startpos; (pos, heap) = hole_to_leaf lt startpos heap
      in sift_down lt startpos pos newitem heap)"

definition heappush :: "('a \<Rightarrow> 'a \<Rightarrow> bool) \<Rightarrow> 'a list \<Rightarrow> 'a \<Rightarrow> 'a list" where
  "heappush lt heap item = sift_down lt 0 (length heap) item (heap @ [item])"

definition heappop :: "('a \<Rightarrow> 'a \<Rightarrow> bool) \<Rightarrow> 'a list \<Rightarrow> ('a \<times> 'a list) res" where
  "heappop lt heap =
     (if heap = [] then Inl (IndexError ''pop from empty list'')
      else let lastelt = last heap; rest = butlast heap in
        if rest \<noteq> [] then Inr (rest ! 0, sift_up lt 0 (rest[0 := lastelt])) else Inr (lastelt, rest))"

section \<open>The elements are preserved\<close>

lemma length_sift_down [simp]: "length (sift_down lt s p x h) = length h"
  by (induction lt s p x h rule: sift_down.induct) (subst sift_down.simps, simp add: Let_def)

lemma mset_move:
  assumes "i < length xs" "j < length xs" "i \<noteq> j"
  shows "mset ((xs[i := xs ! j])[j := v]) = mset (xs[i := v])"
proof -
  have "mset ((xs[i := v])[i := (xs[i := v]) ! j, j := (xs[i := v]) ! i]) = mset (xs[i := v])"
    using assms by (intro mset_swap) simp_all
  moreover have "(xs[i := v])[i := (xs[i := v]) ! j, j := (xs[i := v]) ! i] = (xs[i := xs ! j])[j := v]"
    using assms by (simp add: list_update_swap)
  ultimately show ?thesis by simp
qed

lemma mset_sift_down: "p < length h \<Longrightarrow> mset (sift_down lt s p x h) = mset (h[p := x])"
proof (induction lt s p x h rule: sift_down.induct)
  case (1 lt s p x h)
  let ?pp = "(p - 1) div 2"
  show ?case
  proof (cases "p > s \<and> lt x (h ! ?pp)")
    case True
    then have pp: "?pp < p" by auto
    have "mset (sift_down lt s p x h) = mset (sift_down lt s ?pp x (h[p := h ! ?pp]))"
      using True by (subst sift_down.simps) (simp add: Let_def)
    also have "\<dots> = mset ((h[p := h ! ?pp])[?pp := x])" using 1 True pp by (intro "1.IH") auto
    also have "\<dots> = mset (h[p := x])" using 1(2) pp by (intro mset_move) auto
    finally show ?thesis .
  next
    case False
    then show ?thesis by (subst sift_down.simps) (auto simp: Let_def)
  qed
qed

lemma hole_to_leaf_step:
  "2 * p + 1 < length h \<Longrightarrow>
     hole_to_leaf lt p h = hole_to_leaf lt (smaller_child lt p h) (h[p := h ! smaller_child lt p h])"
  "\<not> 2 * p + 1 < length h \<Longrightarrow> hole_to_leaf lt p h = (p, h)"
  by (subst hole_to_leaf.simps, simp add: Let_def)+

lemma hole_to_leaf_mset:
  "hole_to_leaf lt p h = (p', h') \<Longrightarrow> p < length h \<Longrightarrow>
     p' < length h' \<and> length h' = length h \<and> mset (h'[p' := x]) = mset (h[p := x])"
proof (induction lt p h rule: hole_to_leaf.induct)
  case (1 lt p h)
  show ?case
  proof (cases "2 * p + 1 < length h")
    case True
    let ?c = "smaller_child lt p h"
    have c: "?c < length h" "p < ?c" using smaller_child_bounds True by blast+
    have "p' < length h' \<and> length h' = length (h[p := h ! ?c]) \<and> mset (h'[p' := x]) = mset ((h[p := h ! ?c])[?c := x])"
      using 1 True c by (intro "1.IH") (simp_all add: hole_to_leaf_step(1))
    then show ?thesis using mset_move [of p h ?c x] c 1(3) by simp
  next
    case False
    then show ?thesis using 1(2,3) by (simp add: hole_to_leaf_step(2))
  qed
qed

lemma mset_sift_up: "h \<noteq> [] \<Longrightarrow> mset (sift_up lt 0 h) = mset h"
proof -
  assume ne: "h \<noteq> []"
  obtain p' h' where hl: "hole_to_leaf lt 0 h = (p', h')" by fastforce
  from hole_to_leaf_mset [OF hl, of "h ! 0"] ne show ?thesis
    by (simp add: sift_up_def Let_def hl mset_sift_down)
qed

lemma mset_heappush [simp]: "mset (heappush lt h x) = add_mset x (mset h)"
  by (simp add: heappush_def mset_sift_down)

lemma mset_heappop: "heappop lt h = Inr (x, h') \<Longrightarrow> mset h = add_mset x (mset h')"
proof -
  assume p: "heappop lt h = Inr (x, h')"
  then obtain l r where h: "h = r @ [l]" by (cases h rule: rev_cases) (auto simp: heappop_def)
  show ?thesis
  proof (cases r)
    case Nil
    then show ?thesis using p h by (simp add: heappop_def)
  next
    case (Cons y ys)
    then show ?thesis using p h by (auto simp: heappop_def Let_def mset_sift_up)
  qed
qed

lemma heappop_total: "h \<noteq> [] \<Longrightarrow> \<exists>x h'. heappop lt h = Inr (x, h')"
  by (simp add: heappop_def Let_def)


section \<open>The heap order\<close>

text \<open>No element is less than its parent.\<close>

definition heap_ordered :: "('a \<Rightarrow> 'a \<Rightarrow> bool) \<Rightarrow> 'a list \<Rightarrow> bool" where
  "heap_ordered lt h = (\<forall>i \<in> {1..<length h}. \<not> lt (h ! i) (h ! ((i - 1) div 2)))"

text \<open>
  \<open>almost lt p h\<close>: the order holds except that the element at \<open>p\<close> may be less than its
  parent; the children of \<open>p\<close> are in order with the parent of \<open>p\<close>. \<open>holed lt p h\<close>: the
  order holds away from a hole at \<open>p\<close>, across which it holds as well.
\<close>

definition almost :: "('a \<Rightarrow> 'a \<Rightarrow> bool) \<Rightarrow> nat \<Rightarrow> 'a list \<Rightarrow> bool" where
  "almost lt p h = (\<forall>i \<in> {1..<length h}. (i \<noteq> p \<longrightarrow> \<not> lt (h ! i) (h ! ((i - 1) div 2))) \<and>
     (0 < p \<and> (i - 1) div 2 = p \<longrightarrow> \<not> lt (h ! i) (h ! ((p - 1) div 2))))"

definition holed :: "('a \<Rightarrow> 'a \<Rightarrow> bool) \<Rightarrow> nat \<Rightarrow> 'a list \<Rightarrow> bool" where
  "holed lt p h = (\<forall>i \<in> {1..<length h}.
     (i \<noteq> p \<and> (i - 1) div 2 \<noteq> p \<longrightarrow> \<not> lt (h ! i) (h ! ((i - 1) div 2))) \<and>
     (0 < p \<and> (i - 1) div 2 = p \<longrightarrow> \<not> lt (h ! i) (h ! ((p - 1) div 2))))"

locale strict_weak_order =
  fixes lt :: "'a \<Rightarrow> 'a \<Rightarrow> bool"
  assumes asym: "lt x y \<Longrightarrow> \<not> lt y x"
    and neg_trans: "lt x z \<Longrightarrow> lt x y \<or> lt y z"
begin

lemma parent_less: "0 < n \<Longrightarrow> (n - 1) div 2 < (n :: nat)"
  by auto

lemma not_lt_trans: "\<not> lt y x \<Longrightarrow> \<not> lt z y \<Longrightarrow> \<not> lt z x"
  using neg_trans by blast

lemma not_lt_refl [simp]: "\<not> lt x x"
  using asym by blast

lemma almost_step:
  assumes al: "almost lt p (h[p := x])" and p: "0 < p" "p < length h" and less: "lt x (h ! ((p - 1) div 2))"
  shows "almost lt ((p - 1) div 2) ((h[p := h ! ((p - 1) div 2)])[(p - 1) div 2 := x])"
proof -
  let ?q = "(p - 1) div 2"
  let ?h = "(h[p := h ! ?q])[?q := x]"
  have q: "?q < p" "?q < length h" using p by auto
  have old: "i \<noteq> p \<Longrightarrow> \<not> lt (h[p := x] ! i) (h[p := x] ! ((i - 1) div 2))"
    "(i - 1) div 2 = p \<Longrightarrow> \<not> lt (h[p := x] ! i) (h[p := x] ! ?q)" if "i \<in> {1..<length h}" for i
    using al that p by (auto simp: almost_def)
  show ?thesis
    unfolding almost_def
  proof (intro ballI conjI impI)
    fix i assume "i \<in> {1..<length ?h}"
    then have i: "i \<in> {1..<length h}" by simp
    have lt_i: "(i - 1) div 2 < i" using i by auto
    show "\<not> lt (?h ! i) (?h ! ((i - 1) div 2))" if ne: "i \<noteq> ?q"
    proof -
      consider "i = p" | "i \<noteq> p" "(i - 1) div 2 = p" | "i \<noteq> p" "(i - 1) div 2 = ?q"
        | "i \<noteq> p" "(i - 1) div 2 \<noteq> p" "(i - 1) div 2 \<noteq> ?q" by blast
      then show ?thesis
      proof cases
        case 1
        then show ?thesis using less asym p q by simp
      next
        case 2
        then have "\<not> lt (h ! i) (h ! ?q)" using old(2) [OF i] q i lt_i p ne by simp
        then show ?thesis using 2 ne q p i by simp
      next
        case 3
        then have "\<not> lt (h ! i) (h ! ?q)" using old(1) [OF i] q p by simp
        then have "\<not> lt (h ! i) x" using less asym not_lt_trans by blast
        then show ?thesis using 3 ne q p i by simp
      next
        case 4
        then show ?thesis using old(1) [OF i] ne q p i by simp
      qed
    qed
    show "\<not> lt (?h ! i) (?h ! ((?q - 1) div 2))" if c: "0 < ?q \<and> (i - 1) div 2 = ?q"
    proof -
      have qr: "?q \<in> {1..<length h}" "(?q - 1) div 2 < ?q" using c q parent_less by auto
      have up: "\<not> lt (h ! ?q) (h ! ((?q - 1) div 2))" using old(1) [OF qr(1)] qr q p by simp
      have r: "?h ! ((?q - 1) div 2) = h ! ((?q - 1) div 2)" using qr q by simp
      have iq: "i \<noteq> ?q" using c lt_i by auto
      show ?thesis
      proof (cases "i = p")
        case True
        then show ?thesis using up r p q by simp
      next
        case False
        then have "\<not> lt (h ! i) (h ! ?q)" using old(1) [OF i] c q p by simp
        then have "\<not> lt (h ! i) (h ! ((?q - 1) div 2))" using up not_lt_trans by blast
        then show ?thesis using r False iq i by simp
      qed
    qed
  qed
qed

lemma ordered_sift_down:
  "almost lt p (h[p := x]) \<Longrightarrow> p < length h \<Longrightarrow> heap_ordered lt (sift_down lt 0 p x h)"
proof (induction p arbitrary: h rule: less_induct)
  case (less p)
  show ?case
  proof (cases "0 < p \<and> lt x (h ! ((p - 1) div 2))")
    case True
    then have q: "(p - 1) div 2 < p" by auto
    have "heap_ordered lt (sift_down lt 0 ((p - 1) div 2) x (h[p := h ! ((p - 1) div 2)]))"
      using True less.prems q by (intro less.IH almost_step) auto
    then show ?thesis using True by (subst sift_down.simps) (simp add: Let_def)
  next
    case False
    have "\<not> lt (h[p := x] ! p) (h[p := x] ! ((p - 1) div 2))"
      using False less.prems by (cases "p = 0") auto
    then have "heap_ordered lt (h[p := x])"
      using less.prems unfolding heap_ordered_def almost_def by (metis length_list_update)
    then show ?thesis using False by (subst sift_down.simps) (auto simp: Let_def)
  qed
qed

lemma ordered_heappush: "heap_ordered lt h \<Longrightarrow> heap_ordered lt (heappush lt h x)"
proof -
  assume o: "heap_ordered lt h"
  have "almost lt (length h) ((h @ [x])[length h := x])"
    unfolding almost_def
  proof (intro ballI conjI impI)
    fix i assume i: "i \<in> {1..<length ((h @ [x])[length h := x])}"
    show "\<not> lt ((h @ [x])[length h := x] ! i) ((h @ [x])[length h := x] ! ((i - 1) div 2))" if "i \<noteq> length h"
      using o i that by (auto simp: heap_ordered_def nth_append)
    show "\<not> lt ((h @ [x])[length h := x] ! i) ((h @ [x])[length h := x] ! ((length h - 1) div 2))"
      if "0 < length h \<and> (i - 1) div 2 = length h"
      using i that by auto
  qed
  then show ?thesis unfolding heappush_def by (rule ordered_sift_down) simp
qed

lemma smaller_child_least:
  assumes "2 * p + 1 < length h" "i < length h" "(i - 1) div 2 = p" "0 < i"
  shows "\<not> lt (h ! i) (h ! smaller_child lt p h)"
proof -
  have "i = 2 * p + 1 \<or> i = 2 * p + 2" using assms(3,4) by auto
  then show ?thesis using assms(1,2) asym by (auto simp: smaller_child_def Let_def)
qed

lemma holed_step:
  assumes ho: "holed lt p h" and p: "2 * p + 1 < length h"
  shows "holed lt (smaller_child lt p h) (h[p := h ! smaller_child lt p h])"
proof -
  let ?c = "smaller_child lt p h"
  have c: "?c < length h" "p < ?c" "(?c - 1) div 2 = p" using smaller_child_bounds p by blast+
  have old: "i \<noteq> p \<Longrightarrow> (i - 1) div 2 \<noteq> p \<Longrightarrow> \<not> lt (h ! i) (h ! ((i - 1) div 2))"
    "0 < p \<Longrightarrow> (i - 1) div 2 = p \<Longrightarrow> \<not> lt (h ! i) (h ! ((p - 1) div 2))" if "i \<in> {1..<length h}" for i
    using ho that by (auto simp: holed_def)
  show ?thesis
    unfolding holed_def
  proof (intro ballI conjI impI)
    fix i assume "i \<in> {1..<length (h[p := h ! ?c])}"
    then have i: "i \<in> {1..<length h}" by simp
    have lt_i: "(i - 1) div 2 < i" using i by auto
    show "\<not> lt (h[p := h ! ?c] ! i) (h[p := h ! ?c] ! ((i - 1) div 2))" if ne: "i \<noteq> ?c \<and> (i - 1) div 2 \<noteq> ?c"
    proof -
      consider "i = p" | "i \<noteq> p" "(i - 1) div 2 = p" | "i \<noteq> p" "(i - 1) div 2 \<noteq> p" by blast
      then show ?thesis
      proof cases
        case 1
        then show ?thesis using old(2) [of ?c] c lt_i i by auto
      next
        case 2
        then show ?thesis using smaller_child_least [OF p, of i] i p by auto
      next
        case 3
        then show ?thesis using old(1) [OF i] by simp
      qed
    qed
    show "\<not> lt (h[p := h ! ?c] ! i) (h[p := h ! ?c] ! ((?c - 1) div 2))" if a: "0 < ?c \<and> (i - 1) div 2 = ?c"
    proof -
      have "i \<noteq> p" "(i - 1) div 2 \<noteq> p" using a c lt_i by auto
      then have "\<not> lt (h ! i) (h ! ?c)" using old(1) [OF i] a by simp
      then show ?thesis using \<open>i \<noteq> p\<close> c p by simp
    qed
  qed
qed

lemma hole_to_leaf_holed:
  "hole_to_leaf lt p h = (p', h') \<Longrightarrow> p < length h \<Longrightarrow> holed lt p h \<Longrightarrow>
     holed lt p' h' \<and> \<not> 2 * p' + 1 < length h' \<and> p' < length h'"
proof (induction "length h - p" arbitrary: p h rule: less_induct)
  case less
  show ?case
  proof (cases "2 * p + 1 < length h")
    case True
    let ?c = "smaller_child lt p h"
    have c: "?c < length h" "p < ?c" using smaller_child_bounds True by blast+
    have "hole_to_leaf lt ?c (h[p := h ! ?c]) = (p', h')"
      using less.prems(1) unfolding hole_to_leaf_step(1) [OF True] .
    moreover have "length (h[p := h ! ?c]) - ?c < length h - p" using c less.prems(2) by simp
    ultimately show ?thesis
      using less.hyps [of "h[p := h ! ?c]" ?c] c(1) holed_step [OF less.prems(3) True] by simp
  next
    case False
    then show ?thesis using less.prems by (auto simp: hole_to_leaf_step(2))
  qed
qed

lemma ordered_sift_up:
  assumes "heap_ordered lt h" "h \<noteq> []"
  shows "heap_ordered lt (sift_up lt 0 (h[0 := x]))"
proof -
  obtain p h' where hl: "hole_to_leaf lt 0 (h[0 := x]) = (p, h')" by fastforce
  have "holed lt 0 (h[0 := x])"
    using assms(1) unfolding holed_def heap_ordered_def by auto
  then have ho: "holed lt p h' \<and> \<not> 2 * p + 1 < length h' \<and> p < length h'"
    using hole_to_leaf_holed [OF hl] assms(2) by simp
  have leaf: "(i - 1) div 2 \<noteq> p" if "i \<in> {1..<length h'}" for i
    using ho that by auto
  have "almost lt p (h'[p := h[0 := x] ! 0])"
    unfolding almost_def
  proof (intro ballI conjI impI)
    fix i assume "i \<in> {1..<length (h'[p := h[0 := x] ! 0])}"
    then have i: "i \<in> {1..<length h'}" by simp
    show "\<not> lt (h'[p := h[0 := x] ! 0] ! i) (h'[p := h[0 := x] ! 0] ! ((i - 1) div 2))" if "i \<noteq> p"
      using ho i leaf [OF i] that by (auto simp: holed_def)
    show "\<not> lt (h'[p := h[0 := x] ! 0] ! i) (h'[p := h[0 := x] ! 0] ! ((p - 1) div 2))" if "0 < p \<and> (i - 1) div 2 = p"
      using leaf [OF i] that by simp
  qed
  then show ?thesis
    using ho by (simp add: sift_up_def Let_def hl ordered_sift_down)
qed

lemma ordered_butlast: "heap_ordered lt h \<Longrightarrow> heap_ordered lt (butlast h)"
  unfolding heap_ordered_def by (auto simp: nth_butlast)

lemma ordered_heappop: "heap_ordered lt h \<Longrightarrow> heappop lt h = Inr (x, h') \<Longrightarrow> heap_ordered lt h'"
  using ordered_sift_up [OF ordered_butlast, of h "last h"]
  by (auto simp: heappop_def Let_def heap_ordered_def [of _ "[]"] split: if_splits)

lemma root_least: "heap_ordered lt h \<Longrightarrow> i < length h \<Longrightarrow> \<not> lt (h ! i) (h ! 0)"
proof (induction i rule: less_induct)
  case (less i)
  show ?case
  proof (cases "i = 0")
    case False
    then have "\<not> lt (h ! ((i - 1) div 2)) (h ! 0)" using less by (intro less.IH) auto
    moreover have "\<not> lt (h ! i) (h ! ((i - 1) div 2))"
      using False less.prems by (simp add: heap_ordered_def)
    ultimately show ?thesis using not_lt_trans by blast
  qed simp
qed

lemma heappop_least:
  assumes "heap_ordered lt h" "heappop lt h = Inr (x, h')" "y \<in> set h"
  shows "\<not> lt y x"
proof -
  have "x = h ! 0"
    using assms(2) by (cases h rule: rev_cases) (auto simp: heappop_def Let_def nth_append split: if_splits)
  moreover obtain i where "i < length h" "h ! i = y" using assms(3) by (meson in_set_conv_nth)
  ultimately show ?thesis using root_least [OF assms(1)] by blast
qed

end

text \<open>The list heap provides the interface for every strict weak order.\<close>

sublocale strict_weak_order \<subseteq> heapq: priority_queue lt "heap_ordered lt" mset "heappush lt" "heappop lt"
proof
  show "\<exists>x q'. heappop lt q = Inr (x, q')" if "mset q \<noteq> {#}" for q
    using that by (intro heappop_total) simp
  show "\<not> lt y x" if "heap_ordered lt q" "heappop lt q = Inr (x, q')" "y \<in># mset q" for q x q' y
    by (rule heappop_least [OF that(1,2)]) (use that(3) in simp)
qed (rule ordered_heappush mset_heappush ordered_heappop mset_heappop; assumption)+

end
