(* ===== verification/Seqlen_Balancing.thy ===== *)
theory Seqlen_Balancing
  imports Heapq "HOL-Library.Product_Lexorder" "HOL-Library.List_Lexorder"
begin

text \<open>
  Sequence-length balancing (\<open>verl/utils/seqlen_balancing.py\<close>): the Karmarkar-Karp
  partitioner over \<open>heapq\<close>, the greedy partitioner, the checked front end
  \<open>get_seqlen_balanced_partitions\<close> and the two rounding helpers. Lengths are Python ints,
  indices naturals.
\<close>

section \<open>Sets and states\<close>

text \<open>The class \<open>Set\<close>: its running sum and its items, pairs of index and length.\<close>

datatype kset = KSet (ks_sum: int) (ks_items: "(nat \<times> int) list")

definition kset_empty :: kset where
  "kset_empty = KSet 0 []"

definition kset_add :: "nat \<Rightarrow> int \<Rightarrow> kset \<Rightarrow> kset" where
  "kset_add idx v s = KSet (ks_sum s + v) (ks_items s @ [(idx, v)])"

definition kset_merge :: "kset \<Rightarrow> kset \<Rightarrow> kset" where
  "kset_merge s other = fold (\<lambda>(idx, v) s. kset_add idx v s) (ks_items other) s"

text \<open>\<open>Set.__lt__\<close>: by sum, then by number of items, then by the items themselves.\<close>

definition kset_less :: "kset \<Rightarrow> kset \<Rightarrow> bool" where
  "kset_less s t =
     (if ks_sum s \<noteq> ks_sum t then ks_sum s < ks_sum t
      else if length (ks_items s) \<noteq> length (ks_items t) then length (ks_items s) < length (ks_items t)
      else ks_items s < ks_items t)"

instantiation kset :: linorder
begin

definition less_kset :: "kset \<Rightarrow> kset \<Rightarrow> bool" where
  "less_kset s t = kset_less s t"

definition less_eq_kset :: "kset \<Rightarrow> kset \<Rightarrow> bool" where
  "less_eq_kset s t = (s < t \<or> s = t)"

instance
proof
  fix x y z :: kset
  show "x < y \<longleftrightarrow> x \<le> y \<and> \<not> y \<le> x"
    by (auto simp: less_eq_kset_def less_kset_def kset_less_def split: if_splits)
  show "x \<le> x" by (simp add: less_eq_kset_def)
  show "x \<le> y \<Longrightarrow> y \<le> z \<Longrightarrow> x \<le> z"
    by (auto simp: less_eq_kset_def less_kset_def kset_less_def split: if_splits)
  show "x \<le> y \<Longrightarrow> y \<le> x \<Longrightarrow> x = y"
    by (auto simp: less_eq_kset_def less_kset_def kset_less_def split: if_splits)
  show "x \<le> y \<or> y \<le> x"
    by (cases x; cases y) (auto simp: less_eq_kset_def less_kset_def kset_less_def)
qed

end

text \<open>
  \<open>sorted(sets, reverse=True)\<close>. Python keeps the order of equal elements; equal sets are
  identical values, so reversing the ascending sort is the same list.
\<close>

definition sorted_reverse :: "'a::linorder list \<Rightarrow> 'a list" where
  "sorted_reverse xs = rev (sort xs)"

record kstate =
  st_k :: nat
  st_sets :: "kset list"

text \<open>\<open>State.__init__\<close>: \<open>sets[i].add\<close> raises when there are more items than sets.\<close>

definition state_new :: "(nat \<times> int) list \<Rightarrow> nat \<Rightarrow> kstate res" where
  "state_new items k =
     raise_if (length items \<noteq> 1 \<and> length items \<noteq> k) (AssertionError ''number of items'')
     (ebind (efold (\<lambda>(i, idx, seqlen) sets.
               if i < length sets then Inr (sets[i := kset_add idx seqlen (sets ! i)])
               else Inl (IndexError ''list index out of range''))
             (py_enumerate items) (replicate k kset_empty)) (\<lambda>sets.
      Inr \<lparr>st_k = k, st_sets = sorted_reverse sets\<rparr>))"

definition get_partitions :: "kstate \<Rightarrow> nat list list" where
  "get_partitions st = map (\<lambda>s. map fst (ks_items s)) (st_sets st)"

definition state_merge :: "kstate \<Rightarrow> kstate \<Rightarrow> kstate" where
  "state_merge st other =
     st\<lparr>st_sets := sorted_reverse
          (map (\<lambda>i. kset_merge (st_sets st ! i) (st_sets other ! (st_k st - 1 - i))) [0..<st_k st])\<rparr>"

definition spread :: "kstate \<Rightarrow> int" where
  "spread st = ks_sum (hd (st_sets st)) - ks_sum (last (st_sets st))"

text \<open>\<open>State.__lt__\<close>: the state of largest spread, then of largest first set, comes first.\<close>

definition state_less :: "kstate \<Rightarrow> kstate \<Rightarrow> bool" where
  "state_less a b =
     (if spread a \<noteq> spread b then spread b < spread a else hd (st_sets b) < hd (st_sets a))"

interpretation state_order: strict_weak_order state_less
  by unfold_locales (auto simp: state_less_def split: if_splits)

section \<open>Karmarkar-Karp\<close>

definition sorted_seqlens :: "int list \<Rightarrow> (int \<times> nat) list" where
  "sorted_seqlens seqlen_list = sort (map (\<lambda>(i, seqlen). (seqlen, i)) (py_enumerate seqlen_list))"

text \<open>
  The initial states. With \<open>equal_size\<close> the sorted items are dealt out \<open>k\<close> at a time,
  otherwise every item is a state of its own.
\<close>

fun blocks :: "nat \<Rightarrow> nat \<Rightarrow> 'a list \<Rightarrow> 'a list list" where
  "blocks 0 k xs = []"
| "blocks (Suc n) k xs = take k xs # blocks n k (drop k xs)"

definition initial_items :: "int list \<Rightarrow> nat \<Rightarrow> bool \<Rightarrow> (nat \<times> int) list list res" where
  "initial_items seqlen_list k equal_size =
     (let items = map (\<lambda>(seqlen, idx). (idx, seqlen)) (sorted_seqlens seqlen_list) in
      if equal_size then
        raise_if (k = 0) ZeroDivisionError
        (raise_if (length seqlen_list mod k \<noteq> 0) (AssertionError ''number of items modulo k_partitions'')
          (Inr (blocks (length items div k) k items)))
      else Inr (map (\<lambda>x. [x]) items))"

text \<open>Building and pushing the states, in order.\<close>

definition push_states :: "nat \<Rightarrow> (nat \<times> int) list list \<Rightarrow> kstate list res" where
  "push_states k itemss =
     efold (\<lambda>items pq. ebind (state_new items k) (\<lambda>st. Inr (heappush state_less pq st))) itemss []"

text \<open>\<open>while len(states_pq) > 1\<close>: merge the two states of largest spread.\<close>

function merge_states :: "kstate list \<Rightarrow> kstate list res" where
  "merge_states pq =
     (if length pq > 1 then
        case heappop state_less pq of Inl e \<Rightarrow> Inl e
        | Inr (state0, pq1) \<Rightarrow>
            (case heappop state_less pq1 of Inl e \<Rightarrow> Inl e
             | Inr (state1, pq2) \<Rightarrow> merge_states (heappush state_less pq2 (state_merge state0 state1)))
      else Inr pq)"
  by pat_completeness auto
termination
proof (relation "measure length")
  fix pq x s0 pq1 y s1 pq2
  assume "1 < length pq" "heappop state_less pq = Inr x" "(s0, pq1) = x" "heappop state_less pq1 = Inr y" "(s1, pq2) = y"
  then have "mset pq = add_mset s0 (mset pq1)" "mset pq1 = add_mset s1 (mset pq2)"
    using mset_heappop by force+
  then have "length pq = Suc (Suc (length pq2))" by (metis size_add_mset size_mset)
  moreover have "length (heappush state_less pq2 (state_merge s0 s1)) = Suc (length pq2)"
    by (metis mset_heappush size_add_mset size_mset)
  ultimately show "(heappush state_less pq2 (state_merge s0 s1), pq) \<in> measure length" by simp
qed simp

declare merge_states.simps [simp del]

definition check_equal_sizes :: "nat list list \<Rightarrow> nat \<Rightarrow> nat \<Rightarrow> nat list list res" where
  "check_equal_sizes partitions k n =
     raise_if (\<exists>p \<in> set partitions. length p * k \<noteq> n) (AssertionError ''partition size'') (Inr partitions)"

definition karmarkar_karp :: "int list \<Rightarrow> nat \<Rightarrow> bool \<Rightarrow> nat list list res" where
  "karmarkar_karp seqlen_list k equal_size =
     ebind (initial_items seqlen_list k equal_size) (\<lambda>itemss.
     ebind (push_states k itemss) (\<lambda>pq.
     ebind (merge_states pq) (\<lambda>pq'.
     if pq' = [] then Inl (IndexError ''list index out of range'')
     else let partitions = get_partitions (pq' ! 0) in
       if equal_size then check_equal_sizes partitions k (length seqlen_list) else Inr partitions)))"

section \<open>Greedy partitioning\<close>

text \<open>The inner loop: the first index of the least sum.\<close>

definition min_index :: "int list \<Rightarrow> nat option" where
  "min_index totals =
     fold (\<lambda>j m. case m of None \<Rightarrow> Some j | Some i \<Rightarrow> if totals ! j < totals ! i then Some j else Some i)
       [0..<length totals] None"

fun greedy_loop :: "(int \<times> nat) list \<Rightarrow> nat list list \<Rightarrow> int list \<Rightarrow> nat list list res" where
  "greedy_loop [] parts totals = Inr parts"
| "greedy_loop ((seqlen, i) # xs) parts totals =
     (case min_index totals of
        None \<Rightarrow> Inl (TypeError ''list indices must be integers or slices, not NoneType'')
      | Some m \<Rightarrow> greedy_loop xs (parts[m := parts ! m @ [i]]) (totals[m := totals ! m + seqlen]))"

definition greedy_partition :: "int list \<Rightarrow> nat \<Rightarrow> bool \<Rightarrow> nat list list res" where
  "greedy_partition seqlen_list k equal_size =
     (let bias = (if equal_size then sum_list seqlen_list + 1 else 0);
          items = map (\<lambda>(i, seqlen). (seqlen + bias, i)) (py_enumerate seqlen_list) in
      ebind (greedy_loop items (replicate k []) (replicate k 0)) (\<lambda>partitions.
      if equal_size then check_equal_sizes partitions k (length seqlen_list) else Inr partitions))"

section \<open>The checked front end\<close>

definition check_and_sort_partitions :: "nat \<Rightarrow> nat \<Rightarrow> nat list list \<Rightarrow> nat list list res" where
  "check_and_sort_partitions n k partitions =
     raise_if (length partitions \<noteq> k) (AssertionError ''number of partitions'')
     (raise_if (\<exists>p \<in> set partitions. p = []) (AssertionError ''partition is empty'')
     (raise_if (set (concat partitions) \<noteq> {0..<n}) (AssertionError ''seen_idx'')
     (Inr (map sort partitions))))"

definition get_seqlen_balanced_partitions :: "int list \<Rightarrow> nat \<Rightarrow> bool \<Rightarrow> nat list list res" where
  "get_seqlen_balanced_partitions seqlen_list k equal_size =
     raise_if (length seqlen_list < k) (AssertionError ''number of items'')
     (ebind (karmarkar_karp seqlen_list k equal_size)
        (check_and_sort_partitions (length seqlen_list) k))"

definition ceildiv :: "int \<Rightarrow> int \<Rightarrow> int res" where
  "ceildiv a b = raise_if (b = 0) ZeroDivisionError (Inr (- (a div (- b))))"

definition roundup_divisible :: "int \<Rightarrow> int \<Rightarrow> int res" where
  "roundup_divisible a b = raise_if (b = 0) ZeroDivisionError (Inr ((a + b - 1) div b * b))"

definition calculate_workload :: "int \<Rightarrow> int" where
  "calculate_workload seqlen = 24576 * seqlen + seqlen ^ 2"


text \<open>
  \<open>log_seqlen_unbalance\<close>: chunk sums before and partition sums after balancing; the
  mean is an exact quotient.
\<close>

function chunk_sums :: "nat \<Rightarrow> int list \<Rightarrow> int list" where
  "chunk_sums batch_size xs =
     (if xs = [] \<or> batch_size = 0 then []
      else sum_list (take batch_size xs) # chunk_sums batch_size (drop batch_size xs))"
  by pat_completeness auto
termination by (relation "measure (\<lambda>(_, xs). length xs)") auto

definition partition_sum :: "int list \<Rightarrow> nat list \<Rightarrow> int res" where
  "partition_sum seqlen_list p =
     ebind (emap (\<lambda>i. if i < length seqlen_list then Inr (seqlen_list ! i)
                      else Inl (IndexError ''list index out of range'')) p) (\<lambda>vs. Inr (sum_list vs))"

definition log_seqlen_unbalance :: "int list \<Rightarrow> nat list list \<Rightarrow> string \<Rightarrow> (string \<times> real) list res" where
  "log_seqlen_unbalance seqlen_list partitions prefix =
     raise_if (partitions = []) ZeroDivisionError
     (let batch_size = length seqlen_list div length partitions in
      raise_if (batch_size = 0) (ValueError ''range() arg 3 must not be zero'')
      (let unbalanced = chunk_sums batch_size seqlen_list in
       ebind (emap (partition_sum seqlen_list) partitions) (\<lambda>balanced.
       Inr [(prefix @ ''/min'', real_of_int (Min (set unbalanced))),
            (prefix @ ''/max'', real_of_int (Max (set unbalanced))),
            (prefix @ ''/minmax_diff'', real_of_int (Max (set unbalanced) - Min (set unbalanced))),
            (prefix @ ''/balanced_min'', real_of_int (Min (set balanced))),
            (prefix @ ''/balanced_max'', real_of_int (Max (set balanced))),
            (prefix @ ''/mean'', real_of_int (sum_list unbalanced) / real (length partitions))])))"

section \<open>Lemmas on sets and states\<close>

lemma kset_merge_eq: "kset_merge s t = KSet (ks_sum s + sum_list (map snd (ks_items t))) (ks_items s @ ks_items t)"
proof -
  have "fold (\<lambda>(idx, v) s. kset_add idx v s) xs s = KSet (ks_sum s + sum_list (map snd xs)) (ks_items s @ xs)" for xs s
    by (induction xs arbitrary: s) (auto simp: kset_add_def)
  then show ?thesis by (simp add: kset_merge_def)
qed

definition kset_ok :: "kset \<Rightarrow> bool" where
  "kset_ok s = (ks_sum s = sum_list (map snd (ks_items s)))"

lemma kset_merge_simps [simp]:
  "ks_items (kset_merge s t) = ks_items s @ ks_items t"
  "kset_ok t \<Longrightarrow> ks_sum (kset_merge s t) = ks_sum s + ks_sum t"
  "kset_ok s \<Longrightarrow> kset_ok t \<Longrightarrow> kset_ok (kset_merge s t)"
  by (simp_all add: kset_merge_eq kset_ok_def)

lemma mset_sorted_reverse [simp]: "mset (sorted_reverse xs) = mset xs"
  by (simp add: sorted_reverse_def)

lemma set_sorted_reverse [simp]: "set (sorted_reverse xs) = set xs"
  by (simp add: sorted_reverse_def)

lemma length_sorted_reverse [simp]: "length (sorted_reverse xs) = length xs"
  by (simp add: sorted_reverse_def)

lemma sorted_reverse_desc: "i \<le> j \<Longrightarrow> j < length xs \<Longrightarrow> sorted_reverse xs ! j \<le> sorted_reverse xs ! i"
proof -
  assume "i \<le> j" "j < length xs"
  then show ?thesis
    unfolding sorted_reverse_def by (simp add: rev_nth) (rule sorted_nth_mono, simp_all)
qed

lemma kset_le_sum: "s \<le> t \<Longrightarrow> ks_sum s \<le> ks_sum t"
  by (auto simp: less_eq_kset_def less_kset_def kset_less_def split: if_splits)

text \<open>All items of a state, and the well-formed states.\<close>

definition state_items :: "kstate \<Rightarrow> (nat \<times> int) multiset" where
  "state_items st = sum_list (map (\<lambda>s. mset (ks_items s)) (st_sets st))"

definition state_ok :: "nat \<Rightarrow> kstate \<Rightarrow> bool" where
  "state_ok k st \<longleftrightarrow> st_k st = k \<and> length (st_sets st) = k \<and> (\<forall>s \<in> set (st_sets st). kset_ok s) \<and>
     (\<forall>i j. i \<le> j \<and> j < k \<longrightarrow> st_sets st ! j \<le> st_sets st ! i)"

lemma merge_sets:
  "state_ok k a \<Longrightarrow> state_ok k b \<Longrightarrow> st_sets (state_merge a b) =
     sorted_reverse (map (\<lambda>i. kset_merge (st_sets a ! i) (st_sets b ! (k - 1 - i))) [0..<k])"
  by (simp add: state_merge_def state_ok_def)

lemma state_ok_merge: "state_ok k a \<Longrightarrow> state_ok k b \<Longrightarrow> state_ok k (state_merge a b)"
  unfolding state_ok_def [of k "state_merge a b"]
proof (intro conjI ballI allI impI)
  assume ab: "state_ok k a" "state_ok k b"
  note m = merge_sets [OF ab]
  show "st_k (state_merge a b) = k" using ab by (simp add: state_merge_def state_ok_def)
  show "length (st_sets (state_merge a b)) = k" by (simp add: m)
  show "kset_ok s" if "s \<in> set (st_sets (state_merge a b))" for s
    using that ab unfolding m by (auto simp: state_ok_def)
  show "st_sets (state_merge a b) ! j \<le> st_sets (state_merge a b) ! i" if "i \<le> j \<and> j < k" for i j
    unfolding m using that by (intro sorted_reverse_desc) auto
qed

lemma sum_list_msum: "sum_list (map f xs) = sum_mset (image_mset f (mset xs))"
  by (simp flip: sum_mset_sum_list)

lemma state_items_merge:
  assumes "state_ok k a" "state_ok k b"
  shows "state_items (state_merge a b) = state_items a + state_items b"
proof -
  let ?f = "\<lambda>s. mset (ks_items s)"
  have sl: "sum_list (map ?f (sorted_reverse xs)) = sum_list (map ?f xs)" for xs
    by (simp only: sum_list_msum mset_sorted_reverse)
  have nth: "sum_list (map ?f xs) = (\<Sum>i = 0..<length xs. ?f (xs ! i))" for xs
    by (simp add: sum_list_sum_nth)
  have "state_items (state_merge a b) = (\<Sum>i = 0..<k. ?f (st_sets a ! i) + ?f (st_sets b ! (k - 1 - i)))"
    unfolding state_items_def merge_sets [OF assms] sl by (simp add: interv_sum_list_conv_sum_set_nat comp_def)
  also have "\<dots> = (\<Sum>i = 0..<k. ?f (st_sets a ! i)) + (\<Sum>i = 0..<k. ?f (st_sets b ! (k - 1 - i)))"
    by (rule sum.distrib)
  also have "(\<Sum>i = 0..<k. ?f (st_sets b ! (k - 1 - i))) = (\<Sum>i = 0..<k. ?f (st_sets b ! i))"
    using sum.nat_diff_reindex [of "\<lambda>i. ?f (st_sets b ! i)" k] by (simp add: atLeast0LessThan)
  finally show ?thesis using assms by (simp add: state_items_def nth state_ok_def)
qed

text \<open>
  The merging loop, by way of the priority queue's facts: it always ends, with one state when
  there was any; what holds of all states and is kept by merging holds of the result; and an
  additive measure of the states is unchanged.
\<close>

lemma merge_states_step:
  assumes "1 < length pq"
  obtains a b q1 q2 where "heappop state_less pq = Inr (a, q1)" "heappop state_less q1 = Inr (b, q2)"
    "merge_states pq = merge_states (heappush state_less q2 (state_merge a b))"
    "mset pq = add_mset a (add_mset b (mset q2))"
proof (rule state_order.heapq.combine_least_total [of pq])
  show "2 \<le> size (mset pq)" using assms by simp
  fix a b q1 q2
  assume h: "heappop state_less pq = Inr (a, q1)" "heappop state_less q1 = Inr (b, q2)"
    "mset pq = add_mset a (add_mset b (mset q2))"
  have "merge_states pq = merge_states (heappush state_less q2 (state_merge a b))"
    using assms by (subst merge_states.simps) (simp add: h)
  with h show thesis using that by blast
qed

lemma merge_states_result:
  fixes m :: "kstate \<Rightarrow> 'm multiset"
  assumes "\<forall>st \<in> set pq. P st" "\<And>a b. P a \<Longrightarrow> P b \<Longrightarrow> P (state_merge a b)"
    and "\<And>a b. P a \<Longrightarrow> P b \<Longrightarrow> m (state_merge a b) = m a + m b"
  shows "\<exists>pq'. merge_states pq = Inr pq' \<and> length pq' = min 1 (length pq) \<and> (\<forall>st \<in> set pq'. P st) \<and>
     sum_list (map m pq') = sum_list (map m pq)"
  using assms(1)
proof (induction "length pq" arbitrary: pq rule: less_induct)
  case less
  show ?case
  proof (cases "1 < length pq")
    case True
    then obtain a b q1 q2 where eq: "merge_states pq = merge_states (heappush state_less q2 (state_merge a b))"
      and ms: "mset pq = add_mset a (add_mset b (mset q2))" by (rule merge_states_step)
    let ?q = "heappush state_less q2 (state_merge a b)"
    have lq: "length ?q = Suc (length q2)" by (metis mset_heappush size_add_mset size_mset)
    have lp: "length pq = Suc (Suc (length q2))" by (metis ms size_add_mset size_mset)
    have sp: "set pq = insert a (insert b (set q2))" by (metis ms set_mset_add_mset_insert set_mset_mset)
    have sq: "set ?q = insert (state_merge a b) (set q2)" by (metis mset_heappush set_mset_add_mset_insert set_mset_mset)
    have P: "P a" "P b" using less.prems sp by auto
    have "\<forall>st \<in> set ?q. P st" using less.prems assms(2) [OF P] sp sq by auto
    from less.hyps [OF _ this] lq lp
    obtain pq' where r: "merge_states ?q = Inr pq'" "length pq' = 1" "\<forall>st \<in> set pq'. P st"
      "sum_list (map m pq') = sum_list (map m ?q)" by (auto simp: min_def)
    have "sum_list (map m ?q) = sum_mset (image_mset m (mset ?q))" by (rule sum_list_msum)
    also have "\<dots> = m a + m b + sum_mset (image_mset m (mset q2))" using assms(3) [OF P] by simp
    also have "\<dots> = sum_mset (image_mset m (mset pq))" by (simp add: ms add.assoc)
    also have "\<dots> = sum_list (map m pq)" by (rule sum_list_msum [symmetric])
    finally show ?thesis using r eq lp by auto
  next
    case False
    then show ?thesis using less.prems by (subst merge_states.simps) (auto simp: min_def)
  qed
qed


text \<open>The initial states.\<close>

definition single :: "nat \<times> int \<Rightarrow> kset" where
  "single x = KSet (snd x) [x]"

lemma state_new_Inr:
  assumes "length items = 1 \<or> length items = k" "0 < k"
  shows "state_new items k = Inr \<lparr>st_k = k, st_sets = sorted_reverse
           (map single items @ replicate (k - length items) kset_empty)\<rparr>"
proof -
  let ?f = "\<lambda>(i, idx, seqlen) sets. if i < length sets then Inr (sets[i := kset_add idx seqlen (sets ! i)])
               else Inl (IndexError ''list index out of range'')"
  have "length xs \<le> k \<Longrightarrow> efold ?f (py_enumerate xs) (replicate k kset_empty) =
      Inr (map single xs @ replicate (k - length xs) kset_empty)" for xs
  proof (induction xs rule: rev_induct)
    case Nil
    then show ?case by (simp add: py_enumerate_def)
  next
    case (snoc x xs)
    obtain idx v where x: "x = (idx, v)" by (cases x)
    have r: "replicate (k - length xs) kset_empty = kset_empty # replicate (k - Suc (length xs)) kset_empty"
      using snoc.prems by (simp add: Suc_diff_Suc flip: replicate_Suc)
    show ?case
      using snoc x by (simp add: py_enumerate_append efold_append r [unfolded kset_empty_def]
          list_update_append nth_append single_def kset_add_def kset_empty_def)
  qed
  moreover have "length items \<le> k" using assms by auto
  ultimately show ?thesis using assms by (auto simp: state_new_def raise_if_def)
qed

lemma kset_ok_simps [simp]: "kset_ok (single x)" "kset_ok kset_empty" "ks_items (single x) = [x]"
  "ks_items kset_empty = []" "ks_sum (single x) = snd x" "ks_sum kset_empty = 0"
  by (simp_all add: kset_ok_def single_def kset_empty_def)

lemma state_new_ok:
  assumes "length items = 1 \<or> length items = k" "0 < k" "state_new items k = Inr st"
  shows "state_ok k st" "state_items st = mset items" "set (st_sets st) \<subseteq> insert kset_empty (single ` set items)"
    "mset (st_sets st) = mset (map single items @ replicate (k - length items) kset_empty)"
proof -
  have st: "st = \<lparr>st_k = k, st_sets = sorted_reverse (map single items @ replicate (k - length items) kset_empty)\<rparr>"
    using state_new_Inr [OF assms(1,2)] assms(3) by simp
  have len: "length items + (k - length items) = k" using assms(1,2) by auto
  show "state_ok k st"
    unfolding st state_ok_def using len by (auto intro!: sorted_reverse_desc)
  show "set (st_sets st) \<subseteq> insert kset_empty (single ` set items)" unfolding st by auto
  show "mset (st_sets st) = mset (map single items @ replicate (k - length items) kset_empty)"
    unfolding st by simp
  have "sum_mset (image_mset (\<lambda>s. mset (ks_items s)) (mset (map single items))) = mset items"
    by (induction items) auto
  moreover have "sum_mset (image_mset (\<lambda>s. mset (ks_items s)) (mset (replicate n kset_empty))) = {#}" for n
    by (induction n) auto
  ultimately show "state_items st = mset items"
    unfolding state_items_def sum_list_msum st by simp
qed

lemma push_states_Inr:
  assumes "\<forall>items \<in> set itemss. length items = 1 \<or> length items = k" "0 < k"
  shows "\<exists>pq. push_states k itemss = Inr pq \<and> length pq = length itemss \<and>
     (\<forall>st \<in> set pq. \<exists>items \<in> set itemss. state_new items k = Inr st) \<and>
     sum_mset (image_mset state_items (mset pq)) = mset (concat itemss)"
  using assms(1)
proof (induction itemss rule: rev_induct)
  case Nil
  then show ?case by (simp add: push_states_def)
next
  case (snoc x xs)
  then obtain pq where pq: "push_states k xs = Inr pq" "length pq = length xs"
    "\<forall>st \<in> set pq. \<exists>items \<in> set xs. state_new items k = Inr st"
    "sum_mset (image_mset state_items (mset pq)) = mset (concat xs)" by auto
  obtain st where st: "state_new x k = Inr st" using state_new_Inr [of x k] snoc.prems assms(2) by auto
  have items: "state_items st = mset x" using state_new_ok(2) [OF _ assms(2) st] snoc.prems by simp
  let ?q = "heappush state_less pq st"
  have "push_states k (xs @ [x]) = Inr ?q"
    using pq(1) st by (simp add: push_states_def efold_append)
  moreover have "length ?q = Suc (length pq)" by (metis mset_heappush size_add_mset size_mset)
  moreover have "set ?q = insert st (set pq)" by (metis mset_heappush set_mset_add_mset_insert set_mset_mset)
  ultimately show ?case using pq st items by (auto simp: add.commute)
qed

lemma blocks_props:
  "length xs = n * k \<Longrightarrow> length (blocks n k xs) = n \<and> (\<forall>b \<in> set (blocks n k xs). length b = k) \<and>
     concat (blocks n k xs) = xs"
  by (induction n k xs rule: blocks.induct) auto

lemma mset_sorted_items:
  "mset (map (\<lambda>(seqlen, idx). (idx, seqlen)) (sorted_seqlens L)) = mset (py_enumerate L)"
proof -
  have "mset (map (\<lambda>(seqlen, idx). (idx, seqlen)) (sorted_seqlens L)) =
      image_mset (\<lambda>(seqlen, idx). (idx, seqlen)) (image_mset (\<lambda>(i, seqlen). (seqlen, i)) (mset (py_enumerate L)))"
    by (simp add: sorted_seqlens_def)
  also have "\<dots> = mset (py_enumerate L)" by (simp add: multiset.map_comp comp_def case_prod_unfold)
  finally show ?thesis .
qed

lemma initial_items_Inr:
  assumes "0 < k" "eq \<Longrightarrow> length L mod k = 0"
  shows "\<exists>itemss. initial_items L k eq = Inr itemss \<and> mset (concat itemss) = mset (py_enumerate L) \<and>
     (\<forall>items \<in> set itemss. length items = (if eq then k else 1)) \<and> (L \<noteq> [] \<longrightarrow> itemss \<noteq> [])"
proof -
  let ?items = "map (\<lambda>(seqlen, idx). (idx, seqlen)) (sorted_seqlens L)"
  have len: "length ?items = length L" by (simp add: sorted_seqlens_def)
  show ?thesis
  proof (cases eq)
    case True
    have "length ?items = length ?items div k * k" using assms(2) [OF True] len by (metis mod_0_imp_dvd dvd_div_mult_self)
    note b = blocks_props [OF this]
    have "L \<noteq> [] \<Longrightarrow> blocks (length ?items div k) k ?items \<noteq> []"
      using b len by (metis concat.simps(1) length_0_conv)
    then show ?thesis using True assms(1) assms(2) [OF True] b mset_sorted_items by (simp add: initial_items_def Let_def)
  next
    case False
    have "concat (map (\<lambda>x. [x]) xs) = xs" for xs :: "(nat \<times> int) list" by (induction xs) auto
    then have "concat (map (\<lambda>x. [x]) ?items) = ?items" .
    then show ?thesis using False len mset_sorted_items [of L]
      by (auto simp: initial_items_def Let_def simp del: map_map)
  qed
qed


text \<open>
  What merging preserves. \<open>filled\<close>: as many leading sets are non-empty as the state has
  items; \<open>even\<close>: all sets have one size; \<open>spread_le m\<close>: set sums differ by at most \<open>m\<close>.
\<close>

definition nonneg_state :: "kstate \<Rightarrow> bool" where
  "nonneg_state st \<longleftrightarrow> (\<forall>x \<in># state_items st. 0 \<le> snd x)"

definition filled :: "nat \<Rightarrow> kstate \<Rightarrow> bool" where
  "filled k st \<longleftrightarrow> (\<forall>i < min k (size (state_items st)). ks_items (st_sets st ! i) \<noteq> [])"

definition evenly :: "nat \<Rightarrow> kstate \<Rightarrow> bool" where
  "evenly k st \<longleftrightarrow> (\<forall>s \<in> set (st_sets st). length (ks_items s) * k = size (state_items st))"

definition spread_le :: "int \<Rightarrow> kstate \<Rightarrow> bool" where
  "spread_le m st \<longleftrightarrow> (\<forall>s \<in> set (st_sets st). \<forall>t \<in> set (st_sets st). ks_sum s - ks_sum t \<le> m)"

lemma in_state_items: "s \<in> set (st_sets st) \<Longrightarrow> x \<in> set (ks_items s) \<Longrightarrow> x \<in># state_items st"
  by (auto simp: state_items_def sum_list_msum)

lemma evenly_merge:
  assumes "state_ok k a" "state_ok k b" "evenly k a" "evenly k b"
  shows "evenly k (state_merge a b)"
  unfolding evenly_def
proof
  fix s assume "s \<in> set (st_sets (state_merge a b))"
  then obtain i where i: "i < k" "s = kset_merge (st_sets a ! i) (st_sets b ! (k - 1 - i))"
    unfolding merge_sets [OF assms(1,2)] by auto
  have "st_sets a ! i \<in> set (st_sets a)" "st_sets b ! (k - 1 - i) \<in> set (st_sets b)"
    using i(1) assms(1,2) by (auto simp: state_ok_def)
  then show "length (ks_items s) * k = size (state_items (state_merge a b))"
    using assms(3,4) i by (simp add: state_items_merge [OF assms(1,2)] evenly_def distrib_right)
qed

lemma spread_le_merge:
  assumes ok: "state_ok k a" "state_ok k b" and w: "spread_le m a" "spread_le m b"
  shows "spread_le m (state_merge a b)"
  unfolding spread_le_def
proof (intro ballI)
  fix s t assume "s \<in> set (st_sets (state_merge a b))" "t \<in> set (st_sets (state_merge a b))"
  then obtain i j where ij: "i < k" "j < k" and s: "s = kset_merge (st_sets a ! i) (st_sets b ! (k - 1 - i))"
    and t: "t = kset_merge (st_sets a ! j) (st_sets b ! (k - 1 - j))"
    unfolding merge_sets [OF ok] by auto
  have mem: "st_sets a ! i \<in> set (st_sets a)" "st_sets a ! j \<in> set (st_sets a)"
    "st_sets b ! (k - 1 - i) \<in> set (st_sets b)" "st_sets b ! (k - 1 - j) \<in> set (st_sets b)"
    using ij ok by (auto simp: state_ok_def)
  have okb: "kset_ok (st_sets b ! (k - 1 - i))" "kset_ok (st_sets b ! (k - 1 - j))"
    using mem ok by (auto simp: state_ok_def)
  have sums: "ks_sum s = ks_sum (st_sets a ! i) + ks_sum (st_sets b ! (k - 1 - i))"
    "ks_sum t = ks_sum (st_sets a ! j) + ks_sum (st_sets b ! (k - 1 - j))" using okb by (simp_all add: s t)
  show "ks_sum s - ks_sum t \<le> m"
  proof (cases "i \<le> j")
    case True
    then have "st_sets b ! (k - 1 - i) \<le> st_sets b ! (k - 1 - j)" using ij ok(2) by (simp add: state_ok_def)
    then have "ks_sum (st_sets b ! (k - 1 - i)) \<le> ks_sum (st_sets b ! (k - 1 - j))" by (rule kset_le_sum)
    moreover have "ks_sum (st_sets a ! i) - ks_sum (st_sets a ! j) \<le> m" using w(1) mem by (simp add: spread_le_def)
    ultimately show ?thesis using sums by linarith
  next
    case False
    then have "st_sets a ! i \<le> st_sets a ! j" using ij ok(1) by (simp add: state_ok_def)
    then have "ks_sum (st_sets a ! i) \<le> ks_sum (st_sets a ! j)" by (rule kset_le_sum)
    moreover have "ks_sum (st_sets b ! (k - 1 - i)) - ks_sum (st_sets b ! (k - 1 - j)) \<le> m"
      using w(2) mem by (simp add: spread_le_def)
    ultimately show ?thesis using sums by linarith
  qed
qed

lemma kset_nonempty_greater:
  assumes "kset_ok s" "kset_ok t" "\<forall>x \<in> set (ks_items s). 0 \<le> snd x" "ks_items s \<noteq> []" "ks_items t = []"
  shows "t < s"
proof -
  have "0 \<le> ks_sum s" using assms(1,3) by (auto simp: kset_ok_def intro!: sum_list_nonneg)
  moreover have "ks_sum t = 0" using assms(2,5) by (simp add: kset_ok_def)
  ultimately show ?thesis using assms(4,5) by (auto simp: less_kset_def kset_less_def)
qed

text \<open>In a descending list the non-empty sets come first.\<close>

lemma nonempty_first:
  assumes "\<forall>s \<in> set xs. kset_ok s \<and> (\<forall>x \<in> set (ks_items s). 0 \<le> snd x)"
    and "i < length (filter (\<lambda>s. ks_items s \<noteq> []) xs)"
  shows "ks_items (sorted_reverse xs ! i) \<noteq> []"
proof
  let ?ys = "sorted_reverse xs"
  assume empty: "ks_items (?ys ! i) = []"
  have len: "length (filter (\<lambda>s. ks_items s \<noteq> []) ?ys) = length (filter (\<lambda>s. ks_items s \<noteq> []) xs)"
    by (metis mset_filter mset_sorted_reverse size_mset)
  have i: "i < length ?ys"
    using assms(2) length_filter_le [of "\<lambda>s. ks_items s \<noteq> []" xs] by (simp only: length_sorted_reverse)
  have "ks_items (?ys ! j) = []" if j: "i \<le> j" "j < length ?ys" for j
  proof (rule ccontr)
    assume ne: "ks_items (?ys ! j) \<noteq> []"
    have m: "?ys ! i \<in> set xs" "?ys ! j \<in> set xs" using i j nth_mem [of _ ?ys] by auto
    have "?ys ! i < ?ys ! j"
      by (rule kset_nonempty_greater) (use m assms(1) ne empty in auto)
    moreover have "?ys ! j \<le> ?ys ! i" using j by (intro sorted_reverse_desc) auto
    ultimately show False by simp
  qed
  then have "{j. j < length ?ys \<and> ks_items (?ys ! j) \<noteq> []} \<subseteq> {..<i}" by (metis (mono_tags, lifting) lessThan_iff linorder_not_less mem_Collect_eq subsetI)
  then have "card {j. j < length ?ys \<and> ks_items (?ys ! j) \<noteq> []} \<le> i"
    by (metis card_lessThan card_mono finite_lessThan)
  then show False using assms(2) len by (simp add: length_filter_conv_card)
qed

lemma card_two_ends:
  fixes p q k :: nat
  assumes "p \<le> k" "q \<le> k"
  shows "min k (p + q) \<le> card {i. i < k \<and> (i < p \<or> k - 1 - i < q)}"
proof -
  have "{i. i < k \<and> (i < p \<or> k - 1 - i < q)} = {..<p} \<union> {k - q..<k}" using assms by auto
  also have "card \<dots> = p + q - card ({..<p} \<inter> {k - q..<k})"
    using assms card_Un_Int [of "{..<p}" "{k - q..<k}"] by simp
  also have "{..<p} \<inter> {k - q..<k} = {k - q..<p}" using assms by auto
  finally show ?thesis using assms by simp
qed

lemma filled_merge:
  assumes ok: "state_ok k a" "state_ok k b" and nn: "nonneg_state a" "nonneg_state b"
    and f: "filled k a" "filled k b"
  shows "filled k (state_merge a b)"
  unfolding filled_def
proof (intro allI impI)
  fix i assume i: "i < min k (size (state_items (state_merge a b)))"
  let ?L = "map (\<lambda>i. kset_merge (st_sets a ! i) (st_sets b ! (k - 1 - i))) [0..<k]"
  let ?p = "min k (size (state_items a))" and ?q = "min k (size (state_items b))"
  have len: "length (st_sets a) = k" "length (st_sets b) = k" using ok by (simp_all add: state_ok_def)
  have items: "0 \<le> snd x" if "x \<in> set (ks_items s)" "s \<in> set (st_sets a) \<union> set (st_sets b)" for x s
    using that nn in_state_items unfolding nonneg_state_def by blast
  have L: "\<forall>s \<in> set ?L. kset_ok s \<and> (\<forall>x \<in> set (ks_items s). 0 \<le> snd x)"
  proof
    fix s assume "s \<in> set ?L"
    then obtain j where j: "j < k" "s = kset_merge (st_sets a ! j) (st_sets b ! (k - 1 - j))" by auto
    have m: "st_sets a ! j \<in> set (st_sets a)" "st_sets b ! (k - 1 - j) \<in> set (st_sets b)" using j(1) len by auto
    then show "kset_ok s \<and> (\<forall>x \<in> set (ks_items s). 0 \<le> snd x)"
      using ok items unfolding j(2) state_ok_def by auto
  qed
  have "{j. j < k \<and> (j < ?p \<or> k - 1 - j < ?q)} \<subseteq> {j. j < k \<and> ks_items (?L ! j) \<noteq> []}"
    using f by (auto simp: filled_def)
  then have "card {j. j < k \<and> (j < ?p \<or> k - 1 - j < ?q)} \<le> length (filter (\<lambda>s. ks_items s \<noteq> []) ?L)"
    unfolding length_filter_conv_card by (intro card_mono) (auto simp: length_filter_conv_card)
  moreover have "i < min k (?p + ?q)" using i by (auto simp: state_items_merge [OF ok])
  ultimately have "i < length (filter (\<lambda>s. ks_items s \<noteq> []) ?L)"
    using card_two_ends [of ?p k ?q] by linarith
  then show "ks_items (st_sets (state_merge a b) ! i) \<noteq> []"
    unfolding merge_sets [OF ok] by (intro nonempty_first [OF L])
qed

lemma nonneg_merge:
  "state_ok k a \<Longrightarrow> state_ok k b \<Longrightarrow> nonneg_state a \<Longrightarrow> nonneg_state b \<Longrightarrow> nonneg_state (state_merge a b)"
  by (auto simp: nonneg_state_def state_items_merge)


section \<open>Properties\<close>

text \<open>The invariant carried through Karmarkar-Karp on non-negative lengths.\<close>

definition kk_inv :: "nat \<Rightarrow> bool \<Rightarrow> int \<Rightarrow> kstate \<Rightarrow> bool" where
  "kk_inv k equal_size m st \<longleftrightarrow> state_ok k st \<and> nonneg_state st \<and> filled k st \<and> spread_le m st \<and>
     (equal_size \<longrightarrow> evenly k st)"

lemma kk_inv_merge: "kk_inv k e m a \<Longrightarrow> kk_inv k e m b \<Longrightarrow> kk_inv k e m (state_merge a b)"
  unfolding kk_inv_def using state_ok_merge nonneg_merge filled_merge spread_le_merge evenly_merge by blast

lemma kk_inv_new:
  assumes len: "length items = (if e then k else 1)" and k: "0 < k" and st: "state_new items k = Inr st"
    and nn: "\<forall>x \<in> set items. 0 \<le> snd x \<and> snd x \<le> m"
  shows "kk_inv k e m st"
proof -
  have l: "length items = 1 \<or> length items = k" using len by (auto split: if_splits)
  note n = state_new_ok [OF l k st]
  have ne: "items \<noteq> []" using len k by (auto split: if_splits)
  then have m: "0 \<le> m" using nn by (cases items) auto
  have ksum: "0 \<le> ks_sum s \<and> ks_sum s \<le> m" if "s \<in> set (st_sets st)" for s
  proof -
    have "s \<in> insert kset_empty (single ` set items)" using n(3) that by blast
    then show ?thesis using nn m by auto
  qed
  have "filled k st"
    unfolding filled_def
  proof (intro allI impI)
    fix i assume i: "i < min k (size (state_items st))"
    let ?xs = "map single items @ replicate (k - length items) kset_empty"
    have "st_sets st = sorted_reverse ?xs" using state_new_Inr [OF l k] st by simp
    moreover have "ks_items (sorted_reverse ?xs ! i) \<noteq> []"
    proof (rule nonempty_first)
      show "\<forall>s \<in> set ?xs. kset_ok s \<and> (\<forall>x \<in> set (ks_items s). 0 \<le> snd x)" using nn by auto
      have "filter (\<lambda>s. ks_items s \<noteq> []) ?xs = map single items"
        by (simp add: filter_replicate comp_def filter_id_conv)
      then show "i < length (filter (\<lambda>s. ks_items s \<noteq> []) ?xs)" using i n(2) by simp
    qed
    ultimately show "ks_items (st_sets st ! i) \<noteq> []" by simp
  qed
  moreover have "spread_le m st"
    unfolding spread_le_def
  proof (intro ballI)
    fix s t assume "s \<in> set (st_sets st)" "t \<in> set (st_sets st)"
    then show "ks_sum s - ks_sum t \<le> m" using ksum [of s] ksum [of t] by linarith
  qed
  moreover have "nonneg_state st" using n(2) nn by (simp add: nonneg_state_def)
  moreover have "evenly k st" if e
  proof -
    have "set (st_sets st) \<subseteq> single ` set items" using n(4) len that by (metis append_Nil2 cancel_comm_monoid_add_class.diff_cancel image_set replicate_0 set_mset_mset subset_refl)
    then show ?thesis using n(2) len that by (auto simp: evenly_def)
  qed
  ultimately show ?thesis using n(1) by (simp add: kk_inv_def)
qed

lemma karmarkar_karp_result:
  assumes "0 < k" "L \<noteq> []" "e \<Longrightarrow> length L mod k = 0" "\<forall>v \<in> set L. 0 \<le> v \<and> v \<le> m"
  shows "\<exists>st. karmarkar_karp L k e = Inr (get_partitions st) \<and> kk_inv k e m st \<and>
     state_items st = mset (py_enumerate L)"
proof -
  obtain itemss where i: "initial_items L k e = Inr itemss" "mset (concat itemss) = mset (py_enumerate L)"
    "\<forall>items \<in> set itemss. length items = (if e then k else 1)" "itemss \<noteq> []"
    using initial_items_Inr [of k e L] assms(1-3) by auto
  have vals: "\<forall>x \<in> set items. 0 \<le> snd x \<and> snd x \<le> m" if "items \<in> set itemss" for items
  proof
    fix x assume "x \<in> set items"
    then have "x \<in> set (concat itemss)" using that by auto
    then have "x \<in> set (py_enumerate L)" using i(2) by (metis set_mset_mset)
    then have "snd x \<in> set L" by (metis map_snd_py_enumerate image_set imageI)
    then show "0 \<le> snd x \<and> snd x \<le> m" using assms(4) by blast
  qed
  have "\<forall>items \<in> set itemss. length items = 1 \<or> length items = k" using i(3) by (auto split: if_splits)
  from push_states_Inr [OF this assms(1)] obtain pq where pq: "push_states k itemss = Inr pq"
    "length pq = length itemss" "\<forall>st \<in> set pq. \<exists>items \<in> set itemss. state_new items k = Inr st"
    "sum_mset (image_mset state_items (mset pq)) = mset (concat itemss)" by blast
  have inv: "\<forall>st \<in> set pq. kk_inv k e m st"
  proof
    fix st assume "st \<in> set pq"
    then obtain items where it: "items \<in> set itemss" "state_new items k = Inr st" using pq(3) by blast
    show "kk_inv k e m st" by (rule kk_inv_new [OF _ assms(1) it(2) vals [OF it(1)]]) (use i(3) it(1) in blast)
  qed
  have "\<exists>pq'. merge_states pq = Inr pq' \<and> length pq' = min 1 (length pq) \<and> (\<forall>st \<in> set pq'. kk_inv k e m st) \<and>
      sum_list (map state_items pq') = sum_list (map state_items pq)"
  proof (rule merge_states_result [OF inv])
    show "kk_inv k e m (state_merge a b)" if "kk_inv k e m a" "kk_inv k e m b" for a b
      using that by (rule kk_inv_merge)
    show "state_items (state_merge a b) = state_items a + state_items b"
      if "kk_inv k e m a" "kk_inv k e m b" for a b
      using that by (intro state_items_merge) (auto simp: kk_inv_def)
  qed
  then obtain pq' where r: "merge_states pq = Inr pq'" "length pq' = 1" "\<forall>st \<in> set pq'. kk_inv k e m st"
    "sum_list (map state_items pq') = sum_list (map state_items pq)"
    using pq(2) i(4) by (auto simp: min_def Suc_le_eq split: if_splits)
  then obtain st where st: "pq' = [st]" by (cases pq') auto
  have items: "state_items st = mset (py_enumerate L)"
    using r(4) pq(4) i(2) st by (simp add: sum_list_msum)
  have "check_equal_sizes (get_partitions st) k (length L) = Inr (get_partitions st)" if e
    using r(3) st that items by (auto simp: check_equal_sizes_def get_partitions_def kk_inv_def evenly_def raise_if_Inr)
  then show ?thesis
    using i(1) pq(1) r st items by (auto simp: karmarkar_karp_def Let_def)
qed

lemma partitions_of_state:
  assumes "kk_inv k e m st" "state_items st = mset (py_enumerate L)" "k \<le> length L"
  shows "length (get_partitions st) = k" "\<forall>p \<in> set (get_partitions st). p \<noteq> []"
    "mset (concat (get_partitions st)) = mset [0..<length L]"
    "e \<Longrightarrow> \<forall>p \<in> set (get_partitions st). length p * k = length L"
    "\<forall>p \<in> set (get_partitions st). \<forall>q \<in> set (get_partitions st).
       (\<Sum>i \<leftarrow> p. L ! i) - (\<Sum>i \<leftarrow> q. L ! i) \<le> m"
proof -
  have ok: "state_ok k st" "filled k st" "spread_le m st" "e \<Longrightarrow> evenly k st" using assms(1) by (simp_all add: kk_inv_def)
  have sz: "size (state_items st) = length L" using assms(2) by simp
  show len: "length (get_partitions st) = k" using ok(1) by (simp add: get_partitions_def state_ok_def)
  show "\<forall>p \<in> set (get_partitions st). p \<noteq> []"
    using ok(1,2) sz assms(3) by (auto simp: get_partitions_def filled_def state_ok_def in_set_conv_nth)
  have "mset (concat (map (\<lambda>s. map fst (ks_items s)) xs)) = image_mset fst (sum_list (map (\<lambda>s. mset (ks_items s)) xs))" for xs
    by (induction xs) auto
  then have "mset (concat (get_partitions st)) = image_mset fst (mset (py_enumerate L))"
    using assms(2) by (simp add: get_partitions_def state_items_def)
  then show "mset (concat (get_partitions st)) = mset [0..<length L]" by (metis map_fst_py_enumerate mset_map)
  show "\<forall>p \<in> set (get_partitions st). length p * k = length L" if e
    using ok(4) [OF that] sz by (auto simp: get_partitions_def evenly_def)
  have "(\<Sum>i \<leftarrow> map fst (ks_items s). L ! i) = ks_sum s" if s: "s \<in> set (st_sets st)" for s
  proof -
    have "snd x = L ! fst x" if "x \<in> set (ks_items s)" for x
      using in_state_items [OF s that] assms(2) by (auto simp: set_py_enumerate)
    then have eq: "map ((!) L) (map fst (ks_items s)) = map snd (ks_items s)" by simp
    have "ks_sum s = sum_list (map snd (ks_items s))" using ok(1) s by (simp add: state_ok_def kset_ok_def)
    then show ?thesis by (simp only: eq)
  qed
  then show "\<forall>p \<in> set (get_partitions st). \<forall>q \<in> set (get_partitions st). (\<Sum>i \<leftarrow> p. L ! i) - (\<Sum>i \<leftarrow> q. L ! i) \<le> m"
    using ok(3) by (auto simp: get_partitions_def spread_le_def)
qed

lemma balanced_partitions_result:
  assumes "0 < k" "k \<le> length L" "\<forall>v \<in> set L. 0 \<le> v" "equal_size \<longrightarrow> length L mod k = 0"
  obtains st where "get_seqlen_balanced_partitions L k equal_size = Inr (map sort (get_partitions st))"
    "kk_inv k equal_size (Max (set L)) st" "state_items st = mset (py_enumerate L)"
proof -
  have ne: "L \<noteq> []" using assms(1,2) by auto
  obtain st where kk: "karmarkar_karp L k equal_size = Inr (get_partitions st)"
    and inv: "kk_inv k equal_size (Max (set L)) st" "state_items st = mset (py_enumerate L)"
    using karmarkar_karp_result [OF assms(1) ne, of equal_size "Max (set L)"] assms(3,4) by auto
  note p = partitions_of_state [OF inv assms(2)]
  have "set (concat (get_partitions st)) = {0..<length L}"
    using p(3) by (metis atLeastLessThan_upt set_mset_mset)
  then have "get_seqlen_balanced_partitions L k equal_size = Inr (map sort (get_partitions st))"
    using kk p(1,2) assms(2) by (auto simp: get_seqlen_balanced_partitions_def check_and_sort_partitions_def raise_if_def)
  then show thesis using inv by (rule that)
qed

lemma mset_concat_map_sort: "mset (concat (map sort xs)) = mset (concat xs)"
  by (induction xs) auto

lemma sort_eq_Nil [simp]: "sort q = [] \<longleftrightarrow> q = []"
  by (metis length_0_conv length_sort)

text \<open>A successful split is a partition of the indices into \<open>k\<close> non-empty lists.\<close>

lemma balanced_partitions_Inr:
  assumes r: "get_seqlen_balanced_partitions L k e = Inr ps" and nonneg: "\<forall>v \<in> set L. 0 \<le> v" and ne: "L \<noteq> []"
  shows "0 < k" "k \<le> length L" "length ps = k" "\<forall>p \<in> set ps. p \<noteq> [] \<and> sorted p" "mset (concat ps) = mset [0..<length L]"
    "e \<longrightarrow> (\<forall>p \<in> set ps. length p * k = length L)"
proof -
  show k: "k \<le> length L" using r by (auto simp: get_seqlen_balanced_partitions_def raise_if_Inr)
  show pos: "0 < k"
    using r ne by (auto simp: get_seqlen_balanced_partitions_def check_and_sort_partitions_def raise_if_Inr ebind_Inr)
  have e: "e \<longrightarrow> length L mod k = 0"
    using r by (auto simp: get_seqlen_balanced_partitions_def karmarkar_karp_def initial_items_def Let_def raise_if_Inr ebind_Inr)
  obtain st where st: "get_seqlen_balanced_partitions L k e = Inr (map sort (get_partitions st))"
    "kk_inv k e (Max (set L)) st" "state_items st = mset (py_enumerate L)"
    by (rule balanced_partitions_result [OF pos k nonneg e])
  have ps: "ps = map sort (get_partitions st)" using r st(1) by simp
  note p = partitions_of_state [OF st(2,3) k]
  show "length ps = k" "\<forall>p \<in> set ps. p \<noteq> [] \<and> sorted p" "mset (concat ps) = mset [0..<length L]"
    "e \<longrightarrow> (\<forall>p \<in> set ps. length p * k = length L)"
    using p(1,2,3,4) by (auto simp: ps mset_concat_map_sort)
qed

text \<open>
  C38: Balanced partitioning is total and correct. For non-negative lengths, between one and
  \<open>length L\<close> partitions and, with \<open>equal_size\<close>, a divisible number of items, none of the
  assertions of the front end fires: it returns \<open>k\<close> non-empty sorted index lists that
  together contain every index exactly once, all of one size when that was asked for; and the
  total lengths of any two partitions differ by at most the longest single length.
\<close>

theorem balanced_partitions_correct:
  assumes "0 < k" "k \<le> length L" "\<forall>v \<in> set L. 0 \<le> v" "equal_size \<longrightarrow> length L mod k = 0"
  shows "\<exists>ps. get_seqlen_balanced_partitions L k equal_size = Inr ps \<and> length ps = k \<and>
     (\<forall>p \<in> set ps. p \<noteq> [] \<and> sorted p) \<and> mset (concat ps) = mset [0..<length L] \<and>
     (equal_size \<longrightarrow> (\<forall>p \<in> set ps. length p * k = length L)) \<and>
     (\<forall>p \<in> set ps. \<forall>q \<in> set ps. (\<Sum>i \<leftarrow> p. L ! i) - (\<Sum>i \<leftarrow> q. L ! i) \<le> Max (set L))"
proof -
  obtain st where st: "get_seqlen_balanced_partitions L k equal_size = Inr (map sort (get_partitions st))"
    "kk_inv k equal_size (Max (set L)) st" "state_items st = mset (py_enumerate L)"
    by (rule balanced_partitions_result [OF assms])
  note p = partitions_of_state [OF st(2,3) assms(2)]
  have "(\<Sum>i \<leftarrow> sort q. L ! i) = (\<Sum>i \<leftarrow> q. L ! i)" for q by (simp add: sum_list_msum)
  then show ?thesis using st(1) p
    by (intro exI [of _ "map sort (get_partitions st)"]) (auto simp: mset_concat_map_sort)
qed

lemma balanced_partitions_correct_witness:
  "\<exists>ps. get_seqlen_balanced_partitions [5, 3, 8, 1] 2 True = Inr ps \<and> length ps = 2 \<and>
     (\<forall>p \<in> set ps. length p * 2 = 4)"
proof -
  obtain ps where "get_seqlen_balanced_partitions [5, 3, 8, 1] 2 True = Inr ps" "length ps = 2"
    "\<forall>p \<in> set ps. length p * 2 = length [5, 3, 8, 1 :: int]"
    using balanced_partitions_correct [of 2 "[5, 3, 8, 1]" True] by force
  then show ?thesis by (intro exI [of _ ps]) auto
qed


text \<open>
  Largest differences first. On a heap-ordered queue one turn of the merging loop removes
  the state of largest spread and the state of largest spread among the rest, puts their merge
  back and leaves a heap-ordered queue; so the loop is the largest differencing method.
\<close>

theorem merges_largest_spreads:
  assumes "heap_ordered state_less pq" "1 < length pq"
  shows "\<exists>a b rest. merge_states pq = merge_states (heappush state_less rest (state_merge a b)) \<and>
     heap_ordered state_less (heappush state_less rest (state_merge a b)) \<and>
     mset pq = add_mset a (add_mset b (mset rest)) \<and> spread b \<le> spread a \<and>
     (\<forall>st \<in> set rest. spread st \<le> spread b)"
proof -
  obtain a b q1 q2 where p: "heappop state_less pq = Inr (a, q1)" "heappop state_less q1 = Inr (b, q2)"
    and eq: "merge_states pq = merge_states (heappush state_less q2 (state_merge a b))"
    and ms: "mset pq = add_mset a (add_mset b (mset q2))" by (rule merge_states_step [OF assms(2)])
  have o: "heap_ordered state_less q2"
    by (rule state_order.heapq.pop_inv [OF state_order.heapq.pop_inv [OF assms(1) p(1)] p(2)])
  have sp: "spread x \<le> spread y" if "\<not> state_less x y" for x y
    using that by (auto simp: state_less_def split: if_splits)
  have "b \<in># mset pq" using ms by simp
  then have "\<not> state_less b a" by (rule state_order.heapq.pop_min [OF assms(1) p(1)])
  moreover have "\<forall>st \<in> set q2. \<not> state_less st b"
    using state_order.heapq.combine_least_least(2) [OF assms(1) p] by simp
  ultimately show ?thesis
    using eq ms sp state_order.heapq.push_inv [OF o] by blast
qed

lemma merges_largest_spreads_witness:
  "let a = \<lparr>st_k = 1, st_sets = [KSet 3 [(0, 3)]]\<rparr> in
   \<exists>x y rest. mset [a, a] = add_mset x (add_mset y (mset rest)) \<and> spread y \<le> spread x"
proof -
  let ?a = "\<lparr>st_k = 1, st_sets = [KSet 3 [(0, 3)]]\<rparr>"
  have "heap_ordered state_less [?a, ?a]" "1 < length [?a, ?a]"
    by (simp_all add: heap_ordered_def state_less_def spread_def)
  from merges_largest_spreads [OF this] show ?thesis unfolding Let_def by blast
qed

lemma min_index_Some:
  "totals \<noteq> [] \<Longrightarrow> \<exists>m. min_index totals = Some m \<and> m < length totals \<and> (\<forall>j < length totals. totals ! m \<le> totals ! j)"
proof -
  let ?f = "\<lambda>j m. case m of None \<Rightarrow> Some j | Some i \<Rightarrow> if totals ! j < totals ! i then Some j else Some i"
  have "\<exists>m. fold ?f [0..<Suc n] None = Some m \<and> m \<le> n \<and> (\<forall>j \<le> n. totals ! m \<le> totals ! j)" for n
  proof (induction n)
    case (Suc n)
    then obtain m where m: "fold ?f [0..<Suc n] None = Some m" "m \<le> n" "\<forall>j \<le> n. totals ! m \<le> totals ! j" by blast
    have "fold ?f [0..<Suc (Suc n)] None = (if totals ! Suc n < totals ! m then Some (Suc n) else Some m)"
      using m(1) by (simp add: upt_Suc_append)
    then show ?case using m(2,3) by (auto simp: le_Suc_eq intro: order.trans less_imp_le)
  qed simp
  from this [of "length totals - 1"] obtain m where m: "fold ?f [0..<Suc (length totals - 1)] None = Some m"
    "m \<le> length totals - 1" "\<forall>j \<le> length totals - 1. totals ! m \<le> totals ! j" by blast
  assume "totals \<noteq> []"
  then have n: "Suc (length totals - 1) = length totals" by simp
  have "j \<le> length totals - 1 \<longleftrightarrow> j < length totals" for j using n by linarith
  with m(2,3) have "m < length totals" "\<forall>j < length totals. totals ! m \<le> totals ! j" by auto
  with m(1) [unfolded n] show ?thesis by (auto simp: min_index_def)
qed

text \<open>
  The invariant of the greedy loop with the bias: every total is the bias times the number of
  items plus their lengths, which stay below the bias; so a shorter partition has a smaller
  total, and sizes differ by at most one.
\<close>

definition greedy_inv :: "int list \<Rightarrow> nat \<Rightarrow> int \<Rightarrow> nat list list \<Rightarrow> int list \<Rightarrow> nat multiset \<Rightarrow> bool" where
  "greedy_inv L k bias parts totals seen \<longleftrightarrow> length parts = k \<and> length totals = k \<and>
     mset (concat parts) = seen \<and>
     (\<forall>j < k. totals ! j = int (length (parts ! j)) * bias + (\<Sum>i \<leftarrow> parts ! j. L ! i)) \<and>
     (\<forall>i < k. \<forall>j < k. length (parts ! i) \<le> Suc (length (parts ! j)))"

lemma mset_concat_update:
  "m < length parts \<Longrightarrow> mset (concat (parts[m := parts ! m @ [i]])) = add_mset i (mset (concat parts))"
proof (induction parts arbitrary: m)
  case (Cons p ps)
  then show ?case by (cases m) auto
qed simp

lemma sum_mset_nonneg_values: "(\<And>x. x \<in># M \<Longrightarrow> (0 :: int) \<le> f x) \<Longrightarrow> 0 \<le> sum_mset (image_mset f M)"
  by (induction M) auto

lemma part_sum_le:
  fixes L :: "int list"
  assumes "j < length parts" "mset (concat parts) \<subseteq># mset [0..<length L]" "\<forall>v \<in> set L. 0 \<le> v"
  shows "0 \<le> (\<Sum>i \<leftarrow> parts ! j. L ! i)" "(\<Sum>i \<leftarrow> parts ! j. L ! i) \<le> sum_list L"
proof -
  have sub: "mset (parts ! j) \<subseteq># mset (concat parts)"
    using assms(1)
  proof (induction parts arbitrary: j)
    case (Cons p ps)
    then show ?case by (cases j) (auto intro: subset_mset.add_increasing)
  qed simp
  then have s2: "mset (parts ! j) \<subseteq># mset [0..<length L]" using assms(2) by (rule subset_mset.order_trans)
  have nn: "0 \<le> L ! i" if "i \<in># mset [0..<length L]" for i using that assms(3) by simp
  show "0 \<le> (\<Sum>i \<leftarrow> parts ! j. L ! i)"
  proof (rule sum_list_nonneg)
    fix x assume "x \<in> set (map ((!) L) (parts ! j))"
    then obtain i where "i \<in># mset (parts ! j)" "x = L ! i" by auto
    then show "0 \<le> x" using nn [OF mset_subset_eqD [OF s2]] by simp
  qed
  obtain rest where r: "mset [0..<length L] = mset (parts ! j) + rest" using s2 mset_subset_eq_exists_conv by blast
  have "sum_mset (image_mset (\<lambda>i. L ! i) (mset [0..<length L])) = (\<Sum>i \<leftarrow> parts ! j. L ! i) + sum_mset (image_mset (\<lambda>i. L ! i) rest)"
    unfolding r by (simp add: sum_list_msum)
  moreover have "0 \<le> sum_mset (image_mset (\<lambda>i. L ! i) rest)"
    using nn unfolding r by (intro sum_mset_nonneg_values) auto
  moreover have "sum_mset (image_mset (\<lambda>i. L ! i) (mset [0..<length L])) = sum_list L"
    by (metis map_nth sum_list_msum)
  ultimately show "(\<Sum>i \<leftarrow> parts ! j. L ! i) \<le> sum_list L" by linarith
qed

lemma greedy_step:
  assumes inv: "greedy_inv L k bias parts totals seen" and k: "0 < k" and bias: "bias = sum_list L + 1"
    and nn: "\<forall>v \<in> set L. 0 \<le> v" and seen: "add_mset i seen \<subseteq># mset [0..<length L]"
  obtains m where "min_index totals = Some m"
    "greedy_inv L k bias (parts[m := parts ! m @ [i]]) (totals[m := totals ! m + (L ! i + bias)]) (add_mset i seen)"
proof -
  have len: "length parts = k" "length totals = k" and ms: "mset (concat parts) = seen"
    and tot: "\<And>j. j < k \<Longrightarrow> totals ! j = int (length (parts ! j)) * bias + (\<Sum>i \<leftarrow> parts ! j. L ! i)"
    and sz: "\<And>i j. i < k \<Longrightarrow> j < k \<Longrightarrow> length (parts ! i) \<le> Suc (length (parts ! j))"
    using inv by (auto simp: greedy_inv_def)
  obtain m where m: "min_index totals = Some m" "m < k" "\<And>j. j < k \<Longrightarrow> totals ! m \<le> totals ! j"
    using min_index_Some [of totals] len k by (metis length_greater_0_conv)
  have sub: "mset (concat parts) \<subseteq># mset [0..<length L]"
    using seen ms by (meson subset_mset.order_trans mset_subset_eq_add_mset_cancel mset_subset_eq_insertD subset_mset.less_imp_le)
  have least: "length (parts ! m) \<le> length (parts ! j)" if j: "j < k" for j
  proof (rule ccontr)
    assume "\<not> length (parts ! m) \<le> length (parts ! j)"
    then have "int (length (parts ! j)) + 1 \<le> int (length (parts ! m))" by linarith
    moreover have b0: "0 < bias" using nn by (simp add: bias sum_list_nonneg add_nonneg_pos)
    ultimately have "(int (length (parts ! j)) + 1) * bias \<le> int (length (parts ! m)) * bias"
      by (simp add: mult_right_mono)
    moreover have "(\<Sum>i \<leftarrow> parts ! j. L ! i) < bias" "0 \<le> (\<Sum>i \<leftarrow> parts ! m. L ! i)"
      using part_sum_le [OF _ sub nn] j m(2) len by (simp_all add: bias)
    ultimately have "totals ! j < totals ! m" using tot j m(2) by (simp add: distrib_right)
    then show False using m(3) [OF j] by simp
  qed
  have "greedy_inv L k bias (parts[m := parts ! m @ [i]]) (totals[m := totals ! m + (L ! i + bias)]) (add_mset i seen)"
    unfolding greedy_inv_def
  proof (intro conjI allI impI)
    show "mset (concat (parts[m := parts ! m @ [i]])) = add_mset i seen"
      using mset_concat_update [of m parts i] m(2) len ms by simp
    show "totals[m := totals ! m + (L ! i + bias)] ! j = int (length (parts[m := parts ! m @ [i]] ! j)) * bias +
        (\<Sum>i \<leftarrow> parts[m := parts ! m @ [i]] ! j. L ! i)" if "j < k" for j
      using tot that m(2) len by (cases "j = m") (simp_all add: distrib_right)
    show "length (parts[m := parts ! m @ [i]] ! a) \<le> Suc (length (parts[m := parts ! m @ [i]] ! b))" if "a < k" "b < k" for a b
      using sz [OF that] least [OF that(2)] that len m(2) by (cases "a = m"; cases "b = m") auto
  qed (use len in simp_all)
  with m(1) show ?thesis using that by blast
qed

lemma greedy_loop_inv:
  assumes "0 < k" "bias = sum_list L + 1" "\<forall>v \<in> set L. 0 \<le> v"
    and "greedy_inv L k bias parts totals seen" "seen + mset is = mset [0..<length L]"
  shows "\<exists>ps totals'. greedy_loop (map (\<lambda>i. (L ! i + bias, i)) is) parts totals = Inr ps \<and>
     greedy_inv L k bias ps totals' (mset [0..<length L])"
  using assms(4,5)
proof (induction "is" arbitrary: parts totals seen)
  case (Cons i xs)
  have "add_mset i seen + mset xs = mset [0..<length L]" using Cons.prems(2) by simp
  then have "add_mset i seen \<subseteq># mset [0..<length L]" by (metis mset_subset_eq_add_left)
  from greedy_step [OF Cons.prems(1) assms(1-3) this] obtain m where m: "min_index totals = Some m"
    "greedy_inv L k bias (parts[m := parts ! m @ [i]]) (totals[m := totals ! m + (L ! i + bias)]) (add_mset i seen)" .
  have "add_mset i seen + mset xs = mset [0..<length L]" using Cons.prems(2) by simp
  from Cons.IH [OF m(2) this] show ?case using m(1) by simp
qed auto


text \<open>
  The greedy bias works. For non-negative lengths and at least one partition,
  \<open>greedy_partition\<close> with \<open>equal_size\<close> succeeds exactly when the number of items is
  divisible by the number of partitions, and then it returns partitions of one size that
  together contain every index once: the bias alone forces equal sizes.
\<close>

theorem greedy_equal_size:
  assumes "0 < k" "\<forall>v \<in> set L. 0 \<le> v"
  shows "(\<exists>ps. greedy_partition L k True = Inr ps) = (length L mod k = 0) \<and>
     (\<forall>ps. greedy_partition L k True = Inr ps \<longrightarrow> length ps = k \<and>
        mset (concat ps) = mset [0..<length L] \<and> (\<forall>p \<in> set ps. length p * k = length L))"
proof -
  let ?b = "sum_list L + 1"
  have items: "map (\<lambda>(i, seqlen). (seqlen + ?b, i)) (py_enumerate L) = map (\<lambda>i. (L ! i + ?b, i)) [0..<length L]"
    by (rule nth_equalityI) auto
  have "greedy_inv L k ?b (replicate k []) (replicate k 0) {#}"
    by (simp add: greedy_inv_def)
  from greedy_loop_inv [OF assms(1) refl assms(2) this, of "[0..<length L]"]
  obtain ps totals where loop: "greedy_loop (map (\<lambda>i. (L ! i + ?b, i)) [0..<length L]) (replicate k []) (replicate k 0) = Inr ps"
    and inv: "greedy_inv L k ?b ps totals (mset [0..<length L])" by auto
  have lk: "length ps = k" and all: "mset (concat ps) = mset [0..<length L]"
    and near: "\<And>i j. i < k \<Longrightarrow> j < k \<Longrightarrow> length (ps ! i) \<le> Suc (length (ps ! j))"
    using inv by (auto simp: greedy_inv_def)
  have total: "(\<Sum>j < k. length (ps ! j)) = length L"
  proof -
    have "length (concat ps) = length L" by (metis all length_upt minus_nat.diff_0 size_mset)
    then show ?thesis using lk by (simp add: length_concat sum_list_sum_nth atLeast0LessThan)
  qed
  have eq: "greedy_partition L k True = check_equal_sizes ps k (length L)"
    using loop by (simp add: greedy_partition_def Let_def items)
  have equal: "length (ps ! j) * k = length L" if div: "length L mod k = 0" and j: "j < k" for j
  proof -
    obtain q where q: "length L = k * q" using div by auto
    have "length (ps ! i) = q" if i: "i < k" for i
    proof (rule ccontr)
      assume "length (ps ! i) \<noteq> q"
      then consider "length (ps ! i) < q" | "q < length (ps ! i)" by linarith
      then show False
      proof cases
        case 1
        have "(\<Sum>j < k. length (ps ! j)) < (\<Sum>j < k. q)"
        proof (rule sum_strict_mono_ex1)
          show "\<forall>j \<in> {..<k}. length (ps ! j) \<le> q" using near [OF _ i] 1 by fastforce
        qed (use i 1 in auto)
        then show False using total q by simp
      next
        case 2
        have "(\<Sum>j < k. q) < (\<Sum>j < k. length (ps ! j))"
        proof (rule sum_strict_mono_ex1)
          show "\<forall>j \<in> {..<k}. q \<le> length (ps ! j)" using near [OF i] 2 by fastforce
        qed (use i 2 in auto)
        then show False using total q by simp
      qed
    qed
    then show ?thesis using j q by simp
  qed
  have "(\<exists>r. check_equal_sizes ps k (length L) = Inr r) \<longleftrightarrow> (\<forall>p \<in> set ps. length p * k = length L)"
    by (auto simp: check_equal_sizes_def raise_if_Inr)
  also have "\<dots> \<longleftrightarrow> length L mod k = 0"
  proof
    assume "\<forall>p \<in> set ps. length p * k = length L"
    moreover have "hd ps \<in> set ps" using lk assms(1) by (cases ps) auto
    ultimately have "length (hd ps) * k = length L" by blast
    then show "length L mod k = 0" by (metis mod_mult_self2_is_0)
  qed (use equal lk in \<open>auto simp: in_set_conv_nth\<close>)
  finally show ?thesis
    unfolding eq using lk all by (auto simp: check_equal_sizes_def raise_if_Inr)
qed

lemma greedy_equal_size_witness:
  "(\<exists>ps. greedy_partition [7, 0, 2, 9] 2 True = Inr ps) \<and> \<not> (\<exists>ps. greedy_partition [7, 0, 2] 2 True = Inr ps)"
  using greedy_equal_size [of 2 "[7, 0, 2, 9]"] greedy_equal_size [of 2 "[7, 0, 2]"] by simp

text \<open>
  Rounding. For a positive divisor \<open>ceildiv\<close> is the least integer whose multiple reaches
  the dividend and \<open>roundup_divisible\<close> is that multiple.
\<close>

theorem rounding_helpers:
  assumes "0 < b"
  shows "\<exists>q. ceildiv a b = Inr q \<and> roundup_divisible a b = Inr (q * b) \<and> a \<le> q * b \<and> (q - 1) * b < a"
proof -
  define q where "q = - (a div (- b))"
  have d: "a div (- b) * (- b) + a mod (- b) = a" by (rule div_mult_mod_eq)
  have r: "- b < a mod (- b)" "a mod (- b) \<le> 0" using assms by (simp_all add: neg_mod_bound neg_mod_sign)
  have qb: "q * b = a div (- b) * (- b)" by (simp add: q_def)
  have le: "a \<le> q * b" using d r qb by linarith
  have lt: "(q - 1) * b < a" using d r qb by (simp add: left_diff_distrib)
  have "(a + b - 1) div b = q"
  proof (rule int_div_pos_eq)
    show "a + b - 1 = b * q + (a + b - 1 - q * b)" by (simp add: mult.commute)
    show "0 \<le> a + b - 1 - q * b" using lt by (simp add: left_diff_distrib)
    show "a + b - 1 - q * b < b" using le by simp
  qed
  then show ?thesis using assms le lt by (simp add: ceildiv_def roundup_divisible_def q_def)
qed

lemma rounding_helpers_witness:
  "\<exists>q. ceildiv 7 4 = Inr q \<and> roundup_divisible 7 4 = Inr (q * 4) \<and> 7 \<le> q * 4"
  using rounding_helpers [of 4 7] by auto

end
