(* ===== verification/Tensors.thy ===== *)
theory Tensors
  imports Prelude
begin

text \<open>
  Floating-point values and tensors as the PyTorch code uses them.

  A float is a finite real or one of the IEEE specials. Rounding, overflow and signed zeros
  are not modelled: arithmetic on finite values is exact real arithmetic, the specials
  propagate as IEEE 754 prescribes. So "is finite" guards and NaN poisoning are visible.

  A vector is a list; a two-dimensional tensor is a record of its width and its rows, so
  that an empty batch still has a width. Rank, dtype and device of a tensor are fixed by its
  HOL type (one device), hence guards on rank, dtype and device are discharged by typing;
  guards on shapes are kept as tests.
\<close>

section \<open>Floating-point values\<close>

datatype flt = Fin real | PInf | MInf | NaN

fun is_finite :: "flt \<Rightarrow> bool" where
  "is_finite (Fin x) = True"
| "is_finite _ = False"

text \<open>The real behind a finite value; the specials have none and are mapped to zero.\<close>

fun fval :: "flt \<Rightarrow> real" where
  "fval (Fin x) = x"
| "fval _ = 0"

fun fneg :: "flt \<Rightarrow> flt" where
  "fneg (Fin x) = Fin (- x)"
| "fneg PInf = MInf"
| "fneg MInf = PInf"
| "fneg NaN = NaN"

fun fadd :: "flt \<Rightarrow> flt \<Rightarrow> flt" where
  "fadd (Fin x) (Fin y) = Fin (x + y)"
| "fadd NaN _ = NaN"
| "fadd _ NaN = NaN"
| "fadd PInf MInf = NaN"
| "fadd MInf PInf = NaN"
| "fadd PInf _ = PInf"
| "fadd _ PInf = PInf"
| "fadd MInf _ = MInf"
| "fadd _ MInf = MInf"

definition fsub :: "flt \<Rightarrow> flt \<Rightarrow> flt" where
  "fsub x y = fadd x (fneg y)"

text \<open>\<open>finf s\<close> is infinity with the sign of \<open>s\<close>; zero times infinity is NaN.\<close>

definition finf :: "real \<Rightarrow> flt" where
  "finf s = (if s > 0 then PInf else if s < 0 then MInf else NaN)"

fun fmul :: "flt \<Rightarrow> flt \<Rightarrow> flt" where
  "fmul (Fin x) (Fin y) = Fin (x * y)"
| "fmul NaN _ = NaN"
| "fmul _ NaN = NaN"
| "fmul (Fin x) PInf = finf x"
| "fmul (Fin x) MInf = finf (- x)"
| "fmul PInf (Fin y) = finf y"
| "fmul MInf (Fin y) = finf (- y)"
| "fmul PInf PInf = PInf"
| "fmul MInf MInf = PInf"
| "fmul PInf MInf = MInf"
| "fmul MInf PInf = MInf"

text \<open>Division by a positive finite number (a count).\<close>

fun fdiv_pos :: "flt \<Rightarrow> real \<Rightarrow> flt" where
  "fdiv_pos (Fin x) c = Fin (x / c)"
| "fdiv_pos v c = v"

fun fabs :: "flt \<Rightarrow> flt" where
  "fabs (Fin x) = Fin \<bar>x\<bar>"
| "fabs PInf = PInf"
| "fabs MInf = PInf"
| "fabs NaN = NaN"

text \<open>Comparisons are false on NaN.\<close>

fun fless :: "flt \<Rightarrow> flt \<Rightarrow> bool" where
  "fless (Fin x) (Fin y) = (x < y)"
| "fless NaN _ = False"
| "fless _ NaN = False"
| "fless PInf _ = False"
| "fless _ MInf = False"
| "fless _ _ = True"

fun feq :: "flt \<Rightarrow> flt \<Rightarrow> bool" where
  "feq (Fin x) (Fin y) = (x = y)"
| "feq PInf PInf = True"
| "feq MInf MInf = True"
| "feq _ _ = False"

definition fle :: "flt \<Rightarrow> flt \<Rightarrow> bool" where
  "fle x y = (fless x y \<or> feq x y)"

text \<open>\<open>tensor.clamp_min(m)\<close> for a finite \<open>m\<close>: NaN stays NaN.\<close>

fun fclamp_min :: "real \<Rightarrow> flt \<Rightarrow> flt" where
  "fclamp_min m (Fin x) = Fin (max m x)"
| "fclamp_min m PInf = PInf"
| "fclamp_min m MInf = Fin m"
| "fclamp_min m NaN = NaN"

definition fsum :: "flt list \<Rightarrow> flt" where
  "fsum xs = foldr fadd xs (Fin 0)"

text \<open>The mean of an empty tensor is NaN.\<close>

definition fmean :: "flt list \<Rightarrow> flt" where
  "fmean xs = (if xs = [] then NaN else fdiv_pos (fsum xs) (real (length xs)))"

text \<open>Conversion of a boolean mask to 0.0 / 1.0.\<close>

definition of_mask :: "bool \<Rightarrow> flt" where
  "of_mask b = Fin (if b then 1 else 0)"

definition rmean :: "real list \<Rightarrow> real" where
  "rmean xs = sum_list xs / real (length xs)"

lemma is_finite_iff: "is_finite v \<longleftrightarrow> (\<exists>x. v = Fin x)"
  by (cases v) auto

lemma is_finite_fval [simp]: "is_finite v \<Longrightarrow> Fin (fval v) = v"
  by (cases v) auto

lemma fsub_Fin [simp]: "fsub (Fin x) (Fin y) = Fin (x - y)"
  by (simp add: fsub_def)

lemma fmul_zero_finite: "is_finite v \<Longrightarrow> fmul v (Fin 0) = Fin 0" "is_finite v \<Longrightarrow> fmul (Fin 0) v = Fin 0"
  by (cases v; simp)+

lemma fmul_one [simp]: "fmul v (Fin 1) = v" "fmul (Fin 1) v = v"
  by (cases v; simp add: finf_def)+

lemma of_mask_simps [simp]: "of_mask True = Fin 1" "of_mask False = Fin 0"
  by (simp_all add: of_mask_def)

lemma fle_Fin [simp]: "fle (Fin x) (Fin y) \<longleftrightarrow> x \<le> y"
  by (auto simp: fle_def)

lemma fsum_Nil [simp]: "fsum [] = Fin 0"
  by (simp add: fsum_def)

lemma fsum_Cons [simp]: "fsum (x # xs) = fadd x (fsum xs)"
  by (simp add: fsum_def)

lemma fsum_Fin [simp]: "fsum (map (\<lambda>i. Fin (f i)) xs) = Fin (sum_list (map f xs))"
  by (induction xs) auto

lemma fsum_Fin_list: "fsum (map Fin xs) = Fin (sum_list xs)"
  by (induction xs) auto

lemma fadd_NaN [simp]: "fadd v NaN = NaN" "fadd NaN v = NaN"
  by (cases v; simp)+

lemma fsum_NaN: "NaN \<in> set xs \<Longrightarrow> fsum xs = NaN"
  by (induction xs) auto

lemma fmean_Fin: "xs \<noteq> [] \<Longrightarrow> fmean (map Fin xs) = Fin (rmean xs)"
  by (simp add: fmean_def fsum_Fin_list rmean_def)

lemma is_finite_fadd: "is_finite x \<Longrightarrow> is_finite y \<Longrightarrow> is_finite (fadd x y)"
  by (auto simp: is_finite_iff)

lemma is_finite_fmul: "is_finite x \<Longrightarrow> is_finite y \<Longrightarrow> is_finite (fmul x y)"
  by (auto simp: is_finite_iff)

lemma is_finite_fsum: "(\<And>x. x \<in> set xs \<Longrightarrow> is_finite x) \<Longrightarrow> is_finite (fsum xs)"
  by (induction xs) (auto intro: is_finite_fadd)

section \<open>Matrices\<close>

record 'a mat =
  width :: nat
  rows :: "'a list list"

definition wf_mat :: "'a mat \<Rightarrow> bool" where
  "wf_mat m \<longleftrightarrow> (\<forall>r \<in> set (rows m). length r = width m)"

definition height :: "'a mat \<Rightarrow> nat" where
  "height m = length (rows m)"

definition shape :: "'a mat \<Rightarrow> nat \<times> nat" where
  "shape m = (height m, width m)"

definition mget :: "'a mat \<Rightarrow> nat \<Rightarrow> nat \<Rightarrow> 'a" where
  "mget m i j = rows m ! i ! j"

definition mmap :: "('a \<Rightarrow> 'b) \<Rightarrow> 'a mat \<Rightarrow> 'b mat" where
  "mmap f m = \<lparr>width = width m, rows = map (map f) (rows m)\<rparr>"

text \<open>Elementwise operation on two matrices of one shape.\<close>

definition mmap2 :: "('a \<Rightarrow> 'b \<Rightarrow> 'c) \<Rightarrow> 'a mat \<Rightarrow> 'b mat \<Rightarrow> 'c mat" where
  "mmap2 f a b = \<lparr>width = width a, rows = map2 (map2 f) (rows a) (rows b)\<rparr>"

text \<open>\<open>mtab h w f\<close> builds the \<open>h\<close> by \<open>w\<close> matrix with entries \<open>f i j\<close>.\<close>

definition mtab :: "nat \<Rightarrow> nat \<Rightarrow> (nat \<Rightarrow> nat \<Rightarrow> 'a) \<Rightarrow> 'a mat" where
  "mtab h w f = \<lparr>width = w, rows = map (\<lambda>i. map (f i) [0..<w]) [0..<h]\<rparr>"

text \<open>\<open>v.unsqueeze(-1).expand(len(v), w)\<close>: one row per entry of a vector.\<close>

definition col_bcast :: "nat \<Rightarrow> 'a list \<Rightarrow> 'a mat" where
  "col_bcast w v = \<lparr>width = w, rows = map (replicate w) v\<rparr>"

text \<open>\<open>values[mask]\<close>: the selected entries in row-major order.\<close>

definition vselect :: "bool list \<Rightarrow> 'a list \<Rightarrow> 'a list" where
  "vselect bs xs = map snd (filter fst (zip bs xs))"

definition mselect :: "bool mat \<Rightarrow> 'a mat \<Rightarrow> 'a list" where
  "mselect b m = concat (map2 vselect (rows b) (rows m))"

definition vcount :: "bool list \<Rightarrow> nat" where
  "vcount bs = length (filter id bs)"

definition mcount :: "bool mat \<Rightarrow> nat" where
  "mcount m = sum_list (map vcount (rows m))"

lemma shape_eqD: "shape a = shape b \<Longrightarrow> height a = height b \<and> width a = width b"
  by (simp add: shape_def)

lemma wf_mmap [mat_simps]: "wf_mat m \<Longrightarrow> wf_mat (mmap f m)"
  by (auto simp: wf_mat_def mmap_def)

lemma shape_mmap [mat_simps]: "shape (mmap f m) = shape m"
  by (simp add: shape_def height_def mmap_def)

lemma height_mmap [mat_simps]: "height (mmap f m) = height m"
  by (simp add: height_def mmap_def)

lemma width_mmap [mat_simps]: "width (mmap f m) = width m"
  by (simp add: mmap_def)

lemma height_mmap2 [mat_simps]: "height (mmap2 f a b) = min (height a) (height b)"
  by (simp add: height_def mmap2_def)

lemma width_mmap2 [mat_simps]: "width (mmap2 f a b) = width a"
  by (simp add: mmap2_def)

lemma shape_mmap2 [mat_simps]: "shape a = shape b \<Longrightarrow> shape (mmap2 f a b) = shape a"
  by (simp add: shape_def height_mmap2 width_mmap2)

lemma wf_mmap2 [mat_simps]:
  "wf_mat a \<Longrightarrow> wf_mat b \<Longrightarrow> width a = width b \<Longrightarrow> wf_mat (mmap2 f a b)"
  by (auto simp: wf_mat_def mmap2_def dest!: set_zip_leftD set_zip_rightD elim!: in_set_zipE)

lemma mget_mmap [mat_simps]:
  "wf_mat m \<Longrightarrow> i < height m \<Longrightarrow> j < width m \<Longrightarrow> mget (mmap f m) i j = f (mget m i j)"
  by (simp add: mget_def mmap_def wf_mat_def height_def)

lemma mget_mmap2 [mat_simps]:
  "wf_mat a \<Longrightarrow> wf_mat b \<Longrightarrow> i < height a \<Longrightarrow> i < height b \<Longrightarrow> j < width a \<Longrightarrow> j < width b
   \<Longrightarrow> mget (mmap2 f a b) i j = f (mget a i j) (mget b i j)"
  by (simp add: mget_def mmap2_def wf_mat_def height_def)

lemma height_mtab [mat_simps]: "height (mtab h w f) = h"
  by (simp add: height_def mtab_def)

lemma width_mtab [mat_simps]: "width (mtab h w f) = w"
  by (simp add: mtab_def)

lemma wf_mtab [mat_simps]: "wf_mat (mtab h w f)"
  by (auto simp: wf_mat_def mtab_def)

lemma mget_mtab [mat_simps]: "i < h \<Longrightarrow> j < w \<Longrightarrow> mget (mtab h w f) i j = f i j"
  by (simp add: mget_def mtab_def)

lemma height_col_bcast [mat_simps]: "height (col_bcast w v) = length v"
  by (simp add: height_def col_bcast_def)

lemma width_col_bcast [mat_simps]: "width (col_bcast w v) = w"
  by (simp add: col_bcast_def)

lemma wf_col_bcast [mat_simps]: "wf_mat (col_bcast w v)"
  by (auto simp: wf_mat_def col_bcast_def)

lemma mget_col_bcast [mat_simps]: "i < length v \<Longrightarrow> j < w \<Longrightarrow> mget (col_bcast w v) i j = v ! i"
  by (simp add: mget_def col_bcast_def)

lemma set_vselect: "length bs = length xs \<Longrightarrow> set (vselect bs xs) = {xs ! i |i. i < length xs \<and> bs ! i}"
  by (force simp: vselect_def set_zip image_iff)

lemma vselect_Nil [simp]: "vselect [] xs = []"
  by (simp add: vselect_def)

lemma vselect_Cons [simp]:
  "vselect (b # bs) (x # xs) = (if b then x # vselect bs xs else vselect bs xs)"
  by (simp add: vselect_def)

lemma vcount_Nil [simp]: "vcount [] = 0"
  by (simp add: vcount_def)

lemma vcount_Cons [simp]: "vcount (b # bs) = (if b then Suc (vcount bs) else vcount bs)"
  by (simp add: vcount_def)

lemma length_vselect: "length bs = length xs \<Longrightarrow> length (vselect bs xs) = vcount bs"
  by (induction bs xs rule: list_induct2) auto

lemma vcount_eq_0: "vcount bs = 0 \<longleftrightarrow> True \<notin> set bs"
  by (induction bs) auto

lemma vselect_map: "vselect bs (map f xs) = map f (vselect bs xs)"
  by (simp add: vselect_def zip_map2 filter_map comp_def case_prod_unfold)

text \<open>All selected entries satisfy \<open>P\<close> exactly when every masked position does.\<close>

lemma list_all_mselect:
  assumes "wf_mat b" "wf_mat m" "shape b = shape m"
  shows "(\<forall>x \<in> set (mselect b m). P x)
     \<longleftrightarrow> (\<forall>i < height m. \<forall>j < width m. mget b i j \<longrightarrow> P (mget m i j))"
proof -
  have len: "length (rows b) = length (rows m)" and w: "width b = width m"
    using assms(3) by (auto simp: shape_def height_def)
  have row: "length (rows b ! i) = width m \<and> length (rows m ! i) = width m" if "i < length (rows m)" for i
    using that assms(1,2) len w by (auto simp: wf_mat_def)
  have "set (mselect b m) = (\<Union>i < length (rows m). set (vselect (rows b ! i) (rows m ! i)))"
    using len by (auto simp: mselect_def set_zip)
  also have "\<dots> = (\<Union>i < length (rows m). {rows m ! i ! j |j. j < width m \<and> rows b ! i ! j})"
    using row by (auto simp: set_vselect)
  finally show ?thesis by (auto simp: mget_def height_def)
qed

end
