(* ===== verification/Micro_Batches.thy ===== *)
theory Micro_Batches
  imports Seqlen_Balancing Tensors
begin

text \<open>
  Dynamic micro-batching (\<open>verl/utils/seqlen_balancing.py\<close>): \<open>rearrange_micro_batches\<close>
  with its search for a micro-batch count, the inverse permutation that
  \<open>restore_dynamic_batch\<close> applies, and the group-preserving partitioner.

  The \<open>all_reduce\<close> collectives join the values of the other data-parallel ranks, which are
  inputs of the model (\<open>peers\<close>); without synchronisation there are none. The range of int64
  is not modelled.
\<close>

section \<open>Rearranging a batch\<close>

text \<open>Lengths come from the offsets of a nested tensor or from the attention mask.\<close>

datatype token_batch = Nested "nat list" | Padded "bool mat"

fun effective_lengths :: "token_batch \<Rightarrow> nat list" where
  "effective_lengths (Nested offset_diffs) = offset_diffs"
| "effective_lengths (Padded attention_mask) = map vcount (rows attention_mask)"

fun max_length :: "token_batch \<Rightarrow> nat res" where
  "max_length (Nested offset_diffs) =
     raise_if (offset_diffs = []) (ValueError ''max() arg is an empty sequence'') (Inr (Max (set offset_diffs)))"
| "max_length (Padded attention_mask) = Inr (width attention_mask)"

record peers =
  pe_micro_batches :: nat
  pe_group_tokens :: nat
  pe_groups :: nat
  pe_fits :: "nat \<Rightarrow> bool"

text \<open>The sum over each block of \<open>force_group_size\<close> consecutive entries.\<close>

definition block_sums :: "nat \<Rightarrow> nat \<Rightarrow> int list \<Rightarrow> int list" where
  "block_sums num_groups force_group_size xs = map sum_list (blocks num_groups force_group_size xs)"

definition initial_count ::
  "nat \<Rightarrow> nat \<Rightarrow> nat \<Rightarrow> nat option \<Rightarrow> peers option \<Rightarrow> nat option \<Rightarrow> nat res" where
  "initial_count num_groups total_len max_token_len min_num_micro_batch sync num_batches_divided_by =
     ebind (ceildiv (int total_len) (int max_token_len)) (\<lambda>c.
     let n = min num_groups (nat c);
         n = (case min_num_micro_batch of None \<Rightarrow> n | Some m \<Rightarrow> max m n);
         n = (case sync of None \<Rightarrow> n | Some p \<Rightarrow> max n (pe_micro_batches p))
     in case num_batches_divided_by of
          None \<Rightarrow> Inr n
        | Some d \<Rightarrow> ebind (roundup_divisible (int n) (int d)) (\<lambda>r. Inr (nat r)))"

definition part_tokens :: "nat list \<Rightarrow> nat list \<Rightarrow> nat" where
  "part_tokens token_lens part = (\<Sum>i \<leftarrow> part. token_lens ! i)"

text \<open>\<open>num_batches_divided_by or 1\<close>\<close>

fun search_step :: "nat option \<Rightarrow> nat" where
  "search_step None = 1"
| "search_step (Some d) = (if d = 0 then 1 else d)"

text \<open>
  The search loop; \<open>i\<close> counts its iterations, which is how the verdict of the other ranks is
  looked up.
\<close>

function fit_loop ::
  "peers option \<Rightarrow> nat \<Rightarrow> nat option \<Rightarrow> int list \<Rightarrow> nat list \<Rightarrow> nat \<Rightarrow> nat \<Rightarrow> nat \<Rightarrow> nat list list res" where
  "fit_loop sync max_token_len divisor workloads token_lens min_num_groups i n =
     (if n > min_num_groups then Inl (ValueError ''Cannot satisfy max_token_len'')
      else case get_seqlen_balanced_partitions workloads n False of
        Inl e \<Rightarrow> Inl e
      | Inr parts \<Rightarrow>
          if (\<forall>p \<in> set parts. part_tokens token_lens p \<le> max_token_len) \<and>
             (case sync of None \<Rightarrow> True | Some p \<Rightarrow> pe_fits p i)
          then Inr parts
          else fit_loop sync max_token_len divisor workloads token_lens min_num_groups (Suc i) (n + search_step divisor))"
  by pat_completeness auto
termination
proof (relation "measure (\<lambda>(_, _, _, _, _, m, _, n). Suc m - n)", goal_cases)
  case (2 sync max_token_len divisor workloads token_lens min_num_groups i n)
  have "0 < search_step divisor" by (cases divisor rule: search_step.cases) auto
  with 2 show ?case by auto
qed simp

declare fit_loop.simps [simp del]

text \<open>\<open>partition[::n]\<close> and \<open>partition[1::n]\<close>\<close>

definition every :: "nat \<Rightarrow> nat \<Rightarrow> 'a list \<Rightarrow> 'a list" where
  "every start n xs = map ((!) xs) (filter (\<lambda>i. start \<le> i \<and> (i - start) mod n = 0) [0..<length xs])"

definition sort_workload :: "nat \<Rightarrow> int list \<Rightarrow> nat list \<Rightarrow> int" where
  "sort_workload force_group_size workloads part =
     (if force_group_size > 1 then (\<Sum>i \<leftarrow> every 0 force_group_size part. workloads ! (i div force_group_size))
      else (\<Sum>i \<leftarrow> part. workloads ! i))"

text \<open>
  \<open>sort(key=..., reverse=True)\<close> keeps the order of equal keys, hence the two reversals; then the
  smaller micro-batches are placed at both ends.
\<close>

definition arrange :: "nat \<Rightarrow> int list \<Rightarrow> nat list list \<Rightarrow> nat list list" where
  "arrange force_group_size workloads parts =
     (let sorted_parts = rev (sort_key (\<lambda>p. (sort_workload force_group_size workloads p, if p = [] then 0 else hd p)) (rev parts))
      in rev (every 0 2 sorted_parts) @ every 1 2 sorted_parts)"

definition expand_groups :: "nat \<Rightarrow> nat list list \<Rightarrow> nat list list" where
  "expand_groups force_group_size parts =
     (if force_group_size > 1
      then map (\<lambda>p. concat (map (\<lambda>g. [g * force_group_size..<g * force_group_size + force_group_size]) p)) parts
      else parts)"

definition group_workloads :: "nat \<Rightarrow> nat \<Rightarrow> nat list \<Rightarrow> int list" where
  "group_workloads num_groups force_group_size lens =
     (let w = map (\<lambda>l. calculate_workload (int l)) lens
      in if force_group_size > 1 then block_sums num_groups force_group_size w else w)"

definition group_tokens :: "nat \<Rightarrow> nat \<Rightarrow> nat list \<Rightarrow> nat list" where
  "group_tokens num_groups force_group_size lens =
     (if force_group_size > 1 then map sum_list (blocks num_groups force_group_size lens) else lens)"

text \<open>The index lists \<open>rearrange_micro_batches\<close> returns.\<close>

definition rearrange_micro_batches ::
  "token_batch \<Rightarrow> nat \<Rightarrow> peers option \<Rightarrow> nat option \<Rightarrow> nat option \<Rightarrow> bool \<Rightarrow> nat \<Rightarrow> nat list list res" where
  "rearrange_micro_batches batch max_token_len sync num_batches_divided_by min_num_micro_batch
     use_dynamic_bsz_balance force_group_size =
     ebind (max_length batch) (\<lambda>max_seq_len.
     raise_if (max_token_len < max_seq_len) (AssertionError ''max_token_len must be greater than the sequence length'')
     (let lens = effective_lengths batch in
      raise_if (force_group_size = 0) ZeroDivisionError
      (raise_if (length lens mod force_group_size \<noteq> 0) (AssertionError ''Batch size must be divisible by force_group_size'')
      (let num_groups = length lens div force_group_size in
       ebind (initial_count num_groups (sum_list lens) max_token_len min_num_micro_batch sync num_batches_divided_by) (\<lambda>n.
       let workloads = group_workloads num_groups force_group_size lens;
           token_lens = group_tokens num_groups force_group_size lens in
       raise_if (token_lens = []) (ValueError ''max() arg is an empty sequence'')
       (let max_group = (case sync of None \<Rightarrow> Max (set token_lens) | Some p \<Rightarrow> max (Max (set token_lens)) (pe_group_tokens p));
            min_num_groups = (case sync of None \<Rightarrow> num_groups | Some p \<Rightarrow> min num_groups (pe_groups p)) in
        raise_if (max_token_len < max_group) (ValueError ''A forced group exceeds max_token_len and cannot be split'')
        (ebind (fit_loop sync max_token_len num_batches_divided_by workloads token_lens min_num_groups 0 n) (\<lambda>parts.
         let idx = expand_groups force_group_size parts in
         Inr (if use_dynamic_bsz_balance then arrange force_group_size workloads idx else idx)))))))))"

section \<open>Inverting the rearrangement\<close>

definition get_reverse_idx :: "nat list \<Rightarrow> nat list res" where
  "get_reverse_idx idx_map =
     efold (\<lambda>(i, idx) rev_map. if idx < length rev_map then Inr (rev_map[idx := i])
                               else Inl (IndexError ''list assignment index out of range''))
       (py_enumerate idx_map) idx_map"

definition select_rows :: "'a list \<Rightarrow> nat list \<Rightarrow> 'a list res" where
  "select_rows data idx = emap (\<lambda>i. if i < length data then Inr (data ! i) else Inl (IndexError ''index out of range'')) idx"

definition restore_dynamic_batch :: "'a list \<Rightarrow> nat list list \<Rightarrow> 'a list res" where
  "restore_dynamic_batch data batch_idx_list =
     (let indices = concat batch_idx_list in
      raise_if (length indices \<noteq> length data) (AssertionError ''number of indices'')
      (ebind (get_reverse_idx indices) (select_rows data)))"

text \<open>\<open>prepare_dynamic_batch\<close>: the rows of each micro-batch and the index lists.\<close>

definition prepare_dynamic_batch ::
  "token_batch \<Rightarrow> 'a list \<Rightarrow> nat \<Rightarrow> peers option \<Rightarrow> nat option \<Rightarrow> nat option \<Rightarrow> bool \<Rightarrow> ('a list list \<times> nat list list) res" where
  "prepare_dynamic_batch batch data max_token_len sync num_batches_divided_by min_num_micro_batch use_dynamic_bsz_balance =
     ebind (rearrange_micro_batches batch max_token_len sync num_batches_divided_by min_num_micro_batch use_dynamic_bsz_balance 1)
       (\<lambda>idx. ebind (emap (select_rows data) idx) (\<lambda>micro_batches. Inr (micro_batches, idx)))"

section \<open>Keeping groups together\<close>

text \<open>
  The scan over \<open>zip(seqlen_list, uid_list)\<close>: the finished groups, the current uid and the
  indices of the current group. A uid may be \<open>None\<close>, which is also the initial value.
\<close>

record 'u scan =
  sc_groups :: "(nat list \<times> int) list"
  sc_uid :: "'u option"
  sc_indices :: "nat list"
  sc_seqlen :: int

definition flush_group :: "'u scan \<Rightarrow> (nat list \<times> int) list" where
  "flush_group s = (if sc_indices s = [] then sc_groups s else sc_groups s @ [(sc_indices s, sc_seqlen s)])"

fun scan_step :: "nat \<times> int \<times> 'u option \<Rightarrow> 'u scan \<Rightarrow> 'u scan" where
  "scan_step (i, seqlen, uid) s =
     (if uid \<noteq> sc_uid s
      then \<lparr>sc_groups = flush_group s, sc_uid = uid, sc_indices = [i], sc_seqlen = seqlen\<rparr>
      else s\<lparr>sc_indices := sc_indices s @ [i], sc_seqlen := sc_seqlen s + seqlen\<rparr>)"

definition uid_groups :: "int list \<Rightarrow> 'u option list \<Rightarrow> nat list list" where
  "uid_groups seqlen_list uid_list =
     map fst (flush_group (fold scan_step (py_enumerate (zip seqlen_list uid_list))
       \<lparr>sc_groups = [], sc_uid = None, sc_indices = [], sc_seqlen = 0\<rparr>))"

definition get_group_balanced_partitions :: "int list \<Rightarrow> 'u option list \<Rightarrow> nat \<Rightarrow> nat list list res" where
  "get_group_balanced_partitions seqlen_list uid_list k_partitions =
     raise_if (length seqlen_list \<noteq> length uid_list) (AssertionError ''seqlen_list and uid_list must have same length'')
     (let groups = uid_groups seqlen_list uid_list in
      raise_if (length groups < k_partitions) (AssertionError ''Number of uid groups'')
      (let workloads = map (\<lambda>g. \<Sum>i \<leftarrow> g. calculate_workload (seqlen_list ! i)) groups in
       ebind (get_seqlen_balanced_partitions workloads k_partitions True) (\<lambda>parts.
       Inr (map (\<lambda>p. sort (concat (map (\<lambda>g. groups ! g) p))) parts))))"

section \<open>Lemmas on blocks and rearrangements\<close>

lemma nth_blocks: "g < n \<Longrightarrow> blocks n m xs ! g = take m (drop (g * m) xs)"
proof (induction n m xs arbitrary: g rule: blocks.induct)
  case (2 n k xs)
  then show ?case by (cases g) (auto simp: add.commute)
qed simp

lemma length_blocks [simp]: "length (blocks n m xs) = n"
  by (induction n m xs rule: blocks.induct) auto

lemma map_nth_segment: "a + m \<le> length xs \<Longrightarrow> map ((!) xs) [a..<a + m] = take m (drop a xs)"
  by (rule nth_equalityI) auto

lemma concat_segments: "concat (map (\<lambda>g. [g * m..<g * m + m]) [0..<n]) = [0..<n * m]"
proof (induction n)
  case (Suc n)
  then show ?case by (simp add: add.commute [of m]) (metis le0 le_add1 upt_split)
qed simp

lemma mset_concat_map: "mset (concat (map f xs)) = (\<Sum>x \<in># mset xs. mset (f x))"
  by (induction xs) auto

lemma mset_concat_map_cong: "mset xs = mset ys \<Longrightarrow> mset (concat (map f xs)) = mset (concat (map f ys))"
  by (simp only: mset_concat_map)

lemma mset_concat_cong: "mset xss = mset yss \<Longrightarrow> mset (concat xss) = mset (concat yss)"
  using mset_concat_map_cong [of xss yss id] by simp

lemma mset_every_2: "mset (rev (every 0 2 xs) @ every 1 2 xs) = mset xs"
proof -
  have "filter (\<lambda>i. 1 \<le> i \<and> (i - 1) mod 2 = 0) [0..<length xs] = filter (\<lambda>i. \<not> i mod 2 = 0) [0..<length xs]"
    by (rule filter_cong) presburger+
  then have "mset (every 0 2 xs) + mset (every 1 2 xs) =
      image_mset ((!) xs) (mset (filter (\<lambda>i. i mod 2 = 0) [0..<length xs]) + mset (filter (\<lambda>i. \<not> i mod 2 = 0) [0..<length xs]))"
    by (simp add: every_def)
  also have "\<dots> = image_mset ((!) xs) (mset [0..<length xs])"
    by (metis mset_filter multiset_partition)
  also have "\<dots> = mset xs" by (metis map_nth mset_map)
  finally show ?thesis by simp
qed

lemma mset_arrange: "mset (arrange g w parts) = mset parts"
  by (simp only: arrange_def Let_def mset_every_2) simp

lemma expand_groups_eq:
  "g > 0 \<Longrightarrow> expand_groups g parts = map (\<lambda>p. concat (map (\<lambda>i. [i * g..<i * g + g]) p)) parts"
proof -
  assume "g > 0"
  moreover have "concat (map (\<lambda>i. [i]) p) = p" for p :: "nat list" by (induction p) auto
  ultimately show ?thesis by (cases "g = 1") (auto simp: expand_groups_def)
qed

lemma mset_expand_groups:
  assumes "g > 0" "mset (concat parts) = mset [0..<n]"
  shows "mset (concat (expand_groups g parts)) = mset [0..<n * g]"
proof -
  have "concat (expand_groups g parts) = concat (map (\<lambda>i. [i * g..<i * g + g]) (concat parts))"
    unfolding expand_groups_eq [OF assms(1)] by (induction parts) auto
  then show ?thesis using mset_concat_map_cong [OF assms(2)] concat_segments by metis
qed

text \<open>A group's tokens are those of its samples.\<close>

lemma group_tokens_nth:
  assumes "g > 0" "length lens = n * g" "i < n"
  shows "group_tokens n g lens ! i = (\<Sum>j \<leftarrow> [i * g..<i * g + g]. lens ! j)"
proof -
  have "i * g + g \<le> length lens" using assms by (metis Suc_leI add.commute mult_Suc mult_le_mono1)
  then have "(\<Sum>j \<leftarrow> [i * g..<i * g + g]. lens ! j) = sum_list (take g (drop (i * g) lens))"
    by (simp only: map_nth_segment)
  moreover have "sum_list (take 1 (drop i lens)) = lens ! i" if "g = 1"
    using assms that by (simp add: take_Suc_conv_app_nth hd_drop_conv_nth take_Suc)
  ultimately show ?thesis using assms by (cases "g = 1") (auto simp: group_tokens_def nth_blocks)
qed

lemma length_group_tokens: "g > 0 \<Longrightarrow> length lens = n * g \<Longrightarrow> length (group_tokens n g lens) = n"
  by (auto simp: group_tokens_def)

lemma length_group_workloads: "g > 0 \<Longrightarrow> length lens = n * g \<Longrightarrow> length (group_workloads n g lens) = n"
  by (auto simp: group_workloads_def block_sums_def Let_def)

lemma sum_list_nonneg_int: "\<forall>x \<in> set xs. 0 \<le> (x :: int) \<Longrightarrow> 0 \<le> sum_list xs"
  by (induction xs) auto

lemma group_workloads_nonneg:
  assumes "g > 0" "length lens = n * g" shows "\<forall>w \<in> set (group_workloads n g lens). 0 \<le> w"
proof -
  let ?w = "map (\<lambda>l. calculate_workload (int l)) lens"
  have w: "\<forall>x \<in> set ?w. 0 \<le> x" by (auto simp: calculate_workload_def)
  have "set b \<subseteq> set ?w" if b: "b \<in> set (blocks n g ?w)" for b
  proof -
    obtain i where "b = take g (drop (i * g) ?w)" using b by (metis in_set_conv_nth length_blocks nth_blocks)
    then show ?thesis using set_take_subset set_drop_subset by (metis order_trans)
  qed
  then have "\<forall>b \<in> set (blocks n g ?w). 0 \<le> sum_list b" using w by (intro ballI sum_list_nonneg_int) blast
  then show ?thesis using w by (simp add: group_workloads_def block_sums_def Let_def)
qed

lemma part_tokens_expand:
  assumes "g > 0" "length lens = n * g" "set p \<subseteq> {0..<n}"
  shows "(\<Sum>j \<leftarrow> concat (map (\<lambda>i. [i * g..<i * g + g]) p). lens ! j) = part_tokens (group_tokens n g lens) p"
  using assms(3) group_tokens_nth [OF assms(1,2)]
  by (induction p) (auto simp: part_tokens_def)

section \<open>The search for a micro-batch count\<close>

lemma search_step_pos: "0 < search_step d"
  by (cases d rule: search_step.cases) auto

text \<open>What the loop returns was accepted by the partitioner and by every rank.\<close>

lemma fit_loop_Inr:
  assumes "fit_loop sync m d w t groups i n = Inr parts"
  shows "\<exists>j. get_seqlen_balanced_partitions w (n + j * search_step d) False = Inr parts \<and>
    (\<forall>p \<in> set parts. part_tokens t p \<le> m) \<and> n + j * search_step d \<le> groups"
  using assms
proof (induction sync m d w t groups i n rule: fit_loop.induct)
  case (1 sync m d w t groups i n)
  let ?fit = "\<lambda>ps. (\<forall>p \<in> set ps. part_tokens t p \<le> m) \<and> (case sync of None \<Rightarrow> True | Some p \<Rightarrow> pe_fits p i)"
  have n: "\<not> n > groups" using "1.prems" by (subst (asm) fit_loop.simps) (simp split: if_splits)
  obtain ps where ps: "get_seqlen_balanced_partitions w n False = Inr ps"
    using "1.prems" n by (subst (asm) fit_loop.simps) (simp split: sum.splits)
  show ?case
  proof (cases "?fit ps")
    case True
    then have "parts = ps" using "1.prems" n ps by (subst (asm) fit_loop.simps) simp
    then show ?thesis using ps True n by (intro exI [of _ 0]) auto
  next
    case False
    then have "fit_loop sync m d w t groups (Suc i) (n + search_step d) = Inr parts"
      using "1.prems" n ps by (subst (asm) fit_loop.simps) (simp only: if_False if_not_P sum.case)
    from "1.IH" [OF n ps False this] obtain j where
      "get_seqlen_balanced_partitions w (n + search_step d + j * search_step d) False = Inr parts"
      "\<forall>p \<in> set parts. part_tokens t p \<le> m" "n + search_step d + j * search_step d \<le> groups" by blast
    then show ?thesis by (intro exI [of _ "Suc j"]) (simp add: add.assoc)
  qed
qed

text \<open>\<open>n\<close> non-empty parts of \<open>n\<close> indices are singletons.\<close>

lemma singletons:
  assumes "length ps = length (concat ps)" "\<forall>p \<in> set ps. p \<noteq> []"
  shows "\<forall>p \<in> set ps. length p = 1"
proof -
  have ge: "length qs \<le> length (concat qs)" if "\<forall>p \<in> set qs. p \<noteq> []" for qs :: "'a list list"
    using that
  proof (induction qs)
    case (Cons q qs)
    have "1 \<le> length q" using Cons.prems by (cases q) auto
    then show ?case using Cons by simp
  qed simp
  show ?thesis using assms
  proof (induction ps)
    case (Cons p ps)
    have "1 \<le> length p" using Cons.prems(2) by (cases p) auto
    moreover have "length ps \<le> length (concat ps)" using ge Cons.prems(2) by simp
    moreover have "length p + length (concat ps) = Suc (length ps)" using Cons.prems(1) by simp
    ultimately have one: "length p = 1" "length ps = length (concat ps)" by linarith+
    have "\<forall>q \<in> set ps. length q = 1" by (rule Cons.IH [OF one(2)]) (use Cons.prems(2) in simp)
    then show ?case using one(1) by (metis set_ConsD)
  qed simp
qed

text \<open>Without other ranks and with unit steps the search always succeeds.\<close>

lemma fit_loop_succeeds:
  assumes "length w = groups" "length t = groups" "\<forall>v \<in> set w. 0 \<le> v" "\<forall>v \<in> set t. v \<le> m" "0 < n" "n \<le> groups"
  shows "\<exists>parts. fit_loop None m None w t groups i n = Inr parts"
  using assms(5,6)
proof (induction "groups - n" arbitrary: n i)
  case 0
  then have n: "n = groups" "0 < groups" by auto
  obtain st where st: "get_seqlen_balanced_partitions w groups False = Inr (map sort (get_partitions st))"
    by (rule balanced_partitions_result [of groups w False]) (use assms n in auto)
  have ne: "w \<noteq> []" using assms(1) n by auto
  note b = balanced_partitions_Inr [OF st assms(3) ne]
  let ?ps = "map sort (get_partitions st)"
  have "length (concat ?ps) = groups" using b(5) assms(1) by (metis length_upt minus_nat.diff_0 size_mset)
  then have one: "\<forall>p \<in> set ?ps. length p = 1" using singletons [of ?ps] b(3,4) by simp
  have "part_tokens t p \<le> m" if p: "p \<in> set ?ps" for p
  proof -
    obtain x where x: "p = [x]" using one p by (metis One_nat_def length_0_conv length_Suc_conv)
    then have "x \<in> set (concat ?ps)" unfolding set_concat using p by (metis UN_I list.set_intros(1))
    then have "x < groups" using b(5) assms(1) by (metis atLeastLessThan_iff atLeastLessThan_upt set_mset_mset)
    then show ?thesis using x assms(2,4) by (simp add: part_tokens_def)
  qed
  then show ?case unfolding n(1) by (subst fit_loop.simps) (simp add: st del: set_map)
next
  case (Suc j)
  obtain st where st: "get_seqlen_balanced_partitions w n False = Inr (map sort (get_partitions st))"
    by (rule balanced_partitions_result [of n w False]) (use assms Suc.prems in auto)
  have "\<exists>parts. fit_loop None m None w t groups (Suc i) (n + 1) = Inr parts"
    by (rule Suc.hyps(1)) (use Suc in auto)
  then show ?case using Suc.prems(2) by (subst fit_loop.simps) (auto simp: st simp del: set_map)
qed

lemma initial_count_Inr:
  assumes "initial_count groups tot m mn sync d = Inr n"
  shows "(\<forall>k. mn = Some k \<longrightarrow> k \<le> n)" "\<forall>k. d = Some k \<longrightarrow> 0 < k \<and> k dvd n"
proof -
  obtain c where c: "ceildiv (int tot) (int m) = Inr c" using assms by (auto simp: initial_count_def ebind_Inr)
  define n0 where "n0 = (case sync of None \<Rightarrow> (case mn of None \<Rightarrow> min groups (nat c) | Some k \<Rightarrow> max k (min groups (nat c)))
     | Some p \<Rightarrow> max (case mn of None \<Rightarrow> min groups (nat c) | Some k \<Rightarrow> max k (min groups (nat c))) (pe_micro_batches p))"
  have n0: "\<forall>k. mn = Some k \<longrightarrow> k \<le> n0" by (auto simp: n0_def split: option.splits)
  have e: "(case d of None \<Rightarrow> Inr n0 | Some d \<Rightarrow> ebind (roundup_divisible (int n0) (int d)) (\<lambda>r. Inr (nat r))) = Inr n"
    using assms unfolding initial_count_def c ebind.simps Let_def n0_def [symmetric] .
  have "(\<forall>k. mn = Some k \<longrightarrow> k \<le> n) \<and> (\<forall>k. d = Some k \<longrightarrow> 0 < k \<and> k dvd n)"
  proof (cases d)
    case None
    then show ?thesis using e n0 by simp
  next
    case (Some k)
    then have k: "0 < k" "n = nat ((int n0 + int k - 1) div int k * int k)"
      using e by (auto simp: roundup_divisible_def raise_if_def split: if_splits)
    have q: "int n0 + int k - 1 = (int n0 + int k - 1) div int k * int k + (int n0 + int k - 1) mod int k"
      by simp
    have "(int n0 + int k - 1) mod int k < int k" using k(1) by simp
    then have "int n0 \<le> (int n0 + int k - 1) div int k * int k" using q by linarith
    then have "int n = (int n0 + int k - 1) div int k * int k" "n0 \<le> n" using k(2) by auto
    then have "k dvd n" by (metis dvd_triv_right int_dvd_int_iff)
    then show ?thesis using Some k(1) n0 \<open>n0 \<le> n\<close> le_trans by auto
  qed
  then show "(\<forall>k. mn = Some k \<longrightarrow> k \<le> n)" "\<forall>k. d = Some k \<longrightarrow> 0 < k \<and> k dvd n" by blast+
qed

section \<open>Rearrangements are correct\<close>

lemma rearrange_Inr:
  assumes r: "rearrange_micro_batches batch m sync d mn bal g = Inr mbs" and lens: "lens = effective_lengths batch"
  obtains n parts where "0 < g" "length lens = n * g" "n \<noteq> 0" "length parts = length mbs"
    "mset mbs = mset (expand_groups g parts)" "mset (concat parts) = mset [0..<n]"
    "\<forall>p \<in> set parts. p \<noteq> [] \<and> part_tokens (group_tokens n g lens) p \<le> m"
    "\<forall>k. mn = Some k \<longrightarrow> k \<le> length parts" "\<forall>k. d = Some k \<longrightarrow> 0 < k \<and> k dvd length parts"
proof -
  define n where "n = length lens div g"
  have g: "0 < g" "length lens = n * g"
    using r by (auto simp: rearrange_micro_batches_def ebind_Inr raise_if_Inr Let_def lens n_def)
  obtain c parts groups where c: "initial_count n (sum_list lens) m mn sync d = Inr c"
    and ne: "group_tokens n g lens \<noteq> []"
    and fit: "fit_loop sync m d (group_workloads n g lens) (group_tokens n g lens) groups 0 c = Inr parts"
    and mbs: "mbs = (if bal then arrange g (group_workloads n g lens) (expand_groups g parts) else expand_groups g parts)"
    using r unfolding rearrange_micro_batches_def ebind_Inr raise_if_Inr Let_def lens [symmetric] n_def [symmetric] by auto
  obtain j where j: "get_seqlen_balanced_partitions (group_workloads n g lens) (c + j * search_step d) False = Inr parts"
    "\<forall>p \<in> set parts. part_tokens (group_tokens n g lens) p \<le> m"
    using fit_loop_Inr [OF fit] by blast
  have n: "n \<noteq> 0" using ne length_group_tokens [OF g] by (metis length_0_conv)
  have w: "group_workloads n g lens \<noteq> []" "length (group_workloads n g lens) = n"
    using length_group_workloads [OF g] n by auto
  note b = balanced_partitions_Inr [OF j(1) group_workloads_nonneg [OF g] w(1), unfolded w(2)]
  have l: "length parts = length mbs"
    using mset_arrange [of g _ "expand_groups g parts", THEN mset_eq_length] by (simp add: mbs expand_groups_eq g)
  have mn: "\<forall>k. mn = Some k \<longrightarrow> k \<le> length parts" using initial_count_Inr(1) [OF c] b(3) by auto
  have "k dvd j * search_step d" if "d = Some k" for k using that initial_count_Inr(2) [OF c] by auto
  then have d: "\<forall>k. d = Some k \<longrightarrow> 0 < k \<and> k dvd length parts"
    using initial_count_Inr(2) [OF c] b(3) by auto
  show thesis using that [OF g n l _ b(5) _ mn d] b(4) j(2) by (simp add: mbs mset_arrange)
qed

lemma rearrange_perm:
  assumes "rearrange_micro_batches batch m sync d mn bal g = Inr mbs"
  shows "mset (concat mbs) = mset [0..<length (effective_lengths batch)]"
proof -
  obtain n parts where n: "0 < g" "length (effective_lengths batch) = n * g"
    and p: "mset mbs = mset (expand_groups g parts)" "mset (concat parts) = mset [0..<n]"
    by (rule rearrange_Inr [OF assms refl])
  show ?thesis using mset_concat_cong [OF p(1)] mset_expand_groups [OF n(1) p(2)] n(2) by simp
qed

text \<open>
  C35: Micro-batches respect every limit. Whatever \<open>rearrange_micro_batches\<close> returns, with any
  other ranks and any option, distributes every sample to exactly one micro-batch; no micro-batch
  is empty or holds more than \<open>max_token_len\<close> tokens; samples of one forced group stay together;
  and the number of micro-batches is at least \<open>min_num_micro_batch\<close> and a multiple of
  \<open>num_batches_divided_by\<close>.
\<close>

theorem micro_batches_respect_limits:
  assumes r: "rearrange_micro_batches batch m sync d mn bal g = Inr mbs" and lens: "lens = effective_lengths batch"
  shows "mset (concat mbs) = mset [0..<length lens] \<and>
    (\<forall>p \<in> set mbs. p \<noteq> [] \<and> (\<Sum>i \<leftarrow> p. lens ! i) \<le> m) \<and>
    (\<forall>p \<in> set mbs. \<forall>i \<in> set p. \<forall>j < length lens. j div g = i div g \<longrightarrow> j \<in> set p) \<and>
    (\<forall>k. mn = Some k \<longrightarrow> k \<le> length mbs) \<and> (\<forall>k. d = Some k \<longrightarrow> k dvd length mbs)"
proof -
  obtain n parts where n: "0 < g" "length lens = n * g" "length parts = length mbs"
    and p: "mset mbs = mset (expand_groups g parts)" "mset (concat parts) = mset [0..<n]"
      "\<forall>p \<in> set parts. p \<noteq> [] \<and> part_tokens (group_tokens n g lens) p \<le> m"
    and c: "\<forall>k. mn = Some k \<longrightarrow> k \<le> length parts" "\<forall>k. d = Some k \<longrightarrow> 0 < k \<and> k dvd length parts"
    by (rule rearrange_Inr [OF r lens])
  let ?e = "\<lambda>q. concat (map (\<lambda>i. [i * g..<i * g + g]) q)"
  have mbs: "\<exists>q \<in> set parts. x = ?e q" if "x \<in> set mbs" for x
    using that p(1) by (metis (no_types, lifting) expand_groups_eq imageE list.set_map n(1) set_mset_mset)
  have range: "set q \<subseteq> {0..<n}" if "q \<in> set parts" for q
    using that p(2) by (metis UN_upper atLeastLessThan_upt set_concat set_mset_mset)
  have "x \<noteq> [] \<and> (\<Sum>i \<leftarrow> x. lens ! i) \<le> m" if x: "x \<in> set mbs" for x
  proof -
    obtain q where q: "q \<in> set parts" "x = ?e q" using mbs [OF x] by blast
    then have "(\<Sum>i \<leftarrow> x. lens ! i) \<le> m" using part_tokens_expand [OF n(1,2) range [OF q(1)]] p(3) by simp
    moreover have "x \<noteq> []" using q p(3) n(1) by (cases q) auto
    ultimately show ?thesis by simp
  qed
  moreover have "j \<in> set x" if x: "x \<in> set mbs" "i \<in> set x" and div: "j div g = i div g" for x i j
  proof -
    obtain q where q: "q \<in> set parts" "x = ?e q" using mbs [OF x(1)] by blast
    then obtain k where k: "k \<in> set q" "k * g \<le> i" "i < k * g + g" using x(2) by auto
    then have "i div g = k" by (metis add.commute div_nat_eqI mult.commute mult_Suc)
    then have "k * g \<le> j" "j < k * g + g" using div n(1)
      by (metis div_times_less_eq_dividend) (metis \<open>i div g = k\<close> dividend_less_div_times n(1) div add.commute)
    then show ?thesis using q(2) k(1) by auto
  qed
  moreover have "mset (concat mbs) = mset [0..<length lens]" using rearrange_perm [OF r] lens by simp
  ultimately show ?thesis using c n(3) by auto
qed

lemma micro_batches_respect_limits_witness:
  "\<exists>mbs. rearrange_micro_batches (Nested [4, 1, 3, 3, 2, 2]) 9 None (Some 2) (Some 1) True 2 = Inr mbs \<and>
     (\<forall>p \<in> set mbs. p \<noteq> []) \<and> 2 dvd length mbs"
proof -
  have "\<not> isl (rearrange_micro_batches (Nested [4, 1, 3, 3, 2, 2]) 9 None (Some 2) (Some 1) True 2)" by code_simp
  then obtain mbs where r: "rearrange_micro_batches (Nested [4, 1, 3, 3, 2, 2]) 9 None (Some 2) (Some 1) True 2 = Inr mbs"
    by (metis isl_def sum.exhaust)
  from micro_batches_respect_limits [OF r refl] r show ?thesis by blast
qed

lemma search_start:
  assumes len: "0 < g" "length lens = n * g" and tokens: "0 < sum_list lens" "\<forall>i < n. (\<Sum>j \<leftarrow> [i * g..<i * g + g]. lens ! j) \<le> m"
  obtains c where "0 < c" "initial_count n (sum_list lens) m mn None None =
    Inr (case mn of None \<Rightarrow> min n c | Some k \<Rightarrow> max k (min n c))"
proof -
  let ?t = "group_tokens n g lens"
  have m: "0 < m"
  proof (rule ccontr)
    assume "\<not> 0 < m"
    then have "\<forall>i < n. ?t ! i = 0" using tokens(2) group_tokens_nth [OF len] by simp
    then have "sum_list ?t = 0" using length_group_tokens [OF len] by (simp add: sum_list_sum_nth)
    moreover have "part_tokens ?t [0..<n] = sum_list lens"
      using part_tokens_expand [OF len, of "[0..<n]"] map_nth [of lens] unfolding concat_segments len(2) by simp
    moreover have "part_tokens ?t [0..<n] = sum_list ?t"
      using map_nth [of ?t] unfolding part_tokens_def length_group_tokens [OF len] by simp
    ultimately show False using tokens(1) by linarith
  qed
  define c where "c = - (int (sum_list lens) div (- int m))"
  have "int (sum_list lens) div (- int m) < 0"
  proof (rule ccontr)
    let ?q = "int (sum_list lens) div (- int m)"
    assume "\<not> ?q < 0"
    then have "0 \<le> ?q * int m" by simp
    moreover have "?q * (- int m) + int (sum_list lens) mod (- int m) = int (sum_list lens)" by (rule div_mult_mod_eq)
    moreover have "int (sum_list lens) mod (- int m) \<le> 0" using m by (simp add: neg_mod_sign)
    ultimately show False using tokens(1) by simp
  qed
  then have c: "0 < nat c" by (simp add: c_def)
  have "ceildiv (int (sum_list lens)) (int m) = Inr c" using m by (simp add: ceildiv_def c_def)
  then have "initial_count n (sum_list lens) m mn None None = Inr (case mn of None \<Rightarrow> min n (nat c) | Some k \<Rightarrow> max k (min n (nat c)))"
    by (simp add: initial_count_def Let_def)
  then show thesis using that [of "nat c"] c by blast
qed

text \<open>
  C36: On one rank with unit steps, a positive number of tokens, every sample within
  \<open>max_token_len\<close> and every forced group within it, the search ends, and its outcome depends on
  \<open>min_num_micro_batch\<close> alone: when it is at most the number of groups, \<open>rearrange_micro_batches\<close>
  returns, since the partition into single groups satisfies the limit at the latest; when it is
  larger, the code raises \<open>ValueError\<close>, although the docstring promises to pad with empty
  micro-batches.
\<close>

theorem rearrangement_exists:
  assumes lens: "lens = effective_lengths batch" "max_length batch = Inr len" "len \<le> m"
    and g: "0 < g" "length lens = n * g"
    and tokens: "0 < sum_list lens" "\<forall>i < n. (\<Sum>j \<leftarrow> [i * g..<i * g + g]. lens ! j) \<le> m"
  shows "if \<exists>k. mn = Some k \<and> n < k
    then rearrange_micro_batches batch m None None mn bal g = Inl (ValueError ''Cannot satisfy max_token_len'')
    else \<exists>mbs. rearrange_micro_batches batch m None None mn bal g = Inr mbs"
proof -
  let ?w = "group_workloads n g lens" and ?t = "group_tokens n g lens"
  have n: "0 < n" using tokens(1) g by (cases n) auto
  have nt: "length lens div g = n" "length lens mod g = 0" using g by auto
  have t: "\<forall>v \<in> set ?t. v \<le> m" "?t \<noteq> []"
    using tokens(2) group_tokens_nth [OF g] length_group_tokens [OF g] n by (auto simp: in_set_conv_nth)
  then have max: "Max (set ?t) \<le> m" by simp
  obtain c where c: "0 < c" "initial_count n (sum_list lens) m mn None None =
      Inr (case mn of None \<Rightarrow> min n c | Some k \<Rightarrow> max k (min n c))"
    by (rule search_start [OF g tokens])
  define c1 where "c1 = (case mn of None \<Rightarrow> min n c | Some k \<Rightarrow> max k (min n c))"
  have run: "rearrange_micro_batches batch m None None mn bal g = ebind (fit_loop None m None ?w ?t n 0 c1) (\<lambda>parts.
      let idx = expand_groups g parts in Inr (if bal then arrange g ?w idx else idx))"
    unfolding rearrange_micro_batches_def lens(1) [symmetric] lens(2) Let_def nt ebind.simps c(2) c1_def
    using lens(3) g(1) t(2)
    by (simp add: raise_if_def not_less [THEN iffD2, OF max] del: Max_less_iff Max_gr_iff)
  show ?thesis
  proof (cases "\<exists>k. mn = Some k \<and> n < k")
    case True
    then have "n < c1" by (auto simp: c1_def)
    then have "fit_loop None m None ?w ?t n 0 c1 = Inl (ValueError ''Cannot satisfy max_token_len'')"
      by (simp add: fit_loop.simps)
    then show ?thesis using True run by simp
  next
    case False
    then have c1: "0 < c1" "c1 \<le> n" using c(1) n by (auto simp: c1_def not_less split: option.splits)
    obtain parts where "fit_loop None m None ?w ?t n 0 c1 = Inr parts"
      using fit_loop_succeeds [OF length_group_workloads [OF g] length_group_tokens [OF g] group_workloads_nonneg [OF g] t(1) c1]
      by blast
    then have "\<exists>mbs. rearrange_micro_batches batch m None None mn bal g = Inr mbs" by (simp add: run Let_def)
    then show ?thesis unfolding if_not_P [OF False] .
  qed
qed

lemma rearrangement_exists_witness:
  "(\<exists>mbs. rearrange_micro_batches (Nested [4, 1, 3, 3]) 6 None None (Some 2) True 2 = Inr mbs) \<and>
   rearrange_micro_batches (Nested [4, 1, 3, 3]) 6 None None (Some 3) True 2 = Inl (ValueError ''Cannot satisfy max_token_len'')"
proof -
  have g: "\<forall>i < (2::nat). (\<Sum>j \<leftarrow> [i * 2..<i * 2 + 2]. [4, 1, 3, 3::nat] ! j) \<le> 6" by code_simp
  have l: "[4, 1, 3, 3] = effective_lengths (Nested [4, 1, 3, 3])" "max_length (Nested [4, 1, 3, 3]) = Inr 4"
    by (simp_all add: raise_if_def)
  show ?thesis
    using rearrangement_exists [OF l, of 6 2 2 "Some 2" True] rearrangement_exists [OF l, of 6 2 2 "Some 3" True] g by simp
qed

section \<open>Undoing a rearrangement\<close>

text \<open>Writing \<open>i\<close> at place \<open>xs ! i\<close> inverts a duplicate-free index list.\<close>

lemma reverse_idx_fold:
  "distinct xs \<Longrightarrow> \<forall>x \<in> set xs. x < length ys \<Longrightarrow>
   \<exists>zs. efold (\<lambda>(i, idx) r. if idx < length r then Inr (r[idx := i]) else Inl (IndexError ''list assignment index out of range''))
      (py_enumerate xs) ys = Inr zs \<and> length zs = length ys \<and> (\<forall>i < length xs. zs ! (xs ! i) = i)"
proof (induction xs rule: rev_induct)
  case Nil
  then show ?case by (simp add: py_enumerate_def)
next
  case (snoc x xs)
  then obtain zs where zs: "efold (\<lambda>(i, idx) r. if idx < length r then Inr (r[idx := i]) else Inl (IndexError ''list assignment index out of range''))
      (py_enumerate xs) ys = Inr zs" "length zs = length ys" "\<forall>i < length xs. zs ! (xs ! i) = i" by auto
  have "x < length zs" using snoc.prems(2) zs(2) by simp
  moreover have "zs[x := length xs] ! ((xs @ [x]) ! i) = i" if "i < Suc (length xs)" for i
  proof (cases "i = length xs")
    case False
    then have i: "i < length xs" using that by simp
    then have "xs ! i \<noteq> x" using snoc.prems(1) by (metis distinct_append disjoint_iff list.set_intros(1) nth_mem)
    then show ?thesis using i zs(3) by (simp add: nth_append)
  qed (use \<open>x < length zs\<close> in simp)
  ultimately show ?case using zs
    by (intro exI [of _ "zs[x := length xs]"]) (simp add: py_enumerate_append efold_append)
qed

lemma get_reverse_idx_perm:
  assumes "mset xs = mset [0..<n]"
  obtains rev_idx where "get_reverse_idx xs = Inr rev_idx" "length rev_idx = n" "\<forall>i < n. rev_idx ! (xs ! i) = i"
    "\<forall>j < n. rev_idx ! j < n \<and> xs ! (rev_idx ! j) = j"
proof -
  have xs: "distinct xs" "length xs = n" "set xs = {0..<n}"
    using assms by (metis distinct_upt mset_eq_imp_distinct_iff, metis length_upt minus_nat.diff_0 size_mset,
        metis atLeastLessThan_upt set_mset_mset)
  obtain zs where zs: "get_reverse_idx xs = Inr zs" "length zs = n" "\<forall>i < n. zs ! (xs ! i) = i"
    using reverse_idx_fold [of xs xs] xs by (auto simp: get_reverse_idx_def)
  have "zs ! j < n \<and> xs ! (zs ! j) = j" if "j < n" for j
  proof -
    have "j \<in> set xs" using that xs(3) by simp
    then obtain i where "i < n" "xs ! i = j" using xs(2) by (auto simp: in_set_conv_nth)
    then show ?thesis using zs(3) by auto
  qed
  then show thesis using zs that by blast
qed

lemma select_rows_eq:
  "\<forall>i \<in> set idx. i < length data \<Longrightarrow> select_rows data idx = Inr (map ((!) data) idx)"
  by (auto simp: select_rows_def intro!: emap_all_Inr)

text \<open>
  C37: Dynamic batching loses nothing and keeps the order. A batch that \<open>prepare_dynamic_batch\<close>
  splits, with one row per sample, is put together again by \<open>restore_dynamic_batch\<close>: applied to the
  concatenated micro-batches and the returned index lists it yields the original rows in the
  original order. Results computed row by row are restored the same way.
\<close>

theorem restore_after_prepare:
  assumes p: "prepare_dynamic_batch batch data m sync d mn bal = Inr (mbs, idx)"
    and rows: "length data = length (effective_lengths batch)"
  shows "restore_dynamic_batch (map f (concat mbs)) idx = Inr (map f data)"
proof -
  let ?n = "length data"
  have r: "rearrange_micro_batches batch m sync d mn bal 1 = Inr idx"
    and e: "emap (select_rows data) idx = Inr mbs"
    using p by (auto simp: prepare_dynamic_batch_def ebind_Inr)
  have perm: "mset (concat idx) = mset [0..<?n]" using rearrange_perm [OF r] rows by simp
  have set: "\<forall>q \<in> set idx. \<forall>i \<in> set q. i < ?n"
    using perm by (metis UN_I atLeastLessThan_iff atLeastLessThan_upt set_concat set_mset_mset)
  then have "emap (select_rows data) idx = Inr (map (map ((!) data)) idx)"
    by (intro emap_all_Inr select_rows_eq) blast
  then have mbs: "concat mbs = map ((!) data) (concat idx)" using e by (simp add: map_concat)
  obtain rv where rv: "get_reverse_idx (concat idx) = Inr rv" "length rv = ?n" "\<forall>i < ?n. rv ! (concat idx ! i) = i"
    "\<forall>j < ?n. rv ! j < ?n \<and> concat idx ! (rv ! j) = j"
    by (rule get_reverse_idx_perm [OF perm])
  have len: "length (concat idx) = ?n" using perm by (metis length_upt minus_nat.diff_0 size_mset)
  let ?rows = "map f (concat mbs)"
  have lrows: "length ?rows = ?n" using len by (simp add: mbs del: length_concat)
  have "select_rows ?rows rv = Inr (map ((!) ?rows) rv)"
    by (rule select_rows_eq) (use rv(2,4) lrows in \<open>auto simp: in_set_conv_nth simp del: length_concat length_map\<close>)
  moreover have "map ((!) ?rows) rv = map f data"
  proof (rule nth_equalityI)
    fix j assume "j < length (map ((!) ?rows) rv)"
    then have j: "j < ?n" using rv(2) by simp
    then have "?rows ! (rv ! j) = f (data ! (concat idx ! (rv ! j)))"
      using rv(4) len by (simp add: mbs del: length_concat)
    then show "map ((!) ?rows) rv ! j = map f data ! j" using j rv(2,4) by simp
  qed (use rv(2) in simp)
  ultimately show ?thesis using rv(1) len lrows
    by (simp add: restore_dynamic_batch_def Let_def del: length_concat length_map)
qed

lemma restore_after_prepare_witness:
  "\<exists>mbs idx. prepare_dynamic_batch (Nested [4, 1, 3]) [''a'', ''b'', ''c''] 5 None None None True = Inr (mbs, idx) \<and>
     restore_dynamic_batch (map id (concat mbs)) idx = Inr (map id [''a'', ''b'', ''c''])"
proof -
  have "\<not> isl (prepare_dynamic_batch (Nested [4, 1, 3]) [''a'', ''b'', ''c''] 5 None None None True)" by code_simp
  then obtain x where "prepare_dynamic_batch (Nested [4, 1, 3]) [''a'', ''b'', ''c''] 5 None None None True = Inr x"
    by (metis isl_def sum.exhaust)
  then obtain mbs idx where r: "prepare_dynamic_batch (Nested [4, 1, 3]) [''a'', ''b'', ''c''] 5 None None None True = Inr (mbs, idx)"
    by (cases x) simp
  from restore_after_prepare [OF r, of id] r show ?thesis by auto
qed

section \<open>Groups stay together\<close>

text \<open>The scan has split the indices so far into consecutive runs of one uid.\<close>

definition scan_ok :: "'u option list \<Rightarrow> nat \<Rightarrow> 'u scan \<Rightarrow> bool" where
  "scan_ok us n s \<longleftrightarrow>
     concat (map fst (sc_groups s)) @ sc_indices s = [0..<n] \<and>
     (0 < n \<longrightarrow> sc_uid s = us ! (n - 1) \<and> sc_indices s \<noteq> []) \<and> (n = 0 \<longrightarrow> sc_uid s = None) \<and>
     (\<forall>g \<in> set (sc_groups s). fst g \<noteq> []) \<and>
     (\<forall>i. Suc i < n \<and> us ! i = us ! Suc i \<longrightarrow>
        (\<forall>g \<in> set (map fst (sc_groups s)) \<union> {sc_indices s}. i \<in> set g \<longleftrightarrow> Suc i \<in> set g))"

lemma scan_ok_step:
  assumes ok: "scan_ok us n s" and n: "n < length us" and u: "uid = us ! n"
  shows "scan_ok us (Suc n) (scan_step (n, l, uid) s)"
proof (cases "uid = sc_uid s")
  case False
  have new: "\<not> (i \<in> set g \<longleftrightarrow> Suc i \<in> set g) \<Longrightarrow> False" if "Suc i < Suc n" "us ! i = us ! Suc i"
    "g \<in> set (map fst (flush_group s)) \<union> {[n]}" for i g
  proof -
    have "Suc i \<noteq> n" using that(2) False u ok by (cases n) (auto simp: scan_ok_def)
    then have i: "Suc i < n" using that(1) by simp
    moreover have "set (sc_indices s) \<subseteq> {0..<n}" using ok
      by (metis Un_upper2 atLeastLessThan_upt scan_ok_def set_append)
    ultimately show "\<not> (i \<in> set g \<longleftrightarrow> Suc i \<in> set g) \<Longrightarrow> False"
      using that ok i by (auto simp: scan_ok_def flush_group_def split: if_splits)
  qed
  then show ?thesis using ok False u by (auto simp: scan_ok_def flush_group_def)
next
  case True
  have bound: "set (sc_indices s) \<subseteq> {0..<n}" "\<forall>g \<in> set (sc_groups s). set (fst g) \<subseteq> {0..<n}"
  proof -
    have "set (concat (map fst (sc_groups s)) @ sc_indices s) = {0..<n}" using ok by (simp add: scan_ok_def)
    then show "set (sc_indices s) \<subseteq> {0..<n}" "\<forall>g \<in> set (sc_groups s). set (fst g) \<subseteq> {0..<n}" by auto
  qed
  have last: "0 < n \<Longrightarrow> n - 1 \<in> set (sc_indices s)"
  proof -
    assume p: "0 < n"
    then have "last (concat (map fst (sc_groups s)) @ sc_indices s) = n - 1" using ok by (simp add: scan_ok_def last_upt)
    then show ?thesis using ok p by (metis last_appendR last_in_set scan_ok_def)
  qed
  have dist: "\<forall>g \<in> set (sc_groups s). n - 1 \<notin> set (fst g)" if "0 < n"
  proof -
    have "distinct (concat (map fst (sc_groups s)) @ sc_indices s)" using ok by (simp add: scan_ok_def)
    then show ?thesis using last [OF that] by auto
  qed
  show ?thesis unfolding scan_ok_def
  proof (intro conjI)
    show "\<forall>i. Suc i < Suc n \<and> us ! i = us ! Suc i \<longrightarrow>
        (\<forall>g \<in> set (map fst (sc_groups (scan_step (n, l, uid) s))) \<union> {sc_indices (scan_step (n, l, uid) s)}.
           i \<in> set g \<longleftrightarrow> Suc i \<in> set g)"
    proof (intro allI impI ballI)
      fix i g assume i: "Suc i < Suc n \<and> us ! i = us ! Suc i"
        and g: "g \<in> set (map fst (sc_groups (scan_step (n, l, uid) s))) \<union> {sc_indices (scan_step (n, l, uid) s)}"
      then have g: "g \<in> set (map fst (sc_groups s)) \<or> g = sc_indices s @ [n]" using True by auto
      show "i \<in> set g \<longleftrightarrow> Suc i \<in> set g"
      proof (cases "Suc i = n")
        case False
        then have "Suc i < n" using i by simp
        then show ?thesis using g i ok by (auto simp: scan_ok_def)
      next
        case si: True
        then have p: "0 < n" "i = n - 1" by auto
        have "Suc i \<notin> set (sc_indices s)" "\<forall>g \<in> set (sc_groups s). Suc i \<notin> set (fst g)" using bound si by force+
        then show ?thesis using g last [OF p(1)] dist [OF p(1)] si p(2) by auto
      qed
    qed
  qed (use ok True u in \<open>auto simp: scan_ok_def\<close>)
qed

lemma scan_ok_fold:
  assumes "length ls = length us" "n \<le> length us"
  shows "scan_ok us n (fold scan_step (take n (py_enumerate (zip ls us)))
    \<lparr>sc_groups = [], sc_uid = None, sc_indices = [], sc_seqlen = 0\<rparr>)"
  using assms(2)
proof (induction n)
  case 0
  then show ?case by (simp add: scan_ok_def)
next
  case (Suc n)
  have "take (Suc n) (py_enumerate (zip ls us)) = take n (py_enumerate (zip ls us)) @ [(n, ls ! n, us ! n)]"
    using Suc.prems assms(1) by (simp add: take_Suc_conv_app_nth)
  then show ?case using scan_ok_step [OF Suc.IH, of "us ! n" "ls ! n"] Suc.prems by (simp del: scan_step.simps)
qed

lemma uid_groups_props:
  assumes "length ls = length us"
  shows "concat (uid_groups ls us) = [0..<length us]" "[] \<notin> set (uid_groups ls us)"
    "\<forall>g \<in> set (uid_groups ls us). \<forall>i. Suc i < length us \<and> us ! i = us ! Suc i \<longrightarrow> (i \<in> set g \<longleftrightarrow> Suc i \<in> set g)"
proof -
  let ?s = "fold scan_step (py_enumerate (zip ls us)) \<lparr>sc_groups = [], sc_uid = None, sc_indices = [], sc_seqlen = 0\<rparr>"
  have ok: "scan_ok us (length us) ?s" using scan_ok_fold [OF assms order.refl] assms by simp
  have g: "set (uid_groups ls us) \<subseteq> set (map fst (sc_groups ?s)) \<union> {sc_indices ?s}"
    by (auto simp: uid_groups_def flush_group_def split: if_splits)
  show "concat (uid_groups ls us) = [0..<length us]"
    using ok by (auto simp: scan_ok_def uid_groups_def flush_group_def)
  show "[] \<notin> set (uid_groups ls us)"
    using ok by (auto simp: scan_ok_def uid_groups_def flush_group_def)
  show "\<forall>g \<in> set (uid_groups ls us). \<forall>i. Suc i < length us \<and> us ! i = us ! Suc i \<longrightarrow> (i \<in> set g \<longleftrightarrow> Suc i \<in> set g)"
    using ok g unfolding scan_ok_def by (meson subsetD)
qed

text \<open>
  Group-balanced partitioning never splits a run of samples that share a uid: every partition
  contains both or neither of two neighbouring samples of one uid. The partitions are \<open>k\<close> sorted,
  non-empty index lists that together contain every sample exactly once.
\<close>

theorem group_partitions_keep_runs:
  assumes r: "get_group_balanced_partitions ls us k = Inr ps" and nonneg: "\<forall>l \<in> set ls. 0 \<le> l" and ne: "ls \<noteq> []"
  shows "length ps = k \<and> mset (concat ps) = mset [0..<length ls] \<and> (\<forall>p \<in> set ps. p \<noteq> [] \<and> sorted p) \<and>
    (\<forall>p \<in> set ps. \<forall>i. Suc i < length us \<and> us ! i = us ! Suc i \<longrightarrow> (i \<in> set p \<longleftrightarrow> Suc i \<in> set p))"
proof -
  let ?G = "uid_groups ls us" and ?w = "map (\<lambda>g. \<Sum>i \<leftarrow> g. calculate_workload (ls ! i)) (uid_groups ls us)"
  obtain parts where len: "length ls = length us" and b: "get_seqlen_balanced_partitions ?w k True = Inr parts"
    and ps: "ps = map (\<lambda>p. sort (concat (map ((!) ?G) p))) parts"
    using r by (auto simp: get_group_balanced_partitions_def Let_def raise_if_Inr ebind_Inr)
  note G = uid_groups_props [OF len]
  have w: "\<forall>v \<in> set ?w. 0 \<le> v"
  proof
    fix v assume "v \<in> set ?w"
    then obtain g where g: "g \<in> set ?G" "v = (\<Sum>i \<leftarrow> g. calculate_workload (ls ! i))" by auto
    have "set g \<subseteq> {0..<length ls}" using g(1) G(1) len by (metis UN_upper atLeastLessThan_upt set_concat)
    then have "\<forall>i \<in> set g. 0 \<le> calculate_workload (ls ! i)" using nonneg by (auto simp: calculate_workload_def)
    then show "0 \<le> v" unfolding g(2) by (intro sum_list_nonneg_int) auto
  qed
  have "concat ?G \<noteq> []" unfolding G(1) using ne by (simp add: len [symmetric])
  then have "?G \<noteq> []" by auto
  then have "?w \<noteq> []" by simp
  note p = balanced_partitions_Inr [OF b w this]
  have range: "\<forall>q \<in> set parts. \<forall>j \<in> set q. j < length ?G"
    using p(5) by (metis UN_I atLeastLessThan_iff atLeastLessThan_upt length_map set_concat set_mset_mset)
  have "mset (concat ps) = mset (concat (map (\<lambda>q. concat (map ((!) ?G) q)) parts))"
    unfolding ps using mset_concat_map_sort [of "map (\<lambda>q. concat (map ((!) ?G) q)) parts"] by (simp add: comp_def)
  also have "concat (map (\<lambda>q. concat (map ((!) ?G) q)) parts) = concat (map ((!) ?G) (concat parts))"
    by (induction parts) auto
  also have "mset \<dots> = mset (concat (map ((!) ?G) [0..<length ?G]))"
    using mset_concat_map_cong [OF p(5)] by simp
  also have "map ((!) ?G) [0..<length ?G] = ?G" by (rule map_nth)
  finally have "mset (concat ps) = mset [0..<length ls]" using G(1) len by simp
  moreover have "x \<noteq> [] \<and> sorted x" if x: "x \<in> set ps" for x
  proof -
    obtain q where q: "q \<in> set parts" "x = sort (concat (map ((!) ?G) q))" using x ps by auto
    then obtain j where j: "j \<in> set q" using p(4) by (metis list.set_intros(1) neq_Nil_conv)
    then have "?G ! j \<noteq> []" using range q(1) G(2) by (metis nth_mem)
    then show ?thesis using q(2) j by auto
  qed
  moreover have "i \<in> set x \<longleftrightarrow> Suc i \<in> set x"
    if x: "x \<in> set ps" and i: "Suc i < length us \<and> us ! i = us ! Suc i" for x i
  proof -
    obtain q where q: "q \<in> set parts" "x = sort (concat (map ((!) ?G) q))" using x ps by auto
    then have "\<forall>j \<in> set q. i \<in> set (?G ! j) \<longleftrightarrow> Suc i \<in> set (?G ! j)" using range G(3) i by (meson nth_mem)
    then show ?thesis using q(2) by simp
  qed
  ultimately show ?thesis using p(3) ps by simp
qed

lemma group_partitions_keep_runs_witness:
  "\<exists>ps. get_group_balanced_partitions [3, 4, 5, 1] [Some ''u'', Some ''u'', Some ''v'', Some ''v''] 2 = Inr ps \<and>
     length ps = 2 \<and> (\<forall>p \<in> set ps. 0 \<in> set p \<longleftrightarrow> 1 \<in> set p)"
proof -
  let ?us = "[Some ''u'', Some ''u'', Some ''v'', Some ''v'']"
  have "\<not> isl (get_group_balanced_partitions [3, 4, 5, 1] ?us 2)" by code_simp
  then obtain ps where r: "get_group_balanced_partitions [3, 4, 5, 1] ?us 2 = Inr ps" by (metis isl_def sum.exhaust)
  have "length ps = 2 \<and> (\<forall>p \<in> set ps. \<forall>i. Suc i < length ?us \<and> ?us ! i = ?us ! Suc i \<longrightarrow> (i \<in> set p \<longleftrightarrow> Suc i \<in> set p))"
    using group_partitions_keep_runs [OF r] by simp
  then have "length ps = 2 \<and> (\<forall>p \<in> set ps. 0 \<in> set p \<longleftrightarrow> 1 \<in> set p)" by force
  then show ?thesis using r by blast
qed

end
