(* ===== verification/Replay_Buffer.thy ===== *)
theory Replay_Buffer
  imports Tensors "HOL-Library.List_Lexorder" "HOL-Library.Char_ord"
begin

text \<open>
  The replay buffer (\<open>verl/trainer/ppo/v1/replay_buffer.py\<close>): sampling of finished prompt
  groups from a TransferQueue, with eviction and refill.

  TransferQueue is a service outside the repository. What the buffer observes of it is an
  input: one \<open>poll\<close> per iteration of the polling loop, with the listing \<open>kv_list\<close>
  returns and the metric values \<open>kv_batch_get\<close> fetches. What the buffer does to it, and
  the calls of \<open>refill_fn\<close>, are the \<open>actions\<close> a step emits. A polling loop consumes
  a list of polls; running out of them means it is still waiting. The order in which Python
  iterates over a set is not specified and is the parameter \<open>cf_order\<close>.
\<close>

section \<open>State\<close>

type_synonym uid = string
type_synonym key = string

record tag =
  tg_is_prompt :: bool
  tg_global_steps :: "int option"
  tg_status :: "string option"
  tg_fields :: "(string \<times> string) list"

type_synonym listing = "(string \<times> (key \<times> tag) list) list"

text \<open>A fetched metric row: the \<open>rm_scores\<close> of a trajectory or its \<open>reward_extra_info\<close>.\<close>

datatype fetched = Scores "flt list" | Extra "(string \<times> flt) list"

record poll =
  pl_listing :: "listing option"
  pl_fetch :: "key list \<Rightarrow> fetched list"

datatype action = Kv_Clear string "key set" | Refill nat

record config =
  cf_threshold :: "nat option"
  cf_strategy :: string
  cf_has_refill :: bool
  cf_metric :: "string option"
  cf_train_batch_size :: nat
  cf_gen_batch_size :: "nat option"
  cf_max_inflight :: int
  cf_sync_refill_failed :: bool
  cf_order :: "uid set \<Rightarrow> uid list"

record buffer =
  rb_partitions :: "string \<Rightarrow> (key \<times> tag) list"
  rb_pending :: "string \<Rightarrow> uid set"
  rb_running :: "string \<Rightarrow> uid set"
  rb_finished :: "string \<Rightarrow> uid set"
  rb_failure :: "string \<Rightarrow> uid set"
  rb_steps :: "string \<Rightarrow> uid \<Rightarrow> int option"
  rb_cache :: "string \<Rightarrow> uid \<Rightarrow> flt option option"

text \<open>\<open>key.split("_")[0]\<close>\<close>

definition uid_of :: "key \<Rightarrow> uid" where
  "uid_of k = takeWhile (\<lambda>c. c \<noteq> CHR ''_'') k"

definition empty_buffer :: buffer where
  "empty_buffer = \<lparr>rb_partitions = (\<lambda>_. []), rb_pending = (\<lambda>_. {}), rb_running = (\<lambda>_. {}),
     rb_finished = (\<lambda>_. {}), rb_failure = (\<lambda>_. {}), rb_steps = (\<lambda>_ _. None), rb_cache = (\<lambda>_ _. None)\<rparr>"

text \<open>The constructor's checks; the asynchronous buffer overrides \<open>_validate_mode_config\<close>.\<close>

definition init_buffer :: "bool \<Rightarrow> config \<Rightarrow> buffer res" where
  "init_buffer async cfg =
     raise_if (cf_threshold cfg = Some 0) (AssertionError ''Invalid max off policy threshold'')
     (raise_if (cf_strategy cfg \<noteq> ''drop'' \<and> cf_strategy cfg \<noteq> ''wait'')
       (AssertionError ''Invalid max off policy strategy'')
     (raise_if (cf_metric cfg \<noteq> None \<and> \<not> cf_has_refill cfg)
       (ValueError ''Group filtering requires refill_fn'')
     (raise_if (cf_sync_refill_failed cfg \<and> \<not> cf_has_refill cfg)
       (ValueError ''sync_refill_failed_groups requires refill_fn'')
     (raise_if (\<not> async \<and> cf_metric cfg \<noteq> None \<and> cf_max_inflight cfg \<le> 0)
       (ValueError ''max_inflight_gen_batches must be a positive integer'')
     (raise_if (\<not> async \<and> cf_sync_refill_failed cfg \<and> cf_gen_batch_size cfg \<noteq> Some 1)
       (ValueError ''sync_refill_failed_groups requires gen_batch_size=1'')
     (Inr empty_buffer))))))"

section \<open>Reading the listing\<close>

definition upd :: "'k \<Rightarrow> ('v \<Rightarrow> 'v) \<Rightarrow> ('k \<Rightarrow> 'v) \<Rightarrow> 'k \<Rightarrow> 'v" where
  "upd k f m = m(k := f (m k))"

fun sync_item :: "string \<Rightarrow> key \<times> tag \<Rightarrow> buffer \<Rightarrow> buffer res" where
  "sync_item pid (key, tag) b =
     (if tg_is_prompt tag then
        case tg_global_steps tag of
          None \<Rightarrow> Inl (KeyError ''global_steps'')
        | Some gs \<Rightarrow>
            let b = b\<lparr>rb_steps := upd pid (\<lambda>m. m(key := Some gs)) (rb_steps b)\<rparr> in
            (case tg_status tag of
               None \<Rightarrow> Inl (KeyError ''status'')
             | Some st \<Rightarrow>
                 if st = ''pending'' then Inr (b\<lparr>rb_pending := upd pid (insert key) (rb_pending b)\<rparr>)
                 else if st = ''running'' then Inr (b\<lparr>rb_running := upd pid (insert key) (rb_running b)\<rparr>)
                 else if st = ''finished'' then Inr (b\<lparr>rb_finished := upd pid (insert key) (rb_finished b)\<rparr>)
                 else if st = ''failure'' then Inr (b\<lparr>rb_failure := upd pid (insert key) (rb_failure b)\<rparr>)
                 else Inl (ValueError ''Unknown status''))
      else Inr (b\<lparr>rb_partitions := upd pid (dict_put key tag) (rb_partitions b)\<rparr>))"

text \<open>The snapshot is rebuilt from scratch; only the classification cache survives.\<close>

definition sync_metadata :: "listing option \<Rightarrow> buffer \<Rightarrow> buffer res" where
  "sync_metadata listing b =
     (let cleared = empty_buffer\<lparr>rb_cache := rb_cache b\<rparr> in
      case listing of None \<Rightarrow> Inr cleared
      | Some data \<Rightarrow> efold (\<lambda>(pid, items). efold (sync_item pid) items) data cleared)"

section \<open>Eviction\<close>

definition metrics_prefix :: "string \<Rightarrow> string" where
  "metrics_prefix pid = (if pid = ''train'' then ''training'' else ''validation'')"

definition clear_groups :: "string \<Rightarrow> uid set \<Rightarrow> buffer \<Rightarrow> buffer \<times> action list" where
  "clear_groups pid uids b =
     (if uids = {} then (b, [])
      else let trajectory_keys = set (filter (\<lambda>k. uid_of k \<in> uids) (map fst (rb_partitions b pid))) in
        (b\<lparr>rb_partitions := upd pid (filter (\<lambda>(k, _). k \<notin> trajectory_keys)) (rb_partitions b),
           rb_pending := upd pid (\<lambda>s. s - uids) (rb_pending b),
           rb_running := upd pid (\<lambda>s. s - uids) (rb_running b),
           rb_finished := upd pid (\<lambda>s. s - uids) (rb_finished b),
           rb_failure := upd pid (\<lambda>s. s - uids) (rb_failure b),
           rb_steps := upd pid (\<lambda>m u. if u \<in> uids then None else m u) (rb_steps b),
           rb_cache := upd pid (\<lambda>m u. if u \<in> uids then None else m u) (rb_cache b)\<rparr>,
         [Kv_Clear pid (uids \<union> trajectory_keys)]))"

text \<open>
  \<open>np.std(values) == 0.0\<close>: all values finite and equal. (The rounding of the mean, which
  can make the deviation of equal floats positive, is not modelled.)
\<close>

definition std_is_zero :: "flt list \<Rightarrow> bool" where
  "std_is_zero vs = (\<forall>v \<in> set vs. is_finite v \<and> v = hd vs)"

text \<open>One row of the metric loop: a value for its group, or a missing metric.\<close>

fun metric_row :: "string \<Rightarrow> key \<times> fetched \<Rightarrow> (uid \<Rightarrow> flt list) \<times> uid set \<Rightarrow> (uid \<Rightarrow> flt list) \<times> uid set" where
  "metric_row metric (key, Scores vs) (by_uid, missing) =
     (upd (uid_of key) (\<lambda>xs. xs @ [fsum vs]) by_uid, missing)"
| "metric_row metric (key, Extra info) (by_uid, missing) =
     (case dict_get metric info of
        None \<Rightarrow> (by_uid, insert (uid_of key) missing)
      | Some v \<Rightarrow> (upd (uid_of key) (\<lambda>xs. xs @ [v]) by_uid, missing))"

definition classify :: "flt list \<Rightarrow> flt option" where
  "classify vs = (if length vs > 1 \<and> std_is_zero vs then Some (hd vs) else None)"

definition dapo_filtered_keys :: "config \<Rightarrow> string \<Rightarrow> (key list \<Rightarrow> fetched list) \<Rightarrow> buffer \<Rightarrow> (uid set \<times> buffer) res" where
  "dapo_filtered_keys cfg pid fetch b =
     (case cf_metric cfg of
        None \<Rightarrow> Inr ({}, b)
      | Some metric \<Rightarrow>
          if pid = ''val'' then Inr ({}, b) else
          let finished = rb_finished b pid;
              cache = (\<lambda>u. if u \<in> finished then rb_cache b pid u else None);
              new_finished = Set.filter (\<lambda>u. cache u = None) finished;
              trajectory_keys = filter (\<lambda>k. uid_of k \<in> new_finished) (map fst (rb_partitions b pid));
              missing = new_finished - set (map uid_of trajectory_keys);
              metric_data = (if trajectory_keys = [] then [] else fetch trajectory_keys) in
          raise_if (length metric_data \<noteq> length trajectory_keys) (ValueError ''zip() arguments differ in length'')
          (let (by_uid, missing) = fold (metric_row metric) (zip trajectory_keys metric_data) ((\<lambda>_. []), missing) in
           raise_if (missing \<noteq> {}) (RuntimeError ''Finished groups are missing DAPO metric'')
           (let cache' = (\<lambda>u. if u \<in> new_finished then Some (classify (by_uid u)) else cache u) in
            Inr (Set.filter (\<lambda>u. case cache' u of Some (Some r) \<Rightarrow> True | _ \<Rightarrow> False) finished,
                 b\<lparr>rb_cache := upd pid (\<lambda>_. cache') (rb_cache b)\<rparr>))))"

text \<open>Stale, filtered and failed groups of one poll, for the two trainer modes.\<close>

record eviction_reasons =
  ev_stale :: "uid set"
  ev_dapo :: "uid set"
  ev_failed :: "uid set"

definition all_evicted :: "eviction_reasons \<Rightarrow> uid set" where
  "all_evicted r = ev_stale r \<union> ev_dapo r \<union> ev_failed r"

definition sync_reasons ::
  "config \<Rightarrow> string \<Rightarrow> (key list \<Rightarrow> fetched list) \<Rightarrow> buffer \<Rightarrow> (eviction_reasons \<times> buffer) res" where
  "sync_reasons cfg pid fetch b =
     (if pid = ''val'' then Inr (\<lparr>ev_stale = {}, ev_dapo = {}, ev_failed = {}\<rparr>, b)
      else ebind (dapo_filtered_keys cfg pid fetch b) (\<lambda>(dapo, b).
        let failed = (if cf_sync_refill_failed cfg
              then rb_failure b pid - set (map (uid_of \<circ> fst) (rb_partitions b pid)) else {}) in
        Inr (\<lparr>ev_stale = {}, ev_dapo = dapo, ev_failed = failed\<rparr>, b)))"

definition steps_of :: "buffer \<Rightarrow> string \<Rightarrow> int \<Rightarrow> uid \<Rightarrow> int" where
  "steps_of b pid dflt u = (case rb_steps b pid u of None \<Rightarrow> dflt | Some s \<Rightarrow> s)"

definition span :: "buffer \<Rightarrow> string \<Rightarrow> int \<Rightarrow> uid \<Rightarrow> int" where
  "span b pid global_steps u = global_steps - steps_of b pid global_steps u + 1"

definition stale_keys :: "config \<Rightarrow> int \<Rightarrow> string \<Rightarrow> buffer \<Rightarrow> uid set" where
  "stale_keys cfg global_steps pid b =
     (case cf_threshold cfg of
        None \<Rightarrow> {}
      | Some t \<Rightarrow> if pid = ''val'' \<or> cf_strategy cfg \<noteq> ''drop'' then {}
          else Set.filter (\<lambda>u. span b pid global_steps u > int t) (rb_finished b pid))"

definition async_reasons ::
  "config \<Rightarrow> int \<Rightarrow> string \<Rightarrow> (key list \<Rightarrow> fetched list) \<Rightarrow> buffer \<Rightarrow> (eviction_reasons \<times> buffer) res" where
  "async_reasons cfg global_steps pid fetch b =
     (if pid = ''val'' then Inr (\<lparr>ev_stale = {}, ev_dapo = {}, ev_failed = {}\<rparr>, b)
      else let stale = stale_keys cfg global_steps pid b in
        ebind (dapo_filtered_keys cfg pid fetch b) (\<lambda>(dapo, b).
        Inr (\<lparr>ev_stale = stale, ev_dapo = dapo, ev_failed = rb_failure b pid\<rparr>, b)))"

definition sampleable_keys :: "string \<Rightarrow> eviction_reasons \<Rightarrow> buffer \<Rightarrow> uid set" where
  "sampleable_keys pid r b = (rb_finished b pid \<union> rb_failure b pid) - all_evicted r"

section \<open>Eviction metrics\<close>

definition str_ends_with :: "string \<Rightarrow> string \<Rightarrow> bool" where
  "str_ends_with s suffix = (length suffix \<le> length s \<and> drop (length s - length suffix) s = suffix)"

type_synonym ev_metrics = "(string \<times> real) list"

definition rmax :: "real list \<Rightarrow> real" where
  "rmax xs = fold max (tl xs) (hd xs)"

definition rmin :: "real list \<Rightarrow> real" where
  "rmin xs = fold min (tl xs) (hd xs)"

definition eviction_metrics :: "config \<Rightarrow> int \<Rightarrow> string \<Rightarrow> eviction_reasons \<Rightarrow> buffer \<Rightarrow> ev_metrics" where
  "eviction_metrics cfg global_steps pid r b =
     (let prefix = metrics_prefix pid;
          spans = map (\<lambda>u. real_of_int (span b pid global_steps u)) (cf_order cfg (ev_stale r)) in
      (if ev_stale r = {} then [] else
         [(prefix @ ''/off_policy/evicted_samples'', real (card (ev_stale r))),
          (prefix @ ''/off_policy/evicted_samples_staleness/mean'', rmean spans),
          (prefix @ ''/off_policy/evicted_samples_staleness/max'', rmax spans),
          (prefix @ ''/off_policy/evicted_samples_staleness/min'', rmin spans)]) @
      (if ev_dapo r = {} then [] else
         [(prefix @ ''/filter_groups/evicted_samples'', real (card (ev_dapo r)))]) @
      (if ev_failed r = {} then [] else
         [(prefix @ ''/rollout_failure/evicted_samples'', real (card (ev_failed r)))]))"

text \<open>
  \<open>_accumulate_eviction_metrics\<close>, without the dictionary-valued diagnostic. The stale total
  the mean is weighted with is read before the loop changes it.
\<close>

definition accumulate_one :: "real \<Rightarrow> real \<Rightarrow> string \<times> real \<Rightarrow> ev_metrics \<Rightarrow> ev_metrics" where
  "accumulate_one prev_stale_total stale_count kv acc =
     (case kv of (key, v) \<Rightarrow>
      if str_ends_with key ''/evicted_samples_staleness/mean'' then
        let denom = prev_stale_total + stale_count in
        dict_put key (if denom \<noteq> 0
          then (dict_get_or 0 key acc * prev_stale_total + v * stale_count) / denom else v) acc
      else if str_ends_with key ''/evicted_samples_staleness/max'' then
        dict_put key (max (dict_get_or v key acc) v) acc
      else if str_ends_with key ''/evicted_samples_staleness/min'' then
        dict_put key (min (dict_get_or v key acc) v) acc
      else dict_put key (dict_get_or 0 key acc + v) acc)"

definition accumulate_metrics :: "ev_metrics \<Rightarrow> ev_metrics \<Rightarrow> nat \<Rightarrow> ev_metrics" where
  "accumulate_metrics acc new stale_count =
     (let prev = (case filter (\<lambda>k. str_ends_with k ''/off_policy/evicted_samples'') (map fst new) of
                    [] \<Rightarrow> 0 | k # _ \<Rightarrow> dict_get_or 0 k acc)
      in fold (accumulate_one prev (real stale_count)) new acc)"

text \<open>\<open>_evict_terminal_groups\<close>; nothing happens when nothing is to be evicted.\<close>

definition evict ::
  "config \<Rightarrow> int \<Rightarrow> string \<Rightarrow> eviction_reasons \<Rightarrow> buffer \<Rightarrow> ev_metrics \<Rightarrow> buffer \<times> ev_metrics \<times> action list" where
  "evict cfg global_steps pid r b acc =
     (if all_evicted r = {} then (b, acc, [])
      else let (b', acts) = clear_groups pid (all_evicted r) b in
        (b', accumulate_metrics acc (eviction_metrics cfg global_steps pid r b) (card (ev_stale r)), acts))"

section \<open>Selection\<close>

text \<open>Oldest first; groups of one age stay in set-iteration order.\<close>

definition select_prompt_uids :: "config \<Rightarrow> string \<Rightarrow> uid set \<Rightarrow> nat \<Rightarrow> buffer \<Rightarrow> uid list" where
  "select_prompt_uids cfg pid sampleable batch_size b =
     take batch_size (sort_key (steps_of b pid 0) (cf_order cfg sampleable))"

definition materialize :: "string \<Rightarrow> uid list \<Rightarrow> (key \<times> tag) list \<Rightarrow> (key \<times> tag) list \<times> action list" where
  "materialize pid selected snapshot =
     (filter (\<lambda>(k, _). uid_of k \<in> set selected) snapshot, [Kv_Clear pid (set selected)])"

definition call_refill :: "config \<Rightarrow> nat \<Rightarrow> action list res" where
  "call_refill cfg n = (if cf_has_refill cfg then Inr [Refill n] else Inl (TypeError ''NoneType is not callable''))"

section \<open>The synchronous polling loop\<close>

record loop_state =
  ls_buffer :: buffer
  ls_metrics :: ev_metrics
  ls_credit :: nat
  ls_draining :: bool

text \<open>What one iteration decides: poll again, or the selected groups and the snapshot.\<close>

datatype outcome = Again | Done "uid list" "(key \<times> tag) list"

definition inflight :: "string \<Rightarrow> buffer \<Rightarrow> nat" where
  "inflight pid b = card (rb_pending b pid) + card (rb_running b pid)"

definition dapo_enabled :: "config \<Rightarrow> string \<Rightarrow> bool" where
  "dapo_enabled cfg pid = (pid \<noteq> ''val'' \<and> cf_metric cfg \<noteq> None)"

text \<open>How many prompts a DAPO iteration dispatches: bounded by slots, in whole chunks.\<close>

definition dispatch_count :: "config \<Rightarrow> nat \<Rightarrow> nat \<Rightarrow> nat res" where
  "dispatch_count cfg credit inflight_count =
     (let max_inflight = cf_max_inflight cfg * int (cf_train_batch_size cfg);
          slots = nat (max 0 (max_inflight - int inflight_count));
          n = min credit slots in
      case cf_gen_batch_size cfg of
        None \<Rightarrow> Inl (AssertionError ''gen_batch_size'')
      | Some g \<Rightarrow> raise_if (g = 0) ZeroDivisionError (Inr (n - n mod g)))"

definition select_step ::
  "config \<Rightarrow> string \<Rightarrow> nat \<Rightarrow> uid set \<Rightarrow> bool \<Rightarrow> loop_state \<Rightarrow> outcome \<times> loop_state \<times> action list" where
  "select_step cfg pid batch_size sampleable enough ls =
     (let b = ls_buffer ls; dapo = dapo_enabled cfg pid in
      if enough \<and> (\<not> dapo \<or> inflight pid b = 0) then
        let selected = select_prompt_uids cfg pid sampleable batch_size b;
            snapshot = rb_partitions b pid;
            surplus = sampleable - set selected in
        if dapo \<and> surplus \<noteq> {} then
          let (b', acts) = clear_groups pid surplus b;
              key = metrics_prefix pid @ ''/filter_groups/discarded_surplus_samples'' in
          (Done selected snapshot,
           ls\<lparr>ls_buffer := b',
              ls_metrics := dict_put key (dict_get_or 0 key (ls_metrics ls) + real (card surplus)) (ls_metrics ls)\<rparr>,
           acts)
        else (Done selected snapshot, ls, [])
      else (Again, ls, []))"

definition sync_step ::
  "config \<Rightarrow> int \<Rightarrow> string \<Rightarrow> nat \<Rightarrow> poll \<Rightarrow> loop_state \<Rightarrow> (outcome \<times> loop_state \<times> action list) res" where
  "sync_step cfg global_steps pid batch_size p ls =
     ebind (sync_metadata (pl_listing p) (ls_buffer ls)) (\<lambda>b.
     ebind (sync_reasons cfg pid (pl_fetch p) b) (\<lambda>(r, b).
     let (b, metrics, acts) = evict cfg global_steps pid r b (ls_metrics ls);
         ls = ls\<lparr>ls_buffer := b, ls_metrics := metrics\<rparr>;
         sampleable = sampleable_keys pid r b;
         enough = card sampleable \<ge> batch_size;
         failed_count = card (ev_failed r);
         dapo = dapo_enabled cfg pid in
     if \<not> dapo \<and> failed_count > 0 \<and> \<not> enough then
       ebind (call_refill cfg failed_count) (\<lambda>a. Inr (Again, ls, acts @ a))
     else
       let ls = (if \<not> dapo then ls
                 else if enough then ls\<lparr>ls_draining := True, ls_credit := 0\<rparr>
                 else if \<not> ls_draining ls then ls\<lparr>ls_credit := ls_credit ls + 2 * card (ev_dapo r) + failed_count\<rparr>
                 else ls) in
       ebind (if dapo \<and> \<not> ls_draining ls \<and> ls_credit ls > 0
              then dispatch_count cfg (ls_credit ls) (inflight pid b) else Inr 0) (\<lambda>n.
       if n > 0 then
         ebind (call_refill cfg n) (\<lambda>a. Inr (Again, ls\<lparr>ls_credit := ls_credit ls - n\<rparr>, acts @ a))
       else let (out, ls, a) = select_step cfg pid batch_size sampleable enough ls
            in Inr (out, ls, acts @ a))))"

fun sync_loop ::
  "config \<Rightarrow> int \<Rightarrow> string \<Rightarrow> nat \<Rightarrow> poll list \<Rightarrow> loop_state
    \<Rightarrow> ((uid list \<times> (key \<times> tag) list) option \<times> loop_state \<times> action list) res" where
  "sync_loop cfg global_steps pid batch_size [] ls = Inr (None, ls, [])"
| "sync_loop cfg global_steps pid batch_size (p # ps) ls =
     ebind (sync_step cfg global_steps pid batch_size p ls) (\<lambda>(out, ls, acts).
       case out of
         Done sel snap \<Rightarrow> Inr (Some (sel, snap), ls, acts)
       | Again \<Rightarrow> ebind (sync_loop cfg global_steps pid batch_size ps ls)
                  (\<lambda>(r, ls, acts'). Inr (r, ls, acts @ acts')))"

definition start_loop :: "buffer \<Rightarrow> loop_state" where
  "start_loop b = \<lparr>ls_buffer = b, ls_metrics = [], ls_credit = 0, ls_draining = False\<rparr>"

text \<open>\<open>ReplayBuffer.sample\<close>; \<open>None\<close> when the polls ran out before a batch was available.\<close>

definition sample_sync ::
  "config \<Rightarrow> int \<Rightarrow> string \<Rightarrow> nat \<Rightarrow> poll list \<Rightarrow> buffer
    \<Rightarrow> (((key \<times> tag) list \<times> ev_metrics) option \<times> buffer \<times> action list) res" where
  "sample_sync cfg global_steps pid batch_size polls b =
     ebind (sync_loop cfg global_steps pid batch_size polls (start_loop b)) (\<lambda>(r, ls, acts).
     case r of
       None \<Rightarrow> Inr (None, ls_buffer ls, acts)
     | Some (sel, snap) \<Rightarrow>
         raise_if (pid \<noteq> ''val'' \<and> \<not> (\<exists>k \<in> set (map fst snap). uid_of k \<in> set sel))
           (RuntimeError ''selected terminal groups with no materializable trajectories'')
         (let (batch, a) = materialize pid sel snap in
          Inr (Some (batch, ls_metrics ls), ls_buffer ls, acts @ a)))"

section \<open>The asynchronous polling loop\<close>

text \<open>
  The loop over in-flight prompts stops at the first one that has reached the threshold;
  \<open>self.prompt_global_steps[partition_id][key]\<close> raises for a key without an entry.
\<close>

fun any_blocking :: "int \<Rightarrow> int \<Rightarrow> (uid \<Rightarrow> int option) \<Rightarrow> uid list \<Rightarrow> bool res" where
  "any_blocking global_steps t steps [] = Inr False"
| "any_blocking global_steps t steps (u # us) =
     (case steps u of
        None \<Rightarrow> Inl (KeyError ''prompt_global_steps'')
      | Some s \<Rightarrow> if global_steps - s + 1 \<ge> t then Inr True else any_blocking global_steps t steps us)"

definition has_enough_samples ::
  "config \<Rightarrow> int \<Rightarrow> string \<Rightarrow> nat \<Rightarrow> uid set \<Rightarrow> buffer \<Rightarrow> bool res" where
  "has_enough_samples cfg global_steps pid batch_size sampleable b =
     (case cf_threshold cfg of
        Some t \<Rightarrow>
          if cf_strategy cfg = ''wait'' then
            ebind (any_blocking global_steps (int t) (rb_steps b pid)
                    (cf_order cfg (rb_pending b pid \<union> rb_running b pid))) (\<lambda>blocking.
            Inr (\<not> blocking \<and> card sampleable \<ge> batch_size))
          else Inr (card sampleable \<ge> batch_size)
      | None \<Rightarrow> Inr (card sampleable \<ge> batch_size))"

definition async_step ::
  "config \<Rightarrow> int \<Rightarrow> string \<Rightarrow> nat \<Rightarrow> poll \<Rightarrow> buffer \<times> ev_metrics
    \<Rightarrow> (uid set option \<times> (buffer \<times> ev_metrics) \<times> action list) res" where
  "async_step cfg global_steps pid target p st =
     ebind (sync_metadata (pl_listing p) (fst st)) (\<lambda>b.
     ebind (async_reasons cfg global_steps pid (pl_fetch p) b) (\<lambda>(r, b).
     let (b, metrics, acts) = evict cfg global_steps pid r b (snd st);
         sampleable = sampleable_keys pid r b in
     if all_evicted r \<noteq> {} then
       Inr (None, (b, metrics), acts @ (if cf_has_refill cfg then [Refill (card (all_evicted r))] else []))
     else ebind (has_enough_samples cfg global_steps pid target sampleable b) (\<lambda>ok.
       Inr (if ok then Some sampleable else None, (b, metrics), acts))))"

definition get_sampleable_count :: "config \<Rightarrow> int \<Rightarrow> string \<Rightarrow> poll \<Rightarrow> buffer \<Rightarrow> (nat \<times> buffer) res" where
  "get_sampleable_count cfg global_steps pid p b =
     ebind (sync_metadata (pl_listing p) b) (\<lambda>b.
     ebind (async_reasons cfg global_steps pid (pl_fetch p) b) (\<lambda>(r, b).
     Inr (card (sampleable_keys pid r b), b)))"

fun wait_for_sampleable ::
  "config \<Rightarrow> int \<Rightarrow> string \<Rightarrow> nat \<Rightarrow> poll list \<Rightarrow> buffer \<times> ev_metrics
    \<Rightarrow> (uid set option \<times> (buffer \<times> ev_metrics) \<times> action list) res" where
  "wait_for_sampleable cfg global_steps pid target [] st = Inr (None, st, [])"
| "wait_for_sampleable cfg global_steps pid target (p # ps) st =
     ebind (async_step cfg global_steps pid target p st) (\<lambda>(r, st, acts).
       case r of
         Some s \<Rightarrow> Inr (Some s, st, acts)
       | None \<Rightarrow> ebind (wait_for_sampleable cfg global_steps pid target ps st)
                  (\<lambda>(r, st, acts'). Inr (r, st, acts @ acts')))"

definition take_async ::
  "config \<Rightarrow> int \<Rightarrow> string \<Rightarrow> nat \<Rightarrow> uid set \<Rightarrow> buffer \<Rightarrow> ((key \<times> tag) list \<times> action list) res" where
  "take_async cfg global_steps pid batch_size sampleable b =
     (let sel = select_prompt_uids cfg pid sampleable batch_size b in
      raise_if (case cf_threshold cfg of None \<Rightarrow> False
                | Some t \<Rightarrow> pid \<noteq> ''val'' \<and> cf_strategy cfg = ''drop'' \<and>
                    (\<exists>u \<in> set sel. span b pid global_steps u > int t))
        (AssertionError ''drop strategy selected stale prompts'')
      (Inr (materialize pid sel (rb_partitions b pid))))"

definition sample_async ::
  "config \<Rightarrow> int \<Rightarrow> string \<Rightarrow> nat \<Rightarrow> poll list \<Rightarrow> buffer
    \<Rightarrow> (((key \<times> tag) list \<times> ev_metrics) option \<times> buffer \<times> action list) res" where
  "sample_async cfg global_steps pid batch_size polls b =
     ebind (wait_for_sampleable cfg global_steps pid batch_size polls (b, [])) (\<lambda>(r, (b, metrics), acts).
     case r of
       None \<Rightarrow> Inr (None, b, acts)
     | Some sampleable \<Rightarrow>
         ebind (take_async cfg global_steps pid batch_size sampleable b) (\<lambda>(batch, a).
         Inr (Some (batch, metrics), b, acts @ a)))"

section \<open>Lemmas\<close>

text \<open>Iterating over a set visits every element once, in some order.\<close>

definition set_order :: "('a set \<Rightarrow> 'a list) \<Rightarrow> bool" where
  "set_order f \<longleftrightarrow> (\<forall>S. finite S \<longrightarrow> set (f S) = S \<and> distinct (f S))"

text \<open>Prompts of the listing by status, and what the snapshot holds.\<close>

definition listed :: "listing option \<Rightarrow> string \<Rightarrow> string \<Rightarrow> uid set" where
  "listed l pid st = (case l of None \<Rightarrow> {} | Some data \<Rightarrow>
     {u. \<exists>items tag. (pid, items) \<in> set data \<and> (u, tag) \<in> set items \<and> tg_is_prompt tag \<and> tg_status tag = Some st})"

text \<open>Everything the snapshot sets contain is finite and has a step recorded.\<close>

definition tracked :: "buffer \<Rightarrow> bool" where
  "tracked b \<longleftrightarrow> (\<forall>pid. finite (rb_pending b pid) \<and> finite (rb_running b pid) \<and> finite (rb_finished b pid) \<and>
     finite (rb_failure b pid) \<and>
     (\<forall>u \<in> rb_pending b pid \<union> rb_running b pid. rb_steps b pid u \<noteq> None))"

lemma sync_item_tracked: "sync_item pid kt b = Inr b' \<Longrightarrow> tracked b \<Longrightarrow> tracked b'"
  by (cases kt) (auto simp: tracked_def upd_def Let_def split: if_splits option.splits)

lemma efold_invariant:
  "efold f xs s = Inr t \<Longrightarrow> P s \<Longrightarrow> (\<And>x s s'. x \<in> set xs \<Longrightarrow> P s \<Longrightarrow> f x s = Inr s' \<Longrightarrow> P s') \<Longrightarrow> P t"
proof (induction xs arbitrary: s)
  case (Cons x xs)
  then obtain s' where s': "f x s = Inr s'" "efold f xs s' = Inr t" by (auto simp: ebind_Inr)
  show ?case by (rule Cons.IH [OF s'(2)]) (use Cons.prems s'(1) in auto)
qed simp

lemma sync_metadata_tracked: "sync_metadata l b = Inr b' \<Longrightarrow> tracked b'"
proof -
  assume sm: "sync_metadata l b = Inr b'"
  have e: "tracked (empty_buffer\<lparr>rb_cache := c\<rparr>)" for c by (simp add: tracked_def empty_buffer_def)
  show ?thesis
  proof (cases l)
    case None
    then show ?thesis using sm e by (auto simp: sync_metadata_def)
  next
    case (Some data)
    then have "efold (\<lambda>(pid, items). efold (sync_item pid) items) data (empty_buffer\<lparr>rb_cache := rb_cache b\<rparr>) = Inr b'"
      using sm by (simp add: sync_metadata_def Let_def)
    then show ?thesis
    proof (rule efold_invariant [where P = tracked, OF _ e])
      fix x s s' assume "tracked s" "(case x of (pid, items) \<Rightarrow> efold (sync_item pid) items) s = Inr s'"
      then show "tracked s'"
        by (cases x) (auto intro: efold_invariant [where P = tracked] sync_item_tracked)
    qed
  qed
qed

lemma sync_item_sets:
  assumes "sync_item pid (k, t) b = Inr b'"
  shows "rb_pending b' q = rb_pending b q \<union> (if q = pid \<and> tg_is_prompt t \<and> tg_status t = Some ''pending'' then {k} else {})"
    "rb_running b' q = rb_running b q \<union> (if q = pid \<and> tg_is_prompt t \<and> tg_status t = Some ''running'' then {k} else {})"
    "rb_finished b' q = rb_finished b q \<union> (if q = pid \<and> tg_is_prompt t \<and> tg_status t = Some ''finished'' then {k} else {})"
    "rb_failure b' q = rb_failure b q \<union> (if q = pid \<and> tg_is_prompt t \<and> tg_status t = Some ''failure'' then {k} else {})"
  using assms by (auto simp: upd_def Let_def split: if_splits option.splits)

lemma efold_union:
  "efold f xs s = Inr t \<Longrightarrow> (\<And>x s s'. f x s = Inr s' \<Longrightarrow> g s' = g s \<union> h x) \<Longrightarrow> g t = g s \<union> (\<Union>x \<in> set xs. h x)"
proof (induction xs arbitrary: s)
  case (Cons x xs)
  then obtain s' where s': "f x s = Inr s'" "efold f xs s' = Inr t" by (auto simp: ebind_Inr)
  have "g t = g s' \<union> (\<Union>x \<in> set xs. h x)" by (rule Cons.IH [OF s'(2) Cons.prems(2)])
  then show ?case using Cons.prems(2) [OF s'(1)] by auto
qed simp

text \<open>The snapshot holds exactly the prompts of the listing, by status.\<close>

lemma sync_metadata_listed:
  assumes "sync_metadata l b = Inr b'"
  shows "rb_pending b' pid = listed l pid ''pending''" "rb_running b' pid = listed l pid ''running''"
    "rb_finished b' pid = listed l pid ''finished''" "rb_failure b' pid = listed l pid ''failure''"
proof -
  let ?e = "empty_buffer\<lparr>rb_cache := rb_cache b\<rparr>"
  have main: "g b' = listed l pid st"
    if item: "\<And>q k t b b'. sync_item q (k, t) b = Inr b' \<Longrightarrow>
        g b' = g b \<union> (if pid = q \<and> tg_is_prompt t \<and> tg_status t = Some st then {k} else {})"
      and e: "g ?e = {}" for g :: "buffer \<Rightarrow> uid set" and st
  proof (cases l)
    case None
    then show ?thesis using assms e by (simp add: sync_metadata_def listed_def)
  next
    case (Some data)
    let ?h = "\<lambda>q kt. if pid = q \<and> tg_is_prompt (snd kt) \<and> tg_status (snd kt) = Some st then {fst kt} else {}"
    have "efold (\<lambda>(q, items). efold (sync_item q) items) data ?e = Inr b'"
      using assms Some by (simp add: sync_metadata_def)
    then have "g b' = g ?e \<union> (\<Union>x \<in> set data. \<Union>kt \<in> set (snd x). ?h (fst x) kt)"
    proof (rule efold_union)
      fix x s s' assume "(case x of (q, items) \<Rightarrow> efold (sync_item q) items) s = Inr s'"
      then have "efold (sync_item (fst x)) (snd x) s = Inr s'" by (simp add: case_prod_unfold)
      then show "g s' = g s \<union> (\<Union>kt \<in> set (snd x). ?h (fst x) kt)"
        by (rule efold_union) (use item in \<open>force split: prod.splits\<close>)
    qed
    then show ?thesis unfolding e Some listed_def by (fastforce split: if_splits)
  qed
  show "rb_pending b' pid = listed l pid ''pending''"
    by (rule main) (simp_all add: sync_item_sets empty_buffer_def del: sync_item.simps)
  show "rb_running b' pid = listed l pid ''running''"
    by (rule main) (simp_all add: sync_item_sets empty_buffer_def del: sync_item.simps)
  show "rb_finished b' pid = listed l pid ''finished''"
    by (rule main) (simp_all add: sync_item_sets empty_buffer_def del: sync_item.simps)
  show "rb_failure b' pid = listed l pid ''failure''"
    by (rule main) (simp_all add: sync_item_sets empty_buffer_def del: sync_item.simps)
qed

lemma clear_groups_simps:
  "rb_pending (fst (clear_groups pid E b)) pid = rb_pending b pid - E"
  "rb_running (fst (clear_groups pid E b)) pid = rb_running b pid - E"
  "rb_finished (fst (clear_groups pid E b)) pid = rb_finished b pid - E"
  "rb_failure (fst (clear_groups pid E b)) pid = rb_failure b pid - E"
  "u \<notin> E \<Longrightarrow> rb_steps (fst (clear_groups pid E b)) pid u = rb_steps b pid u"
  "E \<noteq> {} \<Longrightarrow> \<exists>K. snd (clear_groups pid E b) = [Kv_Clear pid K] \<and> E \<subseteq> K"
  "E = {} \<Longrightarrow> clear_groups pid E b = (b, [])"
  by (auto simp: clear_groups_def upd_def Let_def)

lemma dapo_filtered_Inr:
  "dapo_filtered_keys cfg pid fetch b = Inr (D, b') \<Longrightarrow>
     D \<subseteq> rb_finished b pid \<and> (\<exists>c. b' = b\<lparr>rb_cache := c\<rparr>)"
  by (auto simp: dapo_filtered_keys_def Let_def raise_if_Inr case_prod_unfold split: option.splits if_splits
      intro: exI [of _ "rb_cache b"])

lemma sync_reasons_Inr:
  assumes "sync_reasons cfg pid fetch b = Inr (r, b')"
  shows "all_evicted r \<subseteq> rb_finished b pid \<union> rb_failure b pid" "\<exists>c. b' = b\<lparr>rb_cache := c\<rparr>" "ev_stale r = {}"
proof -
  have "all_evicted r \<subseteq> rb_finished b pid \<union> rb_failure b pid \<and> (\<exists>c. b' = b\<lparr>rb_cache := c\<rparr>) \<and> ev_stale r = {}"
  proof (cases "pid = ''val''")
    case True
    then show ?thesis using assms by (auto simp: sync_reasons_def all_evicted_def intro: exI [of _ "rb_cache b"])
  next
    case False
    then obtain D b1 where d: "dapo_filtered_keys cfg pid fetch b = Inr (D, b1)"
      and r: "r = \<lparr>ev_stale = {}, ev_dapo = D, ev_failed = (if cf_sync_refill_failed cfg
              then rb_failure b1 pid - set (map (uid_of \<circ> fst) (rb_partitions b1 pid)) else {})\<rparr>" "b' = b1"
      using assms by (auto simp: sync_reasons_def ebind_Inr Let_def)
    show ?thesis using dapo_filtered_Inr [OF d] r by (auto simp: all_evicted_def)
  qed
  then show "all_evicted r \<subseteq> rb_finished b pid \<union> rb_failure b pid" "\<exists>c. b' = b\<lparr>rb_cache := c\<rparr>" "ev_stale r = {}"
    by blast+
qed

lemma evict_simps:
  "fst (evict cfg gs pid r b acc) = fst (clear_groups pid (all_evicted r) b)"
  "snd (snd (evict cfg gs pid r b acc)) = snd (clear_groups pid (all_evicted r) b)"
  by (auto simp: evict_def clear_groups_def Let_def)

text \<open>Taking the first elements of a sorted sequence.\<close>

lemma take_sort_key:
  assumes "n \<le> length xs"
  shows "length (take n (sort_key f xs)) = n" "set (take n (sort_key f xs)) \<subseteq> set xs"
    "distinct xs \<Longrightarrow> distinct (take n (sort_key f xs))"
    "distinct xs \<Longrightarrow> s \<in> set (take n (sort_key f xs)) \<Longrightarrow> u \<in> set xs - set (take n (sort_key f xs)) \<Longrightarrow> f s \<le> f u"
proof -
  let ?L = "sort_key f xs"
  show "length (take n ?L) = n" using assms by simp
  show "set (take n ?L) \<subseteq> set xs" using set_take_subset [of n ?L] by simp
  show "distinct xs \<Longrightarrow> distinct (take n ?L)" by simp
  assume s: "s \<in> set (take n ?L)" and u: "u \<in> set xs - set (take n ?L)"
  have "set xs = set (take n ?L) \<union> set (drop n ?L)"
    using set_append [of "take n ?L" "drop n ?L"] by simp
  then have "u \<in> set (drop n ?L)" using u by blast
  moreover have "sorted (map f (take n ?L) @ map f (drop n ?L))"
    by (metis append_take_drop_id map_append sorted_sort_key)
  ultimately show "f s \<le> f u" using s by (auto simp: sorted_append)
qed

lemma sampled_prompts:
  assumes "set_order (cf_order cfg)" "finite S" "n \<le> card S"
  shows "length (select_prompt_uids cfg pid S n b) = n" "set (select_prompt_uids cfg pid S n b) \<subseteq> S"
    "distinct (select_prompt_uids cfg pid S n b)"
    "s \<in> set (select_prompt_uids cfg pid S n b) \<Longrightarrow> u \<in> S - set (select_prompt_uids cfg pid S n b)
      \<Longrightarrow> steps_of b pid 0 s \<le> steps_of b pid 0 u"
proof -
  have o: "set (cf_order cfg S) = S" "distinct (cf_order cfg S)" using assms(1,2) by (auto simp: set_order_def)
  then have n: "n \<le> length (cf_order cfg S)" using assms(3) distinct_card by fastforce
  show "length (select_prompt_uids cfg pid S n b) = n" "set (select_prompt_uids cfg pid S n b) \<subseteq> S"
    "distinct (select_prompt_uids cfg pid S n b)"
    "s \<in> set (select_prompt_uids cfg pid S n b) \<Longrightarrow> u \<in> S - set (select_prompt_uids cfg pid S n b)
      \<Longrightarrow> steps_of b pid 0 s \<le> steps_of b pid 0 u"
    unfolding select_prompt_uids_def
    using take_sort_key [OF n, where f = "steps_of b pid 0"] o by auto
qed

section \<open>One synchronous iteration\<close>

text \<open>The prompt counts an action sequence asks \<open>refill_fn\<close> for.\<close>

fun refills :: "action list \<Rightarrow> nat list" where
  "refills [] = []"
| "refills (Refill n # acts) = n # refills acts"
| "refills (Kv_Clear pid K # acts) = refills acts"

lemma refills_append [simp]: "refills (xs @ ys) = refills xs @ refills ys"
  by (induction xs rule: refills.induct) auto

lemma set_refills: "set (refills acts) = {k. Refill k \<in> set acts}"
  by (induction acts rule: refills.induct) auto

text \<open>What an iteration has computed when it reaches its decision.\<close>

lemma sync_step_cases:
  assumes step: "sync_step cfg gs pid n p ls = Inr (out, ls', acts)"
    and meta: "sync_metadata (pl_listing p) (ls_buffer ls) = Inr b0"
    and reasons: "sync_reasons cfg pid (pl_fetch p) b0 = Inr (r, b1)"
    and b2: "b2 = fst (clear_groups pid (all_evicted r) b1)"
    and S: "S = sampleable_keys pid r b2"
  obtains (Failed) "\<not> dapo_enabled cfg pid" "out = Again" "ls_credit ls' = ls_credit ls"
      "ls_draining ls' = ls_draining ls" "ls_buffer ls' = b2" "card S < n" "ev_failed r \<noteq> {}"
      "acts = snd (clear_groups pid (all_evicted r) b1) @ [Refill (card (ev_failed r))]"
  | (Dispatch) k c where "dapo_enabled cfg pid" "out = Again" "card S < n" "\<not> ls_draining ls" "\<not> ls_draining ls'"
      "c = ls_credit ls + 2 * card (ev_dapo r) + card (ev_failed r)" "0 < k" "dispatch_count cfg c (inflight pid b2) = Inr k"
      "ls_credit ls' = c - k" "ls_buffer ls' = b2" "acts = snd (clear_groups pid (all_evicted r) b1) @ [Refill k]"
  | (Select) ls1 a where "select_step cfg pid n S (n \<le> card S) ls1 = (out, ls', a)" "ls_buffer ls1 = b2"
      "acts = snd (clear_groups pid (all_evicted r) b1) @ a"
      "ls_draining ls1 = (ls_draining ls \<or> dapo_enabled cfg pid \<and> n \<le> card S)"
      "ls_credit ls1 = (if dapo_enabled cfg pid \<and> n \<le> card S then 0
         else if dapo_enabled cfg pid \<and> \<not> ls_draining ls then ls_credit ls + 2 * card (ev_dapo r) + card (ev_failed r)
         else ls_credit ls)"
proof -
  obtain m where m: "evict cfg gs pid r b1 (ls_metrics ls) = (b2, m, snd (clear_groups pid (all_evicted r) b1))"
    using evict_simps [of cfg gs pid r b1 "ls_metrics ls"] b2 by (metis prod.collapse)
  let ?d = "dapo_enabled cfg pid"
  let ?A = "snd (clear_groups pid (all_evicted r) b1)"
  let ?c = "ls_credit ls + 2 * card (ev_dapo r) + card (ev_failed r)"
  define l0 where "l0 = ls\<lparr>ls_buffer := b2, ls_metrics := m\<rparr>"
  define l1 where "l1 = (if \<not> ?d then l0 else if n \<le> card S then l0\<lparr>ls_draining := True, ls_credit := 0\<rparr>
             else if \<not> ls_draining l0 then l0\<lparr>ls_credit := ls_credit l0 + 2 * card (ev_dapo r) + card (ev_failed r)\<rparr> else l0)"
  have l0: "ls_buffer l0 = b2" "ls_credit l0 = ls_credit ls" "ls_draining l0 = ls_draining ls" by (simp_all add: l0_def)
  have l1: "ls_buffer l1 = b2" "ls_draining l1 = (ls_draining ls \<or> ?d \<and> n \<le> card S)"
    "ls_credit l1 = (if ?d \<and> n \<le> card S then 0 else if ?d \<and> \<not> ls_draining ls then ?c else ls_credit ls)"
    by (auto simp: l1_def l0)
  have st: "(if \<not> ?d \<and> 0 < card (ev_failed r) \<and> \<not> n \<le> card S
      then ebind (call_refill cfg (card (ev_failed r))) (\<lambda>a. Inr (Again, l0, ?A @ a))
      else ebind (if ?d \<and> \<not> ls_draining l1 \<and> 0 < ls_credit l1 then dispatch_count cfg (ls_credit l1) (inflight pid b2) else Inr 0)
        (\<lambda>k. if 0 < k then ebind (call_refill cfg k) (\<lambda>a. Inr (Again, l1\<lparr>ls_credit := ls_credit l1 - k\<rparr>, ?A @ a))
              else case select_step cfg pid n S (n \<le> card S) l1 of (out, l, a) \<Rightarrow> Inr (out, l, ?A @ a))) = Inr (out, ls', acts)"
    using step by (simp only: sync_step_def meta ebind.simps reasons case_prod_conv m Let_def S l1_def l0_def)
  show thesis
  proof (cases "\<not> ?d \<and> 0 < card (ev_failed r) \<and> \<not> n \<le> card S")
    case True
    with st have "ls' = l0" "out = Again" "acts = ?A @ [Refill (card (ev_failed r))]"
      by (auto simp: call_refill_def split: if_splits)
    then show thesis using True l0 by (intro Failed) auto
  next
    case F: False
    obtain k where k: "(if ?d \<and> \<not> ls_draining l1 \<and> 0 < ls_credit l1 then dispatch_count cfg (ls_credit l1) (inflight pid b2) else Inr 0) = Inr k"
      and rest: "(if 0 < k then ebind (call_refill cfg k) (\<lambda>a. Inr (Again, l1\<lparr>ls_credit := ls_credit l1 - k\<rparr>, ?A @ a))
              else case select_step cfg pid n S (n \<le> card S) l1 of (out, l, a) \<Rightarrow> Inr (out, l, ?A @ a)) = Inr (out, ls', acts)"
      using st unfolding if_not_P [OF F] ebind_Inr by blast
    show thesis
    proof (cases "0 < k")
      case True
      with k have d: "?d" "\<not> ls_draining l1" "dispatch_count cfg (ls_credit l1) (inflight pid b2) = Inr k"
        by (auto split: if_splits)
      then have q: "\<not> n \<le> card S" "\<not> ls_draining ls" "ls_credit l1 = ?c" using l1 by auto
      from rest True have "out = Again" "ls' = l1\<lparr>ls_credit := ls_credit l1 - k\<rparr>" "acts = ?A @ [Refill k]"
        by (auto simp: call_refill_def split: if_splits)
      then show thesis using d q True l1 by (intro Dispatch [of ?c k]) auto
    next
      case False
      with rest obtain a where "select_step cfg pid n S (n \<le> card S) l1 = (out, ls', a)" "acts = ?A @ a"
        by (cases "select_step cfg pid n S (n \<le> card S) l1") auto
      then show thesis using l1 by (intro Select) auto
    qed
  qed
qed

lemma select_step_Done:
  assumes "select_step cfg pid n S enough ls = (Done sel snap, ls', a)"
  shows "enough" "dapo_enabled cfg pid \<longrightarrow> inflight pid (ls_buffer ls) = 0"
    "sel = select_prompt_uids cfg pid S n (ls_buffer ls)" "snap = rb_partitions (ls_buffer ls) pid"
  using assms by (auto simp: select_step_def Let_def case_prod_unfold split: if_splits)

lemma select_step_state:
  assumes "select_step cfg pid n S enough ls = (out, ls', a)"
  shows "ls_credit ls' = ls_credit ls" "ls_draining ls' = ls_draining ls" "\<forall>k. Refill k \<notin> set a"
  using assms by (auto simp: select_step_def clear_groups_def Let_def case_prod_unfold split: if_splits)

lemma clear_groups_partitions:
  "rb_partitions (fst (clear_groups pid E b)) pid = filter (\<lambda>(k, _). uid_of k \<notin> E) (rb_partitions b pid)"
  by (force simp: clear_groups_def upd_def Let_def intro: filter_cong)

lemma sync_reasons_empty: "\<not> dapo_enabled cfg pid \<Longrightarrow> sync_reasons cfg pid fetch b = Inr (r, b') \<Longrightarrow> ev_dapo r = {}"
  by (auto simp: sync_reasons_def dapo_enabled_def dapo_filtered_keys_def split: if_splits)

lemma clear_groups_no_refill: "Refill k \<notin> set (snd (clear_groups pid E b))"
  by (simp add: clear_groups_def Let_def)

text \<open>A small queue: group \<open>a\<close> has different rewards, the older \<open>b\<close> has equal ones.\<close>

definition example_config :: config where
  "example_config = \<lparr>cf_threshold = Some 2, cf_strategy = ''drop'', cf_has_refill = True, cf_metric = Some ''reward'',
     cf_train_batch_size = 2, cf_gen_batch_size = Some 1, cf_max_inflight = 2, cf_sync_refill_failed = False,
     cf_order = sorted_list_of_set\<rparr>"

definition example_tag :: "bool \<Rightarrow> int \<Rightarrow> string \<Rightarrow> tag" where
  "example_tag is_prompt s status =
     \<lparr>tg_is_prompt = is_prompt, tg_global_steps = Some s, tg_status = Some status, tg_fields = []\<rparr>"

definition example_fetch :: "key list \<Rightarrow> fetched list" where
  "example_fetch ks = map (\<lambda>k. Scores [Fin (if k = ''a_0_0'' then 1 else 0)]) ks"

definition example_poll :: poll where
  "example_poll = \<lparr>pl_listing = Some [(''train'',
       [(''a'', example_tag True 5 ''finished''), (''b'', example_tag True 4 ''finished''),
        (''a_0_0'', example_tag False 5 []), (''a_1_0'', example_tag False 5 []),
        (''b_0_0'', example_tag False 4 []), (''b_1_0'', example_tag False 4 [])])],
     pl_fetch = example_fetch\<rparr>"

lemma example_order: "set_order (cf_order example_config)"
  by (simp add: set_order_def example_config_def)

text \<open>
  C32: When a synchronous iteration selects a batch, it holds exactly \<open>batch_size\<close> distinct prompt
  groups that are listed as finished or failed and were not evicted for any reason; no group left
  behind is older than a selected one; the evicted groups were deleted from TransferQueue in this
  iteration and the trajectory snapshot holds none of theirs; and with dynamic filtering nothing that
  survived the eviction is still pending or running.
\<close>

theorem sync_selection:
  assumes step: "sync_step cfg gs pid n p ls = Inr (Done sel snap, ls', acts)"
    and meta: "sync_metadata (pl_listing p) (ls_buffer ls) = Inr b0"
    and reasons: "sync_reasons cfg pid (pl_fetch p) b0 = Inr (r, b1)"
    and order: "set_order (cf_order cfg)"
    and terminal: "T = listed (pl_listing p) pid ''finished'' \<union> listed (pl_listing p) pid ''failure'' - all_evicted r"
  shows "length sel = n \<and> distinct sel \<and> set sel \<subseteq> T \<and>
    (\<forall>s \<in> set sel. \<forall>u \<in> T - set sel. steps_of b0 pid 0 s \<le> steps_of b0 pid 0 u) \<and>
    (all_evicted r \<noteq> {} \<longrightarrow> (\<exists>K. Kv_Clear pid K \<in> set acts \<and> all_evicted r \<subseteq> K)) \<and>
    snap = filter (\<lambda>(k, _). uid_of k \<notin> all_evicted r) (rb_partitions b0 pid) \<and>
    (dapo_enabled cfg pid \<longrightarrow>
      listed (pl_listing p) pid ''pending'' \<union> listed (pl_listing p) pid ''running'' \<subseteq> all_evicted r)"
proof (intro conjI)
  let ?E = "all_evicted r"
  define b2 where "b2 = fst (clear_groups pid ?E b1)"
  define S where "S = sampleable_keys pid r b2"
  obtain c where b1: "b1 = b0\<lparr>rb_cache := c\<rparr>" using sync_reasons_Inr [OF reasons] by blast
  have tr: "tracked b0" by (rule sync_metadata_tracked [OF meta])
  note l = sync_metadata_listed [OF meta]
  have S: "S = T" unfolding S_def sampleable_keys_def b2_def clear_groups_simps terminal b1 l [symmetric] by auto
  have fin: "finite S" using tr unfolding S terminal l [symmetric] by (auto simp: tracked_def)
  obtain ls1 a where sel: "select_step cfg pid n S (n \<le> card S) ls1 = (Done sel snap, ls', a)" "ls_buffer ls1 = b2"
    and acts: "acts = snd (clear_groups pid ?E b1) @ a"
    by (rule sync_step_cases [OF step meta reasons b2_def S_def]) auto
  note d = select_step_Done [OF sel(1), unfolded sel(2)]
  note sp = sampled_prompts [OF order fin d(1), where b = b2 and pid = pid, folded d(3)]
  show "length sel = n" "distinct sel" "set sel \<subseteq> T" using sp S by simp_all
  have "steps_of b2 pid 0 u = steps_of b0 pid 0 u" if "u \<in> T" for u
    using that clear_groups_simps(5) [of u ?E pid b1] by (simp add: steps_of_def b2_def b1 terminal)
  then show "\<forall>s \<in> set sel. \<forall>u \<in> T - set sel. steps_of b0 pid 0 s \<le> steps_of b0 pid 0 u"
    using sp(2,4) unfolding S by (metis DiffD1 subsetD)
  show "?E \<noteq> {} \<longrightarrow> (\<exists>K. Kv_Clear pid K \<in> set acts \<and> ?E \<subseteq> K)"
    using clear_groups_simps(6) [of ?E pid b1] unfolding acts by fastforce
  show "snap = filter (\<lambda>(k, _). uid_of k \<notin> ?E) (rb_partitions b0 pid)"
    using d(4) clear_groups_partitions [of pid ?E b1] by (simp add: b2_def b1)
  show "dapo_enabled cfg pid \<longrightarrow> listed (pl_listing p) pid ''pending'' \<union> listed (pl_listing p) pid ''running'' \<subseteq> ?E"
  proof
    assume "dapo_enabled cfg pid"
    then have "inflight pid b2 = 0" using d(2) by simp
    then show "listed (pl_listing p) pid ''pending'' \<union> listed (pl_listing p) pid ''running'' \<subseteq> ?E"
      using tr unfolding inflight_def b2_def clear_groups_simps l [symmetric] by (auto simp: b1 tracked_def)
  qed
qed

lemma sync_selection_witness:
  "\<exists>sel snap ls' acts. sync_step example_config 5 ''train'' 1 example_poll (start_loop empty_buffer) = Inr (Done sel snap, ls', acts) \<and>
     length sel = 1 \<and> distinct sel"
proof -
  have "case sync_metadata (pl_listing example_poll) (ls_buffer (start_loop empty_buffer)) of Inl e \<Rightarrow> False | Inr b0 \<Rightarrow>
     (case sync_reasons example_config ''train'' (pl_fetch example_poll) b0 of Inl e \<Rightarrow> False | Inr (r, b1) \<Rightarrow>
     (case sync_step example_config 5 ''train'' 1 example_poll (start_loop empty_buffer) of
        Inr (Done sel snap, ls', acts) \<Rightarrow> sel = [''a''] | _ \<Rightarrow> False))" by code_simp
  then obtain b0 r b1 sel snap ls' acts where
    m: "sync_metadata (pl_listing example_poll) (ls_buffer (start_loop empty_buffer)) = Inr b0"
    and r: "sync_reasons example_config ''train'' (pl_fetch example_poll) b0 = Inr (r, b1)"
    and s: "sync_step example_config 5 ''train'' 1 example_poll (start_loop empty_buffer) = Inr (Done sel snap, ls', acts)"
    by (auto split: sum.splits prod.splits outcome.splits)
  show ?thesis using s sync_selection [OF s m r example_order refl] by blast
qed

text \<open>
  C33: With dynamic filtering, a synchronous iteration that asks for \<open>k\<close> more prompts never exceeds
  the in-flight bound \<open>max_inflight_gen_batches * train_batch_size\<close>, counting the prompts that are
  pending or running; \<open>k\<close> is a positive multiple of \<open>gen_batch_size\<close> and paid from the
  refill credit; and it asks only while the sample is not complete and no drain has started.
\<close>

theorem dispatch_within_bounds:
  assumes step: "sync_step cfg gs pid n p ls = Inr (out, ls', acts)" and dapo: "dapo_enabled cfg pid"
    and refill: "Refill k \<in> set acts"
  shows "int (inflight pid (ls_buffer ls') + k) \<le> cf_max_inflight cfg * int (cf_train_batch_size cfg) \<and>
    0 < k \<and> (\<exists>g. cf_gen_batch_size cfg = Some g \<and> g dvd k) \<and>
    out = Again \<and> \<not> ls_draining ls \<and> \<not> ls_draining ls'"
proof (intro conjI)
  obtain b0 r b1 where meta: "sync_metadata (pl_listing p) (ls_buffer ls) = Inr b0"
    and reasons: "sync_reasons cfg pid (pl_fetch p) b0 = Inr (r, b1)"
    using step unfolding sync_step_def ebind_Inr by (metis prod.collapse)
  have "\<exists>c. out = Again \<and> \<not> ls_draining ls \<and> \<not> ls_draining ls' \<and> 0 < k \<and>
      dispatch_count cfg c (inflight pid (ls_buffer ls')) = Inr k"
    using refill dapo clear_groups_no_refill select_step_state(3)
    by (cases rule: sync_step_cases [OF step meta reasons refl refl]) fastforce+
  then obtain c where "out = Again" "\<not> ls_draining ls" "\<not> ls_draining ls'" "0 < k"
    and d: "dispatch_count cfg c (inflight pid (ls_buffer ls')) = Inr k" by blast
  then show "out = Again" "\<not> ls_draining ls" "\<not> ls_draining ls'" "0 < k" by simp_all
  let ?m = "cf_max_inflight cfg * int (cf_train_batch_size cfg)"
  let ?slots = "nat (max 0 (?m - int (inflight pid (ls_buffer ls'))))"
  obtain g where g: "cf_gen_batch_size cfg = Some g" "g \<noteq> 0" "k = min c ?slots - min c ?slots mod g"
    using d by (auto simp: dispatch_count_def Let_def raise_if_Inr split: option.splits)
  have "g dvd k" using g(3) dvd_minus_mod by simp
  then show "\<exists>g. cf_gen_batch_size cfg = Some g \<and> g dvd k" using g(1) by blast
  have "k \<le> ?slots" using g(3) by linarith
  then show "int (inflight pid (ls_buffer ls') + k) \<le> ?m" using \<open>0 < k\<close> by linarith
qed

lemma dispatch_within_bounds_witness:
  "\<exists>ls' acts. sync_step example_config 5 ''train'' 3 example_poll (start_loop empty_buffer) = Inr (Again, ls', acts) \<and>
     Refill 2 \<in> set acts \<and> int (inflight ''train'' (ls_buffer ls') + 2) \<le> 4"
proof -
  have "case sync_step example_config 5 ''train'' 3 example_poll (start_loop empty_buffer) of
        Inr (Again, ls', acts) \<Rightarrow> refills acts = [2] | _ \<Rightarrow> False" by code_simp
  then obtain ls' acts where s: "sync_step example_config 5 ''train'' 3 example_poll (start_loop empty_buffer) = Inr (Again, ls', acts)"
    and a: "refills acts = [2]" by (auto split: sum.splits prod.splits outcome.splits)
  have r: "Refill 2 \<in> set acts" using set_refills [of acts] a by auto
  have "dapo_enabled example_config ''train''" by code_simp
  from dispatch_within_bounds [OF s this r] s r show ?thesis by (simp add: example_config_def)
qed

section \<open>The polling loop as a transition system\<close>

text \<open>
  \<open>polling cfg gs pid n b ls acts earned\<close>: iterations that did not select anything lead from
  the start of \<open>sample\<close> on buffer \<open>b\<close> to \<open>ls\<close>; they emitted \<open>acts\<close>, and the evictions
  on the way earned \<open>earned\<close> replacement prompts, two per filtered group and one per failed one.
\<close>

inductive polling :: "config \<Rightarrow> int \<Rightarrow> string \<Rightarrow> nat \<Rightarrow> buffer \<Rightarrow> loop_state \<Rightarrow> action list \<Rightarrow> nat \<Rightarrow> bool"
  for cfg gs pid n b where
  start: "polling cfg gs pid n b (start_loop b) [] 0"
| iterate: "polling cfg gs pid n b ls acts earned \<Longrightarrow>
    sync_step cfg gs pid n p ls = Inr (Again, ls', a) \<Longrightarrow>
    sync_metadata (pl_listing p) (ls_buffer ls) = Inr b0 \<Longrightarrow>
    sync_reasons cfg pid (pl_fetch p) b0 = Inr (r, b1) \<Longrightarrow>
    polling cfg gs pid n b ls' (acts @ a) (earned + 2 * card (ev_dapo r) + card (ev_failed r))"

inductive_cases pollingE: "polling cfg gs pid n b ls acts earned"

lemma refills_clear_groups [simp]: "refills (snd (clear_groups pid E b)) = []"
  by (simp add: clear_groups_def Let_def)

lemma refills_select_step:
  "select_step cfg pid n S enough ls = (out, ls', a) \<Longrightarrow> refills a = []"
  using select_step_state(3) [of cfg pid n S enough ls out ls' a] set_refills [of a] by (cases "refills a") auto

lemma dispatch_count_le: "dispatch_count cfg c i = Inr k \<Longrightarrow> k \<le> c"
  by (auto simp: dispatch_count_def Let_def raise_if_Inr split: option.splits
      intro: order.trans [OF diff_le_self min.cobounded1])

lemma sync_step_account:
  assumes "sync_step cfg gs pid n p ls = Inr (out, ls', a)"
    and "sync_metadata (pl_listing p) (ls_buffer ls) = Inr b0"
    and "sync_reasons cfg pid (pl_fetch p) b0 = Inr (r, b1)"
  shows "sum_list (refills a) + ls_credit ls' \<le> ls_credit ls + 2 * card (ev_dapo r) + card (ev_failed r)"
    and "ls_draining ls \<longrightarrow> ls_draining ls' \<and> (dapo_enabled cfg pid \<longrightarrow> refills a = [])"
    and "ls_draining ls' \<longrightarrow> dapo_enabled cfg pid \<and> ls_credit ls' = 0 \<or> ls_draining ls"
    and "dapo_enabled cfg pid \<or> (\<forall>k \<in> set (refills a). k = card (ev_failed r)) \<and> ls_credit ls' = ls_credit ls"
    and "ls_draining ls \<longrightarrow> ls_credit ls' \<le> ls_credit ls"
  using assms
  by (cases rule: sync_step_cases [OF assms refl refl];
      auto simp: refills_select_step dest: dispatch_count_le select_step_state split: if_splits; fail)+

lemma polling_draining: "polling cfg gs pid n b ls acts earned \<Longrightarrow> ls_draining ls \<Longrightarrow> ls_credit ls = 0 \<and> dapo_enabled cfg pid"
proof (induction rule: polling.induct)
  case (iterate ls acts earned p ls' a b0 r b1)
  then show ?case using sync_step_account [OF iterate(2,3,4)] by auto
qed (simp add: start_loop_def)

text \<open>
  Over a whole synchronous \<open>sample\<close> call, the prompts requested from \<open>refill_fn\<close> plus the
  credit still held never exceed two per dynamically filtered group and one per replaced failed
  group; and once the drain has begun no further prompt is requested in any later iteration, the
  credit staying at zero.
\<close>

theorem refill_accounting:
  assumes "polling cfg gs pid n b ls acts earned"
  shows "sum_list (refills acts) + ls_credit ls \<le> earned \<and>
    (\<forall>p out ls' a. ls_draining ls \<and> sync_step cfg gs pid n p ls = Inr (out, ls', a) \<longrightarrow>
      refills a = [] \<and> ls_draining ls' \<and> ls_credit ls' = 0)"
proof
  show "sum_list (refills acts) + ls_credit ls \<le> earned"
    using assms
  proof (induction rule: polling.induct)
    case (iterate ls acts earned p ls' a b0 r b1)
    then show ?case using sync_step_account(1) [OF iterate(2,3,4)] by simp
  qed (simp add: start_loop_def)
  show "\<forall>p out ls' a. ls_draining ls \<and> sync_step cfg gs pid n p ls = Inr (out, ls', a) \<longrightarrow>
      refills a = [] \<and> ls_draining ls' \<and> ls_credit ls' = 0"
  proof (intro allI impI)
    fix p out ls' a assume s: "ls_draining ls \<and> sync_step cfg gs pid n p ls = Inr (out, ls', a)"
    then obtain b0 r b1 where meta: "sync_metadata (pl_listing p) (ls_buffer ls) = Inr b0"
      and reasons: "sync_reasons cfg pid (pl_fetch p) b0 = Inr (r, b1)"
      unfolding sync_step_def ebind_Inr by (metis prod.collapse)
    note acc = sync_step_account [OF conjunct2 [OF s] meta reasons]
    show "refills a = [] \<and> ls_draining ls' \<and> ls_credit ls' = 0"
      using acc(2,5) s polling_draining [OF assms] by simp
  qed
qed

lemma refill_accounting_witness:
  "\<exists>ls' acts earned. polling example_config 5 ''train'' 3 empty_buffer ls' acts earned \<and> refills acts = [2] \<and>
     sum_list (refills acts) + ls_credit ls' \<le> earned"
proof -
  have "case sync_metadata (pl_listing example_poll) (ls_buffer (start_loop empty_buffer)) of Inl e \<Rightarrow> False | Inr b0 \<Rightarrow>
     (case sync_reasons example_config ''train'' (pl_fetch example_poll) b0 of Inl e \<Rightarrow> False | Inr (r, b1) \<Rightarrow>
     (case sync_step example_config 5 ''train'' 3 example_poll (start_loop empty_buffer) of
        Inr (Again, ls', acts) \<Rightarrow> refills acts = [2] | _ \<Rightarrow> False))" by code_simp
  then obtain b0 r b1 ls' acts where
    m: "sync_metadata (pl_listing example_poll) (ls_buffer (start_loop empty_buffer)) = Inr b0"
    and r: "sync_reasons example_config ''train'' (pl_fetch example_poll) b0 = Inr (r, b1)"
    and s: "sync_step example_config 5 ''train'' 3 example_poll (start_loop empty_buffer) = Inr (Again, ls', acts)"
    and a: "refills acts = [2]"
    by (auto split: sum.splits prod.splits outcome.splits)
  note it = polling.iterate [OF polling.start s m r]
  show ?thesis using refill_accounting [OF it] it a by (intro exI conjI) (assumption | simp)+
qed

section \<open>Asynchronous sampling\<close>

text \<open>Computations that never fail an \<open>assert\<close>.\<close>

definition no_assert :: "'a res \<Rightarrow> bool" where
  "no_assert m \<longleftrightarrow> (\<forall>msg. m \<noteq> Inl (AssertionError msg))"

lemma no_assert_ebind: "no_assert m \<Longrightarrow> (\<And>x. m = Inr x \<Longrightarrow> no_assert (f x)) \<Longrightarrow> no_assert (ebind m f)"
  by (cases m) (auto simp: no_assert_def)

lemma no_assert_efold: "(\<And>x s. no_assert (f x s)) \<Longrightarrow> no_assert (efold f xs s)"
  by (induction xs arbitrary: s) (auto intro: no_assert_ebind, simp add: no_assert_def)

lemma no_assert_raise_if: "(\<forall>msg. e \<noteq> AssertionError msg) \<Longrightarrow> no_assert m \<Longrightarrow> no_assert (raise_if c e m)"
  by (auto simp: no_assert_def raise_if_def)

lemma no_assert_Inr [simp]: "no_assert (Inr x)"
  by (simp add: no_assert_def)

lemma no_assert_sync_item: "no_assert (sync_item pid kt b)"
  by (cases kt) (auto simp: no_assert_def Let_def split: option.splits)

lemma no_assert_sync_metadata: "no_assert (sync_metadata l b)"
  by (auto simp: sync_metadata_def Let_def case_prod_unfold split: option.splits intro!: no_assert_efold no_assert_sync_item)

lemma no_assert_dapo: "no_assert (dapo_filtered_keys cfg pid fetch b)"
  by (auto simp: dapo_filtered_keys_def Let_def case_prod_unfold split: option.splits intro!: no_assert_raise_if)

lemma no_assert_async_reasons: "no_assert (async_reasons cfg gs pid fetch b)"
  by (auto simp: async_reasons_def Let_def intro!: no_assert_ebind no_assert_dapo split: prod.splits)

lemma no_assert_any_blocking: "no_assert (any_blocking gs t steps us)"
  by (induction us) (auto simp: no_assert_def split: option.splits)

lemma no_assert_has_enough: "no_assert (has_enough_samples cfg gs pid n S b)"
  by (auto simp: has_enough_samples_def split: option.splits intro!: no_assert_ebind no_assert_any_blocking)

lemma no_assert_wait: "no_assert (wait_for_sampleable cfg gs pid n polls st)"
  by (induction polls arbitrary: st)
    (auto simp: async_step_def case_prod_unfold Let_def split: option.splits
      intro!: no_assert_ebind no_assert_sync_metadata no_assert_async_reasons no_assert_has_enough)

lemma stale_keys_cache [simp]: "stale_keys cfg gs pid (b\<lparr>rb_cache := c\<rparr>) = stale_keys cfg gs pid b"
  by (simp add: stale_keys_def span_def steps_of_def split: option.splits)

lemma async_reasons_Inr:
  assumes "async_reasons cfg gs pid fetch b = Inr (r, b')"
  shows "\<exists>c. b' = b\<lparr>rb_cache := c\<rparr>"
    "pid \<noteq> ''val'' \<Longrightarrow> ev_stale r = stale_keys cfg gs pid b \<and> ev_failed r = rb_failure b pid"
proof -
  have "(\<exists>c. b' = b\<lparr>rb_cache := c\<rparr>) \<and>
      (pid \<noteq> ''val'' \<longrightarrow> ev_stale r = stale_keys cfg gs pid b \<and> ev_failed r = rb_failure b pid)"
  proof (cases "pid = ''val''")
    case True
    then show ?thesis using assms by (auto simp: async_reasons_def intro: exI [of _ "rb_cache b"])
  next
    case False
    then obtain D b1 where d: "dapo_filtered_keys cfg pid fetch b = Inr (D, b1)"
      and r: "r = \<lparr>ev_stale = stale_keys cfg gs pid b, ev_dapo = D, ev_failed = rb_failure b1 pid\<rparr>" "b' = b1"
      using assms by (auto simp: async_reasons_def ebind_Inr Let_def)
    show ?thesis using dapo_filtered_Inr [OF d] r by auto
  qed
  then show "\<exists>c. b' = b\<lparr>rb_cache := c\<rparr>"
    "pid \<noteq> ''val'' \<Longrightarrow> ev_stale r = stale_keys cfg gs pid b \<and> ev_failed r = rb_failure b pid" by blast+
qed

text \<open>What one poll has established when the waiting loop returns.\<close>

lemma wait_for_sampleable_ready:
  assumes "wait_for_sampleable cfg gs pid n polls st = Inr (Some S, (b', m'), acts)"
  obtains p b b0 r where "p \<in> set polls" "sync_metadata (pl_listing p) b = Inr b0"
    "async_reasons cfg gs pid (pl_fetch p) b0 = Inr (r, b')" "all_evicted r = {}"
    "S = rb_finished b' pid \<union> rb_failure b' pid" "has_enough_samples cfg gs pid n S b' = Inr True"
proof -
  have "\<exists>p \<in> set polls. \<exists>b b0 r. sync_metadata (pl_listing p) b = Inr b0 \<and>
    async_reasons cfg gs pid (pl_fetch p) b0 = Inr (r, b') \<and> all_evicted r = {} \<and>
    S = rb_finished b' pid \<union> rb_failure b' pid \<and> has_enough_samples cfg gs pid n S b' = Inr True"
    using assms
  proof (induction polls arbitrary: st acts)
    case (Cons p ps)
    then obtain o1 st1 a1 where s1: "async_step cfg gs pid n p st = Inr (o1, st1, a1)"
      and k: "(case o1 of Some s \<Rightarrow> Inr (Some s, st1, a1)
        | None \<Rightarrow> ebind (wait_for_sampleable cfg gs pid n ps st1) (\<lambda>(r, st, acts'). Inr (r, st, a1 @ acts')))
        = Inr (Some S, (b', m'), acts)"
      unfolding wait_for_sampleable.simps ebind_Inr by (metis (no_types, lifting) prod.collapse case_prod_conv)
    show ?case
    proof (cases o1)
      case None
      then obtain a2 where "wait_for_sampleable cfg gs pid n ps st1 = Inr (Some S, (b', m'), a2)"
        using k by (auto simp: ebind_Inr)
      from Cons.IH [OF this] show ?thesis by auto
    next
      case (Some S1)
      then have o: "S1 = S" "st1 = (b', m')" using k by auto
      obtain b0 r b1 where m: "sync_metadata (pl_listing p) (fst st) = Inr b0"
        and r: "async_reasons cfg gs pid (pl_fetch p) b0 = Inr (r, b1)"
        using s1 unfolding async_step_def ebind_Inr by (metis prod.collapse)
      have e: "all_evicted r = {}"
        using s1 Some by (auto simp: async_step_def m r case_prod_unfold Let_def split: if_splits)
      have "b1 = b' \<and> S = rb_finished b1 pid \<union> rb_failure b1 pid \<and> has_enough_samples cfg gs pid n S b1 = Inr True"
        using s1 Some o e by (auto simp: async_step_def m r evict_def sampleable_keys_def ebind_Inr Let_def split: if_splits)
      then show ?thesis using m r e by auto
    qed
  qed simp
  then show thesis using that by blast
qed

lemma sample_async_Inr:
  assumes "sample_async cfg gs pid n polls b = Inr (Some (batch, m), b', acts)"
  shows "\<exists>S a1 a2. wait_for_sampleable cfg gs pid n polls (b, []) = Inr (Some S, (b', m), a1) \<and>
    take_async cfg gs pid n S b' = Inr (batch, a2)"
proof -
  obtain x where x: "wait_for_sampleable cfg gs pid n polls (b, []) = Inr x"
    using assms unfolding sample_async_def ebind_Inr by blast
  obtain o1 b1 m1 a1 where "x = (o1, (b1, m1), a1)" by (cases x) auto
  note w = x [unfolded this]
  have k: "(case o1 of None \<Rightarrow> Inr (None, b1, a1) | Some S \<Rightarrow>
      ebind (take_async cfg gs pid n S b1) (\<lambda>(batch, a). Inr (Some (batch, m1), b1, a1 @ a))) = Inr (Some (batch, m), b', acts)"
    using assms by (simp only: sample_async_def w ebind.simps case_prod_conv)
  show ?thesis
  proof (cases o1)
    case (Some S)
    with k obtain x where x: "take_async cfg gs pid n S b1 = Inr x"
      "(case x of (batch, a) \<Rightarrow> Inr (Some (batch, m1), b1, a1 @ a)) = (Inr (Some (batch, m), b', acts) :: _ res)"
      by (simp only: option.case ebind_Inr) blast
    then have "m1 = m" "b1 = b'" "fst x = batch" by (simp_all add: case_prod_unfold)
    then show ?thesis using w x(1) Some by (metis prod.collapse)
  qed (use k in simp)
qed

text \<open>
  C34: With the \<open>drop\<close> strategy the asynchronous buffer never trains on a stale prompt: the final
  assertion over the selected spans cannot fail, and every trajectory of a returned batch belongs
  to a finished group that spans at most \<open>max_off_policy_threshold\<close> model versions.
\<close>

theorem async_drop_is_fresh:
  assumes res: "sample_async cfg gs pid n polls b = res"
    and cfg: "cf_threshold cfg = Some t" "cf_strategy cfg = ''drop''" "pid \<noteq> ''val''"
    and order: "set_order (cf_order cfg)"
  shows "(\<forall>msg. res \<noteq> Inl (AssertionError msg)) \<and>
    (\<forall>batch m b' acts k tg. res = Inr (Some (batch, m), b', acts) \<and> (k, tg) \<in> set batch \<longrightarrow>
      uid_of k \<in> rb_finished b' pid \<and> span b' pid gs (uid_of k) \<le> int t)"
proof (intro conjI allI impI)
  have fresh: "\<forall>u \<in> set (select_prompt_uids cfg pid S n b1). u \<in> rb_finished b1 pid \<and> span b1 pid gs u \<le> int t"
    if w: "wait_for_sampleable cfg gs pid n polls (b, []) = Inr (Some S, (b1, m1), a1)" for S b1 m1 a1
    using w
  proof (rule wait_for_sampleable_ready)
    fix p b00 b0 r assume m: "sync_metadata (pl_listing p) b00 = Inr b0"
      and r: "async_reasons cfg gs pid (pl_fetch p) b0 = Inr (r, b1)" and e: "all_evicted r = {}"
      and S: "S = rb_finished b1 pid \<union> rb_failure b1 pid"
    obtain c where c: "b1 = b0\<lparr>rb_cache := c\<rparr>" using async_reasons_Inr(1) [OF r] by blast
    have f: "rb_failure b1 pid = {}" "stale_keys cfg gs pid b1 = {}"
      using async_reasons_Inr(2) [OF r cfg(3)] e unfolding c
      by (auto simp: all_evicted_def)
    have fin: "finite S" using sync_metadata_tracked [OF m] unfolding S c by (simp add: tracked_def)
    have "set (select_prompt_uids cfg pid S n b1) \<subseteq> set (sort_key (steps_of b1 pid 0) (cf_order cfg S))"
      unfolding select_prompt_uids_def by (rule set_take_subset)
    then have "set (select_prompt_uids cfg pid S n b1) \<subseteq> S"
      using order fin by (auto simp: set_order_def)
    then show ?thesis using f cfg by (auto simp: S stale_keys_def)
  qed
  show "res \<noteq> Inl (AssertionError msg)" for msg
  proof
    assume bad: "res = Inl (AssertionError msg)"
    have t: "no_assert (take_async cfg gs pid n S b1)"
      if "wait_for_sampleable cfg gs pid n polls (b, []) = Inr (Some S, (b1, m1), a1)" for S b1 m1 a1
      using fresh [OF that] by (force simp: take_async_def cfg Let_def raise_if_def)
    have "no_assert res" unfolding res [symmetric] sample_async_def
      by (rule no_assert_ebind [OF no_assert_wait])
        (auto intro!: no_assert_ebind t split: prod.splits option.splits)
    then show False using bad by (simp add: no_assert_def)
  qed
  fix batch m b' acts k tg
  assume r: "res = Inr (Some (batch, m), b', acts) \<and> (k, tg) \<in> set batch"
  then obtain S a1 a2 where w: "wait_for_sampleable cfg gs pid n polls (b, []) = Inr (Some S, (b', m), a1)"
    and k: "take_async cfg gs pid n S b' = Inr (batch, a2)"
    using sample_async_Inr res by blast
  have k: "uid_of k \<in> set (select_prompt_uids cfg pid S n b')"
    using k r by (auto simp: take_async_def Let_def raise_if_Inr materialize_def)
  show "uid_of k \<in> rb_finished b' pid" "span b' pid gs (uid_of k) \<le> int t" using fresh [OF w] k by blast+
qed

lemma async_drop_is_fresh_witness:
  "\<exists>batch m b' acts. sample_async (example_config\<lparr>cf_metric := None\<rparr>) 5 ''train'' 1 [example_poll] empty_buffer
       = Inr (Some (batch, m), b', acts) \<and> batch \<noteq> [] \<and>
     (\<forall>(k, tg) \<in> set batch. uid_of k \<in> rb_finished b' ''train'' \<and> span b' ''train'' 5 (uid_of k) \<le> 2)"
proof -
  let ?cfg = "example_config\<lparr>cf_metric := None\<rparr>"
  have "case sample_async ?cfg 5 ''train'' 1 [example_poll] empty_buffer of
      Inr (Some (batch, m), b', acts) \<Rightarrow> batch \<noteq> [] | _ \<Rightarrow> False" by code_simp
  then obtain batch m b' acts where s: "sample_async ?cfg 5 ''train'' 1 [example_poll] empty_buffer = Inr (Some (batch, m), b', acts)"
    and ne: "batch \<noteq> []"
    by (auto split: sum.splits prod.splits option.splits)
  have c: "cf_threshold ?cfg = Some 2" "cf_strategy ?cfg = ''drop''" "''train'' \<noteq> ''val''" "set_order (cf_order ?cfg)"
    using example_order by (simp_all add: example_config_def)
  have "\<forall>(k, tg) \<in> set batch. uid_of k \<in> rb_finished b' ''train'' \<and> span b' ''train'' 5 (uid_of k) \<le> int 2"
    using async_drop_is_fresh [OF s c] by blast
  then show ?thesis using s ne by auto
qed

lemma any_blocking_False:
  "any_blocking gs t steps us = Inr False \<Longrightarrow> u \<in> set us \<Longrightarrow> \<exists>s. steps u = Some s \<and> gs - s + 1 < t"
  by (induction us) (auto split: option.splits if_splits)

text \<open>
  With the dropless \<open>wait\<close> strategy the asynchronous buffer hands out groups only at a poll
  where no pending or running prompt has reached \<open>max_off_policy_threshold\<close> model versions and at
  least the requested number of groups is terminal; in training all of them are finished groups of
  that poll's listing, failed ones having been evicted.
\<close>

theorem wait_strategy_blocks:
  assumes ready: "wait_for_sampleable cfg gs pid n polls st = Inr (Some S, (b', m'), acts)"
    and cfg: "cf_threshold cfg = Some t" "cf_strategy cfg = ''wait''"
    and order: "set_order (cf_order cfg)"
  shows "n \<le> card S \<and> (\<exists>p \<in> set polls.
      S \<subseteq> listed (pl_listing p) pid ''finished'' \<union> (if pid = ''val'' then listed (pl_listing p) pid ''failure'' else {}) \<and>
      (\<forall>u \<in> listed (pl_listing p) pid ''pending'' \<union> listed (pl_listing p) pid ''running''. span b' pid gs u < int t))"
  using ready
proof (rule wait_for_sampleable_ready)
  fix p b b0 r assume p: "p \<in> set polls" and m: "sync_metadata (pl_listing p) b = Inr b0"
    and r: "async_reasons cfg gs pid (pl_fetch p) b0 = Inr (r, b')" and e: "all_evicted r = {}"
    and S: "S = rb_finished b' pid \<union> rb_failure b' pid" and enough: "has_enough_samples cfg gs pid n S b' = Inr True"
  obtain c where c: "b' = b0\<lparr>rb_cache := c\<rparr>" using async_reasons_Inr(1) [OF r] by blast
  note l = sync_metadata_listed [OF m, of pid]
  let ?I = "rb_pending b' pid \<union> rb_running b' pid"
  have "finite ?I" using sync_metadata_tracked [OF m] by (simp add: c tracked_def)
  then have o: "set (cf_order cfg ?I) = ?I" using order by (simp add: set_order_def)
  have en: "any_blocking gs (int t) (rb_steps b' pid) (cf_order cfg ?I) = Inr False" "n \<le> card S"
    using enough by (auto simp: has_enough_samples_def cfg ebind_Inr)
  have "\<forall>u \<in> ?I. span b' pid gs u < int t"
    using any_blocking_False [OF en(1)] unfolding o by (force simp: span_def steps_of_def)
  moreover have "pid \<noteq> ''val'' \<Longrightarrow> rb_failure b' pid = {}"
    using async_reasons_Inr(2) [OF r] e by (simp add: c all_evicted_def)
  ultimately show ?thesis using p en(2) unfolding S by (auto simp: c l intro!: bexI [of _ p])
qed

lemma wait_strategy_blocks_witness:
  "\<exists>S b' m' acts. wait_for_sampleable (example_config\<lparr>cf_strategy := ''wait'', cf_metric := None\<rparr>) 5 ''train'' 2
       [example_poll] (empty_buffer, []) = Inr (Some S, (b', m'), acts) \<and> 2 \<le> card S"
proof -
  let ?cfg = "example_config\<lparr>cf_strategy := ''wait'', cf_metric := None\<rparr>"
  have "case wait_for_sampleable ?cfg 5 ''train'' 2 [example_poll] (empty_buffer, []) of
      Inr (Some S, (b', m'), acts) \<Rightarrow> True | _ \<Rightarrow> False" by code_simp
  then obtain S b' m' acts where s: "wait_for_sampleable ?cfg 5 ''train'' 2 [example_poll] (empty_buffer, []) = Inr (Some S, (b', m'), acts)"
    by (auto split: sum.splits prod.splits option.splits)
  have c: "cf_threshold ?cfg = Some 2" "cf_strategy ?cfg = ''wait''" "set_order (cf_order ?cfg)"
    using example_order by (simp_all add: example_config_def)
  show ?thesis using s wait_strategy_blocks [OF s c] by blast
qed

section \<open>Eviction metrics\<close>

text \<open>Merging entries with distinct keys changes each key by its own entry only.\<close>

lemma accumulate_one_other: "fst kv \<noteq> k \<Longrightarrow> map_of (accumulate_one prev cnt kv acc) k = map_of acc k"
  by (cases kv) (simp add: accumulate_one_def Let_def)

lemma fold_accumulate_other:
  "k \<notin> fst ` set new \<Longrightarrow> map_of (fold (accumulate_one prev cnt) new acc) k = map_of acc k"
  by (induction new arbitrary: acc) (auto simp: accumulate_one_other)

lemma accumulate_one_cong:
  "map_of acc k = map_of acc' k \<Longrightarrow> map_of (accumulate_one prev cnt (k, v) acc) k = map_of (accumulate_one prev cnt (k, v) acc') k"
  by (simp add: accumulate_one_def dict_get_or_def Let_def)

lemma fold_accumulate_entry:
  "distinct (map fst new) \<Longrightarrow> (k, v) \<in> set new \<Longrightarrow>
   map_of (fold (accumulate_one prev cnt) new acc) k = map_of (accumulate_one prev cnt (k, v) acc) k"
proof (induction new arbitrary: acc)
  case (Cons kv new)
  show ?case
  proof (cases "kv = (k, v)")
    case True
    with Cons.prems have "k \<notin> fst ` set new" by auto
    then show ?thesis using True by (simp add: fold_accumulate_other)
  next
    case False
    with Cons.prems have "fst kv \<noteq> k" "(k, v) \<in> set new" by (auto simp: image_iff)
    then show ?thesis using Cons
      by (auto intro: accumulate_one_cong simp: accumulate_one_other)
  qed
qed simp

lemma str_ends_with_append [simp]: "str_ends_with (p @ s) s"
  by (simp add: str_ends_with_def)

lemma str_ends_with_last: "str_ends_with s suffix \<Longrightarrow> suffix \<noteq> [] \<Longrightarrow> last s = last suffix"
  by (metis append_take_drop_id last_appendR str_ends_with_def)

lemma accumulate_count:
  "dict_get_or 0 (p @ ''/off_policy/evicted_samples'') (accumulate_one prev cnt (p @ ''/off_policy/evicted_samples'', v) acc)
     = dict_get_or 0 (p @ ''/off_policy/evicted_samples'') acc + v"
proof -
  have "\<not> str_ends_with (p @ ''/off_policy/evicted_samples'') x" if "x \<noteq> []" "last x \<noteq> CHR ''s''" for x
    using str_ends_with_last [of "p @ ''/off_policy/evicted_samples''" x] that by auto
  then show ?thesis by (simp add: accumulate_one_def)
qed

lemma accumulate_mean:
  "dict_get_or 0 (p @ ''/off_policy/evicted_samples_staleness/mean'')
     (accumulate_one prev cnt (p @ ''/off_policy/evicted_samples_staleness/mean'', v) acc) =
   (let m = dict_get_or 0 (p @ ''/off_policy/evicted_samples_staleness/mean'') acc
    in if prev + cnt \<noteq> 0 then (m * prev + v * cnt) / (prev + cnt) else v)"
proof -
  have "str_ends_with ((p @ ''/off_policy'') @ ''/evicted_samples_staleness/mean'') ''/evicted_samples_staleness/mean''"
    by (rule str_ends_with_append)
  then show ?thesis by (simp add: accumulate_one_def Let_def)
qed

lemma dict_get_or_cong: "map_of d k = map_of d' k \<Longrightarrow> dict_get_or z k d = dict_get_or z k d'"
  by (simp add: dict_get_or_def)

text \<open>
  The evicted-staleness mean reported by \<open>sample\<close> stays the mean over all prompts evicted so
  far in that call: each eviction adds its prompts to the count, and mean times count grows by
  exactly the spans of the newly evicted prompts, although the count entry of the dictionary is
  updated before the mean entry that is weighted with the old count.
\<close>

theorem staleness_mean_is_exact:
  assumes ev: "evict cfg gs pid r b acc = (b', acc', acts)" and fin: "finite (ev_stale r)"
    and order: "set_order (cf_order cfg)"
    and cnt: "cnt = metrics_prefix pid @ ''/off_policy/evicted_samples''"
    and mean: "mean = metrics_prefix pid @ ''/off_policy/evicted_samples_staleness/mean''"
    and pos: "0 \<le> dict_get_or 0 cnt acc"
  shows "dict_get_or 0 cnt acc' = dict_get_or 0 cnt acc + real (card (ev_stale r)) \<and>
    dict_get_or 0 mean acc' * dict_get_or 0 cnt acc' =
      dict_get_or 0 mean acc * dict_get_or 0 cnt acc + (\<Sum>u \<in> ev_stale r. real_of_int (span b pid gs u))"
proof -
  let ?new = "eviction_metrics cfg gs pid r b" and ?us = "cf_order cfg (ev_stale r)"
  have us: "set ?us = ev_stale r" "distinct ?us" using order fin by (auto simp: set_order_def)
  have new: "distinct (map fst ?new)" by (simp add: eviction_metrics_def Let_def)
  show ?thesis
  proof (cases "ev_stale r = {}")
    case True
    then have "cnt \<notin> fst ` set ?new" "mean \<notin> fst ` set ?new"
      by (auto simp: eviction_metrics_def cnt mean Let_def split: if_splits)
    then have "map_of acc' cnt = map_of acc cnt" "map_of acc' mean = map_of acc mean"
      using ev by (auto simp: evict_def accumulate_metrics_def Let_def fold_accumulate_other case_prod_unfold split: if_splits)
    then have "dict_get_or 0 cnt acc' = dict_get_or 0 cnt acc" "dict_get_or 0 mean acc' = dict_get_or 0 mean acc"
      by (auto intro: dict_get_or_cong)
    then show ?thesis using True by simp
  next
    case False
    let ?k = "real (card (ev_stale r))" and ?prev = "dict_get_or 0 cnt acc"
    let ?v = "rmean (map (\<lambda>u. real_of_int (span b pid gs u)) ?us)"
    have k: "0 < ?k" using False fin by (simp add: card_gt_0_iff)
    have "hd (filter (\<lambda>k. str_ends_with k ''/off_policy/evicted_samples'') (map fst ?new)) = cnt"
      "filter (\<lambda>k. str_ends_with k ''/off_policy/evicted_samples'') (map fst ?new) \<noteq> []"
      using False by (simp_all add: eviction_metrics_def cnt Let_def)
    then have acc': "acc' = fold (accumulate_one ?prev ?k) ?new acc"
      using ev False by (auto simp: evict_def all_evicted_def accumulate_metrics_def case_prod_unfold Let_def neq_Nil_conv)
    have in_new: "(cnt, ?k) \<in> set ?new" "(mean, ?v) \<in> set ?new"
      using False by (simp_all add: eviction_metrics_def cnt mean Let_def)
    have c: "dict_get_or 0 cnt acc' = ?prev + ?k"
      using dict_get_or_cong [OF fold_accumulate_entry [OF new in_new(1)]] accumulate_count
      unfolding acc' cnt by metis
    have m: "dict_get_or 0 mean acc' = (dict_get_or 0 mean acc * ?prev + ?v * ?k) / (?prev + ?k)"
      using dict_get_or_cong [OF fold_accumulate_entry [OF new in_new(2), of ?prev ?k acc], of 0]
        accumulate_mean [of "metrics_prefix pid" ?prev ?k ?v acc, folded mean] k pos
      unfolding acc' by (simp add: Let_def)
    have "length ?us = card (ev_stale r)" using us distinct_card by fastforce
    then have "?v * ?k = (\<Sum>u \<in> ev_stale r. real_of_int (span b pid gs u))"
      using k us by (simp add: rmean_def sum_list_distinct_conv_sum_set)
    then show ?thesis using c m k pos by simp
  qed
qed

lemma staleness_mean_is_exact_witness:
  "\<exists>b' acc' acts. evict example_config 7 ''train'' \<lparr>ev_stale = {''a'', ''b''}, ev_dapo = {}, ev_failed = {}\<rparr>
       (empty_buffer\<lparr>rb_steps := (\<lambda>_ u. if u = ''a'' then Some 5 else Some 4)\<rparr>)
       [(''training/off_policy/evicted_samples'', 1), (''training/off_policy/evicted_samples_staleness/mean'', 8)]
     = (b', acc', acts) \<and>
     dict_get_or 0 ''training/off_policy/evicted_samples_staleness/mean'' acc' *
       dict_get_or 0 ''training/off_policy/evicted_samples'' acc' = 15"
proof -
  let ?r = "\<lparr>ev_stale = {''a'', ''b''}, ev_dapo = {}, ev_failed = {}\<rparr>"
  let ?b = "empty_buffer\<lparr>rb_steps := (\<lambda>_ u. if u = ''a'' then Some 5 else Some 4)\<rparr>"
  let ?acc = "[(''training/off_policy/evicted_samples'', 1), (''training/off_policy/evicted_samples_staleness/mean'', 8 :: real)]"
  obtain b' acc' acts where e: "evict example_config 7 ''train'' ?r ?b ?acc = (b', acc', acts)" by (metis prod.collapse)
  have p: "metrics_prefix ''train'' = ''training''" by (simp add: metrics_prefix_def)
  have "0 \<le> dict_get_or 0 (metrics_prefix ''train'' @ ''/off_policy/evicted_samples'') ?acc"
    by (simp add: p dict_get_or_def)
  from conjunct2 [OF staleness_mean_is_exact [OF e _ example_order refl refl this]] e show ?thesis
    by (simp add: p dict_get_or_def span_def steps_of_def)
qed

end
