(* ===== verification/Text.thy ===== *)
theory Text
  imports Prelude
begin

text \<open>
  Python strings. A \<open>str\<close> is a sequence of Unicode code points, so a text is a list of
  naturals and \<open>length\<close> counts what \<open>len\<close> counts. \<open>lit\<close> turns an ASCII literal
  into a text. The string methods follow CPython: \<open>is_space\<close> is the code points on which
  \<open>str.isspace\<close> holds and which \<open>strip\<close> and the whitespace class of \<open>re\<close> use,
  \<open>is_line_break\<close> those at which \<open>str.splitlines\<close> breaks.
\<close>

type_synonym ustr = "nat list"

definition lit :: "string \<Rightarrow> ustr" where
  "lit s = map of_char s"

lemma lit_Nil [simp]: "lit [] = []"
  by (simp add: lit_def)

lemma lit_Cons [simp]: "lit (c # s) = of_char c # lit s"
  by (simp add: lit_def)

lemma length_lit [simp]: "length (lit s) = length s"
  by (simp add: lit_def)

definition is_space :: "nat \<Rightarrow> bool" where
  "is_space c \<longleftrightarrow> (9 \<le> c \<and> c \<le> 13) \<or> (28 \<le> c \<and> c \<le> 32) \<or> c = 133 \<or> c = 160 \<or> c = 5760
     \<or> (8192 \<le> c \<and> c \<le> 8202) \<or> c = 8232 \<or> c = 8233 \<or> c = 8239 \<or> c = 8287 \<or> c = 12288"

definition is_line_break :: "nat \<Rightarrow> bool" where
  "is_line_break c \<longleftrightarrow> (10 \<le> c \<and> c \<le> 13) \<or> (28 \<le> c \<and> c \<le> 30) \<or> c = 133 \<or> c = 8232 \<or> c = 8233"

definition is_ascii_digit :: "nat \<Rightarrow> bool" where
  "is_ascii_digit c \<longleftrightarrow> 48 \<le> c \<and> c \<le> 57"

definition lstrip_by :: "(nat \<Rightarrow> bool) \<Rightarrow> ustr \<Rightarrow> ustr" where
  "lstrip_by p t = dropWhile p t"

definition rstrip_by :: "(nat \<Rightarrow> bool) \<Rightarrow> ustr \<Rightarrow> ustr" where
  "rstrip_by p t = rev (dropWhile p (rev t))"

definition lstrip :: "ustr \<Rightarrow> ustr" where
  "lstrip t = lstrip_by is_space t"

definition rstrip :: "ustr \<Rightarrow> ustr" where
  "rstrip t = rstrip_by is_space t"

definition strip :: "ustr \<Rightarrow> ustr" where
  "strip t = lstrip (rstrip t)"

fun starts_with :: "ustr \<Rightarrow> ustr \<Rightarrow> bool" where
  "starts_with t [] = True"
| "starts_with [] (p # ps) = False"
| "starts_with (c # cs) (p # ps) = (c = p \<and> starts_with cs ps)"

definition ends_with :: "ustr \<Rightarrow> ustr \<Rightarrow> bool" where
  "ends_with t s = starts_with (rev t) (rev s)"

text \<open>\<open>text.find(pattern, start)\<close>, with \<open>None\<close> for \<open>-1\<close>.\<close>

fun find_from :: "ustr \<Rightarrow> ustr \<Rightarrow> nat \<Rightarrow> nat option" where
  "find_from p [] pos = (if p = [] then Some pos else None)"
| "find_from p (c # cs) pos =
     (if starts_with (c # cs) p then Some pos else find_from p cs (Suc pos))"

definition py_find :: "ustr \<Rightarrow> ustr \<Rightarrow> nat \<Rightarrow> nat option" where
  "py_find t p start = (if start > length t then None else find_from p (drop start t) start)"

lemma starts_with_iff: "starts_with t p \<longleftrightarrow> (\<exists>s. t = p @ s)"
  by (induction t p rule: starts_with.induct) auto

lemma starts_with_take: "starts_with t p \<longleftrightarrow> length p \<le> length t \<and> take (length p) t = p"
  by (induction t p rule: starts_with.induct) auto

lemma find_from_Some:
  "find_from p t pos = Some q \<Longrightarrow> pos \<le> q \<and> q + length p \<le> pos + length t
     \<and> take (length p) (drop (q - pos) t) = p"
proof (induction p t pos rule: find_from.induct)
  case (1 p pos)
  then show ?case by (auto split: if_splits)
next
  case (2 p c cs pos)
  show ?case
  proof (cases "starts_with (c # cs) p")
    case True
    with 2 show ?thesis by (auto simp: starts_with_take)
  next
    case False
    with 2 have "Suc pos \<le> q \<and> q + length p \<le> Suc pos + length cs
       \<and> take (length p) (drop (q - Suc pos) cs) = p" by simp
    moreover from this obtain n where "q = Suc (pos + n)" by (metis add_Suc less_eqE)
    ultimately show ?thesis by simp
  qed
qed

lemma py_find_Some:
  assumes "py_find t p start = Some q"
  shows "start \<le> q" "q + length p \<le> length t" "take (length p) (drop q t) = p"
proof -
  from assms have le: "start \<le> length t" and f: "find_from p (drop start t) start = Some q"
    by (auto simp: py_find_def split: if_splits)
  from find_from_Some [OF f] le
  show "start \<le> q" "q + length p \<le> length t" "take (length p) (drop q t) = p"
    by (auto simp: add.commute)
qed

lemma length_lstrip_by: "length (lstrip_by p t) \<le> length t"
  by (simp add: lstrip_by_def length_dropWhile_le)

lemma length_rstrip_by: "length (rstrip_by p t) \<le> length t"
  using length_dropWhile_le [of p "rev t"] by (simp add: rstrip_by_def)

text \<open>\<open>splitlines(keepends=True)\<close>: a carriage return followed by a newline is one break.\<close>

fun split_line :: "ustr \<Rightarrow> ustr \<times> ustr" where
  "split_line [] = ([], [])"
| "split_line (c # cs) =
     (if c = 13 \<and> cs \<noteq> [] \<and> hd cs = 10 then ([13, 10], tl cs)
      else if is_line_break c then ([c], cs)
      else (case split_line cs of (l, r) \<Rightarrow> (c # l, r)))"

lemma split_line_append: "fst (split_line t) @ snd (split_line t) = t"
proof (induction t rule: split_line.induct)
  case 1
  then show ?case by simp
next
  case (2 c cs)
  then show ?case by (cases cs) (auto split: prod.splits)
qed

lemma split_line_nonempty: "t \<noteq> [] \<Longrightarrow> fst (split_line t) \<noteq> []"
  by (cases t) (auto split: prod.splits)

lemma split_line_shorter: "t \<noteq> [] \<Longrightarrow> length (snd (split_line t)) < length t"
proof -
  assume t: "t \<noteq> []"
  have "length t = length (fst (split_line t)) + length (snd (split_line t))"
    by (metis length_append split_line_append)
  with split_line_nonempty [OF t] show ?thesis by simp
qed

function splitlines :: "ustr \<Rightarrow> ustr list" where
  "splitlines t = (if t = [] then [] else fst (split_line t) # splitlines (snd (split_line t)))"
  by pat_completeness auto
termination
  by (relation "measure length") (auto simp: split_line_shorter)

declare splitlines.simps [simp del]

lemma splitlines_concat: "concat (splitlines t) = t"
proof (induction t rule: splitlines.induct)
  case (1 t)
  show ?case
  proof (cases "t = []")
    case True
    then show ?thesis by (simp add: splitlines.simps)
  next
    case False
    with 1 show ?thesis by (simp add: splitlines.simps [of t] split_line_append)
  qed
qed

lemma splitlines_nonempty: "l \<in> set (splitlines t) \<Longrightarrow> l \<noteq> []"
proof (induction t rule: splitlines.induct)
  case (1 t)
  then show ?case using split_line_nonempty [of t]
    by (cases "t = []") (auto simp: splitlines.simps [of t] splitlines.simps [of "[]"])
qed

end
