(* ===== verification/Regex.thy ===== *)
theory Regex
  imports Text
begin

text \<open>
  The part of Python's \<open>re\<close> module the step splitter uses, as a backtracking matcher.
  A pattern is run at a position of a text and yields the list of all ways to match, in the order
  in which the engine tries them: the head of the list is what \<open>match\<close> reports. Greedy and
  lazy repetition differ in that order only. Patterns repeat only non-empty expressions, and
  the matcher requires each optional iteration to consume something.

  The Unicode character database is data outside the repository; what the patterns need of it
  beyond ASCII is the record \<open>unicode_data\<close>.
\<close>

section \<open>Character classes\<close>

record unicode_data =
  ud_word :: "nat \<Rightarrow> bool"
  ud_decimal :: "nat \<Rightarrow> nat option"

definition is_ascii_upper :: "nat \<Rightarrow> bool" where
  "is_ascii_upper c \<longleftrightarrow> 65 \<le> c \<and> c \<le> 90"

definition is_ascii_lower :: "nat \<Rightarrow> bool" where
  "is_ascii_lower c \<longleftrightarrow> 97 \<le> c \<and> c \<le> 122"

text \<open>The word class: letters, digits and the underscore.\<close>

definition is_word :: "unicode_data \<Rightarrow> nat \<Rightarrow> bool" where
  "is_word ud c = (if c < 128 then is_ascii_upper c \<or> is_ascii_lower c \<or> is_ascii_digit c \<or> c = 95 else ud_word ud c)"

definition decimal_value :: "unicode_data \<Rightarrow> nat \<Rightarrow> nat option" where
  "decimal_value ud c =
     (if c < 128 then if is_ascii_digit c then Some (c - 48) else None else ud_decimal ud c)"

definition is_decimal :: "unicode_data \<Rightarrow> nat \<Rightarrow> bool" where
  "is_decimal ud c = (decimal_value ud c \<noteq> None)"

definition ascii_lower :: "nat \<Rightarrow> nat" where
  "ascii_lower c = (if is_ascii_upper c then c + 32 else c)"

text \<open>
  Case-insensitive comparison with a lower-case ASCII letter. Beyond ASCII the engine identifies
  the dotted and dotless i, the long s and the Kelvin sign with their letters.
\<close>

definition same_letter :: "nat \<Rightarrow> nat \<Rightarrow> bool" where
  "same_letter l c \<longleftrightarrow> ascii_lower c = l \<or> (l = 105 \<and> (c = 304 \<or> c = 305)) \<or> (l = 115 \<and> c = 383) \<or> (l = 107 \<and> c = 8490)"

section \<open>Patterns\<close>

datatype re =
    Eps
  | Cls "nat \<Rightarrow> bool"
  | Cat re re
  | Alt re re
  | Rep bool nat "nat option" re
  | Grp string re
  | Ahead re
  | NotBehind "nat \<Rightarrow> bool"
  | Word_Boundary "nat \<Rightarrow> bool"
  | Line_Start
  | Line_End
  | Text_Start
  | Text_End

type_synonym spans = "(string \<times> nat \<times> nat) list"

definition char_at :: "ustr \<Rightarrow> nat \<Rightarrow> nat option" where
  "char_at t i = (if i < length t then Some (t ! i) else None)"

text \<open>
  Repetition, from \<open>(i, gs)\<close>: at least \<open>lo\<close> and at most \<open>hi\<close> further iterations of
  the step function \<open>f\<close>. The fuel bounds the number of iterations; optional iterations consume
  something, so \<open>lo\<close> more than the length of the text is always enough.
\<close>

primrec repeat :: "nat \<Rightarrow> (nat \<times> spans \<Rightarrow> (nat \<times> spans) list) \<Rightarrow> bool \<Rightarrow> nat \<Rightarrow> nat option \<Rightarrow> nat \<times> spans \<Rightarrow> (nat \<times> spans) list" where
  "repeat 0 f greedy lo hi st = (if lo = 0 then [st] else [])"
| "repeat (Suc fuel) f greedy lo hi st =
     (let stop = (if lo = 0 then [st] else []);
          more = (if hi = Some 0 then []
                  else concat (map (repeat fuel f greedy (lo - 1) (map_option (\<lambda>n. n - 1) hi))
                    (filter (\<lambda>st'. 0 < lo \<or> fst st < fst st') (f st))))
      in if greedy then more @ stop else stop @ more)"

fun run :: "re \<Rightarrow> ustr \<Rightarrow> nat \<times> spans \<Rightarrow> (nat \<times> spans) list" where
  "run Eps t st = [st]"
| "run (Cls p) t (i, gs) = (case char_at t i of Some c \<Rightarrow> if p c then [(Suc i, gs)] else [] | None \<Rightarrow> [])"
| "run (Cat r s) t st = concat (map (run s t) (run r t st))"
| "run (Alt r s) t st = run r t st @ run s t st"
| "run (Rep greedy lo hi r) t st = repeat (lo + Suc (length t)) (run r t) greedy lo hi st"
| "run (Grp name r) t (i, gs) = map (\<lambda>(j, gs'). (j, (name, i, j) # gs')) (run r t (i, gs))"
| "run (Ahead r) t (i, gs) = (if run r t (i, gs) = [] then [] else [(i, gs)])"
| "run (NotBehind p) t (i, gs) =
     (if 0 < i \<and> (case char_at t (i - 1) of Some c \<Rightarrow> p c | None \<Rightarrow> False) then [] else [(i, gs)])"
| "run (Word_Boundary w) t (i, gs) =
     (let left_word = (0 < i \<and> (case char_at t (i - 1) of Some c \<Rightarrow> w c | None \<Rightarrow> False));
          right_word = (case char_at t i of Some c \<Rightarrow> w c | None \<Rightarrow> False)
      in if left_word \<noteq> right_word then [(i, gs)] else [])"
| "run Line_Start t (i, gs) = (if i = 0 \<or> char_at t (i - 1) = Some 10 then [(i, gs)] else [])"
| "run Line_End t (i, gs) = (if i = length t \<or> char_at t i = Some 10 then [(i, gs)] else [])"
| "run Text_Start t (i, gs) = (if i = 0 then [(i, gs)] else [])"
| "run Text_End t (i, gs) =
     (if i = length t \<or> (Suc i = length t \<and> char_at t i = Some 10) then [(i, gs)] else [])"

section \<open>The module functions\<close>

text \<open>A match object: start, end and the spans of the named groups, innermost last.\<close>

type_synonym match_object = "nat \<times> nat \<times> spans"

definition match_at :: "re \<Rightarrow> ustr \<Rightarrow> nat \<Rightarrow> match_object option" where
  "match_at r t i = (case run r t (i, []) of [] \<Rightarrow> None | (j, gs) # _ \<Rightarrow> Some (i, j, gs))"

text \<open>\<open>pattern.match(text)\<close>\<close>

definition re_match :: "re \<Rightarrow> ustr \<Rightarrow> match_object option" where
  "re_match r t = match_at r t 0"

text \<open>\<open>pattern.fullmatch(text)\<close>: the first way to match that ends at the end.\<close>

definition re_fullmatch :: "re \<Rightarrow> ustr \<Rightarrow> bool" where
  "re_fullmatch r t = (\<exists>x \<in> set (run r t (0, [])). fst x = length t)"

text \<open>\<open>pattern.search(text, pos)\<close>: the leftmost match.\<close>

fun first_match :: "re \<Rightarrow> ustr \<Rightarrow> nat list \<Rightarrow> match_object option" where
  "first_match r t [] = None"
| "first_match r t (i # is) = (case match_at r t i of Some m \<Rightarrow> Some m | None \<Rightarrow> first_match r t is)"

definition re_search :: "re \<Rightarrow> ustr \<Rightarrow> nat \<Rightarrow> match_object option" where
  "re_search r t pos = first_match r t [pos..<Suc (length t)]"

definition group_span :: "string \<Rightarrow> match_object \<Rightarrow> (nat \<times> nat) option" where
  "group_span name m = map_of (snd (snd m)) name"

text \<open>\<open>match.group(name)\<close>, with \<open>None\<close> for a group that did not take part.\<close>

definition group :: "ustr \<Rightarrow> string \<Rightarrow> match_object \<Rightarrow> ustr option" where
  "group t name m = map_option (\<lambda>(i, j). slice i j t) (group_span name m)"

text \<open>
  \<open>pattern.finditer(text, pos)\<close> for patterns that match non-empty parts: the next search
  starts where the last match ended.
\<close>

fun find_all :: "nat \<Rightarrow> re \<Rightarrow> ustr \<Rightarrow> nat \<Rightarrow> match_object list" where
  "find_all 0 r t pos = []"
| "find_all (Suc fuel) r t pos =
     (case re_search r t pos of None \<Rightarrow> [] | Some (i, j, gs) \<Rightarrow> (i, j, gs) # find_all fuel r t (max j (Suc pos)))"

definition re_finditer :: "re \<Rightarrow> ustr \<Rightarrow> nat \<Rightarrow> match_object list" where
  "re_finditer r t pos = find_all (Suc (length t)) r t pos"

text \<open>\<open>re.sub(pattern, "", text)\<close>: what lies between the matches.\<close>

fun outside :: "ustr \<Rightarrow> nat \<Rightarrow> match_object list \<Rightarrow> ustr" where
  "outside t pos [] = drop pos t"
| "outside t pos ((i, j, gs) # ms) = slice pos i t @ outside t j ms"

definition re_remove :: "re \<Rightarrow> ustr \<Rightarrow> ustr" where
  "re_remove r t = outside t 0 (re_finditer r t 0)"

section \<open>Writing patterns\<close>

abbreviation one :: "nat \<Rightarrow> re" where "one c \<equiv> Cls (\<lambda>x. x = c)"
abbreviation chr :: "char \<Rightarrow> re" where "chr c \<equiv> one (of_char c)"
abbreviation many :: "re \<Rightarrow> re" where "many r \<equiv> Rep True 0 None r"
abbreviation some :: "re \<Rightarrow> re" where "some r \<equiv> Rep True 1 None r"
abbreviation opt :: "re \<Rightarrow> re" where "opt r \<equiv> Rep True 0 (Some 1) r"
abbreviation rep :: "nat \<Rightarrow> nat \<Rightarrow> re \<Rightarrow> re" where "rep lo hi r \<equiv> Rep True lo (Some hi) r"

fun cat :: "re list \<Rightarrow> re" where
  "cat [] = Eps"
| "cat [r] = r"
| "cat (r # s # rs) = Cat r (cat (s # rs))"

fun alts :: "re list \<Rightarrow> re" where
  "alts [] = Cls (\<lambda>_. False)"
| "alts [r] = r"
| "alts (r # s # rs) = Alt r (alts (s # rs))"

text \<open>A literal, and one matched without regard to case (its letters in lower case).\<close>

definition word :: "string \<Rightarrow> re" where
  "word s = cat (map chr s)"

definition iword :: "string \<Rightarrow> re" where
  "iword s = cat (map (\<lambda>c. if is_ascii_lower (of_char c) then Cls (same_letter (of_char c)) else chr c) s)"

definition any_of :: "string \<Rightarrow> nat \<Rightarrow> bool" where
  "any_of s c = (\<exists>x \<in> set s. c = of_char x)"

abbreviation blank :: re where "blank \<equiv> Cls (any_of [CHR '' '', CHR 0x09])"

section \<open>Positions\<close>

lemma repeat_bounds:
  assumes "\<And>s s'. s' \<in> set (f s) \<Longrightarrow> fst s \<le> fst s' \<and> (fst s \<le> n \<longrightarrow> fst s' \<le> n)"
  shows "s' \<in> set (repeat fuel f greedy lo hi s) \<Longrightarrow> fst s \<le> fst s' \<and> (fst s \<le> n \<longrightarrow> fst s' \<le> n)"
proof (induction fuel arbitrary: s lo hi)
  case 0
  then show ?case by (auto split: if_splits)
next
  case (Suc fuel)
  have "s' = s \<or> (\<exists>s1 lo' hi'. s1 \<in> set (f s) \<and> s' \<in> set (repeat fuel f greedy lo' hi' s1))"
    using Suc.prems by (auto simp: Let_def split: if_splits)
  then show ?case
  proof
    assume "\<exists>s1 lo' hi'. s1 \<in> set (f s) \<and> s' \<in> set (repeat fuel f greedy lo' hi' s1)"
    then obtain s1 lo' hi' where s1: "s1 \<in> set (f s)" "s' \<in> set (repeat fuel f greedy lo' hi' s1)" by blast
    show ?thesis using assms [OF s1(1)] Suc.IH [OF s1(2)] by auto
  qed simp
qed

text \<open>A match never ends before it starts nor beyond the text.\<close>

lemma run_bounds: "s' \<in> set (run r t s) \<Longrightarrow> fst s \<le> fst s' \<and> (fst s \<le> length t \<longrightarrow> fst s' \<le> length t)"
proof (induction r arbitrary: s s')
  case (Cls p)
  then show ?case by (cases s) (auto simp: char_at_def split: option.splits if_splits)
next
  case (Cat r1 r2)
  then obtain s1 where s1: "s1 \<in> set (run r1 t s)" "s' \<in> set (run r2 t s1)" by auto
  show ?case using Cat.IH(1) [OF s1(1)] Cat.IH(2) [OF s1(2)] by auto
next
  case (Rep greedy lo hi r)
  then show ?case using repeat_bounds [where f = "run r t" and n = "length t"] by (metis run.simps(5))
next
  case (Grp name r)
  then show ?case by (cases s) force
qed (case_tac s; auto simp: Let_def split: if_splits)+

lemma match_at_bounds: "match_at r t i = Some (a, b, gs) \<Longrightarrow> a = i \<and> i \<le> b \<and> (i \<le> length t \<longrightarrow> b \<le> length t)"
  using run_bounds [of _ r t "(i, [])"] by (fastforce simp: match_at_def split: list.splits)

lemma first_match_in: "first_match r t is = Some m \<Longrightarrow> \<exists>i \<in> set is. match_at r t i = Some m"
  by (induction "is") (auto split: option.splits)

lemma re_search_bounds: "re_search r t pos = Some (a, b, gs) \<Longrightarrow> pos \<le> a \<and> a \<le> b \<and> b \<le> length t"
  using first_match_in [of r t "[pos..<Suc (length t)]"] match_at_bounds [of r t]
  by (fastforce simp: re_search_def simp del: upt_Suc)

text \<open>The least number of characters a match consumes.\<close>

primrec min_width :: "re \<Rightarrow> nat" where
  "min_width Eps = 0"
| "min_width (Cls p) = 1"
| "min_width (Cat r s) = min_width r + min_width s"
| "min_width (Alt r s) = min (min_width r) (min_width s)"
| "min_width (Rep greedy lo hi r) = lo * min_width r"
| "min_width (Grp name r) = min_width r"
| "min_width (Ahead r) = 0"
| "min_width (NotBehind p) = 0"
| "min_width (Word_Boundary w) = 0"
| "min_width Line_Start = 0"
| "min_width Line_End = 0"
| "min_width Text_Start = 0"
| "min_width Text_End = 0"

lemma repeat_width:
  assumes "\<And>s s'. s' \<in> set (f s) \<Longrightarrow> fst s + w \<le> fst s'"
  shows "s' \<in> set (repeat fuel f greedy lo hi s) \<Longrightarrow> fst s + lo * w \<le> fst s'"
proof (induction fuel arbitrary: s lo hi)
  case 0
  then show ?case by (auto split: if_splits)
next
  case (Suc fuel)
  have "(lo = 0 \<and> s' = s) \<or> (\<exists>s1 hi'. s1 \<in> set (f s) \<and> s' \<in> set (repeat fuel f greedy (lo - 1) hi' s1))"
    using Suc.prems by (auto simp: Let_def split: if_splits)
  then show ?case
  proof
    assume "\<exists>s1 hi'. s1 \<in> set (f s) \<and> s' \<in> set (repeat fuel f greedy (lo - 1) hi' s1)"
    then obtain s1 hi' where s1: "s1 \<in> set (f s)" "s' \<in> set (repeat fuel f greedy (lo - 1) hi' s1)" by blast
    have "fst s + w + (lo - 1) * w \<le> fst s'" using assms [OF s1(1)] Suc.IH [OF s1(2)] by simp
    then show ?thesis by (cases lo) auto
  qed simp
qed

lemma run_width: "s' \<in> set (run r t s) \<Longrightarrow> fst s + min_width r \<le> fst s'"
proof (induction r arbitrary: s s')
  case (Cls p)
  then show ?case by (cases s) (auto simp: char_at_def split: option.splits if_splits)
next
  case (Cat r1 r2)
  then obtain s1 where s1: "s1 \<in> set (run r1 t s)" "s' \<in> set (run r2 t s1)" by auto
  show ?case using Cat.IH(1) [OF s1(1)] Cat.IH(2) [OF s1(2)] by simp
next
  case (Alt r1 r2)
  from Alt.prems have "s' \<in> set (run r1 t s) \<or> s' \<in> set (run r2 t s)" by simp
  then have "fst s + min_width r1 \<le> fst s' \<or> fst s + min_width r2 \<le> fst s'" by (blast dest: Alt.IH)
  then show ?case by (auto simp: min_def)
next
  case (Rep greedy lo hi r)
  show ?case unfolding min_width.simps
    by (rule repeat_width [OF Rep.IH]) (use Rep.prems in \<open>simp_all only: run.simps\<close>)
next
  case (Grp name r)
  then show ?case by (cases s) force
qed (case_tac s; auto simp: Let_def split: if_splits)+

lemma re_search_width: "re_search r t pos = Some (a, b, gs) \<Longrightarrow> a + min_width r \<le> b"
  using first_match_in [of r t "[pos..<Suc (length t)]" "(a, b, gs)"] run_width [of "(b, gs)" r t "(a, [])"]
  by (fastforce simp: re_search_def match_at_def simp del: upt_Suc split: list.splits)

section \<open>Named groups\<close>

text \<open>
  \<open>group_class name p r\<close>: every group \<open>name\<close> of the pattern is a repetition of characters
  satisfying \<open>p\<close>.
\<close>

primrec group_class :: "string \<Rightarrow> (nat \<Rightarrow> bool) \<Rightarrow> re \<Rightarrow> bool" where
  "group_class name p Eps = True"
| "group_class name p (Cls q) = True"
| "group_class name p (Cat r s) = (group_class name p r \<and> group_class name p s)"
| "group_class name p (Alt r s) = (group_class name p r \<and> group_class name p s)"
| "group_class name p (Rep greedy lo hi r) = group_class name p r"
| "group_class name p (Grp n r) = (if n = name then \<exists>greedy lo hi. r = Rep greedy lo hi (Cls p) else group_class name p r)"
| "group_class name p (Ahead r) = True"
| "group_class name p (NotBehind q) = True"
| "group_class name p (Word_Boundary w) = True"
| "group_class name p Line_Start = True"
| "group_class name p Line_End = True"
| "group_class name p Text_Start = True"
| "group_class name p Text_End = True"

lemma repeat_invariant:
  assumes "\<And>s s'. I s \<Longrightarrow> s' \<in> set (f s) \<Longrightarrow> I s'"
  shows "I s \<Longrightarrow> s' \<in> set (repeat fuel f greedy lo hi s) \<Longrightarrow> I s'"
proof (induction fuel arbitrary: s lo hi)
  case 0
  then show ?case by (auto split: if_splits)
next
  case (Suc fuel)
  have "s' = s \<or> (\<exists>s1 lo' hi'. s1 \<in> set (f s) \<and> s' \<in> set (repeat fuel f greedy lo' hi' s1))"
    using Suc.prems(2) by (auto simp: Let_def split: if_splits)
  then show ?case using Suc.prems(1) Suc.IH assms by blast
qed

lemma run_Cls_all:
  assumes "s' \<in> set (run (Rep greedy lo hi (Cls p)) t (i, gs))"
  shows "snd s' = gs \<and> (\<forall>k. i \<le> k \<and> k < fst s' \<longrightarrow> k < length t \<and> p (t ! k))"
proof -
  let ?I = "\<lambda>s. snd s = gs \<and> (\<forall>k. i \<le> k \<and> k < fst s \<longrightarrow> k < length t \<and> p (t ! k))"
  have m: "s' \<in> set (repeat (lo + Suc (length t)) (run (Cls p) t) greedy lo hi (i, gs))"
    using assms by (simp only: run.simps)
  have step: "?I s2" if "?I s1" "s2 \<in> set (run (Cls p) t s1)" for s1 s2
    using that by (cases s1) (auto simp: char_at_def less_Suc_eq split: option.splits if_splits)
  show ?thesis by (rule repeat_invariant [where I = ?I, OF step _ m]) auto
qed

text \<open>Spans recorded for such a group cover characters of the class only.\<close>

definition spans_ok :: "string \<Rightarrow> (nat \<Rightarrow> bool) \<Rightarrow> ustr \<Rightarrow> nat \<times> spans \<Rightarrow> bool" where
  "spans_ok name p t s \<longleftrightarrow> (\<forall>i j. (name, i, j) \<in> set (snd s) \<longrightarrow> (\<forall>k. i \<le> k \<and> k < j \<longrightarrow> k < length t \<and> p (t ! k)))"

lemma run_spans_ok: "group_class name p r \<Longrightarrow> spans_ok name p t s \<Longrightarrow> s' \<in> set (run r t s) \<Longrightarrow> spans_ok name p t s'"
proof (induction r arbitrary: s s')
  case (Cls q)
  then show ?case by (cases s) (auto simp: spans_ok_def split: option.splits if_splits)
next
  case (Cat r1 r2)
  obtain s1 where s1: "s1 \<in> set (run r1 t s)" "s' \<in> set (run r2 t s1)" using Cat.prems(3) by auto
  have gc: "group_class name p r1" "group_class name p r2" using Cat.prems(1) by simp_all
  show ?case by (rule Cat.IH(2) [OF gc(2) Cat.IH(1) [OF gc(1) Cat.prems(2) s1(1)] s1(2)])
next
  case (Alt r1 r2)
  from Alt.prems(3) have "s' \<in> set (run r1 t s) \<or> s' \<in> set (run r2 t s)" by simp
  then show ?case using Alt.IH Alt.prems(1,2) by (metis group_class.simps(4))
next
  case (Rep greedy lo hi r)
  then have gc: "group_class name p r" and m: "s' \<in> set (repeat (lo + Suc (length t)) (run r t) greedy lo hi s)"
    by (simp_all only: group_class.simps run.simps)
  show ?case by (rule repeat_invariant [where I = "spans_ok name p t" and f = "run r t", OF Rep.IH [OF gc] Rep.prems(2) m])
next
  case (Grp n r)
  obtain i gs where s: "s = (i, gs)" by (cases s)
  obtain j gs' where j: "(j, gs') \<in> set (run r t (i, gs))" "s' = (j, (n, i, j) # gs')"
    using Grp.prems(3) by (auto simp: s)
  show ?case
  proof (cases "n = name")
    case True
    then obtain greedy lo hi where r: "r = Rep greedy lo hi (Cls p)" using Grp.prems(1) by auto
    show ?thesis using run_Cls_all [OF j(1) [unfolded r]] Grp.prems(2) by (auto simp: j(2) s spans_ok_def)
  next
    case False
    then have "spans_ok name p t (j, gs')" using Grp.IH [OF _ Grp.prems(2)] Grp.prems(1) j(1) s by auto
    then show ?thesis using False by (auto simp: j(2) spans_ok_def)
  qed
qed (case_tac s; auto simp: Let_def spans_ok_def split: if_splits)+

lemma re_match_group_class:
  assumes "re_match r t = Some m" "group_class name p r" "group t name m = Some v"
  shows "\<forall>c \<in> set v. p c"
proof -
  obtain a b gs where m: "m = (a, b, gs)" by (cases m)
  have "(b, gs) \<in> set (run r t (0, []))"
    using assms(1) by (auto simp: m re_match_def match_at_def split: list.splits)
  then have ok: "spans_ok name p t (b, gs)" by (rule run_spans_ok [OF assms(2), rotated]) (simp add: spans_ok_def)
  obtain i j where v: "v = slice i j t" "(name, i, j) \<in> set gs"
    using assms(3) by (auto simp: m group_def group_span_def dest: map_of_SomeD)
  show ?thesis
  proof
    fix c assume "c \<in> set v"
    then obtain k where "k < length v" "c = v ! k" by (auto simp: in_set_conv_nth)
    then show "p c" using ok v by (auto simp: spans_ok_def nth_slice)
  qed
qed

end
