(* ===== verification/Step_Data.thy ===== *)
theory Step_Data
  imports Text
begin

text \<open>
  The data the step splitter produces (\<open>TextStep\<close>, \<open>TokenStep\<close> of
  \<open>utils/conservative_step_splitter.py\<close>) and the notion of a contiguous partition that
  the splitter establishes and the probe layout consumes.
\<close>

record text_step =
  ts_index :: nat
  ts_char_start :: nat
  ts_char_end :: nat
  ts_text :: ustr
  ts_kind :: string
  ts_boundary_reason :: string
  ts_confidence :: string

record token_step =
  step_index :: nat
  char_start :: nat
  char_end :: nat
  token_start :: nat
  token_end :: nat
  step_text :: ustr
  step_kind :: string
  boundary_reason :: string
  confidence :: string

text \<open>
  \<open>contiguous prev n rs\<close>: the half-open ranges \<open>rs\<close> are non-empty, start at
  \<open>prev\<close>, follow each other without a gap and end at or before \<open>n\<close>.
\<close>

fun contiguous :: "int \<Rightarrow> int \<Rightarrow> (int \<times> int) list \<Rightarrow> bool" where
  "contiguous prev n [] = True"
| "contiguous prev n ((s, e) # rs) = (0 \<le> s \<and> s < e \<and> e \<le> n \<and> s = prev \<and> contiguous e n rs)"

lemma contiguous_bounds:
  "contiguous prev n rs \<Longrightarrow> (s, e) \<in> set rs \<Longrightarrow> 0 \<le> s \<and> prev \<le> s \<and> s < e \<and> e \<le> n"
  by (induction prev n rs rule: contiguous.induct) fastforce+

lemma contiguous_nth:
  "contiguous prev n rs \<Longrightarrow> i < length rs \<Longrightarrow>
     fst (rs ! i) = (if i = 0 then prev else snd (rs ! (i - 1))) \<and> fst (rs ! i) < snd (rs ! i)
       \<and> 0 \<le> fst (rs ! i) \<and> snd (rs ! i) \<le> n"
proof (induction prev n rs arbitrary: i rule: contiguous.induct)
  case (2 prev n s e rs)
  show ?case
  proof (cases i)
    case 0
    with 2 show ?thesis by simp
  next
    case (Suc j)
    with 2 have j: "j < length rs" "contiguous e n rs" by simp_all
    note IH = 2(1) [OF j(2,1)]
    from IH Suc show ?thesis by (cases j) auto
  qed
qed simp

lemma contiguous_append:
  "contiguous prev n (rs @ qs) \<longleftrightarrow>
     contiguous prev n rs \<and> contiguous (if rs = [] then prev else snd (last rs)) n qs"
  by (induction prev n rs rule: contiguous.induct) auto

lemma contiguous_mono: "contiguous prev n rs \<Longrightarrow> n \<le> m \<Longrightarrow> contiguous prev m rs"
  by (induction prev n rs rule: contiguous.induct) auto

text \<open>The ends of a contiguous partition are strictly increasing, and determine it.\<close>

fun ranges_from :: "int \<Rightarrow> int list \<Rightarrow> (int \<times> int) list" where
  "ranges_from prev [] = []"
| "ranges_from prev (e # es) = (prev, e) # ranges_from e es"

lemma ranges_from_zip: "es \<noteq> [] \<Longrightarrow> ranges_from prev es = zip (prev # butlast es) es"
  by (induction prev es rule: ranges_from.induct) auto

lemma contiguous_ranges_from: "contiguous prev n rs \<Longrightarrow> rs = ranges_from prev (map snd rs)"
  by (induction prev n rs rule: contiguous.induct) auto

lemma snd_ranges_from [simp]: "map snd (ranges_from prev es) = es"
  by (induction prev es rule: ranges_from.induct) auto

lemma length_ranges_from [simp]: "length (ranges_from prev es) = length es"
  by (induction prev es rule: ranges_from.induct) auto

text \<open>Every token position belongs to at most one range of a contiguous partition.\<close>

lemma contiguous_gap:
  assumes "contiguous prev n rs" "i < j" "j < length rs"
  shows "snd (rs ! i) \<le> fst (rs ! j)"
  using assms
proof (induction prev n rs arbitrary: i j rule: contiguous.induct)
  case (2 prev n s e rs)
  then obtain j' where j: "j = Suc j'" by (cases j) auto
  have later: "e \<le> fst (rs ! j')"
    using 2(2,4) j contiguous_bounds [of e n rs "fst (rs ! j')" "snd (rs ! j')"] by simp
  show ?case
  proof (cases i)
    case 0
    with j later show ?thesis by simp
  next
    case (Suc i')
    with 2 j show ?thesis by simp
  qed
qed simp

lemma contiguous_disjoint:
  assumes "contiguous prev n rs" "i < length rs" "j < length rs"
    and "fst (rs ! i) \<le> x" "x < snd (rs ! i)" "fst (rs ! j) \<le> x" "x < snd (rs ! j)"
  shows "i = j"
proof (rule ccontr)
  assume "i \<noteq> j"
  then consider "i < j" | "j < i" by linarith
  then show False
  proof cases
    case 1
    with contiguous_gap [OF assms(1) this assms(3)] assms show False by simp
  next
    case 2
    with contiguous_gap [OF assms(1) this assms(2)] assms show False by simp
  qed
qed

end
