(* ===== verification/Step_Splitter.thy ===== *)
theory Step_Splitter
  imports Regex Step_Data "HOL-Library.List_Lexorder" "HOL-Library.Product_Lexorder"
begin

text \<open>
  The conservative step splitter (\<open>utils/conservative_step_splitter.py\<close>, up to
  \<open>split_text_steps\<close>): protected ranges, the five boundary detectors, the final-answer
  boundary and the assembly of the steps. Its patterns are values of the matcher of
  \<open>Regex\<close>; \<open>ud\<close> is the Unicode database.
\<close>

section \<open>Data\<close>

record line =
  ln_start :: nat
  ln_end :: nat
  ln_text :: ustr

record marker =
  mk_position :: nat
  mk_family :: ustr
  mk_number :: int
  mk_level :: nat
  mk_reason :: string

record boundary =
  bd_position :: nat
  bd_reason :: string
  bd_confidence :: string

section \<open>Patterns\<close>

definition line_break_free :: "nat \<Rightarrow> bool" where
  "line_break_free c \<longleftrightarrow> c \<noteq> 10"

text \<open>Classes shared by the patterns: the status emoji, an optional trailing colon or full stop.\<close>

definition emoji :: "nat \<Rightarrow> bool" where
  "emoji c \<longleftrightarrow> c = 9989 \<or> c = 9745 \<or> c = 127919"

definition dot_or_colon :: "nat \<Rightarrow> bool" where
  "dot_or_colon c \<longleftrightarrow> c = 46 \<or> c = 58 \<or> c = 65306"

abbreviation star :: re where "star \<equiv> chr CHR ''*''"
abbreviation hash :: re where "hash \<equiv> chr CHR ''#''"
abbreviation digit :: "unicode_data \<Rightarrow> re" where "digit ud \<equiv> Cls (is_decimal ud)"
abbreviation not_space :: re where "not_space \<equiv> Cls (\<lambda>c. \<not> is_space c)"
abbreviation indent :: re where "indent \<equiv> Grp ''indent'' (many blank)"
abbreviation heading :: re where "heading \<equiv> Grp ''heading'' (rep 1 6 hash)"
abbreviation dot_paren :: re where "dot_paren \<equiv> Cls (any_of '').'')"
abbreviation trailing_dot :: re where "trailing_dot \<equiv> opt (Cat (Cls dot_or_colon) (many blank))"
abbreviation title_char :: re where "title_char \<equiv> Cls (\<lambda>c. c \<noteq> 42 \<and> c \<noteq> 13 \<and> c \<noteq> 10)"

text \<open>Words separated by blanks, without regard to case.\<close>

definition phrase :: "string list \<Rightarrow> re" where
  "phrase ws = (case map iword ws of [] \<Rightarrow> Eps | w # rest \<Rightarrow> cat (w # concat (map (\<lambda>r. [some blank, r]) rest)))"

definition roman_digit :: "nat \<Rightarrow> bool" where
  "roman_digit c = (\<exists>l \<in> set ''ivxlcdm''. same_letter (of_char l) c)"

definition explicit_step_re :: "unicode_data \<Rightarrow> re" where
  "explicit_step_re ud = cat [Text_Start, indent, opt (cat [heading, some blank]),
     opt (cat [Cls emoji, opt (one 65039), many blank]), opt (cat [rep 1 2 star, many blank]),
     Grp ''family'' (alts (phrase [''solution'', ''step''] # map iword [''step'', ''part'', ''case'', ''operation'', ''phase'', ''stage''])),
     many blank, opt (cat [iword ''no'', opt (chr CHR ''.''), many blank]), opt hash, many blank,
     Grp ''number'' (Alt (some (digit ud)) (some (Cls roman_digit))), Word_Boundary (is_word ud)]"

definition bold_numbered_heading_re :: "unicode_data \<Rightarrow> re" where
  "bold_numbered_heading_re ud = cat [Text_Start, indent, opt (cat [heading, some blank]), star, star,
     Grp ''number'' (some (digit ud)), dot_paren, some blank, some (Cls line_break_free), star, star, many blank,
     trailing_dot, Text_End]"

definition markdown_numbered_heading_re :: "unicode_data \<Rightarrow> re" where
  "markdown_numbered_heading_re ud = cat [Text_Start, indent, heading, some blank, opt (rep 1 2 star),
     Grp ''number'' (some (digit ud)), dot_paren, some blank, not_space, some (Cls line_break_free), Text_End]"

definition numbered_bold_label_re :: "unicode_data \<Rightarrow> re" where
  "numbered_bold_label_re ud = cat [Text_Start, indent, Grp ''number'' (some (digit ud)), dot_paren, some blank,
     rep 1 2 star, Grp ''title'' (rep 2 180 title_char), rep 1 2 star,
     Grp ''tail'' (many (Cls (\<lambda>c. c \<noteq> 13 \<and> c \<noteq> 10))), Text_End]"

definition markdown_heading_re :: re where
  "markdown_heading_re = cat [Text_Start, indent, heading, some blank,
     Grp ''title'' (Cat not_space (Rep False 0 None (Cls line_break_free))), many blank, Text_End]"

definition bold_heading_re :: re where
  "bold_heading_re = cat [Text_Start, indent, star, star, Grp ''title'' (rep 2 180 title_char), star, star,
     many blank, trailing_dot, Text_End]"

definition option_heading_re :: re where
  "option_heading_re = cat [Text_Start, opt (cat [alts [iword ''option'', iword ''choice''], some blank]),
     Cls (\<lambda>c. \<exists>l \<in> set ''abcdefghij''. same_letter (of_char l) c),
     Alt (Cls (\<lambda>c. any_of ''.)]:-'' c \<or> c = 65306)) (Cat (many blank) Text_End)]"

definition non_reasoning_heading_re :: re where
  "non_reasoning_heading_re = cat [Text_Start,
     alts [iword ''question'', Cat (iword ''choice'') (opt (iword ''s'')), Cat (iword ''option'') (opt (iword ''s'')),
       cat [phrase [''answer'', ''choice''], opt (iword ''s'')],
       Cat (iword ''problem'') (opt (Cat (some blank) (iword ''statement''))),
       Cat (iword ''given'') (opt (cat [some blank, iword ''condition'', opt (iword ''s'')])),
       iword ''passage'', iword ''goal'', Cat (iword ''background'') (opt (Cat (some blank) (iword ''theory''))),
       cat [iword ''key'', some blank,
         alts [Cat (iword ''point'') (opt (iword ''s'')), iword ''information'', Cat (iword ''concept'') (opt (iword ''s'')),
           Cat (iword ''element'') (opt (iword ''s'')), iword ''properties''],
         opt (cat [some blank, alts [iword ''from'', iword ''of''], some blank, opt (Cat (iword ''the'') (some blank)),
           alts [iword ''problem'', iword ''passage'', iword ''argument'']])],
       Cat (iword ''definition'') (opt (iword ''s'')), phrase [''definition'', ''recap''], phrase [''passage'', ''summary''],
       phrase [''argument'', ''summary''],
       cat [phrase [''summary'', ''of'', ''the''], some blank,
         alts [iword ''argument'', iword ''passage'', Cat (iword ''view'') (opt (iword ''s''))]],
       phrase [''the'', ''issue'']], Text_End]"

definition reasoning_label_re :: "unicode_data \<Rightarrow> re" where
  "reasoning_label_re ud = cat [Word_Boundary (is_word ud),
     alts [iword ''step'', iword ''premise'', iword ''assumption'', iword ''observation'', iword ''inference'',
       iword ''deduction'', iword ''analysis'', iword ''case'',
       Cat (iword ''calculat'') (alts [iword ''e'', iword ''ion'']), Cat (iword ''deriv'') (alts [iword ''e'', iword ''ation'']),
       iword ''determine'', Cat (iword ''evaluat'') (alts [iword ''e'', iword ''ion'']), iword ''eliminate'',
       iword ''conclusion'', iword ''result'', Cat (iword ''substitut'') (alts [iword ''e'', iword ''ion'']),
       Cat (iword ''simplif'') (alts [iword ''y'', iword ''ication'']), Cat (iword ''comput'') (alts [iword ''e'', iword ''ation'']),
       iword ''setup'', iword ''identify'', iword ''interpret'', iword ''compare'', iword ''apply'', iword ''verify'',
       iword ''check'', iword ''solve'', iword ''proof'', iword ''approach'', iword ''method''],
     Word_Boundary (is_word ud)]"

definition structured_component_heading_re :: "unicode_data \<Rightarrow> re" where
  "structured_component_heading_re ud = Cat Text_Start
     (alts [cat [alts (map iword [''first'', ''second'', ''third'', ''fourth'', ''fifth'', ''sixth'', ''next'', ''last'', ''overall'']),
         some blank, alts [iword ''term'', iword ''component'', iword ''expression'', iword ''equation'', iword ''factor'',
           Cat (iword ''relation'') (opt (iword ''ship'')), iword ''case'', iword ''part'']],
       cat [iword ''relation'', opt (iword ''ship''), some blank, iword ''between''],
       Cat (iword ''hypothesis'') (opt (Cat (some blank) (phrase [''based'', ''on'']))),
       Cat (iword ''assumption'') (Word_Boundary (is_word ud))])"

text \<open>The three Chinese final headings, by code point.\<close>

definition final_heading_re :: "unicode_data \<Rightarrow> re" where
  "final_heading_re ud = cat [Text_Start, many blank, opt (cat [rep 1 6 hash, some blank]),
     opt (cat [Cls emoji, opt (one 65039), many blank]), opt (cat [rep 1 2 star, many blank]),
     alts [cat [iword ''final'', some blank, alts [iword ''answer'', iword ''result'', iword ''conclusion'']],
       phrase [''correct'', ''answer''], cat (map one [26368, 32456, 31572, 26696]),
       cat (map one [26368, 32456, 32467, 26524]), cat (map one [32467, 35770])],
     Word_Boundary (is_word ud)]"

definition final_paragraph_cue_re :: re where
  "final_paragraph_cue_re = cat [Text_Start, many blank, opt (cat [rep 1 2 star, many blank]),
     alts [iword ''therefore'', iword ''thus'', iword ''hence'', iword ''consequently'', phrase [''in'', ''conclusion''],
       iword ''finally'', iword ''overall'', phrase [''we'', ''conclude''], phrase [''this'', ''gives''],
       phrase [''this'', ''yields''],
       cat [iword ''the'', some blank, alts [iword ''final'', iword ''correct''], some blank, iword ''answer''],
       phrase [''the'', ''answer'', ''is''], cat [iword ''answer'', many blank, chr CHR '':'']]]"

definition ascii_letter :: "nat \<Rightarrow> bool" where
  "ascii_letter c \<longleftrightarrow> is_ascii_upper c \<or> is_ascii_lower c"

definition list_line_re :: "unicode_data \<Rightarrow> re" where
  "list_line_re ud = cat [Text_Start, rep 0 3 blank,
     alts [Cls (any_of ''-+*''), Cat (some (digit ud)) dot_paren, Cat (Cls ascii_letter) dot_paren], some blank, not_space]"

definition table_separator_re :: re where
  "table_separator_re = (let colon = opt (chr CHR '':''); bar = chr CHR ''|''; dashes = Rep True 3 None (chr CHR ''-'') in
     cat [Text_Start, many blank, opt bar, many blank, colon, dashes, colon, many blank,
       some (cat [bar, many blank, colon, dashes, colon, many blank]), opt bar, many blank, Text_End])"

definition latex_begin_re :: re where
  "latex_begin_re = (let starred = (\<lambda>w. Cat (word w) (opt star)) in
     cat [word (CHR 0x5C # ''begin{''), Grp ''env'' (alts [starred ''equation'', starred ''align'', word ''aligned'',
       starred ''gather'', starred ''multline'', word ''cases'', word ''array'', word ''matrix'', word ''pmatrix'',
       word ''bmatrix'', word ''vmatrix'', word ''Vmatrix'', word ''tabular'']), chr CHR ''}''])"

section \<open>Lines and protected ranges\<close>

text \<open>\<open>splitlines\<close> covers the whole text, so the source's last-line case does not arise.\<close>

fun lines_from :: "nat \<Rightarrow> ustr list \<Rightarrow> line list" where
  "lines_from cursor [] = []"
| "lines_from cursor (v # vs) =
     \<lparr>ln_start = cursor, ln_end = cursor + length v, ln_text = v\<rparr> # lines_from (cursor + length v) vs"

definition lines_of :: "ustr \<Rightarrow> line list" where
  "lines_of t = lines_from 0 (splitlines t)"

fun merge_into :: "nat \<times> nat \<Rightarrow> (nat \<times> nat) list \<Rightarrow> (nat \<times> nat) list" where
  "merge_into (s, e) merged =
     (if s \<ge> e then merged
      else if merged = [] \<or> s > snd (last merged) then merged @ [(s, e)]
      else butlast merged @ [(fst (last merged), max (snd (last merged)) e)])"

definition merge_ranges :: "(nat \<times> nat) list \<Rightarrow> (nat \<times> nat) list" where
  "merge_ranges ranges = fold merge_into (sort ranges) []"

text \<open>
  The delimiter loop; every round consumes at least an opening delimiter, so one round per
  character is enough fuel.
\<close>

fun delimiter_loop :: "nat \<Rightarrow> ustr \<Rightarrow> re \<Rightarrow> (match_object \<Rightarrow> re) \<Rightarrow> nat \<Rightarrow> (nat \<times> nat) list" where
  "delimiter_loop 0 t opening closing_of cursor = []"
| "delimiter_loop (Suc fuel) t opening closing_of cursor =
     (case re_search opening t cursor of
        None \<Rightarrow> []
      | Some (b, bend, gs) \<Rightarrow>
          (case re_search (closing_of (b, bend, gs)) t bend of
             None \<Rightarrow> [(b, length t)]
           | Some (e, eend, _) \<Rightarrow> (b, eend) # delimiter_loop fuel t opening closing_of eend))"

definition delimiter_ranges :: "ustr \<Rightarrow> re \<Rightarrow> (match_object \<Rightarrow> re) \<Rightarrow> (nat \<times> nat) list" where
  "delimiter_ranges t opening closing_of = delimiter_loop (Suc (length t)) t opening closing_of 0"

definition rest_of_line :: re where
  "rest_of_line = Alt (one 10) Line_End"

definition fence_re :: re where
  "fence_re = cat [Line_Start, rep 0 3 blank,
     Grp ''mark'' (Alt (Rep True 3 None (chr CHR ''`'')) (Rep True 3 None (chr CHR ''~''))),
     many (Cls line_break_free), rest_of_line]"

definition fence_close_re :: "ustr \<Rightarrow> re" where
  "fence_close_re mark = cat [Line_Start, rep 0 3 blank, Rep True (length mark) None (one (hd mark)), many blank, rest_of_line]"

definition fenced_code_ranges :: "ustr \<Rightarrow> (nat \<times> nat) list" where
  "fenced_code_ranges t = delimiter_ranges t fence_re
     (\<lambda>m. case group t ''mark'' m of Some mark \<Rightarrow> fence_close_re mark | None \<Rightarrow> Eps)"

definition simple_delimiter_ranges :: "ustr \<Rightarrow> re \<Rightarrow> re \<Rightarrow> (nat \<times> nat) list" where
  "simple_delimiter_ranges t opening closing = delimiter_ranges t opening (\<lambda>_. closing)"

text \<open>The scan of begin and end tokens of one environment, with the nesting depth.\<close>

fun environment_end :: "ustr \<Rightarrow> nat \<Rightarrow> match_object list \<Rightarrow> nat" where
  "environment_end t depth [] = length t"
| "environment_end t depth ((i, j, gs) # ms) =
     (if starts_with (drop i t) (92 # lit ''begin'') then environment_end t (Suc depth) ms
      else if depth = 1 then j
      else environment_end t (depth - 1) ms)"

fun latex_loop :: "nat \<Rightarrow> ustr \<Rightarrow> nat \<Rightarrow> (nat \<times> nat) list" where
  "latex_loop 0 t cursor = []"
| "latex_loop (Suc fuel) t cursor =
     (case re_search latex_begin_re t cursor of
        None \<Rightarrow> []
      | Some (b, bend, gs) \<Rightarrow>
          let env = (case group t ''env'' (b, bend, gs) of Some v \<Rightarrow> v | None \<Rightarrow> []);
              token = cat [one 92, Alt (word ''begin'') (word ''end''), chr CHR ''{'', cat (map one env), chr CHR ''}''];
              e = environment_end t 1 (re_finditer token t bend)
          in (b, e) # (if e = length t then [] else latex_loop fuel t e))"

definition latex_environment_ranges :: "ustr \<Rightarrow> (nat \<times> nat) list" where
  "latex_environment_ranges t = latex_loop (Suc (length t)) t 0"

definition table_row :: "line \<Rightarrow> bool" where
  "table_row l \<longleftrightarrow> strip (ln_text l) \<noteq> [] \<and> 124 \<in> set (strip (ln_text l))"

function table_ranges :: "line list \<Rightarrow> (nat \<times> nat) list" where
  "table_ranges ls =
     (if ls = [] then []
      else let r = takeWhile table_row ls in
        (if length r \<ge> 2 \<and> ((\<exists>l \<in> set r. re_match table_separator_re (ln_text l) \<noteq> None) \<or>
              (\<forall>l \<in> set r. starts_with (strip (ln_text l)) [124]))
         then [(ln_start (hd r), ln_end (last r))] else []) @
        table_ranges (if r = [] then tl ls else drop (length r) ls))"
  by pat_completeness auto
termination by (relation "measure length") auto

declare table_ranges.simps [simp del]

text \<open>
  The inner loop of \<open>_continuous_list_ranges\<close>: a run continues over list lines and over
  indented lines until a blank one.
\<close>

definition in_list_run :: "unicode_data \<Rightarrow> line \<Rightarrow> bool" where
  "in_list_run ud l \<longleftrightarrow> strip (ln_text l) \<noteq> [] \<and>
     (re_match (list_line_re ud) (ln_text l) \<noteq> None \<or> starts_with (ln_text l) [32] \<or> starts_with (ln_text l) [9])"

function list_ranges :: "unicode_data \<Rightarrow> line list \<Rightarrow> (nat \<times> nat) list" where
  "list_ranges ud ls =
     (if ls = [] then []
      else if re_match (list_line_re ud) (ln_text (hd ls)) = None then list_ranges ud (tl ls)
      else let r = takeWhile (in_list_run ud) ls;
               marker_count = length (filter (\<lambda>l. re_match (list_line_re ud) (ln_text l) \<noteq> None) r) in
        (if marker_count \<ge> 2 then [(ln_start (hd r), ln_end (last r))] else []) @
        list_ranges ud (if r = [] then tl ls else drop (length r) ls))"
  by pat_completeness auto
termination by (relation "measure (\<lambda>(_, ls). length ls)") auto

declare list_ranges.simps [simp del]

definition dollars_re :: re where
  "dollars_re = cat [NotBehind (\<lambda>c. c = 92), one 36, one 36]"

definition raw_ranges :: "unicode_data \<Rightarrow> ustr \<Rightarrow> line list \<Rightarrow> (nat \<times> nat) list" where
  "raw_ranges ud t ls =
     fenced_code_ranges t @ simple_delimiter_ranges t dollars_re dollars_re @
     simple_delimiter_ranges t (cat [one 92, chr CHR ''['']) (cat [one 92, chr CHR '']'']) @
     simple_delimiter_ranges t
       (cat [chr CHR ''<'', iword ''think'', Word_Boundary (is_word ud), many (Cls (\<lambda>c. c \<noteq> 62)), chr CHR ''>''])
       (cat [word ''</'', iword ''think'', many (Cls is_space), chr CHR ''>'']) @
     latex_environment_ranges t @ table_ranges ls @ list_ranges ud ls"

definition protected_ranges :: "unicode_data \<Rightarrow> ustr \<Rightarrow> line list \<Rightarrow> (nat \<times> nat) list" where
  "protected_ranges ud t ls = merge_ranges (raw_ranges ud t ls)"

definition is_protected :: "nat \<Rightarrow> (nat \<times> nat) list \<Rightarrow> bool" where
  "is_protected position ranges = (\<exists>(s, e) \<in> set ranges. s \<le> position \<and> position < e)"

section \<open>Numbers and completeness tests\<close>

text \<open>\<open>str.upper\<close> on the characters the Roman alternative matches.\<close>

definition roman_upper :: "nat \<Rightarrow> nat" where
  "roman_upper c = (if is_ascii_lower c then c - 32 else if c = 305 then 73 else c)"

definition roman_value :: "nat \<Rightarrow> nat option" where
  "roman_value c = map_of [(73, 1), (86, 5), (88, 10), (76, 50), (67, 100), (68, 500), (77, 1000)] c"

fun roman_loop :: "nat list \<Rightarrow> int \<Rightarrow> nat \<Rightarrow> int" where
  "roman_loop [] acc prev = acc"
| "roman_loop (n # ns) acc prev = roman_loop ns (if n < prev then acc - int n else acc + int n) (max prev n)"

definition roman_to_int :: "ustr \<Rightarrow> int option" where
  "roman_to_int v =
     (let u = map roman_upper v in
      if u = [] \<or> (\<exists>c \<in> set u. roman_value c = None) then None
      else Some (roman_loop (map (\<lambda>c. the (roman_value c)) (rev u)) 0 0))"

text \<open>\<open>int(value)\<close> on decimal digits; the interpreter rejects more than 4300 of them.\<close>

definition parse_decimal :: "unicode_data \<Rightarrow> ustr \<Rightarrow> int res" where
  "parse_decimal ud v =
     raise_if (length v > 4300) (ValueError ''Exceeds the limit for integer string conversion'')
     (Inr (foldl (\<lambda>acc c. 10 * acc + (case decimal_value ud c of Some d \<Rightarrow> int d | None \<Rightarrow> 0)) 0 v))"

definition marker_number :: "unicode_data \<Rightarrow> ustr \<Rightarrow> int option res" where
  "marker_number ud v =
     (if v \<noteq> [] \<and> (\<forall>c \<in> set v. is_decimal ud c) then ebind (parse_decimal ud v) (\<lambda>n. Inr (Some n))
      else Inr (roman_to_int v))"

definition code_block_re :: re where
  "code_block_re = cat [word ''```'', Rep False 0 None (Cls (\<lambda>_. True)), word ''```'']"

definition markup :: "nat \<Rightarrow> bool" where
  "markup c \<longleftrightarrow> any_of ''#*_`$[]()<>|:=+-{}'' c \<or> c = 92"

text \<open>Removing single characters is filtering.\<close>

definition substantive_length :: "ustr \<Rightarrow> nat" where
  "substantive_length v = length (filter (\<lambda>c. \<not> is_space c) (filter (\<lambda>c. \<not> markup c) (re_remove code_block_re v)))"

definition count_char :: "char \<Rightarrow> ustr \<Rightarrow> nat" where
  "count_char x v = length (filter (\<lambda>c. c = of_char x) v)"

definition ends_complete :: "ustr \<Rightarrow> bool" where
  "ends_complete v =
     (let stripped = rstrip v in
      stripped \<noteq> [] \<and>
      \<not> (any_of '':,;='' (last stripped) \<or> last stripped \<in> {65306, 65292, 65307, 92}) \<and>
      (let without_display = re_remove dollars_re stripped in
       even (length (re_finditer (Cat (NotBehind (\<lambda>c. c = 92)) (one 36)) without_display 0))) \<and>
      count_char CHR ''('' stripped \<le> count_char CHR '')'' stripped \<and>
      count_char CHR ''['' stripped \<le> count_char CHR '']'' stripped \<and>
      count_char CHR ''{'' stripped \<le> count_char CHR ''}'' stripped)"

definition first_marker_boundary_allowed :: "ustr \<Rightarrow> nat \<Rightarrow> nat \<Rightarrow> bool" where
  "first_marker_boundary_allowed t position minimum =
     (substantive_length (take position t) \<ge> minimum \<and> ends_complete (take position t))"

text \<open>Runs of at least two markers with increasing numbers, in order.\<close>

fun increasing_loop :: "marker list \<Rightarrow> marker list \<Rightarrow> marker list list" where
  "increasing_loop current [] = (if length current \<ge> 2 then [current] else [])"
| "increasing_loop current (m # ms) =
     (if mk_number (last current) < mk_number m then increasing_loop (current @ [m]) ms
      else (if length current \<ge> 2 then [current] else []) @ increasing_loop [m] ms)"

definition increasing_runs :: "marker list \<Rightarrow> marker list list" where
  "increasing_runs ms = (case ms of [] \<Rightarrow> [] | m # rest \<Rightarrow> increasing_loop [m] rest)"

section \<open>Boxes\<close>

text \<open>The end of the group opened before \<open>position\<close>, counting unescaped braces.\<close>

function box_end :: "ustr \<Rightarrow> nat \<Rightarrow> nat \<Rightarrow> nat option" where
  "box_end t depth position =
     (if depth = 0 then Some position
      else if position \<ge> length t then None
      else let escaped = (0 < position \<and> t ! (position - 1) = 92); c = t ! position in
        box_end t (if c = 123 \<and> \<not> escaped then Suc depth else if c = 125 \<and> \<not> escaped then depth - 1 else depth)
          (Suc position))"
  by pat_completeness auto
termination by (relation "measure (\<lambda>(t, _, position). length t - position)") auto

declare box_end.simps [simp del]

definition box_prefix :: ustr where
  "box_prefix = 92 # lit ''boxed{''"

fun box_loop :: "nat \<Rightarrow> ustr \<Rightarrow> nat \<Rightarrow> (nat \<times> nat) list" where
  "box_loop 0 t cursor = []"
| "box_loop (Suc fuel) t cursor =
     (case py_find t box_prefix cursor of
        None \<Rightarrow> []
      | Some start \<Rightarrow>
          (case box_end t 1 (start + length box_prefix) of
             None \<Rightarrow> []
           | Some e \<Rightarrow> (start, e) # box_loop fuel t e))"

definition balanced_boxes :: "ustr \<Rightarrow> (nat \<times> nat) list" where
  "balanced_boxes t = box_loop (Suc (length t)) t 0"

definition semantic_end_re :: re where
  "semantic_end_re = cat [alts [Cls (\<lambda>c. any_of ''.!?'' c \<or> c = 12290 \<or> c = 65281 \<or> c = 65311),
       Cat (NotBehind (\<lambda>c. c = 92)) (one 36), Cat (one 92) (chr CHR '']''), Cat (one 92) (chr CHR '')''),
       cat [one 92, word ''end{'', some (Cls (\<lambda>c. c \<noteq> 123 \<and> c \<noteq> 125)), chr CHR ''}''],
       word ''```'', word ''~~~''],
     many (Cls is_space), Text_End]"

definition ends_semantic_unit :: "ustr \<Rightarrow> bool" where
  "ends_semantic_unit v =
     (let stripped = rstrip v in
      ends_complete stripped \<and>
      (let boxes = balanced_boxes stripped in
       (boxes \<noteq> [] \<and> snd (last boxes) = length stripped) \<or> re_search semantic_end_re stripped 0 \<noteq> None))"

text \<open>The prefix of a run whose members are long enough and, for the last one, closed.\<close>

fun complete_run_prefix :: "ustr \<Rightarrow> marker list \<Rightarrow> nat \<Rightarrow> marker list" where
  "complete_run_prefix t [] minimum = []"
| "complete_run_prefix t (m # ms) minimum =
     (let e = (case ms of [] \<Rightarrow> length t | next # _ \<Rightarrow> mk_position next);
          segment = slice (mk_position m) e t in
      if substantive_length segment < minimum then []
      else if ms = [] \<and> \<not> ends_semantic_unit segment then []
      else m # complete_run_prefix t ms minimum)"

section \<open>Boundary detectors\<close>

text \<open>
  The lines a detector considers: unprotected ones. A detector yields one marker per line it
  recognises; only \<open>int\<close> can raise.
\<close>

definition unprotected :: "line list \<Rightarrow> (nat \<times> nat) list \<Rightarrow> line list" where
  "unprotected ls protected = filter (\<lambda>l. \<not> is_protected (ln_start l) protected) ls"

fun collect :: "(line \<Rightarrow> marker option res) \<Rightarrow> line list \<Rightarrow> marker list res" where
  "collect f [] = Inr []"
| "collect f (l # ls) = ebind (f l) (\<lambda>m. ebind (collect f ls) (\<lambda>ms. Inr (case m of None \<Rightarrow> ms | Some x \<Rightarrow> x # ms)))"

text \<open>\<open>line.text.rstrip("\r\n")\<close>\<close>

definition chomp :: "ustr \<Rightarrow> ustr" where
  "chomp v = rstrip_by (\<lambda>c. c = 13 \<or> c = 10) v"

definition group_or :: "ustr \<Rightarrow> ustr \<Rightarrow> string \<Rightarrow> match_object \<Rightarrow> ustr" where
  "group_or dflt t name m = (case group t name m of None \<Rightarrow> dflt | Some v \<Rightarrow> v)"

abbreviation group_text :: "ustr \<Rightarrow> string \<Rightarrow> match_object \<Rightarrow> ustr" where
  "group_text \<equiv> group_or []"

definition consecutive :: "marker list \<Rightarrow> bool" where
  "consecutive r = (\<forall>(a, b) \<in> set (zip r (tl r)). mk_number b = mk_number a + 1)"

definition run_boundaries :: "ustr \<Rightarrow> marker list \<Rightarrow> boundary list" where
  "run_boundaries t r =
     map (\<lambda>(_, m). \<lparr>bd_position = mk_position m, bd_reason = mk_reason m, bd_confidence = ''hard''\<rparr>)
       (filter (\<lambda>(i, m). \<not> (i = 0 \<and> \<not> first_marker_boundary_allowed t (mk_position m) 80)) (py_enumerate r))"

definition shallowest_runs :: "marker list list \<Rightarrow> marker list list" where
  "shallowest_runs runs =
     (if runs = [] then [] else
      let shallowest = Min (set (map (\<lambda>r. mk_level (hd r)) runs)) in filter (\<lambda>r. mk_level (hd r) = shallowest) runs)"

definition levels :: "marker list \<Rightarrow> nat list" where
  "levels ms = sort (remdups (map mk_level ms))"

definition at_level :: "nat \<Rightarrow> marker list \<Rightarrow> marker list" where
  "at_level level ms = filter (\<lambda>m. mk_level m = level) ms"

text \<open>\<open>match.group("family").lower()\<close> on what the pattern matches.\<close>

definition py_lower :: "ustr \<Rightarrow> ustr" where
  "py_lower v = concat (map (\<lambda>c. if c = 304 then [105, 775] else if c = 8490 then [107] else [ascii_lower c]) v)"

function remove_all :: "ustr \<Rightarrow> ustr \<Rightarrow> ustr" where
  "remove_all p t =
     (if t = [] then [] else if p \<noteq> [] \<and> starts_with t p then remove_all p (drop (length p) t) else hd t # remove_all p (tl t))"
  by pat_completeness auto
termination by (relation "measure (\<lambda>(_, t). length t)") auto

declare remove_all.simps [simp del]

definition explicit_marker :: "unicode_data \<Rightarrow> line \<Rightarrow> marker option res" where
  "explicit_marker ud l =
     (let t = ln_text l in
      case re_match (explicit_step_re ud) t of
        None \<Rightarrow> Inr None
      | Some m \<Rightarrow>
          if group_text t ''indent'' m \<noteq> [] then Inr None else
          ebind (marker_number ud (group_text t ''number'' m)) (\<lambda>number.
          case number of
            None \<Rightarrow> Inr None
          | Some n \<Rightarrow>
              let family = remove_all (lit ''solution '') (py_lower (group_text t ''family'' m));
                  level = length (group_text t ''heading'' m) in
              if family = lit ''case'' \<and> level = 0 then Inr None
              else Inr (Some \<lparr>mk_position = ln_start l, mk_family = family, mk_number = n, mk_level = level,
                              mk_reason = ''explicit_step_sequence''\<rparr>)))"

definition explicit_boundaries :: "unicode_data \<Rightarrow> ustr \<Rightarrow> line list \<Rightarrow> (nat \<times> nat) list \<Rightarrow> boundary list res" where
  "explicit_boundaries ud t ls protected =
     ebind (collect (explicit_marker ud) (unprotected ls protected)) (\<lambda>markers.
     let signatures = sort (remdups (map (\<lambda>m. (mk_family m, mk_level m)) markers));
         siblings = map (\<lambda>(f, h). filter (\<lambda>m. mk_family m = f \<and> mk_level m = h) markers) signatures;
         runs = filter (\<lambda>r. length r \<ge> 2) (map (\<lambda>r. complete_run_prefix t r 28) (concat (map increasing_runs siblings)))
     in Inr (concat (map (run_boundaries t) (shallowest_runs runs))))"

text \<open>The three detectors of numbered headings share their marker.\<close>

definition numbered_marker :: "unicode_data \<Rightarrow> re \<Rightarrow> string \<Rightarrow> line \<Rightarrow> marker option res" where
  "numbered_marker ud pattern name l =
     (let t = chomp (ln_text l) in
      case re_match pattern t of
        None \<Rightarrow> Inr None
      | Some m \<Rightarrow>
          if group_text t ''indent'' m \<noteq> [] then Inr None else
          ebind (parse_decimal ud (group_text t ''number'' m)) (\<lambda>n.
          Inr (Some \<lparr>mk_position = ln_start l, mk_family = lit name, mk_number = n,
                     mk_level = length (group_text t ''heading'' m), mk_reason = name @ ''_sequence''\<rparr>)))"

definition bold_numbered_heading_boundaries ::
  "unicode_data \<Rightarrow> ustr \<Rightarrow> line list \<Rightarrow> (nat \<times> nat) list \<Rightarrow> boundary list res" where
  "bold_numbered_heading_boundaries ud t ls protected =
     ebind (collect (numbered_marker ud (bold_numbered_heading_re ud) ''bold_numbered_heading'') (unprotected ls protected)) (\<lambda>markers.
     let runs = filter consecutive (concat (map (\<lambda>h. increasing_runs (at_level h markers)) (levels markers)));
         complete = filter (\<lambda>r. length r \<ge> 2) (map (\<lambda>r. complete_run_prefix t r 80) runs)
     in Inr (concat (map (run_boundaries t) complete)))"

definition markdown_numbered_heading_boundaries ::
  "unicode_data \<Rightarrow> ustr \<Rightarrow> line list \<Rightarrow> (nat \<times> nat) list \<Rightarrow> boundary list res" where
  "markdown_numbered_heading_boundaries ud t ls protected =
     ebind (collect (numbered_marker ud (markdown_numbered_heading_re ud) ''markdown_numbered_heading'') (unprotected ls protected)) (\<lambda>markers.
     let runs = filter consecutive (concat (map (\<lambda>h. increasing_runs (at_level h markers)) (levels markers)));
         complete = filter (\<lambda>r. length r \<ge> 2) (map (\<lambda>r. complete_run_prefix t r 60) runs)
     in Inr (concat (map (run_boundaries t) (shallowest_runs complete))))"

definition labelled_position :: "unicode_data \<Rightarrow> line \<Rightarrow> bool" where
  "labelled_position ud l =
     (let t = chomp (ln_text l) in
      case re_match (numbered_bold_label_re ud) t of
        None \<Rightarrow> False
      | Some m \<Rightarrow> group_text t ''indent'' m = [] \<and> re_search (reasoning_label_re ud) (group_text t ''title'' m) 0 \<noteq> None)"

definition numbered_reasoning_boundaries ::
  "unicode_data \<Rightarrow> ustr \<Rightarrow> line list \<Rightarrow> (nat \<times> nat) list \<Rightarrow> boundary list res" where
  "numbered_reasoning_boundaries ud t ls protected =
     ebind (collect (numbered_marker ud (numbered_bold_label_re ud) ''numbered_reasoning'') (unprotected ls protected)) (\<lambda>markers.
     let labelled = set (map ln_start (filter (labelled_position ud) (unprotected ls protected)));
         runs = filter consecutive (increasing_runs markers);
         complete = filter (\<lambda>r. length r \<ge> 2) (map (\<lambda>r. complete_run_prefix t r 80) runs);
         chosen = filter (\<lambda>r. let k = length (filter (\<lambda>m. mk_position m \<in> labelled) r) in k \<ge> 2 \<and> k * 2 \<ge> length r) complete
     in Inr (concat (map (run_boundaries t) chosen)))"

definition normalized_heading_title :: "ustr \<Rightarrow> ustr" where
  "normalized_heading_title v =
     (let marks = Alt (rep 1 2 star) (rep 1 2 (chr CHR ''_''));
          v = re_remove (cat [Text_Start, marks, many blank]) (strip v);
          v = re_remove (cat [many blank, marks, Ahead (cat [many blank, opt (Cls dot_or_colon), many blank, Text_End])]) v
      in strip (rstrip_by dot_or_colon (strip v)))"

definition is_semantic_heading :: "unicode_data \<Rightarrow> ustr \<Rightarrow> bool \<Rightarrow> bool" where
  "is_semantic_heading ud raw_title require_process_label =
     (let title = normalized_heading_title (strip raw_title) in
      title \<noteq> [] \<and> length title \<le> 120 \<and>
      \<not> (hd title \<in> {34, 39, 8220, 8216, 8594, 8658} \<or> starts_with title (lit ''=>'')) \<and>
      re_match option_heading_re title = None \<and>
      \<not> re_fullmatch non_reasoning_heading_re title \<and>
      re_match (cat [Text_Start, some (digit ud), dot_paren, some blank]) title = None \<and>
      re_match (explicit_step_re ud) title = None \<and> re_match (final_heading_re ud) title = None \<and>
      substantive_length title \<ge> 3 \<and>
      (\<not> require_process_label \<or> re_search (reasoning_label_re ud) title 0 \<noteq> None \<or>
        re_search (structured_component_heading_re ud) title 0 \<noteq> None))"

text \<open>
  The scan for authored headings: the Markdown and the bold markers, each numbered by its place in
  its own list. A line that is a Markdown heading is not tried as a bold one.
\<close>

definition authored_heading :: "re \<Rightarrow> ustr \<Rightarrow> match_object option" where
  "authored_heading pattern t =
     (case re_match pattern t of None \<Rightarrow> None | Some m \<Rightarrow> if group_text t ''indent'' m = [] then Some m else None)"

fun heading_scan :: "unicode_data \<Rightarrow> line list \<Rightarrow> marker list \<times> marker list \<Rightarrow> marker list \<times> marker list" where
  "heading_scan ud [] acc = acc"
| "heading_scan ud (l # ls) (markdown, bold) =
     (let t = chomp (ln_text l) in
      heading_scan ud ls
        (case authored_heading markdown_heading_re t of
           Some m \<Rightarrow>
             if is_semantic_heading ud (group_text t ''title'' m) False
             then (markdown @ [\<lparr>mk_position = ln_start l, mk_family = lit ''semantic_markdown_heading'',
                     mk_number = int (length markdown) + 1, mk_level = length (group_text t ''heading'' m),
                     mk_reason = ''semantic_heading_sequence''\<rparr>], bold)
             else (markdown, bold)
         | None \<Rightarrow>
             (case authored_heading bold_heading_re t of
                Some m \<Rightarrow>
                  if is_semantic_heading ud (group_text t ''title'' m) True
                  then (markdown, bold @ [\<lparr>mk_position = ln_start l, mk_family = lit ''semantic_bold_heading'',
                          mk_number = int (length bold) + 1, mk_level = 0, mk_reason = ''semantic_heading_sequence''\<rparr>])
                  else (markdown, bold)
              | None \<Rightarrow> (markdown, bold))))"

definition semantic_heading_boundaries ::
  "unicode_data \<Rightarrow> ustr \<Rightarrow> line list \<Rightarrow> (nat \<times> nat) list \<Rightarrow> boundary list res" where
  "semantic_heading_boundaries ud t ls protected =
     (let (markdown, bold) = heading_scan ud (unprotected ls protected) ([], []);
          valid = filter (\<lambda>r. length r \<ge> 2) (map (\<lambda>h. complete_run_prefix t (at_level h markdown) 50) (levels markdown));
          complete_bold = complete_run_prefix t bold 60;
          runs = (if valid \<noteq> [] then shallowest_runs valid else if length complete_bold \<ge> 2 then [complete_bold] else [])
      in Inr (concat (map (run_boundaries t) runs)))"

section \<open>The final answer\<close>

definition final_answer_boundary ::
  "unicode_data \<Rightarrow> ustr \<Rightarrow> line list \<Rightarrow> (nat \<times> nat) list \<Rightarrow> (nat \<times> nat) option \<Rightarrow> boundary option" where
  "final_answer_boundary ud t ls protected final_box =
     (case final_box of
        None \<Rightarrow> None
      | Some (b, e) \<Rightarrow>
          let candidates = map ln_start (filter (\<lambda>l. ln_start l \<le> b \<and> \<not> is_protected (ln_start l) protected \<and>
                             re_match (final_heading_re ud) (ln_text l) \<noteq> None) ls) in
          if candidates = [] then None
          else let position = Max (set candidates) in
            if position = 0 \<or> substantive_length (slice position e t) < 4 then None
            else Some \<lparr>bd_position = position, bd_reason = ''final_answer_heading'', bd_confidence = ''hard''\<rparr>)"

definition separator_re :: re where
  "separator_re = cat [opt (one 13), one 10, many blank, some (Cat (opt (one 13)) (one 10))]"

definition final_answer_paragraph_boundary ::
  "ustr \<Rightarrow> (nat \<times> nat) list \<Rightarrow> (nat \<times> nat) option \<Rightarrow> boundary option" where
  "final_answer_paragraph_boundary t protected final_box =
     (case final_box of
        None \<Rightarrow> None
      | Some (b, e) \<Rightarrow>
          let separators = re_finditer separator_re (take b t) 0 in
          if separators = [] then None
          else let position = fst (snd (last separators)) in
            if position = 0 \<or> position \<ge> b \<or> is_protected position protected then None
            else let prefix = take position t in
              if substantive_length prefix < 80 \<or> \<not> ends_semantic_unit prefix then None
              else let lead = slice position b t; tail = drop e t in
                if substantive_length tail > 0 then None
                else let lead_length = substantive_length lead;
                         cued = (re_match final_paragraph_cue_re (lstrip lead) \<noteq> None) in
                  if \<not> lead_length \<le> 48 \<and> \<not> (cued \<and> lead_length \<le> 320) then None
                  else Some \<lparr>bd_position = position, bd_reason = ''final_answer_paragraph'', bd_confidence = ''hard''\<rparr>)"

section \<open>Assembling the steps\<close>

text \<open>The first boundary of a position is kept, unless a hard one replaces a soft one.\<close>

definition keep_boundary :: "boundary \<Rightarrow> (nat \<times> boundary) list \<Rightarrow> (nat \<times> boundary) list" where
  "keep_boundary b d =
     (case dict_get (bd_position b) d of
        None \<Rightarrow> dict_put (bd_position b) b d
      | Some p \<Rightarrow> if bd_confidence p = ''soft'' \<and> bd_confidence b = ''hard'' then dict_put (bd_position b) b d else d)"

definition deduplicate_boundaries :: "boundary list \<Rightarrow> boundary list" where
  "deduplicate_boundaries bs =
     (let by_position = fold keep_boundary bs [] in map snd (sort_key fst by_position))"

fun first_detection :: "(unit \<Rightarrow> boundary list res) list \<Rightarrow> boundary list res" where
  "first_detection [] = Inr []"
| "first_detection (d # ds) = ebind (d ()) (\<lambda>bs. if bs \<noteq> [] then Inr bs else first_detection ds)"

definition candidate_boundaries ::
  "unicode_data \<Rightarrow> ustr \<Rightarrow> line list \<Rightarrow> (nat \<times> nat) list \<Rightarrow> (nat \<times> nat) option \<Rightarrow> boundary list res" where
  "candidate_boundaries ud t ls protected final_box =
     ebind (first_detection
       [\<lambda>_. explicit_boundaries ud t ls protected,
        \<lambda>_. markdown_numbered_heading_boundaries ud t ls protected,
        \<lambda>_. bold_numbered_heading_boundaries ud t ls protected,
        \<lambda>_. numbered_reasoning_boundaries ud t ls protected,
        \<lambda>_. semantic_heading_boundaries ud t ls protected]) (\<lambda>candidates.
     let final = (case final_answer_boundary ud t ls protected final_box of
                    Some b \<Rightarrow> Some b | None \<Rightarrow> final_answer_paragraph_boundary t protected final_box);
         all = candidates @ (case final of None \<Rightarrow> [] | Some b \<Rightarrow> [b])
     in Inr (filter (\<lambda>b. 0 < bd_position b \<and> bd_position b < length t \<and> \<not> is_protected (bd_position b) protected)
              (deduplicate_boundaries all)))"

fun build_steps :: "ustr \<Rightarrow> (nat \<times> nat) option \<Rightarrow> nat \<Rightarrow> boundary list \<Rightarrow> text_step list" where
  "build_steps t final_box index [] = []"
| "build_steps t final_box index (b # bs) =
     (let start = bd_position b;
          e = (case bs of [] \<Rightarrow> length t | next # _ \<Rightarrow> bd_position next) in
      if start \<ge> e then build_steps t final_box index bs
      else \<lparr>ts_index = index, ts_char_start = start, ts_char_end = e, ts_text = slice start e t,
             ts_kind = (case final_box of Some (f, _) \<Rightarrow> if start \<le> f \<and> f < e then ''final_answer'' else ''reasoning''
                        | None \<Rightarrow> ''reasoning''),
             ts_boundary_reason = bd_reason b, ts_confidence = bd_confidence b\<rparr>
           # build_steps t final_box (Suc index) bs)"

definition split_text_steps :: "unicode_data \<Rightarrow> ustr \<Rightarrow> text_step list res" where
  "split_text_steps ud t =
     (if t = [] then Inr []
      else let ls = lines_of t;
               protected = protected_ranges ud t ls;
               boxes = balanced_boxes t;
               final_box = (if boxes = [] then None else Some (last boxes)) in
        ebind (candidate_boundaries ud t ls protected final_box) (\<lambda>candidates.
        let steps = build_steps t final_box 0
              (\<lparr>bd_position = 0, bd_reason = ''start'', bd_confidence = ''hard''\<rparr> # candidates) in
        raise_if (concat (map ts_text steps) \<noteq> t)
          (RuntimeError ''Text steps do not exactly recover the source response'') (Inr steps)))"

end
