(* ===== verification/Split_Correct.thy ===== *)
theory Split_Correct
  imports Step_Splitter "HOL-Library.Code_Target_Nat"
begin

text \<open>
  Correctness of the text splitter: merged ranges protect what the detectors reported, every
  boundary lies outside them, and the steps are a partition of the text that always exists
  unless the text contains more decimal digits than \<open>int\<close> accepts.
\<close>

section \<open>Merged ranges\<close>

lemma is_protected_Nil [simp]: "\<not> is_protected p []"
  by (simp add: is_protected_def)

lemma is_protected_append [simp]: "is_protected p (xs @ ys) \<longleftrightarrow> is_protected p xs \<or> is_protected p ys"
  by (auto simp: is_protected_def)

lemma is_protected_Cons [simp]: "is_protected p ((s, e) # xs) \<longleftrightarrow> (s \<le> p \<and> p < e) \<or> is_protected p xs"
  by (auto simp: is_protected_def)

lemma merge_into_protects:
  assumes "merged \<noteq> [] \<longrightarrow> fst (last merged) \<le> s"
  shows "is_protected p (merge_into (s, e) merged) \<longleftrightarrow> is_protected p merged \<or> (s \<le> p \<and> p < e)"
    "merge_into (s, e) merged \<noteq> [] \<longrightarrow> fst (last (merge_into (s, e) merged)) \<le> s"
proof -
  have "(is_protected p (merge_into (s, e) merged) \<longleftrightarrow> is_protected p merged \<or> (s \<le> p \<and> p < e)) \<and>
    (merge_into (s, e) merged \<noteq> [] \<longrightarrow> fst (last (merge_into (s, e) merged)) \<le> s)"
  proof (cases "merged = []")
    case False
    then obtain init a b where m: "merged = init @ [(a, b)]" by (metis append_butlast_last_id surj_pair)
    then show ?thesis using assms by auto
  qed auto
  then show "is_protected p (merge_into (s, e) merged) \<longleftrightarrow> is_protected p merged \<or> (s \<le> p \<and> p < e)"
    "merge_into (s, e) merged \<noteq> [] \<longrightarrow> fst (last (merge_into (s, e) merged)) \<le> s" by blast+
qed

lemma merge_fold_protects:
  "sorted xs \<Longrightarrow> merged \<noteq> [] \<longrightarrow> (\<forall>x \<in> set xs. fst (last merged) \<le> fst x) \<Longrightarrow>
   is_protected p (fold merge_into xs merged) \<longleftrightarrow> is_protected p merged \<or> is_protected p xs"
proof (induction xs arbitrary: merged)
  case (Cons x xs)
  obtain s e where x: "x = (s, e)" by (cases x)
  have "merged \<noteq> [] \<longrightarrow> fst (last merged) \<le> s" using Cons.prems(2) x by auto
  note m = merge_into_protects [OF this]
  have "\<forall>y \<in> set xs. s \<le> fst y" using Cons.prems(1) x by (auto simp: less_eq_prod_def)
  then have "merge_into (s, e) merged \<noteq> [] \<longrightarrow> (\<forall>y \<in> set xs. fst (last (merge_into (s, e) merged)) \<le> fst y)"
    using m(2) by (meson le_trans)
  then have "is_protected p (fold merge_into xs (merge_into (s, e) merged)) \<longleftrightarrow>
      is_protected p (merge_into (s, e) merged) \<or> is_protected p xs"
    using Cons.IH Cons.prems(1) by simp
  then show ?case unfolding x fold_simps m(1) by auto
qed simp

lemma is_protected_merge [simp]: "is_protected p (merge_ranges rs) \<longleftrightarrow> is_protected p rs"
  using merge_fold_protects [of "sort rs" "[]" p] by (simp add: merge_ranges_def is_protected_def)

section \<open>Marker detectors\<close>

text \<open>
  What the detectors have in common: a marker sits at the start of its line, and only a number
  with more decimal digits than \<open>int\<close> accepts makes a detector raise.
\<close>

abbreviation decimals :: "unicode_data \<Rightarrow> ustr \<Rightarrow> nat" where
  "decimals ud v \<equiv> length (filter (is_decimal ud) v)"

locale marker_detector =
  fixes recognise :: "unicode_data \<Rightarrow> line \<Rightarrow> marker option res"
  assumes at_line: "recognise ud l = Inr (Some m) \<Longrightarrow> mk_position m = ln_start l"
    and total: "decimals ud (ln_text l) \<le> 4300 \<Longrightarrow> \<exists>r. recognise ud l = Inr r"
begin

lemma collect_positions:
  "collect (recognise ud) ls = Inr ms \<Longrightarrow> mk_position ` set ms \<subseteq> ln_start ` set ls"
proof (induction ls arbitrary: ms)
  case (Cons l ls)
  then obtain m ms' where m: "recognise ud l = Inr m" "collect (recognise ud) ls = Inr ms'"
    "ms = (case m of None \<Rightarrow> ms' | Some x \<Rightarrow> x # ms')"
    by (auto simp: ebind_Inr)
  show ?case using Cons.IH [OF m(2)] m(1,3) at_line by (cases m) auto
qed simp

lemma collect_total:
  "\<forall>l \<in> set ls. decimals ud (ln_text l) \<le> 4300 \<Longrightarrow> \<exists>ms. collect (recognise ud) ls = Inr ms"
proof (induction ls)
  case (Cons l ls)
  have "decimals ud (ln_text l) \<le> 4300" using Cons.prems by simp
  then obtain r where r: "recognise ud l = Inr r" using total by blast
  obtain ms where ms: "collect (recognise ud) ls = Inr ms" using Cons by auto
  show ?case by (simp add: r ms)
qed simp

end

lemma decimals_slice: "decimals ud (slice i j v) \<le> decimals ud v"
proof -
  have "decimals ud v = decimals ud (take i v) + decimals ud (drop i v)"
    by (metis append_take_drop_id filter_append length_append)
  also have "decimals ud (drop i v) = decimals ud (slice i j v) + decimals ud (drop (j - i) (drop i v))"
    unfolding slice_def by (metis append_take_drop_id filter_append length_append)
  finally show ?thesis by simp
qed

lemma decimals_concat: "l \<in> set ls \<Longrightarrow> decimals ud l \<le> decimals ud (concat ls)"
  by (induction ls) auto

lemma decimals_chomp: "decimals ud (chomp v) \<le> decimals ud v"
proof -
  have "v = chomp v @ rev (takeWhile (\<lambda>c. c = 13 \<or> c = 10) (rev v))"
    unfolding chomp_def rstrip_by_def by (simp flip: rev_append)
  then have "decimals ud v = decimals ud (chomp v) + decimals ud (rev (takeWhile (\<lambda>c. c = 13 \<or> c = 10) (rev v)))"
    by (metis filter_append length_append)
  then show ?thesis by simp
qed

lemma parse_decimal_total: "length v \<le> 4300 \<Longrightarrow> \<exists>n. parse_decimal ud v = Inr n"
  by (simp add: parse_decimal_def)

lemma group_text_decimals: "decimals ud (group_text v name m) \<le> decimals ud v"
  using decimals_slice by (auto simp: group_or_def group_def split: option.splits)

lemma explicit_marker_position:
  assumes "explicit_marker ud l = Inr (Some m)"
  shows "mk_position m = ln_start l"
proof -
  obtain m' where m': "re_match (explicit_step_re ud) (ln_text l) = Some m'"
    using assms by (cases "re_match (explicit_step_re ud) (ln_text l)") (simp_all only: explicit_marker_def Let_def option.case sum.inject option.distinct)
  obtain number where n: "marker_number ud (group_text (ln_text l) ''number'' m') = Inr number"
    using assms by (cases "marker_number ud (group_text (ln_text l) ''number'' m')")
      (simp_all only: explicit_marker_def Let_def m' option.case ebind.simps sum.distinct if_distrib split: if_split_asm, blast)
  show ?thesis
    using assms by (cases number)
      (simp_all only: explicit_marker_def Let_def m' n option.case ebind.simps sum.inject option.distinct option.inject split: if_split_asm, auto)
qed

lemma marker_number_total:
  assumes "decimals ud v \<le> 4300"
  shows "\<exists>n. marker_number ud v = Inr n"
proof (cases "v \<noteq> [] \<and> (\<forall>c \<in> set v. is_decimal ud c)")
  case True
  then have "length v \<le> 4300" using assms by (simp add: filter_id_conv [THEN iffD2])
  then show ?thesis using parse_decimal_total [of v ud] True by (auto simp: marker_number_def)
qed (auto simp: marker_number_def)

lemma explicit_marker_total:
  assumes "decimals ud (ln_text l) \<le> 4300"
  shows "\<exists>r. explicit_marker ud l = Inr r"
proof (cases "re_match (explicit_step_re ud) (ln_text l)")
  case (Some m)
  obtain n where "marker_number ud (group_text (ln_text l) ''number'' m) = Inr n"
    using marker_number_total group_text_decimals assms le_trans by meson
  then show ?thesis by (cases n) (simp_all only: explicit_marker_def Let_def Some option.case ebind.simps, metis+)
qed (simp add: explicit_marker_def)

lemma numbered_marker_position: "numbered_marker ud r name l = Inr (Some m) \<Longrightarrow> mk_position m = ln_start l"
  by (auto simp: numbered_marker_def Let_def ebind_Inr split: option.splits if_splits)

lemma numbered_marker_total:
  assumes "decimals ud (ln_text l) \<le> 4300" and "group_class ''number'' (is_decimal ud) r"
  shows "\<exists>x. numbered_marker ud r name l = Inr x"
proof (cases "re_match r (chomp (ln_text l))")
  case (Some m)
  let ?v = "group_text (chomp (ln_text l)) ''number'' m"
  have "\<forall>c \<in> set ?v. is_decimal ud c"
    using re_match_group_class [OF Some assms(2)]
    by (cases "group (chomp (ln_text l)) ''number'' m") (simp_all add: group_or_def)
  then have "length ?v = decimals ud ?v" by (simp add: filter_id_conv [THEN iffD2])
  also have "\<dots> \<le> 4300" using group_text_decimals decimals_chomp assms(1) le_trans by meson
  finally obtain n where "parse_decimal ud ?v = Inr n" using parse_decimal_total by blast
  then show ?thesis by (simp add: numbered_marker_def Some Let_def)
qed (simp add: numbered_marker_def)

interpretation explicit: marker_detector explicit_marker
  by unfold_locales (fact explicit_marker_position, fact explicit_marker_total)

interpretation bold_numbered: marker_detector
    "\<lambda>ud. numbered_marker ud (bold_numbered_heading_re ud) ''bold_numbered_heading''"
  by unfold_locales (fact numbered_marker_position,
    rule numbered_marker_total, assumption, auto simp: bold_numbered_heading_re_def)

interpretation markdown_numbered: marker_detector
    "\<lambda>ud. numbered_marker ud (markdown_numbered_heading_re ud) ''markdown_numbered_heading''"
  by unfold_locales (fact numbered_marker_position,
    rule numbered_marker_total, assumption, auto simp: markdown_numbered_heading_re_def)

interpretation numbered_label: marker_detector
    "\<lambda>ud. numbered_marker ud (numbered_bold_label_re ud) ''numbered_reasoning''"
  by unfold_locales (fact numbered_marker_position,
    rule numbered_marker_total, assumption, auto simp: numbered_bold_label_re_def)

section \<open>Where boundaries come from\<close>

lemma heading_scan_positions:
  "mk_position ` (set (fst (heading_scan ud ls acc)) \<union> set (snd (heading_scan ud ls acc))) \<subseteq>
     ln_start ` set ls \<union> mk_position ` (set (fst acc) \<union> set (snd acc))"
proof (induction ud ls acc rule: heading_scan.induct)
  case (2 ud l ls markdown bold)
  show ?case unfolding heading_scan.simps Let_def
    by (rule subset_trans [OF 2 [OF refl]]) (auto split: option.splits)
qed simp

lemma increasing_loop_set: "r \<in> set (increasing_loop cur ms) \<Longrightarrow> set r \<subseteq> set cur \<union> set ms"
proof (induction cur ms rule: increasing_loop.induct)
  case (1 cur)
  then show ?case by (simp split: if_splits)
next
  case (2 cur m ms)
  show ?case
  proof (cases "mk_number (last cur) < mk_number m")
    case True
    then show ?thesis using 2(1) [OF True] 2(3) by simp
  next
    case False
    then have "r = cur \<or> r \<in> set (increasing_loop [m] ms)" using 2(3) by (auto split: if_splits)
    then show ?thesis using 2(2) [OF False] by auto
  qed
qed

lemma increasing_runs_set: "r \<in> set (increasing_runs ms) \<Longrightarrow> set r \<subseteq> set ms"
  using increasing_loop_set by (simp add: increasing_runs_def split: list.splits) fastforce

lemma complete_run_prefix_set: "set (complete_run_prefix t r n) \<subseteq> set r"
  by (induction t r n rule: complete_run_prefix.induct) (auto simp: Let_def)

lemma run_boundaries_positions: "bd_position ` set (run_boundaries t r) \<subseteq> mk_position ` set r"
  by (auto simp: run_boundaries_def set_py_enumerate)

lemma at_level_set: "set (at_level h ms) \<subseteq> set ms"
  by (auto simp: at_level_def)

lemma shallowest_set: "set (shallowest_runs rs) \<subseteq> set rs"
  by (auto simp: shallowest_runs_def Let_def)

text \<open>\<open>runs_in M rs\<close>: the runs consist of markers in \<open>M\<close>; every stage of a detector keeps it.\<close>

definition runs_in :: "marker set \<Rightarrow> marker list list \<Rightarrow> bool" where
  "runs_in M rs \<longleftrightarrow> (\<forall>r \<in> set rs. set r \<subseteq> M)"

lemma runs_in_filter [intro]: "runs_in M rs \<Longrightarrow> runs_in M (filter P rs)"
  by (simp add: runs_in_def)

lemma runs_in_shallowest [intro]: "runs_in M rs \<Longrightarrow> runs_in M (shallowest_runs rs)"
  using shallowest_set by (fastforce simp: runs_in_def)

lemma runs_in_prefixes [intro]: "runs_in M rs \<Longrightarrow> runs_in M (map (\<lambda>r. complete_run_prefix t r n) rs)"
  using complete_run_prefix_set by (fastforce simp: runs_in_def)

lemma runs_in_increasing [intro]: "set ms \<subseteq> M \<Longrightarrow> runs_in M (increasing_runs ms)"
  using increasing_runs_set by (fastforce simp: runs_in_def)

lemma runs_in_concat [intro]: "(\<And>x. x \<in> set xs \<Longrightarrow> runs_in M (f x)) \<Longrightarrow> runs_in M (concat (map f xs))"
  by (auto simp: runs_in_def)

lemma runs_in_Nil [simp]: "runs_in M []"
  by (simp add: runs_in_def)

lemma runs_in_Cons: "runs_in M (r # rs) \<longleftrightarrow> set r \<subseteq> M \<and> runs_in M rs"
  by (simp add: runs_in_def)

lemma runs_in_prefix_levels [intro]:
  "set ms \<subseteq> M \<Longrightarrow> runs_in M (map (\<lambda>h. complete_run_prefix t (at_level h ms) n) hs)"
  using complete_run_prefix_set at_level_set by (fastforce simp: runs_in_def)

text \<open>Boundaries of runs of markers lie at the markers.\<close>

lemma boundaries_at_markers:
  "runs_in M rs \<Longrightarrow> bd_position ` set (concat (map (run_boundaries t) rs)) \<subseteq> mk_position ` M"
  using run_boundaries_positions by (simp add: runs_in_def image_subset_iff) blast

lemma detector_positions:
  "explicit_boundaries ud t ls pr = Inr bs \<Longrightarrow> bd_position ` set bs \<subseteq> ln_start ` set (unprotected ls pr)"
  "bold_numbered_heading_boundaries ud t ls pr = Inr bs \<Longrightarrow> bd_position ` set bs \<subseteq> ln_start ` set (unprotected ls pr)"
  "markdown_numbered_heading_boundaries ud t ls pr = Inr bs \<Longrightarrow> bd_position ` set bs \<subseteq> ln_start ` set (unprotected ls pr)"
  "numbered_reasoning_boundaries ud t ls pr = Inr bs \<Longrightarrow> bd_position ` set bs \<subseteq> ln_start ` set (unprotected ls pr)"
  "semantic_heading_boundaries ud t ls pr = Inr bs \<Longrightarrow> bd_position ` set bs \<subseteq> ln_start ` set (unprotected ls pr)"
proof -
  let ?U = "unprotected ls pr"
  have at: "bd_position ` set (concat (map (run_boundaries t) rs)) \<subseteq> ln_start ` set ?U"
    if "mk_position ` set ms \<subseteq> ln_start ` set ?U" "runs_in (set ms) rs" for ms rs
    using that(1) boundaries_at_markers [OF that(2), of t] by blast
  show "explicit_boundaries ud t ls pr = Inr bs \<Longrightarrow> bd_position ` set bs \<subseteq> ln_start ` set ?U"
  proof -
    assume "explicit_boundaries ud t ls pr = Inr bs"
    then obtain ms where ms: "collect (explicit_marker ud) ?U = Inr ms"
      and bs: "bs = concat (map (run_boundaries t) (shallowest_runs (filter (\<lambda>r. 2 \<le> length r)
        (map (\<lambda>r. complete_run_prefix t r 28) (concat (map increasing_runs
          (map (\<lambda>(f, h). filter (\<lambda>m. mk_family m = f \<and> mk_level m = h) ms)
            (sort (remdups (map (\<lambda>m. (mk_family m, mk_level m)) ms))))))))))"
      by (auto simp: explicit_boundaries_def ebind_Inr Let_def)
    show ?thesis unfolding bs
      by (rule at [OF explicit.collect_positions [OF ms]]) (auto intro!: runs_in_filter runs_in_shallowest runs_in_prefixes runs_in_increasing runs_in_concat)
  qed
  show "bold_numbered_heading_boundaries ud t ls pr = Inr bs \<Longrightarrow> bd_position ` set bs \<subseteq> ln_start ` set ?U"
  proof -
    assume "bold_numbered_heading_boundaries ud t ls pr = Inr bs"
    then obtain ms where ms: "collect (numbered_marker ud (bold_numbered_heading_re ud) ''bold_numbered_heading'') ?U = Inr ms"
      and bs: "bs = concat (map (run_boundaries t) (filter (\<lambda>r. 2 \<le> length r) (map (\<lambda>r. complete_run_prefix t r 80)
        (filter consecutive (concat (map (\<lambda>h. increasing_runs (at_level h ms)) (levels ms)))))))"
      by (auto simp: bold_numbered_heading_boundaries_def ebind_Inr Let_def)
    show ?thesis unfolding bs
      by (rule at [OF bold_numbered.collect_positions [OF ms]]) (auto intro!: runs_in_filter runs_in_shallowest runs_in_prefixes runs_in_increasing runs_in_concat at_level_set)
  qed
  show "markdown_numbered_heading_boundaries ud t ls pr = Inr bs \<Longrightarrow> bd_position ` set bs \<subseteq> ln_start ` set ?U"
  proof -
    assume "markdown_numbered_heading_boundaries ud t ls pr = Inr bs"
    then obtain ms where ms: "collect (numbered_marker ud (markdown_numbered_heading_re ud) ''markdown_numbered_heading'') ?U = Inr ms"
      and bs: "bs = concat (map (run_boundaries t) (shallowest_runs (filter (\<lambda>r. 2 \<le> length r) (map (\<lambda>r. complete_run_prefix t r 60)
        (filter consecutive (concat (map (\<lambda>h. increasing_runs (at_level h ms)) (levels ms))))))))"
      by (auto simp: markdown_numbered_heading_boundaries_def ebind_Inr Let_def)
    show ?thesis unfolding bs
      by (rule at [OF markdown_numbered.collect_positions [OF ms]]) (auto intro!: runs_in_filter runs_in_shallowest runs_in_prefixes runs_in_increasing runs_in_concat at_level_set)
  qed
  show "numbered_reasoning_boundaries ud t ls pr = Inr bs \<Longrightarrow> bd_position ` set bs \<subseteq> ln_start ` set ?U"
  proof -
    assume "numbered_reasoning_boundaries ud t ls pr = Inr bs"
    then obtain ms P where ms: "collect (numbered_marker ud (numbered_bold_label_re ud) ''numbered_reasoning'') ?U = Inr ms"
      and bs: "bs = concat (map (run_boundaries t) (filter P (filter (\<lambda>r. 2 \<le> length r) (map (\<lambda>r. complete_run_prefix t r 80)
        (filter consecutive (increasing_runs ms))))))"
      by (auto simp: numbered_reasoning_boundaries_def ebind_Inr Let_def)
    show ?thesis unfolding bs
      by (rule at [OF numbered_label.collect_positions [OF ms]]) (auto intro!: runs_in_filter runs_in_shallowest runs_in_prefixes runs_in_increasing runs_in_concat at_level_set)
  qed
  show "semantic_heading_boundaries ud t ls pr = Inr bs \<Longrightarrow> bd_position ` set bs \<subseteq> ln_start ` set ?U"
  proof -
    assume b: "semantic_heading_boundaries ud t ls pr = Inr bs"
    obtain md bo where hs: "heading_scan ud ?U ([], []) = (md, bo)" by (metis surj_pair)
    let ?v = "filter (\<lambda>r. 2 \<le> length r) (map (\<lambda>h. complete_run_prefix t (at_level h md) 50) (levels md))"
    let ?c = "complete_run_prefix t bo 60"
    have bs: "bs = concat (map (run_boundaries t) (if ?v \<noteq> [] then shallowest_runs ?v else if 2 \<le> length ?c then [?c] else []))"
      using b by (simp only: semantic_heading_boundaries_def hs Let_def case_prod_conv sum.inject)
    have "bd_position ` set bs \<subseteq> mk_position ` (set md \<union> set bo)"
      unfolding bs using subsetD [OF complete_run_prefix_set]
      by (intro boundaries_at_markers) (auto intro!: runs_in_shallowest runs_in_filter runs_in_prefix_levels simp: runs_in_Cons)
    then show ?thesis using heading_scan_positions [of ud ?U "([], [])"] by (auto simp: hs)
  qed
qed

section \<open>Line starts\<close>

text \<open>\<open>after_break t p\<close>: position \<open>p\<close> is the start of the text or directly after a line break.\<close>

definition after_break :: "ustr \<Rightarrow> nat \<Rightarrow> bool" where
  "after_break t p \<longleftrightarrow> p = 0 \<or> (0 < p \<and> p \<le> length t \<and> is_line_break (t ! (p - 1)))"

lemma split_line_last:
  assumes "snd (split_line t) \<noteq> []"
  shows "is_line_break (last (fst (split_line t)))"
  using assms
proof (induction t rule: split_line.induct)
  case (2 c cs)
  show ?case
  proof (cases "c = 13 \<and> cs \<noteq> [] \<and> hd cs = 10 \<or> is_line_break c")
    case True
    then show ?thesis by (auto simp: is_line_break_def)
  next
    case False
    obtain l r where lr: "split_line cs = (l, r)" by (cases "split_line cs")
    then have "r \<noteq> []" using 2(2) False by auto
    then have "cs \<noteq> []" using lr by auto
    then have "l \<noteq> []" using split_line_nonempty [of cs] lr by simp
    have n: "\<not> (c = 13 \<and> cs \<noteq> [] \<and> hd cs = 10)" "\<not> is_line_break c" using False by blast+
    have "is_line_break (last l)" using 2(1) [OF n] lr \<open>r \<noteq> []\<close> by simp
    then show ?thesis using n lr \<open>l \<noteq> []\<close> by auto
  qed
qed simp

lemma lines_from_starts:
  assumes "after_break (p @ t) (length p)" and "l \<in> set (lines_from (length p) (splitlines t))"
  shows "after_break (p @ t) (ln_start l)"
  using assms
proof (induction t arbitrary: p rule: splitlines.induct)
  case (1 t)
  show ?case
  proof (cases "t = []")
    case True
    then show ?thesis using 1(3) by (simp add: splitlines.simps [of "[]"])
  next
    case False
    let ?x = "fst (split_line t)" and ?y = "snd (split_line t)"
    have t: "t = ?x @ ?y" by (simp add: split_line_append)
    have x: "?x \<noteq> []" using split_line_nonempty False by blast
    from 1(3) False consider "ln_start l = length p" | "l \<in> set (lines_from (length (p @ ?x)) (splitlines ?y))"
      by (auto simp: splitlines.simps [of t])
    then show ?thesis
    proof cases
      case 1
      then show ?thesis using "1.prems"(1) by simp
    next
      case 2
      then have y: "?y \<noteq> []" by (auto simp: splitlines.simps [of "[]"])
      obtain u c where u: "?x = u @ [c]" using x by (cases ?x rule: rev_cases) auto
      have "after_break ((p @ ?x) @ ?y) (length (p @ ?x))"
        using split_line_last [OF y] unfolding u by (simp add: after_break_def nth_append)
      from "1.IH" [OF False this 2] show ?thesis using t by simp
    qed
  qed
qed

lemma lines_of_starts: "l \<in> set (lines_of t) \<Longrightarrow> after_break t (ln_start l)"
  using lines_from_starts [of "[]" t l] by (simp add: lines_of_def after_break_def)

lemma lines_from_texts: "map ln_text (lines_from n ls) = ls"
  by (induction n ls rule: lines_from.induct) auto

lemma lines_of_decimals: "l \<in> set (lines_of t) \<Longrightarrow> decimals ud (ln_text l) \<le> decimals ud t"
  using decimals_concat [of "ln_text l" "splitlines t" ud] lines_from_texts [of 0 "splitlines t"]
  by (metis image_eqI lines_of_def list.set_map splitlines_concat)

text \<open>
  \<open>ends_in p r\<close>: a match of \<open>r\<close> ends directly after a character satisfying \<open>p\<close>.
\<close>

primrec ends_in :: "(nat \<Rightarrow> bool) \<Rightarrow> re \<Rightarrow> bool" where
  "ends_in p Eps = False"
| "ends_in p (Cls q) = (\<forall>c. q c \<longrightarrow> p c)"
| "ends_in p (Cat r s) = ends_in p s"
| "ends_in p (Alt r s) = (ends_in p r \<and> ends_in p s)"
| "ends_in p (Rep greedy lo hi r) = (0 < lo \<and> ends_in p r)"
| "ends_in p (Grp name r) = ends_in p r"
| "ends_in p (Ahead r) = False"
| "ends_in p (NotBehind q) = False"
| "ends_in p (Word_Boundary w) = False"
| "ends_in p Line_Start = False"
| "ends_in p Line_End = False"
| "ends_in p Text_Start = False"
| "ends_in p Text_End = False"

definition ended :: "(nat \<Rightarrow> bool) \<Rightarrow> ustr \<Rightarrow> nat \<times> spans \<Rightarrow> bool" where
  "ended p t s \<longleftrightarrow> 0 < fst s \<and> fst s \<le> length t \<and> p (t ! (fst s - 1))"

lemma repeat_ended:
  assumes "\<And>s s'. s' \<in> set (f s) \<Longrightarrow> ended p t s'"
  shows "s' \<in> set (repeat fuel f greedy lo hi s) \<Longrightarrow> 0 < lo \<Longrightarrow> ended p t s'"
proof -
  assume m: "s' \<in> set (repeat fuel f greedy lo hi s)" and lo: "0 < lo"
  show ?thesis
  proof (cases fuel)
    case 0
    then show ?thesis using m lo by simp
  next
    case (Suc n)
    then obtain s1 lo' hi' where s1: "s1 \<in> set (f s)" "s' \<in> set (repeat n f greedy lo' hi' s1)"
      using m lo by (auto simp: Let_def split: if_splits)
    have "ended p t s1" by (rule assms [OF s1(1)])
    then show ?thesis by (rule repeat_invariant [where I = "ended p t", OF assms _ s1(2), rotated])
  qed
qed

lemma run_ended: "ends_in p r \<Longrightarrow> s' \<in> set (run r t s) \<Longrightarrow> ended p t s'"
proof (induction r arbitrary: s s')
  case (Cls q)
  then show ?case by (cases s) (auto simp: ended_def char_at_def split: option.splits if_splits)
next
  case (Cat r1 r2)
  obtain s1 where "s' \<in> set (run r2 t s1)" using Cat.prems(2) by auto
  then show ?case by (rule Cat.IH(2) [rotated]) (use Cat.prems(1) in simp)
next
  case (Rep greedy lo hi r)
  have e: "ends_in p r" "0 < lo" using Rep.prems(1) by simp_all
  have m: "s' \<in> set (repeat (lo + Suc (length t)) (run r t) greedy lo hi s)" using Rep.prems(2) by (simp only: run.simps)
  show ?case by (rule repeat_ended [OF Rep.IH [OF e(1)] m e(2)])
next
  case (Grp name r)
  obtain i gs where s: "s = (i, gs)" by (cases s)
  then obtain j gs' where j: "(j, gs') \<in> set (run r t (i, gs))" "s' = (j, (name, i, j) # gs')" using Grp.prems(2) by auto
  have "ended p t (j, gs')" using Grp.IH [OF _ j(1)] Grp.prems(1) by simp
  then show ?case by (simp add: ended_def j(2))
qed auto

lemma find_all_ended:
  "ends_in p r \<Longrightarrow> (i, j, gs) \<in> set (find_all fuel r t pos) \<Longrightarrow> ended p t (j, gs)"
proof (induction fuel arbitrary: pos)
  case (Suc fuel)
  show ?case
  proof (cases "re_search r t pos")
    case (Some m)
    obtain a b gs' where m: "m = (a, b, gs')" by (cases m)
    from Suc.prems(2) Some m consider "(i, j, gs) = (a, b, gs')" | "(i, j, gs) \<in> set (find_all fuel r t (max b (Suc pos)))"
      by auto
    then show ?thesis
    proof cases
      case 1
      obtain k where "match_at r t k = Some (i, j, gs)"
        using first_match_in Some m 1 unfolding re_search_def by blast
      then have "(j, gs) \<in> set (run r t (k, []))" by (auto simp: match_at_def split: list.splits)
      then show ?thesis by (rule run_ended [OF Suc.prems(1)])
    next
      case 2
      then show ?thesis by (rule Suc.IH [OF Suc.prems(1)])
    qed
  qed (use Suc.prems(2) in simp)
qed simp

lemma paragraph_boundary_after_break:
  assumes "final_answer_paragraph_boundary t protected fb = Some b"
  shows "after_break t (bd_position b)"
proof -
  obtain x e where fb: "fb = Some (x, e)" using assms by (auto simp: final_answer_paragraph_boundary_def split: option.splits)
  let ?s = "re_finditer separator_re (take x t) 0"
  have ne: "?s \<noteq> []" and pos: "bd_position b = fst (snd (last ?s))"
    using assms by (auto simp: final_answer_paragraph_boundary_def fb Let_def split: if_split_asm)
  obtain i j gs where l: "last ?s = (i, j, gs)" by (metis prod_cases3)
  have "(i, j, gs) \<in> set (find_all (Suc (length (take x t))) separator_re (take x t) 0)"
    using last_in_set [OF ne] l by (simp only: re_finditer_def)
  then have "ended (\<lambda>c. c = 10) (take x t) (j, gs)"
    by (rule find_all_ended [rotated]) (simp add: separator_re_def)
  then have j: "0 < j" "j \<le> length t" "j \<le> x" "take x t ! (j - 1) = 10" by (simp_all add: ended_def)
  moreover have "take x t ! (j - 1) = t ! (j - 1)" by (rule nth_take) (use j in linarith)
  ultimately show ?thesis by (simp add: pos l after_break_def is_line_break_def)
qed

lemma Max_set_in: "xs \<noteq> [] \<Longrightarrow> Max (set xs) \<in> set (xs :: nat list)"
  by simp

lemma final_boundary_position:
  assumes "final_answer_boundary ud t ls protected fb = Some b"
  shows "bd_position b \<in> ln_start ` set ls"
proof -
  obtain x e where fb: "fb = Some (x, e)" using assms by (auto simp: final_answer_boundary_def split: option.splits)
  let ?c = "map ln_start (filter (\<lambda>l. ln_start l \<le> x \<and> \<not> is_protected (ln_start l) protected \<and>
                             re_match (final_heading_re ud) (ln_text l) \<noteq> None) ls)"
  have "?c \<noteq> []" "bd_position b = Max (set ?c)"
    using assms by (auto simp: final_answer_boundary_def fb Let_def split: if_split_asm)
  then have "bd_position b \<in> set ?c" using Max_set_in by presburger
  then show ?thesis unfolding set_map by (rule subsetD [OF image_mono, rotated]) (rule filter_is_subset)
qed

section \<open>Candidates\<close>

definition keyed_by_position :: "boundary set \<Rightarrow> (nat \<times> boundary) list \<Rightarrow> bool" where
  "keyed_by_position B d \<longleftrightarrow> distinct (map fst d) \<and> (\<forall>(k, b) \<in> set d. k = bd_position b \<and> b \<in> B)"

lemma dict_put_entry: "x \<in> set (dict_put k v d) \<Longrightarrow> x = (k, v) \<or> x \<in> set d"
  by (induction k v d rule: dict_put.induct) (auto split: if_splits)

lemma keep_boundary_keyed:
  assumes "keyed_by_position B d" "b \<in> B"
  shows "keyed_by_position B (keep_boundary b d)"
proof -
  have "keyed_by_position B (dict_put (bd_position b) b d)"
    using assms distinct_dict_put [of d "bd_position b" b] dict_put_entry [of _ "bd_position b" b d]
    unfolding keyed_by_position_def by blast
  then show ?thesis using assms(1) by (simp add: keep_boundary_def split: option.splits)
qed

lemma fold_keep_keyed: "set bs \<subseteq> B \<Longrightarrow> keyed_by_position B d \<Longrightarrow> keyed_by_position B (fold keep_boundary bs d)"
  by (induction bs arbitrary: d) (simp_all add: keep_boundary_keyed)

lemma deduplicate_sorted:
  "sorted_wrt (<) (map bd_position (deduplicate_boundaries bs)) \<and> set (deduplicate_boundaries bs) \<subseteq> set bs"
proof -
  let ?d = "fold keep_boundary bs []"
  have k: "keyed_by_position (set bs) ?d"
    by (rule fold_keep_keyed) (simp_all add: keyed_by_position_def)
  have "map bd_position (deduplicate_boundaries bs) = map fst (sort_key fst ?d)"
    using k by (auto simp: deduplicate_boundaries_def keyed_by_position_def)
  moreover have "distinct (map fst (sort_key fst ?d))"
  proof -
    have "mset (map fst (sort_key fst ?d)) = mset (map fst ?d)" by simp
    then have "distinct (map fst (sort_key fst ?d)) = distinct (map fst ?d)" by (rule mset_eq_imp_distinct_iff)
    then show ?thesis using k unfolding keyed_by_position_def by simp
  qed
  ultimately have "sorted_wrt (<) (map bd_position (deduplicate_boundaries bs))"
    by (simp add: strict_sorted_iff)
  moreover have "set (deduplicate_boundaries bs) \<subseteq> set bs"
    using k by (auto simp: deduplicate_boundaries_def keyed_by_position_def)
  ultimately show ?thesis ..
qed

lemma first_detection_in: "first_detection ds = Inr bs \<Longrightarrow> bs = [] \<or> (\<exists>d \<in> set ds. d () = Inr bs)"
  by (induction ds) (auto simp: ebind_Inr split: if_splits)

lemma first_detection_total: "\<forall>d \<in> set ds. \<exists>bs. d () = Inr bs \<Longrightarrow> \<exists>bs. first_detection ds = Inr bs"
proof (induction ds)
  case (Cons d ds)
  obtain bs where "d () = Inr bs" using Cons.prems by auto
  moreover obtain cs where "first_detection ds = Inr cs" using Cons by auto
  ultimately show ?case by simp
qed simp

lemma detectors_total:
  assumes "\<forall>l \<in> set ls. decimals ud (ln_text l) \<le> 4300"
  shows "\<exists>bs. explicit_boundaries ud t ls pr = Inr bs"
    "\<exists>bs. markdown_numbered_heading_boundaries ud t ls pr = Inr bs"
    "\<exists>bs. bold_numbered_heading_boundaries ud t ls pr = Inr bs"
    "\<exists>bs. numbered_reasoning_boundaries ud t ls pr = Inr bs"
    "\<exists>bs. semantic_heading_boundaries ud t ls pr = Inr bs"
proof -
  have U: "\<forall>l \<in> set (unprotected ls pr). decimals ud (ln_text l) \<le> 4300"
    using assms by (simp add: unprotected_def)
  show "\<exists>bs. explicit_boundaries ud t ls pr = Inr bs"
    using explicit.collect_total [OF U] by (auto simp: explicit_boundaries_def Let_def)
  show "\<exists>bs. markdown_numbered_heading_boundaries ud t ls pr = Inr bs"
    using markdown_numbered.collect_total [OF U] by (auto simp: markdown_numbered_heading_boundaries_def Let_def)
  show "\<exists>bs. bold_numbered_heading_boundaries ud t ls pr = Inr bs"
    using bold_numbered.collect_total [OF U] by (auto simp: bold_numbered_heading_boundaries_def Let_def)
  show "\<exists>bs. numbered_reasoning_boundaries ud t ls pr = Inr bs"
    using numbered_label.collect_total [OF U] by (auto simp: numbered_reasoning_boundaries_def Let_def)
  show "\<exists>bs. semantic_heading_boundaries ud t ls pr = Inr bs"
    by (cases "heading_scan ud (unprotected ls pr) ([], [])") (simp only: semantic_heading_boundaries_def Let_def case_prod_conv, blast)
qed

lemma candidate_boundaries_total:
  assumes "\<forall>l \<in> set ls. decimals ud (ln_text l) \<le> 4300"
  shows "\<exists>bs. candidate_boundaries ud t ls pr fb = Inr bs"
proof -
  have "\<exists>bs. first_detection
       [\<lambda>_. explicit_boundaries ud t ls pr, \<lambda>_. markdown_numbered_heading_boundaries ud t ls pr,
        \<lambda>_. bold_numbered_heading_boundaries ud t ls pr, \<lambda>_. numbered_reasoning_boundaries ud t ls pr,
        \<lambda>_. semantic_heading_boundaries ud t ls pr] = Inr bs"
    by (rule first_detection_total) (simp add: detectors_total [OF assms])
  then show ?thesis by (auto simp only: candidate_boundaries_def ebind.simps Let_def)
qed

lemma candidate_boundaries_where:
  assumes "candidate_boundaries ud t (lines_of t) pr fb = Inr bs"
  shows "sorted_wrt (<) (map bd_position bs) \<and>
     (\<forall>b \<in> set bs. 0 < bd_position b \<and> bd_position b < length t \<and> \<not> is_protected (bd_position b) pr \<and>
        after_break t (bd_position b))"
proof -
  let ?ls = "lines_of t"
  let ?ds = "[\<lambda>_. explicit_boundaries ud t ?ls pr, \<lambda>_. markdown_numbered_heading_boundaries ud t ?ls pr,
        \<lambda>_. bold_numbered_heading_boundaries ud t ?ls pr, \<lambda>_. numbered_reasoning_boundaries ud t ?ls pr,
        \<lambda>_. semantic_heading_boundaries ud t ?ls pr]"
  let ?final = "case final_answer_boundary ud t ?ls pr fb of Some b \<Rightarrow> Some b | None \<Rightarrow> final_answer_paragraph_boundary t pr fb"
  obtain cs where cs: "first_detection ?ds = Inr cs"
    and bs: "bs = filter (\<lambda>b. 0 < bd_position b \<and> bd_position b < length t \<and> \<not> is_protected (bd_position b) pr)
              (deduplicate_boundaries (cs @ (case ?final of None \<Rightarrow> [] | Some b \<Rightarrow> [b])))"
    using assms unfolding candidate_boundaries_def ebind_Inr Let_def sum.inject by blast
  let ?all = "cs @ (case ?final of None \<Rightarrow> [] | Some b \<Rightarrow> [b])"
  have starts: "after_break t p" if "p \<in> ln_start ` set ?ls" for p
    using lines_of_starts that by blast
  have "bd_position ` set cs \<subseteq> ln_start ` set (unprotected ?ls pr)"
    using first_detection_in [OF cs] detector_positions by (elim disjE) (simp, fastforce)
  then have c: "after_break t (bd_position b)" if "b \<in> set cs" for b
    using starts that by (fastforce simp: unprotected_def)
  have f: "after_break t (bd_position b)" if "?final = Some b" for b
    using that final_boundary_position [of ud t ?ls pr fb b] starts paragraph_boundary_after_break [of t pr fb b]
    by (cases "final_answer_boundary ud t ?ls pr fb") simp_all
  have all: "after_break t (bd_position b)" if "b \<in> set ?all" for b
    using that c f by (auto split: option.splits)
  note d = deduplicate_sorted [of ?all]
  have "sorted_wrt (<) (map bd_position bs)"
    using d unfolding bs by (simp only: sorted_wrt_map sorted_wrt_filter)
  moreover have "after_break t (bd_position b)" if "b \<in> set bs" for b
    using that all d unfolding bs by (meson filter_is_subset subsetD)
  ultimately show ?thesis unfolding bs by simp
qed

section \<open>The steps\<close>

abbreviation char_spans :: "text_step list \<Rightarrow> (int \<times> int) list" where
  "char_spans steps \<equiv> map (\<lambda>s. (int (ts_char_start s), int (ts_char_end s))) steps"

lemma build_steps_spec:
  assumes "sorted_wrt (<) (map bd_position bs)" "\<forall>b \<in> set bs. bd_position b < length t" "bs \<noteq> []"
  shows "contiguous (int (bd_position (hd bs))) (int (length t)) (char_spans (build_steps t fb i bs)) \<and>
    concat (map ts_text (build_steps t fb i bs)) = drop (bd_position (hd bs)) t \<and>
    map ts_index (build_steps t fb i bs) = [i..<i + length (build_steps t fb i bs)] \<and>
    map ts_char_start (build_steps t fb i bs) = map bd_position bs \<and>
    (\<forall>s \<in> set (build_steps t fb i bs). ts_text s = slice (ts_char_start s) (ts_char_end s) t)"
  using assms
proof (induction bs arbitrary: i)
  case (Cons b bs)
  let ?p = "bd_position b"
  have p: "?p < length t" using Cons.prems(2) by simp
  show ?case
  proof (cases bs)
    case Nil
    then show ?thesis using p by (simp add: Let_def slice_to_end)
  next
    case (Cons c cs)
    let ?q = "bd_position c"
    let ?rest = "build_steps t fb (Suc i) bs"
    have pq: "?p < ?q" "?q < length t" using Cons.prems(1,2) Cons by simp_all
    note IH = Cons.IH [of "Suc i", unfolded Cons list.sel]
    have IH: "contiguous (int ?q) (int (length t)) (char_spans ?rest)" "concat (map ts_text ?rest) = drop ?q t"
      "map ts_index ?rest = [Suc i..<Suc i + length ?rest]" "map ts_char_start ?rest = map bd_position bs"
      "\<forall>s \<in> set ?rest. ts_text s = slice (ts_char_start s) (ts_char_end s) t"
      using Cons.IH [of "Suc i"] Cons.prems(1,2) Cons by (simp_all del: build_steps.simps)
    obtain s where s: "build_steps t fb i (b # bs) = s # ?rest" "ts_char_start s = ?p" "ts_char_end s = ?q"
      "ts_text s = slice ?p ?q t" "ts_index s = i"
      using pq Cons by (simp add: Let_def)
    have "slice ?p ?q t @ drop ?q t = drop ?p t"
      using slice_append [of ?p ?q "length t" t] pq by (simp add: slice_to_end)
    moreover have "[i..<i + length (s # ?rest)] = i # [Suc i..<Suc i + length ?rest]"
      by (subst upt_conv_Cons) simp_all
    then have "map ts_index (s # ?rest) = [i..<i + length (s # ?rest)]" by (simp only: list.map IH(3) s(5))
    ultimately show ?thesis using IH(1,2,4,5) pq unfolding s(1) by (simp add: s(2-4))
  qed
qed simp

lemma split_text_steps_unfold:
  assumes "t \<noteq> []" and "fb = (if balanced_boxes t = [] then None else Some (last (balanced_boxes t)))"
    and "candidate_boundaries ud t (lines_of t) (protected_ranges ud t (lines_of t)) fb = Inr cs"
    and "bs = \<lparr>bd_position = 0, bd_reason = ''start'', bd_confidence = ''hard''\<rparr> # cs"
  shows "split_text_steps ud t = Inr (build_steps t fb 0 bs)"
    "contiguous 0 (int (length t)) (char_spans (build_steps t fb 0 bs)) \<and>
     concat (map ts_text (build_steps t fb 0 bs)) = t \<and>
     map ts_index (build_steps t fb 0 bs) = [0..<length (build_steps t fb 0 bs)] \<and>
     map ts_char_start (build_steps t fb 0 bs) = map bd_position bs \<and>
     (\<forall>s \<in> set (build_steps t fb 0 bs). ts_text s = slice (ts_char_start s) (ts_char_end s) t)"
proof -
  note w = candidate_boundaries_where [OF assms(3)]
  have "sorted_wrt (<) (map bd_position bs)" "\<forall>b \<in> set bs. bd_position b < length t" "bs \<noteq> []" "bd_position (hd bs) = 0"
    using w assms(1) by (simp_all add: assms(4))
  note b = build_steps_spec [OF this(1-3), of fb 0, unfolded this(4)]
  show "contiguous 0 (int (length t)) (char_spans (build_steps t fb 0 bs)) \<and>
     concat (map ts_text (build_steps t fb 0 bs)) = t \<and>
     map ts_index (build_steps t fb 0 bs) = [0..<length (build_steps t fb 0 bs)] \<and>
     map ts_char_start (build_steps t fb 0 bs) = map bd_position bs \<and>
     (\<forall>s \<in> set (build_steps t fb 0 bs). ts_text s = slice (ts_char_start s) (ts_char_end s) t)"
    using b unfolding drop_0 of_nat_0 add_0 .
  then have "concat (map ts_text (build_steps t fb 0 bs)) = t" by blast
  then show "split_text_steps ud t = Inr (build_steps t fb 0 bs)"
    using assms(1) unfolding split_text_steps_def Let_def assms(2) [symmetric] assms(3) ebind.simps assms(4) [symmetric]
    by (simp only: if_False raise_if_def if_cancel simp_thms)
qed

lemma split_text_steps_Inr:
  assumes "split_text_steps ud t = Inr steps" "t \<noteq> []"
  obtains cs where
    "candidate_boundaries ud t (lines_of t) (protected_ranges ud t (lines_of t))
       (if balanced_boxes t = [] then None else Some (last (balanced_boxes t))) = Inr cs"
    "contiguous 0 (int (length t)) (char_spans steps)" "concat (map ts_text steps) = t"
    "map ts_index steps = [0..<length steps]" "map ts_char_start steps = 0 # map bd_position cs"
    "\<forall>s \<in> set steps. ts_text s = slice (ts_char_start s) (ts_char_end s) t"
proof -
  let ?fb = "if balanced_boxes t = [] then None else Some (last (balanced_boxes t))"
  obtain cs where cs: "candidate_boundaries ud t (lines_of t) (protected_ranges ud t (lines_of t)) ?fb = Inr cs"
    using assms unfolding split_text_steps_def Let_def by (auto simp: ebind_Inr)
  note u = split_text_steps_unfold [OF assms(2) refl cs refl]
  have "steps = build_steps t ?fb 0 (\<lparr>bd_position = 0, bd_reason = ''start'', bd_confidence = ''hard''\<rparr> # cs)"
    using u(1) assms(1) by simp
  then show ?thesis using that [OF cs] u(2) by simp
qed

text \<open>
  The splitter is total on texts with at most 4300 decimal digits, and its steps partition the text.
\<close>

lemma split_text_steps_total:
  assumes "decimals ud t \<le> 4300"
  shows "\<exists>steps. split_text_steps ud t = Inr steps"
proof (cases "t = []")
  case False
  have "\<forall>l \<in> set (lines_of t). decimals ud (ln_text l) \<le> 4300"
    using lines_of_decimals assms le_trans by blast
  from candidate_boundaries_total [OF this] obtain cs where
    "candidate_boundaries ud t (lines_of t) (protected_ranges ud t (lines_of t))
       (if balanced_boxes t = [] then None else Some (last (balanced_boxes t))) = Inr cs" by blast
  from split_text_steps_unfold(1) [OF False refl this refl] show ?thesis by blast
qed (simp add: split_text_steps_def)

lemma split_text_steps_partition:
  assumes "split_text_steps ud t = Inr steps"
  shows "contiguous 0 (int (length t)) (char_spans steps) \<and> concat (map ts_text steps) = t \<and>
     map ts_index steps = [0..<length steps] \<and>
     (\<forall>s \<in> set steps. ts_text s = slice (ts_char_start s) (ts_char_end s) t)"
proof (cases "t = []")
  case True
  then show ?thesis using assms by (simp add: split_text_steps_def)
next
  case False
  from assms False show ?thesis by (rule split_text_steps_Inr) blast
qed

section \<open>Properties\<close>

text \<open>A Unicode database without letters or digits beyond ASCII, and a response with a final-answer heading.\<close>

definition ascii_only :: unicode_data where
  "ascii_only = \<lparr>ud_word = (\<lambda>_. False), ud_decimal = (\<lambda>_. None)\<rparr>"

definition two_steps :: ustr where
  "two_steps = lit (''a'' @ [CHR 0x0A] @ ''Final answer'' @ [CHR 0x5C] @ ''boxed{}'')"

text \<open>
  C16: a text with at most 4300 decimal digits is always split, and the steps partition it: they
  are numbered from zero, their spans follow each other without a gap from the first character to
  the last, each carries the text of its span and together they are the text, so the final
  recovery check never raises.
\<close>

theorem text_steps_partition:
  assumes "decimals ud t \<le> 4300"
  shows "\<exists>steps. split_text_steps ud t = Inr steps \<and> concat (map ts_text steps) = t \<and>
     map ts_index steps = [0..<length steps] \<and> contiguous 0 (int (length t)) (char_spans steps) \<and>
     (\<forall>s \<in> set steps. ts_text s = slice (ts_char_start s) (ts_char_end s) t)"
  using split_text_steps_total [OF assms] split_text_steps_partition by blast

theorem text_steps_partition_witness:
  "\<exists>steps. split_text_steps ascii_only two_steps = Inr steps \<and> concat (map ts_text steps) = two_steps \<and>
     map ts_index steps = [0..<length steps]"
proof -
  have "decimals ascii_only two_steps \<le> 4300" by code_simp
  from text_steps_partition [OF this] show ?thesis by blast
qed

text \<open>
  C17: the splitter is conservative: a step other than the first starts directly after a line
  break, and outside every code fence, display formula, reasoning block, LaTeX environment, table
  and list.
\<close>

theorem conservative_boundaries:
  assumes "split_text_steps ud t = Inr steps" "s \<in> set steps" "0 < ts_char_start s"
  shows "is_line_break (t ! (ts_char_start s - 1)) \<and>
     \<not> (\<exists>(a, b) \<in> set (raw_ranges ud t (lines_of t)). a \<le> ts_char_start s \<and> ts_char_start s < b)"
proof -
  have "t \<noteq> []" using assms by (auto simp: split_text_steps_def)
  then obtain cs where cs: "candidate_boundaries ud t (lines_of t) (protected_ranges ud t (lines_of t))
       (if balanced_boxes t = [] then None else Some (last (balanced_boxes t))) = Inr cs"
    and starts: "map ts_char_start steps = 0 # map bd_position cs"
    using split_text_steps_Inr [OF assms(1)] by metis
  have "ts_char_start s \<in> set (0 # map bd_position cs)"
    unfolding starts [symmetric] using assms(2) by simp
  then obtain b where "b \<in> set cs" "bd_position b = ts_char_start s" using assms(3) by auto
  then have "after_break t (ts_char_start s)" "\<not> is_protected (ts_char_start s) (raw_ranges ud t (lines_of t))"
    using candidate_boundaries_where [OF cs] by (auto simp: protected_ranges_def)
  then show ?thesis using assms(3) by (simp add: after_break_def is_protected_def)
qed

theorem conservative_boundaries_witness:
  "\<exists>steps s. split_text_steps ascii_only two_steps = Inr steps \<and> s \<in> set steps \<and> ts_char_start s = 2 \<and>
     is_line_break (two_steps ! 1)"
proof -
  have "case split_text_steps ascii_only two_steps of Inl _ \<Rightarrow> False | Inr steps \<Rightarrow> map ts_char_start steps = [0, 2]"
    by code_simp
  then obtain steps where s: "split_text_steps ascii_only two_steps = Inr steps" "map ts_char_start steps = [0, 2]"
    by (auto split: sum.splits)
  then have "2 \<in> set (map ts_char_start steps)" by simp
  then obtain x where x: "x \<in> set steps" "ts_char_start x = 2" unfolding set_map by (rule imageE) simp
  have "0 < ts_char_start x" unfolding x(2) by (rule pos2)
  from conservative_boundaries [OF s(1) x(1) this, THEN conjunct1, unfolded x(2)]
  have "is_line_break (two_steps ! 1)" by simp
  then show ?thesis by (intro exI conjI) (rule s(1), rule x(1), rule x(2))
qed

end
