(* ===== verification/Answer_Probe.thy ===== *)
theory Answer_Probe
  imports Text Tensors
begin

text \<open>
  Answer probes (\<open>utils/answer_probe.py\<close>): a fixed template around the gold answer is
  tokenized once, and the tokens that overlap the answer text are the scored ones.

  The tokenizer and the serving client are third-party code: a tokenizer is a record of its
  encoder and decoder, a client the function from a token sequence to the ids and log
  probabilities it reports. What the theorems need of them is a named hypothesis.
\<close>

record tokenizer =
  tok_decode :: "bool \<Rightarrow> int list \<Rightarrow> ustr" \<comment> \<open>the flag is \<open>skip_special_tokens\<close>\<close>
  tok_encode :: "ustr \<Rightarrow> int list \<times> (int \<times> int) list option" \<comment> \<open>ids and offset mapping\<close>

record answer_probe =
  ap_text :: ustr
  ap_token_ids :: "int list"
  ap_answer_token_positions :: "int list"
  ap_answer_char_start :: int
  ap_answer_char_end :: int

definition PROBE_PREFIX :: ustr where
  "PROBE_PREFIX = [10, 10] @ lit ''Therefore, the answer is '' @ [92] @ lit ''boxed{''"

definition PROBE_SUFFIX :: ustr where
  "PROBE_SUFFIX = lit ''}''"

text \<open>Character extents recovered by decoding ever longer prefixes of the probe ids.\<close>

fun fallback_boundaries :: "tokenizer \<Rightarrow> int list \<Rightarrow> ustr \<Rightarrow> nat \<Rightarrow> nat list \<Rightarrow> nat list" where
  "fallback_boundaries tk ids t prev [] = []"
| "fallback_boundaries tk ids t prev (e # es) =
     (let decoded = tok_decode tk False (take e ids);
          b = (if starts_with t decoded then length decoded else prev)
      in b # fallback_boundaries tk ids t b es)"

definition probe_offsets_fallback :: "tokenizer \<Rightarrow> int list \<Rightarrow> ustr \<Rightarrow> (int \<times> int) list res" where
  "probe_offsets_fallback tk probe_ids probe_text =
     (let boundaries = 0 # fallback_boundaries tk probe_ids probe_text 0 [1..<length probe_ids + 1]
      in raise_if (last boundaries \<noteq> length probe_text)
           (ValueError ''Cannot recover probe offsets'')
         (Inr (map (\<lambda>(a, b). (int a, int b)) (zip (butlast boundaries) (tl boundaries)))))"

text \<open>Tokens whose character extent overlaps \<open>[lo, hi)\<close>.\<close>

definition overlap_positions :: "int \<Rightarrow> int \<Rightarrow> (int \<times> int) list \<Rightarrow> int list" where
  "overlap_positions lo hi offsets =
     map (\<lambda>(i, _). int i) (filter (\<lambda>(_, (s, e)). e > lo \<and> s < hi) (py_enumerate offsets))"

definition build_answer_probe ::
  "tokenizer \<Rightarrow> ustr \<Rightarrow> ustr \<Rightarrow> ustr \<Rightarrow> ustr \<Rightarrow> answer_probe res" where
  "build_answer_probe tk answer prefix suffix probe_name =
     raise_if (strip probe_name = [])
       (ValueError ''probe_name must be a non-empty string'')
     (raise_if (answer = [])
       (ValueError ''cannot construct an answer probe for an empty answer'')
     (let probe_text = prefix @ answer @ suffix;
          answer_char_start = int (length prefix);
          answer_char_end = answer_char_start + int (length answer);
          (probe_ids, offset_mapping) = tok_encode tk probe_text
      in ebind (case offset_mapping of
                  None \<Rightarrow> probe_offsets_fallback tk probe_ids probe_text
                | Some offs \<Rightarrow> Inr offs)
         (\<lambda>offsets.
           raise_if (length offsets \<noteq> length probe_ids)
             (ValueError ''offset mapping and token IDs have different lengths'')
           (raise_if (tok_decode tk False probe_ids \<noteq> probe_text)
             (ValueError ''probe does not round-trip through the tokenizer'')
           (let answer_positions = overlap_positions answer_char_start answer_char_end offsets
            in raise_if (answer_positions = [])
                 (ValueError ''no token overlapping the answer text'')
               (Inr \<lparr>ap_text = probe_text, ap_token_ids = probe_ids,
                     ap_answer_token_positions = answer_positions,
                     ap_answer_char_start = answer_char_start,
                     ap_answer_char_end = answer_char_end\<rparr>))))))"

text \<open>
  \<open>score_answer_probe\<close>: the client returns one row of ids and one row of log
  probabilities per prompt token; row \<open>p - 1\<close> scores token \<open>p\<close>.
\<close>

definition score_position ::
  "int list \<Rightarrow> int list list \<Rightarrow> flt list list \<Rightarrow> int \<Rightarrow> flt res" where
  "score_position sequence_ids ids logprobs position =
     (let p = nat (position - 1) in
      raise_if (ids ! p = []) (IndexError ''prompt_sampled_ids'')
      (raise_if (hd (ids ! p) \<noteq> sequence_ids ! nat position)
        (RuntimeError ''Student answer-probe causal alignment failed'')
      (raise_if (logprobs ! p = []) (IndexError ''prompt_sampled_logprobs'')
      (let score = hd (logprobs ! p) in
       raise_if (\<not> is_finite score)
         (RuntimeError ''Student answer probe returned a non-finite log probability'')
       (Inr score)))))"

definition score_answer_probe ::
  "(int list \<Rightarrow> int list list \<times> flt list list) \<Rightarrow> int list \<Rightarrow> int list \<Rightarrow> int \<Rightarrow> flt res" where
  "score_answer_probe generate sequence_ids positions max_model_len =
     raise_if (sequence_ids = [] \<or> positions = [])
       (ValueError ''non-empty sequence and answer positions required'')
     (raise_if (\<exists>p \<in> set positions. p \<le> 0 \<or> p \<ge> int (length sequence_ids))
       (ValueError ''positions must have a causal predecessor'')
     (raise_if (int (length sequence_ids) + 1 > max_model_len)
       (ValueError ''reserve space for the appended answer probe'')
     (let (ids, logprobs) = generate sequence_ids in
      raise_if (length ids \<noteq> length sequence_ids \<or> length logprobs \<noteq> length sequence_ids)
        (RuntimeError ''mismatched prompt-score length'')
      (ebind (emap (score_position sequence_ids ids logprobs) positions)
        (\<lambda>scores. Inr (fmean scores))))))"

section \<open>Correctness\<close>

lemma set_overlap_positions:
  "set (overlap_positions lo hi offs)
     = {int i |i. i < length offs \<and> snd (offs ! i) > lo \<and> fst (offs ! i) < hi}"
  by (force simp: overlap_positions_def set_py_enumerate case_prod_unfold image_iff)

lemma fallback_boundaries_props:
  "length (fallback_boundaries tk ids t prev es) = length es"
  "prev \<le> length t \<Longrightarrow> \<forall>b \<in> set (fallback_boundaries tk ids t prev es). b \<le> length t"
  by (induction es arbitrary: prev) (auto simp: Let_def starts_with_take)

lemma probe_offsets_fallback_length:
  assumes "probe_offsets_fallback tk ids t = Inr offs"
  shows "length offs = length ids"
proof -
  define bs where "bs = fallback_boundaries tk ids t 0 [1..<length ids + 1]"
  have "length bs = length ids"
    by (simp add: bs_def fallback_boundaries_props del: upt_Suc)
  moreover from assms have "offs = map (\<lambda>(a, b). (int a, int b)) (zip (butlast (0 # bs)) (tl (0 # bs)))"
    unfolding probe_offsets_fallback_def Let_def raise_if_Inr bs_def by simp
  ultimately show ?thesis by (cases bs) auto
qed

text \<open>What a successfully built probe guarantees to its consumers.\<close>

definition probe_wf :: "tokenizer \<Rightarrow> ustr \<Rightarrow> answer_probe \<Rightarrow> bool" where
  "probe_wf tk answer p \<longleftrightarrow>
     tok_decode tk False (ap_token_ids p) = ap_text p \<and>
     ap_answer_token_positions p \<noteq> [] \<and>
     (\<forall>q \<in> set (ap_answer_token_positions p). 0 \<le> q \<and> q < int (length (ap_token_ids p))) \<and>
     take (length answer) (drop (nat (ap_answer_char_start p)) (ap_text p)) = answer \<and>
     ap_answer_char_end p = ap_answer_char_start p + int (length answer)"

lemma build_answer_probe_Inr:
  assumes "build_answer_probe tk answer prefix suffix nm = Inr p"
  shows "strip nm \<noteq> [] \<and> answer \<noteq> [] \<and> ap_text p = prefix @ answer @ suffix
     \<and> ap_token_ids p = fst (tok_encode tk (ap_text p)) \<and> probe_wf tk answer p"
  using assms
  by (auto simp: build_answer_probe_def Let_def res_simps probe_wf_def set_overlap_positions
      split: prod.splits option.splits)

lemma score_answer_probe_finite:
  assumes "score_answer_probe gen seq ps mx = Inr v"
  shows "is_finite v"
proof -
  from assms obtain ids lps scores where ne: "ps \<noteq> []"
    and sc: "emap (score_position seq ids lps) ps = Inr scores" and v: "v = fmean scores"
    by (auto simp: score_answer_probe_def Let_def res_simps split: prod.splits)
  have len: "length scores = length ps" using sc by (rule emap_Inr_length)
  have "is_finite (scores ! i)" if "i < length ps" for i
    using emap_Inr_nth [OF sc that] by (auto simp: score_position_def Let_def res_simps)
  then have "\<forall>x \<in> set scores. is_finite x" using len by (auto simp: in_set_conv_nth)
  then have "is_finite (fsum scores)" by (intro is_finite_fsum) auto
  then show ?thesis using ne len by (auto simp: v fmean_def is_finite_iff)
qed

end
