(* ===== verification/Token_Alignment.thy ===== *)
theory Token_Alignment
  imports Split_Correct Answer_Probe
begin

text \<open>
  Alignment of text steps with the original token ids (\<open>_decode\<close>,
  \<open>_find_original_token_boundary\<close> and \<open>split_rollout_steps\<close> of
  \<open>utils/conservative_step_splitter.py\<close>). The tokenizer is third-party code: any function
  from ids to text, as long as decoding no ids gives no text.
\<close>

section \<open>The operations\<close>

type_synonym cache = "(nat \<times> ustr) list"

definition decode_ids :: "tokenizer \<Rightarrow> bool \<Rightarrow> int list \<Rightarrow> ustr" where
  "decode_ids tk skip ids = tok_decode tk skip ids"

definition decode_prefix :: "tokenizer \<Rightarrow> bool \<Rightarrow> int list \<Rightarrow> nat \<Rightarrow> cache \<Rightarrow> ustr \<times> cache" where
  "decode_prefix tk skip ids e cache =
     (case dict_get e cache of
        Some v \<Rightarrow> (v, cache)
      | None \<Rightarrow> let v = decode_ids tk skip (take e ids) in (v, dict_put e v cache))"

text \<open>The binary search for a prefix that is long enough.\<close>

function search_prefix :: "tokenizer \<Rightarrow> bool \<Rightarrow> int list \<Rightarrow> nat \<Rightarrow> nat \<Rightarrow> nat \<Rightarrow> cache \<Rightarrow> nat \<times> cache" where
  "search_prefix tk skip ids required low high cache =
     (if low < high then
        let middle = (low + high) div 2; (v, cache) = decode_prefix tk skip ids middle cache in
          if length v < required then search_prefix tk skip ids required (middle + 1) high cache
          else search_prefix tk skip ids required low middle cache
      else (low, cache))"
  by pat_completeness auto
termination by (relation "measure (\<lambda>(_, _, _, _, low, high, _). high - low)") auto

declare search_prefix.simps [simp del]

text \<open>The prefixes in a window that cover the target and agree with the decoded text.\<close>

fun scan_prefixes :: "tokenizer \<Rightarrow> bool \<Rightarrow> int list \<Rightarrow> ustr \<Rightarrow> nat \<Rightarrow> nat list \<Rightarrow> cache \<Rightarrow> (nat \<times> nat) list \<times> cache" where
  "scan_prefixes tk skip ids t required [] cache = ([], cache)"
| "scan_prefixes tk skip ids t required (e # es) cache =
     (let (prefix, cache) = decode_prefix tk skip ids e cache;
          (found, cache) = scan_prefixes tk skip ids t required es cache
      in (if length prefix \<ge> required \<and> starts_with t prefix then (e, length prefix) # found else found, cache))"

definition candidate_prefixes ::
  "tokenizer \<Rightarrow> bool \<Rightarrow> int list \<Rightarrow> ustr \<Rightarrow> nat \<Rightarrow> nat \<Rightarrow> nat \<Rightarrow> nat \<Rightarrow> cache \<Rightarrow> (nat \<times> nat) list \<times> cache" where
  "candidate_prefixes tk skip ids t required minimum start e cache =
     scan_prefixes tk skip ids t required [max minimum start..<Suc (min (length ids) e)] cache"

text \<open>\<open>min(found, key=lambda item: (item[1], item[0]))\<close>\<close>

definition shortest_prefix :: "(nat \<times> nat) list \<Rightarrow> nat \<times> nat" where
  "shortest_prefix found = prod.swap (Min (set (map prod.swap found)))"

definition find_token_boundary ::
  "tokenizer \<Rightarrow> bool \<Rightarrow> int list \<Rightarrow> ustr \<Rightarrow> nat \<Rightarrow> nat \<Rightarrow> nat \<Rightarrow> cache \<Rightarrow> ((nat \<times> nat) \<times> cache) res" where
  "find_token_boundary tk skip ids t char_target minimum_token_end minimum_char_end cache =
     (let required = max char_target minimum_char_end;
          (approximate, cache) = search_prefix tk skip ids required minimum_token_end (length ids) cache;
          window = candidate_prefixes tk skip ids t required minimum_token_end;
          (found, cache) = window (approximate - 16) (approximate + 16) cache;
          (found, cache) = (if found = [] then window (approximate - 128) (approximate + 128) cache else (found, cache));
          (found, cache) = (if found = [] then window minimum_token_end (length ids) cache else (found, cache))
      in raise_if (found = []) (ValueError ''No prefix of the original response IDs covers character boundary'')
           (Inr (shortest_prefix found, cache)))"

record alignment =
  al_steps :: "token_step list"
  al_token_end :: nat
  al_char_end :: nat
  al_cache :: cache

definition align_step :: "tokenizer \<Rightarrow> bool \<Rightarrow> int list \<Rightarrow> ustr \<Rightarrow> text_step \<Rightarrow> alignment \<Rightarrow> alignment res" where
  "align_step tk skip ids response ts a =
     (if ts_char_end ts \<le> al_char_end a then Inr a else
      ebind (find_token_boundary tk skip ids response (ts_char_end ts) (al_token_end a) (al_char_end a + 1) (al_cache a))
        (\<lambda>((te, ce), cache).
          if te \<le> al_token_end a \<or> ce \<le> al_char_end a then Inr (a\<lparr>al_cache := cache\<rparr>)
          else Inr \<lparr>al_steps = al_steps a @
                     [\<lparr>step_index = length (al_steps a), char_start = al_char_end a, char_end = ce,
                       token_start = al_token_end a, token_end = te, step_text = slice (al_char_end a) ce response,
                       step_kind = ts_kind ts, boundary_reason = ts_boundary_reason ts, confidence = ts_confidence ts\<rparr>],
                    al_token_end = te, al_char_end = ce, al_cache = cache\<rparr>))"

definition split_rollout_steps ::
  "unicode_data \<Rightarrow> tokenizer \<Rightarrow> bool \<Rightarrow> int list \<Rightarrow> (ustr \<times> token_step list) res" where
  "split_rollout_steps ud tk skip original_ids =
     (let response = decode_ids tk skip original_ids in
      ebind (split_text_steps ud response) (\<lambda>text_steps.
      if text_steps = [] then Inr (response, [])
      else ebind (efold (align_step tk skip original_ids response) text_steps
               \<lparr>al_steps = [], al_token_end = 0, al_char_end = 0, al_cache = [(0, [])]\<rparr>) (\<lambda>a.
        raise_if (al_char_end a \<noteq> length response)
          (RuntimeError ''Token-aligned steps do not cover the complete visible response'')
        (raise_if (concat (map step_text (al_steps a)) \<noteq> response)
          (RuntimeError ''Token-aligned steps do not recover the decoded response'')
        (Inr (response, al_steps a))))))"

section \<open>The cache\<close>

text \<open>What the cache stands for: the empty prefix is empty whatever the tokenizer says of it.\<close>

definition visible_prefix :: "tokenizer \<Rightarrow> bool \<Rightarrow> int list \<Rightarrow> nat \<Rightarrow> ustr" where
  "visible_prefix tk skip ids e = (if e = 0 then [] else decode_ids tk skip (take e ids))"

definition cache_ok :: "tokenizer \<Rightarrow> bool \<Rightarrow> int list \<Rightarrow> cache \<Rightarrow> bool" where
  "cache_ok tk skip ids c \<longleftrightarrow> dict_get 0 c = Some [] \<and> (\<forall>e v. dict_get e c = Some v \<longrightarrow> v = visible_prefix tk skip ids e)"

lemma cache_ok_start [simp]: "cache_ok tk skip ids [(0, [])]"
  by (simp add: cache_ok_def dict_get_def visible_prefix_def)

lemma decode_prefix_ok:
  assumes "cache_ok tk skip ids c"
  shows "\<exists>c'. decode_prefix tk skip ids e c = (visible_prefix tk skip ids e, c') \<and> cache_ok tk skip ids c'"
proof (cases "dict_get e c")
  case None
  then have e: "0 < e" using assms by (cases e) (auto simp: cache_ok_def)
  then have "decode_prefix tk skip ids e c = (visible_prefix tk skip ids e, dict_put e (visible_prefix tk skip ids e) c)"
    by (simp add: decode_prefix_def None Let_def visible_prefix_def)
  moreover have "cache_ok tk skip ids (dict_put e (visible_prefix tk skip ids e) c)"
    using assms e by (auto simp: cache_ok_def)
  ultimately show ?thesis by blast
next
  case (Some v)
  then show ?thesis using assms by (auto simp: cache_ok_def decode_prefix_def)
qed

lemma scan_prefixes_ok:
  assumes "cache_ok tk skip ids c"
  shows "\<exists>c'. scan_prefixes tk skip ids t required es c =
     (map (\<lambda>e. (e, length (visible_prefix tk skip ids e)))
       (filter (\<lambda>e. required \<le> length (visible_prefix tk skip ids e) \<and> starts_with t (visible_prefix tk skip ids e)) es), c')
     \<and> cache_ok tk skip ids c'"
  using assms
proof (induction es arbitrary: c)
  case (Cons e es)
  obtain c1 where c1: "decode_prefix tk skip ids e c = (visible_prefix tk skip ids e, c1)" "cache_ok tk skip ids c1"
    using decode_prefix_ok [OF Cons.prems] by blast
  obtain c2 where "scan_prefixes tk skip ids t required es c1 =
     (map (\<lambda>e. (e, length (visible_prefix tk skip ids e)))
       (filter (\<lambda>e. required \<le> length (visible_prefix tk skip ids e) \<and> starts_with t (visible_prefix tk skip ids e)) es), c2)"
    "cache_ok tk skip ids c2"
    using Cons.IH [OF c1(2)] by blast
  then show ?case using c1(1) by simp
qed simp

lemma search_prefix_ok:
  "cache_ok tk skip ids c \<Longrightarrow> cache_ok tk skip ids (snd (search_prefix tk skip ids required low high c))"
proof (induction tk skip ids required low high c rule: search_prefix.induct)
  case (1 tk skip ids required low high c)
  obtain c1 where c1: "decode_prefix tk skip ids ((low + high) div 2) c = (visible_prefix tk skip ids ((low + high) div 2), c1)"
    "cache_ok tk skip ids c1" using decode_prefix_ok [OF 1(3)] by blast
  show ?case
    using 1(1) [OF _ refl c1(1) [symmetric] refl _ c1(2)] 1(2) [OF _ refl c1(1) [symmetric] refl _ c1(2)] 1(3)
    by (simp add: search_prefix.simps [of tk skip ids required low high c] c1(1) Let_def)
qed

section \<open>Finding a boundary\<close>

text \<open>
  \<open>covers tk skip ids t required lo (e, n)\<close>: the prefix of \<open>e \<ge> lo\<close> ids shows the first
  \<open>n \<ge> required\<close> characters of the text.
\<close>

definition covers :: "tokenizer \<Rightarrow> bool \<Rightarrow> int list \<Rightarrow> ustr \<Rightarrow> nat \<Rightarrow> nat \<Rightarrow> nat \<times> nat \<Rightarrow> bool" where
  "covers tk skip ids t required lo m \<longleftrightarrow> lo \<le> fst m \<and> fst m \<le> length ids \<and> required \<le> snd m \<and> snd m \<le> length t \<and>
     visible_prefix tk skip ids (fst m) = take (snd m) t"

lemma map_ne_of_member: "x \<in> set xs \<Longrightarrow> map f xs \<noteq> []"
  by auto

lemma candidate_prefixes_ok:
  assumes "cache_ok tk skip ids c"
  obtains found c' where "candidate_prefixes tk skip ids t required lo a b c = (found, c')" "cache_ok tk skip ids c'"
    "\<forall>m \<in> set found. covers tk skip ids t required lo m"
    "\<And>e. max lo a \<le> e \<Longrightarrow> e \<le> min (length ids) b \<Longrightarrow> starts_with t (visible_prefix tk skip ids e) \<Longrightarrow>
       required \<le> length (visible_prefix tk skip ids e) \<Longrightarrow> found \<noteq> []"
proof -
  let ?v = "visible_prefix tk skip ids"
  let ?es = "[max lo a..<Suc (min (length ids) b)]"
  let ?f = "map (\<lambda>e. (e, length (?v e))) (filter (\<lambda>e. required \<le> length (?v e) \<and> starts_with t (?v e)) ?es)"
  obtain c' where c': "scan_prefixes tk skip ids t required ?es c = (?f, c')" "cache_ok tk skip ids c'"
    using scan_prefixes_ok [OF assms] by blast
  show thesis
  proof (rule that [of ?f c'])
    show "candidate_prefixes tk skip ids t required lo a b c = (?f, c')"
      unfolding candidate_prefixes_def by (rule c'(1))
    show "\<forall>m \<in> set ?f. covers tk skip ids t required lo m"
      by (auto simp: covers_def starts_with_take simp del: upt_Suc)
    show "?f \<noteq> []" if "max lo a \<le> e" "e \<le> min (length ids) b" "starts_with t (?v e)" "required \<le> length (?v e)" for e
    proof -
      have "e < Suc (min (length ids) b)" using that(2) by (rule le_imp_less_Suc)
      then have "e \<in> set ?es" using that(1) by (simp only: set_upt atLeastLessThan_iff simp_thms)
      then have "e \<in> set (filter (\<lambda>e. required \<le> length (?v e) \<and> starts_with t (?v e)) ?es)"
        using that(3,4) by (simp only: set_filter mem_Collect_eq simp_thms)
      then show ?thesis by (rule map_ne_of_member)
    qed
  qed (rule c'(2))
qed

lemma shortest_prefix_in: "found \<noteq> [] \<Longrightarrow> shortest_prefix found \<in> set found"
proof -
  assume "found \<noteq> []"
  then have "Min (set (map prod.swap found)) \<in> prod.swap ` set found"
    unfolding set_map by (intro Min_in) simp_all
  then show ?thesis by (auto simp: shortest_prefix_def)
qed

text \<open>
  The search always succeeds for a target inside the text: the last window contains the whole
  response, and whatever window answers, the prefix found covers the target.
\<close>

lemma find_token_boundary_ok:
  assumes "cache_ok tk skip ids c" "lo \<le> length ids" "max target low_char \<le> length t"
    and "visible_prefix tk skip ids (length ids) = t"
  obtains m c' where "find_token_boundary tk skip ids t target lo low_char c = Inr (m, c')" "cache_ok tk skip ids c'"
    "covers tk skip ids t (max target low_char) lo m"
proof -
  let ?r = "max target low_char"
  let ?w = "candidate_prefixes tk skip ids t ?r lo"
  obtain p c0 where s: "search_prefix tk skip ids ?r lo (length ids) c = (p, c0)" by (cases "search_prefix tk skip ids ?r lo (length ids) c")
  have c0: "cache_ok tk skip ids c0" using search_prefix_ok [OF assms(1), of ?r lo "length ids"] by (simp add: s)
  obtain f1 c1 where f1: "?w (p - 16) (p + 16) c0 = (f1, c1)" "cache_ok tk skip ids c1" "\<forall>m \<in> set f1. covers tk skip ids t ?r lo m"
    using candidate_prefixes_ok [OF c0] by metis
  obtain f2 c2 where f2: "?w (p - 128) (p + 128) c1 = (f2, c2)" "cache_ok tk skip ids c2" "\<forall>m \<in> set f2. covers tk skip ids t ?r lo m"
    using candidate_prefixes_ok [OF f1(2)] by metis
  obtain g c3 where g: "?w (p - 16) (p + 16) c0 = (f1, c1) \<Longrightarrow> (if f1 = [] then ?w (p - 128) (p + 128) c1 else (f1, c1)) = (g, c3)"
    "cache_ok tk skip ids c3" "\<forall>m \<in> set g. covers tk skip ids t ?r lo m"
    using f1 f2 by (cases "f1 = []") auto
  obtain f3 c4 where f3: "?w lo (length ids) c3 = (f3, c4)" "cache_ok tk skip ids c4" "\<forall>m \<in> set f3. covers tk skip ids t ?r lo m"
    and ne: "\<And>e. max lo lo \<le> e \<Longrightarrow> e \<le> min (length ids) (length ids) \<Longrightarrow> starts_with t (visible_prefix tk skip ids e) \<Longrightarrow>
       ?r \<le> length (visible_prefix tk skip ids e) \<Longrightarrow> f3 \<noteq> []"
    using candidate_prefixes_ok [OF g(2)] by metis
  have f3ne: "f3 \<noteq> []"
    by (rule ne [of "length ids"]) (use assms(2-4) in \<open>simp_all add: starts_with_take\<close>)
  obtain h c5 where h: "(if g = [] then ?w lo (length ids) c3 else (g, c3)) = (h, c5)"
    "cache_ok tk skip ids c5" "\<forall>m \<in> set h. covers tk skip ids t ?r lo m" "h \<noteq> []"
    using g f3 f3ne by (cases "g = []") auto
  have "find_token_boundary tk skip ids t target lo low_char c = Inr (shortest_prefix h, c5)"
    by (simp add: find_token_boundary_def Let_def s f1(1) g(1) h(1,4))
  then show thesis by (rule that [OF _ h(2)]) (use h(3) shortest_prefix_in [OF h(4)] in blast)
qed

section \<open>Aligning the steps\<close>

abbreviation token_spans :: "token_step list \<Rightarrow> (int \<times> int) list" where
  "token_spans steps \<equiv> map (\<lambda>s. (int (token_start s), int (token_end s))) steps"

abbreviation visible_spans :: "token_step list \<Rightarrow> (int \<times> int) list" where
  "visible_spans steps \<equiv> map (\<lambda>s. (int (char_start s), int (char_end s))) steps"

definition aligned :: "tokenizer \<Rightarrow> bool \<Rightarrow> int list \<Rightarrow> ustr \<Rightarrow> alignment \<Rightarrow> bool" where
  "aligned tk skip ids t a \<longleftrightarrow>
     cache_ok tk skip ids (al_cache a) \<and> al_token_end a \<le> length ids \<and> al_char_end a \<le> length t \<and>
     visible_prefix tk skip ids (al_token_end a) = take (al_char_end a) t \<and>
     contiguous 0 (int (al_token_end a)) (token_spans (al_steps a)) \<and>
     contiguous 0 (int (al_char_end a)) (visible_spans (al_steps a)) \<and>
     (al_steps a = [] \<longrightarrow> al_token_end a = 0 \<and> al_char_end a = 0) \<and>
     (al_steps a \<noteq> [] \<longrightarrow> token_end (last (al_steps a)) = al_token_end a \<and> char_end (last (al_steps a)) = al_char_end a) \<and>
     concat (map step_text (al_steps a)) = take (al_char_end a) t \<and>
     map step_index (al_steps a) = [0..<length (al_steps a)] \<and>
     (\<forall>s \<in> set (al_steps a). visible_prefix tk skip ids (token_end s) = take (char_end s) t)"

lemma contiguous_snoc:
  "contiguous p n (rs @ [(s, e)]) \<longleftrightarrow> contiguous p n rs \<and> 0 \<le> s \<and> s < e \<and> e \<le> n \<and> s = (if rs = [] then p else snd (last rs))"
  by (auto simp: contiguous_append)

lemma align_step_ok:
  assumes "aligned tk skip ids t a" "ts_char_end ts \<le> length t" "visible_prefix tk skip ids (length ids) = t"
  obtains a' where "align_step tk skip ids t ts a = Inr a'" "aligned tk skip ids t a'"
    "ts_char_end ts \<le> al_char_end a'" "al_char_end a \<le> al_char_end a'"
proof (cases "ts_char_end ts \<le> al_char_end a")
  case True
  then show thesis using that [of a] assms(1) by (simp add: align_step_def)
next
  case False
  note inv = assms(1) [unfolded aligned_def]
  have "max (ts_char_end ts) (al_char_end a + 1) \<le> length t" using False assms(2) by simp
  from find_token_boundary_ok [OF conjunct1 [OF inv] _ this assms(3), of "al_token_end a"] inv
  obtain m c where f: "find_token_boundary tk skip ids t (ts_char_end ts) (al_token_end a) (al_char_end a + 1) (al_cache a) = Inr (m, c)"
    "cache_ok tk skip ids c" "covers tk skip ids t (max (ts_char_end ts) (al_char_end a + 1)) (al_token_end a) m"
    by blast
  obtain te ce where m: "m = (te, ce)" by (cases m)
  have cov: "al_token_end a \<le> te" "te \<le> length ids" "ts_char_end ts \<le> ce" "al_char_end a < ce" "ce \<le> length t"
    "visible_prefix tk skip ids te = take ce t"
    using f(3) by (auto simp: covers_def m)
  have "te \<noteq> al_token_end a"
  proof
    assume "te = al_token_end a"
    then have "take ce t = take (al_char_end a) t" using cov(6) inv by simp
    then have "length (take ce t) = length (take (al_char_end a) t)" by simp
    then show False using cov(4,5) by simp
  qed
  then have te: "al_token_end a < te" using cov(1) by simp
  let ?s = "\<lparr>step_index = length (al_steps a), char_start = al_char_end a, char_end = ce,
                       token_start = al_token_end a, token_end = te, step_text = slice (al_char_end a) ce t,
                       step_kind = ts_kind ts, boundary_reason = ts_boundary_reason ts, confidence = ts_confidence ts\<rparr>"
  let ?a = "\<lparr>al_steps = al_steps a @ [?s], al_token_end = te, al_char_end = ce, al_cache = c\<rparr>"
  have "align_step tk skip ids t ts a = Inr ?a"
    using False te cov(4) unfolding align_step_def f(1) by (simp add: m)
  moreover have "aligned tk skip ids t ?a"
  proof -
    have "contiguous 0 (int te) (token_spans (al_steps a @ [?s]))"
      using inv te contiguous_mono [of 0 "int (al_token_end a)" _ "int te"]
      by (auto simp: contiguous_snoc last_map)
    moreover have "contiguous 0 (int ce) (visible_spans (al_steps a @ [?s]))"
      using inv cov(4) contiguous_mono [of 0 "int (al_char_end a)" _ "int ce"]
      by (auto simp: contiguous_snoc last_map)
    moreover have "concat (map step_text (al_steps a @ [?s])) = take ce t"
      using inv slice_append [of 0 "al_char_end a" ce t] cov(4) by simp
    ultimately show ?thesis using inv cov f(2) by (simp add: aligned_def)
  qed
  ultimately show thesis using that [of ?a] cov(3,4) by simp
qed

lemma align_all_ok:
  assumes "\<forall>ts \<in> set tss. ts_char_end ts \<le> length t" "visible_prefix tk skip ids (length ids) = t"
  shows "aligned tk skip ids t a \<Longrightarrow> \<exists>a'. efold (align_step tk skip ids t) tss a = Inr a' \<and> aligned tk skip ids t a' \<and>
     (\<forall>ts \<in> set tss. ts_char_end ts \<le> al_char_end a') \<and> al_char_end a \<le> al_char_end a'"
  using assms(1)
proof (induction tss arbitrary: a)
  case (Cons ts tss)
  obtain a1 where a1: "align_step tk skip ids t ts a = Inr a1" "aligned tk skip ids t a1"
    "ts_char_end ts \<le> al_char_end a1" "al_char_end a \<le> al_char_end a1"
    using align_step_ok [OF Cons.prems(1) _ assms(2), of ts] Cons.prems(2) by auto
  obtain a2 where "efold (align_step tk skip ids t) tss a1 = Inr a2" "aligned tk skip ids t a2"
     "\<forall>ts \<in> set tss. ts_char_end ts \<le> al_char_end a2" "al_char_end a1 \<le> al_char_end a2"
    using Cons.IH [OF a1(2)] Cons.prems(2) by auto
  then show ?case using a1 by auto
qed simp

lemma contiguous_texts:
  assumes "contiguous (int p) (int (length t)) (char_spans steps)" "steps \<noteq> []"
    and "\<forall>s \<in> set steps. ts_text s = slice (ts_char_start s) (ts_char_end s) t"
  shows "concat (map ts_text steps) = slice p (ts_char_end (last steps)) t \<and> p \<le> ts_char_end (last steps)"
  using assms
proof (induction steps arbitrary: p)
  case (Cons s steps)
  show ?case
  proof (cases "steps = []")
    case True
    then show ?thesis using Cons.prems by simp
  next
    case False
    have "concat (map ts_text steps) = slice (ts_char_end s) (ts_char_end (last steps)) t \<and> ts_char_end s \<le> ts_char_end (last steps)"
      by (rule Cons.IH) (use Cons.prems False in auto)
    then show ?thesis using Cons.prems False by (simp add: slice_append)
  qed
qed simp

lemma split_rollout_steps_ok:
  assumes "tok_decode tk skip [] = []" "split_text_steps ud (tok_decode tk skip ids) = Inr tss"
  obtains a where "split_rollout_steps ud tk skip ids = Inr (tok_decode tk skip ids, al_steps a)"
    "aligned tk skip ids (tok_decode tk skip ids) a" "al_char_end a = length (tok_decode tk skip ids)"
proof -
  let ?t = "tok_decode tk skip ids"
  let ?a0 = "\<lparr>al_steps = [], al_token_end = 0, al_char_end = 0, al_cache = [(0, [])]\<rparr>"
  have all: "visible_prefix tk skip ids (length ids) = ?t"
    using assms(1) by (simp add: visible_prefix_def decode_ids_def)
  have a0: "aligned tk skip ids ?t ?a0" by (simp add: aligned_def visible_prefix_def)
  note part = split_text_steps_partition [OF assms(2)]
  show thesis
  proof (cases "tss = []")
    case True
    then have "?t = []" using part by simp
    then show thesis using that [of ?a0] a0 assms(2) by (simp add: split_rollout_steps_def decode_ids_def True)
  next
    case False
    have "\<forall>ts \<in> set tss. ts_char_end ts \<le> length ?t"
    proof
      fix ts assume "ts \<in> set tss"
      then have "(int (ts_char_start ts), int (ts_char_end ts)) \<in> set (char_spans tss)" by simp
      from contiguous_bounds [OF conjunct1 [OF part] this] show "ts_char_end ts \<le> length ?t" by simp
    qed
    from align_all_ok [OF this all a0] obtain a where
      a: "efold (align_step tk skip ids ?t) tss ?a0 = Inr a" "aligned tk skip ids ?t a" "\<forall>ts \<in> set tss. ts_char_end ts \<le> al_char_end a"
      by blast
    have "length ?t \<le> al_char_end a"
    proof -
      have "?t = take (ts_char_end (last tss)) ?t"
        using contiguous_texts [of 0 ?t tss] part False by simp
      then have "length ?t \<le> ts_char_end (last tss)" by (metis length_take min.cobounded2)
      then show ?thesis using a(3) last_in_set [OF False] le_trans by blast
    qed
    then have full: "al_char_end a = length ?t" using a(2) by (simp add: aligned_def)
    moreover have "concat (map step_text (al_steps a)) = ?t" using a(2) full by (simp add: aligned_def)
    ultimately have "split_rollout_steps ud tk skip ids = Inr (?t, al_steps a)"
      using assms(2) False a(1) by (simp add: split_rollout_steps_def decode_ids_def)
    then show thesis using that a(2) full by blast
  qed
qed

section \<open>Prefix-consistent tokenizers\<close>

text \<open>
  For a tokenizer whose prefixes decode to prefixes of the text, of growing length, the search has
  a declarative specification: \<open>first_cover b\<close> is the least number of ids that shows
  \<open>b\<close> characters.
\<close>

definition shown :: "tokenizer \<Rightarrow> bool \<Rightarrow> int list \<Rightarrow> nat \<Rightarrow> nat" where
  "shown tk skip ids e = length (tok_decode tk skip (take e ids))"

definition first_cover :: "tokenizer \<Rightarrow> bool \<Rightarrow> int list \<Rightarrow> nat \<Rightarrow> nat" where
  "first_cover tk skip ids b = (LEAST e. b \<le> shown tk skip ids e)"

definition prefix_consistent :: "tokenizer \<Rightarrow> bool \<Rightarrow> int list \<Rightarrow> bool" where
  "prefix_consistent tk skip ids \<longleftrightarrow> tok_decode tk skip [] = [] \<and>
     (\<forall>e \<le> length ids. starts_with (tok_decode tk skip ids) (tok_decode tk skip (take e ids))) \<and>
     (\<forall>e < length ids. shown tk skip ids e \<le> shown tk skip ids (Suc e))"

abbreviation cover :: "tokenizer \<Rightarrow> bool \<Rightarrow> int list \<Rightarrow> nat \<Rightarrow> nat \<times> nat" where
  "cover tk skip ids b \<equiv> (first_cover tk skip ids b, shown tk skip ids (first_cover tk skip ids b))"

lemma shown_mono:
  assumes "prefix_consistent tk skip ids" "e \<le> e'"
  shows "shown tk skip ids e \<le> shown tk skip ids e'"
proof (rule lift_Suc_mono_le [OF _ assms(2)])
  show "shown tk skip ids n \<le> shown tk skip ids (Suc n)" for n
    using assms(1) by (cases "n < length ids") (auto simp: prefix_consistent_def shown_def)
qed

lemma visible_prefix_shown:
  assumes "prefix_consistent tk skip ids"
  shows "length (visible_prefix tk skip ids e) = shown tk skip ids e" "visible_prefix tk skip ids (length ids) = tok_decode tk skip ids"
    "starts_with (tok_decode tk skip ids) (visible_prefix tk skip ids e)"
  using assms by (auto simp: prefix_consistent_def visible_prefix_def shown_def decode_ids_def)
    (metis linorder_linear order.refl take_all take_all_iff)

lemma first_cover_props:
  assumes "b \<le> length (tok_decode tk skip ids)"
  shows "b \<le> shown tk skip ids (first_cover tk skip ids b)" "first_cover tk skip ids b \<le> length ids"
proof -
  have "b \<le> shown tk skip ids (length ids)" using assms by (simp add: shown_def)
  then show "b \<le> shown tk skip ids (first_cover tk skip ids b)" "first_cover tk skip ids b \<le> length ids"
    unfolding first_cover_def by (rule LeastI, rule Least_le)
qed

lemma first_cover_le: "b \<le> shown tk skip ids e \<Longrightarrow> first_cover tk skip ids b \<le> e"
  unfolding first_cover_def by (rule Least_le)

text \<open>The binary search ends at the first cover.\<close>

lemma search_prefix_first:
  assumes "prefix_consistent tk skip ids" "cache_ok tk skip ids c" "low \<le> high"
    and "\<forall>e < low. shown tk skip ids e < r" "r \<le> shown tk skip ids high"
  shows "fst (search_prefix tk skip ids r low high c) = first_cover tk skip ids r"
  using assms
proof (induction tk skip ids r low high c rule: search_prefix.induct)
  case (1 tk skip ids r low high c)
  let ?m = "(low + high) div 2"
  obtain c1 where c1: "decode_prefix tk skip ids ?m c = (visible_prefix tk skip ids ?m, c1)" "cache_ok tk skip ids c1"
    using decode_prefix_ok [OF 1(4)] by blast
  note len = visible_prefix_shown(1) [OF 1(3)]
  show ?case
  proof (cases "low < high")
    case False
    then have "low = high" using 1(5) by simp
    then have "first_cover tk skip ids r = low"
      using 1(6,7) unfolding first_cover_def by (intro Least_equality) (auto simp: not_less [symmetric])
    then show ?thesis using False by (simp add: search_prefix.simps [of tk skip ids r low high c])
  next
    case True
    have m: "low \<le> ?m" "?m < high" using True by auto
    show ?thesis
    proof (cases "shown tk skip ids ?m < r")
      case less: True
      have small: "\<forall>e < ?m + 1. shown tk skip ids e < r"
        using less shown_mono [OF 1(3)] by (metis Suc_eq_plus1 le_less_trans less_Suc_eq_le)
      have "length (visible_prefix tk skip ids ?m) < r" using less by (simp add: len)
      from 1(1) [OF True refl c1(1) [symmetric] refl this 1(3) c1(2) _ small 1(7)] m less show ?thesis
        by (simp add: search_prefix.simps [of tk skip ids r low high c] True c1(1) len)
    next
      case False
      then have "\<not> length (visible_prefix tk skip ids ?m) < r" by (simp add: len)
      from 1(2) [OF True refl c1(1) [symmetric] refl this 1(3) c1(2) m(1) 1(6)] False show ?thesis
        by (simp add: search_prefix.simps [of tk skip ids r low high c] True c1(1) len)
    qed
  qed
qed

lemma shortest_prefix_least:
  assumes "(e, n) \<in> set found" "\<And>e' n'. (e', n') \<in> set found \<Longrightarrow> (n, e) \<le> (n', e')"
  shows "shortest_prefix found = (e, n)"
proof -
  have "Min (set (map prod.swap found)) = (n, e)"
  proof (rule Min_eqI)
    show "(n, e) \<in> set (map prod.swap found)" using assms(1) by force
  qed (use assms(2) in auto)
  then show ?thesis by (simp add: shortest_prefix_def)
qed

lemma find_first_cover:
  assumes "prefix_consistent tk skip ids" "cache_ok tk skip ids c" "lo \<le> length ids"
    and "shown tk skip ids lo < r" "r = max target low_char" "r \<le> length (tok_decode tk skip ids)"
  obtains c' where "find_token_boundary tk skip ids (tok_decode tk skip ids) target lo low_char c = Inr (cover tk skip ids r, c')"
    "cache_ok tk skip ids c'"
proof -
  let ?t = "tok_decode tk skip ids" and ?p = "first_cover tk skip ids r"
  let ?v = "visible_prefix tk skip ids"
  note vis = visible_prefix_shown [OF assms(1)]
  note fc = first_cover_props [OF assms(6)]
  have small: "\<forall>e < lo. shown tk skip ids e < r"
    using assms(4) shown_mono [OF assms(1)] by (meson le_less_trans less_imp_le)
  have "r \<le> shown tk skip ids (length ids)" using assms(6) by (simp add: shown_def)
  note fst_p = search_prefix_first [OF assms(1,2,3) small this]
  obtain c0 where s: "search_prefix tk skip ids r lo (length ids) c = (?p, c0)"
    using fst_p by (cases "search_prefix tk skip ids r lo (length ids) c") simp
  have c0: "cache_ok tk skip ids c0" using search_prefix_ok [OF assms(2), of r lo "length ids"] by (simp add: s)
  have lo_p: "lo < ?p"
  proof (rule ccontr)
    assume "\<not> lo < ?p"
    then have "shown tk skip ids ?p \<le> shown tk skip ids lo" by (intro shown_mono [OF assms(1)]) simp
    then show False using fc(1) assms(4) by simp
  qed
  let ?es = "[max lo (?p - 16)..<Suc (min (length ids) (?p + 16))]"
  let ?f = "map (\<lambda>e. (e, length (?v e))) (filter (\<lambda>e. r \<le> length (?v e) \<and> starts_with ?t (?v e)) ?es)"
  obtain c' where c': "scan_prefixes tk skip ids ?t r ?es c0 = (?f, c')" "cache_ok tk skip ids c'"
    using scan_prefixes_ok [OF c0] by blast
  have in_f: "(e, n) \<in> set ?f \<longleftrightarrow> e \<in> set ?es \<and> n = shown tk skip ids e \<and> r \<le> n" for e n
    unfolding set_map set_filter vis(1) using vis(3) by blast
  have pe: "?p \<in> set ?es"
    unfolding set_upt atLeastLessThan_iff using lo_p fc(2) by linarith
  have mem: "(?p, shown tk skip ids ?p) \<in> set ?f" unfolding in_f using pe fc(1) by blast
  have least: "(shown tk skip ids ?p, ?p) \<le> (n, e)" if "(e, n) \<in> set ?f" for e n
  proof -
    have "r \<le> shown tk skip ids e" "n = shown tk skip ids e" using that unfolding in_f by blast+
    then have "?p \<le> e" by (intro first_cover_le)
    then show ?thesis using shown_mono [OF assms(1) \<open>?p \<le> e\<close>] \<open>n = _\<close> by (simp add: less_eq_prod_def)
  qed
  have ne: "?f \<noteq> []" using mem by (metis empty_iff list.set(1))
  have "candidate_prefixes tk skip ids ?t r lo (?p - 16) (?p + 16) c0 = (?f, c')"
    unfolding candidate_prefixes_def by (rule c'(1))
  then have "find_token_boundary tk skip ids ?t target lo low_char c = Inr (shortest_prefix ?f, c')"
    unfolding find_token_boundary_def assms(5) [symmetric] Let_def s case_prod_conv using ne
    by (simp only: if_False case_prod_conv raise_if_False)
  then show thesis
    by (intro that [OF _ c'(2)]) (simp only: shortest_prefix_least [OF mem least])
qed

abbreviation step_ends :: "token_step list \<Rightarrow> (nat \<times> nat) list" where
  "step_ends steps \<equiv> map (\<lambda>s. (token_end s, char_end s)) steps"

lemma cover_0: "prefix_consistent tk skip ids \<Longrightarrow> cover tk skip ids 0 = (0, 0)"
  using first_cover_le [of 0 tk skip ids 0] by (simp add: shown_def prefix_consistent_def)

lemma align_covers:
  assumes "prefix_consistent tk skip ids"
  shows "cache_ok tk skip ids (al_cache a) \<Longrightarrow> (al_token_end a, al_char_end a) = cover tk skip ids b \<Longrightarrow>
     sorted (b # map ts_char_end tss) \<Longrightarrow> b \<le> length (tok_decode tk skip ids) \<Longrightarrow>
     \<forall>ts \<in> set tss. ts_char_end ts \<le> length (tok_decode tk skip ids) \<Longrightarrow>
     efold (align_step tk skip ids (tok_decode tk skip ids)) tss a = Inr a' \<Longrightarrow>
     step_ends (al_steps a') = step_ends (al_steps a) @ tl (remdups_adj (map (cover tk skip ids) (b # map ts_char_end tss)))"
proof (induction tss arbitrary: a b)
  case (Cons ts tss)
  let ?t = "tok_decode tk skip ids" and ?b = "ts_char_end ts"
  let ?rest = "map (cover tk skip ids) (map ts_char_end tss)"
  note b_cov = first_cover_props [OF Cons.prems(4)]
  have le: "b \<le> ?b" "?b \<le> length ?t" using Cons.prems(3,5) by simp_all
  note cov = first_cover_props [OF le(2)]
  show ?case
  proof (cases "?b \<le> al_char_end a")
    case True
    have "first_cover tk skip ids ?b \<le> first_cover tk skip ids b" using True Cons.prems(2) by (intro first_cover_le) simp
    moreover have "first_cover tk skip ids b \<le> first_cover tk skip ids ?b" using le cov(1) by (intro first_cover_le) simp
    ultimately have same: "first_cover tk skip ids ?b = first_cover tk skip ids b" by simp
    have "align_step tk skip ids ?t ts a = Inr a" using True by (simp add: align_step_def)
    then have "efold (align_step tk skip ids ?t) tss a = Inr a'" using Cons.prems(6) by simp
    from Cons.IH [OF Cons.prems(1) _ _ le(2) _ this] Cons.prems(2,3,5) same show ?thesis by simp
  next
    case False
    have r: "?b = max ?b (al_char_end a + 1)" using False by simp
    have lo: "al_token_end a \<le> length ids" "shown tk skip ids (al_token_end a) < ?b"
      using Cons.prems(2) b_cov(2) False by simp_all
    obtain c where f: "find_token_boundary tk skip ids ?t ?b (al_token_end a) (al_char_end a + 1) (al_cache a)
        = Inr (cover tk skip ids ?b, c)" "cache_ok tk skip ids c"
      using find_first_cover [OF assms Cons.prems(1) lo r le(2)] by blast
    have grow: "al_char_end a < shown tk skip ids (first_cover tk skip ids ?b)" using False cov(1) by simp
    have growt: "al_token_end a < first_cover tk skip ids ?b"
    proof (rule ccontr)
      assume "\<not> ?thesis"
      then have "shown tk skip ids (first_cover tk skip ids ?b) \<le> shown tk skip ids (al_token_end a)"
        by (intro shown_mono [OF assms]) simp
      then show False using lo(2) cov(1) by simp
    qed
    obtain a1 where a1: "align_step tk skip ids ?t ts a = Inr a1" "al_cache a1 = c"
      "(al_token_end a1, al_char_end a1) = cover tk skip ids ?b"
      "step_ends (al_steps a1) = step_ends (al_steps a) @ [cover tk skip ids ?b]"
      using False grow growt unfolding align_step_def f(1) by simp
    have "efold (align_step tk skip ids ?t) tss a1 = Inr a'" using Cons.prems(6) a1(1) by simp
    from Cons.IH [OF _ a1(3) _ le(2) _ this] f(2) a1(2) Cons.prems(3,5)
    have IH: "step_ends (al_steps a') = step_ends (al_steps a1) @ tl (remdups_adj (cover tk skip ids ?b # ?rest))" by simp
    have "cover tk skip ids b \<noteq> cover tk skip ids ?b" using Cons.prems(2) growt by simp
    moreover have "remdups_adj (cover tk skip ids ?b # ?rest) = cover tk skip ids ?b # tl (remdups_adj (cover tk skip ids ?b # ?rest))"
      by (metis remdups_adj_Cons_alt)
    ultimately show ?thesis unfolding IH a1(4) by simp
  qed
qed simp

lemma contiguous_sorted_ends: "contiguous (int p) n (char_spans tss) \<Longrightarrow> sorted (p # map ts_char_end tss)"
proof (induction tss arbitrary: p)
  case (Cons ts tss)
  then have "sorted (ts_char_end ts # map ts_char_end tss)" "p < ts_char_end ts" by auto
  then show ?case by (auto intro: less_imp_le le_trans)
qed simp

lemma rollout_covers:
  assumes "prefix_consistent tk skip ids" "split_text_steps ud (tok_decode tk skip ids) = Inr tss"
    and "split_rollout_steps ud tk skip ids = Inr (response, steps)"
  shows "step_ends steps = remdups_adj (map (cover tk skip ids) (map ts_char_end tss))"
proof (cases "tss = []")
  case True
  then show ?thesis using assms(2,3) by (simp add: split_rollout_steps_def decode_ids_def)
next
  case False
  let ?t = "tok_decode tk skip ids"
  let ?a0 = "\<lparr>al_steps = [], al_token_end = 0, al_char_end = 0, al_cache = [(0, [])]\<rparr>"
  obtain a where a: "efold (align_step tk skip ids ?t) tss ?a0 = Inr a" "steps = al_steps a"
    using assms(2,3) False by (auto simp: split_rollout_steps_def decode_ids_def ebind_Inr raise_if_Inr Let_def)
  have part: "contiguous (int 0) (int (length ?t)) (char_spans tss)" using split_text_steps_partition [OF assms(2)] by simp
  have bounds: "0 < ts_char_end ts \<and> ts_char_end ts \<le> length ?t" if "ts \<in> set tss" for ts
  proof -
    have "(int (ts_char_start ts), int (ts_char_end ts)) \<in> set (char_spans tss)" using that by simp
    from contiguous_bounds [OF part this] show ?thesis by simp
  qed
  have "step_ends steps = tl (remdups_adj (map (cover tk skip ids) (0 # map ts_char_end tss)))"
  proof -
    have start: "(al_token_end ?a0, al_char_end ?a0) = cover tk skip ids 0"
      unfolding cover_0 [OF assms(1)] by simp
    have ends: "\<forall>ts \<in> set tss. ts_char_end ts \<le> length ?t" using bounds by blast
    have "cache_ok tk skip ids (al_cache ?a0)" by simp
    from align_covers [OF assms(1) this start contiguous_sorted_ends [OF part] le0 ends a(1)]
    show ?thesis unfolding a(2) by (simp only: alignment.simps list.map(1) append_Nil)
  qed
  also have "\<dots> = remdups_adj (map (cover tk skip ids) (map ts_char_end tss))"
  proof -
    obtain ts tss' where tss: "tss = ts # tss'" using False by (cases tss) auto
    have "shown tk skip ids (first_cover tk skip ids (ts_char_end ts)) \<noteq> 0"
      using first_cover_props(1) [of "ts_char_end ts" tk skip ids] bounds [of ts] tss by simp
    then have "cover tk skip ids 0 \<noteq> cover tk skip ids (ts_char_end ts)" unfolding cover_0 [OF assms(1)] by simp
    then show ?thesis by (simp add: tss)
  qed
  finally show ?thesis .
qed


section \<open>Properties\<close>

text \<open>A tokenizer with one token per character.\<close>

definition character_tokenizer :: tokenizer where
  "character_tokenizer = \<lparr>tok_decode = (\<lambda>_ ids. map nat ids), tok_encode = (\<lambda>t. (map int t, None))\<rparr>"

lemma split_rollout_partition:
  assumes "tok_decode tk skip [] = []" and "split_text_steps ud (tok_decode tk skip ids) = Inr tss"
  shows "\<exists>steps. split_rollout_steps ud tk skip ids = Inr (tok_decode tk skip ids, steps) \<and>
     contiguous 0 (int (length ids)) (token_spans steps) \<and>
     contiguous 0 (int (length (tok_decode tk skip ids))) (visible_spans steps) \<and>
     concat (map step_text steps) = tok_decode tk skip ids \<and> map step_index steps = [0..<length steps] \<and>
     (\<forall>s \<in> set steps. tok_decode tk skip (take (token_end s) ids) = take (char_end s) (tok_decode tk skip ids))"
proof -
  let ?t = "tok_decode tk skip ids"
  from split_rollout_steps_ok [OF assms] obtain a where
    a: "split_rollout_steps ud tk skip ids = Inr (?t, al_steps a)" "aligned tk skip ids ?t a" "al_char_end a = length ?t"
    by blast
  note inv = a(2) [unfolded aligned_def a(3)]
  then have spans: "contiguous 0 (int (al_token_end a)) (token_spans (al_steps a))" by blast
  have "contiguous 0 (int (length ids)) (token_spans (al_steps a))"
    by (rule contiguous_mono [OF spans]) (use inv in simp)
  moreover have "tok_decode tk skip (take (token_end s) ids) = take (char_end s) ?t" if s: "s \<in> set (al_steps a)" for s
  proof -
    have "(int (token_start s), int (token_end s)) \<in> set (token_spans (al_steps a))" using s by simp
    from contiguous_bounds [OF spans this] have "token_end s \<noteq> 0" by simp
    moreover have "visible_prefix tk skip ids (token_end s) = take (char_end s) ?t" using inv s by blast
    ultimately show ?thesis by (simp add: visible_prefix_def decode_ids_def)
  qed
  ultimately show ?thesis using a(1) inv by (intro exI [of _ "al_steps a"] conjI ballI) simp_all
qed

text \<open>
  C13: For every tokenizer that decodes no ids to no text, token alignment adds no failure of its own:
  when the decoded text is split into steps, so is the rollout, and when the text splitter raises, the
  same error comes out. The splitter cannot raise for a response with at most 4300 decimal digits (the
  limit of \<open>int\<close> on the number of a step marker is the only thing it trips over). The steps
  of a split rollout are contiguous spans of the original ids from the first on and contiguous spans
  of the decoded text from its first to its last character, their texts make up the response, and the
  ids up to the end of each step decode to exactly the text up to its end. Neither the missing-prefix
  error nor the two recovery checks ever raise.
\<close>

theorem token_steps_partition:
  assumes "tok_decode tk skip [] = []"
  shows "(case split_text_steps ud (tok_decode tk skip ids) of
      Inl e \<Rightarrow> split_rollout_steps ud tk skip ids = Inl e
    | Inr _ \<Rightarrow> \<exists>steps. split_rollout_steps ud tk skip ids = Inr (tok_decode tk skip ids, steps) \<and>
        contiguous 0 (int (length ids)) (token_spans steps) \<and>
        contiguous 0 (int (length (tok_decode tk skip ids))) (visible_spans steps) \<and>
        concat (map step_text steps) = tok_decode tk skip ids \<and> map step_index steps = [0..<length steps] \<and>
        (\<forall>s \<in> set steps. tok_decode tk skip (take (token_end s) ids) = take (char_end s) (tok_decode tk skip ids))) \<and>
    (decimals ud (tok_decode tk skip ids) \<le> 4300 \<longrightarrow> (\<exists>tss. split_text_steps ud (tok_decode tk skip ids) = Inr tss))"
proof (intro conjI impI)
  let ?t = "tok_decode tk skip ids"
  show "\<exists>tss. split_text_steps ud ?t = Inr tss" if "decimals ud ?t \<le> 4300"
    using split_text_steps_total [OF that] by blast
  have "\<exists>steps. split_rollout_steps ud tk skip ids = Inr (?t, steps) \<and>
      contiguous 0 (int (length ids)) (token_spans steps) \<and> contiguous 0 (int (length ?t)) (visible_spans steps) \<and>
      concat (map step_text steps) = ?t \<and> map step_index steps = [0..<length steps] \<and>
      (\<forall>s \<in> set steps. tok_decode tk skip (take (token_end s) ids) = take (char_end s) ?t)"
    if "split_text_steps ud ?t = Inr tss" for tss
    by (rule split_rollout_partition [OF assms that])
  then show "case split_text_steps ud ?t of Inl e \<Rightarrow> split_rollout_steps ud tk skip ids = Inl e
    | Inr _ \<Rightarrow> \<exists>steps. split_rollout_steps ud tk skip ids = Inr (?t, steps) \<and>
        contiguous 0 (int (length ids)) (token_spans steps) \<and> contiguous 0 (int (length ?t)) (visible_spans steps) \<and>
        concat (map step_text steps) = ?t \<and> map step_index steps = [0..<length steps] \<and>
        (\<forall>s \<in> set steps. tok_decode tk skip (take (token_end s) ids) = take (char_end s) ?t)"
    by (cases "split_text_steps ud ?t") (simp_all add: split_rollout_steps_def decode_ids_def)
qed

theorem token_steps_partition_witness:
  "\<exists>steps. split_rollout_steps ascii_only character_tokenizer True (map int two_steps) = Inr (two_steps, steps) \<and>
     concat (map step_text steps) = two_steps"
proof -
  have d: "tok_decode character_tokenizer True (map int two_steps) = two_steps" "tok_decode character_tokenizer True [] = []"
    by (simp_all add: character_tokenizer_def comp_def)
  have "decimals ascii_only two_steps \<le> 4300" by code_simp
  then show ?thesis
    using token_steps_partition [OF d(2), of ascii_only "map int two_steps"] unfolding d by auto
qed

text \<open>
  C14: for a tokenizer whose prefixes decode to growing prefixes of the text, and a response with at
  most 4300 decimal digits (so that the text is split at all), the binary search and its windows meet the declarative specification: the steps end at exactly the first token
  prefixes that cover the proposed text boundaries, so a token that crosses a boundary belongs to
  the preceding step, no further token does, and boundaries inside one token collapse to one.
\<close>

theorem steps_end_at_first_covers:
  assumes "prefix_consistent tk skip ids" and "decimals ud (tok_decode tk skip ids) \<le> 4300"
  shows "\<exists>tss steps. split_text_steps ud (tok_decode tk skip ids) = Inr tss \<and>
     split_rollout_steps ud tk skip ids = Inr (tok_decode tk skip ids, steps) \<and>
     map (\<lambda>s. (token_end s, char_end s)) steps =
       remdups_adj (map (\<lambda>ts. let e = first_cover tk skip ids (ts_char_end ts) in (e, shown tk skip ids e)) tss)"
proof -
  obtain tss where tss: "split_text_steps ud (tok_decode tk skip ids) = Inr tss" using split_text_steps_total [OF assms(2)] by blast
  have "tok_decode tk skip [] = []" using assms(1) by (simp add: prefix_consistent_def)
  from split_rollout_steps_ok [OF this tss] obtain steps where
    steps: "split_rollout_steps ud tk skip ids = Inr (tok_decode tk skip ids, steps)" by blast
  have "step_ends steps = remdups_adj (map (\<lambda>ts. let e = first_cover tk skip ids (ts_char_end ts) in (e, shown tk skip ids e)) tss)"
    using rollout_covers [OF assms(1) tss steps] by (simp add: Let_def comp_def)
  then show ?thesis using tss steps by blast
qed

lemma character_tokenizer_consistent: "prefix_consistent character_tokenizer skip (map int t)"
proof -
  have "starts_with t (take e t)" for e by (simp add: starts_with_take min_def)
  then show ?thesis
    by (auto simp: prefix_consistent_def character_tokenizer_def shown_def comp_def take_map)
qed

theorem steps_end_at_first_covers_witness:
  "\<exists>tss steps. split_text_steps ascii_only two_steps = Inr tss \<and>
     split_rollout_steps ascii_only character_tokenizer True (map int two_steps) = Inr (two_steps, steps) \<and>
     map (\<lambda>s. (token_end s, char_end s)) steps = remdups_adj (map (\<lambda>ts.
       let e = first_cover character_tokenizer True (map int two_steps) (ts_char_end ts)
       in (e, shown character_tokenizer True (map int two_steps) e)) tss)"
proof -
  have d: "tok_decode character_tokenizer True (map int two_steps) = two_steps" by (simp add: character_tokenizer_def comp_def)
  have "decimals ascii_only two_steps \<le> 4300" by code_simp
  then show ?thesis
    using steps_end_at_first_covers [OF character_tokenizer_consistent [of True two_steps], of ascii_only, unfolded d] by blast
qed

end
