(* ===== verification/Probe_Layout.thy ===== *)
theory Probe_Layout
  imports Answer_Probe Step_Data
begin

text \<open>
  Packed answer-probe layouts (\<open>utils/r2opl.py\<close>, the layout half): semantic ranges, the
  construction of the packed sequence, its validation, the branch-causal attention mask and
  the padded batch.

  All lengths and positions are \<open>int\<close>, as Python integers: \<open>validate_r2opl_probe_layout\<close>
  takes an arbitrary layout and its negative-value guards are real branches.
\<close>

section \<open>Data\<close>

record probe_branch =
  br_index :: int
  after_step_index :: "int option"
  visible_prefix_end :: int
  probe_start :: int
  probe_end :: int
  answer_token_positions :: "int list"

record probe_layout =
  sequence_ids :: "int list"
  position_ids :: "int list"
  original_sequence_length :: int
  prompt_length :: int
  response_length :: int
  semantic_step_ranges :: "(int \<times> int) list"
  probe_token_ids :: "int list"
  branches :: "probe_branch list"

definition num_semantic_steps :: "probe_layout \<Rightarrow> nat" where
  "num_semantic_steps L = length (semantic_step_ranges L)"

definition num_probed_steps :: "probe_layout \<Rightarrow> int" where
  "num_probed_steps L = max 0 (int (num_semantic_steps L) - 1)"

definition last_step_range :: "probe_layout \<Rightarrow> (int \<times> int) option" where
  "last_step_range L =
     (if semantic_step_ranges L = [] then None else Some (last (semantic_step_ranges L)))"

section \<open>Multimodal inputs\<close>

text \<open>
  Processor values: tensors of numbers (nested tensors are flattened), lists, and anything
  else with its truth value.
\<close>

datatype mm_value = MMTensor "flt list" | MMList "mm_value list" | MMOther bool

fun mm_token_type_ids_contain_media :: "mm_value \<Rightarrow> bool" where
  "mm_token_type_ids_contain_media (MMTensor xs) = (\<exists>x \<in> set xs. \<not> feq x (Fin 0))"
| "mm_token_type_ids_contain_media (MMList vs) = (\<exists>v \<in> set vs. mm_token_type_ids_contain_media v)"
| "mm_token_type_ids_contain_media (MMOther b) = b"

fun r2opl_has_unsupported_multimodal_inputs :: "(string \<times> mm_value option) list \<Rightarrow> bool" where
  "r2opl_has_unsupported_multimodal_inputs [] = False"
| "r2opl_has_unsupported_multimodal_inputs ((key, v) # rest) =
     (case v of
        None \<Rightarrow> r2opl_has_unsupported_multimodal_inputs rest
      | Some value \<Rightarrow>
          if key = ''mm_token_type_ids''
          then (if mm_token_type_ids_contain_media value then True
                else r2opl_has_unsupported_multimodal_inputs rest)
          else True)"

section \<open>Semantic ranges\<close>

text \<open>
  A semantic step is a splitter step, an object with the same attributes and perhaps an
  index, a pair, or something that cannot be unpacked.
\<close>

datatype semantic_step =
    StepToken token_step
  | StepDuck "int option" int int
  | StepPair int int
  | StepOther

fun step_range :: "semantic_step \<Rightarrow> int \<Rightarrow> (int \<times> int) res" where
  "step_range (StepToken st) index =
     raise_if (int (step_index st) \<noteq> index) (ValueError ''consecutive source indices'')
       (Inr (int (token_start st), int (token_end st)))"
| "step_range (StepDuck source_index s e) index =
     raise_if ((case source_index of None \<Rightarrow> index | Some i \<Rightarrow> i) \<noteq> index)
       (ValueError ''consecutive source indices'') (Inr (s, e))"
| "step_range (StepPair s e) index = Inr (s, e)"
| "step_range StepOther index = Inl (ValueError ''must be a TokenStep or a pair'')"

fun validate_ranges_from :: "int \<Rightarrow> int \<Rightarrow> (int \<times> int) list \<Rightarrow> (int \<times> int) list res" where
  "validate_ranges_from response_len previous_end [] = Inr []"
| "validate_ranges_from response_len previous_end ((s, e) # rs) =
     raise_if (\<not> (0 \<le> s \<and> s < e \<and> e \<le> response_len))
       (ValueError ''Invalid R2OPL semantic token interval'')
     (raise_if (s \<noteq> previous_end)
       (ValueError ''steps must be contiguous from response token zero'')
     (ebind (validate_ranges_from response_len e rs) (\<lambda>rest. Inr ((s, e) # rest))))"

definition validate_semantic_ranges :: "(int \<times> int) list \<Rightarrow> int \<Rightarrow> (int \<times> int) list res" where
  "validate_semantic_ranges ranges response_len = validate_ranges_from response_len 0 ranges"

text \<open>The part of \<open>semantic_step_ends\<close> before its zero padding.\<close>

definition unpadded_ends :: "int list \<Rightarrow> int option \<Rightarrow> int list res" where
  "unpadded_ends values semantic_step_count =
     (case semantic_step_count of
        Some n \<Rightarrow>
          raise_if (\<not> (0 \<le> n \<and> n \<le> int (length values)))
            (ValueError ''semantic_step_count out of range'')
            (Inr (take (nat n) values))
      | None \<Rightarrow>
          if 0 \<in> set values
          then (let first_padding = length (takeWhile (\<lambda>v. v \<noteq> 0) values)
                in raise_if (\<exists>v \<in> set (drop first_padding values). v \<noteq> 0)
                     (ValueError ''non-zero value after padding'')
                     (Inr (take first_padding values)))
          else Inr values)"

definition semantic_step_ranges_from_ends ::
  "int list \<Rightarrow> int \<Rightarrow> int option \<Rightarrow> (int \<times> int) list res" where
  "semantic_step_ranges_from_ends semantic_step_ends response_len semantic_step_count =
     ebind (unpadded_ends semantic_step_ends semantic_step_count) (\<lambda>values.
       raise_if (\<exists>v \<in> set values. v \<le> 0) (ValueError ''step ends must be positive'')
       (if values = [] then
          \<comment> \<open>\<open>starts\<close> is \<open>[0]\<close>, so the strict \<open>zip\<close> with no ends raises\<close>
          Inl (ValueError ''zip() argument 2 is shorter than argument 1'')
        else validate_semantic_ranges (zip (0 # butlast values) values) response_len))"

section \<open>Validating a packed layout\<close>

text \<open>\<open>tuple(range(a, b))\<close> on Python integers.\<close>

definition py_range :: "int \<Rightarrow> int \<Rightarrow> int list" where
  "py_range a b = [a..b - 1]"

text \<open>One iteration of the branch loop; the accumulator is \<open>previous_probe_end\<close>.\<close>

definition validate_branch ::
  "probe_layout \<Rightarrow> (int \<times> int) list \<Rightarrow> int list \<Rightarrow> nat \<times> probe_branch \<Rightarrow> int \<Rightarrow> int res" where
  "validate_branch layout ranges probe_ids ib previous_probe_end =
     (let expected_index = fst ib; branch = snd ib; sequence_len = int (length (sequence_ids layout));
          expected_after_step = (if expected_index = 0 then None else Some (int expected_index - 1));
          expected_response_end = (if expected_index = 0 then 0 else snd (ranges ! (expected_index - 1)));
          expected_visible_prefix_end = prompt_length layout + expected_response_end;
          a = probe_start branch; b = probe_end branch; v = visible_prefix_end branch
      in raise_if (br_index branch \<noteq> int expected_index)
           (ValueError ''branch indices must be consecutive from zero'')
         (raise_if (after_step_index branch \<noteq> expected_after_step)
           (ValueError ''wrong after_step_index'')
         (raise_if (v \<noteq> expected_visible_prefix_end)
           (ValueError ''incorrect visible prefix length'')
         (raise_if (a \<noteq> previous_probe_end)
           (ValueError ''probe branches must be physically contiguous'')
         (raise_if (\<not> (1 \<le> v \<and> v \<le> original_sequence_length layout
                       \<and> original_sequence_length layout \<le> a \<and> a < b \<and> b \<le> sequence_len))
           (ValueError ''Invalid R2OPL probe branch'')
         (raise_if (b - a \<noteq> int (length probe_ids))
           (ValueError ''wrong probe length'')
         (raise_if (py_slice a b (sequence_ids layout) \<noteq> probe_ids)
           (ValueError ''does not contain the shared probe IDs'')
         (raise_if (py_slice a b (position_ids layout) \<noteq> py_range v (v + int (length probe_ids)))
           (ValueError ''incorrect logical position IDs'')
         (raise_if (answer_token_positions branch = [])
           (ValueError ''no answer-token positions'')
         (raise_if (\<exists>p \<in> set (map (\<lambda>p. p - a) (answer_token_positions branch)).
                       p \<le> 0 \<or> p \<ge> int (length probe_ids))
           (ValueError ''answer tokens without an in-branch predictor'')
         (Inr b)))))))))))"

definition validate_r2opl_probe_layout :: "probe_layout \<Rightarrow> unit res" where
  "validate_r2opl_probe_layout layout =
     (let sequence_len = int (length (sequence_ids layout)) in
      raise_if (sequence_len \<noteq> int (length (position_ids layout)))
        (ValueError ''sequence IDs and position IDs must have identical length'')
      (raise_if (prompt_length layout \<le> 0)
        (ValueError ''packed layouts require a non-empty prompt'')
      (raise_if (response_length layout < 0)
        (ValueError ''response length cannot be negative'')
      (raise_if (original_sequence_length layout \<noteq> prompt_length layout + response_length layout)
        (ValueError ''original length must equal prompt plus response'')
      (raise_if (\<not> (1 \<le> original_sequence_length layout \<and> original_sequence_length layout \<le> sequence_len))
        (ValueError ''original sequence length is invalid'')
      (raise_if (py_slice 0 (original_sequence_length layout) (position_ids layout)
                   \<noteq> py_range 0 (original_sequence_length layout))
        (ValueError ''must preserve original position IDs exactly'')
      (ebind (validate_semantic_ranges (semantic_step_ranges layout) (response_length layout)) (\<lambda>ranges.
       raise_if (semantic_step_ranges layout \<noteq> ranges)
         (ValueError ''ranges must be integer contiguous ranges'')
       (let probe_ids = probe_token_ids layout;
            expected_count = (if length ranges \<ge> 2 then length ranges else 0) in
        raise_if (branches layout \<noteq> [] \<and> probe_ids = [])
          (ValueError ''branches require non-empty probe token IDs'')
        (raise_if (length (branches layout) \<noteq> expected_count)
          (ValueError ''must include P_0 and one probe after every non-final step'')
        (ebind (efold (validate_branch layout ranges probe_ids) (py_enumerate (branches layout))
                  (original_sequence_length layout)) (\<lambda>previous_probe_end.
         raise_if (previous_probe_end \<noteq> sequence_len)
           (ValueError ''unassigned trailing tokens'')
         (Inr ())))))))))))))"

section \<open>Building a packed layout\<close>

text \<open>The variables of the branch-appending loop.\<close>

record pack_state =
  pk_sequence_ids :: "int list"
  pk_position_ids :: "int list"
  pk_branches :: "probe_branch list"

definition append_branch ::
  "int \<Rightarrow> int list \<Rightarrow> int list \<Rightarrow> nat \<times> int \<Rightarrow> pack_state \<Rightarrow> pack_state" where
  "append_branch prompt_len probe_ids local_answer_positions ie st =
     (let index = fst ie; response_end = snd ie;
          visible = prompt_len + response_end;
          start = int (length (pk_sequence_ids st));
          pend = start + int (length probe_ids)
      in \<lparr>pk_sequence_ids = pk_sequence_ids st @ probe_ids,
          pk_position_ids = pk_position_ids st @ py_range visible (visible + int (length probe_ids)),
          pk_branches = pk_branches st @
            [\<lparr>br_index = int index,
              after_step_index = (if index = 0 then None else Some (int index - 1)),
              visible_prefix_end = visible, probe_start = start, probe_end = pend,
              answer_token_positions = map (\<lambda>p. start + p) local_answer_positions\<rparr>]\<rparr>)"

definition build_r2opl_probe_layout ::
  "int list \<Rightarrow> int list \<Rightarrow> semantic_step list \<Rightarrow> answer_probe \<Rightarrow> probe_layout res" where
  "build_r2opl_probe_layout prompt response semantic_steps probe =
     raise_if (prompt = []) (ValueError ''require at least one prompt token'')
     (ebind (emap (\<lambda>(index, st). step_range st (int index)) (py_enumerate semantic_steps)) (\<lambda>raw.
      ebind (validate_semantic_ranges raw (int (length response))) (\<lambda>ranges.
      (let requires_probe = length ranges \<ge> 2; probe_ids = ap_token_ids probe;
           local_answer_positions = ap_answer_token_positions probe in
       raise_if (requires_probe \<and> probe_ids = [])
         (ValueError ''require a non-empty answer probe'')
       (raise_if (requires_probe \<and> local_answer_positions = [])
         (ValueError ''require at least one answer token position'')
       (raise_if (requires_probe \<and> (\<exists>p \<in> set local_answer_positions. p \<le> 0 \<or> p \<ge> int (length probe_ids)))
         (ValueError ''answer token must have its causal predictor inside the branch'')
       (let original_ids = prompt @ response;
            st0 = \<lparr>pk_sequence_ids = original_ids,
                   pk_position_ids = py_range 0 (int (length original_ids)),
                   pk_branches = []\<rparr>;
            visible_response_ends = 0 # map snd (butlast ranges);
            st = (if requires_probe
                  then fold (append_branch (int (length prompt)) probe_ids local_answer_positions)
                         (py_enumerate visible_response_ends) st0
                  else st0);
            layout = \<lparr>sequence_ids = pk_sequence_ids st,
                      position_ids = pk_position_ids st,
                      original_sequence_length = int (length original_ids),
                      prompt_length = int (length prompt),
                      response_length = int (length response),
                      semantic_step_ranges = ranges,
                      probe_token_ids = probe_ids,
                      branches = pk_branches st\<rparr>
        in ebind (validate_r2opl_probe_layout layout) (\<lambda>_. Inr layout))))))))"

definition build_r2opl_probe_layout_from_step_ends ::
  "int list \<Rightarrow> int list \<Rightarrow> int list \<Rightarrow> int list \<Rightarrow> int list \<Rightarrow> int option \<Rightarrow> probe_layout res" where
  "build_r2opl_probe_layout_from_step_ends prompt_ids response semantic_step_ends probe_ids
     probe_answer_positions semantic_step_count =
     ebind (semantic_step_ranges_from_ends semantic_step_ends (int (length response)) semantic_step_count)
       (\<lambda>ranges.
         (let metadata_probe = \<lparr>ap_text = [], ap_token_ids = probe_ids,
                ap_answer_token_positions = probe_answer_positions,
                ap_answer_char_start = 0, ap_answer_char_end = 0\<rparr>
          in build_r2opl_probe_layout prompt_ids response (map (\<lambda>(s, e). StepPair s e) ranges)
               metadata_probe))"

section \<open>The branch-causal attention mask\<close>

text \<open>\<open>mask[r0:r1, c0:c1] = value\<close>, for in-range bounds.\<close>

definition block_assign ::
  "int \<Rightarrow> int \<Rightarrow> int \<Rightarrow> int \<Rightarrow> (int \<Rightarrow> int \<Rightarrow> 'a) \<Rightarrow> 'a mat \<Rightarrow> 'a mat" where
  "block_assign r0 r1 c0 c1 f m =
     mtab (height m) (width m) (\<lambda>i j.
       if r0 \<le> int i \<and> int i < r1 \<and> c0 \<le> int j \<and> int j < c1
       then f (int i - r0) (int j - c0) else mget m i j)"

text \<open>\<open>torch.ones(n, n).tril()\<close>\<close>

definition tril :: "int \<Rightarrow> int \<Rightarrow> bool" where
  "tril i j = (j \<le> i)"

definition build_dense_attention_mask :: "probe_layout \<Rightarrow> bool mat res" where
  "build_dense_attention_mask layout =
     ebind (validate_r2opl_probe_layout layout) (\<lambda>_.
       (let sequence_len = length (sequence_ids layout);
            original = original_sequence_length layout;
            mask0 = block_assign 0 original 0 original tril
                      (mtab sequence_len sequence_len (\<lambda>_ _. False))
        in Inr (fold (\<lambda>branch mask.
              block_assign (probe_start branch) (probe_end branch)
                           (probe_start branch) (probe_end branch) tril
                (block_assign (probe_start branch) (probe_end branch)
                              0 (visible_prefix_end branch) (\<lambda>_ _. True) mask))
            (branches layout) mask0)))"

text \<open>Tensors of two to four dimensions, where the code inspects or changes the rank.\<close>

datatype 'a tensor_nd = T2 "'a mat" | T3 "'a mat list" | T4 "'a mat list list"

text \<open>
  Additive masks: zero where attention is allowed, the least finite value of the dtype
  elsewhere. The dtype is represented by that value; it is a floating dtype by typing.
\<close>

definition r2opl_bool_mask_to_additive ::
  "real \<Rightarrow> bool \<Rightarrow> bool tensor_nd \<Rightarrow> real tensor_nd res" where
  "r2opl_bool_mask_to_additive finfo_min add_head_dimension attention_mask =
     (let additive = mmap (\<lambda>allowed. if allowed then 0 else finfo_min) in
      case attention_mask of
        T2 m \<Rightarrow> Inr (if add_head_dimension then T4 [[additive m]] else T2 (additive m))
      | T3 ms \<Rightarrow> Inr (if add_head_dimension then T4 (map (\<lambda>m. [additive m]) ms)
                      else T3 (map additive ms))
      | T4 _ \<Rightarrow> Inl (ValueError ''attention_mask must be [L,L] or [B,L,L]''))"

definition build_r2opl_additive_attention_mask ::
  "real \<Rightarrow> bool \<Rightarrow> probe_layout \<Rightarrow> real tensor_nd res" where
  "build_r2opl_additive_attention_mask finfo_min add_head_dimension layout =
     ebind (build_dense_attention_mask layout) (\<lambda>m.
       r2opl_bool_mask_to_additive finfo_min add_head_dimension (T2 m))"

section \<open>Padded batches\<close>

record probe_batch =
  pb_input_ids :: "int mat"
  pb_position_ids :: "int mat"
  pb_attention_mask :: "bool mat list"
  pb_sequence_mask :: "bool mat"
  pb_original_sequence_lengths :: "int list"
  pb_response_lengths :: "int list"
  pb_semantic_step_ranges :: "(int \<times> int) mat"
  pb_semantic_step_mask :: "bool mat"
  pb_probe_branch_mask :: "bool mat"
  pb_layouts :: "probe_layout list"

definition pad_row :: "'a \<Rightarrow> nat \<Rightarrow> 'a list \<Rightarrow> 'a list" where
  "pad_row z w xs = xs @ replicate (w - length xs) z"

definition pad_rows :: "'a \<Rightarrow> nat \<Rightarrow> 'a list list \<Rightarrow> 'a mat" where
  "pad_rows z w xss = \<lparr>width = w, rows = map (pad_row z w) xss\<rparr>"

definition max_list :: "nat list \<Rightarrow> nat" where
  "max_list xs = fold max xs 0"

definition build_r2opl_probe_batch :: "probe_layout list \<Rightarrow> int \<Rightarrow> probe_batch res" where
  "build_r2opl_probe_batch layouts pad_token_id =
     raise_if (layouts = []) (ValueError ''requires at least one layout'')
     (ebind (emap validate_r2opl_probe_layout layouts) (\<lambda>_.
      ebind (emap build_dense_attention_mask layouts) (\<lambda>masks.
      (let max_length = max_list (map (\<lambda>l. length (sequence_ids l)) layouts);
           max_steps = max_list (map num_semantic_steps layouts);
           max_branches = max_list (map (\<lambda>l. length (branches l)) layouts)
       in Inr \<lparr>pb_input_ids = pad_rows pad_token_id max_length (map sequence_ids layouts),
               pb_position_ids = pad_rows 0 max_length (map position_ids layouts),
               pb_attention_mask =
                 map (\<lambda>m. mtab max_length max_length (\<lambda>i j.
                        i < height m \<and> j < width m \<and> mget m i j)) masks,
               pb_sequence_mask =
                 pad_rows False max_length (map (\<lambda>l. replicate (length (sequence_ids l)) True) layouts),
               pb_original_sequence_lengths = map original_sequence_length layouts,
               pb_response_lengths = map response_length layouts,
               pb_semantic_step_ranges =
                 pad_rows (0, 0) max_steps (map semantic_step_ranges layouts),
               pb_semantic_step_mask =
                 pad_rows False max_steps
                   (map (\<lambda>l. replicate (length (semantic_step_ranges l)) True) layouts),
               pb_probe_branch_mask =
                 pad_rows False max_branches
                   (map (\<lambda>l. replicate (length (branches l)) True) layouts),
               pb_layouts = layouts\<rparr>))))"

section \<open>Scoring the probes\<close>

text \<open>
  \<open>softmax\<close> is PyTorch's function on one row of logits, a parameter of the model. Row
  \<open>p - 1\<close> of the logits predicts token \<open>p\<close>; \<open>gather\<close> of an id outside the
  vocabulary is an index error.
\<close>

definition token_probability ::
  "(flt list \<Rightarrow> flt list) \<Rightarrow> flt mat \<Rightarrow> probe_layout \<Rightarrow> int \<Rightarrow> flt res" where
  "token_probability softmax logits layout position =
     (let target = sequence_ids layout ! nat position;
          probabilities = softmax (rows logits ! nat (position - 1))
      in raise_if (target < 0 \<or> target \<ge> int (length probabilities))
           (RuntimeError ''gather index out of bounds'')
         (Inr (probabilities ! nat target)))"

definition compute_r2opl_probe_probabilities ::
  "(flt list \<Rightarrow> flt list) \<Rightarrow> flt mat \<Rightarrow> probe_layout \<Rightarrow> flt list res" where
  "compute_r2opl_probe_probabilities softmax logits layout =
     ebind (validate_r2opl_probe_layout layout) (\<lambda>_.
       raise_if (height logits < length (sequence_ids layout))
         (ValueError ''logits are shorter than the packed sequence'')
       (emap (\<lambda>branch.
          ebind (emap (token_probability softmax logits layout) (answer_token_positions branch))
            (\<lambda>ps. Inr (fmean ps))) (branches layout)))"

definition compute_r2opl_packed_probe_probabilities ::
  "(flt list \<Rightarrow> flt list) \<Rightarrow> flt mat list \<Rightarrow> probe_layout list \<Rightarrow> flt \<Rightarrow> (flt mat \<times> bool mat) res" where
  "compute_r2opl_packed_probe_probabilities softmax packed_logits layouts pad_value =
     raise_if (length packed_logits \<noteq> length layouts)
       (ValueError ''logits and layouts must have the same batch size'')
     (ebind (emap (\<lambda>(lg, l). compute_r2opl_probe_probabilities softmax lg l) (zip packed_logits layouts))
        (\<lambda>prows.
          (let w = max_list (map length prows)
           in Inr (pad_rows pad_value w prows,
                   pad_rows False w (map (\<lambda>r. replicate (length r) True) prows)))))"

end
