(* ===== verification/Layout_Correct.thy ===== *)
theory Layout_Correct
  imports Probe_Layout
begin

text \<open>
  Correctness of the packed answer-probe layout: what validation accepts, that construction
  never fails its own validation, and that the attention mask makes every appended probe
  behave as if it had been run alone after its rollout prefix.
\<close>

section \<open>Validation, declaratively\<close>

lemma validate_ranges_from_Inr [res_simps]:
  "validate_ranges_from n prev rs = Inr r \<longleftrightarrow> r = rs \<and> contiguous prev n rs"
  by (induction n prev rs arbitrary: r rule: validate_ranges_from.induct) (auto simp: res_simps)

lemma validate_semantic_ranges_Inr [res_simps]:
  "validate_semantic_ranges rs n = Inr r \<longleftrightarrow> r = rs \<and> contiguous 0 n rs"
  by (simp add: validate_semantic_ranges_def res_simps)

lemma length_py_range [simp]: "length (py_range a b) = nat (b - a)"
  by (simp add: py_range_def)

lemma nth_py_range [simp]: "int i < b - a \<Longrightarrow> py_range a b ! i = a + int i"
  by (simp add: py_range_def)

lemma set_py_range [simp]: "set (py_range a b) = {a..<b}"
  by (auto simp: py_range_def)

text \<open>The number of probe branches for \<open>k\<close> semantic steps.\<close>

definition branch_count :: "nat \<Rightarrow> nat" where
  "branch_count k = (if k \<ge> 2 then k else 0)"

text \<open>What branch \<open>i\<close> sees of the response: nothing, or the steps before it.\<close>

definition visible_end :: "probe_layout \<Rightarrow> nat \<Rightarrow> int" where
  "visible_end L i =
     prompt_length L + (if i = 0 then 0 else snd (semantic_step_ranges L ! (i - 1)))"

text \<open>Where branch \<open>i\<close> starts in the packed sequence.\<close>

definition branch_start :: "probe_layout \<Rightarrow> nat \<Rightarrow> int" where
  "branch_start L i = original_sequence_length L + int i * int (length (probe_token_ids L))"

definition branch_ok :: "probe_layout \<Rightarrow> nat \<Rightarrow> probe_branch \<Rightarrow> bool" where
  "branch_ok L i b \<longleftrightarrow>
     br_index b = int i \<and>
     after_step_index b = (if i = 0 then None else Some (int i - 1)) \<and>
     visible_prefix_end b = visible_end L i \<and>
     probe_start b = branch_start L i \<and>
     probe_end b = branch_start L (Suc i) \<and>
     py_slice (probe_start b) (probe_end b) (sequence_ids L) = probe_token_ids L \<and>
     py_slice (probe_start b) (probe_end b) (position_ids L)
       = py_range (visible_end L i) (visible_end L i + int (length (probe_token_ids L))) \<and>
     answer_token_positions b \<noteq> [] \<and>
     (\<forall>p \<in> set (answer_token_positions b).
        0 < p - probe_start b \<and> p - probe_start b < int (length (probe_token_ids L)))"

definition layout_ok :: "probe_layout \<Rightarrow> bool" where
  "layout_ok L \<longleftrightarrow>
     length (position_ids L) = length (sequence_ids L) \<and>
     0 < prompt_length L \<and> 0 \<le> response_length L \<and>
     original_sequence_length L = prompt_length L + response_length L \<and>
     py_slice 0 (original_sequence_length L) (position_ids L)
       = py_range 0 (original_sequence_length L) \<and>
     contiguous 0 (response_length L) (semantic_step_ranges L) \<and>
     length (branches L) = branch_count (length (semantic_step_ranges L)) \<and>
     (branches L \<noteq> [] \<longrightarrow> probe_token_ids L \<noteq> []) \<and>
     int (length (sequence_ids L)) = branch_start L (length (branches L)) \<and>
     (\<forall>i < length (branches L). branch_ok L i (branches L ! i))"

lemma branch_start_Suc: "branch_start L (Suc i) = branch_start L i + int (length (probe_token_ids L))"
  by (simp add: branch_start_def algebra_simps)

lemma branch_start_0 [simp]: "branch_start L 0 = original_sequence_length L"
  by (simp add: branch_start_def)

lemma branch_start_mono: "i \<le> j \<Longrightarrow> branch_start L i \<le> branch_start L j"
  by (simp add: branch_start_def mult_right_mono)

lemma visible_end_bounds:
  assumes "contiguous 0 (response_length L) (semantic_step_ranges L)" "0 \<le> response_length L"
    and "i = 0 \<or> i - 1 < length (semantic_step_ranges L)"
  shows "prompt_length L \<le> visible_end L i"
    "visible_end L i \<le> prompt_length L + response_length L"
proof -
  have "0 \<le> snd (semantic_step_ranges L ! (i - 1)) \<and>
      snd (semantic_step_ranges L ! (i - 1)) \<le> response_length L" if "i \<noteq> 0"
    using contiguous_nth [OF assms(1), of "i - 1"] assms(3) that by simp
  then show "prompt_length L \<le> visible_end L i"
    "visible_end L i \<le> prompt_length L + response_length L"
    using assms(2) by (auto simp: visible_end_def)
qed

lemma layout_visible:
  assumes "layout_ok L" "i < length (branches L)"
  shows "prompt_length L \<le> visible_end L i" "visible_end L i \<le> original_sequence_length L"
proof -
  note ok = assms(1) [unfolded layout_ok_def]
  have "i - 1 < length (semantic_step_ranges L)"
    using ok assms(2) by (simp add: branch_count_def split: if_splits)
  then show "prompt_length L \<le> visible_end L i" "visible_end L i \<le> original_sequence_length L"
    using visible_end_bounds [of L i] ok by auto
qed

text \<open>The branch loop accepts exactly the branches that are as specified.\<close>

lemma validate_branch_Inr:
  "validate_branch L (semantic_step_ranges L) (probe_token_ids L) (i, b) prev = Inr nxt \<longleftrightarrow>
     br_index b = int i \<and>
     after_step_index b = (if i = 0 then None else Some (int i - 1)) \<and>
     visible_prefix_end b = visible_end L i \<and>
     probe_start b = prev \<and> nxt = probe_end b \<and>
     (1 \<le> visible_prefix_end b \<and> visible_prefix_end b \<le> original_sequence_length L \<and>
      original_sequence_length L \<le> probe_start b \<and> probe_start b < probe_end b \<and>
      probe_end b \<le> int (length (sequence_ids L))) \<and>
     probe_end b - probe_start b = int (length (probe_token_ids L)) \<and>
     py_slice (probe_start b) (probe_end b) (sequence_ids L) = probe_token_ids L \<and>
     py_slice (probe_start b) (probe_end b) (position_ids L)
       = py_range (visible_prefix_end b) (visible_prefix_end b + int (length (probe_token_ids L))) \<and>
     answer_token_positions b \<noteq> [] \<and>
     (\<forall>p \<in> set (answer_token_positions b).
        0 < p - probe_start b \<and> p - probe_start b < int (length (probe_token_ids L)))"
  by (auto simp: validate_branch_def Let_def res_simps visible_end_def not_le)

lemma branch_loop_forward:
  assumes "efold (validate_branch L (semantic_step_ranges L) (probe_token_ids L))
           (py_enumerate (branches L)) (original_sequence_length L) = Inr t"
  shows "t = branch_start L (length (branches L)) \<and>
         (\<forall>i < length (branches L). branch_ok L i (branches L ! i))"
proof -
  from assms obtain g where g: "g 0 = original_sequence_length L" "g (length (branches L)) = t"
    "\<forall>i < length (branches L). validate_branch L (semantic_step_ranges L) (probe_token_ids L)
        (i, branches L ! i) (g i) = Inr (g (Suc i))"
    unfolding efold_enumerate_Inr by blast
  have step: "g (Suc i) = g i + int (length (probe_token_ids L))" if "i < length (branches L)" for i
    using g(3) that unfolding validate_branch_Inr by (metis add.commute diff_add_cancel)
  have gi: "g i = branch_start L i" if "i \<le> length (branches L)" for i
    using that
  proof (induction i)
    case 0
    then show ?case by (simp add: g(1))
  next
    case (Suc i)
    then show ?case using step [of i] by (simp add: branch_start_Suc)
  qed
  have "branch_ok L i (branches L ! i)" if "i < length (branches L)" for i
    using g(3) that gi [of i] gi [of "Suc i"] unfolding validate_branch_Inr branch_ok_def by auto
  then show ?thesis using g(2) gi [of "length (branches L)"] by simp
qed

lemma branch_loop_backward:
  assumes cont: "contiguous 0 (response_length L) (semantic_step_ranges L)"
    and pos: "0 < prompt_length L" "0 \<le> response_length L"
    and orig: "original_sequence_length L = prompt_length L + response_length L"
    and len: "length (branches L) = branch_count (length (semantic_step_ranges L))"
    and ne: "branches L \<noteq> [] \<longrightarrow> probe_token_ids L \<noteq> []"
    and total: "branch_start L (length (branches L)) \<le> int (length (sequence_ids L))"
    and ok: "\<forall>i < length (branches L). branch_ok L i (branches L ! i)"
  shows "efold (validate_branch L (semantic_step_ranges L) (probe_token_ids L))
           (py_enumerate (branches L)) (original_sequence_length L)
         = Inr (branch_start L (length (branches L)))"
proof -
  have "validate_branch L (semantic_step_ranges L) (probe_token_ids L)
      (i, branches L ! i) (branch_start L i) = Inr (branch_start L (Suc i))"
    if i: "i < length (branches L)" for i
  proof -
    have b: "branch_ok L i (branches L ! i)" using ok i by simp
    have probe: "0 < int (length (probe_token_ids L))" using ne i by (cases "branches L") auto
    have "i - 1 < length (semantic_step_ranges L)"
      using i len by (simp add: branch_count_def split: if_splits)
    then have vis: "prompt_length L \<le> visible_end L i" "visible_end L i \<le> original_sequence_length L"
      using visible_end_bounds [OF cont pos(2), of i] orig by auto
    have "original_sequence_length L \<le> branch_start L i"
      using branch_start_mono [of 0 i L] by simp
    moreover have "branch_start L (Suc i) \<le> int (length (sequence_ids L))"
      using branch_start_mono [of "Suc i" "length (branches L)" L] i total by linarith
    ultimately show ?thesis
      using b vis probe pos unfolding validate_branch_Inr branch_ok_def
      by (auto simp: branch_start_Suc)
  qed
  then show ?thesis unfolding efold_enumerate_Inr
    by (intro exI [of _ "branch_start L"]) simp
qed

text \<open>
  \<open>validate_r2opl_probe_layout\<close> accepts exactly the layouts that satisfy \<open>layout_ok\<close>.
\<close>

lemma validate_layout_iff: "validate_r2opl_probe_layout L = Inr () \<longleftrightarrow> layout_ok L"
proof -
  let ?loop = "efold (validate_branch L (semantic_step_ranges L) (probe_token_ids L))
           (py_enumerate (branches L)) (original_sequence_length L)"
  let ?pre = "length (position_ids L) = length (sequence_ids L) \<and>
     0 < prompt_length L \<and> 0 \<le> response_length L \<and>
     original_sequence_length L = prompt_length L + response_length L \<and>
     py_slice 0 (original_sequence_length L) (position_ids L)
       = py_range 0 (original_sequence_length L) \<and>
     contiguous 0 (response_length L) (semantic_step_ranges L) \<and>
     length (branches L) = branch_count (length (semantic_step_ranges L)) \<and>
     (branches L \<noteq> [] \<longrightarrow> probe_token_ids L \<noteq> [])"
  have unfolded: "validate_r2opl_probe_layout L = Inr () \<longleftrightarrow>
      ?pre \<and> original_sequence_length L \<le> int (length (sequence_ids L)) \<and>
      ?loop = Inr (int (length (sequence_ids L)))"
    unfolding validate_r2opl_probe_layout_def Let_def raise_if_Inr ebind_Inr
      validate_semantic_ranges_Inr branch_count_def
    by auto
  show ?thesis
  proof
    assume "validate_r2opl_probe_layout L = Inr ()"
    then have "?pre" "?loop = Inr (int (length (sequence_ids L)))" unfolding unfolded by blast+
    then show "layout_ok L" using branch_loop_forward [of L] unfolding layout_ok_def by blast
  next
    assume ok: "layout_ok L"
    then have "?pre" and total: "int (length (sequence_ids L)) = branch_start L (length (branches L))"
      and b: "\<forall>i < length (branches L). branch_ok L i (branches L ! i)"
      unfolding layout_ok_def by blast+
    moreover from this have "?loop = Inr (int (length (sequence_ids L)))"
      using branch_loop_backward [of L] by simp
    moreover have "original_sequence_length L \<le> int (length (sequence_ids L))"
      using total branch_start_mono [of 0 "length (branches L)" L] by simp
    ultimately show "validate_r2opl_probe_layout L = Inr ()" unfolding unfolded by blast
  qed
qed

section \<open>Construction\<close>

text \<open>The packed layout in closed form.\<close>

definition packed_branch :: "int \<Rightarrow> int \<Rightarrow> int list \<Rightarrow> int list \<Rightarrow> int list \<Rightarrow> nat \<Rightarrow> probe_branch" where
  "packed_branch n plen probe_ids local_positions vs i =
     (let start = n + int i * int (length probe_ids) in
      \<lparr>br_index = int i,
       after_step_index = (if i = 0 then None else Some (int i - 1)),
       visible_prefix_end = plen + vs ! i,
       probe_start = start, probe_end = start + int (length probe_ids),
       answer_token_positions = map (\<lambda>p. start + p) local_positions\<rparr>)"

lemma fold_append_branch:
  "fold (append_branch plen probe_ids lp) (py_enumerate vs)
     \<lparr>pk_sequence_ids = orig, pk_position_ids = pos0, pk_branches = []\<rparr>
   = \<lparr>pk_sequence_ids = orig @ concat (replicate (length vs) probe_ids),
      pk_position_ids = pos0 @ concat (map (\<lambda>e. py_range (plen + e) (plen + e + int (length probe_ids))) vs),
      pk_branches = map (packed_branch (int (length orig)) plen probe_ids lp vs) [0..<length vs]\<rparr>"
proof (induction vs rule: rev_induct)
  case Nil
  then show ?case by (simp add: py_enumerate_def)
next
  case (snoc v vs)
  have same: "map (packed_branch n plen probe_ids lp (vs @ [v])) [0..<length vs]
      = map (packed_branch n plen probe_ids lp vs) [0..<length vs]" for n
    by (simp add: packed_branch_def nth_append)
  have rep: "concat (replicate (length vs) probe_ids) @ probe_ids
      = probe_ids @ concat (replicate (length vs) probe_ids)"
    by (metis concat.simps(2) concat_append concat.simps(1) append_Nil2 replicate_append_same replicate_Suc)
  have len: "length (concat (replicate (length vs) probe_ids)) = length vs * length probe_ids"
    by (induction vs) auto
  let ?st = "\<lparr>pk_sequence_ids = orig @ concat (replicate (length vs) probe_ids),
      pk_position_ids = pos0 @ concat (map (\<lambda>e. py_range (plen + e) (plen + e + int (length probe_ids))) vs),
      pk_branches = map (packed_branch (int (length orig)) plen probe_ids lp vs) [0..<length vs]\<rparr>"
  have "fold (append_branch plen probe_ids lp) (py_enumerate (vs @ [v]))
     \<lparr>pk_sequence_ids = orig, pk_position_ids = pos0, pk_branches = []\<rparr>
     = append_branch plen probe_ids lp (length vs, v) ?st"
    by (simp only: py_enumerate_append fold_append o_apply snoc.IH fold_simps)
  also have "\<dots> = \<lparr>pk_sequence_ids = orig @ concat (replicate (length (vs @ [v])) probe_ids),
      pk_position_ids = pos0 @ concat (map (\<lambda>e. py_range (plen + e) (plen + e + int (length probe_ids))) (vs @ [v])),
      pk_branches = map (packed_branch (int (length orig)) plen probe_ids lp (vs @ [v])) [0..<length (vs @ [v])]\<rparr>"
    by (simp add: append_branch_def Let_def same rep len) (simp add: packed_branch_def Let_def nth_append)
  finally show ?case .
qed

lemma map_snd_butlast_contiguous:
  "contiguous 0 n rs \<Longrightarrow> i < length rs \<Longrightarrow> 0 < i \<Longrightarrow> (0 # map snd (butlast rs)) ! i = snd (rs ! (i - 1))"
  by (cases i) (auto simp: nth_butlast)

text \<open>
  The conditions under which a layout can be built, and the fact that they suffice: the
  validation at the end of the construction never fails.
\<close>

definition probe_usable :: "answer_probe \<Rightarrow> bool" where
  "probe_usable p \<longleftrightarrow> ap_token_ids p \<noteq> [] \<and> ap_answer_token_positions p \<noteq> [] \<and>
     (\<forall>q \<in> set (ap_answer_token_positions p). 0 < q \<and> q < int (length (ap_token_ids p)))"

definition layout_of :: "int list \<Rightarrow> int list \<Rightarrow> (int \<times> int) list \<Rightarrow> answer_probe \<Rightarrow> probe_layout" where
  "layout_of prompt response rs probe =
     (let orig = prompt @ response; m = int (length (ap_token_ids probe));
          vs = (if length rs \<ge> 2 then 0 # map snd (butlast rs) else []); plen = int (length prompt)
      in \<lparr>sequence_ids = orig @ concat (replicate (length vs) (ap_token_ids probe)),
          position_ids = py_range 0 (int (length orig))
             @ concat (map (\<lambda>e. py_range (plen + e) (plen + e + m)) vs),
          original_sequence_length = int (length orig),
          prompt_length = plen, response_length = int (length response),
          semantic_step_ranges = rs, probe_token_ids = ap_token_ids probe,
          branches = map (packed_branch (int (length orig)) plen (ap_token_ids probe)
             (ap_answer_token_positions probe) vs) [0..<length vs]\<rparr>)"

lemma layout_of_simps [simp]:
  "original_sequence_length (layout_of prompt response rs probe) = int (length prompt + length response)"
  "prompt_length (layout_of prompt response rs probe) = int (length prompt)"
  "response_length (layout_of prompt response rs probe) = int (length response)"
  "semantic_step_ranges (layout_of prompt response rs probe) = rs"
  "probe_token_ids (layout_of prompt response rs probe) = ap_token_ids probe"
  "length (branches (layout_of prompt response rs probe)) = branch_count (length rs)"
  by (auto simp: layout_of_def Let_def branch_count_def)

lemma py_slice_block:
  assumes blocks: "\<forall>x \<in> set xss. length x = m" and i: "i < length xss" and n: "length orig = n"
  shows "py_slice (int n + int i * int m) (int n + int i * int m + int m) (orig @ concat xss) = xss ! i"
proof -
  have le: "i * m + m \<le> length xss * m"
    using i by (metis add.commute mult_Suc mult_le_mono1 Suc_leI)
  have b: "int n + int i * int m + int m = int (n + (i * m + m))"
    and a: "int n + int i * int m = int (n + i * m)" by simp_all
  have "py_slice (int n + int i * int m) (int n + int i * int m + int m) (orig @ concat xss)
      = slice (n + i * m) (n + (i * m + m)) (orig @ concat xss)"
    unfolding b unfolding a by (rule py_slice_of_nat) (use le n length_concat_blocks [OF blocks] in simp)
  also have "\<dots> = slice (i * m) (i * m + m) (concat xss)"
    using n by (subst slice_append_right) auto
  finally show ?thesis using slice_concat_block [OF blocks i] by simp
qed

lemma layout_of_ok:
  assumes prompt: "prompt \<noteq> []" and cont: "contiguous 0 (int (length response)) rs"
    and probe: "length rs \<ge> 2 \<longrightarrow> probe_usable pr"
  shows "layout_ok (layout_of prompt response rs pr)"
proof -
  let ?L = "layout_of prompt response rs pr"
  let ?m = "length (ap_token_ids pr)" and ?orig = "prompt @ response" and ?plen = "int (length prompt)"
  let ?vs = "if length rs \<ge> 2 then 0 # map snd (butlast rs) else []"
  let ?pos = "map (\<lambda>e. py_range (?plen + e) (?plen + e + int ?m)) ?vs"
  have nvs: "length ?vs = branch_count (length rs)" by (auto simp: branch_count_def)
  have blocks: "\<forall>x \<in> set (replicate (length ?vs) (ap_token_ids pr)). length x = ?m"
    "\<forall>x \<in> set ?pos. length x = ?m" by auto
  have seq: "sequence_ids ?L = ?orig @ concat (replicate (length ?vs) (ap_token_ids pr))"
    and posn: "position_ids ?L = py_range 0 (int (length ?orig)) @ concat ?pos"
    and br: "branches ?L = map (packed_branch (int (length ?orig)) ?plen (ap_token_ids pr)
             (ap_answer_token_positions pr) ?vs) [0..<length ?vs]"
    by (simp_all add: layout_of_def Let_def)
  have lens: "length (sequence_ids ?L) = length ?orig + branch_count (length rs) * ?m"
    "length (position_ids ?L) = length ?orig + branch_count (length rs) * ?m"
    unfolding seq posn using length_concat_blocks [OF blocks(1)] length_concat_blocks [OF blocks(2)] nvs
    by simp_all
  have visible: "visible_end ?L i = ?plen + ?vs ! i" if "i < branch_count (length rs)" for i
    using that map_snd_butlast_contiguous [OF cont, of i]
    by (auto simp: visible_end_def branch_count_def split: if_splits)
  have "branch_ok ?L i (branches ?L ! i)" if i: "i < branch_count (length rs)" for i
  proof -
    have b: "branches ?L ! i = packed_branch (int (length ?orig)) ?plen (ap_token_ids pr)
             (ap_answer_token_positions pr) ?vs i"
      unfolding br using i nvs by simp
    have usable: "probe_usable pr" using i probe by (auto simp: branch_count_def split: if_splits)
    have key: "py_slice (branch_start ?L i) (branch_start ?L (Suc i)) (os @ concat xss) = xss ! i"
      if "\<forall>x \<in> set xss. length x = ?m" "i < length xss" "length os = length ?orig" for os xss
      using py_slice_block [OF that] by (simp add: branch_start_def algebra_simps)
    have "py_slice (branch_start ?L i) (branch_start ?L (Suc i)) (sequence_ids ?L) = ap_token_ids pr"
      unfolding seq using key [OF blocks(1), of ?orig] i nvs by simp
    moreover have "py_slice (branch_start ?L i) (branch_start ?L (Suc i)) (position_ids ?L) = ?pos ! i"
      unfolding posn using key [OF blocks(2), of "py_range 0 (int (length ?orig))"] i nvs by simp
    moreover have "?pos ! i = py_range (visible_end ?L i) (visible_end ?L i + int ?m)"
      using i nvs visible [OF i] by simp
    moreover have pb: "packed_branch (int (length ?orig)) ?plen (ap_token_ids pr)
          (ap_answer_token_positions pr) ?vs i
        = \<lparr>br_index = int i, after_step_index = (if i = 0 then None else Some (int i - 1)),
           visible_prefix_end = visible_end ?L i, probe_start = branch_start ?L i,
           probe_end = branch_start ?L (Suc i),
           answer_token_positions = map (\<lambda>p. branch_start ?L i + p) (ap_answer_token_positions pr)\<rparr>"
      using visible [OF i] by (simp add: packed_branch_def Let_def branch_start_def algebra_simps)
    ultimately show ?thesis
      unfolding branch_ok_def b pb probe_branch.select_convs
      using usable by (auto simp: probe_usable_def)
  qed
  moreover have "py_slice 0 (int (length ?orig)) (position_ids ?L) = py_range 0 (int (length ?orig))"
    unfolding posn by (subst py_slice_in_range) auto
  moreover have "branches ?L \<noteq> [] \<longrightarrow> ap_token_ids pr \<noteq> []"
    using probe nvs unfolding br by (auto simp: probe_usable_def)
  moreover have "int (length (sequence_ids ?L)) = branch_start ?L (length (branches ?L))"
    using lens by (simp add: branch_start_def)
  ultimately show ?thesis unfolding layout_ok_def using prompt cont lens by simp
qed

text \<open>What the construction returns, and when.\<close>

lemma build_layout_Inr:
  "build_r2opl_probe_layout prompt response steps probe = Inr L \<longleftrightarrow>
     prompt \<noteq> [] \<and>
     (\<exists>rs. emap (\<lambda>(index, st). step_range st (int index)) (py_enumerate steps) = Inr rs \<and>
        contiguous 0 (int (length response)) rs \<and>
        (length rs \<ge> 2 \<longrightarrow> probe_usable probe) \<and>
        L = layout_of prompt response rs probe)" (is "?l \<longleftrightarrow> ?r")
proof -
  have st: "(if length rs \<ge> 2 then fold (append_branch (int (length prompt)) (ap_token_ids probe)
          (ap_answer_token_positions probe)) (py_enumerate (0 # map snd (butlast rs)))
          \<lparr>pk_sequence_ids = prompt @ response,
           pk_position_ids = py_range 0 (int (length (prompt @ response))), pk_branches = []\<rparr>
        else \<lparr>pk_sequence_ids = prompt @ response,
           pk_position_ids = py_range 0 (int (length (prompt @ response))), pk_branches = []\<rparr>)
      = \<lparr>pk_sequence_ids = sequence_ids (layout_of prompt response rs probe),
         pk_position_ids = position_ids (layout_of prompt response rs probe),
         pk_branches = branches (layout_of prompt response rs probe)\<rparr>" for rs
    unfolding fold_append_branch by (simp add: layout_of_def Let_def)
  have lay: "\<lparr>sequence_ids = sequence_ids (layout_of prompt response rs probe),
      position_ids = position_ids (layout_of prompt response rs probe),
      original_sequence_length = int (length (prompt @ response)),
      prompt_length = int (length prompt), response_length = int (length response),
      semantic_step_ranges = rs, probe_token_ids = ap_token_ids probe,
      branches = branches (layout_of prompt response rs probe)\<rparr> = layout_of prompt response rs probe" for rs
    by (simp add: layout_of_def Let_def)
  show ?thesis
    unfolding build_r2opl_probe_layout_def Let_def raise_if_Inr ebind_Inr validate_semantic_ranges_Inr
      st pack_state.select_convs lay
    using layout_of_ok [of prompt response _ probe]
    by (auto simp: probe_usable_def validate_layout_iff not_le not_less)
qed

section \<open>The attention mask\<close>

text \<open>
  Visibility, declaratively: an original token sees the original tokens up to itself; a probe
  token sees the prefix of its branch and its own branch up to itself, nothing else.
\<close>

definition sees :: "probe_layout \<Rightarrow> nat \<Rightarrow> nat \<Rightarrow> bool" where
  "sees L q k \<longleftrightarrow>
     (int q < original_sequence_length L \<and> k \<le> q) \<or>
     (\<exists>i < length (branches L). branch_start L i \<le> int q \<and> int q < branch_start L (Suc i) \<and>
        (int k < visible_end L i \<or> (branch_start L i \<le> int k \<and> k \<le> q)))"

lemma height_block_assign [mat_simps]: "height (block_assign r0 r1 c0 c1 f m) = height m"
  by (simp add: block_assign_def mat_simps)

lemma width_block_assign [mat_simps]: "width (block_assign r0 r1 c0 c1 f m) = width m"
  by (simp add: block_assign_def mat_simps)

lemma wf_block_assign [mat_simps]: "wf_mat (block_assign r0 r1 c0 c1 f m)"
  by (simp add: block_assign_def mat_simps)

lemma mget_block_assign [mat_simps]:
  "i < height m \<Longrightarrow> j < width m \<Longrightarrow> mget (block_assign r0 r1 c0 c1 f m) i j =
     (if r0 \<le> int i \<and> int i < r1 \<and> c0 \<le> int j \<and> int j < c1
      then f (int i - r0) (int j - c0) else mget m i j)"
  by (simp add: block_assign_def mat_simps)

definition mask_step :: "probe_branch \<Rightarrow> bool mat \<Rightarrow> bool mat" where
  "mask_step branch m =
     block_assign (probe_start branch) (probe_end branch) (probe_start branch) (probe_end branch) tril
       (block_assign (probe_start branch) (probe_end branch) 0 (visible_prefix_end branch) (\<lambda>_ _. True) m)"

definition mask_init :: "probe_layout \<Rightarrow> bool mat" where
  "mask_init L = block_assign 0 (original_sequence_length L) 0 (original_sequence_length L) tril
     (mtab (length (sequence_ids L)) (length (sequence_ids L)) (\<lambda>_ _. False))"

lemma build_dense_attention_mask_Inr:
  "build_dense_attention_mask L = Inr M \<longleftrightarrow> layout_ok L \<and> M = fold mask_step (branches L) (mask_init L)"
  unfolding build_dense_attention_mask_def Let_def ebind_Inr mask_step_def mask_init_def
  using validate_layout_iff [of L] by auto

lemma mask_fold_shape:
  "wf_mat m \<Longrightarrow> height (fold mask_step bs m) = height m \<and> width (fold mask_step bs m) = width m
     \<and> wf_mat (fold mask_step bs m)"
  by (induction bs arbitrary: m) (simp_all add: mask_step_def mat_simps)

lemma mask_init_shape:
  "height (mask_init L) = length (sequence_ids L)" "width (mask_init L) = length (sequence_ids L)"
  "wf_mat (mask_init L)"
  by (simp_all add: mask_init_def mat_simps)

lemma mask_prefix:
  assumes ok: "layout_ok L" and q: "q < length (sequence_ids L)" and k: "k < length (sequence_ids L)"
  shows "r \<le> length (branches L) \<Longrightarrow> mget (fold mask_step (take r (branches L)) (mask_init L)) q k
    = ((int q < original_sequence_length L \<and> k \<le> q) \<or>
       (\<exists>i < r. branch_start L i \<le> int q \<and> int q < branch_start L (Suc i) \<and>
          (int k < visible_end L i \<or> (branch_start L i \<le> int k \<and> k \<le> q))))"
proof (induction r)
  case 0
  show ?case using q k by (auto simp: mask_init_def mat_simps tril_def)
next
  case (Suc r)
  let ?b = "branches L ! r" and ?m = "fold mask_step (take r (branches L)) (mask_init L)"
  have b: "branch_ok L r ?b" using ok Suc.prems by (simp add: layout_ok_def)
  have step: "fold mask_step (take (Suc r) (branches L)) (mask_init L) = mask_step ?b ?m"
    using Suc.prems by (simp add: take_Suc_conv_app_nth)
  have shape: "height ?m = length (sequence_ids L)" "width ?m = length (sequence_ids L)"
    using mask_fold_shape [OF mask_init_shape(3)] by (simp_all add: mask_init_shape)
  have entry: "mget (mask_step ?b ?m) q k =
      (if branch_start L r \<le> int q \<and> int q < branch_start L (Suc r)
       then (if branch_start L r \<le> int k \<and> int k < branch_start L (Suc r) then k \<le> q
             else int k < visible_end L r \<or> mget ?m q k)
       else mget ?m q k)"
    using b q k shape unfolding branch_ok_def mask_step_def by (auto simp: mat_simps tril_def)
  have earlier: "\<not> (branch_start L i \<le> int q \<and> int q < branch_start L (Suc i))"
    if "branch_start L r \<le> int q" "i < r" for i
    using that branch_start_mono [of "Suc i" r L] by auto
  have orig: "\<not> int q < original_sequence_length L" if "branch_start L r \<le> int q"
    using that branch_start_mono [of 0 r L] by simp
  show ?case
  proof (cases "branch_start L r \<le> int q \<and> int q < branch_start L (Suc r)")
    case True
    have "\<not> mget ?m q k" using Suc True earlier orig by auto
    moreover have "branch_start L r \<le> int k \<and> k \<le> q \<Longrightarrow> int k < branch_start L (Suc r)"
      using True by simp
    moreover have "visible_end L r \<le> branch_start L r"
      using layout_visible(2) [OF ok, of r] Suc.prems branch_start_mono [of 0 r L] by simp
    ultimately show ?thesis
      unfolding step entry using True earlier orig by (auto simp: less_Suc_eq)
  next
    case False
    then show ?thesis unfolding step entry using Suc by (auto simp: less_Suc_eq)
  qed
qed

lemma dense_mask_sees:
  assumes "build_dense_attention_mask L = Inr M"
  shows "height M = length (sequence_ids L)" "width M = length (sequence_ids L)" "wf_mat M"
    "\<And>q k. q < length (sequence_ids L) \<Longrightarrow> k < length (sequence_ids L) \<Longrightarrow> mget M q k = sees L q k"
proof -
  from assms have ok: "layout_ok L" and M: "M = fold mask_step (branches L) (mask_init L)"
    by (simp_all add: build_dense_attention_mask_Inr)
  show "height M = length (sequence_ids L)" "width M = length (sequence_ids L)" "wf_mat M"
    unfolding M using mask_fold_shape [OF mask_init_shape(3)] by (simp_all add: mask_init_shape)
  show "mget M q k = sees L q k" if "q < length (sequence_ids L)" "k < length (sequence_ids L)" for q k
    using mask_prefix [OF ok that, of "length (branches L)"] unfolding M sees_def by simp
qed

text \<open>Rows of different branches, and of the original sequence, are disjoint.\<close>

lemma branch_unique:
  assumes "branch_start L i \<le> x" "x < branch_start L (Suc i)" "branch_start L j \<le> x" "x < branch_start L (Suc j)"
  shows "i = j"
proof (rule ccontr)
  assume "i \<noteq> j"
  then consider "Suc i \<le> j" | "Suc j \<le> i" by linarith
  then show False
    using assms branch_start_mono [of "Suc i" j L] branch_start_mono [of "Suc j" i L] by cases auto
qed

lemma sees_branch:
  assumes "layout_ok L" "i < length (branches L)" "branch_start L i \<le> int q" "int q < branch_start L (Suc i)"
  shows "sees L q k \<longleftrightarrow> int k < visible_end L i \<or> (branch_start L i \<le> int k \<and> k \<le> q)"
proof -
  have "\<not> int q < original_sequence_length L"
    using assms(3) branch_start_mono [of 0 i L] by simp
  then show ?thesis unfolding sees_def using assms branch_unique [of L i "int q"] by blast
qed

lemma sees_original:
  assumes "layout_ok L" "int q < original_sequence_length L"
  shows "sees L q k \<longleftrightarrow> k \<le> q"
proof -
  have "\<not> branch_start L i \<le> int q" for i
    using assms(2) branch_start_mono [of 0 i L] by simp
  then show ?thesis using assms(2) unfolding sees_def by blast
qed

text \<open>The keys a probe token sees, in order, are its logical prefix and its own history.\<close>

lemma filter_two_intervals:
  assumes "v \<le> s" "s \<le> q" "q < n"
  shows "filter (\<lambda>k. k < v \<or> (s \<le> k \<and> k \<le> q)) [0..<n] = [0..<v] @ [s..<Suc q]"
proof -
  have "[0..<n] = [0..<v] @ [v..<s] @ [s..<Suc q] @ [Suc q..<n]"
    using assms upt_split [of 0 v n] upt_split [of v s n] upt_split [of s "Suc q" n] by simp
  moreover have "filter (\<lambda>k. k < v \<or> (s \<le> k \<and> k \<le> q)) [0..<v] = [0..<v]"
    "filter (\<lambda>k. k < v \<or> (s \<le> k \<and> k \<le> q)) [v..<s] = []"
    "filter (\<lambda>k. k < v \<or> (s \<le> k \<and> k \<le> q)) [s..<Suc q] = [s..<Suc q]"
    "filter (\<lambda>k. k < v \<or> (s \<le> k \<and> k \<le> q)) [Suc q..<n] = []"
    using assms by (auto simp: filter_empty_conv filter_id_conv)
  ultimately show ?thesis by simp
qed

lemma map_nth_upt: "b \<le> length xs \<Longrightarrow> map ((!) xs) [a..<b] = slice a b xs"
  by (rule nth_equalityI) (auto simp: nth_slice)

definition visible_keys :: "probe_layout \<Rightarrow> nat \<Rightarrow> nat list" where
  "visible_keys L q = filter (sees L q) [0..<length (sequence_ids L)]"

lemma visible_keys_branch:
  assumes ok: "layout_ok L" and i: "i < length (branches L)" and o: "j < length (probe_token_ids L)"
  defines "q \<equiv> nat (branch_start L i) + j" and "v \<equiv> nat (visible_end L i)"
  shows "map ((!) (sequence_ids L)) (visible_keys L q)
           = take v (sequence_ids L) @ take (Suc j) (probe_token_ids L)"
    "map ((!) (position_ids L)) (visible_keys L q) = py_range 0 (int (v + Suc j))"
    "v \<le> nat (original_sequence_length L)"
proof -
  let ?s = "nat (branch_start L i)" and ?n = "length (sequence_ids L)" and ?m = "length (probe_token_ids L)"
  note L = ok [unfolded layout_ok_def]
  have b: "branch_ok L i (branches L ! i)" using L i by simp
  have orig0: "0 < original_sequence_length L" using L by simp
  have s: "int ?s = branch_start L i" "original_sequence_length L \<le> branch_start L i"
    using branch_start_mono [of 0 i L] orig0 by auto
  have vis: "prompt_length L \<le> visible_end L i" "visible_end L i \<le> original_sequence_length L"
    using layout_visible [OF ok i] by auto
  then have v: "int v = visible_end L i" "v \<le> ?s" using L s by (auto simp: v_def)
  show "v \<le> nat (original_sequence_length L)" using v(1) vis(2) by simp
  have fin: "int ?s + int ?m \<le> int ?n"
    using branch_start_mono [of "Suc i" "length (branches L)" L] i L s by (simp add: branch_start_Suc)
  have q: "branch_start L i \<le> int q" "int q < branch_start L (Suc i)" "q < ?n"
    using s(1) o fin unfolding q_def branch_start_Suc by linarith+
  have "sees L q k \<longleftrightarrow> k < v \<or> (?s \<le> k \<and> k \<le> q)" for k
    using sees_branch [OF ok i q(1,2), of k] v(1) s(1) by auto
  then have "sees L q = (\<lambda>k. k < v \<or> (?s \<le> k \<and> k \<le> q))" by blast
  then have keys: "visible_keys L q = [0..<v] @ [?s..<?s + Suc j]"
    unfolding visible_keys_def using filter_two_intervals [of v ?s q ?n] v(2) q(3)
    by (simp add: q_def)
  have le: "?s + Suc j \<le> ?n" "v \<le> ?n" using fin o v(2) by linarith+
  have ends: "branch_start L (Suc i) = int (?s + ?m)"
    unfolding branch_start_Suc using s(1) by linarith
  have sl: "py_slice (branch_start L i) (branch_start L (Suc i)) xs = slice ?s (?s + ?m) xs"
    if "length xs = ?n" for xs :: "int list"
  proof -
    have "?s + ?m \<le> length xs" using that fin by linarith
    then show ?thesis using py_slice_of_nat [of "?s + ?m" xs ?s] unfolding ends s(1) by simp
  qed
  have lenpos: "length (position_ids L) = ?n" using L by simp
  have seq: "slice ?s (?s + ?m) (sequence_ids L) = probe_token_ids L"
    and pos: "slice ?s (?s + ?m) (position_ids L) = py_range (int v) (int v + int ?m)"
    using b sl [of "sequence_ids L"] sl [OF lenpos] v(1) unfolding branch_ok_def by metis+
  have sub: "slice ?s (?s + Suc j) xs = take (Suc j) (slice ?s (?s + ?m) xs)" for xs :: "int list"
    using o by (simp add: slice_def min_def)
  show "map ((!) (sequence_ids L)) (visible_keys L q)
      = take v (sequence_ids L) @ take (Suc j) (probe_token_ids L)"
    using le sub seq by (simp only: keys map_append map_nth_upt slice_0)
  have "take v (position_ids L) = py_range 0 (int v)"
  proof -
    let ?o = "nat (original_sequence_length L)"
    have o_le: "?o \<le> length (position_ids L)"
      using lenpos fin s by linarith
    have "py_slice 0 (original_sequence_length L) (position_ids L) = take ?o (position_ids L)"
      using py_slice_of_nat [OF o_le, of 0] orig0 by simp
    then have "take ?o (position_ids L) = py_range 0 (original_sequence_length L)" using L by metis
    moreover have "take v (position_ids L) = take v (take ?o (position_ids L))"
      using \<open>v \<le> nat (original_sequence_length L)\<close> by (simp add: min.absorb1)
    ultimately have "take v (position_ids L) = take v (py_range 0 (original_sequence_length L))" by metis
    then show ?thesis using v(1) vis(2) by (auto intro!: nth_equalityI)
  qed
  moreover have "take (Suc j) (py_range (int v) (int v + int ?m)) = py_range (int v) (int v + int (Suc j))"
    using o by (auto intro!: nth_equalityI)
  ultimately have "map ((!) (position_ids L)) (visible_keys L q)
      = py_range 0 (int v) @ py_range (int v) (int v + int (Suc j))"
    using le L sub pos by (simp only: keys map_append map_nth_upt slice_0)
  also have "\<dots> = py_range 0 (int (v + Suc j))"
    by (rule nth_equalityI) (auto simp: nth_append)
  finally show "map ((!) (position_ids L)) (visible_keys L q) = py_range 0 (int (v + Suc j))" .
qed

section \<open>Properties of the layout\<close>

text \<open>A small layout used by the witnesses: one prompt token, two semantic steps.\<close>

definition example_probe :: answer_probe where
  "example_probe = \<lparr>ap_text = [], ap_token_ids = [7, 8], ap_answer_token_positions = [1],
      ap_answer_char_start = 0, ap_answer_char_end = 0\<rparr>"

definition example_layout :: probe_layout where
  "example_layout = layout_of [1] [10, 11, 12] [(0, 1), (1, 3)] example_probe"

lemma example_layout_built:
  "build_r2opl_probe_layout [1] [10, 11, 12] [StepPair 0 1, StepPair 1 3] example_probe
     = Inr example_layout"
  by code_simp

lemma built_layout_sequence:
  assumes "build_r2opl_probe_layout prompt response steps probe = Inr L"
  shows "layout_ok L" "take (length (prompt @ response)) (sequence_ids L) = prompt @ response"
    "original_sequence_length L = int (length (prompt @ response))"
    "probe_token_ids L = ap_token_ids probe" "prompt_length L = int (length prompt)"
proof -
  from assms obtain rs where rs: "prompt \<noteq> []" "contiguous 0 (int (length response)) rs"
      "length rs \<ge> 2 \<longrightarrow> probe_usable probe" and L: "L = layout_of prompt response rs probe"
    unfolding build_layout_Inr by blast
  show "layout_ok L" unfolding L by (rule layout_of_ok [OF rs])
  show "take (length (prompt @ response)) (sequence_ids L) = prompt @ response"
    unfolding L layout_of_def Let_def by simp
  show "original_sequence_length L = int (length (prompt @ response))"
    "probe_token_ids L = ap_token_ids probe" "prompt_length L = int (length prompt)"
    unfolding L by simp_all
qed

lemmas example_layout_ok = built_layout_sequence(1) [OF example_layout_built]

text \<open>
  C1: every token of an appended answer probe is computed as if the probe had been appended
  directly to its rollout prefix and run alone: the keys it may attend to carry, in order,
  exactly the ids of the visible prefix followed by the probe up to itself, at the
  consecutive position ids 0, 1, 2, ... of such a run. So no probe sees a response suffix or
  another probe.
\<close>

theorem probe_token_sees_standalone_run:
  assumes "build_r2opl_probe_layout prompt response steps probe = Inr L"
    and "build_dense_attention_mask L = Inr M"
    and "i < length (branches L)" and "j < length (ap_token_ids probe)"
    and "q = nat (probe_start (branches L ! i)) + j"
    and "keys = filter (\<lambda>k. mget M q k) [0..<length (sequence_ids L)]"
  shows "map ((!) (sequence_ids L)) keys
           = take (nat (visible_prefix_end (branches L ! i))) (prompt @ response)
             @ take (Suc j) (ap_token_ids probe)
       \<and> map ((!) (position_ids L)) keys = py_range 0 (int (length keys))"
proof -
  note built = built_layout_sequence [OF assms(1)]
  have b: "branch_ok L i (branches L ! i)" using built(1) assms(3) by (simp add: layout_ok_def)
  have jL: "j < length (probe_token_ids L)" using assms(4) built(4) by simp
  have q: "q = nat (branch_start L i) + j" using b assms(5) by (simp add: branch_ok_def)
  have v: "visible_prefix_end (branches L ! i) = visible_end L i" using b by (simp add: branch_ok_def)
  note keys = visible_keys_branch [OF built(1) assms(3) jL, folded q]
  have "branch_start L (Suc i) \<le> branch_start L (length (branches L))"
    using branch_start_mono [of "Suc i" "length (branches L)" L] assms(3) by simp
  moreover have "0 \<le> branch_start L i"
    using built(1) branch_start_mono [of 0 i L] by (simp add: layout_ok_def)
  ultimately have qn: "q < length (sequence_ids L)"
    using built(1) jL q unfolding layout_ok_def branch_start_Suc by linarith
  have eq: "keys = visible_keys L q"
    unfolding visible_keys_def assms(6)
    by (rule filter_cong [OF refl]) (simp add: dense_mask_sees(4) [OF assms(2)] qn)
  have "length keys = length (map ((!) (position_ids L)) (visible_keys L q))" by (simp add: eq)
  also have "\<dots> = nat (visible_end L i) + Suc j" unfolding keys(2) by (simp only: length_py_range diff_zero nat_int)
  finally have "length keys = nat (visible_end L i) + Suc j" .
  moreover have "take (nat (visible_end L i)) (sequence_ids L)
      = take (nat (visible_end L i)) (prompt @ response)"
    using keys(3) built(2,3) by (metis min.absorb1 nat_int take_take)
  ultimately show ?thesis unfolding v using keys(1,2) built(4) eq by metis
qed

theorem probe_token_sees_standalone_run_witness:
  "\<exists>M keys. build_dense_attention_mask example_layout = Inr M
     \<and> keys = filter (\<lambda>k. mget M 7 k) [0..<8]
     \<and> map ((!) (sequence_ids example_layout)) keys = [1, 10] @ [7, 8]
     \<and> map ((!) (position_ids example_layout)) keys = py_range 0 (int (length keys))"
proof -
  obtain M where M: "build_dense_attention_mask example_layout = Inr M"
    using example_layout_ok build_dense_attention_mask_Inr by blast
  have len: "length (sequence_ids example_layout) = 8" "length (branches example_layout) = 2"
    by code_simp+
  have q: "7 = nat (probe_start (branches example_layout ! 1)) + 1" by code_simp
  have v: "take (nat (visible_prefix_end (branches example_layout ! 1))) ([1] @ [10, 11, 12]) = [1, 10 :: int]"
    "take (Suc 1) (ap_token_ids example_probe) = [7, 8]" "1 < length (ap_token_ids example_probe)"
    by code_simp+
  from probe_token_sees_standalone_run [OF example_layout_built M _ v(3) q refl, of] len v M
  show ?thesis by simp
qed

text \<open>
  C2: packing leaves the rollout itself alone: prompt and response tokens keep their ids and
  positions, and each attends to exactly the tokens up to itself, whatever was appended.
\<close>

theorem original_tokens_unchanged:
  assumes "build_r2opl_probe_layout prompt response steps probe = Inr L"
    and "build_dense_attention_mask L = Inr M" and "q < length (prompt @ response)"
  shows "sequence_ids L ! q = (prompt @ response) ! q \<and> position_ids L ! q = int q
    \<and> filter (\<lambda>k. mget M q k) [0..<length (sequence_ids L)] = [0..<Suc q]"
proof (intro conjI)
  note built = built_layout_sequence [OF assms(1)]
  note ok = built(1) [unfolded layout_ok_def]
  have le: "length (prompt @ response) \<le> length (sequence_ids L)"
    using arg_cong [OF built(2), of length] by simp
  then have qn: "q < length (sequence_ids L)" using assms(3) by simp
  show "sequence_ids L ! q = (prompt @ response) ! q"
    using built(2) assms(3) by (metis nth_take)
  have len: "length (prompt @ response) \<le> length (position_ids L)" using le ok by simp
  have "py_slice 0 (int (length (prompt @ response))) (position_ids L)
      = py_range 0 (int (length (prompt @ response)))"
    using ok built(3) by metis
  then have "take (length (prompt @ response)) (position_ids L) = py_range 0 (int (length (prompt @ response)))"
    using py_slice_of_nat [OF len, of 0] by simp
  then show "position_ids L ! q = int q"
    using assms(3) by (metis add.left_neutral nth_py_range nth_take of_nat_less_iff diff_zero)
  have "sees L q k \<longleftrightarrow> k \<le> q" for k
    using sees_original [OF built(1)] built(3) assms(3) by simp
  then have "filter (\<lambda>k. mget M q k) [0..<length (sequence_ids L)]
      = filter (\<lambda>k. k \<le> q) [0..<length (sequence_ids L)]"
    by (intro filter_cong [OF refl]) (simp add: dense_mask_sees(4) [OF assms(2)] qn)
  also have "\<dots> = [0..<Suc q]"
    using filter_two_intervals [of 0 0 q] qn by simp
  finally show "filter (\<lambda>k. mget M q k) [0..<length (sequence_ids L)] = [0..<Suc q]" .
qed

theorem original_tokens_unchanged_witness:
  "sequence_ids example_layout ! 2 = 11 \<and> position_ids example_layout ! 2 = 2
   \<and> (\<exists>M. build_dense_attention_mask example_layout = Inr M
        \<and> filter (\<lambda>k. mget M 2 k) [0..<8] = [0, 1, 2])"
proof -
  obtain M where M: "build_dense_attention_mask example_layout = Inr M"
    using example_layout_ok build_dense_attention_mask_Inr by blast
  have len: "length (sequence_ids example_layout) = 8" by code_simp
  have "2 < length ([1] @ [10, 11, 12 :: int])" by simp
  from original_tokens_unchanged [OF example_layout_built M this] M len
  show ?thesis by (auto simp: upt_conv_Cons)
qed

text \<open>
  C5: \<open>build_r2opl_probe_layout\<close> succeeds exactly when the prompt is non-empty, the
  steps are readable and form a contiguous partition from token zero, and the probe is usable
  whenever there are two or more steps. In particular the validation it runs on its own
  result never fails.
\<close>

theorem build_layout_succeeds_iff:
  "(\<exists>L. build_r2opl_probe_layout prompt response steps probe = Inr L) \<longleftrightarrow>
     prompt \<noteq> [] \<and>
     (\<exists>rs. emap (\<lambda>(index, st). step_range st (int index)) (py_enumerate steps) = Inr rs \<and>
        contiguous 0 (int (length response)) rs \<and> (length rs \<ge> 2 \<longrightarrow> probe_usable probe))"
  unfolding build_layout_Inr by blast

theorem build_layout_succeeds_iff_witness:
  "(\<exists>L. build_r2opl_probe_layout [1] [10, 11, 12] [StepPair 0 1, StepPair 1 3] example_probe = Inr L)
   \<and> \<not> (\<exists>L. build_r2opl_probe_layout [1] [10, 11, 12] [StepPair 1 3] example_probe = Inr L)"
  unfolding build_layout_succeeds_iff
  by (simp add: py_enumerate_def example_probe_def probe_usable_def)

lemma decode_padded_ends:
  assumes "contiguous 0 n rs" and "rs \<noteq> []"
  shows "semantic_step_ranges_from_ends (map snd rs @ replicate k 0) n None = Inr rs"
proof -
  have pos: "\<forall>v \<in> set (map snd rs). v > 0"
    using contiguous_bounds [OF assms(1)] by fastforce
  then have nz: "0 \<notin> set (map snd rs)" by auto
  have "takeWhile (\<lambda>v. v \<noteq> 0) (map snd rs @ replicate k 0) = map snd rs"
    using nz by (cases k) (auto simp: takeWhile_append image_iff takeWhile_tail)
  then have "unpadded_ends (map snd rs @ replicate k 0) None = Inr (map snd rs)"
    using nz by (cases k) (auto simp: unpadded_ends_def Let_def image_iff)
  moreover have "zip (0 # butlast (map snd rs)) (map snd rs) = rs"
    using contiguous_ranges_from [OF assms(1)] ranges_from_zip [of "map snd rs" 0] assms(2) by simp
  moreover have "\<not> (\<exists>v \<in> set (map snd rs). v \<le> 0)" using pos by fastforce
  ultimately show ?thesis
    using assms by (simp add: semantic_step_ranges_from_ends_def validate_semantic_ranges_Inr raise_if_def)
qed

text \<open>
  Cumulative step ends padded with zeros decode to the ranges they were made from.
\<close>

theorem step_ends_roundtrip:
  assumes "contiguous 0 n rs" and "rs \<noteq> []"
  shows "semantic_step_ranges_from_ends (map snd rs @ replicate k 0) n None = Inr rs"
  by (rule decode_padded_ends [OF assms])

theorem step_ends_roundtrip_witness:
  "semantic_step_ranges_from_ends [1, 3, 0, 0] 3 None = Inr [(0, 1), (1, 3)]"
  using step_ends_roundtrip [of 3 "[(0, 1), (1, 3)]" 2] by (simp add: numeral_2_eq_2)

text \<open>
  A response without any semantic step (all step ends are padding) cannot be laid out
  from its step ends: the strict zip of the starts \<open>[0]\<close> with no ends raises, although
  the direct constructor accepts the empty list of steps.
\<close>

theorem zero_step_response_rejected:
  assumes "\<forall>v \<in> set ends. v = 0" and "prompt \<noteq> []"
  shows "build_r2opl_probe_layout_from_step_ends prompt response ends probe_ids positions None
           = Inl (ValueError ''zip() argument 2 is shorter than argument 1'')
       \<and> (\<exists>L. build_r2opl_probe_layout prompt response [] probe = Inr L)"
proof -
  have "unpadded_ends ends None = Inr []"
    using assms(1) by (cases ends) (auto simp: unpadded_ends_def Let_def raise_if_def)
  then show ?thesis
    using assms(2) build_layout_Inr [of prompt response "[]" probe]
    by (simp add: build_r2opl_probe_layout_from_step_ends_def semantic_step_ranges_from_ends_def
        py_enumerate_def)
qed

theorem zero_step_response_rejected_witness:
  "build_r2opl_probe_layout_from_step_ends [1] [2] [0] [7, 8] [1] None
     = Inl (ValueError ''zip() argument 2 is shorter than argument 1'')"
  using zero_step_response_rejected [of "[0]" "[1]"] by simp

end
