(* ===== verification/R2OPL_Probe.thy ===== *)
theory R2OPL_Probe
  imports Token_Alignment Layout_Correct
begin

text \<open>
  Probe metadata (\<open>utils/r2opl_probe.py\<close>): the fixed answer probe of a response and the
  token ends of its semantic steps, and their agreement with the packed layout that consumes them
  (\<open>Probe_Layout\<close>).
\<close>

section \<open>The operations\<close>

definition R2OPL_PROBE_PREFIX :: ustr where
  "R2OPL_PROBE_PREFIX = lit ''Therefore, the answer is '' @ [92] @ lit ''boxed{''"

definition R2OPL_PROBE_SUFFIX :: ustr where
  "R2OPL_PROBE_SUFFIX = lit ''}.''"

record probe_metadata =
  pm_token_ids :: "int list"
  pm_answer_positions :: "int list"
  pm_step_ends :: "int list"

definition probe_boundaries :: "probe_metadata \<Rightarrow> int list" where
  "probe_boundaries m = (if pm_token_ids m = [] \<or> pm_step_ends m = [] then [] else 0 # butlast (pm_step_ends m))"

fun validate_step_ends :: "int \<Rightarrow> int \<Rightarrow> int list \<Rightarrow> unit res" where
  "validate_step_ends response_len previous [] = Inr ()"
| "validate_step_ends response_len previous (e # es) =
     raise_if (e \<le> previous \<or> e > response_len)
       (RuntimeError ''semantic-step token ends must be strictly increasing and within the response'')
     (validate_step_ends response_len e es)"

definition build_r2opl_answer_probe :: "tokenizer \<Rightarrow> ustr \<Rightarrow> answer_probe res" where
  "build_r2opl_answer_probe tk answer =
     build_answer_probe tk answer R2OPL_PROBE_PREFIX R2OPL_PROBE_SUFFIX (lit ''R'' @ [178] @ lit ''OPL'')"

definition build_r2opl_probe_metadata ::
  "unicode_data \<Rightarrow> tokenizer \<Rightarrow> int list \<Rightarrow> ustr option \<Rightarrow> probe_metadata res" where
  "build_r2opl_probe_metadata ud tk response_ids answer =
     ebind (ewrap (RuntimeError ''R2OPL could not construct semantic reasoning steps'')
             (split_rollout_steps ud tk True response_ids)) (\<lambda>(_, steps).
     let ends = map (\<lambda>s. int (token_end s)) steps in
     ebind (validate_step_ends (int (length response_ids)) 0 ends) (\<lambda>_.
     if length ends < 2 then Inr \<lparr>pm_token_ids = [], pm_answer_positions = [], pm_step_ends = ends\<rparr>
     else let answer_text = (case answer of None \<Rightarrow> [] | Some a \<Rightarrow> a) in
       raise_if (strip answer_text = []) (ValueError ''R2OPL requires a non-empty dataset answer'')
      (ebind (ewrap (RuntimeError ''R2OPL could not construct its gold-answer probe'')
               (build_r2opl_answer_probe tk answer_text)) (\<lambda>p.
       raise_if (ap_token_ids p = [] \<or> ap_answer_token_positions p = [])
         (RuntimeError ''R2OPL answer probe must contain scored answer tokens'')
       (raise_if (\<exists>q \<in> set (ap_answer_token_positions p). q \<le> 0 \<or> q \<ge> int (length (ap_token_ids p)))
         (RuntimeError ''answer-probe positions must have causal predecessors'')
       (Inr \<lparr>pm_token_ids = ap_token_ids p, pm_answer_positions = ap_answer_token_positions p, pm_step_ends = ends\<rparr>))))))"

section \<open>Steps and ends\<close>

lemma validate_step_ends_contiguous:
  "contiguous p n rs \<Longrightarrow> validate_step_ends n p (map snd rs) = Inr ()"
  by (induction p n rs rule: contiguous.induct) auto

text \<open>Whenever splitting succeeds its token spans are contiguous, so their ends pass the validation.\<close>

lemma rollout_token_spans:
  assumes "tok_decode tk skip [] = []" "split_rollout_steps ud tk skip ids = Inr (r, steps)"
  shows "contiguous 0 (int (length ids)) (token_spans steps)"
proof -
  obtain tss where tss: "split_text_steps ud (tok_decode tk skip ids) = Inr tss"
    using assms(2) by (auto simp: split_rollout_steps_def decode_ids_def Let_def ebind_Inr)
  from split_rollout_steps_ok [OF assms(1) this] obtain a where
    a: "split_rollout_steps ud tk skip ids = Inr (tok_decode tk skip ids, al_steps a)"
      "aligned tk skip ids (tok_decode tk skip ids) a" by blast
  have "steps = al_steps a" using a(1) assms(2) by simp
  moreover have "contiguous 0 (int (al_token_end a)) (token_spans (al_steps a))" "al_token_end a \<le> length ids"
    using a(2) by (simp_all only: aligned_def)
  ultimately show ?thesis using contiguous_mono by simp
qed

lemma metadata_cases:
  assumes "tok_decode tk True [] = []" "build_r2opl_probe_metadata ud tk ids answer = Inr M"
  obtains rs where "contiguous 0 (int (length ids)) rs" "pm_step_ends M = map snd rs"
    "length rs \<ge> 2 \<Longrightarrow> probe_usable \<lparr>ap_text = [], ap_token_ids = pm_token_ids M,
       ap_answer_token_positions = pm_answer_positions M, ap_answer_char_start = 0, ap_answer_char_end = 0\<rparr>"
    "length rs < 2 \<Longrightarrow> pm_token_ids M = []"
proof -
  obtain r steps where s: "split_rollout_steps ud tk True ids = Inr (r, steps)"
    using assms(2) by (auto simp: build_r2opl_probe_metadata_def ebind_Inr ewrap_Inr)
  note c = rollout_token_spans [OF assms(1) s]
  have snd: "map (\<lambda>s. int (token_end s)) steps = map snd (token_spans steps)" by simp
  note M = assms(2) [unfolded build_r2opl_probe_metadata_def s ewrap.simps ebind.simps case_prod_conv Let_def snd
      validate_step_ends_contiguous [OF c]]
  show thesis
  proof (cases "length (token_spans steps) < 2")
    case True
    then have "M = \<lparr>pm_token_ids = [], pm_answer_positions = [], pm_step_ends = map snd (token_spans steps)\<rparr>" using M by simp
    then show thesis using that [OF c] True by simp
  next
    case False
    obtain p where p: "ewrap (RuntimeError ''R2OPL could not construct its gold-answer probe'')
        (build_r2opl_answer_probe tk (case answer of None \<Rightarrow> [] | Some a \<Rightarrow> a)) = Inr p \<and>
      \<not> (ap_token_ids p = [] \<or> ap_answer_token_positions p = []) \<and>
      \<not> (\<exists>q \<in> set (ap_answer_token_positions p). q \<le> 0 \<or> q \<ge> int (length (ap_token_ids p))) \<and>
      Inr \<lparr>pm_token_ids = ap_token_ids p, pm_answer_positions = ap_answer_token_positions p,
            pm_step_ends = map snd (token_spans steps)\<rparr> = (Inr M :: probe_metadata res)"
      using M [unfolded length_map [of snd] if_not_P [OF False] ebind_Inr raise_if_Inr, THEN conjunct2] by (rule exE)
    then show thesis using that [OF c] False by (auto simp: probe_usable_def not_le)
  qed
qed

lemma ends_below_last:
  "contiguous p n rs \<Longrightarrow> rs \<noteq> [] \<Longrightarrow>
     p < last (map snd rs) \<and> (\<forall>b \<in> set (butlast (map snd rs)). b < last (map snd rs))"
proof (induction p n rs rule: contiguous.induct)
  case (2 p n s e rs)
  then show ?case by (cases "rs = []") auto
qed simp

lemma emap_pairs:
  "emap (\<lambda>(index, st). step_range st (int index)) (py_enumerate (map (\<lambda>(s, e). StepPair s e) rs)) = Inr rs"
  by (auto simp: emap_Inr list_all2_conv_all_nth case_prod_unfold)

lemma layout_of_visible_ends:
  "map visible_prefix_end (branches (layout_of prompt response rs pr)) =
     (if length rs \<ge> 2 then map (\<lambda>b. int (length prompt) + b) (0 # butlast (map snd rs)) else [])"
  by (rule nth_equalityI) (auto simp: layout_of_def Let_def packed_branch_def nth_Cons' nth_butlast)

lemma no_steps_rejected: "\<exists>e. semantic_step_ranges_from_ends (replicate k 0) n None = Inl e"
  by (cases k) (simp_all add: semantic_step_ranges_from_ends_def unpadded_ends_def Let_def takeWhile_replicate)

section \<open>Properties\<close>

text \<open>
  C15: The layout builder of the packed forward accepts probe metadata exactly when it names at
  least one step. Then, with any zero padding after the step ends, it never raises, its branches
  carry the probe and see the prompt and exactly the announced probe boundaries of the response, and
  no boundary is the end of the last step. For metadata without a step, which the producer returns
  for a response without steps, the builder always raises. Assumed are a tokenizer that decodes
  nothing to the empty text and a non-empty prompt.
\<close>

theorem metadata_feeds_packed_forward:
  assumes "tok_decode tk True [] = []" and "build_r2opl_probe_metadata ud tk ids answer = Inr M" and "prompt \<noteq> []"
  shows "if pm_step_ends M = []
    then \<exists>e. build_r2opl_probe_layout_from_step_ends prompt ids (pm_step_ends M @ replicate k 0) (pm_token_ids M)
         (pm_answer_positions M) None = Inl e
    else \<exists>L. build_r2opl_probe_layout_from_step_ends prompt ids (pm_step_ends M @ replicate k 0) (pm_token_ids M)
         (pm_answer_positions M) None = Inr L \<and>
       map snd (semantic_step_ranges L) = pm_step_ends M \<and> probe_token_ids L = pm_token_ids M \<and>
       map visible_prefix_end (branches L) = map (\<lambda>b. int (length prompt) + b) (probe_boundaries M) \<and>
       list_all (\<lambda>b. b < last (pm_step_ends M)) (probe_boundaries M)"
proof -
  let ?p = "\<lparr>ap_text = [], ap_token_ids = pm_token_ids M,
       ap_answer_token_positions = pm_answer_positions M, ap_answer_char_start = 0, ap_answer_char_end = 0\<rparr>"
  let ?build = "build_r2opl_probe_layout_from_step_ends prompt ids (pm_step_ends M @ replicate k 0) (pm_token_ids M)
         (pm_answer_positions M) None"
  obtain rs where rs: "contiguous 0 (int (length ids)) rs" "pm_step_ends M = map snd rs"
    "length rs \<ge> 2 \<Longrightarrow> probe_usable ?p" "length rs < 2 \<Longrightarrow> pm_token_ids M = []"
    using metadata_cases [OF assms(1,2)] by metis
  have empty: "\<exists>e. ?build = Inl e" if "pm_step_ends M = []"
    using no_steps_rejected [of k "int (length ids)"] that by (auto simp: build_r2opl_probe_layout_from_step_ends_def)
  have "\<exists>L. ?build = Inr L \<and> map snd (semantic_step_ranges L) = pm_step_ends M \<and> probe_token_ids L = pm_token_ids M \<and>
       map visible_prefix_end (branches L) = map (\<lambda>b. int (length prompt) + b) (probe_boundaries M) \<and>
       list_all (\<lambda>b. b < last (pm_step_ends M)) (probe_boundaries M)" if "pm_step_ends M \<noteq> []"
  proof -
    have ne: "rs \<noteq> []" using that rs(2) by simp
    let ?L = "layout_of prompt ids rs ?p"
    have "build_r2opl_probe_layout prompt ids (map (\<lambda>(s, e). StepPair s e) rs) ?p = Inr ?L"
      unfolding build_layout_Inr emap_pairs using assms(3) rs(1,3) by blast
    then have "?build = Inr ?L"
      by (simp add: build_r2opl_probe_layout_from_step_ends_def rs(2) decode_padded_ends [OF rs(1) ne])
    moreover have "map visible_prefix_end (branches ?L) = map (\<lambda>b. int (length prompt) + b) (probe_boundaries M)"
      using rs(3,4) ne unfolding layout_of_visible_ends probe_boundaries_def rs(2) probe_usable_def
      by (cases "length rs \<ge> 2") auto
    moreover have "list_all (\<lambda>b. b < last (pm_step_ends M)) (probe_boundaries M)"
      using ends_below_last [OF rs(1) ne] by (simp add: probe_boundaries_def rs(2) list_all_iff)
    ultimately show ?thesis using rs(2) by (intro exI [of _ ?L]) simp
  qed
  then show ?thesis using empty by simp
qed

theorem metadata_feeds_packed_forward_witness:
  "\<exists>M L N. build_r2opl_probe_metadata ascii_only character_tokenizer (map int two_steps) (Some (lit ''5'')) = Inr M \<and>
     build_r2opl_probe_layout_from_step_ends [1, 2] (map int two_steps) (pm_step_ends M @ replicate 3 0) (pm_token_ids M)
         (pm_answer_positions M) None = Inr L \<and> map snd (semantic_step_ranges L) = [2, 22] \<and>
     build_r2opl_probe_metadata ascii_only character_tokenizer [] (Some (lit ''5'')) = Inr N \<and>
     (\<exists>e. build_r2opl_probe_layout_from_step_ends [1, 2] [] (pm_step_ends N @ replicate 3 0) (pm_token_ids N)
         (pm_answer_positions N) None = Inl e)"
proof -
  have "case build_r2opl_probe_metadata ascii_only character_tokenizer (map int two_steps) (Some (lit ''5'')) of
      Inl _ \<Rightarrow> False | Inr M \<Rightarrow> pm_step_ends M = [2, 22]"
    by code_simp
  then obtain M where M: "build_r2opl_probe_metadata ascii_only character_tokenizer (map int two_steps) (Some (lit ''5'')) = Inr M"
    "pm_step_ends M = [2, 22]"
    by (auto split: sum.splits)
  have "case build_r2opl_probe_metadata ascii_only character_tokenizer [] (Some (lit ''5'')) of
      Inl _ \<Rightarrow> False | Inr M \<Rightarrow> pm_step_ends M = []"
    by code_simp
  then obtain N where N: "build_r2opl_probe_metadata ascii_only character_tokenizer [] (Some (lit ''5'')) = Inr N"
    "pm_step_ends N = []"
    by (auto split: sum.splits)
  have tok: "tok_decode character_tokenizer True [] = []" and prompt: "[1, 2] \<noteq> ([] :: int list)"
    by (simp_all add: character_tokenizer_def)
  obtain L where "build_r2opl_probe_layout_from_step_ends [1, 2] (map int two_steps) (pm_step_ends M @ replicate 3 0)
      (pm_token_ids M) (pm_answer_positions M) None = Inr L" "map snd (semantic_step_ranges L) = [2, 22]"
    using metadata_feeds_packed_forward [OF tok M(1) prompt, of 3] M(2) by auto
  moreover have "\<exists>e. build_r2opl_probe_layout_from_step_ends [1, 2] [] (pm_step_ends N @ replicate 3 0) (pm_token_ids N)
         (pm_answer_positions N) None = Inl e"
    using metadata_feeds_packed_forward [OF tok N(1) prompt, of 3] N(2) by simp
  ultimately show ?thesis using M(1) N(1)
    by (intro exI [of _ M] exI [of _ L] exI [of _ N] conjI)
qed

end
