(* ===== verification/Modulation.thy ===== *)
theory Modulation
  imports Layout_Correct
begin

text \<open>
  Token modulation (\<open>compute_r2opl_token_modulation\<close> of \<open>utils/r2opl.py\<close>): probe
  probabilities become step gates, step gates become per-token multipliers.

  Probabilities arrive as floats, possibly not finite outside the active branches; once the
  guards are passed every value the code computes with is finite, so gates and multipliers
  are reals.
\<close>

section \<open>Hyperparameters and masks\<close>

definition bad_coefficient :: "flt \<Rightarrow> bool" where
  "bad_coefficient v = (\<not> is_finite v \<or> fless v (Fin 0))"

definition validate_hyperparameters ::
  "flt option \<Rightarrow> flt option \<Rightarrow> flt option \<Rightarrow> flt option \<Rightarrow> flt option \<Rightarrow> unit res" where
  "validate_hyperparameters lambda miu alpha_r alpha_d epsilon =
     raise_if (case lambda of None \<Rightarrow> False | Some v \<Rightarrow> bad_coefficient v)
       (ValueError ''lambda must be finite and non-negative'')
     (raise_if (case miu of None \<Rightarrow> False | Some v \<Rightarrow> \<not> is_finite v \<or> fle v (Fin 0))
       (ValueError ''miu must be finite and positive'')
     (raise_if (case alpha_r of None \<Rightarrow> False | Some v \<Rightarrow> bad_coefficient v)
       (ValueError ''alpha_R must be finite and non-negative'')
     (raise_if (case alpha_d of None \<Rightarrow> False | Some v \<Rightarrow> bad_coefficient v)
       (ValueError ''alpha_D must be finite and non-negative'')
     (raise_if (case epsilon of None \<Rightarrow> False
                | Some v \<Rightarrow> \<not> is_finite v \<or> \<not> (fle (Fin 0) v \<and> fle v (Fin 1)))
       (ValueError ''epsilon must lie in [0, 1]'')
     (Inr ())))))"

text \<open>\<open>torch.arange(w).unsqueeze(0) < counts.unsqueeze(1)\<close>\<close>

definition prefix_of_counts :: "nat \<Rightarrow> nat list \<Rightarrow> bool mat" where
  "prefix_of_counts w counts = mtab (length counts) w (\<lambda>i j. j < counts ! i)"

definition prefix_mask :: "bool mat \<Rightarrow> nat list res" where
  "prefix_mask m =
     (let counts = map vcount (rows m); expected = prefix_of_counts (width m) counts
      in raise_if (m \<noteq> expected) (ValueError ''must contain a left-aligned true prefix per row'')
         (Inr counts))"

section \<open>Marking tokens by step\<close>

text \<open>\<open>row[a:b] = v\<close>, for in-range bounds.\<close>

definition assign_range :: "int \<Rightarrow> int \<Rightarrow> 'a \<Rightarrow> 'a list \<Rightarrow> 'a list" where
  "assign_range a b v xs = map (\<lambda>(j, x). if a \<le> int j \<and> int j < b then v else x) (py_enumerate xs)"

text \<open>
  One batch row of the validation loop: the ranges of its \<open>n\<close> steps are checked from
  \<open>k\<close> on and the tokens of the last step and of the others are marked.
\<close>

fun mark_steps ::
  "bool list \<Rightarrow> nat \<Rightarrow> nat \<Rightarrow> int \<Rightarrow> (int \<times> int) list \<Rightarrow> bool list \<times> bool list \<Rightarrow> (bool list \<times> bool list) res"
where
  "mark_steps mask_row n k previous_end [] acc = Inr acc"
| "mark_steps mask_row n k previous_end ((a, b) # rs) (probed, lst) =
     raise_if (\<not> (0 \<le> a \<and> a < b \<and> b \<le> int (length mask_row)))
       (ValueError ''Invalid R2OPL semantic range'')
     (raise_if (a \<noteq> previous_end)
       (ValueError ''semantic ranges must be contiguous'')
     (raise_if (\<not> (\<forall>t \<in> set (slice (nat a) (nat b) mask_row). t))
       (ValueError ''semantic range includes a masked response token'')
     (mark_steps mask_row n (Suc k) b rs
        (if k = n - 1 then (probed, assign_range a b True lst)
         else (assign_range a b True probed, lst)))))"

definition mark_row :: "nat \<Rightarrow> bool list \<Rightarrow> nat \<Rightarrow> (int \<times> int) list \<Rightarrow> (bool list \<times> bool list) res" where
  "mark_row w mask_row n step_ranges =
     mark_steps mask_row n 0 0 (take n step_ranges) (replicate w False, replicate w False)"

text \<open>One batch row of the multiplier loop, over the probed steps.\<close>

fun spread_gates :: "(int \<times> int) list \<Rightarrow> real list \<Rightarrow> real list \<Rightarrow> real list" where
  "spread_gates ((a, b) # rs) (g # gs) row = spread_gates rs gs (assign_range a b g row)"
| "spread_gates _ _ row = row"

definition multiplier_row :: "nat \<Rightarrow> nat \<Rightarrow> (int \<times> int) list \<Rightarrow> real list \<Rightarrow> real list" where
  "multiplier_row w n step_ranges gates = spread_gates (take (n - 1) step_ranges) gates (replicate w 1)"

section \<open>The modulation\<close>

record token_modulation =
  tm_probe_probabilities :: "flt mat"
  tm_probe_branch_mask :: "bool mat"
  tm_semantic_step_mask :: "bool mat"
  tm_probed_step_mask :: "bool mat"
  tm_probe_delta_prob :: "real mat"
  tm_correct_step_gate :: "real mat"
  tm_error_step_gate :: "real mat"
  tm_correct_token_multiplier :: "real mat"
  tm_error_token_multiplier :: "real mat"
  tm_probed_token_mask :: "bool mat"
  tm_last_step_token_mask :: "bool mat"

text \<open>The arithmetic after the guards: deltas, gates and multipliers.\<close>

definition modulate ::
  "flt mat \<Rightarrow> nat \<Rightarrow> (int \<times> int) mat \<Rightarrow> bool mat \<Rightarrow> nat list \<Rightarrow> bool mat \<Rightarrow> real \<Rightarrow> real \<Rightarrow> real
    \<Rightarrow> (bool list \<times> bool list) list \<Rightarrow> token_modulation" where
  "modulate probe_probabilities response_width step_ranges step_mask step_counts branch_mask
     alpha_r alpha_d epsilon marks =
     (let batch_size = length step_counts;
          step_width = width step_ranges;
          branch_width = width probe_probabilities;
          probed_step_mask = mtab batch_size step_width (\<lambda>i j. j < step_counts ! i - 1);
          safe = mmap2 (\<lambda>m p. if m then fval p else 0) branch_mask probe_probabilities;
          usable_width = min step_width (branch_width - 1);
          delta = mtab batch_size step_width (\<lambda>i j.
            if step_width > 0 \<and> branch_width \<ge> 2 \<and> j < usable_width \<and> mget probed_step_mask i j
            then mget safe i (Suc j) - mget safe i j else 0);
          correct_gate = mmap2 (\<lambda>m d. if m then max epsilon (1 + alpha_r * d) else 1) probed_step_mask delta;
          error_gate = mmap2 (\<lambda>m d. if m then max 0 (1 - alpha_d * d) else 1) probed_step_mask delta;
          correct_mult = \<lparr>width = response_width, rows = map (\<lambda>i. multiplier_row response_width
            (step_counts ! i) (rows step_ranges ! i) (rows correct_gate ! i)) [0..<batch_size]\<rparr>;
          error_mult = \<lparr>width = response_width, rows = map (\<lambda>i. multiplier_row response_width
            (step_counts ! i) (rows step_ranges ! i) (rows error_gate ! i)) [0..<batch_size]\<rparr>
      in \<lparr>tm_probe_probabilities = probe_probabilities,
          tm_probe_branch_mask = branch_mask,
          tm_semantic_step_mask = step_mask,
          tm_probed_step_mask = probed_step_mask,
          tm_probe_delta_prob = delta,
          tm_correct_step_gate = correct_gate,
          tm_error_step_gate = error_gate,
          tm_correct_token_multiplier = correct_mult,
          tm_error_token_multiplier = error_mult,
          tm_probed_token_mask = \<lparr>width = response_width, rows = map fst marks\<rparr>,
          tm_last_step_token_mask = \<lparr>width = response_width, rows = map snd marks\<rparr>\<rparr>)"

definition compute_r2opl_token_modulation ::
  "flt mat \<Rightarrow> bool mat \<Rightarrow> (int \<times> int) mat \<Rightarrow> bool mat option \<Rightarrow> bool mat option
    \<Rightarrow> flt \<Rightarrow> flt \<Rightarrow> flt \<Rightarrow> token_modulation res" where
  "compute_r2opl_token_modulation probe_probabilities response_mask semantic_ranges
     semantic_step_mask probe_branch_mask alpha_r alpha_d epsilon =
     ebind (validate_hyperparameters None None (Some alpha_r) (Some alpha_d) (Some epsilon)) (\<lambda>_.
     (let batch_size = height response_mask; response_width = width response_mask in
      raise_if (height probe_probabilities \<noteq> batch_size \<or> height semantic_ranges \<noteq> batch_size)
        (ValueError ''tensors must share a batch size'')
      (let step_mask = (case semantic_step_mask of
              None \<Rightarrow> mmap (\<lambda>(a, b). b > a) semantic_ranges | Some m \<Rightarrow> m) in
       raise_if (shape step_mask \<noteq> shape semantic_ranges)
         (ValueError ''semantic_step_mask must have shape [batch, steps]'')
       (ebind (prefix_mask step_mask) (\<lambda>step_counts.
        (let expected_counts = map (\<lambda>n. if n \<ge> 2 then n else 0) step_counts;
             branch_width = width probe_probabilities;
             expected_branch_mask = prefix_of_counts branch_width expected_counts;
             branch_mask = (case probe_branch_mask of None \<Rightarrow> expected_branch_mask | Some m \<Rightarrow> m) in
         raise_if (shape branch_mask \<noteq> shape probe_probabilities)
           (ValueError ''probe_branch_mask must have shape [batch, branches]'')
         (raise_if (branch_mask \<noteq> expected_branch_mask)
           (ValueError ''branches must be a left-aligned prefix'')
         (raise_if (\<exists>n \<in> set expected_counts. n > branch_width)
           (ValueError ''probe_probabilities do not include every required branch'')
         (raise_if (\<exists>p \<in> set (mselect branch_mask probe_probabilities). \<not> is_finite p)
           (ValueError ''active probe probabilities must be finite'')
         (raise_if (\<exists>p \<in> set (mselect branch_mask probe_probabilities).
                       fless p (Fin 0) \<or> fless (Fin 1) p)
           (ValueError ''active probe probabilities must lie in [0, 1]'')
         (ebind (emap (\<lambda>i. mark_row response_width (rows response_mask ! i) (step_counts ! i)
                          (rows semantic_ranges ! i)) [0..<batch_size]) (\<lambda>marks.
          Inr (modulate probe_probabilities response_width semantic_ranges step_mask step_counts
                 branch_mask (fval alpha_r) (fval alpha_d) (fval epsilon) marks)))))))))))))"

section \<open>Lemmas\<close>

lemma validate_hyperparameters_Inr [res_simps]:
  "validate_hyperparameters lambda miu ar ad ep = Inr u \<longleftrightarrow>
     (\<forall>v. lambda = Some v \<longrightarrow> is_finite v \<and> 0 \<le> fval v) \<and>
     (\<forall>v. miu = Some v \<longrightarrow> is_finite v \<and> 0 < fval v) \<and>
     (\<forall>v. ar = Some v \<longrightarrow> is_finite v \<and> 0 \<le> fval v) \<and>
     (\<forall>v. ad = Some v \<longrightarrow> is_finite v \<and> 0 \<le> fval v) \<and>
     (\<forall>v. ep = Some v \<longrightarrow> is_finite v \<and> 0 \<le> fval v \<and> fval v \<le> 1)"
  unfolding validate_hyperparameters_def raise_if_Inr bad_coefficient_def
  by (auto simp: is_finite_iff split: option.splits)

lemma prefix_mask_Inr [res_simps]:
  "prefix_mask m = Inr c \<longleftrightarrow> c = map vcount (rows m) \<and> m = prefix_of_counts (width m) c"
  by (auto simp: prefix_mask_def Let_def res_simps)

lemma length_assign_range [simp]: "length (assign_range a b v xs) = length xs"
  by (simp add: assign_range_def)

lemma nth_assign_range [simp]:
  "j < length xs \<Longrightarrow> assign_range a b v xs ! j = (if a \<le> int j \<and> int j < b then v else xs ! j)"
  by (simp add: assign_range_def)

lemma length_spread_gates [simp]: "length (spread_gates rs gs row) = length row"
  by (induction rs gs row rule: spread_gates.induct) auto

lemma length_multiplier_row [simp]: "length (multiplier_row w n rs gs) = w"
  by (simp add: multiplier_row_def)

text \<open>
  Over a contiguous partition, \<open>spread_gates\<close> puts gate \<open>k\<close> on the tokens of range
  \<open>k\<close> and leaves the others.
\<close>

lemma nth_spread_gates:
  "contiguous prev n rs \<Longrightarrow> length rs \<le> length gs \<Longrightarrow> t < length row \<Longrightarrow>
   spread_gates rs gs row ! t =
     (if \<exists>k < length rs. fst (rs ! k) \<le> int t \<and> int t < snd (rs ! k)
      then gs ! (THE k. k < length rs \<and> fst (rs ! k) \<le> int t \<and> int t < snd (rs ! k))
      else row ! t)"
proof (induction rs gs row arbitrary: prev rule: spread_gates.induct)
  case (1 a b rs g gs row)
  let ?in = "\<lambda>k rs. k < length rs \<and> fst (rs ! k) \<le> int t \<and> int t < snd (rs ! k)"
  have cont: "contiguous b n rs" and ab: "0 \<le> a" "a < b" using 1 by auto
  have after: "\<not> ?in k rs" if "int t < b" for k
    using that cont contiguous_bounds [of b n rs "fst (rs ! k)" "snd (rs ! k)"] by auto
  have IH: "spread_gates rs gs (assign_range a b g row) ! t =
      (if \<exists>k. ?in k rs then gs ! (THE k. ?in k rs) else assign_range a b g row ! t)"
    using 1 cont by simp
  show ?case
  proof (cases "a \<le> int t \<and> int t < b")
    case True
    have "?in k ((a, b) # rs) \<longleftrightarrow> k = 0" for k
      using True after by (cases k) auto
    then show ?thesis using IH True after 1 by auto
  next
    case False
    have shift: "?in k ((a, b) # rs) \<longleftrightarrow> (\<exists>k'. k = Suc k' \<and> ?in k' rs)" for k
      using False by (cases k) auto
    show ?thesis
    proof (cases "\<exists>k. ?in k rs")
      case True
      then obtain k where k: "?in k rs" by blast
      have uniq: "k' = k" if "?in k' rs" for k'
        using contiguous_disjoint [OF cont, of k' k "int t"] that k by blast
      have "(THE k. ?in k rs) = k" using k uniq by blast
      moreover have "(THE k. ?in k ((a, b) # rs)) = Suc k"
        unfolding shift using k uniq by blast
      moreover have "\<exists>k. ?in k ((a, b) # rs)" unfolding shift using k by blast
      ultimately show ?thesis using IH True by simp
    next
      case none: False
      then have "\<not> (\<exists>k. ?in k ((a, b) # rs))" unfolding shift by blast
      then show ?thesis using IH none False 1 by auto
    qed
  qed
qed auto

lemma mark_steps_Inr:
  "mark_steps mrow n k prev rs acc = Inr r \<Longrightarrow>
     contiguous prev (int (length mrow)) rs \<and>
     (\<forall>(a, b) \<in> set rs. \<forall>t. a \<le> int t \<and> int t < b \<longrightarrow> mrow ! t)"
proof (induction mrow n k prev rs acc arbitrary: r rule: mark_steps.induct)
  case (2 mrow n k prev a b rs probed lst)
  from 2(2) have ok: "0 \<le> a" "a < b" "b \<le> int (length mrow)" "a = prev"
    and sl: "\<forall>t \<in> set (slice (nat a) (nat b) mrow). t"
    and rest: "mark_steps mrow n (Suc k) b rs
        (if k = n - 1 then (probed, assign_range a b True lst)
         else (assign_range a b True probed, lst)) = Inr r"
    by (auto simp: res_simps)
  have "mrow ! t" if "a \<le> int t" "int t < b" for t
  proof -
    have "slice (nat a) (nat b) mrow ! (t - nat a) = mrow ! t"
      using that ok nth_slice [of "t - nat a" "nat b" "nat a" mrow] by auto
    moreover have "t - nat a < length (slice (nat a) (nat b) mrow)"
      using that ok by auto
    ultimately show ?thesis using sl by (metis nth_mem)
  qed
  then show ?case using ok 2(1) [OF rest] by auto
qed simp

lemma rows_prefix_of_counts:
  "i < length c \<Longrightarrow> rows (prefix_of_counts w c) ! i = map (\<lambda>j. j < c ! i) [0..<w]"
  by (simp add: prefix_of_counts_def mtab_def)

lemma vcount_prefix: "vcount (map (\<lambda>j. j < n) [0..<w]) = min n w"
proof -
  have "filter (\<lambda>j. j < n) [0..<w] = [0..<min n w]"
  proof (cases "n \<le> w")
    case True
    then have "[0..<w] = [0..<n] @ [n..<w]" by (intro upt_split) auto
    then show ?thesis using True by (simp add: min_def)
  qed (simp add: min_def filter_id_conv)
  then show ?thesis by (simp add: vcount_def filter_map comp_def)
qed

text \<open>What every successful modulation has established about its inputs.\<close>

definition modulation_inputs_ok ::
  "flt mat \<Rightarrow> bool mat \<Rightarrow> (int \<times> int) mat \<Rightarrow> nat list \<Rightarrow> bool" where
  "modulation_inputs_ok pp rm sr counts \<longleftrightarrow>
     length counts = height rm \<and> height pp = height rm \<and> height sr = height rm \<and>
     (\<forall>i < height rm.
        counts ! i \<le> width sr \<and>
        contiguous 0 (int (width rm)) (take (counts ! i) (rows sr ! i)) \<and>
        (\<forall>(a, b) \<in> set (take (counts ! i) (rows sr ! i)).
           \<forall>t. a \<le> int t \<and> int t < b \<longrightarrow> mget rm i t) \<and>
        (2 \<le> counts ! i \<longrightarrow> counts ! i \<le> width pp \<and>
           (\<forall>j < counts ! i. is_finite (mget pp i j) \<and> 0 \<le> fval (mget pp i j) \<and> fval (mget pp i j) \<le> 1)))"

lemma modulation_Inr:
  assumes wf: "wf_mat pp" "wf_mat rm" "wf_mat sr"
    and ok: "compute_r2opl_token_modulation pp rm sr sm bm ar ad ep = Inr T"
  obtains counts marks step_mask where "modulation_inputs_ok pp rm sr counts"
    "counts = map vcount (rows step_mask)"
    "is_finite ar" "0 \<le> fval ar" "is_finite ad" "0 \<le> fval ad" "is_finite ep" "0 \<le> fval ep" "fval ep \<le> 1"
    "T = modulate pp (width rm) sr step_mask counts
       (prefix_of_counts (width pp) (map (\<lambda>n. if n \<ge> 2 then n else 0) counts))
       (fval ar) (fval ad) (fval ep) marks"
    "emap (\<lambda>i. mark_row (width rm) (rows rm ! i) (counts ! i) (rows sr ! i)) [0..<height rm] = Inr marks"
proof -
  define step_mask where "step_mask = (case sm of None \<Rightarrow> mmap (\<lambda>(a, b). b > a) sr | Some m \<Rightarrow> m)"
  define counts where "counts = map vcount (rows step_mask)"
  define ec where "ec = map (\<lambda>n::nat. if n \<ge> 2 then n else 0) counts"
  define B where "B = prefix_of_counts (width pp) ec"
  obtain bmask where bmask: "bmask = (case bm of None \<Rightarrow> B | Some m \<Rightarrow> m)" by blast
  from ok obtain marks where
    hyp: "is_finite ar" "0 \<le> fval ar" "is_finite ad" "0 \<le> fval ad" "is_finite ep" "0 \<le> fval ep" "fval ep \<le> 1"
    and h: "height pp = height rm" "height sr = height rm"
    and sh: "shape step_mask = shape sr"
    and pre: "step_mask = prefix_of_counts (width step_mask) counts"
    and shB: "shape B = shape pp"
    and enough: "\<forall>n \<in> set ec. n \<le> width pp"
    and fin: "\<forall>p \<in> set (mselect B pp). is_finite p"
    and rng: "\<forall>p \<in> set (mselect B pp). \<not> fless p (Fin 0) \<and> \<not> fless (Fin 1) p"
    and marks: "emap (\<lambda>i. mark_row (width rm) (rows rm ! i) (counts ! i) (rows sr ! i)) [0..<height rm] = Inr marks"
    and T: "T = modulate pp (width rm) sr step_mask counts B (fval ar) (fval ad) (fval ep) marks"
    unfolding compute_r2opl_token_modulation_def Let_def raise_if_Inr ebind_Inr prefix_mask_Inr
      validate_hyperparameters_Inr step_mask_def [symmetric]
      counts_def [symmetric] ec_def [symmetric] B_def [symmetric]
    by (elim exE conjE; simp add: not_less counts_def [symmetric] ec_def [symmetric] B_def [symmetric] bmask [symmetric])
  have len: "length counts = height rm" "width step_mask = width sr"
    using sh h by (simp_all add: counts_def shape_def height_def)
  have wfB: "wf_mat B" by (simp add: B_def prefix_of_counts_def mat_simps)
  have "modulation_inputs_ok pp rm sr counts"
    unfolding modulation_inputs_ok_def
  proof (intro conjI allI impI)
    fix i assume i: "i < height rm"
    have row: "rows step_mask ! i = map (\<lambda>j. j < counts ! i) [0..<width sr]"
      using pre len i rows_prefix_of_counts [of i counts "width sr"] by metis
    have "counts ! i = vcount (rows step_mask ! i)"
      using i len unfolding counts_def by simp
    also have "\<dots> = min (counts ! i) (width sr)" unfolding row vcount_prefix ..
    finally show "counts ! i \<le> width sr" by simp
    have "\<exists>r. mark_row (width rm) (rows rm ! i) (counts ! i) (rows sr ! i) = Inr r"
      using emap_Inr_nth [OF marks, of i] i by auto
    then obtain r where "mark_row (width rm) (rows rm ! i) (counts ! i) (rows sr ! i) = Inr r" ..
    moreover have "length (rows rm ! i) = width rm" using wf(2) i by (simp add: wf_mat_def height_def)
    ultimately show "contiguous 0 (int (width rm)) (take (counts ! i) (rows sr ! i))"
      and "\<forall>(a, b) \<in> set (take (counts ! i) (rows sr ! i)). \<forall>t. a \<le> int t \<and> int t < b \<longrightarrow> mget rm i t"
      using mark_steps_Inr unfolding mark_row_def mget_def by fastforce+
    assume two: "2 \<le> counts ! i"
    then have ec: "ec ! i = counts ! i" using i len by (simp add: ec_def)
    then show le: "counts ! i \<le> width pp" using enough i len nth_mem [of i ec] by (simp add: ec_def)
    fix j assume j: "j < counts ! i"
    have jw: "j < width pp" using j le by simp
    have "mget B i j" using i len j jw ec by (simp add: B_def prefix_of_counts_def mat_simps ec_def)
    then have "is_finite (mget pp i j)" "\<not> fless (mget pp i j) (Fin 0)" "\<not> fless (Fin 1) (mget pp i j)"
      using fin rng i h jw unfolding list_all_mselect [OF wfB wf(1) shB] by simp_all
    then show "is_finite (mget pp i j)" "0 \<le> fval (mget pp i j)" "fval (mget pp i j) \<le> 1"
      by (cases "mget pp i j"; simp)+
  qed (use len h in simp_all)
  with hyp T marks show ?thesis using that [OF _ counts_def] unfolding B_def ec_def by blast
qed


text \<open>Entries of the tensors \<open>modulate\<close> returns.\<close>

lemma contiguous_take: "contiguous prev n rs \<Longrightarrow> contiguous prev n (take k rs)"
proof (induction prev n rs arbitrary: k rule: contiguous.induct)
  case (2 prev n a b rs)
  then show ?case by (cases k) auto
qed simp

lemma multiplier_row_probed:
  assumes "contiguous 0 w (take n rs)" "n \<le> length rs" "n - 1 \<le> length gs" "k + 1 < n" "t < m"
    "fst (rs ! k) \<le> int t" "int t < snd (rs ! k)"
  shows "multiplier_row m n rs gs ! t = gs ! k"
proof -
  let ?rs = "take (n - 1) rs"
  let ?in = "\<lambda>k. k < length ?rs \<and> fst (?rs ! k) \<le> int t \<and> int t < snd (?rs ! k)"
  have c: "contiguous 0 w ?rs"
    using contiguous_take [OF assms(1), of "n - 1"] by (simp add: min_def)
  have k: "?in k" using assms by auto
  have "k' = k" if "?in k'" for k' using contiguous_disjoint [OF c, of k' k "int t"] that k by blast
  then have "(THE k. ?in k) = k" using k by blast
  moreover have "\<exists>k. ?in k" using k by blast
  ultimately show ?thesis
    unfolding multiplier_row_def using nth_spread_gates [OF c, of gs t "replicate m 1"] assms by auto
qed

lemma multiplier_row_other:
  assumes "contiguous 0 w (take n rs)" "n \<le> length rs" "n - 1 \<le> length gs" "t < m"
    "\<forall>k. k + 1 < n \<longrightarrow> \<not> (fst (rs ! k) \<le> int t \<and> int t < snd (rs ! k))"
  shows "multiplier_row m n rs gs ! t = 1"
proof -
  let ?rs = "take (n - 1) rs"
  have c: "contiguous 0 w ?rs"
    using contiguous_take [OF assms(1), of "n - 1"] by (simp add: min_def)
  have "\<not> (\<exists>k < length ?rs. fst (?rs ! k) \<le> int t \<and> int t < snd (?rs ! k))" using assms by auto
  then show ?thesis
    unfolding multiplier_row_def using nth_spread_gates [OF c, of gs t "replicate m 1"] assms by auto
qed


text \<open>The token masks collect the ranges of the probed steps and of the last step.\<close>

lemma mark_steps_entries:
  "mark_steps mrow n k prev rs (P, L) = Inr (P', L') \<Longrightarrow> t < length P \<Longrightarrow> length L = length P \<Longrightarrow>
     length P' = length P \<and> length L' = length P \<and>
     (P' ! t \<longleftrightarrow> P ! t \<or> (\<exists>j < length rs. k + j \<noteq> n - 1 \<and> fst (rs ! j) \<le> int t \<and> int t < snd (rs ! j))) \<and>
     (L' ! t \<longleftrightarrow> L ! t \<or> (\<exists>j < length rs. k + j = n - 1 \<and> fst (rs ! j) \<le> int t \<and> int t < snd (rs ! j)))"
proof (induction rs arbitrary: k prev P L)
  case (Cons r rs)
  obtain a b where r: "r = (a, b)" by (cases r)
  have split: "(\<exists>j < length (r # rs). k + j \<noteq> n - 1 \<and> fst ((r # rs) ! j) \<le> int t \<and> int t < snd ((r # rs) ! j)) \<longleftrightarrow>
      (k \<noteq> n - 1 \<and> a \<le> int t \<and> int t < b) \<or>
      (\<exists>j < length rs. Suc k + j \<noteq> n - 1 \<and> fst (rs ! j) \<le> int t \<and> int t < snd (rs ! j))"
    "(\<exists>j < length (r # rs). k + j = n - 1 \<and> fst ((r # rs) ! j) \<le> int t \<and> int t < snd ((r # rs) ! j)) \<longleftrightarrow>
      (k = n - 1 \<and> a \<le> int t \<and> int t < b) \<or>
      (\<exists>j < length rs. Suc k + j = n - 1 \<and> fst (rs ! j) \<le> int t \<and> int t < snd (rs ! j))"
    by (simp_all add: r Ex_less_Suc2)
  show ?case
  proof (cases "k = n - 1")
    case True
    then have "mark_steps mrow n (Suc k) b rs (P, assign_range a b True L) = Inr (P', L')"
      using Cons.prems(1) by (auto simp: r res_simps)
    from Cons.IH [OF this] show ?thesis using True Cons.prems(2,3) unfolding split by auto
  next
    case False
    then have "mark_steps mrow n (Suc k) b rs (assign_range a b True P, L) = Inr (P', L')"
      using Cons.prems(1) by (auto simp: r res_simps)
    from Cons.IH [OF this] show ?thesis using False Cons.prems(2,3) unfolding split by auto
  qed
qed simp

lemma modulate_simps:
  "tm_semantic_step_mask (modulate pp w sr sm c B ar ad ep marks) = sm"
  "tm_probe_probabilities (modulate pp w sr sm c B ar ad ep marks) = pp"
  "tm_probe_branch_mask (modulate pp w sr sm c B ar ad ep marks) = B"
  "tm_probed_step_mask (modulate pp w sr sm c B ar ad ep marks) =
     mtab (length c) (width sr) (\<lambda>i j. j < c ! i - 1)"
  "tm_probed_token_mask (modulate pp w sr sm c B ar ad ep marks) = \<lparr>width = w, rows = map fst marks\<rparr>"
  "tm_last_step_token_mask (modulate pp w sr sm c B ar ad ep marks) = \<lparr>width = w, rows = map snd marks\<rparr>"
  by (simp_all add: modulate_def Let_def)

text \<open>The gate of probed step \<open>k\<close>, and where it ends up.\<close>

lemma modulate_gates:
  assumes wf: "wf_mat pp" and ok: "modulation_inputs_ok pp rm sr c" and i: "i < height rm"
    and B: "B = prefix_of_counts (width pp) (map (\<lambda>n. if n \<ge> 2 then n else 0) c)"
    and k: "k + 1 < c ! i"
    and T_def: "T = modulate pp w sr sm c B ar ad ep marks"
    and d_def: "d = fval (mget pp i (Suc k)) - fval (mget pp i k)"
  shows "mget (tm_correct_step_gate T) i k = max ep (1 + ar * d)"
    and "mget (tm_error_step_gate T) i k = max 0 (1 - ad * d)"
proof -
  from ok i k have h: "length c = height rm" "height pp = height rm" and le: "c ! i \<le> width sr" "c ! i \<le> width pp"
    by (auto simp: modulation_inputs_ok_def)
  have Bij: "mget B i j" if "j < c ! i" for j
    using that i h k le by (simp add: B prefix_of_counts_def mat_simps)
  have wfB: "wf_mat B" "height B = height rm" "width B = width pp"
    using h by (simp_all add: B prefix_of_counts_def mat_simps)
  have safe: "mget (mmap2 (\<lambda>m p. if m then fval p else 0) B pp) i j = fval (mget pp i j)"
    if "j < c ! i" for j
    using that Bij i h le wfB wf by (simp add: mat_simps)
  have bd: "k < c ! i - Suc 0" "k < width pp - Suc 0" using k le by auto
  show "mget (tm_correct_step_gate T) i k = max ep (1 + ar * d)"
    "mget (tm_error_step_gate T) i k = max 0 (1 - ad * d)"
    using k bd i h le safe [of k] safe [of "Suc k"] unfolding T_def d_def
    by (simp_all add: modulate_def Let_def mat_simps)
qed

lemma modulate_multipliers:
  assumes ok: "modulation_inputs_ok pp rm sr c" and wf: "wf_mat sr" and i: "i < height rm" and t: "t < w"
    and T_def: "T = modulate pp w sr sm c B ar ad ep marks"
  shows "k + 1 < c ! i \<Longrightarrow> fst (mget sr i k) \<le> int t \<Longrightarrow> int t < snd (mget sr i k) \<Longrightarrow>
      mget (tm_correct_token_multiplier T) i t = mget (tm_correct_step_gate T) i k \<and>
      mget (tm_error_token_multiplier T) i t = mget (tm_error_step_gate T) i k"
    and "\<forall>k. k + 1 < c ! i \<longrightarrow> \<not> (fst (mget sr i k) \<le> int t \<and> int t < snd (mget sr i k)) \<Longrightarrow>
      mget (tm_correct_token_multiplier T) i t = 1 \<and> mget (tm_error_token_multiplier T) i t = 1"
proof -
  from ok i have h: "length c = height rm" "height sr = height rm" and le: "c ! i \<le> width sr"
    and cont: "contiguous 0 (int (width rm)) (take (c ! i) (rows sr ! i))"
    by (auto simp: modulation_inputs_ok_def)
  have len: "c ! i \<le> length (rows sr ! i)" using wf le i h by (simp add: wf_mat_def height_def)
  have "length (rows (tm_correct_step_gate T) ! i) = width sr"
    "length (rows (tm_error_step_gate T) ! i) = width sr"
    using i h unfolding T_def by (simp_all add: modulate_def Let_def mtab_def mmap2_def)
  then have g: "c ! i - 1 \<le> length (rows (tm_correct_step_gate T) ! i)"
    "c ! i - 1 \<le> length (rows (tm_error_step_gate T) ! i)" using le by simp_all
  have row: "mget (tm_correct_token_multiplier T) i t =
      multiplier_row w (c ! i) (rows sr ! i) (rows (tm_correct_step_gate T) ! i) ! t"
    "mget (tm_error_token_multiplier T) i t =
      multiplier_row w (c ! i) (rows sr ! i) (rows (tm_error_step_gate T) ! i) ! t"
    using i h unfolding T_def by (simp_all add: modulate_def Let_def mget_def)
  show "mget (tm_correct_token_multiplier T) i t = mget (tm_correct_step_gate T) i k \<and>
      mget (tm_error_token_multiplier T) i t = mget (tm_error_step_gate T) i k"
    if "k + 1 < c ! i" "fst (mget sr i k) \<le> int t" "int t < snd (mget sr i k)"
    using that multiplier_row_probed [OF cont len g(1) _ t] multiplier_row_probed [OF cont len g(2) _ t]
    unfolding row by (simp add: mget_def)
  show "mget (tm_correct_token_multiplier T) i t = 1 \<and> mget (tm_error_token_multiplier T) i t = 1"
    if "\<forall>k. k + 1 < c ! i \<longrightarrow> \<not> (fst (mget sr i k) \<le> int t \<and> int t < snd (mget sr i k))"
    using that multiplier_row_other [OF cont len g(1) t] multiplier_row_other [OF cont len g(2) t]
    unfolding row by (simp add: mget_def)
qed


section \<open>Properties\<close>

text \<open>
  C4: The multipliers the trainer applies. In a successful modulation a token of probed step
  \<open>k\<close> (every step but the last) is scaled by \<open>max epsilon (1 + alpha_R * delta_k)\<close> when the
  response is correct and by \<open>max 0 (1 - alpha_D * delta_k)\<close> when it is wrong, where
  \<open>delta_k\<close> is the increase of the probe probability from the branch before the step to the
  branch after it; every other token (last step, uncovered tail, single-step response) has
  multiplier exactly one.
\<close>

theorem modulation_token_multipliers:
  assumes "wf_mat pp" "wf_mat rm" "wf_mat sr"
    and "compute_r2opl_token_modulation pp rm sr sm bm ar ad ep = Inr T"
    and "i < height rm" "t < width rm"
  shows "(\<forall>k. k + 1 < vcount (rows (tm_semantic_step_mask T) ! i) \<and>
             fst (mget sr i k) \<le> int t \<and> int t < snd (mget sr i k) \<longrightarrow>
           mget (tm_correct_token_multiplier T) i t =
             max (fval ep) (1 + fval ar * (fval (mget pp i (k + 1)) - fval (mget pp i k))) \<and>
           mget (tm_error_token_multiplier T) i t =
             max 0 (1 - fval ad * (fval (mget pp i (k + 1)) - fval (mget pp i k)))) \<and>
         ((\<forall>k. k + 1 < vcount (rows (tm_semantic_step_mask T) ! i) \<longrightarrow>
             \<not> (fst (mget sr i k) \<le> int t \<and> int t < snd (mget sr i k))) \<longrightarrow>
           mget (tm_correct_token_multiplier T) i t = 1 \<and>
           mget (tm_error_token_multiplier T) i t = 1)"
proof -
  obtain c marks stm where ok: "modulation_inputs_ok pp rm sr c" and c: "c = map vcount (rows stm)"
    and T: "T = modulate pp (width rm) sr stm c
       (prefix_of_counts (width pp) (map (\<lambda>n. if n \<ge> 2 then n else 0) c)) (fval ar) (fval ad) (fval ep) marks"
    by (rule modulation_Inr [OF assms(1-4)])
  have n: "vcount (rows (tm_semantic_step_mask T) ! i) = c ! i"
    using ok assms(5) by (simp add: T modulate_simps modulation_inputs_ok_def c)
  show ?thesis unfolding n
  proof (intro conjI allI impI; (elim conjE)?)
    fix k assume k: "k + 1 < c ! i" "fst (mget sr i k) \<le> int t" "int t < snd (mget sr i k)"
    note m = modulate_multipliers(1) [OF ok assms(3,5,6) T k]
    show "mget (tm_correct_token_multiplier T) i t =
        max (fval ep) (1 + fval ar * (fval (mget pp i (k + 1)) - fval (mget pp i k)))"
      using m modulate_gates(1) [OF assms(1) ok assms(5) refl k(1) T refl] by simp
    show "mget (tm_error_token_multiplier T) i t =
        max 0 (1 - fval ad * (fval (mget pp i (k + 1)) - fval (mget pp i k)))"
      using m modulate_gates(2) [OF assms(1) ok assms(5) refl k(1) T refl] by simp
  qed (use modulate_multipliers(2) [OF ok assms(3,5,6) T] in simp_all)
qed

lemma modulation_token_multipliers_witness:
  "let pp = \<lparr>width = 3, rows = [[Fin (1/5), Fin (7/10), Fin (1/2)]]\<rparr>;
       rm = \<lparr>width = 5, rows = [[True, True, True, True, False]]\<rparr>;
       sr = \<lparr>width = 3, rows = [[(0, 1), (1, 3), (3, 4)]]\<rparr> in
   \<exists>T. compute_r2opl_token_modulation pp rm sr None None (Fin 1) (Fin 1) (Fin (9/10)) = Inr T \<and>
     mget (tm_correct_token_multiplier T) 0 0 = 3/2 \<and> mget (tm_error_token_multiplier T) 0 0 = 1/2 \<and>
     mget (tm_correct_token_multiplier T) 0 2 = 9/10 \<and> mget (tm_correct_token_multiplier T) 0 3 = 1"
proof -
  let ?pp = "\<lparr>width = 3, rows = [[Fin (1/5), Fin (7/10), Fin (1/2)]]\<rparr>"
  let ?rm = "\<lparr>width = 5, rows = [[True, True, True, True, False]]\<rparr>"
  let ?sr = "\<lparr>width = 3, rows = [[(0::int, 1::int), (1, 3), (3, 4)]]\<rparr>"
  have "case compute_r2opl_token_modulation ?pp ?rm ?sr None None (Fin 1) (Fin 1) (Fin (9/10)) of
      Inl e \<Rightarrow> False | Inr T \<Rightarrow> vcount (rows (tm_semantic_step_mask T) ! 0) = 3" by code_simp
  then obtain T where T: "compute_r2opl_token_modulation ?pp ?rm ?sr None None (Fin 1) (Fin 1) (Fin (9/10)) = Inr T"
    and n: "vcount (rows (tm_semantic_step_mask T) ! 0) = 3" by (auto split: sum.splits)
  have wf: "wf_mat ?pp" "wf_mat ?rm" "wf_mat ?sr" by (simp_all add: wf_mat_def)
  note use = modulation_token_multipliers [OF wf T, of 0, unfolded n, simplified height_def, simplified]
  show ?thesis unfolding Let_def
  proof (intro exI conjI)
    show "compute_r2opl_token_modulation ?pp ?rm ?sr None None (Fin 1) (Fin 1) (Fin (9/10)) = Inr T" by (rule T)
    show "mget (tm_correct_token_multiplier T) 0 0 = 3/2" "mget (tm_error_token_multiplier T) 0 0 = 1/2"
      using use [of 0, THEN conjunct1, rule_format, of 0] by (simp_all add: mget_def)
    show "mget (tm_correct_token_multiplier T) 0 2 = 9/10"
      using use [of 2, THEN conjunct1, rule_format, of 1] by (simp add: mget_def)
    have "\<not> (fst (mget ?sr 0 k) \<le> (3::int) \<and> 3 < snd (mget ?sr 0 k))" if "Suc k < 3" for k
      using that by (cases k) (auto simp: mget_def)
    then show "mget (tm_correct_token_multiplier T) 0 3 = 1"
      using use [of 3] by auto
  qed
qed


text \<open>What is known of a range that covers token \<open>t\<close>, and of the probabilities around it.\<close>

lemma probed_delta_bounds:
  assumes ok: "modulation_inputs_ok pp rm sr c" and i: "i < height rm" and k: "k + 1 < c ! i"
  shows "\<bar>fval (mget pp i (k + 1)) - fval (mget pp i k)\<bar> \<le> 1"
proof -
  have "0 \<le> fval (mget pp i j) \<and> fval (mget pp i j) \<le> 1" if "j < c ! i" for j
    using ok i k that by (simp add: modulation_inputs_ok_def)
  from this [of k] this [of "k + 1"] k show ?thesis by auto
qed

lemma gate_bounds:
  fixes d :: real
  assumes "\<bar>d\<bar> \<le> 1" "0 \<le> a" "e \<le> 1"
  shows "max e (1 + a * d) \<le> 1 + a" "max 0 (1 - a * d) \<le> 1 + a"
proof -
  have "a * \<bar>d\<bar> \<le> a" using assms mult_left_le [of "\<bar>d\<bar>" a] by simp
  then have "\<bar>a * d\<bar> \<le> a" using assms(2) by (simp add: abs_mult)
  then show "max e (1 + a * d) \<le> 1 + a" "max 0 (1 - a * d) \<le> 1 + a" using assms by auto
qed

lemma multiplier_entries:
  assumes "wf_mat pp" "wf_mat rm" "wf_mat sr"
    and "compute_r2opl_token_modulation pp rm sr sm bm ar ad ep = Inr T"
    and i: "i < height rm" and t: "t < width rm"
  obtains "mget (tm_correct_token_multiplier T) i t = 1" "mget (tm_error_token_multiplier T) i t = 1"
  | d where "\<bar>d\<bar> \<le> 1" "mget (tm_correct_token_multiplier T) i t = max (fval ep) (1 + fval ar * d)"
      "mget (tm_error_token_multiplier T) i t = max 0 (1 - fval ad * d)"
proof -
  obtain c marks stm where ok: "modulation_inputs_ok pp rm sr c"
    and T: "T = modulate pp (width rm) sr stm c
       (prefix_of_counts (width pp) (map (\<lambda>n. if n \<ge> 2 then n else 0) c)) (fval ar) (fval ad) (fval ep) marks"
    by (rule modulation_Inr [OF assms(1-4)])
  show ?thesis
  proof (cases "\<exists>k. k + 1 < c ! i \<and> fst (mget sr i k) \<le> int t \<and> int t < snd (mget sr i k)")
    case True
    then obtain k where k: "k + 1 < c ! i" "fst (mget sr i k) \<le> int t" "int t < snd (mget sr i k)" by blast
    show ?thesis
      using that(2) [OF probed_delta_bounds [OF ok i k(1)]] modulate_multipliers(1) [OF ok assms(3) i t T k]
        modulate_gates [OF assms(1) ok i refl k(1) T refl] by simp
  next
    case False
    then show ?thesis using that(1) modulate_multipliers(2) [OF ok assms(3) i t T] by blast
  qed
qed

text \<open>
  Bounds of the modulation. A successful call implies that the coefficients are legal, and
  then every multiplier is bounded whatever the probes said: a correct response's multiplier
  lies in \<open>[epsilon, 1 + alpha_R]\<close> and a wrong response's in \<open>[0, 1 + alpha_D]\<close>, so modulation
  never flips the sign of an advantage.
\<close>

theorem modulation_multiplier_bounds:
  assumes "wf_mat pp" "wf_mat rm" "wf_mat sr"
    and "compute_r2opl_token_modulation pp rm sr sm bm ar ad ep = Inr T"
    and "i < height rm" "t < width rm"
  shows "0 \<le> fval ep \<and> fval ep \<le> mget (tm_correct_token_multiplier T) i t \<and>
         mget (tm_correct_token_multiplier T) i t \<le> 1 + fval ar \<and>
         0 \<le> mget (tm_error_token_multiplier T) i t \<and>
         mget (tm_error_token_multiplier T) i t \<le> 1 + fval ad"
proof -
  have h: "0 \<le> fval ar" "0 \<le> fval ad" "0 \<le> fval ep" "fval ep \<le> 1"
    by (rule modulation_Inr [OF assms(1-4)], assumption)+
  show ?thesis
  proof (rule multiplier_entries [OF assms])
    fix d :: real
    assume d: "\<bar>d\<bar> \<le> 1" "mget (tm_correct_token_multiplier T) i t = max (fval ep) (1 + fval ar * d)"
      "mget (tm_error_token_multiplier T) i t = max 0 (1 - fval ad * d)"
    show ?thesis using gate_bounds [OF d(1) h(1,4)] gate_bounds [OF d(1) h(2,4)] h by (simp add: d)
  qed (use h in simp)
qed

lemma modulation_multiplier_bounds_witness:
  "let pp = \<lparr>width = 2, rows = [[Fin 0, Fin 1]]\<rparr>;
       rm = \<lparr>width = 2, rows = [[True, True]]\<rparr>;
       sr = \<lparr>width = 2, rows = [[(0, 1), (1, 2)]]\<rparr> in
   \<exists>T. compute_r2opl_token_modulation pp rm sr None None (Fin 2) (Fin 1) (Fin (1/2)) = Inr T \<and>
     1/2 \<le> mget (tm_correct_token_multiplier T) 0 0 \<and> mget (tm_correct_token_multiplier T) 0 0 \<le> 3 \<and>
     0 \<le> mget (tm_error_token_multiplier T) 0 0"
proof -
  let ?pp = "\<lparr>width = 2, rows = [[Fin 0, Fin 1]]\<rparr>"
  let ?rm = "\<lparr>width = 2, rows = [[True, True]]\<rparr>"
  let ?sr = "\<lparr>width = 2, rows = [[(0::int, 1::int), (1, 2)]]\<rparr>"
  have "case compute_r2opl_token_modulation ?pp ?rm ?sr None None (Fin 2) (Fin 1) (Fin (1/2)) of
      Inl e \<Rightarrow> False | Inr T \<Rightarrow> True" by code_simp
  then obtain T where T: "compute_r2opl_token_modulation ?pp ?rm ?sr None None (Fin 2) (Fin 1) (Fin (1/2)) = Inr T"
    by (auto split: sum.splits)
  have wf: "wf_mat ?pp" "wf_mat ?rm" "wf_mat ?sr" by (simp_all add: wf_mat_def)
  from modulation_multiplier_bounds [OF wf T, of 0 0] T show ?thesis by (simp add: height_def)
qed

lemma modulate_masks:
  assumes ok: "modulation_inputs_ok pp rm sr c" and wf: "wf_mat rm" "wf_mat sr"
    and i: "i < height rm" and t: "t < width rm"
    and T: "T = modulate pp (width rm) sr stm c B ar ad ep marks"
    and marks: "emap (\<lambda>i. mark_row (width rm) (rows rm ! i) (c ! i) (rows sr ! i)) [0..<height rm] = Inr marks"
  shows "mget (tm_probed_token_mask T) i t \<longleftrightarrow>
      (\<exists>j. j + 1 < c ! i \<and> fst (mget sr i j) \<le> int t \<and> int t < snd (mget sr i j))" (is "_ \<longleftrightarrow> (\<exists>j. _ \<and> ?cov j)")
    and "mget (tm_last_step_token_mask T) i t \<longleftrightarrow>
      0 < c ! i \<and> fst (mget sr i (c ! i - 1)) \<le> int t \<and> int t < snd (mget sr i (c ! i - 1))"
    and "j < c ! i \<Longrightarrow> fst (mget sr i j) \<le> int t \<Longrightarrow> int t < snd (mget sr i j) \<Longrightarrow> mget rm i t"
    and "j < c ! i \<Longrightarrow> j' < c ! i \<Longrightarrow> fst (mget sr i j) \<le> int t \<Longrightarrow> int t < snd (mget sr i j) \<Longrightarrow>
      fst (mget sr i j') \<le> int t \<Longrightarrow> int t < snd (mget sr i j') \<Longrightarrow> j = j'"
proof -
  let ?n = "c ! i"
  have len: "length marks = height rm" using emap_Inr_length [OF marks] by simp
  obtain P L where PL: "marks ! i = (P, L)" by fastforce
  have m: "mark_steps (rows rm ! i) ?n 0 0 (take ?n (rows sr ! i))
      (replicate (width rm) False, replicate (width rm) False) = Inr (P, L)"
    using emap_Inr_nth [OF marks, of i] i PL by (simp add: mark_row_def)
  have sr: "?n \<le> length (rows sr ! i)" and cont: "contiguous 0 (int (width rm)) (take ?n (rows sr ! i))"
    using ok wf(2) i by (auto simp: modulation_inputs_ok_def wf_mat_def height_def)
  have inside: "mget rm i t" if "(a, b) \<in> set (take ?n (rows sr ! i))" "a \<le> int t" "int t < b" for a b
  proof -
    have "\<forall>(a, b) \<in> set (take ?n (rows sr ! i)). \<forall>t. a \<le> int t \<and> int t < b \<longrightarrow> mget rm i t"
      using ok i unfolding modulation_inputs_ok_def by blast
    with that show ?thesis by blast
  qed
  have masks: "mget (tm_probed_token_mask T) i t = P ! t" "mget (tm_last_step_token_mask T) i t = L ! t"
    using i len PL by (simp_all add: T modulate_simps mget_def)
  have PL': "(P ! t \<longleftrightarrow> (\<exists>j < ?n. j \<noteq> ?n - 1 \<and> ?cov j)) \<and> (L ! t \<longleftrightarrow> (\<exists>j < ?n. j = ?n - 1 \<and> ?cov j))"
    using mark_steps_entries [OF m, of t] t sr by (auto simp: mget_def)
  have "(\<exists>j < ?n. j \<noteq> ?n - 1 \<and> ?cov j) \<longleftrightarrow> (\<exists>j. (j < ?n \<and> j \<noteq> ?n - 1) \<and> ?cov j)" by blast
  also have "\<dots> \<longleftrightarrow> (\<exists>j. j + 1 < ?n \<and> ?cov j)" by (intro iff_exI conj_cong refl) auto
  finally show "mget (tm_probed_token_mask T) i t \<longleftrightarrow> (\<exists>j. j + 1 < ?n \<and> ?cov j)" using PL' masks by blast
  show "mget (tm_last_step_token_mask T) i t \<longleftrightarrow> 0 < ?n \<and> ?cov (?n - 1)" using PL' masks by (cases ?n) auto
  show "mget rm i t" if "j < ?n" "fst (mget sr i j) \<le> int t" "int t < snd (mget sr i j)"
    by (rule inside [of "fst (mget sr i j)" "snd (mget sr i j)"])
      (use that sr nth_mem [of j "take ?n (rows sr ! i)"] in \<open>simp_all add: mget_def\<close>)
  show "j = j'" if "j < ?n" "j' < ?n" "fst (mget sr i j) \<le> int t" "int t < snd (mget sr i j)"
    "fst (mget sr i j') \<le> int t" "int t < snd (mget sr i j')"
    using contiguous_disjoint [OF cont, of j j' "int t"] that sr by (auto simp: mget_def)
qed

text \<open>Tokens of the last step are not modulated.\<close>

lemma last_step_multipliers:
  assumes "wf_mat pp" "wf_mat rm" "wf_mat sr"
    and "compute_r2opl_token_modulation pp rm sr sm bm ar ad ep = Inr T"
    and i: "i < height rm" and t: "t < width rm" and last: "mget (tm_last_step_token_mask T) i t"
  shows "mget (tm_correct_token_multiplier T) i t = 1" "mget (tm_error_token_multiplier T) i t = 1"
proof -
  obtain c marks stm where ok: "modulation_inputs_ok pp rm sr c"
    and T: "T = modulate pp (width rm) sr stm c
       (prefix_of_counts (width pp) (map (\<lambda>n. if n \<ge> 2 then n else 0) c)) (fval ar) (fval ad) (fval ep) marks"
    and marks: "emap (\<lambda>i. mark_row (width rm) (rows rm ! i) (c ! i) (rows sr ! i)) [0..<height rm] = Inr marks"
    by (rule modulation_Inr [OF assms(1-4)])
  note mm = modulate_masks [OF ok assms(2,3) i t T marks]
  have "\<not> (fst (mget sr i k) \<le> int t \<and> int t < snd (mget sr i k))" if "k + 1 < c ! i" for k
    using mm(4) [of k "c ! i - 1"] last mm(2) that by auto
  then show "mget (tm_correct_token_multiplier T) i t = 1" "mget (tm_error_token_multiplier T) i t = 1"
    using modulate_multipliers(2) [OF ok assms(3) i t T] by blast+
qed

text \<open>
  The diagnostic token masks. The probed-token mask marks exactly the tokens of the probed
  steps and the last-step mask exactly those of the final step; both lie inside the response
  mask and no token is in both.
\<close>

theorem modulation_masks_partition:
  assumes "wf_mat pp" "wf_mat rm" "wf_mat sr"
    and "compute_r2opl_token_modulation pp rm sr sm bm ar ad ep = Inr T"
    and "i < height rm" "t < width rm" "n = vcount (rows (tm_semantic_step_mask T) ! i)"
  shows "(mget (tm_probed_token_mask T) i t \<longleftrightarrow>
            (\<exists>k. k + 1 < n \<and> fst (mget sr i k) \<le> int t \<and> int t < snd (mget sr i k))) \<and>
         (mget (tm_last_step_token_mask T) i t \<longleftrightarrow>
            0 < n \<and> fst (mget sr i (n - 1)) \<le> int t \<and> int t < snd (mget sr i (n - 1))) \<and>
         (mget (tm_probed_token_mask T) i t \<or> mget (tm_last_step_token_mask T) i t \<longrightarrow> mget rm i t) \<and>
         \<not> (mget (tm_probed_token_mask T) i t \<and> mget (tm_last_step_token_mask T) i t)"
proof -
  obtain c marks stm where ok: "modulation_inputs_ok pp rm sr c" and c: "c = map vcount (rows stm)"
    and T: "T = modulate pp (width rm) sr stm c
       (prefix_of_counts (width pp) (map (\<lambda>n. if n \<ge> 2 then n else 0) c)) (fval ar) (fval ad) (fval ep) marks"
    and marks: "emap (\<lambda>i. mark_row (width rm) (rows rm ! i) (c ! i) (rows sr ! i)) [0..<height rm] = Inr marks"
    by (rule modulation_Inr [OF assms(1-4)])
  have n: "n = c ! i"
    using ok assms(5) unfolding assms(7) by (simp add: T modulate_simps modulation_inputs_ok_def c)
  note mm = modulate_masks [OF ok assms(2,3,5,6) T marks, folded n]
  have "mget rm i t" if "mget (tm_probed_token_mask T) i t \<or> mget (tm_last_step_token_mask T) i t"
    using that mm(1,2) mm(3) by (metis Suc_eq_plus1 Suc_lessD diff_less less_one)
  moreover have "\<not> (mget (tm_probed_token_mask T) i t \<and> mget (tm_last_step_token_mask T) i t)"
  proof
    assume "mget (tm_probed_token_mask T) i t \<and> mget (tm_last_step_token_mask T) i t"
    then obtain k where k: "k + 1 < n" "fst (mget sr i k) \<le> int t" "int t < snd (mget sr i k)"
      and l: "fst (mget sr i (n - 1)) \<le> int t" "int t < snd (mget sr i (n - 1))" using mm(1,2) by blast
    have "k = n - 1" by (rule mm(4)) (use k l in auto)
    then show False using k(1) by simp
  qed
  ultimately show ?thesis using mm(1,2) by blast
qed

lemma modulation_masks_partition_witness:
  "let pp = \<lparr>width = 3, rows = [[Fin 0, Fin (1/2), Fin 1]]\<rparr>;
       rm = \<lparr>width = 4, rows = [[True, True, True, True]]\<rparr>;
       sr = \<lparr>width = 3, rows = [[(0, 1), (1, 2), (2, 3)]]\<rparr> in
   \<exists>T. compute_r2opl_token_modulation pp rm sr None None (Fin 2) (Fin 1) (Fin (1/2)) = Inr T \<and>
     mget (tm_probed_token_mask T) 0 1 \<and> mget (tm_last_step_token_mask T) 0 2 \<and>
     \<not> mget (tm_last_step_token_mask T) 0 3"
proof -
  let ?pp = "\<lparr>width = 3, rows = [[Fin 0, Fin (1/2), Fin 1]]\<rparr>"
  let ?rm = "\<lparr>width = 4, rows = [[True, True, True, True]]\<rparr>"
  let ?sr = "\<lparr>width = 3, rows = [[(0::int, 1::int), (1, 2), (2, 3)]]\<rparr>"
  have "case compute_r2opl_token_modulation ?pp ?rm ?sr None None (Fin 2) (Fin 1) (Fin (1/2)) of
      Inl e \<Rightarrow> False | Inr T \<Rightarrow> 3 = vcount (rows (tm_semantic_step_mask T) ! 0)" by code_simp
  then obtain T where T: "compute_r2opl_token_modulation ?pp ?rm ?sr None None (Fin 2) (Fin 1) (Fin (1/2)) = Inr T"
    and n: "3 = vcount (rows (tm_semantic_step_mask T) ! 0)" by (auto split: sum.splits)
  have wf: "wf_mat ?pp" "wf_mat ?rm" "wf_mat ?sr" by (simp_all add: wf_mat_def)
  note use = modulation_masks_partition [OF wf T _ _ n]
  have "mget (tm_probed_token_mask T) 0 1"
    using use [of 1] by (auto simp: height_def mget_def intro!: exI [of _ 1])
  moreover have "mget (tm_last_step_token_mask T) 0 2" "\<not> mget (tm_last_step_token_mask T) 0 3"
    using use [of 2] use [of 3] by (simp_all add: height_def mget_def)
  ultimately show ?thesis using T by simp
qed

end
