(* ===== verification/Advantage.thy ===== *)
theory Advantage
  imports Modulation
begin

text \<open>
  Difficulty, token advantage and loss of the R2OPL objective (the second half of
  \<open>utils/r2opl.py\<close>): \<open>compute_r2opl_batch\<close>, \<open>r2opl_token_advantage\<close>,
  \<open>r2opl_reinforce_loss\<close>. The group statistics loop occurs verbatim in the
  three batch kernels of the repository and is modelled once, as \<open>group_difficulty\<close>.
\<close>

section \<open>Rewards and groups\<close>

text \<open>Verifier rewards come as one value per sequence or one per token.\<close>

datatype reward_tensor = Rew1 "flt list" | Rew2 "flt mat"

fun sequence_rewards :: "reward_tensor \<Rightarrow> nat \<Rightarrow> flt list res" where
  "sequence_rewards (Rew2 m) batch_size =
     raise_if (height m \<noteq> batch_size)
       (ValueError ''verifier rewards must share the response batch size'')
       (Inr (map fsum (rows m)))"
| "sequence_rewards (Rew1 v) batch_size =
     raise_if (length v \<noteq> batch_size)
       (ValueError ''verifier rewards must share the response batch size'')
       (Inr v)"

definition ordered_groups :: "'g list \<Rightarrow> 'g list" where
  "ordered_groups ids = ordered_unique ids"

definition bool_real :: "bool \<Rightarrow> real" where
  "bool_real b = (if b then 1 else 0)"

definition group_members :: "'g list \<Rightarrow> bool list \<Rightarrow> 'g \<Rightarrow> nat list" where
  "group_members ids genuine gid = indices_where (\<lambda>i. ids ! i = gid \<and> genuine ! i) (length ids)"

definition success_rate :: "bool list \<Rightarrow> nat list \<Rightarrow> real" where
  "success_rate correctness indices = rmean (map (\<lambda>i. bool_real (correctness ! i)) indices)"

text \<open>One turn of the loop over groups; \<open>difficulty[index_tensor] = 1 - success\<close>.\<close>

definition group_step ::
  "'g list \<Rightarrow> bool list \<Rightarrow> bool list \<Rightarrow> 'g \<Rightarrow> real list \<times> real list \<Rightarrow> real list \<times> real list" where
  "group_step ids genuine correctness gid acc =
     (case acc of (difficulty, group_success) \<Rightarrow>
      let indices = group_members ids genuine gid in
      if indices = [] then (difficulty, group_success)
      else let success = success_rate correctness indices in
        (fold (\<lambda>i d. d[i := 1 - success]) indices difficulty, group_success @ [success]))"

definition group_difficulty :: "'g list \<Rightarrow> bool list \<Rightarrow> bool list \<Rightarrow> real list \<times> real list" where
  "group_difficulty ids genuine correctness =
     fold (group_step ids genuine correctness) (ordered_groups ids) (replicate (length ids) 0, [])"

text \<open>The mask \<open>m & rows.unsqueeze(-1)\<close>.\<close>

definition mask_rows :: "bool mat \<Rightarrow> bool list \<Rightarrow> bool mat" where
  "mask_rows m sel = mmap2 (\<and>) m (col_bcast (width m) sel)"

definition token_counts :: "bool mat \<Rightarrow> nat list" where
  "token_counts m = map vcount (rows m)"

text \<open>
  The guards on a batch of rewards: selected rewards must be finite and binary. \<open>feq\<close> is
  false on NaN, as \<open>Tensor.eq\<close> is.
\<close>

definition is_binary :: "flt \<Rightarrow> bool" where
  "is_binary r = (feq r (Fin 0) \<or> feq r (Fin 1))"

definition genuine_mask :: "nat \<Rightarrow> bool list option \<Rightarrow> bool list" where
  "genuine_mask batch_size g = (case g of None \<Rightarrow> replicate batch_size True | Some v \<Rightarrow> v)"

definition bad_vector :: "nat \<Rightarrow> bool list option \<Rightarrow> bool" where
  "bad_vector batch_size g = (case g of None \<Rightarrow> False | Some v \<Rightarrow> length v \<noteq> batch_size)"

type_synonym metrics = "(string \<times> flt) list"

definition count_flt :: "nat \<Rightarrow> flt" where
  "count_flt n = Fin (real n)"

record r2opl_batch_result =
  br_correct_mask :: "bool mat"
  br_error_mask :: "bool mat"
  br_difficulty :: "real list"
  br_correctness :: "bool list"
  br_group_success :: "real list"
  br_genuine :: "bool list"
  br_metrics :: metrics

definition genuine_reward_mean :: "bool list \<Rightarrow> bool list \<Rightarrow> real" where
  "genuine_reward_mean genuine correctness = rmean (map bool_real (vselect genuine correctness))"

text \<open>The result, once the rewards have been accepted: branch masks, difficulty, metrics.\<close>

definition error_rows :: "bool list \<Rightarrow> bool list \<Rightarrow> bool list" where
  "error_rows genuine correctness = map2 (\<lambda>g c. g \<and> \<not> c) genuine correctness"

definition r2opl_batch_metrics ::
  "bool list \<Rightarrow> bool list \<Rightarrow> real list \<Rightarrow> bool mat \<Rightarrow> bool mat \<Rightarrow> metrics" where
  "r2opl_batch_metrics genuine correctness group_success correct_mask error_mask =
     (let mean_score = genuine_reward_mean genuine correctness in
      [(''r2opl/train/mean_score'', Fin mean_score),
       (''r2opl/train/group_success_rate'', Fin (rmean group_success)),
       (''r2opl/train/prompt_difficulty_mean'', Fin (rmean (map (\<lambda>s. 1 - s) group_success))),
       (''r2opl/train/correct_trajectory_count'', count_flt (vcount correctness)),
       (''r2opl/train/error_trajectory_count'', count_flt (vcount (error_rows genuine correctness))),
       (''r2opl/train/correct_trajectory_ratio'', Fin mean_score),
       (''r2opl/train/error_trajectory_ratio'',
          Fin (rmean (map (\<lambda>c. bool_real (\<not> c)) (vselect genuine correctness)))),
       (''r2opl/train/correct_token_count'', count_flt (mcount correct_mask)),
       (''r2opl/train/error_token_count'', count_flt (mcount error_mask)),
       (''r2opl/train/genuine_trajectory_count'', count_flt (vcount genuine))])"

definition r2opl_batch_of ::
  "bool mat \<Rightarrow> 'g list \<Rightarrow> bool list \<Rightarrow> bool list \<Rightarrow> r2opl_batch_result" where
  "r2opl_batch_of response_mask ids genuine correctness =
     (let (difficulty, group_success) = group_difficulty ids genuine correctness;
          correct_mask = mask_rows response_mask correctness;
          error_mask = mask_rows response_mask (error_rows genuine correctness)
      in \<lparr>br_correct_mask = correct_mask, br_error_mask = error_mask,
          br_difficulty = difficulty, br_correctness = correctness,
          br_group_success = group_success, br_genuine = genuine,
          br_metrics = r2opl_batch_metrics genuine correctness group_success correct_mask error_mask\<rparr>)"

definition compute_r2opl_batch ::
  "bool mat \<Rightarrow> reward_tensor \<Rightarrow> 'g list \<Rightarrow> bool list option \<Rightarrow> r2opl_batch_result res" where
  "compute_r2opl_batch response_mask verifier_rewards prompt_group_ids genuine_opt =
     (let batch_size = height response_mask in
      raise_if (length prompt_group_ids \<noteq> batch_size)
        (ValueError ''prompt_group_ids must have one value per trajectory'')
      (raise_if (bad_vector batch_size genuine_opt)
        (ValueError ''genuine_trajectory_mask must have one value per trajectory'')
      (let genuine = genuine_mask batch_size genuine_opt;
           counts = token_counts (mask_rows response_mask genuine) in
       raise_if (\<exists>i \<in> set [0..<batch_size]. genuine ! i \<and> counts ! i = 0)
        (ValueError ''genuine trajectory with no response tokens'')
       (ebind (sequence_rewards verifier_rewards batch_size) (\<lambda>rewards.
        raise_if (\<exists>r \<in> set (vselect genuine rewards). \<not> is_finite r)
          (ValueError ''verifier rewards must be finite'')
        (raise_if (\<exists>r \<in> set (vselect genuine rewards). \<not> is_binary r)
          (ValueError ''requires binary verifier rewards'')
        (let correctness = map2 (\<lambda>r g. feq r (Fin 1) \<and> g) rewards genuine in
         raise_if (snd (group_difficulty prompt_group_ids genuine correctness) = [])
           (ValueError ''requires at least one genuine prompt group'')
         (Inr (r2opl_batch_of response_mask prompt_group_ids genuine correctness)))))))))"

section \<open>Token advantage\<close>

text \<open>Difficulty comes per trajectory or as a two-dimensional tensor.\<close>

datatype difficulty_tensor = Diff1 "flt list" | Diff2 "flt mat"

definition difficulty_tokens :: "difficulty_tensor \<Rightarrow> nat \<times> nat \<Rightarrow> flt mat res" where
  "difficulty_tokens d sh =
     (case d of
        Diff1 v \<Rightarrow> if length v = fst sh then Inr (col_bcast (snd sh) v)
          else Inl (ValueError ''difficulty must have shape [batch], [batch,1] or [batch,length]'')
      | Diff2 m \<Rightarrow> if shape m = sh then Inr m
          else if shape m = (fst sh, 1) then Inr (col_bcast (snd sh) (map hd (rows m)))
          else Inl (ValueError ''difficulty must have shape [batch], [batch,1] or [batch,length]''))"

definition multiplier_or_one :: "flt mat option \<Rightarrow> nat \<times> nat \<Rightarrow> flt mat res" where
  "multiplier_or_one m sh =
     (case m of None \<Rightarrow> Inr (mtab (fst sh) (snd sh) (\<lambda>i j. Fin 1))
      | Some v \<Rightarrow> raise_if (shape v \<noteq> sh) (ValueError ''multiplier shape'') (Inr v))"

definition r2opl_token_advantage ::
  "flt mat \<Rightarrow> flt mat \<Rightarrow> bool mat \<Rightarrow> bool mat \<Rightarrow> difficulty_tensor \<Rightarrow> bool mat
    \<Rightarrow> flt mat option \<Rightarrow> flt mat option \<Rightarrow> flt \<Rightarrow> flt \<Rightarrow> flt mat res" where
  "r2opl_token_advantage student teacher correct_mask error_mask difficulty response_mask
     correct_multiplier error_multiplier lambda miu =
     ebind (validate_hyperparameters (Some lambda) (Some miu) None None None) (\<lambda>_.
     raise_if (shape teacher \<noteq> shape student \<or> shape correct_mask \<noteq> shape student \<or>
               shape error_mask \<noteq> shape student \<or> shape response_mask \<noteq> shape student)
       (ValueError ''token tensors must share one shape'')
     (raise_if (\<exists>b \<in> set (concat (rows (mmap2 (\<and>) correct_mask error_mask))). b)
       (ValueError ''correct and error masks must be disjoint'')
     (raise_if (\<exists>b \<in> set (concat (rows (mmap2 (\<lambda>x m. x \<and> \<not> m)
                  (mmap2 (\<or>) correct_mask error_mask) response_mask))). b)
       (ValueError ''correct/error masks must be subsets of response_mask'')
     (raise_if (\<exists>v \<in> set (mselect response_mask student). \<not> is_finite v)
       (ValueError ''Student log-probabilities must be finite on response tokens'')
     (raise_if (\<exists>v \<in> set (mselect response_mask teacher). \<not> is_finite v)
       (ValueError ''Teacher log-probabilities must be finite on response tokens'')
     (ebind (difficulty_tokens difficulty (shape student)) (\<lambda>dt.
      ebind (multiplier_or_one correct_multiplier (shape student)) (\<lambda>cm.
      ebind (multiplier_or_one error_multiplier (shape student)) (\<lambda>em.
      raise_if (\<exists>v \<in> set (mselect correct_mask cm). \<not> is_finite v)
        (ValueError ''correct multipliers must be finite on correct tokens'')
      (raise_if (\<exists>v \<in> set (mselect error_mask em). \<not> is_finite v)
        (ValueError ''error multipliers must be finite on error tokens'')
      (let teacher_minus_student = mmap2 fsub teacher student;
           correct_advantage = mmap2 fmul (mmap (\<lambda>d. fmul d miu) dt) cm;
           error_advantage = mmap2 fmul (mmap2 fmul (mmap (\<lambda>d. fmul d lambda) dt) teacher_minus_student) em;
           advantage = mmap2 (\<lambda>m v. if m then v else Fin 0) correct_mask correct_advantage;
           advantage = mmap2 (\<lambda>(m, e) v. if m then e else v) (mmap2 Pair error_mask error_advantage) advantage
       in Inr (mmap2 fmul advantage (mmap of_mask response_mask)))))))))))))"

section \<open>Loss\<close>

definition token_loss_mat :: "flt mat \<Rightarrow> flt mat \<Rightarrow> bool mat \<Rightarrow> flt mat" where
  "token_loss_mat student advantage response_mask =
     mmap2 fmul (mmap fneg (mmap2 fmul advantage student)) (mmap of_mask response_mask)"

definition r2opl_reinforce_loss :: "flt mat \<Rightarrow> flt mat \<Rightarrow> bool mat \<Rightarrow> flt res" where
  "r2opl_reinforce_loss student advantage response_mask =
     raise_if (shape advantage \<noteq> shape student \<or> shape response_mask \<noteq> shape student)
       (ValueError ''loss tensors must share shape [batch, response_length]'')
     (let token_loss = token_loss_mat student advantage response_mask;
          per_sequence = map fsum (rows token_loss);
          active_sequences = map (\<lambda>r. vcount r > 0) (rows response_mask)
      in if \<not> (\<exists>a \<in> set active_sequences. a) then Inr (fmul (fsum (concat (rows token_loss))) (Fin 0))
         else Inr (fmean (vselect active_sequences per_sequence)))"


section \<open>Lemmas on groups and masks\<close>

lemma length_fold_update [simp]: "length (fold (\<lambda>i d. d[i := v]) is d) = length d"
  by (induction "is" arbitrary: d) auto

lemma nth_fold_update:
  "k < length d \<Longrightarrow> fold (\<lambda>i d. d[i := v]) is d ! k = (if k \<in> set is then v else d ! k)"
  by (induction "is" arbitrary: d) (auto simp: nth_list_update)

lemma set_group_members:
  "set (group_members ids genuine gid) = {i. i < length ids \<and> ids ! i = gid \<and> genuine ! i}"
  by (simp add: group_members_def)

lemma distinct_group_members [simp]: "distinct (group_members ids genuine gid)"
  by (simp add: group_members_def)

lemma group_step_simps:
  "group_members ids genuine g = [] \<Longrightarrow> group_step ids genuine cor g (d, s) = (d, s)"
  "group_members ids genuine g \<noteq> [] \<Longrightarrow> group_step ids genuine cor g (d, s) =
     (fold (\<lambda>i d. d[i := 1 - success_rate cor (group_members ids genuine g)]) (group_members ids genuine g) d,
      s @ [success_rate cor (group_members ids genuine g)])"
  by (simp_all add: group_step_def Let_def)

lemma group_fold:
  "fold (group_step ids genuine cor) gs (d, s) = (d', s') \<Longrightarrow> i < length d \<Longrightarrow> length d = length ids \<Longrightarrow>
     length d' = length ids \<and>
     d' ! i = (if ids ! i \<in> set gs \<and> genuine ! i
               then 1 - success_rate cor (group_members ids genuine (ids ! i)) else d ! i) \<and>
     s' = s @ map (\<lambda>g. success_rate cor (group_members ids genuine g))
                (filter (\<lambda>g. group_members ids genuine g \<noteq> []) gs)"
proof (induction gs arbitrary: d s)
  case (Cons g gs)
  have mem: "i \<in> set (group_members ids genuine (ids ! i)) \<longleftrightarrow> genuine ! i"
    using Cons.prems by (simp add: set_group_members)
  show ?case
  proof (cases "group_members ids genuine g = []")
    case True
    then have "fold (group_step ids genuine cor) gs (d, s) = (d', s')"
      using Cons.prems(1) by (simp add: group_step_simps)
    moreover have "\<not> (g = ids ! i \<and> genuine ! i)" using True mem by auto
    ultimately show ?thesis using Cons.IH [of d s] Cons.prems True by auto
  next
    case False
    let ?v = "success_rate cor (group_members ids genuine g)"
    let ?d = "fold (\<lambda>i d. d[i := 1 - ?v]) (group_members ids genuine g) d"
    have "fold (group_step ids genuine cor) gs (?d, s @ [?v]) = (d', s')"
      using Cons.prems(1) False by (simp add: group_step_simps)
    from Cons.IH [OF this] Cons.prems False
    show ?thesis by (auto simp: nth_fold_update set_group_members)
  qed
qed simp

lemma length_group_difficulty [simp]: "length (fst (group_difficulty ids genuine cor)) = length ids"
proof -
  have "length (fst (fold (group_step ids genuine cor) gs a)) = length (fst a)" for gs a
    by (induction gs arbitrary: a) (auto simp: group_step_def Let_def split: prod.split)
  then show ?thesis by (simp add: group_difficulty_def)
qed

lemma group_difficulty_nth:
  "i < length ids \<Longrightarrow> fst (group_difficulty ids genuine cor) ! i =
     (if genuine ! i then 1 - success_rate cor (group_members ids genuine (ids ! i)) else 0)"
proof -
  assume i: "i < length ids"
  obtain d' s' where "fold (group_step ids genuine cor) (ordered_groups ids) (replicate (length ids) 0, []) = (d', s')"
    by fastforce
  from group_fold [OF this] i show ?thesis
    using \<open>_ = (d', s')\<close> by (auto simp: group_difficulty_def ordered_groups_def)
qed

lemma sum_bool_real: "distinct is \<Longrightarrow> sum_list (map (\<lambda>i. bool_real (b ! i)) is) = real (card {i \<in> set is. b ! i})"
proof (induction "is")
  case (Cons a xs)
  have "{i \<in> set (a # xs). b ! i} = (if b ! a then insert a {i \<in> set xs. b ! i} else {i \<in> set xs. b ! i})"
    by auto
  then show ?case using Cons by (auto simp: bool_real_def)
qed simp

lemma success_rate_card:
  "distinct is \<Longrightarrow> success_rate cor is = real (card {i \<in> set is. cor ! i}) / real (card (set is))"
  by (simp add: success_rate_def rmean_def sum_bool_real distinct_card)

lemma success_rate_bounds: "0 \<le> success_rate cor is" "success_rate cor is \<le> 1"
proof -
  let ?f = "\<lambda>i. bool_real (cor ! i)"
  have "0 \<le> sum_list (map ?f is)" by (rule sum_list_nonneg) (auto simp: bool_real_def)
  moreover have "sum_list (map ?f is) \<le> real (length is)"
    by (induction "is") (auto simp: bool_real_def)
  ultimately show "0 \<le> success_rate cor is" "success_rate cor is \<le> 1"
    by (auto simp: success_rate_def rmean_def divide_le_eq)
qed

lemma sequence_rewards_Inr: "sequence_rewards v n = Inr r \<Longrightarrow> length r = n"
  by (cases v) (auto simp: res_simps height_def)

lemma shape_mask_rows [mat_simps]: "length sel = height m \<Longrightarrow> shape (mask_rows m sel) = shape m"
  by (simp add: mask_rows_def shape_def mat_simps)

lemma wf_mask_rows [mat_simps]: "wf_mat m \<Longrightarrow> wf_mat (mask_rows m sel)"
  by (simp add: mask_rows_def mat_simps)

lemma mget_mask_rows [mat_simps]:
  "wf_mat m \<Longrightarrow> i < height m \<Longrightarrow> length sel = height m \<Longrightarrow> j < width m
   \<Longrightarrow> mget (mask_rows m sel) i j = (mget m i j \<and> sel ! i)"
  by (simp add: mask_rows_def mat_simps)

lemma height_mask_rows [mat_simps]: "length sel = height m \<Longrightarrow> height (mask_rows m sel) = height m"
  by (simp add: mask_rows_def mat_simps)

lemma width_mask_rows [mat_simps]: "width (mask_rows m sel) = width m"
  by (simp add: mask_rows_def mat_simps)

lemma length_genuine_mask: "\<not> bad_vector n g \<Longrightarrow> length (genuine_mask n g) = n"
  by (auto simp: bad_vector_def genuine_mask_def split: option.splits)

lemma r2opl_batch_of_simps:
  "br_genuine (r2opl_batch_of rm ids gen cor) = gen"
  "br_correctness (r2opl_batch_of rm ids gen cor) = cor"
  "br_difficulty (r2opl_batch_of rm ids gen cor) = fst (group_difficulty ids gen cor)"
  "br_correct_mask (r2opl_batch_of rm ids gen cor) = mask_rows rm cor"
  "br_error_mask (r2opl_batch_of rm ids gen cor) = mask_rows rm (error_rows gen cor)"
  "dict_get ''r2opl/train/correct_token_count'' (br_metrics (r2opl_batch_of rm ids gen cor)) =
     Some (count_flt (mcount (mask_rows rm cor)))"
  "dict_get ''r2opl/train/error_token_count'' (br_metrics (r2opl_batch_of rm ids gen cor)) =
     Some (count_flt (mcount (mask_rows rm (error_rows gen cor))))"
  by (simp_all add: r2opl_batch_of_def r2opl_batch_metrics_def Let_def dict_get_def split: prod.split)

lemma compute_r2opl_batch_Inr:
  assumes "compute_r2opl_batch rm v ids g = Inr R"
  obtains rewards gen cor where
    "length ids = height rm" "length gen = height rm" "gen = genuine_mask (height rm) g"
    "sequence_rewards v (height rm) = Inr rewards" "length rewards = height rm"
    "\<forall>i < height rm. gen ! i \<longrightarrow> rewards ! i = Fin 0 \<or> rewards ! i = Fin 1"
    "cor = map2 (\<lambda>r g. feq r (Fin 1) \<and> g) rewards gen"
    "R = r2opl_batch_of rm ids gen cor"
proof -
  define gen where "gen = genuine_mask (height rm) g"
  from assms obtain rewards where
    h: "length ids = height rm" "\<not> bad_vector (height rm) g"
    and rw: "sequence_rewards v (height rm) = Inr rewards"
    and fin: "\<forall>r \<in> set (vselect gen rewards). is_finite r"
    and bin: "\<forall>r \<in> set (vselect gen rewards). is_binary r"
    and R: "R = r2opl_batch_of rm ids gen (map2 (\<lambda>r g. feq r (Fin 1) \<and> g) rewards gen)"
    unfolding compute_r2opl_batch_def Let_def raise_if_Inr ebind_Inr gen_def [symmetric] by auto
  have len: "length rewards = height rm" "length gen = height rm"
    using sequence_rewards_Inr [OF rw] length_genuine_mask [OF h(2)] gen_def by auto
  have "rewards ! i = Fin 0 \<or> rewards ! i = Fin 1" if "i < height rm" "gen ! i" for i
  proof -
    have "rewards ! i \<in> set (vselect gen rewards)"
      using that len by (subst set_vselect) auto
    then have "is_finite (rewards ! i)" "is_binary (rewards ! i)" using fin bin by auto
    then show ?thesis by (auto simp: is_finite_iff is_binary_def)
  qed
  then show ?thesis by (intro that [OF h(1) len(2) gen_def rw len(1) _ refl R]) blast
qed


lemma vcount_and_replicate: "vcount (map2 (\<and>) r (replicate (length r) b)) = (if b then vcount r else 0)"
  by (induction r) auto

lemma mcount_mask_rows:
  assumes "wf_mat m" "length sel = height m"
  shows "mcount (mask_rows m sel) = (\<Sum>i < height m. if sel ! i then vcount (rows m ! i) else 0)"
proof -
  have "map vcount (rows (mask_rows m sel)) =
      map (\<lambda>i. if sel ! i then vcount (rows m ! i) else 0) [0..<height m]" (is "?l = ?r")
  proof (rule nth_equalityI)
    fix i assume "i < length ?l"
    then have i: "i < height m" using assms(2) by (simp add: mask_rows_def mmap2_def col_bcast_def height_def)
    then have "rows (mask_rows m sel) ! i = map2 (\<and>) (rows m ! i) (replicate (width m) (sel ! i))"
      using assms(2) by (simp add: mask_rows_def mmap2_def col_bcast_def height_def)
    moreover have "length (rows m ! i) = width m" using assms(1) i by (simp add: wf_mat_def height_def)
    ultimately show "?l ! i = ?r ! i"
      using i assms(2) vcount_and_replicate [of "rows m ! i" "sel ! i"]
      by (simp add: mask_rows_def mmap2_def col_bcast_def height_def)
  qed (use assms(2) in \<open>simp add: mask_rows_def mmap2_def col_bcast_def height_def\<close>)
  then show ?thesis by (simp add: mcount_def interv_sum_list_conv_sum_set_nat atLeast0LessThan)
qed

section \<open>Properties of the batch statistics\<close>

text \<open>
  Outcomes and difficulty. In a successful batch a trajectory counts as correct exactly
  when it is genuine and its verifier reward is one, and its difficulty is one minus the
  fraction of correct trajectories among the genuine trajectories of its prompt group, a value
  in [0, 1]; the difficulty of a padding trajectory is zero.
\<close>

theorem batch_difficulty:
  assumes "compute_r2opl_batch rm v ids g = Inr R" "i < height rm"
  shows "(\<exists>rewards. sequence_rewards v (height rm) = Inr rewards \<and>
            (br_correctness R ! i \<longleftrightarrow> br_genuine R ! i \<and> rewards ! i = Fin 1)) \<and>
         br_difficulty R ! i =
           (if br_genuine R ! i
            then 1 - real (card {j. j < height rm \<and> ids ! j = ids ! i \<and> br_genuine R ! j \<and> br_correctness R ! j})
                   / real (card {j. j < height rm \<and> ids ! j = ids ! i \<and> br_genuine R ! j})
            else 0) \<and>
         0 \<le> br_difficulty R ! i \<and> br_difficulty R ! i \<le> 1"
proof -
  obtain rewards gen cor where h: "length ids = height rm" "length gen = height rm" "length rewards = height rm"
    and rw: "sequence_rewards v (height rm) = Inr rewards"
    and bin: "\<forall>i < height rm. gen ! i \<longrightarrow> rewards ! i = Fin 0 \<or> rewards ! i = Fin 1"
    and cor: "cor = map2 (\<lambda>r g. feq r (Fin 1) \<and> g) rewards gen" and R: "R = r2opl_batch_of rm ids gen cor"
    by (rule compute_r2opl_batch_Inr [OF assms(1)])
  have c: "cor ! i \<longleftrightarrow> gen ! i \<and> rewards ! i = Fin 1" using bin assms(2) h by (auto simp: cor)
  have mem: "set (group_members ids gen x) = {j. j < height rm \<and> ids ! j = x \<and> gen ! j}"
    "{j \<in> set (group_members ids gen x). cor ! j} = {j. j < height rm \<and> ids ! j = x \<and> gen ! j \<and> cor ! j}" for x
    using h by (auto simp: set_group_members)
  show ?thesis
    unfolding R r2opl_batch_of_simps
    using rw c assms(2) h success_rate_bounds [of cor "group_members ids gen (ids ! i)"]
    by (simp add: group_difficulty_nth success_rate_card mem)
qed

lemma batch_difficulty_witness:
  "\<exists>R. compute_r2opl_batch \<lparr>width = 1, rows = [[True], [True], [True]]\<rparr> (Rew1 [Fin 1, Fin 0, Fin 0])
         [''a'', ''a'', ''b''] None = Inr R \<and> br_difficulty R ! 0 \<le> 1 \<and> 0 \<le> br_difficulty R ! 0 \<and>
       br_correctness R ! 0"
proof -
  let ?rm = "\<lparr>width = 1, rows = [[True], [True], [True]]\<rparr>"
  have "case compute_r2opl_batch ?rm (Rew1 [Fin 1, Fin 0, Fin 0]) [''a'', ''a'', ''b''] None of
      Inl e \<Rightarrow> False | Inr R \<Rightarrow> br_genuine R ! 0" by code_simp
  then obtain R where R: "compute_r2opl_batch ?rm (Rew1 [Fin 1, Fin 0, Fin 0]) [''a'', ''a'', ''b''] None = Inr R"
    and g: "br_genuine R ! 0" by (auto split: sum.splits)
  from batch_difficulty [OF R, of 0] R g show ?thesis by (auto simp: height_def)
qed

text \<open>
  Branch masks. Every response token of a genuine trajectory lies in exactly one of the two
  branch masks, the one of its trajectory's outcome; a token of a padding trajectory or outside
  the response lies in neither; and the two token counts reported add up to the number of
  response tokens of genuine trajectories.
\<close>

theorem batch_masks_partition:
  assumes "wf_mat rm" "compute_r2opl_batch rm v ids g = Inr R"
  shows "(\<forall>i < height rm. \<forall>j < width rm.
           (mget (br_correct_mask R) i j \<longleftrightarrow> mget rm i j \<and> br_genuine R ! i \<and> br_correctness R ! i) \<and>
           (mget (br_error_mask R) i j \<longleftrightarrow> mget rm i j \<and> br_genuine R ! i \<and> \<not> br_correctness R ! i)) \<and>
         (\<exists>c e. dict_get ''r2opl/train/correct_token_count'' (br_metrics R) = Some (count_flt c) \<and>
                dict_get ''r2opl/train/error_token_count'' (br_metrics R) = Some (count_flt e) \<and>
                c + e = (\<Sum>i < height rm. if br_genuine R ! i then vcount (rows rm ! i) else 0))"
proof -
  obtain rewards gen cor where h: "length gen = height rm" "length rewards = height rm"
    and cor: "cor = map2 (\<lambda>r g. feq r (Fin 1) \<and> g) rewards gen" and R: "R = r2opl_batch_of rm ids gen cor"
    by (rule compute_r2opl_batch_Inr [OF assms(2)])
  have len: "length cor = height rm" "length (error_rows gen cor) = height rm"
    using h by (simp_all add: cor error_rows_def)
  have c: "cor ! i \<Longrightarrow> gen ! i" if "i < height rm" for i using that h by (simp add: cor)
  have e: "error_rows gen cor ! i \<longleftrightarrow> gen ! i \<and> \<not> cor ! i" if "i < height rm" for i
    using that h len by (simp add: error_rows_def)
  show ?thesis
    unfolding R r2opl_batch_of_simps
  proof (intro conjI exI)
    show "mcount (mask_rows rm cor) + mcount (mask_rows rm (error_rows gen cor)) =
        (\<Sum>i < height rm. if gen ! i then vcount (rows rm ! i) else 0)"
      using c e len unfolding mcount_mask_rows [OF assms(1) len(1)] mcount_mask_rows [OF assms(1) len(2)]
        sum.distrib [symmetric] by (intro sum.cong) auto
  qed (use len c e assms(1) in \<open>auto simp: mat_simps\<close>)
qed

lemma batch_masks_partition_witness:
  "\<exists>R. compute_r2opl_batch \<lparr>width = 2, rows = [[True, False], [True, True]]\<rparr> (Rew1 [Fin 1, Fin 0])
         [''a'', ''a''] (Some [True, True]) = Inr R \<and> \<not> mget (br_correct_mask R) 0 1 \<and>
       (mget (br_error_mask R) 1 1 \<longleftrightarrow> br_genuine R ! 1 \<and> \<not> br_correctness R ! 1)"
proof -
  let ?rm = "\<lparr>width = 2, rows = [[True, False], [True, True]]\<rparr>"
  have "case compute_r2opl_batch ?rm (Rew1 [Fin 1, Fin 0]) [''a'', ''a''] (Some [True, True]) of
      Inl e \<Rightarrow> False | Inr R \<Rightarrow> True" by code_simp
  then obtain R where R: "compute_r2opl_batch ?rm (Rew1 [Fin 1, Fin 0]) [''a'', ''a''] (Some [True, True]) = Inr R"
    by (auto split: sum.splits)
  have wf: "wf_mat ?rm" by (simp add: wf_mat_def)
  from batch_masks_partition [OF wf R, THEN conjunct1] R show ?thesis
    by (intro exI [of _ R]) (auto simp: height_def mget_def)
qed


section \<open>Properties of the advantage and the loss\<close>

lemma shape_iff: "shape a = shape b \<longleftrightarrow> height a = height b \<and> width a = width b"
  by (auto simp: shape_def)

lemma ex_in_set_nth: "(\<exists>x \<in> set xs. Q x) \<longleftrightarrow> (\<exists>i < length xs. Q (xs ! i))"
  by (metis in_set_conv_nth)

lemma in_entries:
  assumes "wf_mat m"
  shows "(\<exists>b \<in> set (concat (rows m)). P b) \<longleftrightarrow> (\<exists>i < height m. \<exists>j < width m. P (mget m i j))"
proof -
  have "(\<exists>b \<in> set (concat (rows m)). P b) \<longleftrightarrow> (\<exists>r \<in> set (rows m). \<exists>b \<in> set r. P b)" by simp
  also have "\<dots> \<longleftrightarrow> (\<exists>i < height m. \<exists>j < length (rows m ! i). P (rows m ! i ! j))"
    unfolding ex_in_set_nth height_def ..
  also have "\<dots> \<longleftrightarrow> (\<exists>i < height m. \<exists>j < width m. P (mget m i j))"
    using assms by (intro iff_exI conj_cong refl) (simp_all add: wf_mat_def height_def mget_def)
  finally show ?thesis .
qed

lemma modulate_multiplier_shape:
  assumes "length c = h" "T = modulate pp w sr sm c B ar ad ep marks"
  shows "wf_mat (tm_correct_token_multiplier T)" "shape (tm_correct_token_multiplier T) = (h, w)"
    "wf_mat (tm_error_token_multiplier T)" "shape (tm_error_token_multiplier T) = (h, w)"
  unfolding assms(2) using assms(1) by (auto simp: modulate_def Let_def wf_mat_def shape_def height_def)

text \<open>Entries of the advantage when every guard passes.\<close>

lemma r2opl_token_advantage_entries:
  assumes wf: "wf_mat S" "wf_mat Te" "wf_mat cmask" "wf_mat emask" "wf_mat rm" "wf_mat cm" "wf_mat em"
    and sh: "shape Te = shape S" "shape cmask = shape S" "shape emask = shape S" "shape rm = shape S"
      "shape cm = shape S" "shape em = shape S" "length d = height S"
    and hyp: "is_finite lambda" "0 \<le> fval lambda" "is_finite miu" "0 < fval miu"
    and entries: "\<And>i j. i < height S \<Longrightarrow> j < width S \<Longrightarrow>
        \<not> (mget cmask i j \<and> mget emask i j) \<and> (mget cmask i j \<or> mget emask i j \<longrightarrow> mget rm i j) \<and>
        (mget rm i j \<longrightarrow> is_finite (mget S i j) \<and> is_finite (mget Te i j)) \<and>
        is_finite (mget cm i j) \<and> is_finite (mget em i j)"
  obtains A where "r2opl_token_advantage S Te cmask emask (Diff1 d) rm (Some cm) (Some em) lambda miu = Inr A"
    "\<And>i j. i < height S \<Longrightarrow> j < width S \<Longrightarrow> mget A i j =
       fmul (if mget emask i j then fmul (fmul (fmul (d ! i) lambda) (fsub (mget Te i j) (mget S i j))) (mget em i j)
             else if mget cmask i j then fmul (fmul (d ! i) miu) (mget cm i j) else Fin 0)
         (of_mask (mget rm i j))"
    "wf_mat A" "shape A = shape S"
proof -
  have H: "height Te = height S" "width Te = width S" "height cmask = height S" "width cmask = width S"
    "height emask = height S" "width emask = width S" "height rm = height S" "width rm = width S"
    "height cm = height S" "width cm = width S" "height em = height S" "width em = width S"
    using sh by (simp_all add: shape_iff)
  define dt where "dt = col_bcast (width S) d"
  have dt: "wf_mat dt" "height dt = height S" "width dt = width S"
    "\<And>i j. i < height S \<Longrightarrow> j < width S \<Longrightarrow> mget dt i j = d ! i"
    using sh by (simp_all add: dt_def mat_simps)
  define A where "A = mmap2 fmul
    (mmap2 (\<lambda>(m, e) v. if m then e else v) (mmap2 Pair emask
        (mmap2 fmul (mmap2 fmul (mmap (\<lambda>d. fmul d lambda) dt) (mmap2 fsub Te S)) em))
      (mmap2 (\<lambda>m v. if m then v else Fin 0) cmask (mmap2 fmul (mmap (\<lambda>d. fmul d miu) dt) cm)))
    (mmap of_mask rm)"
  have "r2opl_token_advantage S Te cmask emask (Diff1 d) rm (Some cm) (Some em) lambda miu = Inr A"
    unfolding r2opl_token_advantage_def Let_def ebind_Inr raise_if_Inr validate_hyperparameters_Inr
  proof (intro exI conjI)
    show "difficulty_tokens (Diff1 d) (shape S) = Inr dt"
      using sh by (simp add: difficulty_tokens_def shape_def dt_def)
    show "multiplier_or_one (Some cm) (shape S) = Inr cm" "multiplier_or_one (Some em) (shape S) = Inr em"
      using sh by (simp_all add: multiplier_or_one_def)
    show "\<not> (\<exists>b \<in> set (concat (rows (mmap2 (\<and>) cmask emask))). b)"
      using entries wf H by (subst in_entries) (auto simp: mat_simps)
    show "\<not> (\<exists>b \<in> set (concat (rows (mmap2 (\<lambda>x m. x \<and> \<not> m) (mmap2 (\<or>) cmask emask) rm))). b)"
      using entries wf H by (subst in_entries) (auto simp: mat_simps)
    have sel: "\<not> (\<exists>v \<in> set (mselect m x). \<not> is_finite v)"
      if "wf_mat m" "wf_mat x" "shape m = shape x"
        "\<And>i j. i < height x \<Longrightarrow> j < width x \<Longrightarrow> mget m i j \<Longrightarrow> is_finite (mget x i j)" for m x
      using list_all_mselect [OF that(1-3), of is_finite] that(4) by auto
    show "\<not> (\<exists>v \<in> set (mselect rm S). \<not> is_finite v)" "\<not> (\<exists>v \<in> set (mselect rm Te). \<not> is_finite v)"
      "\<not> (\<exists>v \<in> set (mselect cmask cm). \<not> is_finite v)" "\<not> (\<exists>v \<in> set (mselect emask em). \<not> is_finite v)"
      by (rule sel; use entries wf sh H in auto)+
    show "Inr (mmap2 fmul
        (mmap2 (\<lambda>(m, e) v. if m then e else v) (mmap2 Pair emask
            (mmap2 fmul (mmap2 fmul (mmap (\<lambda>d. fmul d lambda) dt) (mmap2 fsub Te S)) em))
          (mmap2 (\<lambda>m v. if m then v else Fin 0) cmask (mmap2 fmul (mmap (\<lambda>d. fmul d miu) dt) cm)))
        (mmap of_mask rm)) = Inr A" by (simp add: A_def)
  qed (use sh hyp in auto)
  moreover have "mget A i j =
       fmul (if mget emask i j then fmul (fmul (fmul (d ! i) lambda) (fsub (mget Te i j) (mget S i j))) (mget em i j)
             else if mget cmask i j then fmul (fmul (d ! i) miu) (mget cm i j) else Fin 0)
         (of_mask (mget rm i j))" if "i < height S" "j < width S" for i j
    unfolding A_def using that wf H dt by (simp add: mat_simps)
  moreover have "wf_mat A" "shape A = shape S"
    unfolding A_def using wf H dt by (simp_all add: mat_simps shape_iff)
  ultimately show ?thesis using that by blast
qed

text \<open>
  C6: The advantage, end to end. Whenever the batch statistics and the token modulation of one
  response batch succeed, the coefficients are legal and the log-probabilities are finite on
  response tokens, building the advantage from them succeeds: none of its guards can fire. A
  token of a correct trajectory gets \<open>difficulty * miu * correct multiplier\<close>, which is not
  negative; a token of a wrong one \<open>difficulty * lambda * (teacher - student) * error
  multiplier\<close>; padding tokens and padding trajectories get exactly zero, even where the
  log-probabilities are not finite.
\<close>

theorem advantage_end_to_end:
  assumes "wf_mat S" "wf_mat Te" "wf_mat rm" "wf_mat pp" "wf_mat sr"
    and "shape Te = shape S" "shape rm = shape S"
    and "\<forall>i < height S. \<forall>j < width S. mget rm i j \<longrightarrow> is_finite (mget S i j) \<and> is_finite (mget Te i j)"
    and "0 \<le> lambda" "0 < miu"
    and "compute_r2opl_batch rm v ids g = Inr R"
    and "compute_r2opl_token_modulation pp rm sr sm bm ar ad ep = Inr T"
  shows "\<exists>A. r2opl_token_advantage S Te (br_correct_mask R) (br_error_mask R)
               (Diff1 (map Fin (br_difficulty R))) rm (Some (mmap Fin (tm_correct_token_multiplier T)))
               (Some (mmap Fin (tm_error_token_multiplier T))) (Fin lambda) (Fin miu) = Inr A \<and>
             (\<forall>i < height S. \<forall>j < width S. mget A i j =
               Fin (if \<not> mget rm i j \<or> \<not> br_genuine R ! i then 0
                    else if br_correctness R ! i
                    then br_difficulty R ! i * miu * mget (tm_correct_token_multiplier T) i j
                    else br_difficulty R ! i * lambda * (fval (mget Te i j) - fval (mget S i j))
                           * mget (tm_error_token_multiplier T) i j))"
proof -
  obtain rewards gen cor where h: "length ids = height rm" "length gen = height rm" "length rewards = height rm"
    and cor: "cor = map2 (\<lambda>r g. feq r (Fin 1) \<and> g) rewards gen" and R: "R = r2opl_batch_of rm ids gen cor"
    by (rule compute_r2opl_batch_Inr [OF assms(11)])
  obtain c marks stm where ok: "modulation_inputs_ok pp rm sr c"
    and T: "T = modulate pp (width rm) sr stm c
       (prefix_of_counts (width pp) (map (\<lambda>n. if n \<ge> 2 then n else 0) c)) (fval ar) (fval ad) (fval ep) marks"
    by (rule modulation_Inr [OF assms(4,3,5,12)])
  have H: "height rm = height S" "width rm = width S" using assms(7) by (simp_all add: shape_iff)
  have lc: "length c = height rm" using ok by (simp add: modulation_inputs_ok_def)
  note ms = modulate_multiplier_shape [OF lc T]
  have len: "length cor = height rm" "length (error_rows gen cor) = height rm"
    using h by (simp_all add: cor error_rows_def)
  have cg: "cor ! i \<Longrightarrow> gen ! i" if "i < height rm" for i using that h by (simp add: cor)
  have eg: "error_rows gen cor ! i \<longleftrightarrow> gen ! i \<and> \<not> cor ! i" if "i < height rm" for i
    using that h len by (simp add: error_rows_def)
  let ?cm = "mmap Fin (tm_correct_token_multiplier T)"
  let ?em = "mmap Fin (tm_error_token_multiplier T)"
  let ?d = "map Fin (fst (group_difficulty ids gen cor))"
  have shp: "shape (mask_rows rm cor) = shape S" "shape (mask_rows rm (error_rows gen cor)) = shape S"
    "shape ?cm = shape S" "shape ?em = shape S"
    using len assms(7) ms H by (simp_all add: mat_simps shape_def)
  have hw: "height (tm_correct_token_multiplier T) = height S" "width (tm_correct_token_multiplier T) = width S"
    "height (tm_error_token_multiplier T) = height S" "width (tm_error_token_multiplier T) = width S"
    using ms H by (simp_all add: shape_def)
  have m: "mget (mask_rows rm cor) i j = (mget rm i j \<and> cor ! i)"
    "mget (mask_rows rm (error_rows gen cor)) i j = (mget rm i j \<and> gen ! i \<and> \<not> cor ! i)"
    "mget ?cm i j = Fin (mget (tm_correct_token_multiplier T) i j)"
    "mget ?em i j = Fin (mget (tm_error_token_multiplier T) i j)"
    if "i < height S" "j < width S" for i j
    using that H len assms(3) ms hw eg by (simp_all add: mat_simps)
  obtain A where A: "r2opl_token_advantage S Te (mask_rows rm cor) (mask_rows rm (error_rows gen cor))
      (Diff1 ?d) rm (Some ?cm) (Some ?em) (Fin lambda) (Fin miu) = Inr A"
    and entry: "\<And>i j. i < height S \<Longrightarrow> j < width S \<Longrightarrow> mget A i j =
       fmul (if mget (mask_rows rm (error_rows gen cor)) i j
             then fmul (fmul (fmul (?d ! i) (Fin lambda)) (fsub (mget Te i j) (mget S i j))) (mget ?em i j)
             else if mget (mask_rows rm cor) i j then fmul (fmul (?d ! i) (Fin miu)) (mget ?cm i j) else Fin 0)
         (of_mask (mget rm i j))"
  proof (rule r2opl_token_advantage_entries [of S Te "mask_rows rm cor" "mask_rows rm (error_rows gen cor)"
        rm ?cm ?em ?d "Fin lambda" "Fin miu"])
  qed (use assms shp h H ms m in \<open>auto simp: mat_simps\<close>)
  have "mget A i j = Fin (if \<not> mget rm i j \<or> \<not> gen ! i then 0
      else if cor ! i then fst (group_difficulty ids gen cor) ! i * miu * mget (tm_correct_token_multiplier T) i j
      else fst (group_difficulty ids gen cor) ! i * lambda * (fval (mget Te i j) - fval (mget S i j))
             * mget (tm_error_token_multiplier T) i j)" if ij: "i < height S" "j < width S" for i j
  proof (cases "mget rm i j")
    case True
    then have "is_finite (mget S i j)" "is_finite (mget Te i j)" using assms(8) ij by auto
    then obtain x y where "mget S i j = Fin x" "mget Te i j = Fin y"
      by (auto simp: is_finite_iff)
    then show ?thesis using entry [OF ij] True ij m [OF ij] h H cg by auto
  next
    case False
    then show ?thesis using entry [OF ij] m [OF ij] by simp
  qed
  then show ?thesis unfolding R r2opl_batch_of_simps using A by blast
qed


lemma advantage_end_to_end_witness:
  "let S = \<lparr>width = 3, rows = [[Fin (- 1), Fin (- 2), NaN], [Fin (- 1), Fin (- 3), Fin 0]]\<rparr>;
       Te = \<lparr>width = 3, rows = [[Fin (- 2), Fin (- 2), PInf], [Fin (- 2), Fin (- 1), Fin 0]]\<rparr>;
       rm = \<lparr>width = 3, rows = [[True, True, False], [True, True, False]]\<rparr>;
       pp = \<lparr>width = 2, rows = [[Fin 0, Fin (1/2)], [Fin 0, Fin (1/2)]]\<rparr>;
       sr = \<lparr>width = 2, rows = [[(0, 1), (1, 2)], [(0, 1), (1, 2)]]\<rparr> in
   \<exists>R T A. compute_r2opl_batch rm (Rew1 [Fin 1, Fin 0]) [''q'', ''q''] None = Inr R \<and>
     compute_r2opl_token_modulation pp rm sr None None (Fin 1) (Fin 1) (Fin (1/2)) = Inr T \<and>
     r2opl_token_advantage S Te (br_correct_mask R) (br_error_mask R)
       (Diff1 (map Fin (br_difficulty R))) rm (Some (mmap Fin (tm_correct_token_multiplier T)))
       (Some (mmap Fin (tm_error_token_multiplier T))) (Fin (1/10)) (Fin 16) = Inr A \<and>
     mget A 0 2 = Fin 0"
proof -
  let ?S = "\<lparr>width = 3, rows = [[Fin (- 1), Fin (- 2), NaN], [Fin (- 1), Fin (- 3), Fin 0]]\<rparr>"
  let ?Te = "\<lparr>width = 3, rows = [[Fin (- 2), Fin (- 2), PInf], [Fin (- 2), Fin (- 1), Fin 0]]\<rparr>"
  let ?rm = "\<lparr>width = 3, rows = [[True, True, False], [True, True, False]]\<rparr>"
  let ?pp = "\<lparr>width = 2, rows = [[Fin 0, Fin (1/2)], [Fin 0, Fin (1/2)]]\<rparr>"
  let ?sr = "\<lparr>width = 2, rows = [[(0::int, 1::int), (1, 2)], [(0, 1), (1, 2)]]\<rparr>"
  have "case compute_r2opl_batch ?rm (Rew1 [Fin 1, Fin 0]) [''q'', ''q''] None of
      Inl e \<Rightarrow> False | Inr R \<Rightarrow> True" by code_simp
  then obtain R where R: "compute_r2opl_batch ?rm (Rew1 [Fin 1, Fin 0]) [''q'', ''q''] None = Inr R"
    by (auto split: sum.splits)
  have "case compute_r2opl_token_modulation ?pp ?rm ?sr None None (Fin 1) (Fin 1) (Fin (1/2)) of
      Inl e \<Rightarrow> False | Inr T \<Rightarrow> True" by code_simp
  then obtain T where T: "compute_r2opl_token_modulation ?pp ?rm ?sr None None (Fin 1) (Fin 1) (Fin (1/2)) = Inr T"
    by (auto split: sum.splits)
  have fin: "\<forall>i < height ?S. \<forall>j < width ?S. mget ?rm i j \<longrightarrow> is_finite (mget ?S i j) \<and> is_finite (mget ?Te i j)"
    by code_simp
  have wf: "wf_mat ?S" "wf_mat ?Te" "wf_mat ?rm" "wf_mat ?pp" "wf_mat ?sr" "shape ?Te = shape ?S" "shape ?rm = shape ?S"
    by (simp_all add: wf_mat_def shape_def height_def)
  have "0 \<le> (1/10 :: real)" "0 < (16 :: real)" by simp_all
  from advantage_end_to_end [OF wf fin this R T] R T show ?thesis
    unfolding Let_def by (elim exE conjE, intro exI conjI) (auto simp: height_def mget_def)
qed

lemma token_loss_entries:
  assumes "wf_mat S" "wf_mat A" "wf_mat rm" "shape A = shape S" "shape rm = shape S"
  shows "wf_mat (token_loss_mat S A rm)" "height (token_loss_mat S A rm) = height S"
    "width (token_loss_mat S A rm) = width S"
    "i < height S \<Longrightarrow> j < width S \<Longrightarrow> mget (token_loss_mat S A rm) i j =
       fmul (fneg (fmul (mget A i j) (mget S i j))) (of_mask (mget rm i j))"
  using assms by (simp_all add: token_loss_mat_def mat_simps shape_iff)

lemma row_as_map: "wf_mat m \<Longrightarrow> i < height m \<Longrightarrow> rows m ! i = map (mget m i) [0..<width m]"
  by (rule nth_equalityI) (auto simp: wf_mat_def height_def mget_def)

text \<open>Sum of a masked row of token losses.\<close>

lemma fsum_token_loss_row:
  assumes "wf_mat S" "wf_mat A" "wf_mat rm" "shape A = shape S" "shape rm = shape S" "i < height S"
    and "\<And>j. j < width S \<Longrightarrow> is_finite (mget S i j) \<and> is_finite (mget A i j)"
  shows "fsum (rows (token_loss_mat S A rm) ! i) =
     Fin (- (\<Sum>j \<leftarrow> filter (mget rm i) [0..<width S]. fval (mget A i j) * fval (mget S i j)))"
proof -
  define L where "L = token_loss_mat S A rm"
  have L: "wf_mat L" "height L = height S" "width L = width S"
    using token_loss_entries [OF assms(1-5)] by (simp_all add: L_def)
  have "mget L i j = Fin (if mget rm i j then - (fval (mget A i j) * fval (mget S i j)) else 0)"
    if "j < width S" for j
  proof -
    have "is_finite (mget S i j)" "is_finite (mget A i j)" using assms(7) [OF that] by auto
    then obtain x y where "mget S i j = Fin x" "mget A i j = Fin y" by (auto simp: is_finite_iff)
    then show ?thesis using token_loss_entries(4) [OF assms(1-6) that] by (simp add: L_def)
  qed
  then have "rows L ! i = map (\<lambda>j. Fin (if mget rm i j then - (fval (mget A i j) * fval (mget S i j)) else 0)) [0..<width S]"
    using row_as_map [of L i] L assms(6) by simp
  moreover have "(\<Sum>j \<leftarrow> xs. if P j then - f j else 0) = - (\<Sum>j \<leftarrow> filter P xs. f j)"
    for xs :: "nat list" and P and f :: "nat \<Rightarrow> real" by (induction xs) auto
  ultimately show ?thesis by (simp add: L_def)
qed

text \<open>
  The loss. For finite log-probabilities and advantages, and at least one trajectory with a
  response token, the loss is the mean over exactly the trajectories that have response tokens
  of minus the sum over response tokens of advantage times log-probability: token contributions
  are summed, not averaged, per trajectory, and trajectories without response tokens do not
  enter the denominator.
\<close>

theorem reinforce_loss_formula:
  assumes "wf_mat S" "wf_mat A" "wf_mat rm" "shape A = shape S" "shape rm = shape S"
    and "\<forall>i < height S. \<forall>j < width S. is_finite (mget S i j) \<and> is_finite (mget A i j)"
    and "active = filter (\<lambda>i. \<exists>j < width S. mget rm i j) [0..<height S]" "active \<noteq> []"
  shows "r2opl_reinforce_loss S A rm =
     Inr (Fin ((\<Sum>i \<leftarrow> active. - (\<Sum>j \<leftarrow> filter (mget rm i) [0..<width S].
                  fval (mget A i j) * fval (mget S i j))) / real (length active)))"
proof -
  define L where "L = token_loss_mat S A rm"
  have L: "wf_mat L" "height L = height S" "width L = width S"
    using token_loss_entries [OF assms(1-5)] by (simp_all add: L_def)
  let ?r = "\<lambda>i. - (\<Sum>j \<leftarrow> filter (mget rm i) [0..<width S]. fval (mget A i j) * fval (mget S i j))"
  have H: "height rm = height S" "width rm = width S" using assms(5) by (simp_all add: shape_iff)
  have row: "fsum (rows L ! i) = Fin (?r i)" if i: "i < height S" for i
    using fsum_token_loss_row [OF assms(1-5) i] assms(6) i by (simp add: L_def)
  have per: "map fsum (rows L) = map (\<lambda>i. Fin (?r i)) [0..<height S]"
    using row L(2) by (intro nth_equalityI) (auto simp: height_def)
  have act: "map (\<lambda>r. vcount r > 0) (rows rm) = map (\<lambda>i. \<exists>j < width S. mget rm i j) [0..<height S]"
  proof (rule nth_equalityI)
    fix i assume "i < length (map (\<lambda>r. vcount r > 0) (rows rm))"
    then have i: "i < height rm" by (simp add: height_def)
    have "vcount (rows rm ! i) > 0 \<longleftrightarrow> (\<exists>j < length (rows rm ! i). rows rm ! i ! j)"
      unfolding neq0_conv [symmetric] vcount_eq_0 by (metis in_set_conv_nth)
    also have "\<dots> \<longleftrightarrow> (\<exists>j < width S. mget rm i j)"
      using i assms(3) H by (simp add: wf_mat_def height_def mget_def)
    finally show "map (\<lambda>r. vcount r > 0) (rows rm) ! i = map (\<lambda>i. \<exists>j < width S. mget rm i j) [0..<height S] ! i"
      using i H by (simp add: height_def)
  qed (use H in \<open>simp add: height_def\<close>)
  have sel: "vselect (map P xs) (map f xs) = map f (filter P xs)" for P and f :: "nat \<Rightarrow> flt" and xs
    by (induction xs) auto
  have any: "\<exists>a \<in> set (map (\<lambda>i. \<exists>j < width S. mget rm i j) [0..<height S]). a"
    using assms(7,8) by (auto simp: filter_empty_conv)
  have "r2opl_reinforce_loss S A rm = Inr (fmean (map (\<lambda>i. Fin (?r i)) active))"
    unfolding r2opl_reinforce_loss_def Let_def L_def [symmetric] per act sel assms(7) [symmetric]
    using any assms(4,5) by simp
  also have "map (\<lambda>i. Fin (?r i)) active = map Fin (map ?r active)" by simp
  also have "fmean \<dots> = Fin (rmean (map ?r active))" using assms(8) by (intro fmean_Fin) simp
  finally show ?thesis by (simp add: rmean_def)
qed

lemma reinforce_loss_formula_witness:
  "r2opl_reinforce_loss \<lparr>width = 2, rows = [[Fin (- 1), Fin (- 2)], [Fin (- 3), Fin 0]]\<rparr>
     \<lparr>width = 2, rows = [[Fin 2, Fin 1], [Fin 5, Fin 0]]\<rparr>
     \<lparr>width = 2, rows = [[True, True], [False, False]]\<rparr> = Inr (Fin 4)"
proof -
  let ?S = "\<lparr>width = 2, rows = [[Fin (- 1), Fin (- 2)], [Fin (- 3), Fin 0]]\<rparr>"
  let ?A = "\<lparr>width = 2, rows = [[Fin 2, Fin 1], [Fin 5, Fin 0]]\<rparr>"
  let ?m = "\<lparr>width = 2, rows = [[True, True], [False, False]]\<rparr>"
  have wf: "wf_mat ?S" "wf_mat ?A" "wf_mat ?m" "shape ?A = shape ?S" "shape ?m = shape ?S"
    by (simp_all add: wf_mat_def shape_def height_def)
  have fin: "\<forall>i < height ?S. \<forall>j < width ?S. is_finite (mget ?S i j) \<and> is_finite (mget ?A i j)" by code_simp
  have act: "[0] = filter (\<lambda>i. \<exists>j < width ?S. mget ?m i j) [0..<height ?S]" by code_simp
  show ?thesis using reinforce_loss_formula [OF wf fin act] by (simp add: mget_def upt_rec)
qed

text \<open>
  Padding must be finite. The loss multiplies by the mask instead of selecting, so a single
  non-finite log-probability on a padded position, where the advantage is zero, makes the whole
  loss NaN for that trajectory's batch as soon as the trajectory is active.
\<close>

theorem reinforce_loss_nan_padding:
  assumes "wf_mat S" "wf_mat A" "wf_mat rm" "shape A = shape S" "shape rm = shape S"
    and "i < height S" "j < width S" "j' < width S" "mget rm i j'"
    and "mget A i j = Fin 0" "\<not> is_finite (mget S i j)"
  shows "r2opl_reinforce_loss S A rm = Inr NaN"
proof -
  define L where "L = token_loss_mat S A rm"
  have L: "wf_mat L" "height L = height S" "width L = width S"
    using token_loss_entries [OF assms(1-5)] by (simp_all add: L_def)
  have H: "height rm = height S" "width rm = width S" using assms(5) by (simp_all add: shape_iff)
  have "mget L i j = NaN"
    using token_loss_entries(4) [OF assms(1-7)] assms(10,11)
    by (cases "mget S i j") (simp_all add: L_def finf_def)
  moreover have len: "length (rows L ! i) = width S" "length (rows rm ! i) = width S"
    using L assms(3,6) H by (auto simp: wf_mat_def height_def)
  ultimately have "NaN \<in> set (rows L ! i)" using assms(7) by (metis mget_def nth_mem)
  then have nan: "fsum (rows L ! i) = NaN" by (rule fsum_NaN)
  have act: "vcount (rows rm ! i) > 0"
    using assms(8,9) len(2) nth_mem [of j' "rows rm ! i"] unfolding neq0_conv [symmetric] vcount_eq_0 mget_def by auto
  let ?a = "map (\<lambda>r. vcount r > 0) (rows rm)"
  have la: "length ?a = length (map fsum (rows L))" using H L by (simp add: height_def)
  have i: "i < length (rows L)" "i < length (rows rm)" using assms(6) H L by (simp_all add: height_def)
  have "NaN \<in> set (vselect ?a (map fsum (rows L)))"
    unfolding set_vselect [OF la] using i nan act by (auto intro!: exI [of _ i])
  then have "fmean (vselect ?a (map fsum (rows L))) = NaN"
    by (auto simp: fmean_def fsum_NaN)
  moreover have "\<exists>a \<in> set ?a. a" using act i by auto
  ultimately show ?thesis
    unfolding r2opl_reinforce_loss_def Let_def L_def [symmetric] using assms(4,5) by simp
qed

lemma reinforce_loss_nan_padding_witness:
  "r2opl_reinforce_loss \<lparr>width = 2, rows = [[Fin (- 1), MInf]]\<rparr> \<lparr>width = 2, rows = [[Fin 2, Fin 0]]\<rparr>
     \<lparr>width = 2, rows = [[True, False]]\<rparr> = Inr NaN"
  by (rule reinforce_loss_nan_padding [of _ _ _ 0 1 0])
    (simp_all add: wf_mat_def shape_def height_def mget_def)

end
