(* ===== verification/Batches.thy ===== *)
theory Batches
  imports Advantage
begin

text \<open>
  The batch kernels of the trainers under \<open>algorithms/\<close>: the Correct-R2OPL and
  R2OPL-base group statistics with the answer-probe rescue, the R2OPL controller batch, the
  token advantages and losses of Correct-R2OPL, R2OPL-base, OPDVR and PG-OPD, and the group
  advantage of GRPD. Each kernel contains its own copy of the group loop, modelled by
  \<open>group_difficulty\<close>.
\<close>

section \<open>Shared pieces\<close>

text \<open>The optional per-trajectory masks of the kernels; absent means all false.\<close>

definition optional_mask :: "nat \<Rightarrow> bool list option \<Rightarrow> bool list" where
  "optional_mask batch_size v = (case v of None \<Rightarrow> replicate batch_size False | Some m \<Rightarrow> m)"

text \<open>\<open>sequence-mean/token-mean\<close>: mean over all rows of the masked token mean.\<close>

definition seq_mean_token_mean :: "flt mat \<Rightarrow> bool mat \<Rightarrow> flt" where
  "seq_mean_token_mean token_loss resp_mask =
     fmean (map2 (\<lambda>l m. fdiv_pos (fsum l) (max 1 (real (vcount m)))) (rows token_loss) (rows resp_mask))"

text \<open>A probe rescues a truncated trajectory only; the verifier verdict takes precedence.\<close>

definition probe_rescue :: "bool list \<Rightarrow> bool list \<Rightarrow> flt list \<Rightarrow> bool list" where
  "probe_rescue truncated probe_correct rewards =
     map2 (\<lambda>(t, p) r. t \<and> p \<and> \<not> feq r (Fin 1)) (zip truncated probe_correct) rewards"

definition rescued_correctness :: "flt list \<Rightarrow> bool list \<Rightarrow> bool list \<Rightarrow> bool list" where
  "rescued_correctness rewards rescued genuine =
     map2 (\<lambda>(r, p) g. (feq r (Fin 1) \<or> p) \<and> g) (zip rewards rescued) genuine"

text \<open>
  The guards the two probe-aware kernels share, from the batch-size checks to the rewards
  check; the result is the genuine, truncated and probe masks and the sequence rewards.
\<close>

definition check_batch_inputs ::
  "bool mat \<Rightarrow> reward_tensor \<Rightarrow> 'g list \<Rightarrow> bool list option \<Rightarrow> bool list option \<Rightarrow> bool list option
    \<Rightarrow> (bool list \<times> bool list \<times> bool list \<times> flt list) res" where
  "check_batch_inputs response_mask verifier_rewards ids truncated_opt probe_opt genuine_opt =
     (let batch_size = height response_mask in
      raise_if (bad_vector batch_size genuine_opt)
        (ValueError ''genuine_trajectory_mask must have one entry per trajectory'')
      (raise_if (bad_vector batch_size truncated_opt)
        (ValueError ''truncated_mask must have one entry per trajectory'')
      (raise_if (bad_vector batch_size probe_opt)
        (ValueError ''probe_correct_mask must have one entry per trajectory'')
      (ebind (sequence_rewards verifier_rewards batch_size) (\<lambda>rewards.
       let genuine = genuine_mask batch_size genuine_opt;
           counts = token_counts (mask_rows response_mask genuine) in
       raise_if (\<exists>i \<in> set [0..<batch_size]. genuine ! i \<and> counts ! i = 0)
         (ValueError ''cannot score a genuine trajectory with no response tokens'')
       (raise_if (\<exists>r \<in> set (vselect genuine rewards). \<not> is_finite r)
         (ValueError ''verifier rewards must be finite'')
       (raise_if (\<exists>r \<in> set (vselect genuine rewards). \<not> is_binary r)
         (ValueError ''requires binary verifier rewards'')
       (Inr (genuine, optional_mask batch_size truncated_opt, optional_mask batch_size probe_opt, rewards)))))))))"

section \<open>Correct-R2OPL\<close>

record correct_batch_result =
  cb_correct_mask :: "bool mat"
  cb_difficulty :: "real list"
  cb_correctness :: "bool list"
  cb_truncated :: "bool list"
  cb_probe_rescued :: "bool list"
  cb_group_success :: "real list"
  cb_metrics :: metrics

definition mask_and :: "bool list \<Rightarrow> bool list \<Rightarrow> bool list" where
  "mask_and a b = map2 (\<and>) a b"

definition correct_r2opl_metrics ::
  "bool mat \<Rightarrow> bool list \<Rightarrow> bool list \<Rightarrow> bool list \<Rightarrow> bool list \<Rightarrow> real list \<Rightarrow> real list \<Rightarrow> real \<Rightarrow> metrics" where
  "correct_r2opl_metrics response_mask genuine truncated rescued correctness difficulty group_success miu =
     (let correct_mask = mask_rows response_mask correctness;
          correct_advantages = map (\<lambda>d. d * miu) (vselect correctness difficulty);
          truncated_count = vcount (mask_and genuine truncated)
      in [(''correct_r2opl/train/mean_score'', Fin (genuine_reward_mean genuine correctness)),
          (''correct_r2opl/train/group_success_rate'', Fin (rmean group_success)),
          (''correct_r2opl/train/prompt_difficulty_mean'', Fin (rmean (map (\<lambda>s. 1 - s) group_success))),
          (''correct_r2opl/train/correct_trajectory_count'', count_flt (vcount correctness)),
          (''correct_r2opl/train/error_trajectory_count'', count_flt (vcount (error_rows genuine correctness))),
          (''correct_r2opl/train/correct_trajectory_ratio'', Fin (genuine_reward_mean genuine correctness)),
          (''correct_r2opl/train/error_trajectory_ratio'',
             Fin (rmean (map (\<lambda>c. bool_real (\<not> c)) (vselect genuine correctness)))),
          (''correct_r2opl/train/truncated_trajectory_count'', count_flt truncated_count),
          (''correct_r2opl/train/response_truncated_ratio'',
             Fin (real truncated_count / real (vcount genuine))),
          (''correct_r2opl/train/probe_rescued_trajectory_count'', count_flt (vcount rescued)),
          (''correct_r2opl/train/probe_rescued_ratio'', Fin (rmean (map bool_real (vselect genuine rescued)))),
          (''correct_r2opl/train/correct_advantage_mean'',
             Fin (if correct_advantages = [] then 0 else rmean correct_advantages)),
          (''correct_r2opl/train/correct_raw_advantage_mean'',
             Fin (if mcount correct_mask > 0 then miu else 0)),
          (''correct_r2opl/train/correct_token_count'', count_flt (mcount correct_mask)),
          (''correct_r2opl/train/error_token_count'',
             count_flt (mcount (mask_rows (mask_rows response_mask genuine) (map Not correctness)))),
          (''correct_r2opl/train/miu'', Fin miu)])"

definition compute_correct_r2opl_batch ::
  "bool mat \<Rightarrow> reward_tensor \<Rightarrow> 'g list \<Rightarrow> flt \<Rightarrow> bool list option \<Rightarrow> bool list option \<Rightarrow> bool list option
    \<Rightarrow> correct_batch_result res" where
  "compute_correct_r2opl_batch response_mask verifier_rewards ids miu truncated_opt probe_opt genuine_opt =
     raise_if (length ids \<noteq> height response_mask)
       (ValueError ''prompt_group_ids must have one entry per trajectory'')
     (raise_if (\<not> is_finite miu \<or> fle miu (Fin 0))
       (ValueError ''miu must be finite and positive'')
     (ebind (check_batch_inputs response_mask verifier_rewards ids truncated_opt probe_opt genuine_opt)
       (\<lambda>(genuine, truncated, probe_correct, rewards).
      let rescued = probe_rescue truncated probe_correct rewards;
          correctness = rescued_correctness rewards rescued genuine;
          (difficulty, group_success) = group_difficulty ids genuine correctness in
      raise_if (group_success = [])
        (ValueError ''requires at least one genuine prompt group'')
      (Inr \<lparr>cb_correct_mask = mask_rows response_mask correctness,
            cb_difficulty = difficulty, cb_correctness = correctness,
            cb_truncated = mask_and truncated genuine, cb_probe_rescued = rescued,
            cb_group_success = group_success,
            cb_metrics = correct_r2opl_metrics response_mask genuine truncated rescued correctness
              difficulty group_success (fval miu)\<rparr>))))"

definition correct_r2opl_token_advantage ::
  "bool mat \<Rightarrow> flt mat \<Rightarrow> bool mat \<Rightarrow> flt \<Rightarrow> flt mat res" where
  "correct_r2opl_token_advantage correct_mask difficulty response_mask miu =
     raise_if (\<not> (shape correct_mask = shape difficulty \<and> shape difficulty = shape response_mask))
       (ValueError ''masks and token difficulty must be matching two-dimensional tensors'')
     (Inr (mmap2 fmul (mmap2 fmul (mmap (\<lambda>d. fmul d miu) difficulty) (mmap of_mask correct_mask))
        (mmap of_mask response_mask)))"

definition correct_r2opl_reinforce_loss :: "flt mat \<Rightarrow> flt mat \<Rightarrow> bool mat \<Rightarrow> flt res" where
  "correct_r2opl_reinforce_loss student advantage response_mask =
     raise_if (\<not> (shape student = shape advantage \<and> shape advantage = shape response_mask))
       (ValueError ''loss tensors must have matching two-dimensional shapes'')
     (Inr (seq_mean_token_mean (token_loss_mat student advantage response_mask) response_mask))"

text \<open>\<open>difficulty.unsqueeze(-1).expand_as(mask).clone(); difficulty *= mask\<close> of the trainer.\<close>

definition expand_difficulty :: "real list \<Rightarrow> bool mat \<Rightarrow> flt mat" where
  "expand_difficulty difficulty response_mask =
     mmap2 fmul (col_bcast (width response_mask) (map Fin difficulty)) (mmap of_mask response_mask)"

text \<open>
  \<open>_validate_complete_rollout_batch\<close>: the physical batch has one genuine trajectory per
  requested rollout and every prompt group the same number of them.
\<close>

definition validate_complete_rollout_batch :: "nat \<Rightarrow> nat \<Rightarrow> bool list \<Rightarrow> 'g list \<Rightarrow> unit res" where
  "validate_complete_rollout_batch expected_questions expected_per_group is_padding ids =
     (let expected_rollouts = expected_questions * expected_per_group;
          genuine_rollouts = length (filter Not is_padding) in
      raise_if (length is_padding \<noteq> expected_rollouts \<or> genuine_rollouts \<noteq> expected_rollouts)
        (RuntimeError ''requires one genuine rollout per sampled trajectory'')
      (let groups = ordered_unique ids;
           bad_counts = filter (\<lambda>g. count_list ids g \<noteq> expected_per_group) groups in
       raise_if (length groups \<noteq> expected_questions \<or> bad_counts \<noteq> [])
         (RuntimeError ''requires prompt groups with the configured number of rollouts'')
       (Inr ())))"

section \<open>R2OPL-base\<close>

record base_batch_result =
  bb_correct_mask :: "bool mat"
  bb_error_mask :: "bool mat"
  bb_difficulty :: "real list"
  bb_correctness :: "bool list"
  bb_truncated :: "bool list"
  bb_probe_rescued :: "bool list"
  bb_group_success :: "real list"
  bb_metrics :: metrics

definition safe_mean :: "flt list \<Rightarrow> flt" where
  "safe_mean xs = (if xs = [] then Fin 0 else fmean xs)"

definition trajectory_means :: "flt mat \<Rightarrow> bool mat \<Rightarrow> bool list \<Rightarrow> flt list res" where
  "trajectory_means vals token_mask selected =
     (let counts = token_counts token_mask in
      if \<not> (\<exists>s \<in> set selected. s) then Inr []
      else raise_if (\<exists>(s, c) \<in> set (zip selected counts). s \<and> c = 0)
        (ValueError ''cannot reduce a selected trajectory with no response tokens'')
        (let totals = map fsum (rows (mmap2 fmul vals (mmap of_mask token_mask)));
             means = map2 (\<lambda>s c. fdiv_pos s (real (max c 1))) totals counts
         in Inr (vselect selected means)))"

definition base_metrics ::
  "bool list \<Rightarrow> bool list \<Rightarrow> bool list \<Rightarrow> bool list \<Rightarrow> real list \<Rightarrow> bool mat \<Rightarrow> bool mat
    \<Rightarrow> flt list \<Rightarrow> flt \<Rightarrow> flt \<Rightarrow> metrics" where
  "base_metrics genuine truncated rescued correctness group_success correct_mask error_mask means lambda miu =
     (let truncated_count = vcount (mask_and genuine truncated) in
      [(''r2opl_base/train/mean_score'', Fin (genuine_reward_mean genuine correctness)),
       (''r2opl_base/train/group_success_rate'', Fin (rmean group_success)),
       (''r2opl_base/train/prompt_difficulty_mean'', Fin (rmean (map (\<lambda>s. 1 - s) group_success))),
       (''r2opl_base/train/correct_trajectory_count'', count_flt (vcount correctness)),
       (''r2opl_base/train/error_trajectory_count'', count_flt (vcount (error_rows genuine correctness))),
       (''r2opl_base/train/correct_trajectory_ratio'', Fin (genuine_reward_mean genuine correctness)),
       (''r2opl_base/train/error_trajectory_ratio'',
          Fin (rmean (map (\<lambda>c. bool_real (\<not> c)) (vselect genuine correctness)))),
       (''r2opl_base/train/truncated_trajectory_count'', count_flt truncated_count),
       (''r2opl_base/train/response_truncated_ratio'', Fin (real truncated_count / real (vcount genuine))),
       (''r2opl_base/train/probe_rescued_trajectory_count'', count_flt (vcount rescued)),
       (''r2opl_base/train/probe_rescued_ratio'', Fin (rmean (map bool_real (vselect genuine rescued)))),
       (''r2opl_base/train/correct_advantage_mean'', means ! 0),
       (''r2opl_base/train/correct_raw_advantage_mean'', if mcount correct_mask > 0 then miu else Fin 0),
       (''r2opl_base/train/error_opd_advantage_mean'', means ! 1),
       (''r2opl_base/train/error_opd_abs_advantage_mean'', means ! 2),
       (''r2opl_base/train/error_raw_opd_mean'', means ! 3),
       (''r2opl_base/train/error_raw_opd_abs_mean'', means ! 4),
       (''r2opl_base/train/correct_token_count'', count_flt (mcount correct_mask)),
       (''r2opl_base/train/error_token_count'', count_flt (mcount error_mask)),
       (''r2opl_base/train/lambda'', lambda),
       (''r2opl_base/train/miu'', miu)])"

definition compute_r2opl_base_batch ::
  "flt mat \<Rightarrow> flt mat \<Rightarrow> bool mat \<Rightarrow> reward_tensor \<Rightarrow> 'g list \<Rightarrow> flt \<Rightarrow> flt
    \<Rightarrow> bool list option \<Rightarrow> bool list option \<Rightarrow> bool list option \<Rightarrow> base_batch_result res" where
  "compute_r2opl_base_batch old teacher response_mask verifier_rewards ids lambda miu
     truncated_opt probe_opt genuine_opt =
     raise_if (shape teacher \<noteq> shape old \<or> shape response_mask \<noteq> shape old)
       (ValueError ''log-probs and response mask must have identical shapes'')
     (raise_if (bad_coefficient lambda) (ValueError ''lambda must be finite and non-negative'')
     (raise_if (\<not> is_finite miu \<or> fle miu (Fin 0)) (ValueError ''miu must be finite and positive'')
     (raise_if (length ids \<noteq> height response_mask)
       (ValueError ''prompt_group_ids must have one entry per trajectory'')
     (ebind (check_batch_inputs response_mask verifier_rewards ids truncated_opt probe_opt genuine_opt)
       (\<lambda>(genuine, truncated, probe_correct, rewards).
      let genuine_tokens = mask_rows response_mask genuine in
      raise_if (\<exists>v \<in> set (mselect genuine_tokens old). \<not> is_finite v)
        (ValueError ''Student log-probabilities must be finite'')
      (raise_if (\<exists>v \<in> set (mselect genuine_tokens teacher). \<not> is_finite v)
        (ValueError ''Teacher log-probabilities must be finite'')
      (let rescued = probe_rescue truncated probe_correct rewards;
           correctness = rescued_correctness rewards rescued genuine;
           (difficulty, group_success) = group_difficulty ids genuine correctness in
       raise_if (group_success = [])
         (ValueError ''requires at least one genuine prompt group'')
       (let correct_mask = mask_rows response_mask correctness;
            error_trajectories = error_rows genuine correctness;
            error_mask = mask_rows response_mask error_trajectories;
            difference = mmap2 fsub teacher old;
            d = col_bcast (width response_mask) (map Fin difficulty);
            correct_scaled = mmap (\<lambda>x. fmul x miu) d;
            error_scaled = mmap2 fmul (mmap (\<lambda>x. fmul x lambda) d) difference in
        ebind (trajectory_means correct_scaled correct_mask correctness) (\<lambda>m0.
        ebind (trajectory_means error_scaled error_mask error_trajectories) (\<lambda>m1.
        ebind (trajectory_means (mmap fabs error_scaled) error_mask error_trajectories) (\<lambda>m2.
        ebind (trajectory_means difference error_mask error_trajectories) (\<lambda>m3.
        ebind (trajectory_means (mmap fabs difference) error_mask error_trajectories) (\<lambda>m4.
        Inr \<lparr>bb_correct_mask = correct_mask, bb_error_mask = error_mask,
             bb_difficulty = difficulty, bb_correctness = correctness,
             bb_truncated = mask_and truncated genuine, bb_probe_rescued = rescued,
             bb_group_success = group_success,
             bb_metrics = base_metrics genuine truncated rescued correctness group_success
               correct_mask error_mask (map safe_mean [m0, m1, m2, m3, m4]) lambda miu\<rparr>)))))))))))))"

text \<open>The reference kernel does not use the error mask it is given.\<close>

definition r2opl_base_token_advantage ::
  "flt mat \<Rightarrow> flt mat \<Rightarrow> bool mat \<Rightarrow> bool mat \<Rightarrow> flt mat \<Rightarrow> bool mat \<Rightarrow> flt \<Rightarrow> flt \<Rightarrow> flt mat" where
  "r2opl_base_token_advantage student teacher correct_mask error_mask difficulty response_mask lambda miu =
     (let correct_branch = mmap (\<lambda>d. fmul d miu) difficulty;
          error_branch = mmap2 fmul (mmap (\<lambda>d. fmul d lambda) difficulty) (mmap2 fsub teacher student);
          advantage = mmap2 (\<lambda>(m, c) e. if m then c else e) (mmap2 Pair correct_mask correct_branch) error_branch
      in mmap2 fmul advantage (mmap of_mask response_mask))"

definition r2opl_base_reinforce_loss :: "flt mat \<Rightarrow> flt mat \<Rightarrow> bool mat \<Rightarrow> flt" where
  "r2opl_base_reinforce_loss student advantage response_mask =
     seq_mean_token_mean (token_loss_mat student advantage response_mask) response_mask"

section \<open>The R2OPL controller batch\<close>

record controller_batch_result =
  ct_correctness :: "bool list"
  ct_difficulty :: "real list"
  ct_group_success :: "real list"
  ct_metrics :: metrics

definition compute_r2opl_controller_batch ::
  "bool mat \<Rightarrow> reward_tensor \<Rightarrow> 'g list \<Rightarrow> bool list option \<Rightarrow> controller_batch_result res" where
  "compute_r2opl_controller_batch response_mask verifier_rewards ids genuine_opt =
     (let batch_size = height response_mask in
      raise_if (length ids \<noteq> batch_size)
        (ValueError ''prompt_group_ids must have one entry per rollout'')
      (raise_if (bad_vector batch_size genuine_opt)
        (ValueError ''genuine_trajectory_mask must have one entry per rollout'')
      (ebind (sequence_rewards verifier_rewards batch_size) (\<lambda>rewards.
       let genuine = genuine_mask batch_size genuine_opt;
           counts = token_counts (mask_rows response_mask genuine) in
       raise_if (\<exists>i \<in> set [0..<batch_size]. genuine ! i \<and> counts ! i = 0)
         (ValueError ''cannot train a genuine rollout with no response tokens'')
       (raise_if (\<exists>r \<in> set (vselect genuine rewards). \<not> is_finite r)
         (ValueError ''verifier rewards must be finite'')
       (raise_if (\<exists>r \<in> set (vselect genuine rewards). \<not> is_binary r)
         (ValueError ''requires binary verifier rewards'')
       (let correctness = map2 (\<lambda>r g. feq r (Fin 1) \<and> g) rewards genuine;
            (difficulty, group_success) = group_difficulty ids genuine correctness in
        raise_if (group_success = [])
          (ValueError ''requires at least one genuine prompt group'')
        (Inr \<lparr>ct_correctness = correctness, ct_difficulty = difficulty, ct_group_success = group_success,
              ct_metrics = r2opl_batch_metrics genuine correctness group_success
                (mask_rows response_mask correctness)
                (mask_rows response_mask (error_rows genuine correctness))\<rparr>))))))))"

section \<open>OPDVR, GRPD and PG-OPD\<close>

fun apply_response_mask :: "bool mat option \<Rightarrow> flt mat \<Rightarrow> flt mat res" where
  "apply_response_mask None a = Inr a"
| "apply_response_mask (Some m) a =
     raise_if (shape m \<noteq> shape a) (ValueError ''response_mask must match the log-probability shape'')
       (Inr (mmap2 fmul a (mmap of_mask m)))"

definition opdvr_gated_advantage ::
  "flt mat \<Rightarrow> flt mat \<Rightarrow> bool list \<Rightarrow> bool mat option \<Rightarrow> flt mat res" where
  "opdvr_gated_advantage student teacher correct response_mask =
     raise_if (shape student \<noteq> shape teacher)
       (ValueError ''Student and Teacher log-probability shapes must match'')
     (let sampled_reverse_kl = mmap2 fsub student teacher in
      raise_if (length correct \<noteq> height sampled_reverse_kl)
        (ValueError ''correct must carry one flag per trajectory'')
      (apply_response_mask response_mask
        (mmap2 (\<lambda>c k. if c then fclamp_min 0 (fneg k) else fneg (fclamp_min 0 k))
           (col_bcast (width student) correct) sampled_reverse_kl)))"

definition opdvr_reinforce_loss :: "flt mat \<Rightarrow> flt mat \<Rightarrow> bool mat \<Rightarrow> flt res" where
  "opdvr_reinforce_loss student advantage response_mask =
     raise_if (shape advantage \<noteq> shape student)
       (ValueError ''advantage must match the student log-probability shape'')
     (Inr (seq_mean_token_mean (token_loss_mat student advantage response_mask) response_mask))"

definition opdvr_loss :: "flt mat \<Rightarrow> flt mat \<Rightarrow> bool list \<Rightarrow> bool mat \<Rightarrow> flt res" where
  "opdvr_loss student teacher correct response_mask =
     ebind (opdvr_gated_advantage student teacher correct (Some response_mask)) (\<lambda>advantage.
     opdvr_reinforce_loss student advantage response_mask)"

text \<open>The two dictionaries of \<open>grpd_group_advantage\<close>, filled in trajectory order.\<close>

fun group_totals :: "('g \<times> real) list \<Rightarrow> ('g \<times> real) list \<Rightarrow> ('g \<times> nat) list
    \<Rightarrow> ('g \<times> real) list \<times> ('g \<times> nat) list" where
  "group_totals [] totals counts = (totals, counts)"
| "group_totals ((key, v) # xs) totals counts =
     group_totals xs (dict_put key (dict_get_or 0 key totals + v) totals)
       (dict_put key (dict_get_or 0 key counts + 1) counts)"

definition grpd_group_advantage :: "real list \<Rightarrow> 'g list \<Rightarrow> real list res" where
  "grpd_group_advantage rewards group_ids =
     raise_if (length group_ids \<noteq> length rewards)
       (ValueError ''group_ids must match the trajectory count'')
     (let (totals, counts) = group_totals (zip group_ids rewards) [] [] in
      emap (\<lambda>i. case (dict_get (group_ids ! i) totals, dict_get (group_ids ! i) counts) of
                 (Some s, Some c) \<Rightarrow> Inr (rewards ! i - s / real c)
               | _ \<Rightarrow> Inl (KeyError ''group_ids'')) [0..<length rewards])"

definition signed_pg_opd_advantage :: "flt mat \<Rightarrow> flt mat \<Rightarrow> bool mat option \<Rightarrow> flt mat res" where
  "signed_pg_opd_advantage student teacher response_mask =
     raise_if (shape student \<noteq> shape teacher)
       (ValueError ''Student and Teacher log-probability shapes must match'')
     (apply_response_mask response_mask (mmap2 fsub teacher student))"

definition signed_pg_opd_loss :: "flt mat \<Rightarrow> flt mat \<Rightarrow> bool mat \<Rightarrow> flt res" where
  "signed_pg_opd_loss student teacher response_mask =
     ebind (signed_pg_opd_advantage student teacher (Some response_mask)) (\<lambda>advantage.
     Inr (seq_mean_token_mean (token_loss_mat student advantage response_mask) response_mask))"


section \<open>Lemmas\<close>

lemma length_optional_mask: "\<not> bad_vector n v \<Longrightarrow> length (optional_mask n v) = n"
  by (auto simp: bad_vector_def optional_mask_def split: option.splits)

lemma check_batch_inputs_Inr:
  assumes "check_batch_inputs rm v ids tr pr g = Inr (gen, t, p, rewards)"
  shows "gen = genuine_mask (height rm) g" "t = optional_mask (height rm) tr" "p = optional_mask (height rm) pr"
    "length gen = height rm" "length t = height rm" "length p = height rm" "length rewards = height rm"
    "sequence_rewards v (height rm) = Inr rewards"
    "i < height rm \<Longrightarrow> gen ! i \<Longrightarrow> rewards ! i = Fin 0 \<or> rewards ! i = Fin 1"
    "i < height rm \<Longrightarrow> gen ! i \<Longrightarrow> vcount (rows (mask_rows rm gen) ! i) \<noteq> 0"
proof -
  from assms have h: "\<not> bad_vector (height rm) g" "\<not> bad_vector (height rm) tr" "\<not> bad_vector (height rm) pr"
    and rw: "sequence_rewards v (height rm) = Inr rewards"
    and eq: "gen = genuine_mask (height rm) g" "t = optional_mask (height rm) tr" "p = optional_mask (height rm) pr"
    and fin: "\<forall>r \<in> set (vselect gen rewards). is_finite r" "\<forall>r \<in> set (vselect gen rewards). is_binary r"
    and cnt: "\<forall>i < height rm. gen ! i \<longrightarrow> token_counts (mask_rows rm gen) ! i \<noteq> 0"
    unfolding check_batch_inputs_def Let_def raise_if_Inr ebind_Inr by auto
  show eqs: "gen = genuine_mask (height rm) g" "t = optional_mask (height rm) tr" "p = optional_mask (height rm) pr"
    "sequence_rewards v (height rm) = Inr rewards" using eq rw by simp_all
  show len: "length gen = height rm" "length t = height rm" "length p = height rm" "length rewards = height rm"
    using h eq length_genuine_mask length_optional_mask sequence_rewards_Inr [OF rw] by simp_all
  show "rewards ! i = Fin 0 \<or> rewards ! i = Fin 1" if "i < height rm" "gen ! i"
  proof -
    have "rewards ! i \<in> set (vselect gen rewards)" using that len by (subst set_vselect) auto
    then have "is_finite (rewards ! i)" "is_binary (rewards ! i)" using fin by auto
    then show ?thesis by (auto simp: is_finite_iff is_binary_def)
  qed
  have "length (rows (mask_rows rm gen)) = height rm"
    using len by (simp add: mask_rows_def mmap2_def col_bcast_def height_def)
  then show "vcount (rows (mask_rows rm gen) ! i) \<noteq> 0" if "i < height rm" "gen ! i"
    using cnt that by (simp add: token_counts_def)
qed

lemma nth_rescue:
  "i < n \<Longrightarrow> length t = n \<Longrightarrow> length p = n \<Longrightarrow> length r = n \<Longrightarrow>
   probe_rescue t p r ! i = (t ! i \<and> p ! i \<and> \<not> feq (r ! i) (Fin 1))"
  by (simp add: probe_rescue_def)

lemma nth_rescued_correctness:
  "i < n \<Longrightarrow> length c = n \<Longrightarrow> length r = n \<Longrightarrow> length g = n \<Longrightarrow>
   rescued_correctness r c g ! i = ((feq (r ! i) (Fin 1) \<or> c ! i) \<and> g ! i)"
  by (simp add: rescued_correctness_def)

lemma length_rescue [simp]:
  "length (probe_rescue t p r) = min (min (length t) (length p)) (length r)"
  "length (rescued_correctness r c g) = min (min (length r) (length c)) (length g)"
  by (simp_all add: probe_rescue_def rescued_correctness_def)

lemma compute_correct_Inr:
  assumes "compute_correct_r2opl_batch rm v ids miu tr pr g = Inr R"
  obtains gen t p rewards cor where "length ids = height rm" "is_finite miu" "0 < fval miu"
    "check_batch_inputs rm v ids tr pr g = Inr (gen, t, p, rewards)"
    "cor = rescued_correctness rewards (probe_rescue t p rewards) gen"
    "cb_correctness R = cor" "cb_correct_mask R = mask_rows rm cor" "cb_probe_rescued R = probe_rescue t p rewards"
    "cb_difficulty R = fst (group_difficulty ids gen cor)" "snd (group_difficulty ids gen cor) \<noteq> []"
    "cb_metrics R = correct_r2opl_metrics rm gen t (probe_rescue t p rewards) cor
       (fst (group_difficulty ids gen cor)) (snd (group_difficulty ids gen cor)) (fval miu)"
proof -
  from assms obtain q where h: "length ids = height rm" "is_finite miu" "\<not> fle miu (Fin 0)"
    and c: "check_batch_inputs rm v ids tr pr g = Inr q"
    unfolding compute_correct_r2opl_batch_def raise_if_Inr ebind_Inr by blast
  obtain gen t p rewards where q: "q = (gen, t, p, rewards)" by (cases q)
  define cor where "cor = rescued_correctness rewards (probe_rescue t p rewards) gen"
  have R: "snd (group_difficulty ids gen cor) \<noteq> []" "R = \<lparr>cb_correct_mask = mask_rows rm cor, cb_difficulty = fst (group_difficulty ids gen cor),
            cb_correctness = cor, cb_truncated = mask_and t gen, cb_probe_rescued = probe_rescue t p rewards,
            cb_group_success = snd (group_difficulty ids gen cor),
            cb_metrics = correct_r2opl_metrics rm gen t (probe_rescue t p rewards) cor
              (fst (group_difficulty ids gen cor)) (snd (group_difficulty ids gen cor)) (fval miu)\<rparr>"
    using assms h c unfolding compute_correct_r2opl_batch_def q
    by (simp_all add: Let_def case_prod_unfold raise_if_Inr cor_def [symmetric])
  have "0 < fval miu" using h by (cases miu) auto
  then show ?thesis by (intro that [OF h(1,2) _ c [unfolded q] cor_def]) (simp_all add: R)
qed

section \<open>Properties\<close>

text \<open>
  C20: Probe rescue. In Correct-R2OPL a trajectory counts as correct exactly when it is genuine
  and either the verifier accepted it or it was truncated and its answer probe passed; the
  prompt difficulty is one minus the fraction of such trajectories in the group, so a rescue
  lowers the difficulty of the whole group.
\<close>

theorem correct_batch_outcomes:
  assumes "compute_correct_r2opl_batch rm v ids miu tr pr g = Inr R" "i < height rm"
    and "gen = genuine_mask (height rm) g"
  shows "(\<exists>rewards. sequence_rewards v (height rm) = Inr rewards \<and>
           (cb_correctness R ! i \<longleftrightarrow> gen ! i \<and>
              (rewards ! i = Fin 1 \<or> optional_mask (height rm) tr ! i \<and> optional_mask (height rm) pr ! i))) \<and>
         cb_difficulty R ! i =
           (if gen ! i
            then 1 - real (card {j. j < height rm \<and> ids ! j = ids ! i \<and> gen ! j \<and> cb_correctness R ! j})
                   / real (card {j. j < height rm \<and> ids ! j = ids ! i \<and> gen ! j})
            else 0)"
proof -
  obtain gen' t p rewards cor where h: "length ids = height rm"
    and c: "check_batch_inputs rm v ids tr pr g = Inr (gen', t, p, rewards)"
    and cor: "cor = rescued_correctness rewards (probe_rescue t p rewards) gen'"
    and R: "cb_correctness R = cor" "cb_difficulty R = fst (group_difficulty ids gen' cor)"
    by (rule compute_correct_Inr [OF assms(1)])
  note ci = check_batch_inputs_Inr [OF c]
  have gen: "gen' = gen" using ci(1) assms(3) by simp
  have "cor ! i \<longleftrightarrow> gen ! i \<and> (rewards ! i = Fin 1 \<or> t ! i \<and> p ! i)"
    using assms(2) ci(4-7) ci(9) [OF assms(2)] unfolding cor gen
    by (auto simp: nth_rescue nth_rescued_correctness)
  moreover have mem: "set (group_members ids gen x) = {j. j < height rm \<and> ids ! j = x \<and> gen ! j}"
    "{j \<in> set (group_members ids gen x). cor ! j} = {j. j < height rm \<and> ids ! j = x \<and> gen ! j \<and> cor ! j}" for x
    using h by (auto simp: set_group_members)
  ultimately show ?thesis
    unfolding R using ci(2,3,8) assms(2) h gen by (simp add: group_difficulty_nth success_rate_card mem)
qed

lemma correct_batch_outcomes_witness:
  "\<exists>R. compute_correct_r2opl_batch \<lparr>width = 1, rows = [[True], [True]]\<rparr> (Rew1 [Fin 0, Fin 0]) [''q'', ''q'']
         (Fin 16) (Some [True, False]) (Some [True, True]) None = Inr R \<and>
       cb_correctness R ! 0 \<and> \<not> cb_correctness R ! 1"
proof -
  let ?c = "compute_correct_r2opl_batch \<lparr>width = 1, rows = [[True], [True]]\<rparr> (Rew1 [Fin 0, Fin 0]) [''q'', ''q'']
         (Fin 16) (Some [True, False]) (Some [True, True]) None"
  have "case ?c of Inl e \<Rightarrow> False | Inr R \<Rightarrow> True" by code_simp
  then obtain R where R: "?c = Inr R" by (auto split: sum.splits)
  from correct_batch_outcomes [OF R _ refl, of 0] correct_batch_outcomes [OF R _ refl, of 1] R
  show ?thesis by (auto simp: height_def genuine_mask_def optional_mask_def)
qed


lemma vcount_card: "vcount bs = card {i. i < length bs \<and> bs ! i}"
  by (simp add: vcount_def length_filter_conv_card)

lemma sum_vselect:
  "length bs = length xs \<Longrightarrow> sum_list (map bool_real (vselect bs xs)) = real (card {i. i < length bs \<and> bs ! i \<and> xs ! i})"
proof -
  assume len: "length bs = length xs"
  then have "sum_list (map bool_real (vselect bs xs)) = real (vcount (map2 (\<and>) bs xs))"
    by (induction bs xs rule: list_induct2) (auto simp: bool_real_def)
  then show ?thesis using len by (simp add: vcount_card cong: conj_cong)
qed

text \<open>
  Rescue metrics. The reported number of probe-rescued trajectories is taken over every row
  of the physical batch, padding rows included, while the rescue ratio is taken over genuine
  rows only; so the two disagree as soon as a padding row carries a passing probe.
\<close>

theorem rescued_metrics:
  assumes "compute_correct_r2opl_batch rm v ids miu tr pr g = Inr R"
    and "sequence_rewards v (height rm) = Inr rewards" "gen = genuine_mask (height rm) g"
    and "rescued = {i. i < height rm \<and> optional_mask (height rm) tr ! i \<and> optional_mask (height rm) pr ! i \<and>
                       \<not> feq (rewards ! i) (Fin 1)}"
  shows "dict_get ''correct_r2opl/train/probe_rescued_trajectory_count'' (cb_metrics R) =
           Some (Fin (real (card rescued))) \<and>
         dict_get ''correct_r2opl/train/probe_rescued_ratio'' (cb_metrics R) =
           Some (Fin (real (card {i \<in> rescued. gen ! i}) / real (card {i. i < height rm \<and> gen ! i})))"
proof -
  obtain gen' t p rewards' cor where
    c: "check_batch_inputs rm v ids tr pr g = Inr (gen', t, p, rewards')"
    and M: "cb_metrics R = correct_r2opl_metrics rm gen' t (probe_rescue t p rewards') cor
       (fst (group_difficulty ids gen' cor)) (snd (group_difficulty ids gen' cor)) (fval miu)"
    by (rule compute_correct_Inr [OF assms(1)])
  note ci = check_batch_inputs_Inr [OF c]
  have eq: "gen' = gen" "rewards' = rewards" using ci(1,8) assms(2,3) by simp_all
  let ?b = "probe_rescue t p rewards"
  have lb: "length ?b = height rm" "length gen = height rm" using ci(4-7) eq by simp_all
  have nb: "?b ! i \<longleftrightarrow> i \<in> rescued" if "i < height rm" for i
    using that ci(2-7) eq by (simp add: nth_rescue assms(4))
  have "{i. i < height rm \<and> ?b ! i} = rescued"
    "{i. i < height rm \<and> gen ! i \<and> ?b ! i} = {i \<in> rescued. gen ! i}"
    using nb by (auto simp: assms(4))
  then have "vcount ?b = card rescued" "sum_list (map bool_real (vselect gen ?b)) = real (card {i \<in> rescued. gen ! i})"
    "length (vselect gen ?b) = card {i. i < height rm \<and> gen ! i}"
    using vcount_card [of ?b, unfolded lb] sum_vselect [of gen ?b, unfolded lb]
      length_vselect [of gen ?b, unfolded lb] vcount_card [of gen, unfolded lb] by simp_all
  then show ?thesis
    unfolding M eq by (simp add: correct_r2opl_metrics_def Let_def dict_get_def rmean_def count_flt_def)
qed

lemma rescued_metrics_witness:
  "\<exists>R. compute_correct_r2opl_batch \<lparr>width = 1, rows = [[True], [False]]\<rparr> (Rew1 [Fin 0, Fin 0]) [''q'', ''q'']
         (Fin 16) (Some [False, True]) (Some [False, True]) (Some [True, False]) = Inr R \<and>
       dict_get ''correct_r2opl/train/probe_rescued_trajectory_count'' (cb_metrics R) = Some (Fin 1) \<and>
       dict_get ''correct_r2opl/train/probe_rescued_ratio'' (cb_metrics R) = Some (Fin 0)"
proof -
  let ?c = "compute_correct_r2opl_batch \<lparr>width = 1, rows = [[True], [False]]\<rparr> (Rew1 [Fin 0, Fin 0]) [''q'', ''q'']
         (Fin 16) (Some [False, True]) (Some [False, True]) (Some [True, False])"
  have "case ?c of Inl e \<Rightarrow> False | Inr R \<Rightarrow> True" by code_simp
  then obtain R where R: "?c = Inr R" by (auto split: sum.splits)
  have rw: "sequence_rewards (Rew1 [Fin 0, Fin 0]) (height \<lparr>width = 1, rows = [[True], [False]]\<rparr>) = Inr [Fin 0, Fin 0]"
    by (simp add: height_def)
  have s: "{i. i < height \<lparr>width = 1, rows = [[True], [False]]\<rparr> \<and>
      optional_mask (height \<lparr>width = 1, rows = [[True], [False]]\<rparr>) (Some [False, True]) ! i \<and>
      optional_mask (height \<lparr>width = 1, rows = [[True], [False]]\<rparr>) (Some [False, True]) ! i \<and>
      \<not> feq ([Fin 0, Fin 0] ! i) (Fin 1)} = {1}"
    by (auto simp: height_def optional_mask_def less_Suc_eq)
  have e: "{i. i = Suc 0 \<and> [True, False] ! i} = {}" by auto
  from rescued_metrics [OF R rw refl refl, unfolded s] R show ?thesis
    by (simp add: genuine_mask_def e)
qed

lemma mat_eqI:
  assumes "wf_mat a" "wf_mat b" "shape a = shape b"
    and "\<And>i j. i < height a \<Longrightarrow> j < width a \<Longrightarrow> mget a i j = mget b i j"
  shows "(a :: 'a mat) = b"
proof -
  have H: "height a = height b" "width a = width b" using assms(3) by (simp_all add: shape_def)
  have "rows a = rows b"
  proof (rule nth_equalityI)
    fix i assume "i < length (rows a)"
    then have i: "i < height a" "i < height b" using H by (simp_all add: height_def)
    then show "rows a ! i = rows b ! i"
      using row_as_map [OF assms(1) i(1)] row_as_map [OF assms(2) i(2)] assms(4) H by simp
  qed (use H in \<open>simp add: height_def\<close>)
  then show ?thesis using H by simp
qed


lemma correct_advantage_entries:
  assumes wf: "wf_mat rm" and len: "length cor = height rm" "length d = height rm"
    and A: "correct_r2opl_token_advantage (mask_rows rm cor) (expand_difficulty d rm) rm (Fin miu) = Inr A"
  shows "wf_mat A" "shape A = shape rm"
    "i < height rm \<Longrightarrow> j < width rm \<Longrightarrow>
       mget A i j = Fin (if mget rm i j \<and> cor ! i then d ! i * miu else 0)"
proof -
  have "wf_mat (expand_difficulty d rm)" "height (expand_difficulty d rm) = height rm"
    "width (expand_difficulty d rm) = width rm"
    using wf len by (simp_all add: expand_difficulty_def mat_simps)
  note e = this
  have A': "A = mmap2 fmul (mmap2 fmul (mmap (\<lambda>x. fmul x (Fin miu)) (expand_difficulty d rm))
      (mmap of_mask (mask_rows rm cor))) (mmap of_mask rm)"
    using A by (simp add: correct_r2opl_token_advantage_def raise_if_Inr)
  show "wf_mat A" "shape A = shape rm" unfolding A' using wf len e by (simp_all add: mat_simps shape_iff)
  assume "i < height rm" "j < width rm"
  then show "mget A i j = Fin (if mget rm i j \<and> cor ! i then d ! i * miu else 0)"
    unfolding A' using wf len e by (simp add: mat_simps expand_difficulty_def of_mask_def)
qed

text \<open>
  Complete-batch normalisation. The loss built from a Correct-R2OPL batch averages over every
  physical trajectory: wrong and padding trajectories contribute exactly zero but stay in the
  denominator, and a correct trajectory contributes minus its difficulty times \<open>miu\<close> times
  the mean log-probability of its response tokens.
\<close>

theorem correct_loss_complete_batch:
  assumes "compute_correct_r2opl_batch rm v ids (Fin miu) tr pr g = Inr R"
    and "wf_mat S" "wf_mat rm" "shape rm = shape S"
    and "\<forall>i < height S. \<forall>j < width S. is_finite (mget S i j)"
    and "correct_r2opl_token_advantage (cb_correct_mask R) (expand_difficulty (cb_difficulty R) rm) rm (Fin miu) = Inr A"
  shows "correct_r2opl_reinforce_loss S A rm =
     Inr (Fin ((\<Sum>i \<leftarrow> [0..<height S]. if cb_correctness R ! i
            then - (cb_difficulty R ! i * miu * (\<Sum>j \<leftarrow> filter (mget rm i) [0..<width S]. fval (mget S i j))
                     / real (vcount (rows rm ! i)))
            else 0) / real (height S)))"
proof -
  obtain gen t p rewards cor where ids: "length ids = height rm"
    and c: "check_batch_inputs rm v ids tr pr g = Inr (gen, t, p, rewards)"
    and cor: "cor = rescued_correctness rewards (probe_rescue t p rewards) gen"
    and R: "cb_correctness R = cor" "cb_correct_mask R = mask_rows rm cor"
      "cb_difficulty R = fst (group_difficulty ids gen cor)" and ne: "snd (group_difficulty ids gen cor) \<noteq> []"
    by (rule compute_correct_Inr [OF assms(1)])
  note ci = check_batch_inputs_Inr [OF c]
  have lc: "length cor = height rm" using ci(4-7) by (simp add: cor)
  have H: "height rm = height S" "width rm = width S" using assms(4) by (simp_all add: shape_iff)
  let ?d = "fst (group_difficulty ids gen cor)"
  have ld: "length ?d = height rm" using ids by simp
  note A = correct_advantage_entries [OF assms(3) lc ld assms(6) [unfolded R]]
  have shA: "shape A = shape S" using A(2) assms(4) by simp
  have pos: "height S \<noteq> 0"
  proof
    assume "height S = 0"
    then have "ids = []" using ids H by simp
    then show False using ne by (simp add: group_difficulty_def ordered_groups_def ordered_unique_def)
  qed
  let ?row = "\<lambda>i. \<Sum>j \<leftarrow> filter (mget rm i) [0..<width S]. fval (mget S i j)"
  let ?t = "\<lambda>i. if cor ! i then - (?d ! i * miu * ?row i / real (vcount (rows rm ! i))) else 0"
  have "map2 (\<lambda>l m. fdiv_pos (fsum l) (max 1 (real (vcount m)))) (rows (token_loss_mat S A rm)) (rows rm) =
      map (\<lambda>i. Fin (?t i)) [0..<height S]" (is "?l = ?r")
  proof (rule nth_equalityI)
    have hL: "length (rows (token_loss_mat S A rm)) = height S"
      using token_loss_entries(2) [OF assms(2) A(1) assms(3) shA assms(4)] by (simp add: height_def)
    then show "length ?l = length ?r" using H by (simp add: height_def)
    fix i assume "i < length ?l"
    then have i: "i < height S" "i < length (rows rm)" using hL by simp_all
    have fin: "is_finite (mget S i j) \<and> is_finite (mget A i j)" if "j < width S" for j
      using assms(5) A(3) i(1) that H by simp
    have "fsum (rows (token_loss_mat S A rm) ! i) =
        Fin (- (\<Sum>j \<leftarrow> filter (mget rm i) [0..<width S]. fval (mget A i j) * fval (mget S i j)))"
      by (rule fsum_token_loss_row [OF assms(2) A(1) assms(3) shA assms(4) i(1) fin])
    also have "(\<Sum>j \<leftarrow> filter (mget rm i) [0..<width S]. fval (mget A i j) * fval (mget S i j)) =
        (\<Sum>j \<leftarrow> filter (mget rm i) [0..<width S]. (if cor ! i then ?d ! i * miu else 0) * fval (mget S i j))"
      using A(3) i(1) H by (intro arg_cong [where f = sum_list] map_cong refl) auto
    also have "\<dots> = (if cor ! i then ?d ! i * miu else 0) * ?row i" by (rule sum_list_const_mult)
    finally have f: "fsum (rows (token_loss_mat S A rm) ! i) = Fin (- ((if cor ! i then ?d ! i * miu else 0) * ?row i))" .
    have "vcount (rows rm ! i) \<noteq> 0" if "cor ! i"
    proof -
      have g: "gen ! i" using that i(1) H ci(4-7) by (simp add: cor nth_rescued_correctness)
      then have "vcount (rows (mask_rows rm gen) ! i) \<noteq> 0" using ci(10) i(1) H by simp
      moreover have "rows (mask_rows rm gen) ! i = map2 (\<and>) (rows rm ! i) (replicate (length (rows rm ! i)) (gen ! i))"
        using i H ci(4) assms(3) by (simp add: mask_rows_def mmap2_def col_bcast_def wf_mat_def height_def)
      ultimately show ?thesis by (simp add: vcount_and_replicate split: if_splits)
    qed
    then have "max 1 (real (vcount (rows rm ! i))) = real (vcount (rows rm ! i))" if "cor ! i"
      using that by (simp add: max_def)
    then show "?l ! i = ?r ! i" using i hL f by simp
  qed
  then have "correct_r2opl_reinforce_loss S A rm = Inr (fmean (map Fin (map ?t [0..<height S])))"
    using shA assms(4) by (simp add: correct_r2opl_reinforce_loss_def seq_mean_token_mean_def comp_def)
  also have "fmean (map Fin (map ?t [0..<height S])) = Fin (rmean (map ?t [0..<height S]))"
    using pos by (intro fmean_Fin) simp
  finally show ?thesis unfolding R by (simp add: rmean_def)
qed

lemma correct_loss_complete_batch_witness:
  "\<exists>R A. compute_correct_r2opl_batch \<lparr>width = 1, rows = [[True], [True]]\<rparr> (Rew1 [Fin 1, Fin 0]) [''q'', ''q'']
         (Fin 16) None None None = Inr R \<and>
       correct_r2opl_token_advantage (cb_correct_mask R)
         (expand_difficulty (cb_difficulty R) \<lparr>width = 1, rows = [[True], [True]]\<rparr>)
         \<lparr>width = 1, rows = [[True], [True]]\<rparr> (Fin 16) = Inr A \<and>
       correct_r2opl_reinforce_loss \<lparr>width = 1, rows = [[Fin (- 1)], [Fin (- 5)]]\<rparr> A
         \<lparr>width = 1, rows = [[True], [True]]\<rparr> = Inr (Fin 4)"
proof -
  let ?rm = "\<lparr>width = 1, rows = [[True], [True]]\<rparr>"
  let ?S = "\<lparr>width = 1, rows = [[Fin (- 1)], [Fin (- 5)]]\<rparr>"
  let ?c = "compute_correct_r2opl_batch ?rm (Rew1 [Fin 1, Fin 0]) [''q'', ''q''] (Fin 16) None None None"
  have "case ?c of Inl e \<Rightarrow> False | Inr R \<Rightarrow> cb_correctness R = [True, False] \<and> cb_difficulty R = [1/2, 1/2] \<and>
      (case correct_r2opl_token_advantage (cb_correct_mask R) (expand_difficulty (cb_difficulty R) ?rm) ?rm (Fin 16)
       of Inl e \<Rightarrow> False | Inr A \<Rightarrow> True)" by code_simp
  then obtain R A where R: "?c = Inr R" and c: "cb_correctness R = [True, False]" "cb_difficulty R = [1/2, 1/2]"
    and A: "correct_r2opl_token_advantage (cb_correct_mask R) (expand_difficulty (cb_difficulty R) ?rm) ?rm (Fin 16) = Inr A"
    by (auto split: sum.splits)
  have wf: "wf_mat ?S" "wf_mat ?rm" "shape ?rm = shape ?S" by (simp_all add: wf_mat_def shape_def height_def)
  have fin: "\<forall>i < height ?S. \<forall>j < width ?S. is_finite (mget ?S i j)" by code_simp
  from correct_loss_complete_batch [OF R wf fin A] show ?thesis
    using R A by (intro exI conjI) (auto simp: c height_def mget_def upt_rec)
qed

text \<open>
  Two implementations, one result. The trainer's controller kernel and the pure kernel of
  \<open>utils/r2opl.py\<close> accept the same batches and compute the same correctness, difficulty, group
  success rates and metrics, although they check their inputs in a different order.
\<close>

theorem controller_agrees_with_kernel:
  "(\<exists>C. compute_r2opl_controller_batch rm v ids g = Inr C) = (\<exists>R. compute_r2opl_batch rm v ids g = Inr R) \<and>
   (case (compute_r2opl_controller_batch rm v ids g, compute_r2opl_batch rm v ids g) of
      (Inr C, Inr R) \<Rightarrow> ct_correctness C = br_correctness R \<and> ct_difficulty C = br_difficulty R \<and>
        ct_group_success C = br_group_success R \<and> ct_metrics C = br_metrics R
    | _ \<Rightarrow> True)"
proof (cases "sequence_rewards v (height rm)")
  case (Inl e)
  then show ?thesis
    by (simp add: compute_r2opl_controller_batch_def compute_r2opl_batch_def Let_def raise_if_def)
next
  case (Inr rewards)
  then show ?thesis
    by (simp add: compute_r2opl_controller_batch_def compute_r2opl_batch_def Let_def raise_if_def
        r2opl_batch_of_def case_prod_unfold) auto
qed


lemma wf_apply_mask:
  assumes "wf_mat a" "apply_response_mask m a = Inr b"
    "case m of None \<Rightarrow> True | Some x \<Rightarrow> wf_mat x" "i < height a" "j < width a"
  shows "mget b i j = (case m of None \<Rightarrow> mget a i j | Some x \<Rightarrow> fmul (mget a i j) (of_mask (mget x i j)))"
  using assms by (cases m) (auto simp: raise_if_Inr mat_simps shape_iff)

text \<open>
  One objective, two kernels. With unit step multipliers the R2OPL advantage of a batch is
  exactly the R2OPL-base reference advantage: the base kernel, which ignores its error mask and
  applies the distillation branch to every token that is not correct, agrees on padding rows
  because their difficulty is zero.
\<close>

theorem unit_multiplier_advantage_is_base:
  assumes "wf_mat S" "wf_mat Te" "wf_mat rm" "shape Te = shape S" "shape rm = shape S"
    and "\<forall>i < height S. \<forall>j < width S. is_finite (mget S i j) \<and> is_finite (mget Te i j)"
    and "0 \<le> lambda" "0 < miu"
    and "compute_r2opl_batch rm v ids g = Inr R"
  shows "r2opl_token_advantage S Te (br_correct_mask R) (br_error_mask R)
           (Diff1 (map Fin (br_difficulty R))) rm None None (Fin lambda) (Fin miu) =
         Inr (r2opl_base_token_advantage S Te (br_correct_mask R) (br_error_mask R)
           (col_bcast (width S) (map Fin (br_difficulty R))) rm (Fin lambda) (Fin miu))"
proof -
  obtain rewards gen cor where h: "length ids = height rm" "length gen = height rm" "length rewards = height rm"
    and cor: "cor = map2 (\<lambda>r g. feq r (Fin 1) \<and> g) rewards gen" and R: "R = r2opl_batch_of rm ids gen cor"
    by (rule compute_r2opl_batch_Inr [OF assms(9)])
  let ?d = "fst (group_difficulty ids gen cor)"
  have H: "height rm = height S" "width rm = width S" "height Te = height S" "width Te = width S"
    using assms(4,5) by (simp_all add: shape_iff)
  have len: "length cor = height rm" "length (error_rows gen cor) = height rm"
    using h by (simp_all add: cor error_rows_def)
  have cg: "cor ! i \<Longrightarrow> gen ! i" if "i < height rm" for i using that h by (simp add: cor)
  have eg: "error_rows gen cor ! i \<longleftrightarrow> gen ! i \<and> \<not> cor ! i" if "i < height rm" for i
    using that h len by (simp add: error_rows_def)
  let ?one = "mtab (height S) (width S) (\<lambda>i j. Fin 1)"
  let ?C = "mask_rows rm cor" and ?E = "mask_rows rm (error_rows gen cor)"
  have one: "multiplier_or_one None (shape S) = multiplier_or_one (Some ?one) (shape S)"
    by (simp add: multiplier_or_one_def shape_def mat_simps)
  have m: "mget ?C i j = (mget rm i j \<and> cor ! i)" "mget ?E i j = (mget rm i j \<and> gen ! i \<and> \<not> cor ! i)"
    if "i < height S" "j < width S" for i j
    using that H len assms(3) eg by (simp_all add: mat_simps)
  have shp: "shape ?C = shape S" "shape ?E = shape S" "shape ?one = shape S"
    using len assms(5) by (simp_all add: mat_simps shape_def)
  obtain A where A: "r2opl_token_advantage S Te ?C ?E (Diff1 (map Fin ?d)) rm (Some ?one) (Some ?one) (Fin lambda) (Fin miu) = Inr A"
    and entry: "\<And>i j. i < height S \<Longrightarrow> j < width S \<Longrightarrow> mget A i j =
       fmul (if mget ?E i j then fmul (fmul (fmul (map Fin ?d ! i) (Fin lambda)) (fsub (mget Te i j) (mget S i j))) (mget ?one i j)
             else if mget ?C i j then fmul (fmul (map Fin ?d ! i) (Fin miu)) (mget ?one i j) else Fin 0)
         (of_mask (mget rm i j))" and AwS: "wf_mat A" "shape A = shape S"
    by (rule r2opl_token_advantage_entries [of S Te ?C ?E rm ?one ?one "map Fin ?d" "Fin lambda" "Fin miu"])
      (use assms shp h H m cg in \<open>auto simp: mat_simps\<close>)
  let ?B = "r2opl_base_token_advantage S Te ?C ?E (col_bcast (width S) (map Fin ?d)) rm (Fin lambda) (Fin miu)"
  have hw: "height ?C = height S" "width ?C = width S" using shp by (simp_all add: shape_iff)
  have "A = ?B"
  proof (rule mat_eqI)
    show "wf_mat ?B" "shape A = shape ?B"
      using assms(1-3) len H h hw AwS by (simp_all add: r2opl_base_token_advantage_def Let_def mat_simps shape_iff)
    fix i j assume "i < height A" "j < width A"
    then have ij: "i < height S" "j < width S" using AwS(2) by (simp_all add: shape_iff)
    have f: "is_finite (mget S i j)" "is_finite (mget Te i j)" using assms(6) ij by auto
    have d0: "?d ! i = 0" if "\<not> gen ! i" using that ij h H by (simp add: group_difficulty_nth)
    have "mget ?B i j = fmul (if mget ?C i j then fmul (map Fin ?d ! i) (Fin miu)
        else fmul (fmul (map Fin ?d ! i) (Fin lambda)) (fsub (mget Te i j) (mget S i j))) (of_mask (mget rm i j))"
      using assms(1-3) ij H h hw by (simp add: r2opl_base_token_advantage_def Let_def mat_simps)
    then have B: "mget ?B i j = fmul (if mget rm i j \<and> cor ! i then fmul (map Fin ?d ! i) (Fin miu)
        else fmul (fmul (map Fin ?d ! i) (Fin lambda)) (fsub (mget Te i j) (mget S i j))) (of_mask (mget rm i j))"
      by (simp only: m [OF ij])
    obtain a b where ab: "mget S i j = Fin a" "mget Te i j = Fin b" using f by (auto simp: is_finite_iff)
    have o: "mget ?one i j = Fin 1" using ij by (simp add: mat_simps)
    have dn: "map Fin ?d ! i = Fin (?d ! i)" using ij h H by simp
    have c: "cor ! i \<Longrightarrow> gen ! i" using cg ij H by simp
    show "mget A i j = mget ?B i j"
      unfolding entry [OF ij] B m [OF ij] o dn ab
      by (cases "mget rm i j"; cases "cor ! i"; cases "gen ! i") (simp_all add: c d0)
  qed (rule AwS)
  then show ?thesis using A unfolding R r2opl_batch_of_simps r2opl_token_advantage_def one by simp
qed

lemma unit_multiplier_advantage_is_base_witness:
  "\<exists>R. compute_r2opl_batch \<lparr>width = 1, rows = [[True], [True], [True]]\<rparr> (Rew1 [Fin 1, Fin 0, Fin 7])
         [''q'', ''q'', ''q''] (Some [True, True, False]) = Inr R \<and>
       isl (r2opl_token_advantage \<lparr>width = 1, rows = [[Fin (- 1)], [Fin (- 5)], [Fin (- 1)]]\<rparr>
         \<lparr>width = 1, rows = [[Fin (- 2)], [Fin (- 1)], [Fin (- 3)]]\<rparr> (br_correct_mask R) (br_error_mask R)
         (Diff1 (map Fin (br_difficulty R))) \<lparr>width = 1, rows = [[True], [True], [True]]\<rparr>
         None None (Fin (1/10)) (Fin 16)) = False"
proof -
  let ?rm = "\<lparr>width = 1, rows = [[True], [True], [True]]\<rparr>"
  let ?S = "\<lparr>width = 1, rows = [[Fin (- 1)], [Fin (- 5)], [Fin (- 1)]]\<rparr>"
  let ?Te = "\<lparr>width = 1, rows = [[Fin (- 2)], [Fin (- 1)], [Fin (- 3)]]\<rparr>"
  let ?c = "compute_r2opl_batch ?rm (Rew1 [Fin 1, Fin 0, Fin 7]) [''q'', ''q'', ''q''] (Some [True, True, False])"
  have "case ?c of Inl e \<Rightarrow> False | Inr R \<Rightarrow> True" by code_simp
  then obtain R where R: "?c = Inr R" by (auto split: sum.splits)
  have wf: "wf_mat ?S" "wf_mat ?Te" "wf_mat ?rm" "shape ?Te = shape ?S" "shape ?rm = shape ?S"
    by (simp_all add: wf_mat_def shape_def height_def)
  have fin: "\<forall>i < height ?S. \<forall>j < width ?S. is_finite (mget ?S i j) \<and> is_finite (mget ?Te i j)" by code_simp
  have "0 \<le> (1/10 :: real)" "0 < (16 :: real)" by simp_all
  from unit_multiplier_advantage_is_base [OF wf fin this R] R show ?thesis by auto
qed


text \<open>
  The OPDVR gate. A correct trajectory is only ever reinforced and a wrong one only ever
  discouraged: on response tokens the advantage is the positive part of teacher minus student
  for a correct trajectory, the negative part for a wrong one, and zero outside the response;
  so it is the signed PG-OPD advantage clipped to the sign the verifier's verdict allows.
\<close>

theorem opdvr_gate:
  assumes "wf_mat S" "wf_mat Te" "wf_mat rm"
    and "\<forall>i < height S. \<forall>j < width S. is_finite (mget S i j) \<and> is_finite (mget Te i j)"
    and "opdvr_gated_advantage S Te correct (Some rm) = Inr A"
    and "signed_pg_opd_advantage S Te (Some rm) = Inr B"
    and "i < height S" "j < width S"
  shows "\<exists>a b. mget A i j = Fin a \<and> mget B i j = Fin b \<and>
           b = (if mget rm i j then fval (mget Te i j) - fval (mget S i j) else 0) \<and>
           a = (if correct ! i then max 0 b else min 0 b)"
proof -
  from assms(5) have sh: "shape S = shape Te" "length correct = height (mmap2 fsub S Te)"
    and A: "apply_response_mask (Some rm) (mmap2 (\<lambda>c k. if c then fclamp_min 0 (fneg k) else fneg (fclamp_min 0 k))
           (col_bcast (width S) correct) (mmap2 fsub S Te)) = Inr A"
    unfolding opdvr_gated_advantage_def Let_def raise_if_Inr by auto
  from assms(6) have B: "apply_response_mask (Some rm) (mmap2 fsub Te S) = Inr B"
    unfolding signed_pg_opd_advantage_def raise_if_Inr by auto
  have H: "height Te = height S" "width Te = width S" "length correct = height S"
    using sh by (simp_all add: shape_iff mat_simps)
  obtain x y where xy: "mget S i j = Fin x" "mget Te i j = Fin y"
    using assms(4,7,8) is_finite_iff by meson
  let ?G = "mmap2 (\<lambda>c k. if c then fclamp_min 0 (fneg k) else fneg (fclamp_min 0 k))
           (col_bcast (width S) correct) (mmap2 fsub S Te)"
  have g: "height ?G = height S" "width ?G = width S" "wf_mat ?G" "wf_mat (mmap2 fsub Te S)"
    using assms(1,2) H by (simp_all add: mat_simps)
  have "mget ?G i j = Fin (if correct ! i then max 0 (y - x) else - max 0 (x - y))"
    using assms(1,2,7,8) H xy by (simp add: mat_simps)
  moreover have "mget (mmap2 fsub Te S) i j = Fin (y - x)"
    using assms(1,2,7,8) H xy by (simp add: mat_simps)
  ultimately show ?thesis
    using wf_apply_mask [OF g(3) A, of i j] wf_apply_mask [OF g(4) B, of i j] assms(3,7,8) g H xy
    by (auto simp: of_mask_def mat_simps)
qed

lemma opdvr_gate_witness:
  "\<exists>A B. opdvr_gated_advantage \<lparr>width = 1, rows = [[Fin (- 1)]]\<rparr> \<lparr>width = 1, rows = [[Fin (- 3)]]\<rparr> [True]
         (Some \<lparr>width = 1, rows = [[True]]\<rparr>) = Inr A \<and>
       signed_pg_opd_advantage \<lparr>width = 1, rows = [[Fin (- 1)]]\<rparr> \<lparr>width = 1, rows = [[Fin (- 3)]]\<rparr>
         (Some \<lparr>width = 1, rows = [[True]]\<rparr>) = Inr B \<and> mget A 0 0 = Fin 0 \<and> mget B 0 0 = Fin (- 2)"
proof -
  let ?S = "\<lparr>width = 1, rows = [[Fin (- 1)]]\<rparr>" and ?Te = "\<lparr>width = 1, rows = [[Fin (- 3)]]\<rparr>"
  let ?m = "\<lparr>width = 1, rows = [[True]]\<rparr>"
  have "\<not> isl (opdvr_gated_advantage ?S ?Te [True] (Some ?m))" "\<not> isl (signed_pg_opd_advantage ?S ?Te (Some ?m))"
    by code_simp+
  then obtain A B where AB: "opdvr_gated_advantage ?S ?Te [True] (Some ?m) = Inr A"
    "signed_pg_opd_advantage ?S ?Te (Some ?m) = Inr B" by (metis isl_def sum.exhaust)
  have wf: "wf_mat ?S" "wf_mat ?Te" "wf_mat ?m" by (simp_all add: wf_mat_def)
  have fin: "\<forall>i < height ?S. \<forall>j < width ?S. is_finite (mget ?S i j) \<and> is_finite (mget ?Te i j)" by code_simp
  from opdvr_gate [OF wf fin AB, of 0 0] AB show ?thesis by (auto simp: height_def mget_def)
qed

lemma group_totals_get:
  "group_totals xs s c = (s', c') \<Longrightarrow>
     dict_get_or 0 k s' = dict_get_or 0 k s + sum_list (map snd (filter (\<lambda>p. fst p = k) xs)) \<and>
     dict_get_or 0 k c' = dict_get_or 0 k c + length (filter (\<lambda>p. fst p = k) xs) \<and>
     (dict_get k s' \<noteq> None \<longleftrightarrow> dict_get k s \<noteq> None \<or> k \<in> fst ` set xs) \<and>
     (dict_get k c' \<noteq> None \<longleftrightarrow> dict_get k c \<noteq> None \<or> k \<in> fst ` set xs)"
proof (induction xs s c rule: group_totals.induct)
  case (2 key v xs totals counts)
  then have "group_totals xs (dict_put key (dict_get_or 0 key totals + v) totals)
      (dict_put key (dict_get_or 0 key counts + 1) counts) = (s', c')" by simp
  from "2.IH" [OF this] show ?case by auto
qed simp

lemma sum_list_filter_zip:
  "length ids = length rs \<Longrightarrow>
   sum_list (map snd (filter (\<lambda>p. fst p = k) (zip ids rs))) = (\<Sum>j | j < length ids \<and> ids ! j = k. rs ! j) \<and>
   length (filter (\<lambda>p. fst p = k) (zip ids rs)) = card {j. j < length ids \<and> ids ! j = k}"
proof -
  assume len: "length ids = length rs"
  let ?z = "zip ids rs"
  have "sum_list (map snd (filter (\<lambda>p. fst p = k) ?z)) = sum_list (map (\<lambda>p. if fst p = k then snd p else 0) ?z)"
    by (rule sum_list_map_filter')
  also have "\<dots> = (\<Sum>j = 0..<length ids. if ids ! j = k then rs ! j else 0)"
    using len unfolding sum_list_sum_nth by (auto intro!: sum.cong)
  also have "\<dots> = (\<Sum>j \<in> {j \<in> {0..<length ids}. ids ! j = k}. rs ! j)"
    by (rule sum.inter_filter [symmetric]) simp
  finally have "sum_list (map snd (filter (\<lambda>p. fst p = k) ?z)) = (\<Sum>j | j < length ids \<and> ids ! j = k. rs ! j)"
    by simp
  moreover have "length (filter (\<lambda>p. fst p = k) ?z) = card {j. j < length ids \<and> ids ! j = k}"
    using len unfolding length_filter_conv_card by (intro arg_cong [where f = card]) auto
  ultimately show ?thesis ..
qed

text \<open>
  The Dr.GRPO group advantage. The call succeeds whenever there is one group id per reward;
  the advantage of a trajectory is its reward minus the mean reward of the trajectories that
  share its group id, and the advantages of every group sum to zero.
\<close>

theorem grpd_zero_sum:
  assumes "length ids = length rewards"
  shows "\<exists>A. grpd_group_advantage rewards ids = Inr A \<and> length A = length rewards \<and>
     (\<forall>i < length rewards. A ! i = rewards ! i -
        (\<Sum>j | j < length rewards \<and> ids ! j = ids ! i. rewards ! j) /
          real (card {j. j < length rewards \<and> ids ! j = ids ! i})) \<and>
     (\<forall>k. (\<Sum>j | j < length rewards \<and> ids ! j = k. A ! j) = 0)"
proof -
  let ?n = "length rewards"
  let ?m = "\<lambda>k. (\<Sum>j | j < ?n \<and> ids ! j = k. rewards ! j) / real (card {j. j < ?n \<and> ids ! j = k})"
  obtain s c where sc: "group_totals (zip ids rewards) [] [] = (s, c)" by fastforce
  note g = group_totals_get [OF sc]
  have get: "dict_get (ids ! i) s = Some (\<Sum>j | j < ?n \<and> ids ! j = ids ! i. rewards ! j) \<and>
      dict_get (ids ! i) c = Some (card {j. j < ?n \<and> ids ! j = ids ! i})" if "i < ?n" for i
  proof -
    have "(ids ! i, rewards ! i) \<in> set (zip ids rewards)" using that assms by (auto simp: set_zip)
    then have "ids ! i \<in> fst ` set (zip ids rewards)" by force
    then show ?thesis
      using g [of "ids ! i"] sum_list_filter_zip [OF assms, of "ids ! i"] assms
      by (auto simp: dict_get_or_def dict_get_def)
  qed
  let ?A = "map (\<lambda>i. rewards ! i - ?m (ids ! i)) [0..<?n]"
  have "grpd_group_advantage rewards ids = Inr ?A"
    unfolding grpd_group_advantage_def sc using assms
    by (simp add: raise_if_def) (rule emap_all_Inr, simp add: get)
  moreover have "(\<Sum>j | j < ?n \<and> ids ! j = k. ?A ! j) = 0" for k
  proof -
    let ?S = "{j. j < ?n \<and> ids ! j = k}"
    have "(\<Sum>j \<in> ?S. ?A ! j) = (\<Sum>j \<in> ?S. rewards ! j - ?m k)" by (intro sum.cong) auto
    also have "\<dots> = (\<Sum>j \<in> ?S. rewards ! j) - real (card ?S) * ?m k" by (simp add: sum_subtractf)
    also have "\<dots> = 0"
    proof (cases "?S = {}")
      case True
      then show ?thesis by (simp only: True) simp
    qed (simp add: card_eq_0_iff)
    finally show ?thesis .
  qed
  ultimately show ?thesis by (intro exI [of _ ?A]) simp
qed

lemma grpd_zero_sum_witness:
  "\<exists>A. grpd_group_advantage [1, 0, 1] [''a'', ''a'', ''b''] = Inr A \<and>
     (\<Sum>j | j < 3 \<and> [''a'', ''a'', ''b''] ! j = ''a''. A ! j) = 0"
  using grpd_zero_sum [of "[''a'', ''a'', ''b'']" "[1, 0, 1]"] by (auto simp: eval_nat_numeral)

end
