(* ===== verification/Probe_Metrics.thy ===== *)
theory Probe_Metrics
  imports Batches
begin

text \<open>
  \<open>r2opl_probe_metrics\<close> of \<open>utils/r2opl.py\<close>: the numerators and denominators the actor
  reducer sums over micro-batches before the trainer forms conditional means.
\<close>

section \<open>Definitions\<close>

definition masked_sum :: "flt mat \<Rightarrow> bool mat \<Rightarrow> flt" where
  "masked_sum vals sel = (let selected = mselect sel vals in if selected = [] then Fin 0 else fsum selected)"

definition metric_key :: "string \<Rightarrow> string \<Rightarrow> string" where
  "metric_key prefix name = prefix @ ''/'' @ name"

definition add_masked_statistics ::
  "string \<Rightarrow> string \<Rightarrow> flt mat \<Rightarrow> bool mat \<Rightarrow> metrics \<Rightarrow> metrics" where
  "add_masked_statistics prefix name vals sel d =
     dict_put (metric_key prefix (name @ ''_count'')) (count_flt (mcount sel))
       (dict_put (metric_key prefix (name @ ''_sum'')) (masked_sum vals sel) d)"

definition mat_and :: "bool mat \<Rightarrow> bool mat \<Rightarrow> bool mat" where
  "mat_and a b = mmap2 (\<and>) a b"

text \<open>The row and token selections the statistics are taken over.\<close>

record metric_masks =
  mk_branch :: "bool mat"
  mk_step :: "bool mat"
  mk_probe :: "bool mat"
  mk_last :: "bool mat"
  mk_standard :: "bool mat"
  mk_response :: "bool mat"

definition metric_masks_of :: "token_modulation \<Rightarrow> bool mat \<Rightarrow> bool list \<Rightarrow> metric_masks" where
  "metric_masks_of m response_mask sel =
     \<lparr>mk_branch = mask_rows (tm_probe_branch_mask m) sel,
      mk_step = mask_rows (tm_probed_step_mask m) sel,
      mk_probe = mask_rows (mat_and (tm_probed_token_mask m) response_mask) sel,
      mk_last = mask_rows (mat_and (tm_last_step_token_mask m) response_mask) sel,
      mk_standard = mask_rows (mat_and response_mask (mmap Not (tm_probed_token_mask m))) sel,
      mk_response = mask_rows response_mask sel\<rparr>"

definition modulation_shapes_bad :: "token_modulation \<Rightarrow> bool mat \<Rightarrow> bool" where
  "modulation_shapes_bad m response_mask =
     (shape (tm_correct_token_multiplier m) \<noteq> shape response_mask \<or>
      shape (tm_error_token_multiplier m) \<noteq> shape response_mask \<or>
      shape (tm_probed_token_mask m) \<noteq> shape response_mask \<or>
      shape (tm_last_step_token_mask m) \<noteq> shape response_mask)"

definition step_shapes_bad :: "token_modulation \<Rightarrow> bool" where
  "step_shapes_bad m =
     (let step_shape = shape (tm_semantic_step_mask m) in
      shape (tm_probed_step_mask m) \<noteq> step_shape \<or> shape (tm_probe_delta_prob m) \<noteq> step_shape \<or>
      shape (tm_correct_step_gate m) \<noteq> step_shape \<or> shape (tm_error_step_gate m) \<noteq> step_shape)"

definition base_probe_metrics ::
  "string \<Rightarrow> metric_masks \<Rightarrow> metric_masks \<Rightarrow> flt \<Rightarrow> flt \<Rightarrow> flt \<Rightarrow> flt \<Rightarrow> flt \<Rightarrow> metrics" where
  "base_probe_metrics prefix c e alpha_r alpha_d epsilon lambda miu =
     [(metric_key prefix ''correct_probe_branch_count'', count_flt (mcount (mk_branch c))),
      (metric_key prefix ''error_probe_branch_count'', count_flt (mcount (mk_branch e))),
      (metric_key prefix ''correct_probe_step_count'', count_flt (mcount (mk_step c))),
      (metric_key prefix ''error_probe_step_count'', count_flt (mcount (mk_step e))),
      (metric_key prefix ''correct_probe_token_count'', count_flt (mcount (mk_probe c))),
      (metric_key prefix ''error_probe_token_count'', count_flt (mcount (mk_probe e))),
      (metric_key prefix ''correct_last_step_standard_token_count'', count_flt (mcount (mk_last c))),
      (metric_key prefix ''error_last_step_standard_token_count'', count_flt (mcount (mk_last e))),
      (metric_key prefix ''correct_standard_token_count'', count_flt (mcount (mk_standard c))),
      (metric_key prefix ''error_standard_token_count'', count_flt (mcount (mk_standard e))),
      (metric_key prefix ''correct_response_token_count'', count_flt (mcount (mk_response c))),
      (metric_key prefix ''error_response_token_count'', count_flt (mcount (mk_response e))),
      (metric_key prefix ''alpha_r'', alpha_r), (metric_key prefix ''alpha_d'', alpha_d),
      (metric_key prefix ''epsilon'', epsilon), (metric_key prefix ''lambda'', lambda),
      (metric_key prefix ''miu'', miu)]"

text \<open>A batch of \<open>add_masked_statistics\<close> calls, in program order.\<close>

definition add_all_statistics ::
  "string \<Rightarrow> (string \<times> flt mat \<times> bool mat) list \<Rightarrow> metrics \<Rightarrow> metrics" where
  "add_all_statistics prefix calls d =
     fold (\<lambda>(name, vals, sel). add_masked_statistics prefix name vals sel) calls d"

definition probe_statistics ::
  "token_modulation \<Rightarrow> metric_masks \<Rightarrow> metric_masks \<Rightarrow> (string \<times> flt mat \<times> bool mat) list" where
  "probe_statistics m c e =
     [(''correct_probe_probability'', tm_probe_probabilities m, mk_branch c),
      (''error_probe_probability'', tm_probe_probabilities m, mk_branch e),
      (''correct_probe_delta_prob'', mmap Fin (tm_probe_delta_prob m), mk_step c),
      (''error_probe_delta_prob'', mmap Fin (tm_probe_delta_prob m), mk_step e),
      (''correct_alpha_r_gate'', mmap Fin (tm_correct_step_gate m), mk_step c),
      (''error_alpha_r_gate'', mmap Fin (tm_correct_step_gate m), mk_step e),
      (''correct_alpha_d_gate'', mmap Fin (tm_error_step_gate m), mk_step c),
      (''error_alpha_d_gate'', mmap Fin (tm_error_step_gate m), mk_step e),
      (''correct_probe_modulation'', mmap Fin (tm_correct_token_multiplier m), mk_probe c),
      (''error_probe_modulation'', mmap Fin (tm_error_token_multiplier m), mk_probe e),
      (''correct_last_step_multiplier'', mmap Fin (tm_correct_token_multiplier m), mk_last c),
      (''error_last_step_multiplier'', mmap Fin (tm_error_token_multiplier m), mk_last e)]"

definition advantage_statistics ::
  "flt mat \<Rightarrow> metric_masks \<Rightarrow> metric_masks \<Rightarrow> (string \<times> flt mat \<times> bool mat) list" where
  "advantage_statistics a c e =
     [(''correct_advantage'', a, mk_response c),
      (''correct_advantage_abs'', mmap fabs a, mk_response c),
      (''error_opd_advantage'', a, mk_response e),
      (''error_opd_advantage_abs'', mmap fabs a, mk_response e),
      (''correct_last_step_rl_advantage'', a, mk_last c),
      (''error_last_step_opd_advantage'', a, mk_last e)]"

definition raw_opd_statistics ::
  "flt mat \<Rightarrow> metric_masks \<Rightarrow> metric_masks \<Rightarrow> (string \<times> flt mat \<times> bool mat) list" where
  "raw_opd_statistics raw c e =
     [(''correct_raw_opd'', raw, mk_response c),
      (''error_raw_opd'', raw, mk_response e),
      (''error_raw_opd_abs'', mmap fabs raw, mk_response e)]"

definition add_raw_opd ::
  "string \<Rightarrow> bool mat \<Rightarrow> flt mat option \<Rightarrow> flt mat option \<Rightarrow> metric_masks \<Rightarrow> metric_masks \<Rightarrow> metrics \<Rightarrow> metrics res" where
  "add_raw_opd prefix response_mask student teacher c e d =
     (case (student, teacher) of
        (None, None) \<Rightarrow> Inr d
      | (Some s, Some t) \<Rightarrow>
          raise_if (shape s \<noteq> shape response_mask \<or> shape t \<noteq> shape response_mask)
            (ValueError ''raw OPD log-probabilities must match response_mask'')
            (Inr (add_all_statistics prefix (raw_opd_statistics (mmap2 fsub t s) c e) d))
      | _ \<Rightarrow> Inl (ValueError ''raw OPD diagnostics require both Student and Teacher''))"

definition r2opl_probe_metrics ::
  "token_modulation \<Rightarrow> bool list \<Rightarrow> bool mat \<Rightarrow> bool list option \<Rightarrow> flt mat option \<Rightarrow> flt mat option
    \<Rightarrow> flt mat option \<Rightarrow> flt \<Rightarrow> flt \<Rightarrow> flt \<Rightarrow> flt \<Rightarrow> flt \<Rightarrow> string \<Rightarrow> metrics res" where
  "r2opl_probe_metrics m correctness response_mask genuine_opt token_advantage student teacher
     alpha_r alpha_d epsilon lambda miu prefix =
     ebind (validate_hyperparameters (Some lambda) (Some miu) (Some alpha_r) (Some alpha_d) (Some epsilon)) (\<lambda>_.
     let batch_size = height response_mask in
     raise_if (length correctness \<noteq> batch_size) (ValueError ''correctness must have one value per trajectory'')
     (raise_if (bad_vector batch_size genuine_opt)
       (ValueError ''genuine_trajectory_mask must have one value per trajectory'')
     (raise_if (modulation_shapes_bad m response_mask)
       (ValueError ''modulation token fields must match response_mask'')
     (raise_if (step_shapes_bad m) (ValueError ''modulation step fields must share shape [batch, steps]'')
     (raise_if (height (tm_semantic_step_mask m) \<noteq> batch_size \<or> height (tm_probe_branch_mask m) \<noteq> batch_size)
       (ValueError ''modulation fields must share the response batch size'')
     (let genuine = genuine_mask batch_size genuine_opt;
          c = metric_masks_of m response_mask (mask_and genuine correctness);
          e = metric_masks_of m response_mask (error_rows genuine correctness);
          d = add_all_statistics prefix (probe_statistics m c e)
                (base_probe_metrics prefix c e alpha_r alpha_d epsilon lambda miu) in
      case token_advantage of
        None \<Rightarrow> add_raw_opd prefix response_mask student teacher c e d
      | Some a \<Rightarrow>
          raise_if (shape a \<noteq> shape response_mask) (ValueError ''token_advantage must match response_mask'')
          (add_raw_opd prefix response_mask student teacher c e
             (add_all_statistics prefix (advantage_statistics a c e) d))))))))"

section \<open>Lemmas\<close>

lemma metric_key_inj [simp]: "metric_key p a = metric_key p b \<longleftrightarrow> a = b"
  by (simp add: metric_key_def)

lemma get_add_masked [simp]:
  "dict_get k (add_masked_statistics p n v m d) =
     (if k = metric_key p (n @ ''_count'') then Some (count_flt (mcount m))
      else if k = metric_key p (n @ ''_sum'') then Some (masked_sum v m) else dict_get k d)"
  by (simp add: add_masked_statistics_def)

lemma add_all_Nil [simp]: "add_all_statistics p [] d = d"
  by (simp add: add_all_statistics_def)

lemma add_all_Cons [simp]:
  "add_all_statistics p ((n, v, m) # cs) d = add_all_statistics p cs (add_masked_statistics p n v m d)"
  by (simp add: add_all_statistics_def)

text \<open>A key no call writes keeps its value.\<close>

lemma get_add_all:
  "(\<And>n v m. (n, v, m) \<in> set cs \<Longrightarrow> k \<noteq> metric_key p (n @ ''_count'') \<and> k \<noteq> metric_key p (n @ ''_sum''))
   \<Longrightarrow> dict_get k (add_all_statistics p cs d) = dict_get k d"
proof (induction cs arbitrary: d)
  case (Cons c cs)
  obtain n v m where c: "c = (n, v, m)" by (cases c)
  have "dict_get k (add_all_statistics p cs (add_masked_statistics p n v m d)) =
      dict_get k (add_masked_statistics p n v m d)"
    using Cons.prems by (intro Cons.IH) auto
  then show ?case using Cons.prems [of n v m] by (simp add: c)
qed simp


text \<open>The keys written by the optional parts.\<close>

definition optional_names :: "string list" where
  "optional_names = [''correct_advantage'', ''correct_advantage_abs'', ''error_opd_advantage'',
     ''error_opd_advantage_abs'', ''correct_last_step_rl_advantage'', ''error_last_step_opd_advantage'',
     ''correct_raw_opd'', ''error_raw_opd'', ''error_raw_opd_abs'']"

lemma r2opl_probe_metrics_Inr:
  assumes "r2opl_probe_metrics m cor rm g a s t ar ad ep la mi prefix = Inr D"
  obtains gen c e where "gen = genuine_mask (height rm) g" "length gen = height rm" "length cor = height rm"
    "\<not> modulation_shapes_bad m rm" "\<not> step_shapes_bad m"
    "c = metric_masks_of m rm (mask_and gen cor)" "e = metric_masks_of m rm (error_rows gen cor)"
    "\<forall>k. (\<forall>n \<in> set optional_names. k \<noteq> metric_key prefix (n @ ''_count'') \<and> k \<noteq> metric_key prefix (n @ ''_sum''))
       \<longrightarrow> dict_get k D = dict_get k (add_all_statistics prefix (probe_statistics m c e)
             (base_probe_metrics prefix c e ar ad ep la mi))"
proof -
  let ?g = "genuine_mask (height rm) g"
  let ?c = "metric_masks_of m rm (mask_and ?g cor)" and ?e = "metric_masks_of m rm (error_rows ?g cor)"
  let ?d = "add_all_statistics prefix (probe_statistics m ?c ?e) (base_probe_metrics prefix ?c ?e ar ad ep la mi)"
  from assms have h: "length cor = height rm" "\<not> bad_vector (height rm) g" "\<not> modulation_shapes_bad m rm" "\<not> step_shapes_bad m"
    and D: "(case a of None \<Rightarrow> add_raw_opd prefix rm s t ?c ?e ?d
      | Some a \<Rightarrow> raise_if (shape a \<noteq> shape rm) (ValueError ''token_advantage must match response_mask'')
          (add_raw_opd prefix rm s t ?c ?e (add_all_statistics prefix (advantage_statistics a ?c ?e) ?d))) = Inr D"
    unfolding r2opl_probe_metrics_def Let_def raise_if_Inr ebind_Inr by auto
  have raw: "dict_get k x' = dict_get k x"
    if "add_raw_opd prefix rm s t ?c ?e x = Inr x'"
      "\<forall>n \<in> set optional_names. k \<noteq> metric_key prefix (n @ ''_count'') \<and> k \<noteq> metric_key prefix (n @ ''_sum'')" for x x' k
  proof -
    note ar = that(1)
    consider "x' = x" | u v where "x' = add_all_statistics prefix (raw_opd_statistics (mmap2 fsub u v) ?c ?e) x"
      using ar by (auto simp: add_raw_opd_def raise_if_Inr split: option.splits)
    then show ?thesis
    proof cases
      case 2
      show ?thesis unfolding 2 by (rule get_add_all) (use that(2) in \<open>auto simp: raw_opd_statistics_def optional_names_def\<close>)
    qed simp
  qed
  have adv: "dict_get k (add_all_statistics prefix (advantage_statistics b ?c ?e) x) = dict_get k x"
    if "\<forall>n \<in> set optional_names. k \<noteq> metric_key prefix (n @ ''_count'') \<and> k \<noteq> metric_key prefix (n @ ''_sum'')" for k b x
    by (rule get_add_all) (use that in \<open>auto simp: advantage_statistics_def optional_names_def\<close>)
  have "dict_get k D = dict_get k ?d"
    if "\<forall>n \<in> set optional_names. k \<noteq> metric_key prefix (n @ ''_count'') \<and> k \<noteq> metric_key prefix (n @ ''_sum'')" for k
    using D raw [OF _ that] adv [OF that] by (cases a) (auto simp: raise_if_Inr)
  then show ?thesis using h length_genuine_mask [OF h(2)] by (intro that [OF refl _ h(1,3,4) refl refl]) auto
qed

lemma length_concat_vselect:
  "length xs = length ys \<Longrightarrow> \<forall>(x, y) \<in> set (zip xs ys). length x = length y \<Longrightarrow>
   length (concat (map2 vselect xs ys)) = sum_list (map vcount xs)"
  by (induction xs ys rule: list_induct2) (auto simp: length_vselect)

lemma mselect_ones:
  assumes "wf_mat b" "wf_mat m" "shape b = shape m"
    and "\<And>i j. i < height m \<Longrightarrow> j < width m \<Longrightarrow> mget b i j \<Longrightarrow> mget m i j = Fin 1"
  shows "masked_sum m b = count_flt (mcount b)"
proof -
  have "\<forall>x \<in> set (mselect b m). x = Fin 1"
    using list_all_mselect [OF assms(1-3), of "\<lambda>x. x = Fin 1"] assms(4) by blast
  then have "mselect b m = replicate (length (mselect b m)) (Fin 1)"
    by (metis replicate_length_same)
  moreover have "length (mselect b m) = mcount b"
  proof -
    have "length (rows b) = length (rows m)" using assms(3) by (simp add: shape_def height_def)
    moreover have "\<forall>(x, y) \<in> set (zip (rows b) (rows m)). length x = length y"
      using assms(1-3) by (auto simp: wf_mat_def shape_def dest!: set_zip_leftD set_zip_rightD elim!: in_set_zipE)
    ultimately show ?thesis
      unfolding mselect_def mcount_def by (rule length_concat_vselect)
  qed
  ultimately have "mselect b m = replicate (mcount b) (Fin 1)" by simp
  moreover have "fsum (replicate n (Fin 1)) = Fin (real n)" for n by (induction n) simp_all
  ultimately show ?thesis by (simp add: masked_sum_def Let_def count_flt_def)
qed


section \<open>Properties\<close>

lemma modulation_mask_shapes:
  assumes "wf_mat pp" "wf_mat rm" "wf_mat sr" "compute_r2opl_token_modulation pp rm sr sm bm ar ad ep = Inr T"
  shows "wf_mat (tm_probed_token_mask T)" "wf_mat (tm_last_step_token_mask T)"
    "wf_mat (tm_correct_token_multiplier T)" "wf_mat (tm_error_token_multiplier T)"
    "shape (tm_probed_token_mask T) = shape rm" "shape (tm_last_step_token_mask T) = shape rm"
    "shape (tm_correct_token_multiplier T) = shape rm" "shape (tm_error_token_multiplier T) = shape rm"
proof -
  obtain c marks stm where ok: "modulation_inputs_ok pp rm sr c"
    and T: "T = modulate pp (width rm) sr stm c
       (prefix_of_counts (width pp) (map (\<lambda>n. if n \<ge> 2 then n else 0) c)) (fval ar) (fval ad) (fval ep) marks"
    and marks: "emap (\<lambda>i. mark_row (width rm) (rows rm ! i) (c ! i) (rows sr ! i)) [0..<height rm] = Inr marks"
    by (rule modulation_Inr [OF assms])
  have lc: "length c = height rm" using ok by (simp add: modulation_inputs_ok_def)
  note ms = modulate_multiplier_shape [OF lc T]
  show "wf_mat (tm_correct_token_multiplier T)" "wf_mat (tm_error_token_multiplier T)"
    "shape (tm_correct_token_multiplier T) = shape rm" "shape (tm_error_token_multiplier T) = shape rm"
    using ms by (simp_all add: shape_def)
  have len: "length marks = height rm" using emap_Inr_length [OF marks] by simp
  have "length (fst (marks ! i)) = width rm \<and> length (snd (marks ! i)) = width rm" if "i < height rm" for i
  proof (cases "width rm")
    case 0
    obtain P L where PL: "marks ! i = (P, L)" by fastforce
    have "mark_steps mrow n k prev rs acc = Inr (P', L') \<Longrightarrow> length P' = length (fst acc) \<and> length L' = length (snd acc)"
      for mrow n k prev rs acc P' L'
      by (induction mrow n k prev rs acc rule: mark_steps.induct) (auto simp: raise_if_Inr split: if_splits)
    from this [of "rows rm ! i" "c ! i" 0 0] show ?thesis
      using emap_Inr_nth [OF marks, of i] that PL by (fastforce simp: mark_row_def)
  next
    case (Suc w)
    obtain P L where PL: "marks ! i = (P, L)" by fastforce
    show ?thesis
      using emap_Inr_nth [OF marks, of i] that PL Suc
        mark_steps_entries [of "rows rm ! i" "c ! i" 0 0 "take (c ! i) (rows sr ! i)" "replicate (width rm) False"
          "replicate (width rm) False" P L 0] by (simp add: mark_row_def)
  qed
  then have "\<forall>x \<in> set marks. length (fst x) = width rm \<and> length (snd x) = width rm"
    using len by (metis in_set_conv_nth)
  then show "wf_mat (tm_probed_token_mask T)" "wf_mat (tm_last_step_token_mask T)"
    "shape (tm_probed_token_mask T) = shape rm" "shape (tm_last_step_token_mask T) = shape rm"
    using len by (simp_all add: T modulate_simps wf_mat_def shape_def height_def)
qed


lemma mat_and_simps:
  assumes "wf_mat a" "wf_mat b" "shape a = shape b"
  shows "wf_mat (mat_and a b)" "shape (mat_and a b) = shape b" "height (mat_and a b) = height b"
    "i < height b \<Longrightarrow> j < width b \<Longrightarrow> mget (mat_and a b) i j = (mget a i j \<and> mget b i j)"
  using assms by (simp_all add: mat_and_def mat_simps shape_iff)

text \<open>
  Terminal tokens are audited as unmodulated. For a modulation computed on the same response
  mask, the reported sum of multipliers over last-step tokens equals the reported number of
  those tokens, for correct and for wrong trajectories: every terminal multiplier is exactly 1.
\<close>

theorem last_step_audit:
  assumes "wf_mat pp" "wf_mat rm" "wf_mat sr"
    and "compute_r2opl_token_modulation pp rm sr sm bm ar ad ep = Inr T"
    and "r2opl_probe_metrics T cor rm g a s t ar' ad' ep' la mi prefix = Inr D"
  shows "\<exists>c e. dict_get (metric_key prefix ''correct_last_step_multiplier_sum'') D = Some (count_flt c) \<and>
               dict_get (metric_key prefix ''correct_last_step_multiplier_count'') D = Some (count_flt c) \<and>
               dict_get (metric_key prefix ''error_last_step_multiplier_sum'') D = Some (count_flt e) \<and>
               dict_get (metric_key prefix ''error_last_step_multiplier_count'') D = Some (count_flt e)"
proof -
  obtain gen c e where gen: "length gen = height rm" "length cor = height rm"
    and c: "c = metric_masks_of T rm (mask_and gen cor)" and e: "e = metric_masks_of T rm (error_rows gen cor)"
    and D: "\<forall>k. (\<forall>n \<in> set optional_names. k \<noteq> metric_key prefix (n @ ''_count'') \<and> k \<noteq> metric_key prefix (n @ ''_sum''))
       \<longrightarrow> dict_get k D = dict_get k (add_all_statistics prefix (probe_statistics T c e)
             (base_probe_metrics prefix c e ar' ad' ep' la mi))"
    by (rule r2opl_probe_metrics_Inr [OF assms(5)])
  note sh = modulation_mask_shapes [OF assms(1-4)]
  note ml = mat_and_simps [OF sh(2) assms(2) sh(6)]
  have sum: "masked_sum (mmap Fin (tm_correct_token_multiplier T)) (mask_rows (mat_and (tm_last_step_token_mask T) rm) sel) =
      count_flt (mcount (mask_rows (mat_and (tm_last_step_token_mask T) rm) sel)) \<and>
    masked_sum (mmap Fin (tm_error_token_multiplier T)) (mask_rows (mat_and (tm_last_step_token_mask T) rm) sel) =
      count_flt (mcount (mask_rows (mat_and (tm_last_step_token_mask T) rm) sel))"
    if "length sel = height rm" for sel
    using sh ml that last_step_multipliers [OF assms(1-4)]
    by (auto intro!: mselect_ones simp: mat_simps shape_iff)
  have "length (mask_and gen cor) = height rm" "length (error_rows gen cor) = height rm"
    using gen by (simp_all add: mask_and_def error_rows_def)
  then have "masked_sum (mmap Fin (tm_correct_token_multiplier T)) (mk_last c) = count_flt (mcount (mk_last c))"
    "masked_sum (mmap Fin (tm_error_token_multiplier T)) (mk_last e) = count_flt (mcount (mk_last e))"
    using sum by (simp_all add: c e metric_masks_of_def)
  then show ?thesis
    by (intro exI conjI; subst D [THEN spec, THEN mp]) (simp_all add: optional_names_def probe_statistics_def)
qed

lemma last_step_audit_witness:
  "\<exists>T D. compute_r2opl_token_modulation \<lparr>width = 2, rows = [[Fin 0, Fin 1]]\<rparr> \<lparr>width = 2, rows = [[True, True]]\<rparr>
          \<lparr>width = 2, rows = [[(0, 1), (1, 2)]]\<rparr> None None (Fin 1) (Fin 1) (Fin 1) = Inr T \<and>
        r2opl_probe_metrics T [True] \<lparr>width = 2, rows = [[True, True]]\<rparr> None None None None
          (Fin 1) (Fin 1) (Fin 1) (Fin 1) (Fin 1) ''p'' = Inr D \<and>
        dict_get ''p/correct_last_step_multiplier_sum'' D = dict_get ''p/correct_last_step_multiplier_count'' D"
proof -
  let ?pp = "\<lparr>width = 2, rows = [[Fin 0, Fin 1]]\<rparr>" and ?rm = "\<lparr>width = 2, rows = [[True, True]]\<rparr>"
  let ?sr = "\<lparr>width = 2, rows = [[(0::int, 1::int), (1, 2)]]\<rparr>"
  have "case compute_r2opl_token_modulation ?pp ?rm ?sr None None (Fin 1) (Fin 1) (Fin 1) of Inl e \<Rightarrow> False
    | Inr T \<Rightarrow> \<not> isl (r2opl_probe_metrics T [True] ?rm None None None None (Fin 1) (Fin 1) (Fin 1) (Fin 1) (Fin 1) ''p'')"
    by code_simp
  then obtain T D where T: "compute_r2opl_token_modulation ?pp ?rm ?sr None None (Fin 1) (Fin 1) (Fin 1) = Inr T"
    and D: "r2opl_probe_metrics T [True] ?rm None None None None (Fin 1) (Fin 1) (Fin 1) (Fin 1) (Fin 1) ''p'' = Inr D"
    by (auto split: sum.splits simp: isl_def) (metis sum.exhaust)
  have wf: "wf_mat ?pp" "wf_mat ?rm" "wf_mat ?sr" by (simp_all add: wf_mat_def)
  from last_step_audit [OF wf T D] T D show ?thesis by (auto simp: metric_key_def)
qed

lemma mcount_split:
  assumes "wf_mat m" "wf_mat rm" "shape m = shape rm" "length sel = height rm"
  shows "mcount (mask_rows (mat_and m rm) sel) + mcount (mask_rows (mat_and rm (mmap Not m)) sel) =
     mcount (mask_rows rm sel)"
proof -
  have H: "height m = height rm" "width m = width rm" using assms(3) by (simp_all add: shape_iff)
  have wf: "wf_mat (mat_and m rm)" "wf_mat (mat_and rm (mmap Not m))"
    "height (mat_and m rm) = height rm" "height (mat_and rm (mmap Not m)) = height rm"
    using assms H by (simp_all add: mat_and_def mat_simps)
  have row: "vcount (map2 (\<and>) x y) + vcount (map2 (\<and>) y (map Not x)) = vcount y" if "length x = length y" for x y
    using that by (induction x y rule: list_induct2) auto
  have "vcount (rows (mat_and m rm) ! i) + vcount (rows (mat_and rm (mmap Not m)) ! i) = vcount (rows rm ! i)"
    if i: "i < height rm" for i
  proof -
    have "length (rows m ! i) = length (rows rm ! i)"
      using assms(1,2) i H by (simp add: wf_mat_def height_def)
    from row [OF this] show ?thesis using i H by (simp add: mat_and_def mmap2_def mmap_def height_def)
  qed
  then show ?thesis
    using assms(4) wf by (simp add: mcount_mask_rows assms(2) sum.distrib [symmetric]) (intro sum.cong, auto)
qed

text \<open>
  Token counts add up. For correct and for wrong trajectories alike, the reported numbers of
  probed and of standard response tokens add up to the reported number of response tokens.
\<close>

theorem token_counts_add_up:
  assumes "wf_mat pp" "wf_mat rm" "wf_mat sr"
    and "compute_r2opl_token_modulation pp rm sr sm bm ar ad ep = Inr T"
    and "r2opl_probe_metrics T cor rm g a s t ar' ad' ep' la mi prefix = Inr D"
    and "outcome = ''correct'' \<or> outcome = ''error''"
  shows "\<exists>p q. dict_get (metric_key prefix (outcome @ ''_probe_token_count'')) D = Some (count_flt p) \<and>
               dict_get (metric_key prefix (outcome @ ''_standard_token_count'')) D = Some (count_flt q) \<and>
               dict_get (metric_key prefix (outcome @ ''_response_token_count'')) D = Some (count_flt (p + q))"
proof -
  obtain gen c e where gen: "length gen = height rm" "length cor = height rm"
    and c: "c = metric_masks_of T rm (mask_and gen cor)" and e: "e = metric_masks_of T rm (error_rows gen cor)"
    and D: "\<forall>k. (\<forall>n \<in> set optional_names. k \<noteq> metric_key prefix (n @ ''_count'') \<and> k \<noteq> metric_key prefix (n @ ''_sum''))
       \<longrightarrow> dict_get k D = dict_get k (add_all_statistics prefix (probe_statistics T c e)
             (base_probe_metrics prefix c e ar' ad' ep' la mi))"
    by (rule r2opl_probe_metrics_Inr [OF assms(5)])
  note sh = modulation_mask_shapes [OF assms(1-4)]
  have "length (mask_and gen cor) = height rm" "length (error_rows gen cor) = height rm"
    using gen by (simp_all add: mask_and_def error_rows_def)
  then have "mcount (mk_probe c) + mcount (mk_standard c) = mcount (mk_response c)"
    "mcount (mk_probe e) + mcount (mk_standard e) = mcount (mk_response e)"
    using mcount_split [OF sh(1) assms(2) sh(5)] by (simp_all add: c e metric_masks_of_def)
  note adds = this
  note get = D [THEN spec, THEN mp]
  show ?thesis using assms(6)
  proof
    assume o: "outcome = ''correct''"
    show ?thesis unfolding o
      by (rule exI [of _ "mcount (mk_probe c)"], rule exI [of _ "mcount (mk_standard c)"], intro conjI; subst get)
        (simp_all add: adds optional_names_def probe_statistics_def base_probe_metrics_def dict_get_def [of _ "_ # _"])
  next
    assume o: "outcome = ''error''"
    show ?thesis unfolding o
      by (rule exI [of _ "mcount (mk_probe e)"], rule exI [of _ "mcount (mk_standard e)"], intro conjI; subst get)
        (simp_all add: adds optional_names_def probe_statistics_def base_probe_metrics_def dict_get_def [of _ "_ # _"])
  qed
qed


lemma token_counts_add_up_witness:
  "\<exists>T D. compute_r2opl_token_modulation \<lparr>width = 2, rows = [[Fin 0, Fin 1]]\<rparr> \<lparr>width = 3, rows = [[True, True, True]]\<rparr>
          \<lparr>width = 2, rows = [[(0, 1), (1, 2)]]\<rparr> None None (Fin 1) (Fin 1) (Fin 1) = Inr T \<and>
        r2opl_probe_metrics T [True] \<lparr>width = 3, rows = [[True, True, True]]\<rparr> None None None None
          (Fin 1) (Fin 1) (Fin 1) (Fin 1) (Fin 1) ''p'' = Inr D \<and>
        (\<exists>p q. dict_get ''p/correct_probe_token_count'' D = Some (count_flt p) \<and>
               dict_get ''p/correct_standard_token_count'' D = Some (count_flt q) \<and>
               dict_get ''p/correct_response_token_count'' D = Some (count_flt (p + q)))"
proof -
  let ?pp = "\<lparr>width = 2, rows = [[Fin 0, Fin 1]]\<rparr>" and ?rm = "\<lparr>width = 3, rows = [[True, True, True]]\<rparr>"
  let ?sr = "\<lparr>width = 2, rows = [[(0::int, 1::int), (1, 2)]]\<rparr>"
  have "case compute_r2opl_token_modulation ?pp ?rm ?sr None None (Fin 1) (Fin 1) (Fin 1) of Inl e \<Rightarrow> False
    | Inr T \<Rightarrow> \<not> isl (r2opl_probe_metrics T [True] ?rm None None None None (Fin 1) (Fin 1) (Fin 1) (Fin 1) (Fin 1) ''p'')"
    by code_simp
  then obtain T D where T: "compute_r2opl_token_modulation ?pp ?rm ?sr None None (Fin 1) (Fin 1) (Fin 1) = Inr T"
    and D: "r2opl_probe_metrics T [True] ?rm None None None None (Fin 1) (Fin 1) (Fin 1) (Fin 1) (Fin 1) ''p'' = Inr D"
    by (auto split: sum.splits simp: isl_def) (metis sum.exhaust)
  have wf: "wf_mat ?pp" "wf_mat ?rm" "wf_mat ?sr" by (simp_all add: wf_mat_def)
  from token_counts_add_up [OF wf T D, of "''correct''"] T D show ?thesis by (auto simp: metric_key_def)
qed

end
