(* ===== verification/Policy_Loss.thy ===== *)
theory Policy_Loss
  imports Probe_Metrics
begin

text \<open>
  The loss side of \<open>verl\<close> the R2OPL actor runs through: \<open>no_padding_2_padding\<close>
  (\<open>verl/workers/utils/padding.py\<close>), the masked reductions of \<open>verl/utils/torch_functional.py\<close>,
  and, from \<open>verl/trainer/ppo/core_algos.py\<close>, \<open>agg_loss\<close>, the KL estimators, the PPO and
  REINFORCE policy losses, the value loss and the registry they are looked up in.

  Tensors passed to one elementwise operation have one shape here: the callers pad all of
  them to \<open>[bsz, max_response_len]\<close>, and broadcasting between other shapes is not modelled.
\<close>

section \<open>More float operations\<close>

text \<open>Division by a finite number, zero included.\<close>

fun fdiv_real :: "flt \<Rightarrow> real \<Rightarrow> flt" where
  "fdiv_real (Fin x) c = (if c = 0 then finf x else Fin (x / c))"
| "fdiv_real PInf c = (if c < 0 then MInf else PInf)"
| "fdiv_real MInf c = (if c < 0 then PInf else MInf)"
| "fdiv_real NaN c = NaN"

text \<open>\<open>torch.clamp(x, lo, hi)\<close>: the lower bound first, then the upper one; NaN stays NaN.\<close>

fun fclamp :: "real \<Rightarrow> real \<Rightarrow> flt \<Rightarrow> flt" where
  "fclamp lo hi (Fin x) = Fin (min (max x lo) hi)"
| "fclamp lo hi PInf = Fin hi"
| "fclamp lo hi MInf = Fin (min lo hi)"
| "fclamp lo hi NaN = NaN"

fun fexp :: "flt \<Rightarrow> flt" where
  "fexp (Fin x) = Fin (exp x)"
| "fexp PInf = PInf"
| "fexp MInf = Fin 0"
| "fexp NaN = NaN"

text \<open>\<open>torch.maximum\<close> and \<open>torch.min\<close> propagate NaN.\<close>

definition fmax :: "flt \<Rightarrow> flt \<Rightarrow> flt" where
  "fmax x y = (if x = NaN \<or> y = NaN then NaN else if fless x y then y else x)"

definition fmin :: "flt \<Rightarrow> flt \<Rightarrow> flt" where
  "fmin x y = (if x = NaN \<or> y = NaN then NaN else if fless y x then y else x)"

definition fsquare :: "flt \<Rightarrow> flt" where
  "fsquare x = fmul x x"

text \<open>Addition with NaN absorbing is a commutative monoid, so library sums apply to it.\<close>

instantiation flt :: comm_monoid_add
begin

definition zero_flt :: flt where
  "zero_flt = Fin 0"

definition plus_flt :: "flt \<Rightarrow> flt \<Rightarrow> flt" where
  "plus_flt x y = fadd x y"

instance
proof
  fix a b c :: flt
  show "a + b + c = a + (b + c)" by (cases a; cases b; cases c) (simp_all add: plus_flt_def)
  show "a + b = b + a" by (cases a; cases b) (simp_all add: plus_flt_def)
  show "0 + a = a" by (cases a) (simp_all add: plus_flt_def zero_flt_def)
qed

end

lemma fsum_sum_list: "fsum xs = sum_list xs"
  by (induction xs) (simp_all add: plus_flt_def zero_flt_def)

lemma Fin_zero_plus [simp]: "Fin 0 + x = (x :: flt)"
  using add_0_left [of x] by (simp add: zero_flt_def)

lemma fmul_add_Fin: "c > 0 \<Longrightarrow> fmul (x + y) (Fin c) = fmul x (Fin c) + fmul y (Fin c)"
  by (cases x; cases y) (simp_all add: plus_flt_def finf_def algebra_simps)

lemma fmul_sum_list: "c > 0 \<Longrightarrow> fmul (sum_list xs) (Fin c) = sum_list (map (\<lambda>x. fmul x (Fin c)) xs)"
  by (induction xs) (simp_all add: fmul_add_Fin, simp add: zero_flt_def)

lemma fmul_sum_map:
  "c > 0 \<Longrightarrow> sum_list (map (\<lambda>x. fmul (f x) (Fin c)) xs) = fmul (sum_list (map f xs)) (Fin c)"
  by (simp add: fmul_sum_list comp_def)

text \<open>Scaling by a positive factor composes.\<close>

lemma fdiv_as_mul: "n > 0 \<Longrightarrow> fdiv_real x n = fmul x (Fin (1 / n))"
  by (cases x) (simp_all add: finf_def)

lemma fmul_fmul_Fin: "c > 0 \<Longrightarrow> d > 0 \<Longrightarrow> fmul (fmul x (Fin c)) (Fin d) = fmul x (Fin (c * d))"
  by (cases x) (simp_all add: finf_def not_less)

lemma fmul_Fin_Fin [simp]: "fmul (Fin x) (Fin y) = Fin (x * y)"
  by simp

section \<open>Unpadding the model output\<close>

text \<open>
  The token ids of a batch, either as jagged (nested) rows or padded to fixed prompt and
  response widths with an attention mask. Only their lengths matter to the slicing.
\<close>

datatype padding_batch =
    Nested_Batch "nat list list" "nat list list"
  | Padded_Batch nat nat "bool mat"

fun prompt_response_lens :: "padding_batch \<Rightarrow> int \<Rightarrow> (nat list \<times> nat list \<times> int) res" where
  "prompt_response_lens (Nested_Batch prompts responses) max_response_len =
     (let response_lens = map length responses in
      if max_response_len < 0
      then raise_if (responses = []) (RuntimeError ''max of an empty tensor'')
             (Inr (map length prompts, response_lens, int (foldr max response_lens 0)))
      else Inr (map length prompts, response_lens, max_response_len))"
| "prompt_response_lens (Padded_Batch prompt_width response_width attention_mask) _ =
     Inr (map (\<lambda>r. vcount (take prompt_width r)) (rows attention_mask),
          map (\<lambda>r. vcount (drop prompt_width r)) (rows attention_mask), int response_width)"

fun cumsum_from :: "nat \<Rightarrow> nat list \<Rightarrow> nat list" where
  "cumsum_from s [] = []"
| "cumsum_from s (n # ns) = (s + n) # cumsum_from (s + n) ns"

text \<open>\<open>F.pad(row, (0, pad_size))\<close>: a negative padding crops.\<close>

definition pad_output_row :: "int \<Rightarrow> flt list \<Rightarrow> flt list" where
  "pad_output_row pad_size row =
     (if pad_size < 0 then take (length row - nat (- pad_size)) row
      else row @ replicate (nat pad_size) (Fin 0))"

definition no_padding_2_padding :: "flt list \<Rightarrow> padding_batch \<Rightarrow> int \<Rightarrow> flt mat res" where
  "no_padding_2_padding values data max_len =
     ebind (prompt_response_lens data max_len) (\<lambda>(prompt_lens, response_lens, max_response_len).
     let sequence_offsets = cumsum_from 0 (map2 (+) prompt_lens response_lens) in
     raise_if (sequence_offsets = []) (IndexError ''sequence_offsets[-1]'')
     (raise_if (last sequence_offsets \<noteq> length values) (AssertionError ''total tokens'')
     (raise_if (0 \<in> set prompt_lens) (AssertionError ''assumes prompt_len > 0'')
     (Inr \<lparr>width = nat max_response_len,
          rows = map2 (\<lambda>resp_len seq_offset.
              pad_output_row (max_response_len - int resp_len)
                (py_slice (int seq_offset - int resp_len - 1) (int seq_offset - 1) values))
            response_lens sequence_offsets\<rparr>))))"

section \<open>Masked reductions\<close>

text \<open>Values outside the mask are replaced by zero, so they cannot poison the sum.\<close>

definition tensor_masked_sum :: "flt mat \<Rightarrow> bool mat \<Rightarrow> flt" where
  "tensor_masked_sum vals sel =
     (let valid_values = mmap2 (\<lambda>b v. if b then v else Fin 0) sel vals in
      fsum (concat (rows (mmap2 fmul valid_values (mmap of_mask sel)))))"

definition vector_masked_sum :: "flt list \<Rightarrow> bool list \<Rightarrow> flt" where
  "vector_masked_sum vals sel =
     fsum (map2 fmul (map2 (\<lambda>b v. if b then v else Fin 0) sel vals) (map of_mask sel))"

definition tensor_masked_mean :: "flt mat \<Rightarrow> bool mat \<Rightarrow> flt" where
  "tensor_masked_mean vals sel =
     fdiv_real (tensor_masked_sum vals sel) (real (mcount sel) + 1 / 10 ^ 8)"

section \<open>Loss aggregation\<close>

record agg_info =
  ai_dp_size :: nat
  ai_batch_num_tokens :: "nat option"
  ai_global_batch_size :: "nat option"
  ai_loss_scale_factor :: "int option"

definition global_count :: "nat \<Rightarrow> nat option \<Rightarrow> string \<Rightarrow> nat \<Rightarrow> nat res" where
  "global_count dp_size given name fallback =
     (case given of Some n \<Rightarrow> Inr n
      | None \<Rightarrow> raise_if (dp_size > 1) (ValueError name) (Inr fallback))"

text \<open>The common tail of the three sequence modes: the mean over the global batch.\<close>

definition sequence_mean :: "flt list \<Rightarrow> bool list \<Rightarrow> agg_info \<Rightarrow> flt res" where
  "sequence_mean seq_losses seq_mask g =
     ebind (global_count (ai_dp_size g) (ai_global_batch_size g) ''global_batch_size is required'' (vcount seq_mask))
       (\<lambda>n. Inr (fmul (fdiv_real (vector_masked_sum seq_losses seq_mask) (real n)) (Fin (real (ai_dp_size g)))))"

definition masked_row_sums :: "flt mat \<Rightarrow> bool mat \<Rightarrow> flt list" where
  "masked_row_sums loss_mat loss_mask = map fsum (rows (mmap2 fmul loss_mat (mmap of_mask loss_mask)))"

definition active_rows :: "bool mat \<Rightarrow> bool list" where
  "active_rows loss_mask = map (\<lambda>r. vcount r > 0) (rows loss_mask)"

definition agg_loss :: "flt mat \<Rightarrow> bool mat \<Rightarrow> string \<Rightarrow> agg_info \<Rightarrow> flt res" where
  "agg_loss loss_mat loss_mask mode g =
     (let dp = Fin (real (ai_dp_size g)) in
      if mode = ''token-mean'' then
        ebind (global_count (ai_dp_size g) (ai_batch_num_tokens g) ''batch_num_tokens is required'' (mcount loss_mask))
          (\<lambda>n. Inr (fmul (fdiv_real (tensor_masked_sum loss_mat loss_mask) (real n)) dp))
      else if mode = ''token-sum'' then Inr (fmul (tensor_masked_sum loss_mat loss_mask) dp)
      else if mode \<in> {''seq-mean-token-sum'', ''seq-mean-token-sum-norm''} then
        ebind (sequence_mean (masked_row_sums loss_mat loss_mask) (active_rows loss_mask) g) (\<lambda>loss.
          if mode = ''seq-mean-token-sum-norm'' then
            Inr (fdiv_real loss (case ai_loss_scale_factor g of
                                   None \<Rightarrow> real (width loss_mask) | Some c \<Rightarrow> real_of_int c))
          else Inr loss)
      else if mode = ''seq-mean-token-mean'' then
        sequence_mean
          (map2 (\<lambda>s n. fdiv_real s (real n + 1 / 10 ^ 8)) (masked_row_sums loss_mat loss_mask)
             (token_counts loss_mask))
          (active_rows loss_mask) g
      else Inl (ValueError ''Invalid loss_agg_mode''))"

section \<open>KL estimators\<close>

definition half_square :: "flt \<Rightarrow> flt \<Rightarrow> flt" where
  "half_square p q = fmul (Fin (1 / 2)) (fsquare (fsub p q))"

definition k3_token :: "flt \<Rightarrow> flt \<Rightarrow> flt" where
  "k3_token p q =
     (let kl = fclamp (-20) 20 (fsub q p); ratio = fexp kl in
      fclamp (-10) 10 (fsub (fsub ratio kl) (Fin 1)))"

definition kl_penalty_token :: "string \<Rightarrow> (flt \<Rightarrow> flt \<Rightarrow> flt) option" where
  "kl_penalty_token estimator =
     (if estimator \<in> {''kl'', ''k1''} then Some fsub
      else if estimator = ''abs'' then Some (\<lambda>p q. fabs (fsub p q))
      else if estimator \<in> {''mse'', ''k2''} then Some half_square
      else if estimator \<in> {''low_var_kl'', ''k3''} then Some k3_token
      else None)"

definition kl_penalty_forward :: "flt mat \<Rightarrow> flt mat \<Rightarrow> string \<Rightarrow> flt mat res" where
  "kl_penalty_forward logprob ref_logprob estimator =
     (case kl_penalty_token estimator of
        Some f \<Rightarrow> Inr (mmap2 f logprob ref_logprob)
      | None \<Rightarrow> Inl NotImplementedError)"

text \<open>
  The value of \<open>kl_penalty\<close>; the straight-through form of a name ending in plus only redirects
  the gradient, its value is computed as written.
\<close>

definition kl_penalty :: "flt mat \<Rightarrow> flt mat \<Rightarrow> string \<Rightarrow> flt mat res" where
  "kl_penalty logprob ref_logprob estimator =
     (let plus = (estimator \<noteq> [] \<and> last estimator = CHR ''+'');
          base_kl_penalty = (if plus then butlast estimator else estimator) in
      ebind (kl_penalty_forward logprob ref_logprob base_kl_penalty) (\<lambda>forward_score.
      if \<not> plus \<or> estimator \<in> {''mse'', ''k2''} then Inr forward_score
      else let backward_score = mmap2 half_square logprob ref_logprob in
        Inr (mmap2 fadd (mmap2 fsub backward_score backward_score) forward_score)))"

section \<open>Policy losses\<close>

text \<open>The fields of the actor or distillation configuration the policy losses read.\<close>

record policy_config =
  pc_clip_ratio :: real
  pc_clip_ratio_low :: "real option"
  pc_clip_ratio_high :: "real option"
  pc_clip_ratio_c :: real
  pc_global_batch_info :: agg_info

type_synonym policy_loss_fn =
  "flt mat \<Rightarrow> flt mat \<Rightarrow> flt mat \<Rightarrow> bool mat \<Rightarrow> string \<Rightarrow> policy_config \<Rightarrow> flt mat option
    \<Rightarrow> (flt \<times> metrics) res"

definition compute_policy_loss_reinforce :: policy_loss_fn where
  "compute_policy_loss_reinforce rollout_log_prob log_prob advantages response_mask mode config is_weights =
     (let base = mmap2 fmul (mmap fneg advantages) log_prob;
          pg_losses = (case is_weights of None \<Rightarrow> base | Some w \<Rightarrow> mmap2 fmul base w) in
      ebind (agg_loss pg_losses response_mask mode (pc_global_batch_info config)) (\<lambda>pg_loss.
      let negative_approx_kl = mmap2 fsub log_prob rollout_log_prob in
      Inr (pg_loss,
        [(''actor/ppo_kl'', tensor_masked_mean (mmap fneg negative_approx_kl) response_mask)])))"

definition compute_policy_loss_reinforce_registered :: policy_loss_fn where
  "compute_policy_loss_reinforce_registered old_log_prob log_prob advantages response_mask mode config is_weights =
     compute_policy_loss_reinforce old_log_prob log_prob advantages response_mask mode config None"

text \<open>The clipped PPO objective with the dual clip, per token and then aggregated.\<close>

definition vanilla_token_loss :: "real \<Rightarrow> real \<Rightarrow> real \<Rightarrow> flt \<Rightarrow> flt \<Rightarrow> flt" where
  "vanilla_token_loss low high c ratio adv =
     (let pg_losses1 = fmul (fneg adv) ratio;
          pg_losses2 = fmul (fneg adv) (fclamp (1 - low) (1 + high) ratio);
          clip_pg_losses1 = fmax pg_losses1 pg_losses2;
          pg_losses3 = fmul (fneg adv) (Fin c);
          clip_pg_losses2 = fmin pg_losses3 clip_pg_losses1
      in if fless adv (Fin 0) then clip_pg_losses2 else clip_pg_losses1)"

definition vanilla_clipped :: "real \<Rightarrow> real \<Rightarrow> flt \<Rightarrow> flt \<Rightarrow> bool" where
  "vanilla_clipped low high ratio adv =
     fless (fmul (fneg adv) ratio) (fmul (fneg adv) (fclamp (1 - low) (1 + high) ratio))"

definition vanilla_clipped_lower :: "real \<Rightarrow> real \<Rightarrow> real \<Rightarrow> flt \<Rightarrow> flt \<Rightarrow> bool" where
  "vanilla_clipped_lower low high c ratio adv =
     (fless (fmul (fneg adv) (Fin c))
        (fmax (fmul (fneg adv) ratio) (fmul (fneg adv) (fclamp (1 - low) (1 + high) ratio))) \<and>
      fless adv (Fin 0))"

definition approx_log_ratio :: "flt mat \<Rightarrow> flt mat \<Rightarrow> flt mat" where
  "approx_log_ratio log_prob old_log_prob = mmap (fclamp (-20) 20) (mmap2 fsub log_prob old_log_prob)"

definition compute_policy_loss_vanilla :: policy_loss_fn where
  "compute_policy_loss_vanilla old_log_prob log_prob advantages response_mask mode config is_weights =
     (let low = (case pc_clip_ratio_low config of None \<Rightarrow> pc_clip_ratio config | Some v \<Rightarrow> v);
          high = (case pc_clip_ratio_high config of None \<Rightarrow> pc_clip_ratio config | Some v \<Rightarrow> v);
          c = pc_clip_ratio_c config in
      raise_if (\<not> c > 1) (AssertionError ''clip_ratio_c should be greater than 1.0'')
      (let negative_approx_kl = approx_log_ratio log_prob old_log_prob;
           ratio = mmap fexp negative_approx_kl;
           losses = mmap2 (vanilla_token_loss low high c) ratio advantages;
           pg_losses = (case is_weights of None \<Rightarrow> losses | Some w \<Rightarrow> mmap2 fmul losses w) in
       ebind (agg_loss pg_losses response_mask mode (pc_global_batch_info config)) (\<lambda>pg_loss.
       Inr (pg_loss,
         [(''actor/pg_clipfrac'',
             tensor_masked_mean (mmap of_mask (mmap2 (vanilla_clipped low high) ratio advantages)) response_mask),
          (''actor/ppo_kl'', tensor_masked_mean (mmap fneg negative_approx_kl) response_mask),
          (''actor/pg_clipfrac_lower'',
             tensor_masked_mean (mmap of_mask (mmap2 (vanilla_clipped_lower low high c) ratio advantages))
               response_mask)]))))"

text \<open>\<open>POLICY_LOSS_REGISTRY\<close>: the decorator overwrites, the lookup raises on an unknown name.\<close>

definition register_policy_loss ::
  "string \<Rightarrow> policy_loss_fn \<Rightarrow> (string \<times> policy_loss_fn) list \<Rightarrow> (string \<times> policy_loss_fn) list" where
  "register_policy_loss name f registry = dict_put name f registry"

definition get_policy_loss_fn :: "(string \<times> policy_loss_fn) list \<Rightarrow> string \<Rightarrow> policy_loss_fn res" where
  "get_policy_loss_fn registry name =
     (case dict_get name registry of
        None \<Rightarrow> Inl (ValueError ''Unsupported loss mode'') | Some f \<Rightarrow> Inr f)"

section \<open>Value loss\<close>

definition value_token_losses :: "real \<Rightarrow> flt \<Rightarrow> flt \<Rightarrow> flt \<Rightarrow> flt \<times> flt" where
  "value_token_losses cliprange vpred ret old =
     (let vpredclipped = fmax (fmin vpred (fadd old (Fin cliprange))) (fsub old (Fin cliprange)) in
      (fsquare (fsub vpred ret), fsquare (fsub vpredclipped ret)))"

definition compute_value_loss ::
  "flt mat \<Rightarrow> flt mat \<Rightarrow> flt mat \<Rightarrow> bool mat \<Rightarrow> real \<Rightarrow> string \<Rightarrow> agg_info \<Rightarrow> (flt \<times> flt) res" where
  "compute_value_loss vpreds returns vals response_mask cliprange_value mode g =
     (let pairs = mmap2 (\<lambda>(v, r) old. value_token_losses cliprange_value v r old)
                    (mmap2 Pair vpreds returns) vals in
      ebind (agg_loss (mmap (\<lambda>(l1, l2). fmax l1 l2) pairs) response_mask mode g) (\<lambda>loss.
      Inr (fmul (Fin (1 / 2)) loss,
           tensor_masked_mean (mmap (\<lambda>(l1, l2). of_mask (fless l1 l2)) pairs) response_mask)))"

section \<open>Aggregation as a scaled sum\<close>

text \<open>Entries outside the mask vanish, so a masked sum is the sum of the selected entries.\<close>

lemma masked_row_selects:
  "length bs = length xs
   \<Longrightarrow> fsum (map2 fmul (map2 (\<lambda>b v. if b then v else Fin 0) bs xs) (map of_mask bs)) = fsum (vselect bs xs)"
proof (induction bs xs rule: list_induct2)
  case (Cons b bs x xs)
  then show ?case by (cases b) (simp_all add: fsum_sum_list plus_flt_def [symmetric])
qed simp

lemma fsum_append [simp]: "fsum (xs @ ys) = fsum xs + fsum ys"
  by (simp add: fsum_sum_list)

lemma fsum_concat: "fsum (concat xss) = sum_list (map fsum xss)"
  by (induction xss) (simp_all add: fsum_sum_list)

definition same_rows :: "'a mat \<Rightarrow> 'b mat \<Rightarrow> bool" where
  "same_rows a b \<longleftrightarrow> list_all2 (\<lambda>x y. length x = length y) (rows a) (rows b)"

lemma same_rowsI: "wf_mat a \<Longrightarrow> wf_mat b \<Longrightarrow> shape a = shape b \<Longrightarrow> same_rows a b"
  by (auto simp: same_rows_def list_all2_conv_all_nth wf_mat_def shape_def height_def)

lemma tensor_masked_sum_selects:
  assumes "same_rows sel vals"
  shows "tensor_masked_sum vals sel = fsum (mselect sel vals)"
proof -
  have "list_all2 (\<lambda>x y. length x = length y) bs xs \<Longrightarrow>
      sum_list (map fsum (map2 (map2 fmul) (map2 (map2 (\<lambda>b v. if b then v else Fin 0)) bs xs) (map (map of_mask) bs)))
        = sum_list (map fsum (map2 vselect bs xs))" for bs :: "bool list list" and xs
    by (induction rule: list_all2_induct) (simp_all add: masked_row_selects)
  then show ?thesis using assms
    by (simp add: tensor_masked_sum_def same_rows_def mselect_def fsum_concat mmap2_def mmap_def)
qed

lemma vector_masked_sum_selects:
  "length bs = length xs \<Longrightarrow> vector_masked_sum xs bs = fsum (vselect bs xs)"
  by (simp add: vector_masked_sum_def masked_row_selects)

text \<open>What a mode sums over the batch, and the factor it applies to one rank's sum.\<close>

definition agg_sum :: "string \<Rightarrow> flt mat \<Rightarrow> bool mat \<Rightarrow> flt" where
  "agg_sum mode m b =
     (if mode \<in> {''token-mean'', ''token-sum''} then fsum (mselect b m)
      else if mode = ''seq-mean-token-mean''
      then fsum (vselect (active_rows b)
             (map2 (\<lambda>s n. fdiv_real s (real n + 1 / 10 ^ 8)) (masked_row_sums m b) (token_counts b)))
      else fsum (vselect (active_rows b) (masked_row_sums m b)))"

definition agg_horizon :: "nat \<Rightarrow> agg_info \<Rightarrow> real" where
  "agg_horizon w g = (case ai_loss_scale_factor g of None \<Rightarrow> real w | Some c \<Rightarrow> real_of_int c)"

definition agg_factor :: "string \<Rightarrow> nat \<Rightarrow> nat \<Rightarrow> nat \<Rightarrow> agg_info \<Rightarrow> real" where
  "agg_factor mode w n bsz g =
     (if mode = ''token-mean'' then 1 / real n
      else if mode = ''token-sum'' then 1
      else if mode = ''seq-mean-token-sum-norm'' then 1 / real bsz * (1 / agg_horizon w g)
      else 1 / real bsz)"

definition agg_modes :: "string list" where
  "agg_modes = [''token-mean'', ''token-sum'', ''seq-mean-token-sum'', ''seq-mean-token-sum-norm'',
     ''seq-mean-token-mean'']"

lemma length_masked_row_sums: "same_rows m b \<Longrightarrow> length (masked_row_sums m b) = length (active_rows b)"
  by (auto simp: masked_row_sums_def active_rows_def mmap2_def mmap_def same_rows_def dest: list_all2_lengthD)

lemma length_token_counts: "length (token_counts b) = length (active_rows b)"
  by (simp add: token_counts_def active_rows_def)

lemma agg_loss_scaled:
  assumes mode: "mode \<in> set agg_modes" and rows: "same_rows m b" "same_rows b m"
    and info: "ai_batch_num_tokens g = Some n" "0 < n" "ai_global_batch_size g = Some bsz" "0 < bsz"
      "0 < ai_dp_size g" "0 < agg_horizon (width b) g"
  shows "agg_loss m b mode g =
     Inr (fmul (agg_sum mode m b) (Fin (agg_factor mode (width b) n bsz g * real (ai_dp_size g))))"
proof -
  note len = length_masked_row_sums [OF rows(1)] length_token_counts [of b]
  have seq: "sequence_mean xs (active_rows b) g =
      Inr (fmul (fsum (vselect (active_rows b) xs)) (Fin (1 / real bsz * real (ai_dp_size g))))"
    if "length xs = length (active_rows b)" for xs
    using that info by (simp add: sequence_mean_def global_count_def vector_masked_sum_selects
        fdiv_as_mul fmul_fmul_Fin)
  have "mode = ''token-mean'' \<or> mode = ''token-sum'' \<or> mode = ''seq-mean-token-sum''
      \<or> mode = ''seq-mean-token-sum-norm'' \<or> mode = ''seq-mean-token-mean''"
    using mode unfolding agg_modes_def by (simp only: list.set insert_iff empty_iff simp_thms)
  then show ?thesis
  proof (elim disjE)
    assume "mode = ''token-mean''"
    then show ?thesis using info
      by (simp add: agg_loss_def global_count_def tensor_masked_sum_selects [OF rows(2)] fdiv_as_mul
          fmul_fmul_Fin agg_sum_def agg_factor_def)
  next
    assume "mode = ''token-sum''"
    then show ?thesis by (simp add: agg_loss_def tensor_masked_sum_selects [OF rows(2)] agg_sum_def agg_factor_def)
  next
    assume "mode = ''seq-mean-token-sum''"
    then show ?thesis by (simp add: agg_loss_def seq len agg_sum_def agg_factor_def)
  next
    assume "mode = ''seq-mean-token-sum-norm''"
    then show ?thesis using info
      by (simp add: agg_loss_def seq len agg_sum_def agg_factor_def agg_horizon_def [symmetric] fdiv_as_mul
          fmul_fmul_Fin mult.commute mult.left_commute)
  next
    assume "mode = ''seq-mean-token-mean''"
    then show ?thesis by (simp add: agg_loss_def seq len agg_sum_def agg_factor_def)
  qed
qed

section \<open>Splitting a batch over ranks and micro-batches\<close>

text \<open>The batch the shards come from.\<close>

definition stack_mats :: "nat \<Rightarrow> 'a mat list \<Rightarrow> 'a mat" where
  "stack_mats w ms = \<lparr>width = w, rows = concat (map rows ms)\<rparr>"

lemma width_stack [mat_simps]: "width (stack_mats w ms) = w"
  by (simp add: stack_mats_def)

lemma rows_stack_Cons: "rows (stack_mats w (m # ms)) = rows m @ rows (stack_mats w ms)"
  by (simp add: stack_mats_def)

lemma rows_stack_Nil: "rows (stack_mats w []) = []"
  by (simp add: stack_mats_def)

lemma same_rows_append:
  "same_rows a b \<Longrightarrow> same_rows c d
   \<Longrightarrow> same_rows \<lparr>width = w, rows = rows a @ rows c\<rparr> \<lparr>width = w', rows = rows b @ rows d\<rparr>"
  by (simp add: same_rows_def list_all2_appendI)

lemma same_rows_stack:
  "(\<And>m b. (m, b) \<in> set shards \<Longrightarrow> same_rows m b)
   \<Longrightarrow> same_rows (stack_mats w (map fst shards)) (stack_mats w (map snd shards))"
  by (induction shards) (auto simp: same_rows_def rows_stack_Cons rows_stack_Nil intro!: list_all2_appendI)

lemma same_rows_sym: "same_rows a b \<Longrightarrow> same_rows b a"
  by (auto simp: same_rows_def list_all2_conv_all_nth)

lemma agg_sum_rows_append:
  assumes "same_rows m b" "rows M = rows m @ rows m'" "rows B = rows b @ rows b'"
  shows "agg_sum mode M B = agg_sum mode m b + agg_sum mode m' b'"
proof -
  have len: "length (rows m) = length (rows b)"
    using assms(1) by (auto simp: same_rows_def dest: list_all2_lengthD)
  have "mselect B M = mselect b m @ mselect b' m'"
    using len by (simp add: mselect_def assms)
  moreover have "active_rows B = active_rows b @ active_rows b'"
    "token_counts B = token_counts b @ token_counts b'"
    by (simp_all add: active_rows_def token_counts_def assms)
  moreover have "masked_row_sums M B = masked_row_sums m b @ masked_row_sums m' b'"
    using len by (simp add: masked_row_sums_def mmap2_def mmap_def assms)
  moreover have "vselect (xs @ xs') (ys @ ys') = vselect xs ys @ vselect xs' ys'"
    if "length xs = length ys" for xs xs' and ys ys' :: "flt list"
    using that by (simp add: vselect_def)
  ultimately show ?thesis
    using length_masked_row_sums [OF assms(1)] by (simp add: agg_sum_def length_token_counts)
qed

lemma agg_sum_stack:
  assumes "\<And>m b. (m, b) \<in> set shards \<Longrightarrow> same_rows m b"
  shows "agg_sum mode (stack_mats w (map fst shards)) (stack_mats w (map snd shards)) =
     sum_list (map (\<lambda>(m, b). agg_sum mode m b) shards)"
  using assms
proof (induction shards)
  case Nil
  show ?case
    by (simp add: agg_sum_def mselect_def rows_stack_Nil active_rows_def token_counts_def zero_flt_def)
next
  case (Cons s shards)
  obtain m b where s: "s = (m, b)" by (cases s)
  have "agg_sum mode (stack_mats w (map fst (s # shards))) (stack_mats w (map snd (s # shards))) =
      agg_sum mode m b + agg_sum mode (stack_mats w (map fst shards)) (stack_mats w (map snd shards))"
    using Cons.prems [of m b] s by (intro agg_sum_rows_append) (simp_all add: rows_stack_Cons)
  then show ?case using Cons by (simp add: s)
qed

lemma agg_factor_pos:
  "0 < n \<Longrightarrow> 0 < bsz \<Longrightarrow> 0 < agg_horizon w g \<Longrightarrow> 0 < agg_factor mode w n bsz g"
  by (simp add: agg_factor_def)

definition shards_ok :: "nat \<Rightarrow> (flt mat \<times> bool mat) list \<Rightarrow> bool" where
  "shards_ok w shards = list_all (\<lambda>(m, b). wf_mat m \<and> wf_mat b \<and> shape m = shape b \<and> width b = w) shards"

lemma agg_loss_split:
  assumes "mode \<in> set agg_modes" "shards_ok w shards"
    and info: "ai_batch_num_tokens g = Some n" "0 < n" "ai_global_batch_size g = Some bsz" "0 < bsz"
      "0 < ai_dp_size g" "0 < agg_horizon w g"
  shows "\<exists>ls. emap (\<lambda>(m, b). agg_loss m b mode g) shards = Inr ls \<and>
    agg_loss (stack_mats w (map fst shards)) (stack_mats w (map snd shards)) mode (g\<lparr>ai_dp_size := 1\<rparr>) =
      Inr (fdiv_real (fsum ls) (real (ai_dp_size g)))"
proof -
  define k where "k = agg_factor mode w n bsz g"
  define dp where "dp = real (ai_dp_size g)"
  have pos: "0 < k" "0 < dp" using info agg_factor_pos by (simp_all add: k_def dp_def)
  have ok: "same_rows m b \<and> width b = w" if "(m, b) \<in> set shards" for m b
    using assms(2) that same_rowsI by (fastforce simp: shards_ok_def list_all_iff)
  have each: "agg_loss m b mode g = Inr (fmul (agg_sum mode m b) (Fin (k * dp)))" if "(m, b) \<in> set shards" for m b
    using agg_loss_scaled [OF assms(1) conjunct1 [OF ok [OF that]] same_rows_sym [OF conjunct1 [OF ok [OF that]]]] ok [OF that] info
    by (simp add: k_def dp_def)
  let ?ls = "map (\<lambda>(m, b). fmul (agg_sum mode m b) (Fin (k * dp))) shards"
  have e1: "emap (\<lambda>(m, b). agg_loss m b mode g) shards = Inr ?ls"
    by (rule emap_all_Inr) (auto simp: each)
  have e2: "agg_loss (stack_mats w (map fst shards)) (stack_mats w (map snd shards)) mode (g\<lparr>ai_dp_size := 1\<rparr>) =
      Inr (fmul (sum_list (map (\<lambda>(m, b). agg_sum mode m b) shards)) (Fin k))"
  proof -
    have rows: "same_rows (stack_mats w (map fst shards)) (stack_mats w (map snd shards))"
      using ok by (intro same_rows_stack) blast
    have eq: "agg_factor mode w n bsz (g\<lparr>ai_dp_size := 1\<rparr>) = k" "agg_horizon w (g\<lparr>ai_dp_size := 1\<rparr>) = agg_horizon w g"
      by (simp_all add: k_def agg_factor_def agg_horizon_def)
    have "agg_loss (stack_mats w (map fst shards)) (stack_mats w (map snd shards)) mode (g\<lparr>ai_dp_size := 1\<rparr>) =
        Inr (fmul (agg_sum mode (stack_mats w (map fst shards)) (stack_mats w (map snd shards))) (Fin (k * 1)))"
      using agg_loss_scaled [OF assms(1) rows same_rows_sym [OF rows], of "g\<lparr>ai_dp_size := 1\<rparr>" n bsz] info
      by (simp add: eq mat_simps del: One_nat_def)
    then show ?thesis using ok by (subst (asm) agg_sum_stack) simp_all
  qed
  have e3: "fdiv_real (fsum ?ls) dp = fmul (sum_list (map (\<lambda>(m, b). agg_sum mode m b) shards)) (Fin k)"
    using pos by (simp add: fsum_sum_list fdiv_as_mul case_prod_unfold fmul_sum_map fmul_fmul_Fin)
  show ?thesis unfolding dp_def [symmetric] e1 e2 by (intro exI [of _ ?ls]) (simp only: e3 simp_thms)
qed

text \<open>
  C21: However a batch is cut into micro-batches and spread over data-parallel ranks, the
  average over the ranks of the summed micro-batch losses is the loss of the whole batch on
  one rank, in every aggregation mode and for every value of the losses, NaN and infinities
  included, as long as the global counts are passed along.
\<close>

theorem agg_loss_parallel_invariant:
  assumes "mode \<in> set agg_modes" "shards_ok w shards"
    and info: "ai_batch_num_tokens g = Some n" "0 < n" "ai_global_batch_size g = Some bsz" "0 < bsz"
      "0 < ai_dp_size g" "0 < agg_horizon w g"
  shows "\<exists>ls. emap (\<lambda>(m, b). agg_loss m b mode g) shards = Inr ls \<and>
    agg_loss (stack_mats w (map fst shards)) (stack_mats w (map snd shards)) mode (g\<lparr>ai_dp_size := 1\<rparr>) =
      Inr (fdiv_real (fsum ls) (real (ai_dp_size g)))"
  by (rule agg_loss_split [OF assms])

lemma agg_loss_parallel_invariant_witness:
  "\<exists>ls. emap (\<lambda>(m, b). agg_loss m b ''seq-mean-token-sum''
        \<lparr>ai_dp_size = 2, ai_batch_num_tokens = Some 3, ai_global_batch_size = Some 2, ai_loss_scale_factor = None\<rparr>)
      [(\<lparr>width = 2, rows = [[Fin 1, Fin 2]]\<rparr>, \<lparr>width = 2, rows = [[True, True]]\<rparr>),
       (\<lparr>width = 2, rows = [[Fin 6, Fin 9]]\<rparr>, \<lparr>width = 2, rows = [[True, False]]\<rparr>)] = Inr ls \<and>
    agg_loss (stack_mats 2 [\<lparr>width = 2, rows = [[Fin 1, Fin 2]]\<rparr>, \<lparr>width = 2, rows = [[Fin 6, Fin 9]]\<rparr>])
        (stack_mats 2 [\<lparr>width = 2, rows = [[True, True]]\<rparr>, \<lparr>width = 2, rows = [[True, False]]\<rparr>])
        ''seq-mean-token-sum''
        \<lparr>ai_dp_size = 1, ai_batch_num_tokens = Some 3, ai_global_batch_size = Some 2, ai_loss_scale_factor = None\<rparr> =
      Inr (fdiv_real (fsum ls) 2)"
  using agg_loss_parallel_invariant [of "''seq-mean-token-sum''" 2
      "[(\<lparr>width = 2, rows = [[Fin 1, Fin 2]]\<rparr>, \<lparr>width = 2, rows = [[True, True]]\<rparr>),
        (\<lparr>width = 2, rows = [[Fin 6, Fin 9]]\<rparr>, \<lparr>width = 2, rows = [[True, False]]\<rparr>)]"
      "\<lparr>ai_dp_size = 2, ai_batch_num_tokens = Some 3, ai_global_batch_size = Some 2, ai_loss_scale_factor = None\<rparr>" 3 2]
  by (simp add: agg_modes_def shards_ok_def wf_mat_def shape_def height_def agg_horizon_def del: One_nat_def)

section \<open>Padding cannot reach the token modes\<close>

lemma mselect_cong:
  assumes "wf_mat b" "wf_mat m" "wf_mat m'" "shape m = shape b" "shape m' = shape b"
    "\<forall>i < height b. \<forall>j < width b. mget b i j \<longrightarrow> mget m i j = mget m' i j"
  shows "mselect b m = mselect b m'"
proof -
  have row: "vselect bs xs = vselect bs ys"
    if "length xs = length bs" "length ys = length bs" "\<forall>j < length bs. bs ! j \<longrightarrow> xs ! j = ys ! j"
    for bs and xs ys :: "'a list"
  proof -
    from that have "filter fst (zip bs xs) = filter fst (zip bs ys)"
    proof (induction bs arbitrary: xs ys)
      case (Cons b bs)
      from Cons.prems obtain x xs' y ys' where xs: "xs = x # xs'" "ys = y # ys'"
        by (cases xs; cases ys) auto
      have "filter fst (zip bs xs') = filter fst (zip bs ys')"
        using Cons.prems xs by (intro Cons.IH) force+
      moreover have "b \<Longrightarrow> x = y" using Cons.prems(3) xs by (elim allE [of _ 0]) simp
      ultimately show ?case by (simp add: xs)
    qed simp
    then show ?thesis by (simp add: vselect_def)
  qed
  have len: "length (rows m) = length (rows b)" "length (rows m') = length (rows b)"
    "width m = width b" "width m' = width b"
    using assms(4,5) by (simp_all add: shape_def height_def)
  have "map2 vselect (rows b) (rows m) = map2 vselect (rows b) (rows m')"
  proof (rule nth_equalityI)
    show "length (map2 vselect (rows b) (rows m)) = length (map2 vselect (rows b) (rows m'))"
      using len by simp
    fix i assume "i < length (map2 vselect (rows b) (rows m))"
    then have i: "i < length (rows b)" using len by simp
    have w: "length (rows b ! i) = width b" "length (rows m ! i) = width b" "length (rows m' ! i) = width b"
      using assms(1-3) len i by (auto simp: wf_mat_def)
    have "vselect (rows b ! i) (rows m ! i) = vselect (rows b ! i) (rows m' ! i)"
      using assms(6) i w by (intro row) (simp_all add: mget_def height_def)
    then show "map2 vselect (rows b) (rows m) ! i = map2 vselect (rows b) (rows m') ! i"
      using i len by simp
  qed
  then show ?thesis by (simp add: mselect_def)
qed

text \<open>The token modes give one value for any two loss matrices that agree on the mask.\<close>

lemma token_modes_ignore_padding:
  assumes "mode = ''token-mean'' \<or> mode = ''token-sum''"
    and "wf_mat b" "wf_mat m" "wf_mat m'" "shape m = shape b" "shape m' = shape b"
    and "\<forall>i < height b. \<forall>j < width b. mget b i j \<longrightarrow> mget m i j = mget m' i j"
  shows "agg_loss m b mode g = agg_loss m' b mode g"
proof -
  have "tensor_masked_sum m b = tensor_masked_sum m' b"
    using assms mselect_cong [OF assms(2-7)]
    by (simp add: tensor_masked_sum_selects same_rowsI)
  then show ?thesis using assms(1) by (elim disjE) (simp_all add: agg_loss_def)
qed

section \<open>KL estimators\<close>

lemma mget_in_concat:
  "wf_mat m \<Longrightarrow> i < height m \<Longrightarrow> j < width m \<Longrightarrow> mget m i j \<in> set (concat (rows m))"
  by (auto simp: mget_def height_def wf_mat_def intro!: bexI [of _ "rows m ! i"])

lemma exp_minus_bound: "0 \<le> exp x - x - (1 :: real)"
  using exp_ge_add_one_self [of x] by linarith

lemma half_square_Fin: "\<exists>x. half_square (Fin a) (Fin b) = Fin x \<and> 0 \<le> x \<and> (a = b \<longrightarrow> x = 0)"
  by (intro exI [of _ "1 / 2 * ((a - b) * (a - b))"]) (simp add: half_square_def fsquare_def)

lemma kl_penalty_token_simps:
  "kl_penalty_token ''abs'' = Some (\<lambda>p q. fabs (fsub p q))"
  "kl_penalty_token ''k2'' = Some half_square"
  "kl_penalty_token ''k3'' = Some k3_token"
  by (simp_all add: kl_penalty_token_def)

lemma k3_token_Fin:
  "\<exists>x. k3_token (Fin a) (Fin b) = Fin x \<and> 0 \<le> x \<and> x \<le> 10 \<and> (a = b \<longrightarrow> x = 0)"
  using exp_minus_bound [of "min (max (b - a) (- 20)) 20"] by (simp add: k3_token_def Let_def)

text \<open>The three facts about an estimator the property needs.\<close>

definition kl_token_ok :: "string \<Rightarrow> (flt \<Rightarrow> flt \<Rightarrow> flt) \<Rightarrow> bool" where
  "kl_token_ok est f \<longleftrightarrow>
     (\<forall>a b. \<exists>x. f (Fin a) (Fin b) = Fin x \<and> 0 \<le> x \<and> (est = ''k3'' \<longrightarrow> x \<le> 10) \<and> (a = b \<longrightarrow> x = 0))"

lemma kl_estimator_cases:
  assumes "est \<in> {''abs'', ''k2'', ''k3''}"
  obtains f where "kl_penalty_token est = Some f" "kl_token_ok est f" "last (est @ ''+'') = CHR ''+''"
    "last est \<noteq> CHR ''+''" "est \<noteq> []" "est @ ''+'' \<noteq> ''mse''" "est @ ''+'' \<noteq> ''k2''"
proof -
  have "est = ''abs'' \<or> est = ''k2'' \<or> est = ''k3''"
    using assms by (simp only: insert_iff empty_iff simp_thms)
  then show thesis
  proof (elim disjE)
    assume "est = ''abs''"
    then show thesis by (intro that [of "\<lambda>p q. fabs (fsub p q)"]) (simp_all add: kl_penalty_token_simps kl_token_ok_def)
  next
    assume "est = ''k2''"
    then show thesis
      by (intro that [of half_square]) (simp_all add: kl_penalty_token_simps kl_token_ok_def half_square_Fin)
  next
    assume "est = ''k3''"
    then show thesis
      by (intro that [of k3_token]) (simp_all add: kl_penalty_token_simps kl_token_ok_def k3_token_Fin)
  qed
qed

text \<open>
  Of the sampled-token KL estimators, abs, k2 and k3 are non-negative on finite
  log-probabilities and vanish when Student and Teacher agree, k3 never exceeds 10 whatever the
  gap, and the straight-through names ending in plus have the value of the plain estimator.
\<close>

theorem kl_estimators_nonnegative:
  assumes "est \<in> {''abs'', ''k2'', ''k3''}" "shape p = shape q" "wf_mat p" "wf_mat q"
    and fin: "\<forall>v \<in> set (concat (rows p)) \<union> set (concat (rows q)). is_finite v"
  shows "\<exists>K. kl_penalty p q est = Inr K \<and> kl_penalty p q (est @ ''+'') = Inr K \<and> shape K = shape p \<and>
    (\<forall>i < height p. \<forall>j < width p. \<exists>x. mget K i j = Fin x \<and> 0 \<le> x \<and>
       (est = ''k3'' \<longrightarrow> x \<le> 10) \<and> (mget p i j = mget q i j \<longrightarrow> x = 0))"
proof -
  from kl_estimator_cases [OF assms(1)] obtain f where f: "kl_penalty_token est = Some f" "kl_token_ok est f"
    "last (est @ ''+'') = CHR ''+''" "last est \<noteq> CHR ''+''" "est \<noteq> []" "est @ ''+'' \<noteq> ''mse''" "est @ ''+'' \<noteq> ''k2''"
    by metis
  let ?K = "mmap2 f p q"
  define B where "B = mmap2 half_square p q"
  have H: "height q = height p" "width q = width p" using assms(2) by (simp_all add: shape_iff)
  have fin_at: "\<exists>x y. mget p i j = Fin x \<and> mget q i j = Fin y" if "i < height p" "j < width p" for i j
    using fin mget_in_concat [of p i j] mget_in_concat [of q i j] that assms(3,4) H
    by (simp add: is_finite_iff)
  have entry: "\<exists>x. mget ?K i j = Fin x \<and> 0 \<le> x \<and> (est = ''k3'' \<longrightarrow> x \<le> 10) \<and>
      (mget p i j = mget q i j \<longrightarrow> x = 0)" if ij: "i < height p" "j < width p" for i j
  proof -
    obtain a b where "mget p i j = Fin a" "mget q i j = Fin b" using fin_at [OF ij] by blast
    then show ?thesis using f(2) ij assms(3,4) H by (simp add: kl_token_ok_def mget_mmap2)
  qed
  have plain: "kl_penalty p q est = Inr ?K"
    using f by (simp add: kl_penalty_def kl_penalty_forward_def)
  have wf: "wf_mat B" "wf_mat ?K" "height B = height p" "width B = width p" "height ?K = height p" "width ?K = width p"
    using assms(3,4) H by (simp_all add: mat_simps B_def)
  have same: "mmap2 fadd (mmap2 fsub B B) ?K = ?K"
  proof (rule mat_eqI)
    fix i j assume "i < height (mmap2 fadd (mmap2 fsub B B) ?K)" "j < width (mmap2 fadd (mmap2 fsub B B) ?K)"
    then have ij: "i < height p" "j < width p" using wf by (simp_all add: mat_simps)
    obtain a b where "mget p i j = Fin a" "mget q i j = Fin b" using fin_at [OF ij] by blast
    then have "\<exists>y. mget B i j = Fin y"
      using ij H assms(3,4) half_square_Fin [of a b] by (auto simp: B_def mget_mmap2)
    then show "mget (mmap2 fadd (mmap2 fsub B B) ?K) i j = mget ?K i j"
      using entry [OF ij] wf ij by (auto simp: mget_mmap2 mat_simps)
  qed (use wf in \<open>simp_all add: mat_simps shape_iff\<close>)
  have "kl_penalty p q (est @ ''+'') = Inr ?K"
    unfolding kl_penalty_def using f same by (simp add: kl_penalty_forward_def B_def [symmetric])
  then show ?thesis using plain entry wf by (intro exI [of _ ?K]) (simp add: shape_iff)
qed

lemma kl_estimators_nonnegative_witness:
  "\<exists>K. kl_penalty \<lparr>width = 2, rows = [[Fin (-1), Fin (-2)]]\<rparr> \<lparr>width = 2, rows = [[Fin (-1), Fin (-4)]]\<rparr> ''k3'' = Inr K \<and>
    (\<forall>j < 2. \<exists>x. mget K 0 j = Fin x \<and> 0 \<le> x \<and> x \<le> 10)"
  using kl_estimators_nonnegative [of "''k3''" "\<lparr>width = 2, rows = [[Fin (-1), Fin (-2)]]\<rparr>"
      "\<lparr>width = 2, rows = [[Fin (-1), Fin (-4)]]\<rparr>"]
  by (auto simp: shape_def height_def wf_mat_def) blast

end
