(* ===== verification/R2OPL_V2.thy ===== *)
theory R2OPL_V2
  imports Token_Alignment Policy_Loss
begin

text \<open>
  The answer probe for truncated rollouts (\<open>utils/r2opl_v2.py\<close>): where the truncated
  reasoning is cut, what the Student is asked to score, and how the two scores decide. The Student
  call is a parameter from a sequence and its answer positions to a mean log-probability; the two
  calls run concurrently in the code, so when both fail either exception may surface, and the
  model reports the first.
\<close>

definition R2OPL_V2_DELTA_THRESHOLD :: real where
  "R2OPL_V2_DELTA_THRESHOLD = 3 / 10"

record v2_probe_result =
  v2_truncated :: bool
  v2_probe_correct :: bool
  v2_head_mean_logprob :: "flt option"
  v2_tail_mean_logprob :: "flt option"

section \<open>The cut\<close>

definition sentence_stop :: "nat \<Rightarrow> bool" where
  "sentence_stop c = (c \<in> {46, 33, 63, 12290, 65281, 65311, 65307, 59})"

definition sentence_end_re :: re where
  "sentence_end_re = Cat (Alt (Rep True 1 None (one 10)) (Cls sentence_stop)) (Ahead (Alt (Cls is_space) Text_End))"

definition sentence_ends :: "ustr \<Rightarrow> nat list" where
  "sentence_ends t = map (\<lambda>(i, j, gs). j) (re_finditer sentence_end_re t 0)"

fun first_valid_end :: "tokenizer \<Rightarrow> int list \<Rightarrow> ustr \<Rightarrow> nat \<Rightarrow> nat list \<Rightarrow> cache \<Rightarrow> nat option \<times> cache" where
  "first_valid_end tk ids t split_char [] cache = (None, cache)"
| "first_valid_end tk ids t split_char (e # es) cache =
     (let (prefix, cache) = decode_prefix tk True ids e cache in
      if length prefix \<ge> split_char \<and> starts_with t prefix then (Some e, cache)
      else first_valid_end tk ids t split_char es cache)"

definition find_tail_split_token_end :: "tokenizer \<Rightarrow> int list \<Rightarrow> nat option" where
  "find_tail_split_token_end tk ids =
     (if ids = [] then None else
      let response_text = decode_ids tk True ids in
      if response_text = [] then None else
      let matches = sentence_ends response_text in
      if matches = [] then None else
      let split_char = last matches;
          (low, cache) = search_prefix tk True ids split_char 0 (length ids) [(0, [])] in
      case first_valid_end tk ids response_text split_char [low - 8..<Suc (min (length ids) (low + 8))] cache of
        (Some e, cache) \<Rightarrow> Some e
      | (None, cache) \<Rightarrow> fst (first_valid_end tk ids response_text split_char [0..<Suc (length ids)] cache))"

section \<open>The probe\<close>

type_synonym student_probe = "int list \<Rightarrow> int list \<Rightarrow> flt res"

definition not_probed :: "bool \<Rightarrow> v2_probe_result" where
  "not_probed truncated =
     \<lparr>v2_truncated = truncated, v2_probe_correct = False, v2_head_mean_logprob = None, v2_tail_mean_logprob = None\<rparr>"

definition compute_r2opl_v2_probe ::
  "tokenizer \<Rightarrow> student_probe \<Rightarrow> int list \<Rightarrow> int list \<Rightarrow> ustr \<Rightarrow> int \<Rightarrow> v2_probe_result res" where
  "compute_r2opl_v2_probe tk student_probe prompt_ids response_ids answer max_new_tokens =
     (if int (length response_ids) < max_new_tokens then Inr (not_probed False) else
      raise_if (strip answer = []) (ValueError ''R2OPL answer probe requires a non-empty dataset answer.'')
      (case find_tail_split_token_end tk response_ids of
         None \<Rightarrow> Inr (not_probed True)
       | Some tail_token_end \<Rightarrow>
      if tail_token_end = 0 then Inr (not_probed True) else
      ebind (build_answer_probe tk answer PROBE_PREFIX PROBE_SUFFIX (lit ''OA-OPD'')) (\<lambda>probe.
      let prompt_length = int (length prompt_ids);
          head_sequence = prompt_ids @ ap_token_ids probe;
          head_positions = map (\<lambda>p. prompt_length + p) (ap_answer_token_positions probe);
          tail_prefix_length = prompt_length + int tail_token_end;
          tail_sequence = prompt_ids @ take tail_token_end response_ids @ ap_token_ids probe;
          tail_positions = map (\<lambda>p. tail_prefix_length + p) (ap_answer_token_positions probe) in
      ebind (student_probe head_sequence head_positions) (\<lambda>head.
      ebind (student_probe tail_sequence tail_positions) (\<lambda>tail.
      raise_if (\<not> is_finite head \<or> \<not> is_finite tail)
        (RuntimeError ''R2OPL answer probe returned a non-finite log probability.'')
      (Inr \<lparr>v2_truncated = True,
            v2_probe_correct = fless (Fin R2OPL_V2_DELTA_THRESHOLD) (fsub (fexp tail) (fexp head)),
            v2_head_mean_logprob = Some head, v2_tail_mean_logprob = Some tail\<rparr>))))))"

section \<open>Where the reasoning is cut\<close>

lemma first_valid_end_ok:
  assumes "cache_ok tk True ids c"
  shows "\<exists>c'. first_valid_end tk ids t b es c =
      (find (\<lambda>e. b \<le> length (visible_prefix tk True ids e) \<and> starts_with t (visible_prefix tk True ids e)) es, c')
    \<and> cache_ok tk True ids c'"
  using assms
proof (induction es arbitrary: c)
  case (Cons e es)
  obtain c1 where c1: "decode_prefix tk True ids e c = (visible_prefix tk True ids e, c1)" "cache_ok tk True ids c1"
    using decode_prefix_ok [OF Cons.prems] by blast
  show ?case using Cons.IH [OF c1(2)] c1 by auto
qed simp

lemma sentence_ends_bounds:
  assumes "x \<in> set (sentence_ends t)"
  shows "0 < x \<and> x \<le> length t"
proof -
  have "min_width sentence_end_re = 1" by (simp add: sentence_end_re_def)
  then have width: "re_search sentence_end_re t pos = Some (a, b, gs) \<Longrightarrow> 0 < b \<and> b \<le> length t" for pos a b gs
    using re_search_width [of sentence_end_re t pos a b gs] re_search_bounds [of sentence_end_re t pos a b gs] by simp
  have "(i, j, gs) \<in> set (find_all fuel sentence_end_re t pos) \<Longrightarrow> 0 < j \<and> j \<le> length t" for fuel pos i j gs
  proof (induction fuel arbitrary: pos)
    case (Suc fuel)
    then show ?case using width width [OF sym] by (auto split: option.splits)
  qed simp
  then show ?thesis using assms by (auto simp: sentence_ends_def re_finditer_def simp del: find_all.simps)
qed

lemma find_SomeD: "find P xs = Some x \<Longrightarrow> x \<in> set xs \<and> P x"
  by (induction xs) (auto split: if_splits)

lemma tail_split_bounds:
  "case find_tail_split_token_end tk ids of
     None \<Rightarrow> ids = [] \<or> sentence_ends (tok_decode tk True ids) = []
   | Some e \<Rightarrow> 0 < e \<and> e \<le> length ids \<and> starts_with (tok_decode tk True ids) (tok_decode tk True (take e ids)) \<and>
       last (sentence_ends (tok_decode tk True ids)) \<le> length (tok_decode tk True (take e ids))"
proof -
  let ?t = "tok_decode tk True ids"
  let ?b = "last (sentence_ends ?t)"
  let ?P = "\<lambda>e. ?b \<le> length (visible_prefix tk True ids e) \<and> starts_with ?t (visible_prefix tk True ids e)"
  show ?thesis
  proof (cases "ids = [] \<or> ?t = [] \<or> sentence_ends ?t = []")
    case True
    moreover have "sentence_ends [] = []" using sentence_ends_bounds [of _ "[]"] by (cases "sentence_ends []") force+
    ultimately show ?thesis by (auto simp: find_tail_split_token_end_def decode_ids_def Let_def)
  next
    case False
    then have b: "0 < ?b" "?b \<le> length ?t" using sentence_ends_bounds [of ?b ?t] by auto
    obtain low c where s: "search_prefix tk True ids ?b 0 (length ids) [(0, [])] = (low, c)"
      by (cases "search_prefix tk True ids ?b 0 (length ids) [(0, [])]")
    have c: "cache_ok tk True ids c"
      using search_prefix_ok [OF cache_ok_start, of tk True ids ?b 0 "length ids"] by (simp add: s)
    let ?w = "[low - 8..<Suc (min (length ids) (low + 8))]" and ?all = "[0..<Suc (length ids)]"
    obtain c1 where c1: "first_valid_end tk ids ?t ?b ?w c = (find ?P ?w, c1)" "cache_ok tk True ids c1"
      using first_valid_end_ok [OF c] by blast
    obtain c2 where c2: "first_valid_end tk ids ?t ?b ?all c1 = (find ?P ?all, c2)"
      using first_valid_end_ok [OF c1(2)] by blast
    have "?P (length ids)" using b(2) False by (simp add: visible_prefix_def decode_ids_def starts_with_iff)
    then have all: "find ?P ?all \<noteq> None" by (auto simp: find_None_iff simp del: upt_Suc)
    obtain e where e: "find_tail_split_token_end tk ids = Some e" "e \<le> length ids" "?P e"
    proof (cases "find ?P ?w")
      case None
      with all obtain e where "find ?P ?all = Some e" by blast
      moreover from find_SomeD [OF this] have "e \<le> length ids" "?P e" by (auto simp del: upt_Suc)
      ultimately show ?thesis using that False s c1(1) c2 None
        by (simp add: find_tail_split_token_end_def decode_ids_def Let_def)
    next
      case (Some e)
      moreover from find_SomeD [OF this] have "e \<le> length ids" "?P e" by (auto simp del: upt_Suc)
      ultimately show ?thesis using that False s c1(1)
        by (simp add: find_tail_split_token_end_def decode_ids_def Let_def)
    qed
    then show ?thesis using b(1) by (cases "e = 0") (auto simp: visible_prefix_def decode_ids_def)
  qed
qed

text \<open>
  For every tokenizer and every truncated rollout the tail split either finds no sentence end
  to cut at, or returns a positive number of original ids whose decoded prefix is an initial part
  of the response and contains its last sentence end: the fallback scan never comes back empty.
\<close>

theorem tail_split_covers_last_sentence:
  "case find_tail_split_token_end tk ids of
     None \<Rightarrow> ids = [] \<or> sentence_ends (tok_decode tk True ids) = []
   | Some e \<Rightarrow> 0 < e \<and> e \<le> length ids \<and> starts_with (tok_decode tk True ids) (tok_decode tk True (take e ids)) \<and>
       last (sentence_ends (tok_decode tk True ids)) \<le> length (tok_decode tk True (take e ids))"
  by (rule tail_split_bounds)

text \<open>
  C31: The probe reclassifies exactly the truncated rollouts whose Student gains more than 0.3 in
  answer probability: whenever the probe returns, the rollout is marked truncated iff it fills
  the token budget, and marked correct iff it was cut at a sentence end and the finite scores of
  the answer tokens, after the kept reasoning and after the prompt alone, differ by more than
  the threshold.
\<close>

theorem v2_probe_decision:
  assumes "compute_r2opl_v2_probe tk sp prompt ids answer n = Inr r"
  shows "(v2_truncated r \<longleftrightarrow> n \<le> int (length ids)) \<and>
    (v2_probe_correct r \<longleftrightarrow> v2_truncated r \<and>
      (\<exists>e probe h t. find_tail_split_token_end tk ids = Some e \<and>
         build_answer_probe tk answer PROBE_PREFIX PROBE_SUFFIX (lit ''OA-OPD'') = Inr probe \<and>
         sp (prompt @ ap_token_ids probe)
           (map (\<lambda>p. int (length prompt) + p) (ap_answer_token_positions probe)) = Inr (Fin h) \<and>
         sp (prompt @ take e ids @ ap_token_ids probe)
           (map (\<lambda>p. int (length (prompt @ take e ids)) + p) (ap_answer_token_positions probe)) = Inr (Fin t) \<and>
         exp t - exp h > 3 / 10))"
proof (cases "int (length ids) < n")
  case True
  then show ?thesis using assms by (auto simp: compute_r2opl_v2_probe_def not_probed_def)
next
  case False
  show ?thesis
  proof (cases "find_tail_split_token_end tk ids")
    case None
    then show ?thesis using assms False
      by (auto simp: compute_r2opl_v2_probe_def not_probed_def raise_if_Inr)
  next
    case (Some e)
    then have e: "0 < e" "length (take e ids) = e"
      using tail_split_bounds [of ids tk] by auto
    obtain probe head tail where r: "build_answer_probe tk answer PROBE_PREFIX PROBE_SUFFIX (lit ''OA-OPD'') = Inr probe"
      "sp (prompt @ ap_token_ids probe) (map (\<lambda>p. int (length prompt) + p) (ap_answer_token_positions probe)) = Inr head"
      "sp (prompt @ take e ids @ ap_token_ids probe)
         (map (\<lambda>p. int (length prompt) + int e + p) (ap_answer_token_positions probe)) = Inr tail"
      "is_finite head" "is_finite tail" "v2_truncated r"
      "v2_probe_correct r = fless (Fin R2OPL_V2_DELTA_THRESHOLD) (fsub (fexp tail) (fexp head))"
      using assms False Some e(1) by (auto simp: compute_r2opl_v2_probe_def ebind_Inr raise_if_Inr Let_def)
    then show ?thesis using False Some e
      by (auto simp: is_finite_iff R2OPL_V2_DELTA_THRESHOLD_def length_append)
  qed
qed

definition example_student :: student_probe where
  "example_student ids ps = Inr (if length ids < 40 then Fin (ln (1 / 10)) else Fin 0)"

lemma v2_probe_decision_witness:
  "\<exists>r. compute_r2opl_v2_probe character_tokenizer example_student [1] (map of_char ''Yes. But'') (lit ''7'') 8 = Inr r \<and>
     v2_truncated r \<and> v2_probe_correct r"
proof -
  let ?ids = "map of_char ''Yes. But'' :: int list"
  have e: "find_tail_split_token_end character_tokenizer ?ids = Some 4" by code_simp
  have "case build_answer_probe character_tokenizer (lit ''7'') PROBE_PREFIX PROBE_SUFFIX (lit ''OA-OPD'') of
      Inl e \<Rightarrow> False | Inr p \<Rightarrow> length (ap_token_ids p) = 36" by code_simp
  then obtain p where p: "build_answer_probe character_tokenizer (lit ''7'') PROBE_PREFIX PROBE_SUFFIX (lit ''OA-OPD'') = Inr p"
    "length (ap_token_ids p) = 36" by (auto split: sum.splits)
  have ne: "strip (lit ''7'') \<noteq> []" by code_simp
  obtain r where r: "compute_r2opl_v2_probe character_tokenizer example_student [1] ?ids (lit ''7'') 8 = Inr r"
    by (simp add: compute_r2opl_v2_probe_def e [simplified] p(1) [simplified] p(2) ne [simplified] raise_if_def Let_def example_student_def)
  have "v2_truncated r \<and> v2_probe_correct r"
    using v2_probe_decision [OF r] e p ne by (auto simp: example_student_def)
  then show ?thesis using r by blast
qed

end
