(* ===== verification/Actor_Losses.thy ===== *)
theory Actor_Losses
  imports Policy_Loss
begin

text \<open>
  Facts that join the loss side to the kernels: which model output a padded response token
  reads, the clipped PPO objective per token, and that the actor's REINFORCE loss is the loss
  of the pure R2OPL kernel.
\<close>

section \<open>Every response token reads the output of the position before it\<close>

lemma shifted_slice:
  assumes "length seq = pl + rl" "0 < pl"
  shows "py_slice (int (length pre + (pl + rl)) - int rl - 1) (int (length pre + (pl + rl)) - 1)
      (pre @ seq @ post) = take rl (drop (pl - 1) seq)"
proof -
  have "int (length pre + (pl + rl)) - int rl - 1 = int (length pre + (pl - 1))"
    "int (length pre + (pl + rl)) - 1 = int (length pre + (pl - 1 + rl))" using assms(2) by simp_all
  then have "py_slice (int (length pre + (pl + rl)) - int rl - 1) (int (length pre + (pl + rl)) - 1)
      (pre @ seq @ post) = slice (length pre + (pl - 1)) (length pre + (pl - 1 + rl)) (pre @ seq @ post)"
    using assms by (simp only: py_slice_of_nat length_append)
  also have "\<dots> = take rl (drop (pl - 1) seq)"
    using assms by (simp add: slice_def)
  finally show ?thesis .
qed

lemma length_pad_output_row: "int (length row) + k \<ge> 0 \<Longrightarrow> length (pad_output_row k row) = nat (int (length row) + k)"
  by (auto simp: pad_output_row_def)

lemma nth_pad_output_row:
  "int j < int (length row) + k \<Longrightarrow> pad_output_row k row ! j = (if j < length row then row ! j else Fin 0)"
  by (auto simp: pad_output_row_def nth_append)

lemma padded_rows:
  assumes "length pls = length seqs" "length rls = length seqs"
    and "list_all (\<lambda>((pl, rl), seq). length seq = pl + rl \<and> 0 < pl) (zip (zip pls rls) seqs)"
  shows "map2 (\<lambda>rl off. pad_output_row (m - int rl) (py_slice (int off - int rl - 1) (int off - 1) (pre @ concat seqs)))
       rls (cumsum_from (length pre) (map2 (+) pls rls)) =
     map (\<lambda>((pl, rl), seq). pad_output_row (m - int rl) (take rl (drop (pl - 1) seq))) (zip (zip pls rls) seqs)"
  using assms
proof (induction seqs arbitrary: pre pls rls)
  case (Cons seq seqs)
  from Cons.prems obtain pl pls' rl rls' where eq: "pls = pl # pls'" "rls = rl # rls'"
    by (cases pls; cases rls) auto
  have "map2 (\<lambda>rl off. pad_output_row (m - int rl) (py_slice (int off - int rl - 1) (int off - 1) ((pre @ seq) @ concat seqs)))
       rls' (cumsum_from (length (pre @ seq)) (map2 (+) pls' rls')) =
     map (\<lambda>((pl, rl), seq). pad_output_row (m - int rl) (take rl (drop (pl - 1) seq))) (zip (zip pls' rls') seqs)"
    using Cons.prems eq by (intro Cons.IH) auto
  moreover have "length seq = pl + rl" "0 < pl" using Cons.prems(3) eq by auto
  moreover note shifted_slice [OF this, of pre "concat seqs"]
  ultimately show ?case by (simp add: eq)
qed simp

lemma cumsum_Nil_iff [simp]: "cumsum_from s ns = [] \<longleftrightarrow> ns = []"
  by (cases ns) auto

lemma last_cumsum: "ns \<noteq> [] \<Longrightarrow> last (cumsum_from s ns) = s + sum_list ns"
  by (induction s ns rule: cumsum_from.induct) auto

lemma length_cumsum [simp]: "length (cumsum_from s ns) = length ns"
  by (induction s ns rule: cumsum_from.induct) auto

text \<open>A jagged batch: the output has one entry per prompt and response token of each row.\<close>

definition batch_fits :: "nat list list \<Rightarrow> nat list list \<Rightarrow> 'a list list \<Rightarrow> bool" where
  "batch_fits prompts responses outputs =
     (prompts \<noteq> [] \<and> length prompts = length outputs \<and> length responses = length outputs \<and>
      list_all (\<lambda>((p, r), out). p \<noteq> [] \<and> length out = length p + length r) (zip (zip prompts responses) outputs))"

lemma batch_fits_nth:
  "batch_fits prompts responses outputs \<Longrightarrow> i < length prompts
   \<Longrightarrow> prompts ! i \<noteq> [] \<and> length (outputs ! i) = length (prompts ! i) + length (responses ! i)"
  by (auto simp: batch_fits_def list_all_length)

lemma batch_total:
  assumes "batch_fits prompts responses outputs"
  shows "sum_list (map2 (+) (map length prompts) (map length responses)) = length (concat outputs)"
proof -
  have "map2 (+) (map length prompts) (map length responses) = map length outputs"
    using assms batch_fits_nth [OF assms] by (auto simp: batch_fits_def intro!: nth_equalityI)
  then show ?thesis by (simp add: length_concat)
qed

text \<open>
  On a jagged batch with non-empty prompts, \<open>no_padding_2_padding\<close> returns a matrix of
  one row per sequence whose entry for response token \<open>j\<close> is the model output at the
  position just before that token, and zero beyond the response.
\<close>

theorem padded_output_reads_previous_position:
  assumes fits: "batch_fits prompts responses outputs" and "0 \<le> max_len"
  shows "\<exists>M. no_padding_2_padding (concat outputs) (Nested_Batch prompts responses) max_len = Inr M \<and>
    wf_mat M \<and> shape M = (length prompts, nat max_len) \<and>
    (\<forall>i < length prompts. \<forall>j < nat max_len. mget M i j =
       (if j < length (responses ! i) then outputs ! i ! (length (prompts ! i) + j - 1) else Fin 0))"
proof -
  let ?pls = "map length prompts" and ?rls = "map length responses"
  let ?R = "map (\<lambda>((pl, rl), seq). pad_output_row (max_len - int rl) (take rl (drop (pl - 1) seq))) (zip (zip ?pls ?rls) outputs)"
  have len: "length prompts = length outputs" "length responses = length outputs" "prompts \<noteq> []"
    using fits by (auto simp: batch_fits_def)
  note row = batch_fits_nth [OF fits]
  have ok: "list_all (\<lambda>((pl, rl), seq). length seq = pl + rl \<and> 0 < pl) (zip (zip ?pls ?rls) outputs)"
    using row len by (auto simp: list_all_length)
  have "map2 (+) ?pls ?rls \<noteq> []" using len by (cases prompts; cases responses) auto
  then have offs: "last (cumsum_from 0 (map2 (+) ?pls ?rls)) = length (concat outputs)"
    "cumsum_from 0 (map2 (+) ?pls ?rls) \<noteq> []"
    using batch_total [OF fits] by (simp_all add: last_cumsum)
  have pos: "0 \<notin> set ?pls" using row by (auto simp: in_set_conv_nth)
  have rows: "map2 (\<lambda>rl off. pad_output_row (max_len - int rl) (py_slice (int off - int rl - 1) (int off - 1) (concat outputs)))
      ?rls (cumsum_from 0 (map2 (+) ?pls ?rls)) = ?R"
    using padded_rows [OF _ _ ok, of max_len "[]"] len by simp
  let ?M = "\<lparr>width = nat max_len, rows = ?R\<rparr> :: flt mat"
  have result: "no_padding_2_padding (concat outputs) (Nested_Batch prompts responses) max_len = Inr ?M"
    unfolding no_padding_2_padding_def using assms(2) offs pos by (simp add: rows raise_if_def)
  have row_i: "rows ?M ! i = pad_output_row (max_len - int (length (responses ! i)))
      (take (length (responses ! i)) (drop (length (prompts ! i) - 1) (outputs ! i)))" if "i < length prompts" for i
    using that len by simp
  have len_i: "length (take (length (responses ! i)) (drop (length (prompts ! i) - 1) (outputs ! i))) =
      length (responses ! i)" if "i < length prompts" for i
    using row [OF that] by simp
  have entry: "mget ?M i j = (if j < length (responses ! i) then outputs ! i ! (length (prompts ! i) + j - 1) else Fin 0)"
    if ij: "i < length prompts" "j < nat max_len" for i j
  proof -
    have "length (prompts ! i) - 1 + j = length (prompts ! i) + j - 1" "length (prompts ! i) - 1 \<le> length (outputs ! i)"
      using row [OF ij(1)] by (cases "prompts ! i"; simp)+
    then show ?thesis using row_i [OF ij(1)] len_i [OF ij(1)] ij(2)
      by (simp only: mget_def) (simp add: nth_pad_output_row)
  qed
  have height: "height ?M = length prompts" using len by (simp add: height_def)
  have "length (rows ?M ! i) = nat max_len" if i: "i < length prompts" for i
    using row_i [OF i] len_i [OF i] assms(2) by (simp only: length_pad_output_row)
  then have wf: "wf_mat ?M"
    unfolding wf_mat_def using height by (simp only: height_def all_set_conv_all_nth mat.simps) simp
  show ?thesis
    by (intro exI [of _ ?M] conjI result wf) (use entry height in \<open>auto simp only: shape_def mat.simps\<close>)
qed

lemma padded_output_reads_previous_position_witness:
  "\<exists>M. no_padding_2_padding (map Fin [10, 11, 12, 20, 21]) (Nested_Batch [[7, 8], [9]] [[1], [2]]) 2 = Inr M \<and>
    mget M 0 0 = Fin 11 \<and> mget M 1 0 = Fin 20 \<and> mget M 1 1 = Fin 0"
  using padded_output_reads_previous_position [of "[[7, 8], [9]]" "[[1], [2]]"
      "[map Fin [10, 11, 12], map Fin [20, 21]]" 2]
  by (auto simp: batch_fits_def)

section \<open>The clipped objective\<close>

lemma fmax_Fin: "fmax (Fin x) (Fin y) = Fin (max x y)"
  by (simp add: fmax_def max_def)

lemma fmin_Fin: "fmin (Fin x) (Fin y) = Fin (min x y)"
  by (auto simp: fmin_def min_def)

lemma max_neg_mult: "(0 :: real) \<le> a \<Longrightarrow> max (- a * x) (- a * y) = - a * min x y"
  by (cases "a = 0") (simp_all add: min_mult_distrib_left)

lemma max_pos_mult: "a < (0 :: real) \<Longrightarrow> max (- a * x) (- a * y) = - a * max x y"
  by (auto simp: max_def mult_le_cancel_left)

lemma min_pos_mult: "a < (0 :: real) \<Longrightarrow> min (- a * x) (- a * y) = - a * min x y"
  by (auto simp: min_def mult_le_cancel_left)

text \<open>
  The PPO token loss computed with clamps, maxima and minima is the dual-clip objective:
  for a non-negative advantage the ratio counts up to 1 + high, for a negative one it counts
  from 1 - low on and at most c.
\<close>

theorem vanilla_token_loss_formula:
  assumes "0 \<le> low" "0 \<le> high"
  shows "vanilla_token_loss low high c (Fin r) (Fin a) =
    Fin (if 0 \<le> a then - a * min r (1 + high) else - a * min c (max r (1 - low)))"
proof (cases "0 \<le> a")
  case True
  have "min r (min (max r (1 - low)) (1 + high)) = min r (1 + high)" using assms by auto
  then show ?thesis using True max_neg_mult [OF True, of r "min (max r (1 - low)) (1 + high)"]
    by (simp add: vanilla_token_loss_def fmax_Fin)
next
  case False
  then have a: "a < 0" by simp
  have "max r (min (max r (1 - low)) (1 + high)) = max r (1 - low)" using assms by auto
  then show ?thesis
    using False max_pos_mult [OF a, of r "min (max r (1 - low)) (1 + high)"] min_pos_mult [OF a, of c "max r (1 - low)"]
    by (simp add: vanilla_token_loss_def fmax_Fin fmin_Fin)
qed

lemma vanilla_token_loss_formula_witness:
  "vanilla_token_loss (1 / 5) (1 / 5) 3 (Fin 2) (Fin 10) = Fin (- 12) \<and>
   vanilla_token_loss (1 / 5) (1 / 5) 3 (Fin 7) (Fin (- 10)) = Fin 30"
  using vanilla_token_loss_formula [of "1 / 5" "1 / 5" 3 2 10]
    vanilla_token_loss_formula [of "1 / 5" "1 / 5" 3 7 "- 10"]
  by simp

section \<open>The actor's REINFORCE loss is the kernel's loss\<close>

lemma fmul_fneg: "fmul (fneg x) y = fneg (fmul x y)"
  by (cases x; cases y) (simp_all add: finf_def)

lemma fdiv_pos_real: "c > 0 \<Longrightarrow> fdiv_pos v c = fdiv_real v c"
  by (cases v) simp_all

lemma masked_row_sums_token_loss:
  assumes "wf_mat a" "wf_mat s" "wf_mat b" "shape a = shape s" "shape b = shape s"
  shows "masked_row_sums (mmap2 fmul (mmap fneg a) s) b = map fsum (rows (token_loss_mat s a b))"
proof -
  have "mmap2 fmul (mmap2 fmul (mmap fneg a) s) (mmap of_mask b) = token_loss_mat s a b"
    unfolding token_loss_mat_def using assms
    by (intro mat_eqI) (auto simp: mat_simps shape_iff fmul_fneg)
  then show ?thesis by (simp add: masked_row_sums_def)
qed

lemma vcount_le_length: "vcount bs \<le> length bs"
  by (simp add: vcount_def)

lemma actor_reinforce_is_kernel_loss_aux:
  assumes "wf_mat a" "wf_mat s" "wf_mat b" "shape a = shape s" "shape b = shape s"
    and "vcount (active_rows b) = n" "0 < n"
    and "pc_global_batch_info config = \<lparr>ai_dp_size = 1, ai_batch_num_tokens = t,
           ai_global_batch_size = Some n, ai_loss_scale_factor = f\<rparr>"
  shows "\<exists>loss ms. compute_policy_loss_reinforce_registered old s a b ''seq-mean-token-sum'' config w =
      Inr (loss, ms) \<and> r2opl_reinforce_loss s a b = Inr loss"
proof -
  let ?per = "map fsum (rows (token_loss_mat s a b))"
  have len: "length ?per = length (active_rows b)"
    using assms(4,5) by (simp add: active_rows_def token_loss_mat_def mmap2_def mmap_def shape_iff height_def)
  have "vselect (active_rows b) ?per \<noteq> []"
    using length_vselect [of "active_rows b" ?per] len assms(6,7) by auto
  moreover have "\<exists>x \<in> set (active_rows b). x"
    using assms(6,7) vcount_eq_0 [of "active_rows b"] by auto
  ultimately have "r2opl_reinforce_loss s a b = Inr (fdiv_real (fsum (vselect (active_rows b) ?per)) (real n))"
    using assms(4-7) len length_vselect [of "active_rows b" ?per]
    by (auto simp: r2opl_reinforce_loss_def active_rows_def fmean_def fdiv_pos_real Let_def)
  moreover have "agg_loss (mmap2 fmul (mmap fneg a) s) b ''seq-mean-token-sum'' (pc_global_batch_info config) =
      Inr (fdiv_real (fsum (vselect (active_rows b) ?per)) (real n))"
    using masked_row_sums_token_loss [OF assms(1-5)] len
    by (simp add: agg_loss_def sequence_mean_def global_count_def assms(8) vector_masked_sum_selects)
  ultimately show ?thesis
    by (simp add: compute_policy_loss_reinforce_registered_def compute_policy_loss_reinforce_def Let_def)
qed

text \<open>Rows of the per-token losses of stacked shards.\<close>

definition loss_shards_ok :: "nat \<Rightarrow> (flt mat \<times> flt mat \<times> bool mat) list \<Rightarrow> bool" where
  "loss_shards_ok w shards =
     list_all (\<lambda>(a, s, b). wf_mat a \<and> wf_mat s \<and> wf_mat b \<and> shape a = shape s \<and> shape b = shape s \<and> width b = w) shards"

definition shard_losses :: "(flt mat \<times> flt mat \<times> bool mat) list \<Rightarrow> (flt mat \<times> bool mat) list" where
  "shard_losses shards = map (\<lambda>(a, s, b). (mmap2 fmul (mmap fneg a) s, b)) shards"

definition stack_of :: "nat \<Rightarrow> ('s \<Rightarrow> 'a mat) \<Rightarrow> 's list \<Rightarrow> 'a mat" where
  "stack_of w f shards = stack_mats w (map f shards)"

lemma rows_stack_of_Cons: "rows (stack_of w f (x # xs)) = rows (f x) @ rows (stack_of w f xs)"
  by (simp add: stack_of_def rows_stack_Cons)

lemma wf_stack_of: "(\<And>x. x \<in> set xs \<Longrightarrow> wf_mat (f x) \<and> width (f x) = w) \<Longrightarrow> wf_mat (stack_of w f xs)"
  by (fastforce simp: wf_mat_def stack_of_def stack_mats_def)

lemma height_stack_of: "height (stack_of w f xs) = sum_list (map (\<lambda>x. height (f x)) xs)"
  by (simp add: stack_of_def stack_mats_def height_def length_concat comp_def)

lemma width_stack_of: "width (stack_of w f xs) = w"
  by (simp add: stack_of_def mat_simps)

lemma stacked_losses:
  assumes "loss_shards_ok w shards"
  shows "mmap2 fmul (mmap fneg (stack_of w fst shards)) (stack_of w (fst \<circ> snd) shards) =
    stack_mats w (map fst (shard_losses shards))"
proof -
  have "rows (mmap2 fmul (mmap fneg (stack_of w fst shards)) (stack_of w (fst \<circ> snd) shards)) =
      rows (stack_mats w (map fst (shard_losses shards)))"
    using assms
  proof (induction shards)
    case (Cons x shards)
    obtain a s b where x: "x = (a, s, b)" by (cases x)
    have "length (rows a) = length (rows s)"
      using Cons.prems x by (simp add: loss_shards_ok_def shape_iff height_def)
    then show ?case using Cons x
      by (simp add: loss_shards_ok_def shard_losses_def rows_stack_Cons rows_stack_of_Cons mmap2_def mmap_def)
  qed (simp add: stack_of_def stack_mats_def shard_losses_def mmap2_def mmap_def)
  then show ?thesis by (simp add: stack_of_def stack_mats_def mmap2_def mmap_def)
qed

text \<open>
  C22: However the rollouts are split into micro-batches over data-parallel ranks, the average
  over ranks of the summed REINFORCE policy losses of the actor, in mode seq-mean-token-sum
  with the global batch size equal to the number of rollouts that have response tokens, is the
  loss the pure R2OPL kernel defines on the whole batch.
\<close>

theorem split_actor_losses_are_kernel_loss:
  assumes ok: "loss_shards_ok w shards"
    and info: "ai_dp_size g > 0" "ai_batch_num_tokens g = Some t" "0 < t" "ai_global_batch_size g = Some n" "0 < n"
      "0 < agg_horizon w g" "pc_global_batch_info config = g"
    and n: "vcount (active_rows (stack_of w (snd \<circ> snd) shards)) = n"
  shows "\<exists>ls. emap (\<lambda>(a, s, b). ebind (compute_policy_loss_reinforce_registered old s a b ''seq-mean-token-sum'' config isw)
             (\<lambda>(loss, ms). Inr loss)) shards = Inr ls \<and>
    r2opl_reinforce_loss (stack_of w (fst \<circ> snd) shards) (stack_of w fst shards) (stack_of w (snd \<circ> snd) shards) =
      Inr (fdiv_real (fsum ls) (real (ai_dp_size g)))"
proof -
  let ?A = "stack_of w fst shards" and ?S = "stack_of w (fst \<circ> snd) shards" and ?B = "stack_of w (snd \<circ> snd) shards"
  let ?g = "g\<lparr>ai_dp_size := 1\<rparr>"
  have ok1: "wf_mat a \<and> wf_mat s \<and> wf_mat b \<and> height a = height s \<and> height b = height s \<and>
      width a = w \<and> width s = w \<and> width b = w" if "(a, s, b) \<in> set shards" for a s b
    using ok that by (auto simp: loss_shards_ok_def list_all_iff shape_iff)
  have "shards_ok w (shard_losses shards)"
    using ok1 by (auto simp: shards_ok_def shard_losses_def list_all_iff mat_simps shape_iff)
  then obtain ls where ls: "emap (\<lambda>(m, b). agg_loss m b ''seq-mean-token-sum'' g) (shard_losses shards) = Inr ls"
    "agg_loss (stack_mats w (map fst (shard_losses shards))) (stack_mats w (map snd (shard_losses shards)))
       ''seq-mean-token-sum'' ?g = Inr (fdiv_real (fsum ls) (real (ai_dp_size g)))"
    using agg_loss_split [of "''seq-mean-token-sum''" w "shard_losses shards" g t n] info
    by (auto simp: agg_modes_def)
  have snds: "stack_mats w (map snd (shard_losses shards)) = ?B"
    by (simp add: shard_losses_def stack_of_def comp_def case_prod_unfold)
  have each: "ebind (compute_policy_loss_reinforce_registered old s a b ''seq-mean-token-sum'' config isw)
      (\<lambda>(loss, ms). Inr loss) = agg_loss (mmap2 fmul (mmap fneg a) s) b ''seq-mean-token-sum'' g" for a s b
    by (cases "agg_loss (mmap2 fmul (mmap fneg a) s) b ''seq-mean-token-sum'' g")
      (simp_all add: compute_policy_loss_reinforce_registered_def compute_policy_loss_reinforce_def info(7))
  have emap_map: "emap f (map h xs) = emap (\<lambda>x. f (h x)) xs" for f :: "'p \<Rightarrow> 'q res" and h and xs :: "'r list"
    by (induction xs) simp_all
  have "emap (\<lambda>(a, s, b). ebind (compute_policy_loss_reinforce_registered old s a b ''seq-mean-token-sum'' config isw)
      (\<lambda>(loss, ms). Inr loss)) shards = Inr ls"
    using ls(1) unfolding each shard_losses_def emap_map by (simp add: case_prod_unfold)
  moreover have "\<exists>loss ms. compute_policy_loss_reinforce_registered old ?S ?A ?B ''seq-mean-token-sum''
        (config\<lparr>pc_global_batch_info := ?g\<rparr>) None = Inr (loss, ms) \<and> r2opl_reinforce_loss ?S ?A ?B = Inr loss"
  proof (rule actor_reinforce_is_kernel_loss_aux [where n = n and t = "Some t" and f = "ai_loss_scale_factor g"])
    show "pc_global_batch_info (config\<lparr>pc_global_batch_info := ?g\<rparr>) = \<lparr>ai_dp_size = 1, ai_batch_num_tokens = Some t,
        ai_global_batch_size = Some n, ai_loss_scale_factor = ai_loss_scale_factor g\<rparr>"
      using info by (cases g) simp
    show "wf_mat ?A" "wf_mat ?S" "wf_mat ?B" using ok1 by (auto intro!: wf_stack_of)
    have "map (\<lambda>x. height (fst x)) shards = map (\<lambda>x. height (fst (snd x))) shards"
      "map (\<lambda>x. height (snd (snd x))) shards = map (\<lambda>x. height (fst (snd x))) shards"
      using ok1 by auto
    then show "shape ?A = shape ?S" "shape ?B = shape ?S"
      unfolding shape_iff height_stack_of width_stack_of comp_def by (simp_all only: simp_thms)
  qed (use info n in simp_all)
  ultimately show ?thesis using ls(2) unfolding snds stacked_losses [OF ok, symmetric]
    by (auto simp: compute_policy_loss_reinforce_registered_def compute_policy_loss_reinforce_def)
qed

lemma split_actor_losses_are_kernel_loss_witness:
  "\<exists>ls. emap (\<lambda>(a, s, b). ebind (compute_policy_loss_reinforce_registered \<lparr>width = 1, rows = [[Fin 0]]\<rparr> s a b
        ''seq-mean-token-sum''
        \<lparr>pc_clip_ratio = 0, pc_clip_ratio_low = None, pc_clip_ratio_high = None, pc_clip_ratio_c = 3,
         pc_global_batch_info = \<lparr>ai_dp_size = 2, ai_batch_num_tokens = Some 2, ai_global_batch_size = Some 2,
           ai_loss_scale_factor = None\<rparr>\<rparr> None) (\<lambda>(loss, ms). Inr loss))
      [(\<lparr>width = 1, rows = [[Fin 3]]\<rparr>, \<lparr>width = 1, rows = [[Fin (-1)]]\<rparr>, \<lparr>width = 1, rows = [[True]]\<rparr>),
       (\<lparr>width = 1, rows = [[Fin 5]]\<rparr>, \<lparr>width = 1, rows = [[Fin (-2)]]\<rparr>, \<lparr>width = 1, rows = [[True]]\<rparr>)] = Inr ls \<and>
    r2opl_reinforce_loss \<lparr>width = 1, rows = [[Fin (-1)], [Fin (-2)]]\<rparr> \<lparr>width = 1, rows = [[Fin 3], [Fin 5]]\<rparr>
      \<lparr>width = 1, rows = [[True], [True]]\<rparr> = Inr (fdiv_real (fsum ls) 2)"
  using split_actor_losses_are_kernel_loss [of 1
      "[(\<lparr>width = 1, rows = [[Fin 3]]\<rparr>, \<lparr>width = 1, rows = [[Fin (-1)]]\<rparr>, \<lparr>width = 1, rows = [[True]]\<rparr>),
        (\<lparr>width = 1, rows = [[Fin 5]]\<rparr>, \<lparr>width = 1, rows = [[Fin (-2)]]\<rparr>, \<lparr>width = 1, rows = [[True]]\<rparr>)]"
      "\<lparr>ai_dp_size = 2, ai_batch_num_tokens = Some 2, ai_global_batch_size = Some 2, ai_loss_scale_factor = None\<rparr>"
      2 2 "\<lparr>pc_clip_ratio = 0, pc_clip_ratio_low = None, pc_clip_ratio_high = None, pc_clip_ratio_c = 3,
         pc_global_batch_info = \<lparr>ai_dp_size = 2, ai_batch_num_tokens = Some 2, ai_global_batch_size = Some 2,
           ai_loss_scale_factor = None\<rparr>\<rparr>" "\<lparr>width = 1, rows = [[Fin 0]]\<rparr>" None]
  by (simp add: loss_shards_ok_def wf_mat_def shape_def height_def agg_horizon_def stack_of_def stack_mats_def
      active_rows_def del: One_nat_def emap.simps)

end
