(* ===== verification/Distill_Base.thy ===== *)
theory Distill_Base
  imports Actor_Losses
begin

text \<open>
  The common part of \<open>verl/trainer/distillation/losses.py\<close>: what a distillation loss function
  reads (model output, micro-batch fields, configuration), the registry, token selection, the
  outcome statistics, and the sampled-token estimators built on them.

  Token tensors arrive unpadded (flat lists, their trailing size-one dimension squeezed) and go
  through \<open>no_padding_2_padding\<close>; two-dimensional fields arrive padded (a nested tensor and its
  zero-padded form are one value here). A scalar and a one-element tensor are one value too,
  since the code reshapes both to one dimension.
\<close>

section \<open>Inputs\<close>

record distill_data =
  dd_batch :: padding_batch
  dd_max_len :: int
  dd_response_mask :: "bool mat"
  dd_tokens :: "(string \<times> flt list) list"
  dd_mats :: "(string \<times> flt mat) list"
  dd_masks :: "(string \<times> bool mat) list"
  dd_values :: "(string \<times> flt list) list"
  dd_branch :: "string option"
  dd_uid :: "string list"
  dd_track_outcome :: bool
  dd_old_log_probs :: "flt mat"
  dd_rollout_is_weights :: "flt mat option"
  dd_dp_size :: nat
  dd_batch_num_tokens :: "nat option"
  dd_global_batch_size :: "nat option"

text \<open>The model output: flat token tensors, and the packed probe results of R2OPL.\<close>

record model_output =
  mo_tokens :: "(string \<times> flt list) list"
  mo_probe_probabilities :: "flt mat option"
  mo_probe_branch_mask :: "bool mat option"
  mo_semantic_step_ranges :: "(int \<times> int) mat option"
  mo_semantic_step_mask :: "bool mat option"

text \<open>The fields of \<open>DistillationLossConfig\<close> the loss functions read.\<close>

record distill_config =
  dc_loss_mode :: string
  dc_topk :: "nat option"
  dc_selection_ratio :: real
  dc_selection_method :: string
  dc_opd_statistics_threshold :: real
  dc_eopd_entropy_threshold :: real
  dc_eopd_alpha :: real
  dc_sensitivity_threshold :: real
  dc_w_sens :: real
  dc_w_stable :: real
  dc_cal_lambda :: flt
  dc_exopd_lambda :: flt
  dc_opdvr_grpd :: bool
  dc_sol_opd_epsilon :: flt
  dc_r2opl_lambda :: "flt option"
  dc_use_task_rewards :: bool
  dc_distillation_loss_coef :: real
  dc_loss_max_clamp :: "real option"
  dc_use_policy_gradient :: bool
  dc_policy_loss_mode :: string
  dc_clip_ratio :: real
  dc_clip_ratio_low :: "real option"
  dc_clip_ratio_high :: "real option"

text \<open>
  The two PyTorch operations whose result the code does not determine: a uniform random tensor
  and the choice of \<open>torch.topk\<close> (values, k, largest) among ties, given as indices.
\<close>

record torch_env =
  te_rand :: "flt mat"
  te_topk :: "flt list \<Rightarrow> nat \<Rightarrow> bool \<Rightarrow> nat list"

datatype aggregation = AggSum | AggMean | AggMin | AggMax | AggNone

type_synonym metric_entries = "(string \<times> aggregation \<times> flt) list"

type_synonym distill_loss_fn =
  "torch_env \<Rightarrow> distill_config \<Rightarrow> model_output \<Rightarrow> distill_data \<Rightarrow> (flt mat \<times> metric_entries) res"

definition lookup_field :: "(string \<times> 'a) list \<Rightarrow> string \<Rightarrow> 'a res" where
  "lookup_field fs name = (case dict_get name fs of None \<Rightarrow> Inl (KeyError name) | Some v \<Rightarrow> Inr v)"

text \<open>\<open>no_padding_2_padding(tensor, data)\<close> of a named model output or data field.\<close>

definition padded_tokens :: "distill_data \<Rightarrow> (string \<times> flt list) list \<Rightarrow> string \<Rightarrow> flt mat res" where
  "padded_tokens d fs name =
     ebind (lookup_field fs name) (\<lambda>xs. no_padding_2_padding xs (dd_batch d) (dd_max_len d))"

definition student_teacher :: "model_output \<Rightarrow> distill_data \<Rightarrow> (flt mat \<times> flt mat) res" where
  "student_teacher mo d =
     ebind (padded_tokens d (mo_tokens mo) ''log_probs'') (\<lambda>s.
     ebind (padded_tokens d (dd_tokens d) ''teacher_logprobs'') (\<lambda>t. Inr (s, t)))"

section \<open>The registry\<close>

record loss_settings =
  ls_names :: "string list"
  ls_use_topk :: bool
  ls_use_estimator :: bool
  ls_use_full_vocab_teacher_entropy :: bool

definition make_settings :: "string list \<Rightarrow> bool \<Rightarrow> bool \<Rightarrow> bool \<Rightarrow> loss_settings res" where
  "make_settings names use_topk use_estimator full_vocab =
     raise_if (use_topk = use_estimator) (ValueError ''Expected only one of use_estimator, use_topk'')
       (Inr \<lparr>ls_names = names, ls_use_topk = use_topk, ls_use_estimator = use_estimator,
            ls_use_full_vocab_teacher_entropy = full_vocab\<rparr>)"

type_synonym 'f registry = "(string \<times> 'f \<times> loss_settings) list"

fun register_names :: "string list \<Rightarrow> 'f \<Rightarrow> loss_settings \<Rightarrow> 'f registry \<Rightarrow> 'f registry res" where
  "register_names [] f s registry = Inr registry"
| "register_names (name # names) f s registry =
     raise_if (dict_get name registry \<noteq> None) (ValueError ''is already registered'')
       (register_names names f s (dict_put name (f, s) registry))"

definition register_distillation_loss :: "loss_settings \<Rightarrow> 'f \<Rightarrow> 'f registry \<Rightarrow> 'f registry res" where
  "register_distillation_loss s f registry = register_names (ls_names s) f s registry"

definition get_distillation_loss_fn :: "'f registry \<Rightarrow> string \<Rightarrow> 'f res" where
  "get_distillation_loss_fn registry name =
     (case dict_get name registry of
        None \<Rightarrow> Inl (ValueError ''Unsupported loss mode'') | Some (f, _) \<Rightarrow> Inr f)"

definition get_distillation_loss_settings :: "'f registry \<Rightarrow> string \<Rightarrow> loss_settings res" where
  "get_distillation_loss_settings registry name =
     (case dict_get name registry of
        None \<Rightarrow> Inl (ValueError ''Unsupported loss mode'') | Some (_, s) \<Rightarrow> Inr s)"

section \<open>Reductions used by the metrics\<close>

definition count_true :: "bool mat \<Rightarrow> flt" where
  "count_true b = count_flt (mcount b)"

definition selected_sum :: "bool mat \<Rightarrow> flt mat \<Rightarrow> flt" where
  "selected_sum b m = fsum (mselect b m)"

definition selected_mean :: "bool mat \<Rightarrow> flt mat \<Rightarrow> flt" where
  "selected_mean b m = fmean (mselect b m)"

text \<open>\<open>tensor.sum() * 0.0\<close>: zero unless the tensor holds a non-finite value.\<close>

definition zero_of :: "flt mat \<Rightarrow> flt" where
  "zero_of m = fmul (fsum (concat (rows m))) (Fin 0)"

definition mean_or :: "flt \<Rightarrow> bool mat \<Rightarrow> flt mat \<Rightarrow> flt" where
  "mean_or zero b m = (let selected = mselect b m in if selected = [] then zero else fmean selected)"

fun fsqrt :: "flt \<Rightarrow> flt" where
  "fsqrt (Fin x) = (if x < 0 then NaN else Fin (sqrt x))"
| "fsqrt PInf = PInf"
| "fsqrt _ = NaN"

definition vector_norm :: "flt list \<Rightarrow> flt" where
  "vector_norm xs = fsqrt (fsum (map fsquare xs))"

text \<open>Division of two tensors.\<close>

fun fdiv :: "flt \<Rightarrow> flt \<Rightarrow> flt" where
  "fdiv x (Fin c) = fdiv_real x c"
| "fdiv x NaN = NaN"
| "fdiv (Fin x) _ = Fin 0"
| "fdiv _ _ = NaN"

definition relative_change :: "bool mat \<Rightarrow> flt mat \<Rightarrow> flt mat \<Rightarrow> flt" where
  "relative_change b changed base =
     fdiv (vector_norm (map2 fsub (mselect b changed) (mselect b base)))
       (fclamp_min (1 / 10 ^ 12) (vector_norm (mselect b base)))"

definition clamp_signal :: "real option \<Rightarrow> flt mat \<Rightarrow> flt mat" where
  "clamp_signal bound m = (case bound of None \<Rightarrow> m | Some c \<Rightarrow> mmap (fclamp (- c) c) m)"

definition mask_signal :: "flt mat \<Rightarrow> bool mat \<Rightarrow> flt mat" where
  "mask_signal m b = mmap2 fmul m (mmap of_mask b)"

text \<open>A minimum over no element raises.\<close>

definition reduce_extreme :: "(flt \<Rightarrow> flt \<Rightarrow> flt) \<Rightarrow> flt list \<Rightarrow> flt res" where
  "reduce_extreme f xs =
     (case xs of [] \<Rightarrow> Inl (RuntimeError ''reduction of an empty tensor'') | y # ys \<Rightarrow> Inr (foldr f ys y))"

definition compute_distillation_loss_range :: "flt mat \<Rightarrow> bool mat \<Rightarrow> metric_entries res" where
  "compute_distillation_loss_range losses response_mask =
     (let selected = mselect response_mask losses in
      ebind (reduce_extreme fmin selected) (\<lambda>lo.
      ebind (reduce_extreme fmax selected) (\<lambda>hi.
      Inr [(''distillation/loss_min'', AggMin, lo), (''distillation/loss_max'', AggMax, hi)])))"

section \<open>Outcome statistics\<close>

definition outcome_statistics ::
  "flt mat \<Rightarrow> bool mat \<Rightarrow> bool mat \<Rightarrow> real \<Rightarrow> (string \<times> flt) list" where
  "outcome_statistics vals correct wrong threshold =
     (let positive = mmap (\<lambda>v. fless (Fin threshold) v) vals;
          negative = mmap (\<lambda>v. fless v (Fin (- threshold))) vals;
          positive_mass = mmap (fclamp_min 0) vals;
          negative_mass = mmap (\<lambda>v. fclamp_min 0 (fneg v)) vals
      in [(''correct_token_count'', count_true correct),
          (''wrong_token_count'', count_true wrong),
          (''correct_advantage_sum'', selected_sum correct vals),
          (''wrong_advantage_sum'', selected_sum wrong vals),
          (''correct_abs_advantage_sum'', selected_sum correct (mmap fabs vals)),
          (''wrong_abs_advantage_sum'', selected_sum wrong (mmap fabs vals)),
          (''correct_positive_token_count'', count_true (mat_and correct positive)),
          (''wrong_positive_token_count'', count_true (mat_and wrong positive)),
          (''correct_negative_token_count'', count_true (mat_and correct negative)),
          (''wrong_negative_token_count'', count_true (mat_and wrong negative)),
          (''correct_positive_mass_sum'', selected_sum correct positive_mass),
          (''wrong_positive_mass_sum'', selected_sum wrong positive_mass),
          (''correct_negative_mass_sum'', selected_sum correct negative_mass),
          (''wrong_negative_mass_sum'', selected_sum wrong negative_mass)])"

definition rollout_correct :: "flt mat \<Rightarrow> bool list" where
  "rollout_correct reward_tensor = map (\<lambda>r. fless (Fin (1 / 2)) (fsum r)) (rows reward_tensor)"

definition compute_opd_outcome_statistics ::
  "flt mat \<Rightarrow> bool mat \<Rightarrow> flt mat \<Rightarrow> real \<Rightarrow> metric_entries res" where
  "compute_opd_outcome_statistics advantage response_mask rm_scores statistics_threshold =
     raise_if (shape advantage \<noteq> shape response_mask)
       (ValueError ''OPD outcome advantage and response mask must have identical shapes'')
     (raise_if (statistics_threshold < 0) (ValueError ''statistics_threshold must be non-negative'')
     (raise_if (height rm_scores \<noteq> height advantage)
       (ValueError ''OPD outcome rm_scores must be a 2-D tensor with matching batch size'')
     (let sel = rollout_correct rm_scores;
          correct = mask_rows response_mask sel;
          wrong = mask_rows response_mask (map Not sel)
      in Inr (map (\<lambda>(name, v). (''distillation/opd_outcome_stats/'' @ name, AggSum, v))
           (outcome_statistics advantage correct wrong statistics_threshold)))))"

definition outcome_metrics :: "distill_config \<Rightarrow> distill_data \<Rightarrow> flt mat \<Rightarrow> bool mat \<Rightarrow> metric_entries res" where
  "outcome_metrics c d advantage sel =
     (case dict_get ''rm_scores'' (dd_mats d) of
        Some rm \<Rightarrow> if dd_track_outcome d
          then compute_opd_outcome_statistics advantage sel rm (dc_opd_statistics_threshold c) else Inr []
      | None \<Rightarrow> Inr [])"

section \<open>Token selection\<close>

definition selection_size :: "nat \<Rightarrow> real \<Rightarrow> nat" where
  "selection_size valid_count ratio = min valid_count (max 1 (nat \<lceil>real valid_count * ratio\<rceil>))"

definition select_row :: "torch_env \<Rightarrow> bool \<Rightarrow> real \<Rightarrow> flt list \<Rightarrow> bool list \<Rightarrow> bool list" where
  "select_row env largest ratio gap valid =
     (let valid_indices = indices_where (\<lambda>j. valid ! j) (length valid);
          valid_count = length valid_indices;
          none = replicate (length valid) False
      in if valid_count = 0 then none
         else let ranked = te_topk env (map (\<lambda>j. gap ! j) valid_indices) (selection_size valid_count ratio) largest
           in fold (\<lambda>r row. row[valid_indices ! r := True]) ranked none)"

definition select_opd_reverse_kl_tokens ::
  "torch_env \<Rightarrow> flt mat \<Rightarrow> bool mat \<Rightarrow> real \<Rightarrow> string \<Rightarrow> bool mat res" where
  "select_opd_reverse_kl_tokens env reverse_kl valid ratio selection_method =
     raise_if (\<not> (0 \<le> ratio \<and> ratio \<le> 1)) (ValueError ''selection_ratio must lie in [0, 1]'')
     (if ratio = 1 then Inr valid
      else raise_if (selection_method \<notin> {''random'', ''topgap'', ''bottomgap''})
        (ValueError ''selection_method must be one of random, topgap, bottomgap'')
      (if ratio = 0 then Inr (mmap (\<lambda>_. False) valid)
       else if selection_method = ''random''
       then Inr (mmap2 (\<lambda>r v. fless r (Fin ratio) \<and> v) (te_rand env) valid)
       else Inr \<lparr>width = width valid,
              rows = map2 (select_row env (selection_method = ''topgap'') ratio)
                       (rows (mmap fabs reverse_kl)) (rows valid)\<rparr>))"

section \<open>Sampled-token estimators\<close>

definition mean_entry :: "string \<Rightarrow> flt \<Rightarrow> string \<times> aggregation \<times> flt" where
  "mean_entry name v = (''distillation/'' @ name, AggMean, v)"

definition compute_sampled_token_reverse_kl :: distill_loss_fn where
  "compute_sampled_token_reverse_kl env c mo d =
     ebind (student_teacher mo d) (\<lambda>(student, teacher).
     let valid = dd_response_mask d in
     raise_if (\<not> (shape teacher = shape student \<and> shape student = shape valid)) (AssertionError ''shape'')
     (let sampled_reverse_kl = mmap2 fsub student teacher in
      ebind (select_opd_reverse_kl_tokens env sampled_reverse_kl valid (dc_selection_ratio c) (dc_selection_method c))
        (\<lambda>selected_mask.
      let selected_reverse_kl = mask_signal sampled_reverse_kl selected_mask;
          gap = mmap fabs sampled_reverse_kl;
          base_signal = clamp_signal (dc_loss_max_clamp c) sampled_reverse_kl;
          selected_gap = mselect selected_mask gap
      in ebind (outcome_metrics c d (mmap fneg selected_reverse_kl) selected_mask) (\<lambda>outcome.
      Inr (selected_reverse_kl,
        [mean_entry ''reverse_kl_estimate'' (selected_mean valid sampled_reverse_kl),
         mean_entry ''student_sampled_token_prob'' (selected_mean valid (mmap fexp student)),
         mean_entry ''teacher_sampled_token_prob'' (selected_mean valid (mmap fexp teacher)),
         mean_entry ''selected_token_ratio'' (selected_mean valid (mmap of_mask selected_mask)),
         mean_entry ''selection_gap_mean'' (selected_mean valid gap),
         mean_entry ''selected_gap_mean'' (if selected_gap = [] then Fin 0 else fmean selected_gap),
         mean_entry ''selection_gradient_signal_relative_change''
           (relative_change valid (mask_signal base_signal selected_mask) base_signal)] @ outcome)))))"

text \<open>Error-OPD and Correct-OPD differ only in the controller mask they read.\<close>

definition branch_only_reverse_kl :: "string \<Rightarrow> distill_loss_fn" where
  "branch_only_reverse_kl field env c mo d =
     ebind (student_teacher mo d) (\<lambda>(student, teacher).
     let response_mask = dd_response_mask d in
     (case dict_get field (dd_masks d) of
        None \<Rightarrow> Inl (RuntimeError (''actor input is missing '' @ field))
      | Some token_mask \<Rightarrow>
     raise_if (\<not> (shape teacher = shape student \<and> shape student = shape response_mask \<and>
                  shape response_mask = shape token_mask))
       (ValueError ''token tensors must have identical response shapes'')
     (raise_if (\<exists>b \<in> set (concat (rows (mmap2 (\<lambda>t r. t \<and> \<not> r) token_mask response_mask))). b)
       (ValueError ''token mask must be a subset of response_mask'')
     (let sampled_reverse_kl = mmap2 fsub student teacher in
      ebind (select_opd_reverse_kl_tokens env sampled_reverse_kl token_mask (dc_selection_ratio c)
               (dc_selection_method c)) (\<lambda>selected_mask.
      let selected_reverse_kl = mask_signal sampled_reverse_kl selected_mask;
          zero = zero_of sampled_reverse_kl;
          valid_gap = mmap fabs sampled_reverse_kl;
          base_signal = clamp_signal (dc_loss_max_clamp c) sampled_reverse_kl;
          any_token = (\<exists>b \<in> set (concat (rows token_mask)). b)
      in ebind (outcome_metrics c d (mmap fneg selected_reverse_kl) selected_mask) (\<lambda>outcome.
      Inr (selected_reverse_kl,
        [mean_entry ''reverse_kl_estimate'' (mean_or zero token_mask sampled_reverse_kl),
         mean_entry ''student_sampled_token_prob'' (mean_or zero token_mask (mmap fexp student)),
         mean_entry ''teacher_sampled_token_prob'' (mean_or zero token_mask (mmap fexp teacher)),
         mean_entry ''selected_token_ratio''
           (if any_token then selected_mean token_mask (mmap of_mask selected_mask) else zero),
         mean_entry ''selection_gap_mean'' (mean_or zero token_mask valid_gap),
         mean_entry ''selected_gap_mean'' (mean_or zero selected_mask valid_gap),
         mean_entry ''selection_gradient_signal_relative_change''
           (if any_token then relative_change token_mask (mask_signal base_signal selected_mask) base_signal
            else zero)] @ outcome)))))))"

definition compute_error_only_sampled_token_reverse_kl :: distill_loss_fn where
  "compute_error_only_sampled_token_reverse_kl = branch_only_reverse_kl ''error_opd_token_mask''"

definition compute_correct_only_sampled_token_reverse_kl :: distill_loss_fn where
  "compute_correct_only_sampled_token_reverse_kl = branch_only_reverse_kl ''correct_opd_token_mask''"

definition compute_distillation_loss_reverse_kl_estimator :: distill_loss_fn where
  "compute_distillation_loss_reverse_kl_estimator env c mo d =
     ebind (student_teacher mo d) (\<lambda>(student, teacher).
     raise_if (\<not> (shape teacher = shape student \<and> shape student = shape (dd_response_mask d)))
       (AssertionError ''shape'')
     (ebind (kl_penalty student teacher (dc_loss_mode c)) (\<lambda>losses.
      Inr (losses, [mean_entry ''abs_loss'' (selected_mean (dd_response_mask d) (mmap fabs losses))]))))"

text \<open>The optional overlap diagnostics of the top-k loss.\<close>

definition overlap_metrics ::
  "distill_config \<Rightarrow> model_output \<Rightarrow> distill_data \<Rightarrow> bool mat \<Rightarrow> metric_entries res" where
  "overlap_metrics c mo d valid =
     (case (dict_get ''overlap_count'' (mo_tokens mo), dict_get ''overlap_token_advantage'' (mo_tokens mo)) of
        (Some oc, Some oa) \<Rightarrow>
          ebind (no_padding_2_padding oc (dd_batch d) (dd_max_len d)) (\<lambda>overlap_count.
          ebind (no_padding_2_padding oa (dd_batch d) (dd_max_len d)) (\<lambda>overlap_adv.
          raise_if (\<not> (shape overlap_count = shape overlap_adv \<and> shape overlap_adv = shape valid))
            (AssertionError ''shape'')
          (case dc_topk c of None \<Rightarrow> Inl (AssertionError ''k is not None'')
           | Some k \<Rightarrow>
             let position_mask = mat_and valid (mmap (\<lambda>v. fless (Fin 0) v) overlap_count) in
             Inr [mean_entry ''overlap_ratio'' (fdiv_real (selected_mean valid overlap_count) (real k)),
                  mean_entry ''overlap_token_advantage''
                    (if mselect position_mask overlap_adv = [] then Fin 0
                     else selected_mean position_mask overlap_adv)])))
      | _ \<Rightarrow> Inr [])"

definition mass_metrics :: "string \<Rightarrow> flt list \<Rightarrow> metric_entries res" where
  "mass_metrics name selected =
     ebind (reduce_extreme fmin selected) (\<lambda>lo.
     ebind (reduce_extreme fmax selected) (\<lambda>hi.
     Inr [(''distillation/'' @ name, AggMean, fmean selected),
          (''distillation/'' @ name @ ''_min'', AggMin, lo),
          (''distillation/'' @ name @ ''_max'', AggMax, hi)]))"

definition compute_forward_kl_topk :: distill_loss_fn where
  "compute_forward_kl_topk env c mo d =
     ebind (padded_tokens d (mo_tokens mo) ''distillation_losses'') (\<lambda>losses.
     ebind (padded_tokens d (mo_tokens mo) ''student_mass'') (\<lambda>student_mass.
     ebind (padded_tokens d (mo_tokens mo) ''teacher_mass'') (\<lambda>teacher_mass.
     let valid = dd_response_mask d in
     raise_if (\<not> (shape losses = shape student_mass \<and> shape student_mass = shape teacher_mass \<and>
                  shape teacher_mass = shape valid)) (AssertionError ''shape'')
     (ebind (overlap_metrics c mo d valid) (\<lambda>overlap.
      ebind (mass_metrics ''student_mass'' (mselect valid student_mass)) (\<lambda>sm.
      ebind (mass_metrics ''teacher_mass'' (mselect valid teacher_mass)) (\<lambda>tm.
      Inr (mmap (fclamp_min 0) losses, sm @ tm @ overlap))))))))"

end
