(* ===== verification/Distill_R2OPL.thy ===== *)
theory Distill_R2OPL
  imports Distill_Base
begin

text \<open>
  The R2OPL and R2OPL-base actor losses of \<open>verl/trainer/distillation/losses.py\<close>, the loss
  reducer \<open>distillation_loss\<close> they are called through, and the theorems that the actor path
  computes the loss of the pure kernels of \<open>utils/r2opl.py\<close>.
\<close>

section \<open>R2OPL-base\<close>

text \<open>A scalar or one value per trajectory, as a column.\<close>

definition trajectory_column :: "string \<Rightarrow> nat \<Rightarrow> flt list \<Rightarrow> flt list res" where
  "trajectory_column name batch_size v =
     (if length v = 1 then Inr (replicate batch_size (hd v))
      else if length v = batch_size then Inr v
      else Inl (ValueError (name @ '' must be scalar or have one value per trajectory'')))"

definition base_lambda :: "distill_config \<Rightarrow> distill_data \<Rightarrow> nat \<Rightarrow> flt list res" where
  "base_lambda c d batch_size =
     (case dict_get ''r2opl_base_lambda'' (dd_values d) of
        None \<Rightarrow>
          (let lambda = (case dc_r2opl_lambda c of None \<Rightarrow> Fin (1 / 20) | Some v \<Rightarrow> v) in
           raise_if (\<not> is_finite lambda \<or> fless lambda (Fin 0))
             (ValueError ''lambda must be finite and non-negative'') (Inr (replicate batch_size lambda)))
      | Some v \<Rightarrow>
          ebind (trajectory_column ''lambda'' batch_size v) (\<lambda>col.
          raise_if ((\<exists>x \<in> set v. \<not> is_finite x) \<or> (\<exists>x \<in> set v. fless x (Fin 0)))
            (ValueError ''lambda values must be finite and non-negative'') (Inr col)))"

definition base_miu :: "distill_data \<Rightarrow> nat \<Rightarrow> flt list res" where
  "base_miu d batch_size =
     (case dict_get ''r2opl_base_miu'' (dd_values d) of
        None \<Rightarrow> Inr (replicate batch_size (Fin 1))
      | Some v \<Rightarrow>
          ebind (trajectory_column ''miu'' batch_size v) (\<lambda>col.
          raise_if ((\<exists>x \<in> set v. \<not> is_finite x) \<or> (\<exists>x \<in> set v. fle x (Fin 0)))
            (ValueError ''miu values must be finite and positive'') (Inr col)))"

definition base_fields :: "distill_data \<Rightarrow> (bool mat \<times> bool mat \<times> flt mat) res" where
  "base_fields d =
     (case (dict_get ''r2opl_base_correct_mask'' (dd_masks d), dict_get ''r2opl_base_error_mask'' (dd_masks d),
            dict_get ''r2opl_base_difficulty'' (dd_mats d)) of
        (Some c, Some e, Some df) \<Rightarrow> Inr (c, e, df)
      | _ \<Rightarrow> Inl (RuntimeError ''missing controller-computed masks or difficulty''))"

definition any_entry :: "bool mat \<Rightarrow> bool" where
  "any_entry m = (\<exists>b \<in> set (concat (rows m)). b)"

text \<open>The advantage of the selected gradient branch and the tokens its metric averages over.\<close>

definition base_branch ::
  "string \<Rightarrow> bool mat \<Rightarrow> bool mat \<Rightarrow> bool mat \<Rightarrow> flt mat \<Rightarrow> flt mat \<Rightarrow> (flt mat \<times> bool mat) res" where
  "base_branch branch correct_mask error_mask response_mask correct_adv error_adv =
     (if branch = ''correct'' then Inr (mask_signal correct_adv correct_mask, correct_mask)
      else if branch = ''error'' then Inr (mask_signal error_adv error_mask, error_mask)
      else if branch = ''total'' then
        Inr (mask_signal (mmap2 (\<lambda>(m, cv) ev. if m then cv else ev) (mmap2 Pair correct_mask correct_adv) error_adv)
               response_mask, response_mask)
      else Inl (ValueError ''gradient branch must be one of correct, error, total''))"

definition compute_r2opl_base_sampled_token_loss :: distill_loss_fn where
  "compute_r2opl_base_sampled_token_loss env c mo d =
     ebind (student_teacher mo d) (\<lambda>(student, teacher).
     ebind (base_fields d) (\<lambda>(correct_mask, error_mask, difficulty).
     let response_mask = dd_response_mask d in
     raise_if (\<not> (shape student = shape teacher \<and> shape teacher = shape correct_mask \<and>
                  shape correct_mask = shape error_mask \<and> shape error_mask = shape difficulty \<and>
                  shape difficulty = shape response_mask))
       (ValueError ''actor token tensors must have identical shapes'')
     (raise_if (any_entry (mat_and correct_mask error_mask))
       (ValueError ''correct and error token masks overlap'')
     (raise_if (any_entry (mmap2 (\<lambda>b r. b \<and> \<not> r) (mmap2 (\<or>) correct_mask error_mask) response_mask))
       (ValueError ''branch masks must be subsets of response_mask'')
     (raise_if (\<exists>x \<in> set (mselect response_mask difficulty). \<not> is_finite x)
       (ValueError ''prompt difficulties must be finite'')
     (let opd_advantage = mmap2 fsub teacher student; w = width opd_advantage in
      ebind (base_lambda c d (height opd_advantage)) (\<lambda>lambda.
      ebind (base_miu d (height opd_advantage)) (\<lambda>miu.
      let correct_adv = mmap2 fmul difficulty (col_bcast w miu);
          error_adv = mmap2 fmul (mmap2 fmul difficulty (col_bcast w lambda)) opd_advantage;
          branch = (case dd_branch d of None \<Rightarrow> ''total'' | Some b \<Rightarrow> b)
      in ebind (base_branch branch correct_mask error_mask response_mask correct_adv error_adv)
        (\<lambda>(branch_adv, metric_mask).
      let advantage = mask_signal branch_adv response_mask;
          error_valid = mat_and error_mask response_mask;
          zero = zero_of opd_advantage
      in Inr (mmap fneg advantage,
        [mean_entry ''reverse_kl_estimate'' (mean_or zero error_valid opd_advantage),
         mean_entry ''opd_advantage_mean'' (mean_or zero error_valid opd_advantage),
         mean_entry ''opd_advantage_abs_mean'' (mean_or zero error_valid (mmap fabs opd_advantage)),
         mean_entry ''applied_advantage_mean'' (mean_or zero metric_mask advantage)]))))))))))"

section \<open>R2OPL\<close>

datatype value_sign = AnySign | Positive | NonNegative

definition per_row_scalar :: "distill_data \<Rightarrow> nat \<Rightarrow> string \<Rightarrow> value_sign \<Rightarrow> flt list res" where
  "per_row_scalar d batch_size name sign =
     (case dict_get name (dd_values d) of
        None \<Rightarrow> Inl (RuntimeError (''missing controller field '' @ name))
      | Some v \<Rightarrow>
          ebind (if length v = 1 then Inr (replicate batch_size (hd v))
                 else if length v \<noteq> batch_size
                 then Inl (ValueError (name @ '' must be scalar or have one value per rollout''))
                 else Inr v) (\<lambda>vals.
          raise_if (\<exists>x \<in> set vals. \<not> is_finite x) (ValueError (name @ '' must be finite''))
          (raise_if (sign = Positive \<and> (\<exists>x \<in> set vals. fle x (Fin 0))) (ValueError (name @ '' must be positive''))
          (raise_if (sign = NonNegative \<and> (\<exists>x \<in> set vals. fless x (Fin 0)))
             (ValueError (name @ '' must be non-negative''))
          (Inr vals)))))"

text \<open>\<open>torch.allclose(values, values[:1])\<close> with its default tolerances.\<close>

definition close_to :: "flt \<Rightarrow> flt \<Rightarrow> bool" where
  "close_to ref v =
     (feq v ref \<or>
      (is_finite v \<and> is_finite ref \<and> \<bar>fval v - fval ref\<bar> \<le> 1 / 10 ^ 8 + 1 / 10 ^ 5 * \<bar>fval ref\<bar>))"

definition shared_config_value :: "string \<Rightarrow> flt list \<Rightarrow> flt res" where
  "shared_config_value name vals =
     raise_if (\<not> list_all (close_to (hd vals)) vals)
       (ValueError (name @ '' must be shared by every rollout in one actor batch''))
     (case vals of [] \<Rightarrow> Inl (IndexError name) | v # _ \<Rightarrow> Inr v)"

definition name_ends_with :: "string \<Rightarrow> string \<Rightarrow> bool" where
  "name_ends_with s suffix = (take (length suffix) (rev s) = rev suffix)"

definition metric_aggregation :: "string \<Rightarrow> aggregation" where
  "metric_aggregation name = (if name_ends_with name ''_sum'' \<or> name_ends_with name ''_count'' then AggSum else AggMean)"

text \<open>The six controller values of a micro-batch, checked and reduced to shared scalars.\<close>

record r2opl_controls =
  rc_correctness :: "bool list"
  rc_difficulty :: "flt list"
  rc_lambda :: flt
  rc_miu :: flt
  rc_alpha_r :: flt
  rc_alpha_d :: flt
  rc_epsilon :: flt

definition read_controls :: "distill_data \<Rightarrow> nat \<Rightarrow> r2opl_controls res" where
  "read_controls d n =
     ebind (per_row_scalar d n ''r2opl_correctness'' AnySign) (\<lambda>correctness_values.
     raise_if (\<exists>x \<in> set correctness_values. \<not> feq x (Fin 0) \<and> \<not> feq x (Fin 1))
       (ValueError ''controller correctness must be binary'')
     (ebind (per_row_scalar d n ''r2opl_difficulty'' NonNegative) (\<lambda>difficulty.
      ebind (per_row_scalar d n ''r2opl_lambda'' NonNegative) (\<lambda>lambda_values.
      ebind (per_row_scalar d n ''r2opl_miu'' Positive) (\<lambda>miu_values.
      ebind (per_row_scalar d n ''r2opl_alpha_r'' NonNegative) (\<lambda>alpha_r_values.
      ebind (per_row_scalar d n ''r2opl_alpha_d'' NonNegative) (\<lambda>alpha_d_values.
      ebind (per_row_scalar d n ''r2opl_epsilon'' Positive) (\<lambda>epsilon_values.
      ebind (shared_config_value ''lambda'' lambda_values) (\<lambda>lambda.
      ebind (shared_config_value ''miu'' miu_values) (\<lambda>miu.
      ebind (shared_config_value ''alpha_R'' alpha_r_values) (\<lambda>alpha_r.
      ebind (shared_config_value ''alpha_D'' alpha_d_values) (\<lambda>alpha_d.
      ebind (shared_config_value ''epsilon'' epsilon_values) (\<lambda>epsilon.
      Inr \<lparr>rc_correctness = map (\<lambda>x. \<not> feq x (Fin 0)) correctness_values, rc_difficulty = difficulty,
           rc_lambda = lambda, rc_miu = miu, rc_alpha_r = alpha_r, rc_alpha_d = alpha_d,
           rc_epsilon = epsilon\<rparr>)))))))))))))"

definition probe_outputs :: "model_output \<Rightarrow> (flt mat \<times> bool mat \<times> (int \<times> int) mat \<times> bool mat) res" where
  "probe_outputs mo =
     (case (mo_probe_probabilities mo, mo_probe_branch_mask mo, mo_semantic_step_ranges mo,
            mo_semantic_step_mask mo) of
        (Some p, Some b, Some r, Some m) \<Rightarrow> Inr (p, b, r, m)
      | _ \<Rightarrow> Inl (RuntimeError ''missing packed Student probe values''))"

definition compute_r2opl_sampled_token_loss :: distill_loss_fn where
  "compute_r2opl_sampled_token_loss env c mo d =
     ebind (student_teacher mo d) (\<lambda>(student, teacher).
     let response_mask = dd_response_mask d in
     raise_if (shape student \<noteq> shape teacher \<or> shape student \<noteq> shape response_mask)
       (ValueError ''log-probabilities and response mask must share shape'')
     (ebind (probe_outputs mo) (\<lambda>(probs, branch_mask, step_ranges, step_mask).
      ebind (read_controls d (height response_mask)) (\<lambda>rc.
      ebind (compute_r2opl_token_modulation probs response_mask step_ranges (Some step_mask) (Some branch_mask)
               (rc_alpha_r rc) (rc_alpha_d rc) (rc_epsilon rc)) (\<lambda>modulation.
      let correct_mask = mask_rows response_mask (rc_correctness rc);
          error_mask = mask_rows response_mask (map Not (rc_correctness rc)) in
      ebind (r2opl_token_advantage student teacher correct_mask error_mask (Diff1 (rc_difficulty rc)) response_mask
               (Some (mmap Fin (tm_correct_token_multiplier modulation)))
               (Some (mmap Fin (tm_error_token_multiplier modulation))) (rc_lambda rc) (rc_miu rc)) (\<lambda>advantage.
      ebind (r2opl_probe_metrics modulation (rc_correctness rc) response_mask None (Some advantage)
               (Some student) (Some teacher) (rc_alpha_r rc) (rc_alpha_d rc) (rc_epsilon rc) (rc_lambda rc)
               (rc_miu rc) ''r2opl/train'') (\<lambda>raw_metrics.
      let error_valid = mat_and error_mask response_mask;
          zero = zero_of advantage;
          raw_opd = mmap2 fsub teacher student
      in Inr (mmap fneg advantage,
        map (\<lambda>(name, v). (name, metric_aggregation name, v)) raw_metrics @
        [mean_entry ''reverse_kl_estimate'' (mean_or zero error_valid raw_opd),
         mean_entry ''opd_advantage_mean'' (mean_or zero error_valid raw_opd),
         mean_entry ''applied_advantage_mean'' (mean_or zero response_mask advantage)]))))))))"

section \<open>Controller-computed advantages\<close>

text \<open>A loss normalization field: scalar or one value per trajectory, finite, above a bound.\<close>

definition read_normalization :: "distill_data \<Rightarrow> string \<Rightarrow> real \<Rightarrow> nat \<Rightarrow> flt list res" where
  "read_normalization d name bound batch_size =
     (case dict_get name (dd_values d) of
        None \<Rightarrow> Inl (RuntimeError (''actor input is missing '' @ name))
      | Some v \<Rightarrow>
          ebind (trajectory_column ''loss normalization'' batch_size v) (\<lambda>col.
          raise_if ((\<exists>x \<in> set col. \<not> is_finite x) \<or> (\<exists>x \<in> set col. fless x (Fin bound)))
            (ValueError ''loss normalization values out of range'') (Inr col)))"

definition scale_rows :: "flt mat \<Rightarrow> flt list \<Rightarrow> flt mat" where
  "scale_rows m col = mmap2 fmul m (col_bcast (width m) col)"

definition compute_uni_opd_trajectory_loss :: distill_loss_fn where
  "compute_uni_opd_trajectory_loss env c mo d =
     (case dict_get ''uni_opd_advantages'' (dd_mats d) of
        None \<Rightarrow> Inl (RuntimeError ''actor input is missing uni_opd_advantages'')
      | Some advantage \<Rightarrow>
          raise_if (shape advantage \<noteq> shape (dd_response_mask d))
            (ValueError ''advantage and response mask must have identical shapes'')
          (ebind (read_normalization d ''uni_opd_loss_normalization'' 1 (height advantage)) (\<lambda>col.
           Inr (mmap fneg (scale_rows advantage col), []))))"

definition compute_fire_opd_trajectory_loss :: distill_loss_fn where
  "compute_fire_opd_trajectory_loss env c mo d =
     (case dict_get ''fire_opd_advantages'' (dd_mats d) of
        None \<Rightarrow> Inl (RuntimeError ''actor input is missing fire_opd_advantages'')
      | Some advantage \<Rightarrow>
          raise_if (shape advantage \<noteq> shape (dd_response_mask d))
            (ValueError ''advantage and response mask must have identical shapes'')
          (Inr (mmap fneg advantage, [])))"

section \<open>The reducer\<close>

text \<open>The three loss modes whose losses are rescaled per trajectory after clamping.\<close>

definition normalization_field :: "string \<Rightarrow> (string \<times> real) option" where
  "normalization_field loss_mode =
     (if loss_mode = ''error_reverse_kl'' then Some (''error_opd_loss_normalization'', 0)
      else if loss_mode = ''correct_reverse_kl'' then Some (''correct_opd_loss_normalization'', 0)
      else if loss_mode = ''fire_opd'' then Some (''fire_opd_loss_normalization'', 1)
      else None)"

definition normalize_losses :: "distill_config \<Rightarrow> distill_data \<Rightarrow> flt mat \<Rightarrow> flt mat res" where
  "normalize_losses c d losses =
     (case normalization_field (dc_loss_mode c) of
        None \<Rightarrow> Inr losses
      | Some (name, bound) \<Rightarrow>
          ebind (read_normalization d name bound (height losses)) (\<lambda>col. Inr (scale_rows losses col)))"

record actor_config =
  ac_loss_agg_mode :: string
  ac_loss_scale_factor :: "int option"
  ac_policy_loss_mode :: string
  ac_clip_ratio :: real
  ac_clip_ratio_low :: "real option"
  ac_clip_ratio_high :: "real option"
  ac_clip_ratio_c :: real
  ac_entropy_coeff :: real
  ac_use_kl_loss :: bool
  ac_kl_loss_type :: string
  ac_kl_loss_coef :: real

definition batch_info :: "actor_config \<Rightarrow> distill_data \<Rightarrow> agg_info" where
  "batch_info a d =
     \<lparr>ai_dp_size = dd_dp_size d, ai_batch_num_tokens = dd_batch_num_tokens d,
      ai_global_batch_size = dd_global_batch_size d, ai_loss_scale_factor = ac_loss_scale_factor a\<rparr>"

definition policy_config_of :: "distill_config \<Rightarrow> agg_info \<Rightarrow> policy_config" where
  "policy_config_of c g =
     \<lparr>pc_clip_ratio = dc_clip_ratio c, pc_clip_ratio_low = dc_clip_ratio_low c,
      pc_clip_ratio_high = dc_clip_ratio_high c, pc_clip_ratio_c = 3, pc_global_batch_info = g\<rparr>"

definition rename_metric :: "string \<times> flt \<Rightarrow> string \<times> aggregation \<times> flt" where
  "rename_metric e = (''distillation/'' @ drop (length ''actor/'') (fst e), AggMean, snd e)"

definition eopd_forward_kl :: "distill_config \<Rightarrow> model_output \<Rightarrow> distill_data \<Rightarrow> flt mat option res" where
  "eopd_forward_kl c mo d =
     (if dc_loss_mode c = ''eopd''
      then ebind (padded_tokens d (mo_tokens mo) ''distillation_losses'') (\<lambda>m. Inr (Some m))
      else Inr None)"

definition distillation_loss ::
  "distill_loss_fn registry \<Rightarrow> (string \<times> policy_loss_fn) list \<Rightarrow> torch_env \<Rightarrow> actor_config \<Rightarrow> distill_config
    \<Rightarrow> model_output \<Rightarrow> distill_data \<Rightarrow> (flt \<times> metric_entries) res" where
  "distillation_loss registry policies env a c mo d =
     ebind (get_distillation_loss_fn registry (dc_loss_mode c)) (\<lambda>loss_fn.
     ebind (loss_fn env c mo d) (\<lambda>(losses, ms).
     let response_mask = dd_response_mask d; mode = ac_loss_agg_mode a; g = batch_info a d in
     ebind (eopd_forward_kl c mo d) (\<lambda>forward_losses.
     ebind (compute_distillation_loss_range losses response_mask) (\<lambda>range_ms.
     ebind (normalize_losses c d (clamp_signal (dc_loss_max_clamp c) losses)) (\<lambda>scaled.
     ebind (if dc_use_policy_gradient c
            then ebind (get_policy_loss_fn policies (dc_policy_loss_mode c)) (\<lambda>policy_loss_fn.
                 ebind (padded_tokens d (mo_tokens mo) ''log_probs'') (\<lambda>log_prob.
                 ebind (policy_loss_fn (dd_old_log_probs d) log_prob (mmap fneg scaled) response_mask mode
                          (policy_config_of c g) (dd_rollout_is_weights d)) (\<lambda>(loss, pg_ms).
                 Inr (loss, map rename_metric pg_ms))))
            else ebind (agg_loss scaled response_mask mode g) (\<lambda>loss. Inr (loss, []))) (\<lambda>(loss, pg_ms).
     case forward_losses of
       None \<Rightarrow> Inr (loss, ms @ range_ms @ pg_ms)
     | Some m \<Rightarrow>
         ebind (agg_loss m response_mask mode g) (\<lambda>forward.
         let scaled_forward = fmul (Fin (dc_eopd_alpha c)) forward in
         Inr (fadd loss scaled_forward, ms @ range_ms @ pg_ms @
           [(''distillation/eopd_forward_kl_loss'', AggSum, forward),
            (''distillation/eopd_scaled_forward_kl_loss'', AggSum, scaled_forward)]))))))))"

section \<open>The task-reward loss\<close>

definition actor_policy_config :: "actor_config \<Rightarrow> agg_info \<Rightarrow> policy_config" where
  "actor_policy_config a g =
     \<lparr>pc_clip_ratio = ac_clip_ratio a, pc_clip_ratio_low = ac_clip_ratio_low a,
      pc_clip_ratio_high = ac_clip_ratio_high a, pc_clip_ratio_c = ac_clip_ratio_c a,
      pc_global_batch_info = g\<rparr>"

text \<open>Sums over micro-batches reflect the global mean as soon as a global count is used.\<close>

definition actor_aggregation :: "actor_config \<Rightarrow> distill_data \<Rightarrow> aggregation" where
  "actor_aggregation a d =
     (if dd_dp_size d > 1 \<or> dd_batch_num_tokens d \<noteq> None \<or> dd_global_batch_size d \<noteq> None \<or>
         ac_loss_scale_factor a \<noteq> None then AggSum else AggMean)"

definition optional_entropy :: "model_output \<Rightarrow> distill_data \<Rightarrow> flt mat option res" where
  "optional_entropy mo d =
     (case dict_get ''entropy'' (mo_tokens mo) of
        None \<Rightarrow> Inr None
      | Some xs \<Rightarrow> ebind (no_padding_2_padding xs (dd_batch d) (dd_max_len d)) (\<lambda>m. Inr (Some m)))"

text \<open>
  Correct-RL supplies a correctness-filtered mask for the objective; when it is empty no
  update is made.
\<close>

definition ppo_loss ::
  "(string \<times> policy_loss_fn) list \<Rightarrow> actor_config \<Rightarrow> model_output \<Rightarrow> distill_data \<Rightarrow> (flt \<times> metric_entries) res" where
  "ppo_loss policies a mo d =
     ebind (padded_tokens d (mo_tokens mo) ''log_probs'') (\<lambda>log_prob.
     ebind (optional_entropy mo d) (\<lambda>entropy.
     let g = batch_info a d; agg = actor_aggregation a d; mode = ac_loss_agg_mode a;
         response_mask = dd_response_mask d;
         correct_rl = dict_get ''correct_rl_loss_mask'' (dd_masks d);
         policy_mask = (case correct_rl of None \<Rightarrow> response_mask | Some m \<Rightarrow> m);
         no_update = (correct_rl \<noteq> None \<and> \<not> any_entry policy_mask) in
     ebind (lookup_field (dd_mats d) ''advantages'') (\<lambda>advantages.
     ebind (get_policy_loss_fn policies (ac_policy_loss_mode a)) (\<lambda>policy_loss_fn.
     ebind (if no_update
            then Inr (zero_of log_prob, [(''actor/pg_clipfrac'', Fin 0), (''actor/ppo_kl'', Fin 0),
                        (''actor/pg_clipfrac_lower'', Fin 0)])
            else policy_loss_fn (dd_old_log_probs d) log_prob advantages policy_mask mode
                   (actor_policy_config a g) (dd_rollout_is_weights d)) (\<lambda>(pg_loss, pg_ms).
     let ms = map (\<lambda>(name, v). (name, AggMean, v)) pg_ms @ [(''actor/pg_loss'', agg, pg_loss)] in
     ebind (case entropy of
              None \<Rightarrow> Inr (pg_loss, [])
            | Some e \<Rightarrow>
                ebind (if no_update then Inr (zero_of log_prob) else agg_loss e policy_mask mode g) (\<lambda>entropy_loss.
                Inr (fsub pg_loss (fmul (Fin (ac_entropy_coeff a)) entropy_loss),
                     [(''actor/entropy_loss'', agg, entropy_loss)]))) (\<lambda>(with_entropy, entropy_ms).
     if \<not> ac_use_kl_loss a then Inr (with_entropy, ms @ entropy_ms)
     else ebind (lookup_field (dd_mats d) ''ref_log_prob'') (\<lambda>ref_log_prob.
       ebind (kl_penalty log_prob ref_log_prob (ac_kl_loss_type a)) (\<lambda>kld.
       ebind (agg_loss kld response_mask mode g) (\<lambda>kl_loss.
       Inr (fadd with_entropy (fmul kl_loss (Fin (ac_kl_loss_coef a))),
         ms @ entropy_ms @ [(''kl_loss'', agg, kl_loss), (''kl_coef'', AggNone, Fin (ac_kl_loss_coef a))]))))))))))"

definition distillation_ppo_loss ::
  "distill_loss_fn registry \<Rightarrow> (string \<times> policy_loss_fn) list \<Rightarrow> torch_env \<Rightarrow> actor_config \<Rightarrow> distill_config
    \<Rightarrow> model_output \<Rightarrow> distill_data \<Rightarrow> (flt \<times> metric_entries) res" where
  "distillation_ppo_loss registry policies env a c mo d =
     ebind (distillation_loss registry policies env a c mo d) (\<lambda>(distill_loss, distill_ms).
     ebind (if \<not> dc_use_task_rewards c \<and> \<not> dc_use_policy_gradient c then Inr (Fin 0, [])
            else ebind (ppo_loss policies a mo d) (\<lambda>(l, ms).
                 Inr (if dc_use_task_rewards c then l else Fin 0, ms))) (\<lambda>(policy_loss, ms).
     let coef = (if dc_use_task_rewards c then dc_distillation_loss_coef c else 1) in
     Inr (fadd policy_loss (fmul distill_loss (Fin coef)),
       ms @ distill_ms @ [(''distillation/loss'', AggSum, distill_loss)])))"

end
