(* ===== verification/R2OPL_Actor.thy ===== *)
theory R2OPL_Actor
  imports Distill_R2OPL
begin

text \<open>
  The R2OPL actor path from the controller to the loss: the configuration checks and the
  per-rollout fields of \<open>algorithms/r2opl.py\<close>, and the theorems that connect them through
  \<open>distillation_loss\<close> to the kernels of \<open>utils/r2opl.py\<close>.
\<close>

section \<open>Hyperparameters and controller fields\<close>

record r2opl_settings =
  rs_lambda :: "flt option"
  rs_miu :: "flt option"
  rs_alpha_r :: "flt option"
  rs_alpha_d :: "flt option"
  rs_epsilon :: "flt option"

record r2opl_hyperparameter_values =
  hp_lambda :: flt
  hp_miu :: flt
  hp_alpha_r :: flt
  hp_alpha_d :: flt
  hp_epsilon :: flt

definition or_default :: "flt option \<Rightarrow> real \<Rightarrow> flt" where
  "or_default v x = (case v of None \<Rightarrow> Fin x | Some u \<Rightarrow> u)"

definition r2opl_hyperparameters :: "r2opl_settings \<Rightarrow> r2opl_hyperparameter_values res" where
  "r2opl_hyperparameters s =
     (let lambda = or_default (rs_lambda s) (1 / 10); miu = or_default (rs_miu s) 16;
          alpha_r = or_default (rs_alpha_r s) (1 / 4); alpha_d = or_default (rs_alpha_d s) (1 / 2);
          epsilon = or_default (rs_epsilon s) (4 / 5) in
      raise_if (\<not> is_finite lambda \<or> fless lambda (Fin 0)) (ValueError ''lambda must be finite and non-negative'')
      (raise_if (\<not> is_finite miu \<or> fle miu (Fin 0)) (ValueError ''miu must be finite and positive'')
      (raise_if (\<not> is_finite alpha_r \<or> fless alpha_r (Fin 0)) (ValueError ''alpha_R must be finite and non-negative'')
      (raise_if (\<not> is_finite alpha_d \<or> fless alpha_d (Fin 0)) (ValueError ''alpha_D must be finite and non-negative'')
      (raise_if (\<not> is_finite epsilon \<or> fle epsilon (Fin 0)) (ValueError ''epsilon must be finite and positive'')
      (Inr \<lparr>hp_lambda = lambda, hp_miu = miu, hp_alpha_r = alpha_r, hp_alpha_d = alpha_d,
           hp_epsilon = epsilon\<rparr>))))))"

text \<open>The fields \<open>_compute_old_log_prob\<close> adds to the batch for the actor.\<close>

definition controller_fields ::
  "controller_batch_result \<Rightarrow> r2opl_hyperparameter_values \<Rightarrow> (string \<times> flt list) list" where
  "controller_fields ct hp =
     (let n = length (ct_correctness ct) in
      [(''r2opl_correctness'', map of_mask (ct_correctness ct)),
       (''r2opl_difficulty'', map Fin (ct_difficulty ct)),
       (''r2opl_lambda'', replicate n (hp_lambda hp)),
       (''r2opl_miu'', replicate n (hp_miu hp)),
       (''r2opl_alpha_r'', replicate n (hp_alpha_r hp)),
       (''r2opl_alpha_d'', replicate n (hp_alpha_d hp)),
       (''r2opl_epsilon'', replicate n (hp_epsilon hp))])"

section \<open>The probe metrics never fail after the advantage\<close>

lemma add_raw_opd_both:
  "shape s = shape rm \<Longrightarrow> shape t = shape rm \<Longrightarrow> \<exists>D. add_raw_opd prefix rm (Some s) (Some t) c e d = Inr D"
  by (simp add: add_raw_opd_def)

lemma r2opl_probe_metrics_total:
  assumes "validate_hyperparameters (Some la) (Some mi) (Some ar) (Some ad) (Some ep) = Inr u"
    and "length cor = height rm" "\<not> modulation_shapes_bad m rm" "\<not> step_shapes_bad m"
    and "height (tm_semantic_step_mask m) = height rm" "height (tm_probe_branch_mask m) = height rm"
    and "shape a = shape rm" "shape s = shape rm" "shape t = shape rm"
  shows "\<exists>D. r2opl_probe_metrics m cor rm None (Some a) (Some s) (Some t) ar ad ep la mi prefix = Inr D"
  unfolding r2opl_probe_metrics_def using assms add_raw_opd_both [OF assms(8,9)]
  by (simp add: Let_def bad_vector_def)

lemma modulate_step_shapes:
  assumes "length c = height sr" "shape sm = shape sr"
  shows "\<not> step_shapes_bad (modulate pp w sr sm c B ar ad ep marks)"
proof -
  have w: "width sm = width sr" "height sm = height sr" using assms(2) by (simp_all add: shape_iff)
  show ?thesis using assms(1) w
    by (simp add: step_shapes_bad_def modulate_def Let_def shape_iff mat_simps)
qed

lemma modulation_explicit:
  assumes "compute_r2opl_token_modulation pp rm sr (Some sm) (Some bm) ar ad ep = Inr T"
  shows "shape sm = shape sr \<and> shape bm = shape pp \<and> height pp = height rm \<and> height sr = height rm \<and>
    validate_hyperparameters None None (Some ar) (Some ad) (Some ep) = Inr () \<and>
    (\<exists>marks. T = modulate pp (width rm) sr sm (map vcount (rows sm)) bm (fval ar) (fval ad) (fval ep) marks)"
  using assms unfolding compute_r2opl_token_modulation_def Let_def ebind_Inr raise_if_Inr prefix_mask_Inr
    option.case
  by (elim exE conjE, thin_tac "sm = prefix_of_counts _ _") (intro conjI; fastforce)

section \<open>What the controls guarantee\<close>

lemma per_row_scalar_Inr:
  assumes "per_row_scalar d n name sign = Inr v"
  shows "length v = n" "\<forall>x \<in> set v. is_finite x" "sign = Positive \<Longrightarrow> \<forall>x \<in> set v. \<not> fle x (Fin 0)"
    "sign = NonNegative \<Longrightarrow> \<forall>x \<in> set v. \<not> fless x (Fin 0)"
  using assms by (auto simp: per_row_scalar_def ebind_Inr raise_if_Inr split: option.splits if_splits)

lemma shared_config_value_Inr:
  "shared_config_value name vals = Inr x \<Longrightarrow> x \<in> set vals"
  by (auto simp: shared_config_value_def raise_if_Inr split: list.splits)

lemma finite_signs:
  "is_finite x \<Longrightarrow> \<not> fless x (Fin 0) \<Longrightarrow> 0 \<le> fval x"
  "is_finite x \<Longrightarrow> \<not> fle x (Fin 0) \<Longrightarrow> 0 < fval x"
  by (auto simp: is_finite_iff)

definition controls_ok :: "nat \<Rightarrow> r2opl_controls \<Rightarrow> bool" where
  "controls_ok n rc \<longleftrightarrow>
     length (rc_correctness rc) = n \<and> length (rc_difficulty rc) = n \<and>
     (\<forall>x \<in> set (rc_difficulty rc). is_finite x) \<and>
     is_finite (rc_lambda rc) \<and> 0 \<le> fval (rc_lambda rc) \<and> is_finite (rc_miu rc) \<and> 0 < fval (rc_miu rc) \<and>
     is_finite (rc_alpha_r rc) \<and> 0 \<le> fval (rc_alpha_r rc) \<and>
     is_finite (rc_alpha_d rc) \<and> 0 \<le> fval (rc_alpha_d rc) \<and>
     is_finite (rc_epsilon rc) \<and> 0 < fval (rc_epsilon rc)"

lemma read_controls_ok:
  assumes "read_controls d n = Inr rc"
  shows "controls_ok n rc"
proof -
  from assms obtain cv dv lv mv rv av ev where
    v: "per_row_scalar d n ''r2opl_correctness'' AnySign = Inr cv"
       "per_row_scalar d n ''r2opl_difficulty'' NonNegative = Inr dv"
       "per_row_scalar d n ''r2opl_lambda'' NonNegative = Inr lv"
       "per_row_scalar d n ''r2opl_miu'' Positive = Inr mv"
       "per_row_scalar d n ''r2opl_alpha_r'' NonNegative = Inr rv"
       "per_row_scalar d n ''r2opl_alpha_d'' NonNegative = Inr av"
       "per_row_scalar d n ''r2opl_epsilon'' Positive = Inr ev"
    and s: "shared_config_value ''lambda'' lv = Inr (rc_lambda rc)" "shared_config_value ''miu'' mv = Inr (rc_miu rc)"
      "shared_config_value ''alpha_R'' rv = Inr (rc_alpha_r rc)" "shared_config_value ''alpha_D'' av = Inr (rc_alpha_d rc)"
      "shared_config_value ''epsilon'' ev = Inr (rc_epsilon rc)"
    and c: "rc_correctness rc = map (\<lambda>x. \<not> feq x (Fin 0)) cv" "rc_difficulty rc = dv"
    unfolding read_controls_def ebind_Inr raise_if_Inr by (elim exE conjE, intro that) auto
  note fin = v [THEN per_row_scalar_Inr(2)] and mem = s [THEN shared_config_value_Inr]
  have l: "is_finite (rc_lambda rc)" "0 \<le> fval (rc_lambda rc)"
    using fin(3) mem(1) per_row_scalar_Inr(4) [OF v(3)] finite_signs by blast+
  have m: "is_finite (rc_miu rc)" "0 < fval (rc_miu rc)"
    using fin(4) mem(2) per_row_scalar_Inr(3) [OF v(4)] finite_signs by blast+
  have r: "is_finite (rc_alpha_r rc)" "0 \<le> fval (rc_alpha_r rc)"
    using fin(5) mem(3) per_row_scalar_Inr(4) [OF v(5)] finite_signs by blast+
  have a: "is_finite (rc_alpha_d rc)" "0 \<le> fval (rc_alpha_d rc)"
    using fin(6) mem(4) per_row_scalar_Inr(4) [OF v(6)] finite_signs by blast+
  have e: "is_finite (rc_epsilon rc)" "0 < fval (rc_epsilon rc)"
    using fin(7) mem(5) per_row_scalar_Inr(3) [OF v(7)] finite_signs by blast+
  show ?thesis unfolding controls_ok_def
    using per_row_scalar_Inr(1) [OF v(1)] per_row_scalar_Inr(1) [OF v(2)] fin(2) l m r a e by (simp add: c)
qed

section \<open>The actor advantage\<close>

definition actor_entry :: "r2opl_controls \<Rightarrow> token_modulation \<Rightarrow> flt mat \<Rightarrow> flt mat \<Rightarrow> bool mat \<Rightarrow> nat \<Rightarrow> nat \<Rightarrow> real" where
  "actor_entry rc T S Te rm i j =
     (if \<not> mget rm i j then 0
      else if rc_correctness rc ! i
      then fval (rc_difficulty rc ! i) * fval (rc_miu rc) * mget (tm_correct_token_multiplier T) i j
      else fval (rc_difficulty rc ! i) * fval (rc_lambda rc) * (fval (mget Te i j) - fval (mget S i j))
             * mget (tm_error_token_multiplier T) i j)"

definition actor_advantage ::
  "r2opl_controls \<Rightarrow> token_modulation \<Rightarrow> flt mat \<Rightarrow> flt mat \<Rightarrow> bool mat \<Rightarrow> flt mat res" where
  "actor_advantage rc T S Te rm =
     r2opl_token_advantage S Te (mask_rows rm (rc_correctness rc)) (mask_rows rm (map Not (rc_correctness rc)))
       (Diff1 (rc_difficulty rc)) rm (Some (mmap Fin (tm_correct_token_multiplier T)))
       (Some (mmap Fin (tm_error_token_multiplier T))) (rc_lambda rc) (rc_miu rc)"

lemma actor_advantage_entries:
  assumes wf: "wf_mat S" "wf_mat Te" "wf_mat rm" "wf_mat pp" "wf_mat sr"
    and sh: "shape Te = shape S" "shape rm = shape S"
    and fin: "\<forall>i < height S. \<forall>j < width S. mget rm i j \<longrightarrow> is_finite (mget S i j) \<and> is_finite (mget Te i j)"
    and rc: "controls_ok (height rm) rc"
    and T: "compute_r2opl_token_modulation pp rm sr sm bm ar ad ep = Inr T"
  obtains A where "actor_advantage rc T S Te rm = Inr A" "wf_mat A" "shape A = shape S"
    "\<And>i j. i < height S \<Longrightarrow> j < width S \<Longrightarrow> mget A i j = Fin (actor_entry rc T S Te rm i j)"
proof -
  let ?c = "mask_rows rm (rc_correctness rc)" and ?e = "mask_rows rm (map Not (rc_correctness rc))"
  let ?cm = "mmap Fin (tm_correct_token_multiplier T)" and ?em = "mmap Fin (tm_error_token_multiplier T)"
  have H: "height rm = height S" "width rm = width S" using sh by (simp_all add: shape_iff)
  note ms = modulation_mask_shapes [OF wf(4,3,5) T]
  have len: "length (rc_correctness rc) = height rm" "length (rc_difficulty rc) = height rm"
    and dfin: "\<forall>x \<in> set (rc_difficulty rc). is_finite x"
    and hyp: "is_finite (rc_lambda rc)" "0 \<le> fval (rc_lambda rc)" "is_finite (rc_miu rc)" "0 < fval (rc_miu rc)"
    using rc by (simp_all add: controls_ok_def)
  have shp: "shape ?c = shape S" "shape ?e = shape S" "shape ?cm = shape S" "shape ?em = shape S"
    using len sh ms by (simp_all add: mat_simps)
  have hw: "height (tm_correct_token_multiplier T) = height S" "width (tm_correct_token_multiplier T) = width S"
    "height (tm_error_token_multiplier T) = height S" "width (tm_error_token_multiplier T) = width S"
    using ms sh by (simp_all add: shape_iff)
  have m: "mget ?c i j = (mget rm i j \<and> rc_correctness rc ! i)" "mget ?e i j = (mget rm i j \<and> \<not> rc_correctness rc ! i)"
    "mget ?cm i j = Fin (mget (tm_correct_token_multiplier T) i j)"
    "mget ?em i j = Fin (mget (tm_error_token_multiplier T) i j)" if "i < height S" "j < width S" for i j
    using that H len wf(3) ms hw by (simp_all add: mat_simps)
  obtain A where A: "r2opl_token_advantage S Te ?c ?e (Diff1 (rc_difficulty rc)) rm (Some ?cm) (Some ?em)
        (rc_lambda rc) (rc_miu rc) = Inr A"
    and entry: "\<And>i j. i < height S \<Longrightarrow> j < width S \<Longrightarrow> mget A i j =
       fmul (if mget ?e i j then fmul (fmul (fmul (rc_difficulty rc ! i) (rc_lambda rc)) (fsub (mget Te i j) (mget S i j))) (mget ?em i j)
             else if mget ?c i j then fmul (fmul (rc_difficulty rc ! i) (rc_miu rc)) (mget ?cm i j) else Fin 0)
         (of_mask (mget rm i j))"
    and wA: "wf_mat A" "shape A = shape S"
  proof (rule r2opl_token_advantage_entries [of S Te ?c ?e rm ?cm ?em "rc_difficulty rc" "rc_lambda rc" "rc_miu rc"])
  qed (use wf sh shp len H ms m hyp fin in \<open>auto simp: mat_simps\<close>)
  have "mget A i j = Fin (actor_entry rc T S Te rm i j)" if ij: "i < height S" "j < width S" for i j
  proof (cases "mget rm i j")
    case True
    then have "is_finite (mget S i j)" "is_finite (mget Te i j)" using fin ij by auto
    moreover have "is_finite (rc_difficulty rc ! i)" using dfin len H ij by simp
    ultimately obtain x y z where "mget S i j = Fin x" "mget Te i j = Fin y" "rc_difficulty rc ! i = Fin z"
      by (auto simp: is_finite_iff)
    moreover obtain l u where "rc_lambda rc = Fin l" "rc_miu rc = Fin u" using hyp by (auto simp: is_finite_iff)
    ultimately show ?thesis using entry [OF ij] True m [OF ij] by (simp add: actor_entry_def)
  next
    case False
    then show ?thesis using entry [OF ij] m [OF ij] by (simp add: actor_entry_def)
  qed
  then show thesis using that [OF _ wA] A by (simp add: actor_advantage_def)
qed

text \<open>One micro-batch whose inputs are well formed and whose modulation succeeds.\<close>

record actor_case =
  x_student :: "flt mat"
  x_teacher :: "flt mat"
  x_controls :: r2opl_controls
  x_modulation :: token_modulation

definition actor_ready :: "model_output \<Rightarrow> distill_data \<Rightarrow> actor_case \<Rightarrow> bool" where
  "actor_ready mo d x =
     (student_teacher mo d = Inr (x_student x, x_teacher x) \<and>
      wf_mat (x_student x) \<and> wf_mat (x_teacher x) \<and> wf_mat (dd_response_mask d) \<and>
      shape (x_teacher x) = shape (x_student x) \<and> shape (dd_response_mask d) = shape (x_student x) \<and>
      read_controls d (height (dd_response_mask d)) = Inr (x_controls x) \<and>
      (case probe_outputs mo of
         Inl e \<Rightarrow> False
       | Inr (pp, bm, sr, sm) \<Rightarrow> wf_mat pp \<and> wf_mat sr \<and>
           compute_r2opl_token_modulation pp (dd_response_mask d) sr (Some sm) (Some bm)
             (rc_alpha_r (x_controls x)) (rc_alpha_d (x_controls x)) (rc_epsilon (x_controls x))
             = Inr (x_modulation x)) \<and>
      list_all is_finite (mselect (dd_response_mask d) (x_student x)) \<and>
      list_all is_finite (mselect (dd_response_mask d) (x_teacher x)))"

lemma actor_ready_unfold:
  assumes "actor_ready mo d x"
  obtains pp bm sr sm where
    "student_teacher mo d = Inr (x_student x, x_teacher x)" "probe_outputs mo = Inr (pp, bm, sr, sm)"
    "wf_mat (x_student x)" "wf_mat (x_teacher x)" "wf_mat (dd_response_mask d)" "wf_mat pp" "wf_mat sr"
    "shape (x_teacher x) = shape (x_student x)" "shape (dd_response_mask d) = shape (x_student x)"
    "read_controls d (height (dd_response_mask d)) = Inr (x_controls x)"
    "compute_r2opl_token_modulation pp (dd_response_mask d) sr (Some sm) (Some bm)
       (rc_alpha_r (x_controls x)) (rc_alpha_d (x_controls x)) (rc_epsilon (x_controls x)) = Inr (x_modulation x)"
    "\<forall>i < height (x_student x). \<forall>j < width (x_student x). mget (dd_response_mask d) i j \<longrightarrow>
       is_finite (mget (x_student x) i j) \<and> is_finite (mget (x_teacher x) i j)"
proof -
  note a = assms [unfolded actor_ready_def]
  obtain pp bm sr sm where po: "probe_outputs mo = Inr (pp, bm, sr, sm)"
    using a by (auto split: sum.splits)
  have sh: "shape (dd_response_mask d) = shape (x_student x)" "shape (dd_response_mask d) = shape (x_teacher x)"
    and wf: "wf_mat (x_student x)" "wf_mat (x_teacher x)" "wf_mat (dd_response_mask d)" using a by simp_all
  have "\<forall>v \<in> set (mselect (dd_response_mask d) (x_student x)). is_finite v"
    "\<forall>v \<in> set (mselect (dd_response_mask d) (x_teacher x)). is_finite v"
    using a by (simp_all add: list_all_iff)
  then have "\<forall>i < height (x_student x). \<forall>j < width (x_student x). mget (dd_response_mask d) i j \<longrightarrow>
       is_finite (mget (x_student x) i j) \<and> is_finite (mget (x_teacher x) i j)"
    unfolding list_all_mselect [OF wf(3,1) sh(1)] list_all_mselect [OF wf(3,2) sh(2)]
    using sh by (simp add: shape_iff)
  then show thesis using a po by (intro that [of pp bm sr sm]) simp_all
qed

lemma actor_loss_value:
  assumes "actor_ready mo d x"
  obtains A ms where
    "compute_r2opl_sampled_token_loss env c mo d = Inr (mmap fneg A, ms)"
    "actor_advantage (x_controls x) (x_modulation x) (x_student x) (x_teacher x) (dd_response_mask d) = Inr A"
    "wf_mat A" "shape A = shape (x_student x)"
    "\<And>i j. i < height (x_student x) \<Longrightarrow> j < width (x_student x) \<Longrightarrow> mget A i j =
       Fin (actor_entry (x_controls x) (x_modulation x) (x_student x) (x_teacher x) (dd_response_mask d) i j)"
proof -
  define S Te rm rc T where def: "S = x_student x" "Te = x_teacher x" "rm = dd_response_mask d"
    "rc = x_controls x" "T = x_modulation x"
  obtain pp bm sr sm where st: "student_teacher mo d = Inr (S, Te)" "probe_outputs mo = Inr (pp, bm, sr, sm)"
    and wf: "wf_mat S" "wf_mat Te" "wf_mat rm" "wf_mat pp" "wf_mat sr"
    and sh: "shape Te = shape S" "shape rm = shape S"
    and rd: "read_controls d (height rm) = Inr rc"
    and md: "compute_r2opl_token_modulation pp rm sr (Some sm) (Some bm) (rc_alpha_r rc) (rc_alpha_d rc)
          (rc_epsilon rc) = Inr T"
    and fin: "\<forall>i < height S. \<forall>j < width S. mget rm i j \<longrightarrow> is_finite (mget S i j) \<and> is_finite (mget Te i j)"
    unfolding def by (rule actor_ready_unfold [OF assms])
  note ok = read_controls_ok [OF rd]
  obtain A where A: "actor_advantage rc T S Te rm = Inr A" "wf_mat A" "shape A = shape S"
    and ent: "\<And>i j. i < height S \<Longrightarrow> j < width S \<Longrightarrow> mget A i j = Fin (actor_entry rc T S Te rm i j)"
    using actor_advantage_entries [OF wf sh fin ok md] by metis
  from modulation_explicit [OF md] obtain marks where ex: "shape sm = shape sr" "shape bm = shape pp"
    "height pp = height rm" "height sr = height rm"
    "validate_hyperparameters None None (Some (rc_alpha_r rc)) (Some (rc_alpha_d rc)) (Some (rc_epsilon rc)) = Inr ()"
    and T: "T = modulate pp (width rm) sr sm (map vcount (rows sm)) bm (fval (rc_alpha_r rc)) (fval (rc_alpha_d rc))
        (fval (rc_epsilon rc)) marks" by blast
  note ms = modulation_mask_shapes [OF wf(4,3,5) md]
  have "\<exists>D. r2opl_probe_metrics T (rc_correctness rc) rm None (Some A) (Some S) (Some Te) (rc_alpha_r rc) (rc_alpha_d rc)
      (rc_epsilon rc) (rc_lambda rc) (rc_miu rc) ''r2opl/train'' = Inr D"
  proof (rule r2opl_probe_metrics_total)
    show "validate_hyperparameters (Some (rc_lambda rc)) (Some (rc_miu rc)) (Some (rc_alpha_r rc)) (Some (rc_alpha_d rc))
        (Some (rc_epsilon rc)) = Inr ()"
      using ex(5) ok unfolding validate_hyperparameters_Inr controls_ok_def by simp
    show "\<not> modulation_shapes_bad T rm" using ms by (simp add: modulation_shapes_bad_def)
    show "\<not> step_shapes_bad T" unfolding T using ex(1) by (intro modulate_step_shapes) (simp_all add: shape_iff height_def)
    show "height (tm_semantic_step_mask T) = height rm" "height (tm_probe_branch_mask T) = height rm"
      using ex by (simp_all add: T modulate_simps shape_iff)
  qed (use ok A sh in \<open>simp_all add: controls_ok_def\<close>)
  then obtain D where D: "r2opl_probe_metrics T (rc_correctness rc) rm None (Some A) (Some S) (Some Te) (rc_alpha_r rc)
      (rc_alpha_d rc) (rc_epsilon rc) (rc_lambda rc) (rc_miu rc) ''r2opl/train'' = Inr D" ..
  have "\<exists>ms. compute_r2opl_sampled_token_loss env c mo d = Inr (mmap fneg A, ms)"
    unfolding compute_r2opl_sampled_token_loss_def using sh
    by (simp add: st def(3) [symmetric] rd md A(1) [unfolded actor_advantage_def] D Let_def)
  then show thesis using that A ent unfolding def by blast
qed

text \<open>
  C7: Once the controller fields of a micro-batch pass their checks, the modulation of its
  probes succeeds and the log-probabilities are finite on response tokens, nothing later can
  raise: the R2OPL loss function returns, for every metric it also computes, and its entry for
  a token is the negated advantage: difficulty times miu times the correct multiplier on a
  correct rollout, difficulty times lambda times (teacher - student) times the error
  multiplier on a wrong one, zero on padding.
\<close>

theorem r2opl_actor_loss_formula:
  assumes "actor_ready mo d x"
  shows "\<exists>L ms. compute_r2opl_sampled_token_loss env c mo d = Inr (L, ms) \<and> wf_mat L \<and>
    shape L = shape (dd_response_mask d) \<and>
    (\<forall>i < height L. \<forall>j < width L. mget L i j =
       Fin (- actor_entry (x_controls x) (x_modulation x) (x_student x) (x_teacher x) (dd_response_mask d) i j))"
proof -
  obtain A ms where A: "compute_r2opl_sampled_token_loss env c mo d = Inr (mmap fneg A, ms)"
    "actor_advantage (x_controls x) (x_modulation x) (x_student x) (x_teacher x) (dd_response_mask d) = Inr A"
    "wf_mat A" "shape A = shape (x_student x)"
    and ent: "\<And>i j. i < height (x_student x) \<Longrightarrow> j < width (x_student x) \<Longrightarrow> mget A i j =
       Fin (actor_entry (x_controls x) (x_modulation x) (x_student x) (x_teacher x) (dd_response_mask d) i j)"
    by (rule actor_loss_value [OF assms, of env c]) blast
  have "shape (dd_response_mask d) = shape (x_student x)" using assms by (simp add: actor_ready_def)
  then show ?thesis using A(1,3,4) ent by (intro exI [of _ "mmap fneg A"] exI [of _ ms]) (simp add: mat_simps shape_iff)
qed

text \<open>A micro-batch of one rollout with two semantic steps, and its neighbours' values.\<close>

definition example_output :: model_output where
  "example_output =
     \<lparr>mo_tokens = [(''log_probs'', [Fin (- 1), Fin (- 2), Fin 0])],
      mo_probe_probabilities = Some \<lparr>width = 2, rows = [[Fin 0, Fin (1 / 2)]]\<rparr>,
      mo_probe_branch_mask = Some \<lparr>width = 2, rows = [[True, True]]\<rparr>,
      mo_semantic_step_ranges = Some \<lparr>width = 2, rows = [[(0, 1), (1, 2)]]\<rparr>,
      mo_semantic_step_mask = Some \<lparr>width = 2, rows = [[True, True]]\<rparr>\<rparr>"

definition example_data :: distill_data where
  "example_data =
     \<lparr>dd_batch = Nested_Batch [[7]] [[1, 2]], dd_max_len = 2,
      dd_response_mask = \<lparr>width = 2, rows = [[True, True]]\<rparr>,
      dd_tokens = [(''teacher_logprobs'', [Fin (- 2), Fin (- 1), Fin 0])],
      dd_mats = [], dd_masks = [],
      dd_values = [(''r2opl_correctness'', [Fin 0]), (''r2opl_difficulty'', [Fin (1 / 2)]),
        (''r2opl_lambda'', [Fin (1 / 10)]), (''r2opl_miu'', [Fin 16]), (''r2opl_alpha_r'', [Fin (1 / 4)]),
        (''r2opl_alpha_d'', [Fin (1 / 2)]), (''r2opl_epsilon'', [Fin (4 / 5)])],
      dd_branch = None, dd_uid = [], dd_track_outcome = False,
      dd_old_log_probs = \<lparr>width = 2, rows = [[Fin (- 1), Fin (- 2)]]\<rparr>, dd_rollout_is_weights = None,
      dd_dp_size = 1, dd_batch_num_tokens = Some 2, dd_global_batch_size = Some 1\<rparr>"

definition example_case :: "actor_case res" where
  "example_case =
     ebind (student_teacher example_output example_data) (\<lambda>(s, t).
     ebind (read_controls example_data 1) (\<lambda>rc.
     ebind (probe_outputs example_output) (\<lambda>(pp, bm, sr, sm).
     ebind (compute_r2opl_token_modulation pp (dd_response_mask example_data) sr (Some sm) (Some bm)
              (rc_alpha_r rc) (rc_alpha_d rc) (rc_epsilon rc)) (\<lambda>m.
     Inr \<lparr>x_student = s, x_teacher = t, x_controls = rc, x_modulation = m\<rparr>))))"

definition example_distill_config :: distill_config where
  "example_distill_config =
     \<lparr>dc_loss_mode = ''r2opl'', dc_topk = None, dc_selection_ratio = 1, dc_selection_method = ''random'',
      dc_opd_statistics_threshold = 0, dc_eopd_entropy_threshold = 0, dc_eopd_alpha = 0,
      dc_sensitivity_threshold = 0, dc_w_sens = 0, dc_w_stable = 1, dc_cal_lambda = Fin 1, dc_exopd_lambda = Fin 1,
      dc_opdvr_grpd = False, dc_sol_opd_epsilon = Fin 1, dc_r2opl_lambda = None, dc_use_task_rewards = False,
      dc_distillation_loss_coef = 1, dc_loss_max_clamp = None, dc_use_policy_gradient = True,
      dc_policy_loss_mode = ''reinforce'', dc_clip_ratio = 0, dc_clip_ratio_low = None, dc_clip_ratio_high = None\<rparr>"

definition example_actor_config :: actor_config where
  "example_actor_config =
     \<lparr>ac_loss_agg_mode = ''seq-mean-token-sum'', ac_loss_scale_factor = None, ac_policy_loss_mode = ''vanilla'',
      ac_clip_ratio = 0, ac_clip_ratio_low = None, ac_clip_ratio_high = None, ac_clip_ratio_c = 3,
      ac_entropy_coeff = 0, ac_use_kl_loss = False, ac_kl_loss_type = ''k1'', ac_kl_loss_coef = 0\<rparr>"

definition example_torch_env :: torch_env where
  "example_torch_env = \<lparr>te_rand = \<lparr>width = 0, rows = []\<rparr>, te_topk = (\<lambda>xs k largest. [0..<k])\<rparr>"

definition example_loss_settings :: loss_settings where
  "example_loss_settings = \<lparr>ls_names = [''r2opl''], ls_use_topk = False, ls_use_estimator = True,
     ls_use_full_vocab_teacher_entropy = False\<rparr>"

lemma example_ready: "\<exists>x. actor_ready example_output example_data x"
proof -
  have "case example_case of Inl e \<Rightarrow> False | Inr x \<Rightarrow> actor_ready example_output example_data x" by code_simp
  then show ?thesis by (auto split: sum.splits)
qed

lemma r2opl_actor_loss_formula_witness:
  "\<exists>L ms. compute_r2opl_sampled_token_loss example_torch_env example_distill_config example_output example_data = Inr (L, ms) \<and>
    shape L = (1, 2)"
proof -
  obtain x where x: "actor_ready example_output example_data x" using example_ready ..
  have "shape (dd_response_mask example_data) = (1, 2)" by (simp add: example_data_def shape_def height_def)
  then show ?thesis using r2opl_actor_loss_formula [OF x, of example_torch_env example_distill_config] by auto
qed

section \<open>The loss of the whole batch\<close>

text \<open>What \<open>validate_r2opl_config\<close> fixes about the loss, and the registries it relies on.\<close>

definition r2opl_loss_config :: "actor_config \<Rightarrow> distill_config \<Rightarrow> bool" where
  "r2opl_loss_config a c =
     (dc_loss_mode c = ''r2opl'' \<and> dc_policy_loss_mode c = ''reinforce'' \<and> dc_use_policy_gradient c \<and>
      \<not> dc_use_task_rewards c \<and> dc_loss_max_clamp c = None \<and> ac_loss_agg_mode a = ''seq-mean-token-sum'')"

lemma fneg_fneg [simp]: "fneg (fneg x) = x"
  by (cases x) simp_all

lemma mmap_fneg_twice: "mmap fneg (mmap fneg A) = A"
  by (simp add: mmap_def comp_def)

lemma mselect_nonempty:
  assumes "wf_mat b" "wf_mat m" "shape m = shape b" "True \<in> set (active_rows b)"
  shows "mselect b m \<noteq> []"
proof -
  obtain r where "r \<in> set (rows b)" "vcount r > 0" using assms(4) by (auto simp: active_rows_def)
  then obtain i j where "i < height b" "j < width b" "mget b i j"
    using assms(1) vcount_eq_0 [of r] by (fastforce simp: in_set_conv_nth height_def mget_def wf_mat_def)
  then have "\<not> (\<forall>x \<in> set (mselect b m). False)"
    using list_all_mselect [OF assms(1,2), of "\<lambda>_. False"] assms(3) by (auto simp: shape_iff)
  then show ?thesis by auto
qed

lemma loss_range_total:
  assumes "mselect b m \<noteq> []"
  shows "\<exists>r. compute_distillation_loss_range m b = Inr r"
  using assms by (cases "mselect b m") (simp_all add: compute_distillation_loss_range_def reduce_extreme_def)

text \<open>
  C3: With the configuration the R2OPL trainer insists on and the global batch size equal to
  the number of rollouts with response tokens, the loss the actor back-propagates is the loss
  \<open>r2opl_reinforce_loss\<close> of the kernel advantage \<open>r2opl_token_advantage\<close>: padding, the loss
  function, the double negation, clamping, normalization, the policy-loss lookup and the
  aggregation between them change nothing.
\<close>

theorem r2opl_actor_loss_is_kernel_loss:
  assumes "actor_ready mo d x" "r2opl_loss_config a c"
    and "get_distillation_loss_fn registry ''r2opl'' = Inr compute_r2opl_sampled_token_loss"
    and "get_policy_loss_fn policies ''reinforce'' = Inr compute_policy_loss_reinforce_registered"
    and "dd_dp_size d = 1" "dd_global_batch_size d = Some n" "0 < n"
    and "vcount (active_rows (dd_response_mask d)) = n"
  shows "\<exists>A loss ms.
    actor_advantage (x_controls x) (x_modulation x) (x_student x) (x_teacher x) (dd_response_mask d) = Inr A \<and>
    r2opl_reinforce_loss (x_student x) A (dd_response_mask d) = Inr loss \<and>
    distillation_loss registry policies env a c mo d = Inr (loss, ms)"
proof -
  let ?S = "x_student x" and ?rm = "dd_response_mask d"
  obtain A ms where A: "compute_r2opl_sampled_token_loss env c mo d = Inr (mmap fneg A, ms)"
    "actor_advantage (x_controls x) (x_modulation x) ?S (x_teacher x) ?rm = Inr A" "wf_mat A" "shape A = shape ?S"
    by (rule actor_loss_value [OF assms(1), of env c])
  have rd: "wf_mat ?S" "wf_mat ?rm" "shape ?rm = shape ?S" "student_teacher mo d = Inr (?S, x_teacher x)"
    using assms(1) by (simp_all add: actor_ready_def)
  have lp: "padded_tokens d (mo_tokens mo) ''log_probs'' = Inr ?S"
    using rd(4) by (auto simp: student_teacher_def ebind_Inr)
  have cfg: "dc_loss_mode c = ''r2opl''" "dc_policy_loss_mode c = ''reinforce''" "dc_use_policy_gradient c"
    "dc_loss_max_clamp c = None" "ac_loss_agg_mode a = ''seq-mean-token-sum''"
    using assms(2) by (simp_all add: r2opl_loss_config_def)
  obtain loss pm where pl: "compute_policy_loss_reinforce_registered (dd_old_log_probs d) ?S A ?rm ''seq-mean-token-sum''
      (policy_config_of c (batch_info a d)) (dd_rollout_is_weights d) = Inr (loss, pm)"
    "r2opl_reinforce_loss ?S A ?rm = Inr loss"
    using actor_reinforce_is_kernel_loss_aux [OF A(3) rd(1,2) A(4) rd(3) assms(8,7),
        of "policy_config_of c (batch_info a d)" "dd_batch_num_tokens d" "ac_loss_scale_factor a"
          "dd_old_log_probs d" "dd_rollout_is_weights d"] assms(5,6)
    by (auto simp: policy_config_of_def batch_info_def)
  have "True \<in> set (active_rows ?rm)" using assms(7,8) vcount_eq_0 [of "active_rows ?rm"] by auto
  then have "mselect ?rm (mmap fneg A) \<noteq> []"
    using A rd by (intro mselect_nonempty) (simp_all add: mat_simps)
  from loss_range_total [OF this] obtain r where r: "compute_distillation_loss_range (mmap fneg A) ?rm = Inr r" ..
  have "\<exists>ms'. distillation_loss registry policies env a c mo d = Inr (loss, ms')"
    unfolding distillation_loss_def
    by (simp add: cfg assms(3,4) A(1) eopd_forward_kl_def r clamp_signal_def normalize_losses_def
        normalization_field_def lp mmap_fneg_twice pl(1) Let_def)
  then show ?thesis using A(2) pl(2) by blast
qed

lemma r2opl_actor_loss_is_kernel_loss_witness:
  "\<exists>x A loss ms. actor_ready example_output example_data x \<and>
    actor_advantage (x_controls x) (x_modulation x) (x_student x) (x_teacher x) (dd_response_mask example_data) = Inr A \<and>
    r2opl_reinforce_loss (x_student x) A (dd_response_mask example_data) = Inr loss \<and>
    distillation_loss [(''r2opl'', compute_r2opl_sampled_token_loss, example_loss_settings)]
      [(''reinforce'', compute_policy_loss_reinforce_registered)] example_torch_env example_actor_config example_distill_config
      example_output example_data = Inr (loss, ms)"
proof -
  obtain x where x: "actor_ready example_output example_data x" using example_ready ..
  have "vcount (active_rows (dd_response_mask example_data)) = 1" by code_simp
  then show ?thesis
    using r2opl_actor_loss_is_kernel_loss [OF x, of example_actor_config example_distill_config
        "[(''r2opl'', compute_r2opl_sampled_token_loss, example_loss_settings)]" "[(''reinforce'', compute_policy_loss_reinforce_registered)]" 1 example_torch_env] x
    by (auto simp: r2opl_loss_config_def example_distill_config_def example_actor_config_def get_distillation_loss_fn_def
        get_policy_loss_fn_def dict_get_def example_data_def)
qed

end
