(* ===== verification/R2OPL_Config.thy ===== *)
theory R2OPL_Config
  imports R2OPL_Actor Text "HOL-Library.Code_Target_Nat"
begin

text \<open>
  The configuration checks of \<open>algorithms/r2opl.py\<close> and the prompt names of \<open>utils/prompts.py\<close>,
  as a record of the configuration values they read. \<open>str.lower\<close> beyond ASCII is the parameter
  \<open>lower\<close>; the values the OmegaConf library would convert with \<open>int\<close>, \<open>float\<close> or \<open>bool\<close> are
  already of that type.
\<close>

section \<open>Prompt names and model families\<close>

definition prompt_templates :: "ustr list" where
  "prompt_templates = [lit ''cross_domain_prompt'', lit ''explicit_step_prompt'']"

definition text_contains :: "ustr \<Rightarrow> ustr \<Rightarrow> bool" where
  "text_contains t sub = (py_find t sub 0 \<noteq> None)"

definition normalize_model_family :: "(ustr \<Rightarrow> ustr) \<Rightarrow> ustr \<Rightarrow> ustr res" where
  "normalize_model_family lower model_family =
     (let normalized = lower (strip model_family) in
      if text_contains normalized (lit ''qwen3'') then Inr (lit ''qwen3'')
      else if \<exists>alias \<in> set (map lit [''gemini4'', ''gemini-4'', ''gemma4'', ''gemma-4'', ''gemma'']).
                text_contains normalized alias then Inr (lit ''gemini4'')
      else Inl (ValueError ''Unsupported model family''))"

section \<open>The validated configuration\<close>

record run_config =
  cf_verl_support :: bool
  cf_algorithm_name :: ustr
  cf_project_name :: ustr
  cf_group_name :: ustr
  cf_distillation_enabled :: bool
  cf_prompt_template :: ustr
  cf_student_model_family :: ustr
  cf_teacher_model_family :: ustr
  cf_settings :: r2opl_settings
  cf_loss_mode :: ustr
  cf_policy_loss_mode :: ustr
  cf_use_policy_gradient :: bool
  cf_use_task_rewards :: bool
  cf_topk :: "int option"
  cf_selection_ratio :: real
  cf_loss_agg_mode :: ustr
  cf_loss_max_clamp :: "real option"
  cf_use_remove_padding :: bool
  cf_use_fused_kernels :: bool
  cf_attn_implementation :: ustr
  cf_ulysses_sequence_parallel_size :: int
  cf_ppo_micro_batch_size_per_gpu :: int
  cf_use_dynamic_bsz :: bool
  cf_rollout_n :: int
  cf_train_batch_size :: int
  cf_max_prompt_length :: int
  cf_train_max_new_tokens :: int
  cf_val_max_new_tokens :: int
  cf_max_response_length :: int
  cf_rollout_max_model_len :: int
  cf_ppo_max_token_len_per_gpu :: int
  cf_rollout_log_prob_max_token_len :: int
  cf_ref_log_prob_max_token_len :: int
  cf_inference_name :: ustr
  cf_inference_prompt_length :: int
  cf_inference_response_length :: int
  cf_inference_max_model_len :: int
  cf_max_logprobs :: "int option"

text \<open>The checks on the loss and the algorithm, up to the token budgets.\<close>

definition validate_loss_settings :: "(ustr \<Rightarrow> ustr) \<Rightarrow> run_config \<Rightarrow> unit res" where
  "validate_loss_settings lower c =
     raise_if (\<not> cf_verl_support c) (RuntimeError ''missing compute_r2opl_sampled_token_loss'')
     (raise_if (cf_algorithm_name c \<noteq> lit ''r2opl'') (ValueError ''requires algorithm.name=r2opl'')
     (raise_if (cf_project_name c \<noteq> lit ''R^2OPL'') (ValueError ''must use trainer.project_name'')
     (raise_if (strip (cf_group_name c) \<noteq> lit ''R2OPL'') (ValueError ''requires group_name'')
     (raise_if (\<not> cf_distillation_enabled c) (ValueError ''requires distillation.enabled=true'')
     (raise_if (strip (cf_prompt_template c) \<notin> set prompt_templates) (ValueError ''Unknown prompt_template'')
     (ebind (normalize_model_family lower (cf_student_model_family c)) (\<lambda>student_family.
      ebind (normalize_model_family lower (cf_teacher_model_family c)) (\<lambda>teacher_family.
      raise_if (student_family \<noteq> teacher_family) (ValueError ''tokenizer families must match'')
      (ebind (r2opl_hyperparameters (cf_settings c)) (\<lambda>_.
       raise_if (cf_loss_mode c \<noteq> lit ''r2opl'') (ValueError ''requires loss_mode=r2opl'')
       (raise_if (cf_policy_loss_mode c \<noteq> lit ''reinforce'') (ValueError ''requires policy_loss_mode=reinforce'')
       (raise_if (\<not> cf_use_policy_gradient c \<or> cf_use_task_rewards c)
         (ValueError ''requires use_policy_gradient=true and use_task_rewards=false'')
       (raise_if (cf_topk c \<noteq> None) (ValueError ''requires topk=null'')
       (raise_if (cf_selection_ratio c \<noteq> 1) (ValueError ''must score every valid response token'')
       (raise_if (cf_loss_agg_mode c \<noteq> lit ''seq-mean-token-sum'')
         (ValueError ''requires loss_agg_mode=seq-mean-token-sum'')
       (raise_if (cf_loss_max_clamp c \<noteq> None) (ValueError ''requires loss_max_clamp=null'')
       (Inr ())))))))))))))))))"

definition validate_model_settings :: "run_config \<Rightarrow> unit res" where
  "validate_model_settings c =
     raise_if (cf_use_remove_padding c) (ValueError ''require model.use_remove_padding=false'')
     (raise_if (cf_use_fused_kernels c) (ValueError ''require model.use_fused_kernels=false'')
     (raise_if (cf_attn_implementation c \<noteq> lit ''sdpa'') (ValueError ''require attn_implementation=sdpa'')
     (raise_if (cf_ulysses_sequence_parallel_size c \<noteq> 1) (ValueError ''require sequence parallel size 1'')
     (raise_if (cf_ppo_micro_batch_size_per_gpu c \<noteq> 1) (ValueError ''require ppo_micro_batch_size_per_gpu=1'')
     (raise_if (cf_use_dynamic_bsz c) (ValueError ''require actor.use_dynamic_bsz=false'')
     (raise_if (cf_rollout_n c < 2) (ValueError ''requires at least two rollouts per prompt'')
     (raise_if (cf_train_batch_size c \<le> 0) (ValueError ''requires a positive number of questions'')
     (Inr ()))))))))"

definition validate_token_budgets :: "run_config \<Rightarrow> unit res" where
  "validate_token_budgets c =
     raise_if (Min {cf_max_prompt_length c, cf_train_max_new_tokens c, cf_val_max_new_tokens c} \<le> 0)
       (ValueError ''prompt and response limits must be positive'')
     (raise_if (cf_max_response_length c < max (cf_train_max_new_tokens c) (cf_val_max_new_tokens c))
       (ValueError ''data.max_response_length does not cover generation limits'')
     (raise_if (cf_rollout_max_model_len c < cf_max_prompt_length c + cf_val_max_new_tokens c)
       (ValueError ''Student max_model_len does not cover validation context'')
     (let required = cf_max_prompt_length c + cf_train_max_new_tokens c + 1 in
      raise_if (\<exists>limit \<in> set [cf_ppo_max_token_len_per_gpu c, cf_rollout_log_prob_max_token_len c,
                              cf_ref_log_prob_max_token_len c]. limit < required)
        (ValueError ''Student log-prob token limits do not cover training context'')
      (raise_if (cf_inference_name c \<noteq> lit ''vllm'') (ValueError ''Teacher scoring requires vLLM'')
      (raise_if (cf_inference_prompt_length c < cf_max_prompt_length c) (ValueError ''prompt_length is too small'')
      (raise_if (cf_inference_response_length c < cf_train_max_new_tokens c)
        (ValueError ''response_length is too small'')
      (raise_if (cf_inference_max_model_len c < required) (ValueError ''Teacher max_model_len too small'')
      (raise_if (case cf_max_logprobs c of None \<Rightarrow> True | Some n \<Rightarrow> n < 1)
        (ValueError ''requires vLLM max_logprobs >= 1'')
      (Inr ())))))))))"

definition validate_r2opl_config :: "(ustr \<Rightarrow> ustr) \<Rightarrow> run_config \<Rightarrow> unit res" where
  "validate_r2opl_config lower c =
     ebind (validate_loss_settings lower c) (\<lambda>_.
     ebind (validate_model_settings c) (\<lambda>_. validate_token_budgets c))"

text \<open>\<open>configure_r2opl_batch\<close>: round the batch up to whole multiples of the Student GPU count.\<close>

record batch_topology =
  bt_n_gpus_per_node :: int
  bt_nnodes :: int
  bt_tensor_model_parallel_size :: int
  bt_data_parallel_size :: int
  bt_ulysses_sequence_parallel_size :: int
  bt_train_batch_size :: int

definition configure_r2opl_batch :: "batch_topology \<Rightarrow> int res" where
  "configure_r2opl_batch t =
     (let student_gpus = bt_n_gpus_per_node t * bt_nnodes t in
      raise_if (bt_tensor_model_parallel_size t \<noteq> 1) (ValueError ''rollout tensor parallelism must be 1'')
      (raise_if (bt_data_parallel_size t \<noteq> student_gpus)
        (ValueError ''rollout data_parallel_size must equal Student GPU count'')
      (raise_if (bt_ulysses_sequence_parallel_size t \<noteq> 1) (ValueError ''sequence parallelism 1'')
      (raise_if (student_gpus = 0) ZeroDivisionError
      (Inr (- ((- bt_train_batch_size t) div student_gpus) * student_gpus))))))"

section \<open>From the controller to the actor\<close>

lemma hyperparameters_Inr:
  assumes "r2opl_hyperparameters s = Inr hp"
  shows "is_finite (hp_lambda hp) \<and> \<not> fless (hp_lambda hp) (Fin 0)" "is_finite (hp_miu hp) \<and> \<not> fle (hp_miu hp) (Fin 0)"
    "is_finite (hp_alpha_r hp) \<and> \<not> fless (hp_alpha_r hp) (Fin 0)" "is_finite (hp_alpha_d hp) \<and> \<not> fless (hp_alpha_d hp) (Fin 0)"
    "is_finite (hp_epsilon hp) \<and> \<not> fle (hp_epsilon hp) (Fin 0)"
  using assms by (auto simp: r2opl_hyperparameters_def Let_def raise_if_Inr)

lemma controller_batch_Inr:
  assumes "compute_r2opl_controller_batch rm v ids g = Inr ct"
  shows "length (ct_correctness ct) = height rm" "length (ct_difficulty ct) = height rm"
    "\<forall>x \<in> set (ct_difficulty ct). 0 \<le> x"
proof -
  from assms obtain rewards where r: "sequence_rewards v (height rm) = Inr rewards" "length ids = height rm"
    "\<not> bad_vector (height rm) g"
    "ct_correctness ct = map2 (\<lambda>r g. feq r (Fin 1) \<and> g) rewards (genuine_mask (height rm) g)"
    "ct_difficulty ct = fst (group_difficulty ids (genuine_mask (height rm) g) (ct_correctness ct))"
    by (auto simp: compute_r2opl_controller_batch_def Let_def raise_if_Inr ebind_Inr case_prod_unfold)
  show "length (ct_correctness ct) = height rm"
    using r sequence_rewards_Inr [OF r(1)] length_genuine_mask [OF r(3)] by simp
  show "length (ct_difficulty ct) = height rm" using r by simp
  show "\<forall>x \<in> set (ct_difficulty ct). 0 \<le> x"
  proof
    fix x assume "x \<in> set (ct_difficulty ct)"
    then obtain i where "i < length ids" "x = ct_difficulty ct ! i"
      using r by (auto simp: in_set_conv_nth)
    then show "0 \<le> x" using r(5) success_rate_bounds(2) by (simp add: group_difficulty_nth)
  qed
qed

lemma per_row_scalar_field:
  assumes "dict_get name (dd_values d) = Some v" "length v = n" "\<forall>x \<in> set v. is_finite x"
    "sign = Positive \<Longrightarrow> \<forall>x \<in> set v. \<not> fle x (Fin 0)" "sign = NonNegative \<Longrightarrow> \<forall>x \<in> set v. \<not> fless x (Fin 0)"
  shows "per_row_scalar d n name sign = Inr v"
proof -
  have "(if length v = 1 then Inr (replicate n (hd v)) else if length v \<noteq> n
      then Inl (ValueError (name @ '' must be scalar or have one value per rollout'')) else Inr v) = (Inr v :: flt list res)"
    using assms(2) by (cases v) auto
  then show ?thesis unfolding per_row_scalar_def assms(1) option.case using assms(3-5)
    by (cases sign) (simp_all add: raise_if_def)
qed

lemma shared_replicate: "0 < n \<Longrightarrow> is_finite v \<Longrightarrow> shared_config_value name (replicate n v) = Inr v"
  by (cases n) (auto simp: shared_config_value_def raise_if_def close_to_def list_all_iff)

text \<open>
  C8: The controller and the actor agree on the fields between them. Whatever batch statistics
  and validated hyperparameters the controller attaches to a non-empty batch, the checks of the
  actor loss accept them and recover exactly the correctness, the difficulties and the five
  coefficients.
\<close>

theorem controller_fields_accepted_by_actor:
  assumes "compute_r2opl_controller_batch rm v ids g = Inr ct" "r2opl_hyperparameters s = Inr hp"
    and "dd_values d = controller_fields ct hp" "0 < height rm"
  shows "read_controls d (height rm) =
    Inr \<lparr>rc_correctness = ct_correctness ct, rc_difficulty = map Fin (ct_difficulty ct), rc_lambda = hp_lambda hp,
         rc_miu = hp_miu hp, rc_alpha_r = hp_alpha_r hp, rc_alpha_d = hp_alpha_d hp, rc_epsilon = hp_epsilon hp\<rparr>"
proof -
  let ?n = "height rm"
  note len = controller_batch_Inr [OF assms(1)] and hp = hyperparameters_Inr [OF assms(2)]
  have get: "dict_get ''r2opl_correctness'' (dd_values d) = Some (map of_mask (ct_correctness ct))"
    "dict_get ''r2opl_difficulty'' (dd_values d) = Some (map Fin (ct_difficulty ct))"
    "dict_get ''r2opl_lambda'' (dd_values d) = Some (replicate ?n (hp_lambda hp))"
    "dict_get ''r2opl_miu'' (dd_values d) = Some (replicate ?n (hp_miu hp))"
    "dict_get ''r2opl_alpha_r'' (dd_values d) = Some (replicate ?n (hp_alpha_r hp))"
    "dict_get ''r2opl_alpha_d'' (dd_values d) = Some (replicate ?n (hp_alpha_d hp))"
    "dict_get ''r2opl_epsilon'' (dd_values d) = Some (replicate ?n (hp_epsilon hp))"
    using len(1) by (simp_all add: assms(3) controller_fields_def Let_def dict_get_def)
  have rows: "per_row_scalar d ?n ''r2opl_correctness'' AnySign = Inr (map of_mask (ct_correctness ct))"
    "per_row_scalar d ?n ''r2opl_difficulty'' NonNegative = Inr (map Fin (ct_difficulty ct))"
    "per_row_scalar d ?n ''r2opl_lambda'' NonNegative = Inr (replicate ?n (hp_lambda hp))"
    "per_row_scalar d ?n ''r2opl_miu'' Positive = Inr (replicate ?n (hp_miu hp))"
    "per_row_scalar d ?n ''r2opl_alpha_r'' NonNegative = Inr (replicate ?n (hp_alpha_r hp))"
    "per_row_scalar d ?n ''r2opl_alpha_d'' NonNegative = Inr (replicate ?n (hp_alpha_d hp))"
    "per_row_scalar d ?n ''r2opl_epsilon'' Positive = Inr (replicate ?n (hp_epsilon hp))"
    by (rule per_row_scalar_field [OF get(1)] per_row_scalar_field [OF get(2)] per_row_scalar_field [OF get(3)]
        per_row_scalar_field [OF get(4)] per_row_scalar_field [OF get(5)] per_row_scalar_field [OF get(6)]
        per_row_scalar_field [OF get(7)]; use len hp in \<open>auto simp: of_mask_def\<close>)+
  have binary: "\<not> (\<exists>x \<in> set (map of_mask (ct_correctness ct)). \<not> feq x (Fin 0) \<and> \<not> feq x (Fin 1))"
    by (auto simp: of_mask_def)
  have recovered: "map (\<lambda>x. \<not> feq x (Fin 0)) (map of_mask (ct_correctness ct)) = ct_correctness ct"
    by (simp add: of_mask_def comp_def map_idI)
  show ?thesis unfolding read_controls_def rows ebind.simps shared_replicate [OF assms(4) conjunct1 [OF hp(1)]]
      shared_replicate [OF assms(4) conjunct1 [OF hp(2)]] shared_replicate [OF assms(4) conjunct1 [OF hp(3)]]
      shared_replicate [OF assms(4) conjunct1 [OF hp(4)]] shared_replicate [OF assms(4) conjunct1 [OF hp(5)]] recovered
    using binary by (simp only: raise_if_def if_False)
qed

lemma controller_fields_accepted_by_actor_witness:
  "\<exists>ct. compute_r2opl_controller_batch \<lparr>width = 1, rows = [[True], [True]]\<rparr> (Rew1 [Fin 1, Fin 0]) [''q'', ''q''] None = Inr ct \<and>
    read_controls (example_data\<lparr>dd_values := controller_fields ct
        \<lparr>hp_lambda = Fin (1 / 10), hp_miu = Fin 16, hp_alpha_r = Fin (1 / 4), hp_alpha_d = Fin (1 / 2),
         hp_epsilon = Fin (4 / 5)\<rparr>\<rparr>) 2 =
      Inr \<lparr>rc_correctness = ct_correctness ct, rc_difficulty = map Fin (ct_difficulty ct), rc_lambda = Fin (1 / 10),
        rc_miu = Fin 16, rc_alpha_r = Fin (1 / 4), rc_alpha_d = Fin (1 / 2), rc_epsilon = Fin (4 / 5)\<rparr>"
proof -
  have "case compute_r2opl_controller_batch \<lparr>width = 1, rows = [[True], [True]]\<rparr> (Rew1 [Fin 1, Fin 0]) [''q'', ''q''] None of
      Inl e \<Rightarrow> False | Inr ct \<Rightarrow> True" by code_simp
  then obtain ct where ct: "compute_r2opl_controller_batch \<lparr>width = 1, rows = [[True], [True]]\<rparr> (Rew1 [Fin 1, Fin 0])
      [''q'', ''q''] None = Inr ct" by (auto split: sum.splits)
  let ?hp = "\<lparr>hp_lambda = Fin (1 / 10), hp_miu = Fin 16, hp_alpha_r = Fin (1 / 4), hp_alpha_d = Fin (1 / 2),
         hp_epsilon = Fin (4 / 5)\<rparr>"
  have hp: "r2opl_hyperparameters \<lparr>rs_lambda = None, rs_miu = None, rs_alpha_r = None, rs_alpha_d = None, rs_epsilon = None\<rparr>
      = Inr ?hp" by (simp add: r2opl_hyperparameters_def or_default_def raise_if_def)
  have two: "height \<lparr>width = 1, rows = [[True], [True]]\<rparr> = 2" "(0::nat) < 2" by (simp_all add: height_def)
  show ?thesis
    using ct controller_fields_accepted_by_actor [OF ct hp, of "example_data\<lparr>dd_values := controller_fields ct ?hp\<rparr>",
        unfolded two(1)] by simp
qed

lemma modulation_rejects_epsilon:
  assumes "fless (Fin 1) e"
  shows "\<exists>err. compute_r2opl_token_modulation pp rm sr sm bm ar ad e = Inl err"
proof (cases "compute_r2opl_token_modulation pp rm sr sm bm ar ad e")
  case (Inr x)
  then obtain u where "validate_hyperparameters None None (Some ar) (Some ad) (Some e) = Inr u"
    by (auto simp: compute_r2opl_token_modulation_def ebind_Inr)
  then have "is_finite e" "fval e \<le> 1" unfolding validate_hyperparameters_Inr by simp_all
  then show ?thesis using assms by (auto simp: is_finite_iff)
qed simp

lemma read_controls_epsilon:
  assumes "dict_get ''r2opl_epsilon'' (dd_values d) = Some (replicate n e)" "read_controls d m = Inr rc"
  shows "rc_epsilon rc = e"
proof -
  obtain vals where v: "per_row_scalar d m ''r2opl_epsilon'' Positive = Inr vals" "shared_config_value ''epsilon'' vals = Inr (rc_epsilon rc)"
    using assms(2) by (auto simp: read_controls_def ebind_Inr raise_if_Inr)
  have "set vals \<subseteq> {e}"
    using v(1) assms(1) by (auto simp: per_row_scalar_def ebind_Inr raise_if_Inr split: if_splits)
  then show ?thesis using v(2) by (cases vals) (auto simp: shared_config_value_def raise_if_Inr)
qed

text \<open>
  C40: The configuration check admits an epsilon above 1, which the modulation kernel rejects.
  Take any accepted configuration and replace its epsilon by any finite value above 1: the whole
  check still accepts it, the controller attaches exactly this value to every row, and the actor
  loss raises on every input that carries it, so such a run starts and never takes a step.
\<close>

theorem epsilon_above_one_never_trains:
  assumes "validate_r2opl_config lower c = Inr ()" "is_finite e" "fless (Fin 1) e"
  shows "\<exists>hp. validate_r2opl_config lower (c\<lparr>cf_settings := (cf_settings c)\<lparr>rs_epsilon := Some e\<rparr>\<rparr>) = Inr () \<and>
    r2opl_hyperparameters ((cf_settings c)\<lparr>rs_epsilon := Some e\<rparr>) = Inr hp \<and>
    (\<forall>ct. dict_get ''r2opl_epsilon'' (controller_fields ct hp) = Some (replicate (length (ct_correctness ct)) e)) \<and>
    (\<forall>env dc mo d n. dict_get ''r2opl_epsilon'' (dd_values d) = Some (replicate n e) \<longrightarrow>
       (\<exists>err. compute_r2opl_sampled_token_loss env dc mo d = Inl err))"
proof -
  let ?s = "(cf_settings c)\<lparr>rs_epsilon := Some e\<rparr>"
  obtain hp0 where "r2opl_hyperparameters (cf_settings c) = Inr hp0"
    using assms(1) by (auto simp: validate_r2opl_config_def validate_loss_settings_def ebind_Inr raise_if_Inr)
  moreover have "\<not> fle e (Fin 0)" using assms(2,3) by (auto simp: is_finite_iff)
  ultimately have hp: "r2opl_hyperparameters ?s = Inr (hp0\<lparr>hp_epsilon := e\<rparr>)"
    using assms(2) by (auto simp: r2opl_hyperparameters_def Let_def raise_if_Inr or_default_def)
  have "validate_r2opl_config lower (c\<lparr>cf_settings := ?s\<rparr>) = Inr ()"
    using assms(1) hp
    by (auto simp: validate_r2opl_config_def validate_loss_settings_def validate_model_settings_def validate_token_budgets_def
        ebind_Inr raise_if_Inr)
  moreover have "\<exists>err. compute_r2opl_sampled_token_loss env dc mo d = Inl err"
    if d: "dict_get ''r2opl_epsilon'' (dd_values d) = Some (replicate n e)" for env dc mo d n
  proof (cases "compute_r2opl_sampled_token_loss env dc mo d")
    case (Inr x)
    then obtain pp rm sr sm bm rc y where "read_controls d (height (dd_response_mask d)) = Inr rc"
      "compute_r2opl_token_modulation pp rm sr sm bm (rc_alpha_r rc) (rc_alpha_d rc) (rc_epsilon rc) = Inr y"
      unfolding compute_r2opl_sampled_token_loss_def by (auto simp: ebind_Inr raise_if_Inr Let_def split: prod.splits)
    then show ?thesis using modulation_rejects_epsilon [OF assms(3)] read_controls_epsilon [OF d] by (metis sum.distinct(1))
  qed simp
  ultimately show ?thesis using hp
    by (intro exI [of _ "hp0\<lparr>hp_epsilon := e\<rparr>"]) (simp add: controller_fields_def Let_def dict_get_def)
qed

definition example_run_config :: run_config where
  "example_run_config = \<lparr>cf_verl_support = True, cf_algorithm_name = lit ''r2opl'', cf_project_name = lit ''R^2OPL'',
     cf_group_name = lit ''R2OPL'', cf_distillation_enabled = True, cf_prompt_template = lit ''explicit_step_prompt'',
     cf_student_model_family = lit ''qwen3'', cf_teacher_model_family = lit ''qwen3'',
     cf_settings = \<lparr>rs_lambda = None, rs_miu = None, rs_alpha_r = None, rs_alpha_d = None, rs_epsilon = None\<rparr>,
     cf_loss_mode = lit ''r2opl'', cf_policy_loss_mode = lit ''reinforce'', cf_use_policy_gradient = True,
     cf_use_task_rewards = False, cf_topk = None, cf_selection_ratio = 1, cf_loss_agg_mode = lit ''seq-mean-token-sum'',
     cf_loss_max_clamp = None, cf_use_remove_padding = False, cf_use_fused_kernels = False,
     cf_attn_implementation = lit ''sdpa'', cf_ulysses_sequence_parallel_size = 1, cf_ppo_micro_batch_size_per_gpu = 1,
     cf_use_dynamic_bsz = False, cf_rollout_n = 8, cf_train_batch_size = 16, cf_max_prompt_length = 1024,
     cf_train_max_new_tokens = 2048, cf_val_max_new_tokens = 4096, cf_max_response_length = 4096,
     cf_rollout_max_model_len = 5120, cf_ppo_max_token_len_per_gpu = 3073, cf_rollout_log_prob_max_token_len = 3073,
     cf_ref_log_prob_max_token_len = 3073, cf_inference_name = lit ''vllm'', cf_inference_prompt_length = 1024,
     cf_inference_response_length = 2048, cf_inference_max_model_len = 3073, cf_max_logprobs = Some 1\<rparr>"

lemma epsilon_above_one_never_trains_witness:
  "\<exists>e. validate_r2opl_config (\<lambda>t. t) (example_run_config\<lparr>cf_settings := (cf_settings example_run_config)
        \<lparr>rs_epsilon := Some (Fin (3 / 2))\<rparr>\<rparr>) = Inr () \<and>
     compute_r2opl_sampled_token_loss example_torch_env example_distill_config example_output
       (example_data\<lparr>dd_values := (''r2opl_epsilon'', [Fin (3 / 2)]) # dd_values example_data\<rparr>) = Inl e"
proof -
  let ?d = "example_data\<lparr>dd_values := (''r2opl_epsilon'', [Fin (3 / 2)]) # dd_values example_data\<rparr>"
  have names: "strip (lit ''R2OPL'') = lit ''R2OPL''" "strip (lit ''explicit_step_prompt'') \<in> set prompt_templates"
    "normalize_model_family (\<lambda>t. t) (lit ''qwen3'') = Inr (lit ''qwen3'')" by code_simp+
  have c: "validate_r2opl_config (\<lambda>t. t) example_run_config = Inr ()"
    using names by (simp add: validate_r2opl_config_def validate_loss_settings_def validate_model_settings_def
        validate_token_budgets_def example_run_config_def r2opl_hyperparameters_def or_default_def raise_if_def)
  have e: "is_finite (Fin (3 / 2))" "fless (Fin 1) (Fin (3 / 2))" by simp_all
  have d: "dict_get ''r2opl_epsilon'' (dd_values ?d) = Some (replicate 1 (Fin (3 / 2)))" by (simp add: dict_get_def)
  from epsilon_above_one_never_trains [OF c e] d show ?thesis by blast
qed

end
