(* ===== verification/Distill_Variants.thy ===== *)
theory Distill_Variants
  imports Distill_R2OPL Actor_Losses
begin

text \<open>
  The advantage-shaping losses of \<open>verl/trainer/distillation/losses.py\<close>: OPDVR, ExOPD and
  Cal-OPD.
\<close>

section \<open>OPDVR\<close>

text \<open>A correctness mask as the actor builds it (one flag per trajectory) or per token.\<close>

datatype flag_tensor = Flag1 "bool list" | Flag2 "bool mat"

fun flag_shape :: "flag_tensor \<Rightarrow> nat list" where
  "flag_shape (Flag1 v) = [length v]"
| "flag_shape (Flag2 m) = [height m, width m]"

fun flag_matrix :: "flag_tensor \<Rightarrow> bool mat" where
  "flag_matrix (Flag1 v) = col_bcast 1 v"
| "flag_matrix (Flag2 m) = m"

definition opdvr_correctness_gate :: "flt mat \<Rightarrow> flag_tensor \<Rightarrow> bool mat option \<Rightarrow> flt mat res" where
  "opdvr_correctness_gate sampled_reverse_kl correct_mask response_mask =
     raise_if ([height sampled_reverse_kl, width sampled_reverse_kl] \<noteq> flag_shape correct_mask)
       (ValueError ''OPDVR correctness mask must match the per-token signal shape'')
     (let gated = mmap2 (\<lambda>c k. if c then fclamp_min 0 (fneg k) else fneg (fclamp_min 0 k))
                    (flag_matrix correct_mask) sampled_reverse_kl in
      case response_mask of
        None \<Rightarrow> Inr gated
      | Some m \<Rightarrow> raise_if (shape m \<noteq> shape gated) (ValueError ''OPDVR response_mask must match the signal shape'')
          (Inr (mask_signal gated m)))"

fun flt_group_totals :: "(string \<times> flt) list \<Rightarrow> (string \<times> flt) list \<Rightarrow> (string \<times> nat) list
    \<Rightarrow> (string \<times> flt) list \<times> (string \<times> nat) list" where
  "flt_group_totals [] totals counts = (totals, counts)"
| "flt_group_totals ((key, v) # xs) totals counts =
     flt_group_totals xs (dict_put key (fadd (dict_get_or (Fin 0) key totals) v) totals)
       (dict_put key (dict_get_or 0 key counts + 1) counts)"

definition opdvr_group_relative_advantage :: "flt list \<Rightarrow> string list \<Rightarrow> flt list res" where
  "opdvr_group_relative_advantage rewards group_ids =
     raise_if (length group_ids \<noteq> length rewards) (ValueError ''OPDVR group ids must match the trajectory count'')
     (let (totals, counts) = flt_group_totals (zip group_ids rewards) [] [] in
      raise_if (rewards = []) (RuntimeError ''stack expects a non-empty TensorList'')
      (emap (\<lambda>i. case (dict_get (group_ids ! i) totals, dict_get (group_ids ! i) counts) of
                 (Some s, Some n) \<Rightarrow> Inr (fsub (rewards ! i) (fdiv_real s (real n)))
               | _ \<Rightarrow> Inl (KeyError ''group_ids'')) [0..<length rewards]))"

definition mean_or_zero :: "flt list \<Rightarrow> flt" where
  "mean_or_zero xs = (if xs = [] then Fin 0 else fmean xs)"

text \<open>
  \<open>tu.get_non_tensor_data(data, "uid")\<close> lacks its required third argument, so reading the
  group ids is a TypeError.
\<close>

definition opdvr_group_ids :: "distill_data \<Rightarrow> string list res" where
  "opdvr_group_ids d = Inl (TypeError ''get_non_tensor_data() missing 1 required positional argument: default'')"

definition compute_opdvr_gated_sampled_token_reverse_kl :: distill_loss_fn where
  "compute_opdvr_gated_sampled_token_reverse_kl env c mo d =
     ebind (student_teacher mo d) (\<lambda>(student, teacher).
     let valid = dd_response_mask d in
     raise_if (\<not> (shape teacher = shape student \<and> shape student = shape valid)) (AssertionError ''shape'')
     (case dict_get ''rm_scores'' (dd_mats d) of
        None \<Rightarrow> Inl (RuntimeError ''OPDVR requires verifier scores (rm_scores) in the actor batch'')
      | Some rm_scores \<Rightarrow>
     let verifier_rewards = concat (rows rm_scores) in
     raise_if (length verifier_rewards \<noteq> height valid)
       (RuntimeError ''OPDVR expected one verifier score per trajectory'')
     (let correct = map (\<lambda>r. fless (Fin (1 / 2)) r) verifier_rewards;
          sampled_reverse_kl = mmap2 fsub student teacher;
          base_signal = clamp_signal (dc_loss_max_clamp c) sampled_reverse_kl in
      ebind (opdvr_correctness_gate base_signal (Flag1 correct) (Some valid)) (\<lambda>gated0.
      ebind (if dc_opdvr_grpd c
             then ebind (opdvr_group_ids d) (\<lambda>ids.
                  ebind (opdvr_group_relative_advantage verifier_rewards ids) (\<lambda>g.
                  Inr (scale_rows gated0 g, [mean_entry ''opdvr_grpd_advantage_mean'' (fmean g)])))
             else Inr (gated0, [])) (\<lambda>(gated, grpd_ms).
      let correct_rows = col_bcast (width gated) correct;
          gated_valid = mselect valid gated; correct_valid = mselect valid correct_rows;
          conflict = map2 (\<lambda>k b. of_mask (fless (Fin 0) k = b)) (mselect valid sampled_reverse_kl) correct_valid
      in Inr (mmap fneg gated,
        [mean_entry ''reverse_kl_estimate'' (selected_mean valid sampled_reverse_kl),
         mean_entry ''opdvr_gated_reward_mean'' (mean_or_zero gated_valid),
         mean_entry ''opdvr_correct_reward_mean'' (mean_or_zero (vselect correct_valid gated_valid)),
         mean_entry ''opdvr_incorrect_reward_mean'' (mean_or_zero (vselect (map Not correct_valid) gated_valid)),
         mean_entry ''opdvr_conflicting_token_ratio'' (mean_or_zero conflict)] @ grpd_ms))))))"

section \<open>ExOPD\<close>

definition exopd_token :: "flt \<Rightarrow> flt \<Rightarrow> flt \<Rightarrow> flt \<Rightarrow> flt" where
  "exopd_token lambda student teacher reference =
     fsub (fmul lambda (fsub teacher reference)) (fsub student reference)"

definition compute_exopd_advantage :: "flt mat \<Rightarrow> flt mat \<Rightarrow> flt mat \<Rightarrow> flt \<Rightarrow> flt mat res" where
  "compute_exopd_advantage student teacher reference exopd_lambda =
     raise_if (\<not> (shape student = shape teacher \<and> shape teacher = shape reference))
       (ValueError ''ExOPD log-probability tensors must have identical shapes'')
     (raise_if (\<not> is_finite exopd_lambda \<or> fless exopd_lambda (Fin 0))
       (ValueError ''ExOPD lambda must be finite and non-negative'')
     (Inr (mmap2 (\<lambda>(s, t) r. exopd_token exopd_lambda s t r) (mmap2 Pair student teacher) reference)))"

definition compute_exopd_sampled_token_loss :: distill_loss_fn where
  "compute_exopd_sampled_token_loss env c mo d =
     ebind (student_teacher mo d) (\<lambda>(student, teacher).
     ebind (lookup_field (dd_mats d) ''ref_log_prob'') (\<lambda>reference.
     let valid = dd_response_mask d in
     raise_if (\<not> (shape student = shape teacher \<and> shape teacher = shape reference \<and> shape reference = shape valid))
       (AssertionError ''shape'')
     (ebind (compute_exopd_advantage student teacher reference (dc_exopd_lambda c)) (\<lambda>advantage.
      Inr (mmap fneg advantage,
        [mean_entry ''exopd_advantage_mean'' (selected_mean valid advantage),
         mean_entry ''exopd_advantage_abs_mean'' (selected_mean valid (mmap fabs advantage)),
         mean_entry ''student_sampled_token_prob'' (selected_mean valid (mmap fexp student)),
         mean_entry ''teacher_sampled_token_prob'' (selected_mean valid (mmap fexp teacher)),
         mean_entry ''exopd_reference_sampled_token_prob'' (selected_mean valid (mmap fexp reference))])))))"

section \<open>Cal-OPD\<close>

fun fsign :: "flt \<Rightarrow> flt" where
  "fsign (Fin x) = Fin (sgn x)"
| "fsign PInf = Fin 1"
| "fsign MInf = Fin (-1)"
| "fsign NaN = NaN"

definition self_deviation :: "flt \<Rightarrow> flt \<Rightarrow> flt \<Rightarrow> flt \<Rightarrow> flt" where
  "self_deviation student teacher positive negative =
     (let base = fsub teacher student;
          positive_shift = fsub positive teacher; negative_shift = fsub negative teacher;
          upward = fmax (Fin 0) (fmax positive_shift negative_shift);
          downward = fmin (Fin 0) (fmin positive_shift negative_shift)
      in if fless (Fin 0) base then fneg downward else if fless base (Fin 0) then upward else Fin 0)"

definition calibrated_token :: "flt \<Rightarrow> flt \<Rightarrow> flt \<Rightarrow> flt \<Rightarrow> flt \<Rightarrow> flt" where
  "calibrated_token lambda student teacher positive negative =
     (let base = fsub teacher student in
      fmul (fsign base)
        (fclamp_min 0 (fsub (fabs base) (fmul lambda (self_deviation student teacher positive negative)))))"

text \<open>Elementwise application to four tensors of one shape.\<close>

definition mmap4 :: "(flt \<Rightarrow> flt \<Rightarrow> flt \<Rightarrow> flt \<Rightarrow> flt) \<Rightarrow> flt mat \<Rightarrow> flt mat \<Rightarrow> flt mat \<Rightarrow> flt mat \<Rightarrow> flt mat" where
  "mmap4 f a b c d = mmap2 (\<lambda>(x, y) (u, v). f x y u v) (mmap2 Pair a b) (mmap2 Pair c d)"

definition compute_calibrated_opd_advantage ::
  "flt mat \<Rightarrow> flt mat \<Rightarrow> flt mat \<Rightarrow> flt mat \<Rightarrow> flt \<Rightarrow> (flt mat \<times> flt mat) res" where
  "compute_calibrated_opd_advantage student teacher positive negative cal_lambda =
     raise_if (\<not> (shape student = shape teacher \<and> shape teacher = shape positive \<and> shape positive = shape negative))
       (ValueError ''All Cal-OPD log-probability tensors must have identical shapes'')
     (raise_if (\<not> is_finite cal_lambda \<or> fless cal_lambda (Fin 0))
       (ValueError ''Cal-OPD cal_lambda must be finite and non-negative'')
     (Inr (mmap4 (calibrated_token cal_lambda) student teacher positive negative,
           mmap4 self_deviation student teacher positive negative)))"

definition retained_magnitude_ratio :: "bool list \<Rightarrow> flt list \<Rightarrow> flt list \<Rightarrow> flt" where
  "retained_magnitude_ratio selection base calibrated =
     fdiv (fsum (map fabs (vselect selection calibrated)))
       (fclamp_min (1 / 10 ^ 12) (fsum (map fabs (vselect selection base))))"

definition compute_calibrated_sampled_token_reverse_kl :: distill_loss_fn where
  "compute_calibrated_sampled_token_reverse_kl env c mo d =
     ebind (student_teacher mo d) (\<lambda>(student, teacher).
     ebind (padded_tokens d (dd_tokens d) ''cal_positive_teacher_logprobs'') (\<lambda>positive.
     ebind (padded_tokens d (dd_tokens d) ''cal_negative_teacher_logprobs'') (\<lambda>negative.
     let valid = dd_response_mask d in
     raise_if (\<not> (shape student = shape teacher \<and> shape teacher = shape positive \<and>
                  shape positive = shape negative \<and> shape negative = shape valid)) (AssertionError ''shape'')
     (ebind (compute_calibrated_opd_advantage student teacher positive negative (dc_cal_lambda c))
       (\<lambda>(calibrated, deviation).
      let valid_base = mselect valid (mmap2 fsub teacher student);
          valid_calibrated = mselect valid calibrated
      in Inr (mmap fneg calibrated,
        [mean_entry ''reverse_kl_estimate'' (fneg (fmean valid_base)),
         mean_entry ''student_sampled_token_prob'' (selected_mean valid (mmap fexp student)),
         mean_entry ''teacher_sampled_token_prob'' (selected_mean valid (mmap fexp teacher)),
         mean_entry ''cal_advantage_mean'' (fmean valid_calibrated),
         mean_entry ''cal_advantage_abs_mean'' (fmean (map fabs valid_calibrated)),
         mean_entry ''cal_zero_token_ratio'' (fmean (map (\<lambda>v. of_mask (feq v (Fin 0))) valid_calibrated)),
         mean_entry ''cal_teacher_self_deviation_mean'' (selected_mean valid deviation),
         mean_entry ''cal_retained_magnitude_ratio''
           (retained_magnitude_ratio (map (\<lambda>_. True) valid_base) valid_base valid_calibrated),
         mean_entry ''cal_positive_retained_magnitude_ratio''
           (retained_magnitude_ratio (map (\<lambda>v. fless (Fin 0) v) valid_base) valid_base valid_calibrated),
         mean_entry ''cal_negative_retained_magnitude_ratio''
           (retained_magnitude_ratio (map (\<lambda>v. fless v (Fin 0)) valid_base) valid_base valid_calibrated)]))))))"

section \<open>What the losses promise\<close>

text \<open>
  C39: The OPDVR actor loss never returns. Its correctness mask has one flag per trajectory, the
  gate it calls insists on one flag per token, and with the group-relative option the group ids
  are read without their default: for every actor batch and every configuration it raises.
\<close>

theorem opdvr_actor_loss_always_raises:
  "\<exists>e. compute_opdvr_gated_sampled_token_reverse_kl env c mo d = Inl e"
proof (rule ccontr)
  assume "\<not> (\<exists>e. compute_opdvr_gated_sampled_token_reverse_kl env c mo d = Inl e)"
  then obtain x where "compute_opdvr_gated_sampled_token_reverse_kl env c mo d = Inr x"
    by (cases "compute_opdvr_gated_sampled_token_reverse_kl env c mo d") auto
  then obtain k v m gated where "opdvr_correctness_gate k (Flag1 v) m = Inr gated"
    by (auto simp: compute_opdvr_gated_sampled_token_reverse_kl_def ebind_Inr raise_if_Inr Let_def split: option.splits)
  then show False by (simp add: opdvr_correctness_gate_def raise_if_Inr)
qed

lemma mget_mmap4:
  assumes "wf_mat a" "wf_mat b" "wf_mat c" "wf_mat d" "shape a = shape b" "shape b = shape c" "shape c = shape d"
    and "i < height a" "j < width a"
  shows "mget (mmap4 f a b c d) i j = f (mget a i j) (mget b i j) (mget c i j) (mget d i j)"
  using assms by (simp add: mmap4_def mat_simps shape_def)

lemma calibrated_token_bounds:
  assumes "0 \<le> l"
  shows "\<exists>c. calibrated_token (Fin l) (Fin s) (Fin t) (Fin p) (Fin n) = Fin c \<and> 0 \<le> c * (t - s) \<and> \<bar>c\<bar> \<le> \<bar>t - s\<bar> \<and>
    (l = 0 \<longrightarrow> c = t - s)"
proof -
  obtain v where v: "self_deviation (Fin s) (Fin t) (Fin p) (Fin n) = Fin v" "0 \<le> v"
  proof
    show "self_deviation (Fin s) (Fin t) (Fin p) (Fin n) = Fin (if s < t then max 0 (max (t - p) (t - n))
        else if t < s then max 0 (max (p - t) (n - t)) else 0)"
      by (auto simp: self_deviation_def Let_def fmax_Fin fmin_Fin max_def min_def)
  qed (auto simp: max_def)
  then have "0 \<le> l * v" using assms by simp
  moreover have "calibrated_token (Fin l) (Fin s) (Fin t) (Fin p) (Fin n)
      = Fin (sgn (t - s) * max 0 (\<bar>t - s\<bar> - l * v))"
    by (simp add: calibrated_token_def Let_def v(1))
  ultimately show ?thesis
    by (intro exI [of _ "sgn (t - s) * max 0 (\<bar>t - s\<bar> - l * v)"])
       (auto simp: sgn_if abs_if max_def mult_nonneg_nonneg mult_nonpos_nonpos mult_nonneg_nonpos)
qed

text \<open>
  The calibrated OPD advantage only ever damps the OPD signal: on every token with finite
  log-probabilities it is finite, never points against teacher minus student, and is never
  larger in magnitude; with calibration strength 0 it is the OPD signal itself.
\<close>

theorem calibration_only_damps:
  assumes "compute_calibrated_opd_advantage S T P N lam = Inr (A, D)"
    and "wf_mat S" "wf_mat T" "wf_mat P" "wf_mat N" "i < height S" "j < width S"
    and "mget S i j = Fin s" "mget T i j = Fin t" "mget P i j = Fin p" "mget N i j = Fin n"
  shows "\<exists>a. mget A i j = Fin a \<and> 0 \<le> a * (t - s) \<and> \<bar>a\<bar> \<le> \<bar>t - s\<bar> \<and> (lam = Fin 0 \<longrightarrow> a = t - s)"
proof -
  have sh: "shape S = shape T" "shape T = shape P" "shape P = shape N"
    and A: "A = mmap4 (calibrated_token lam) S T P N" and lam: "is_finite lam" "\<not> fless lam (Fin 0)"
    using assms(1) by (auto simp: compute_calibrated_opd_advantage_def raise_if_Inr)
  from lam obtain l where l: "lam = Fin l" "0 \<le> l" by (auto simp: is_finite_iff)
  have "mget A i j = calibrated_token (Fin l) (Fin s) (Fin t) (Fin p) (Fin n)"
    using assms sh by (simp add: A l(1) mget_mmap4)
  with calibrated_token_bounds [OF l(2), of s t p n] show ?thesis by (auto simp: l(1))
qed

lemma calibration_only_damps_witness:
  "\<exists>A D a. compute_calibrated_opd_advantage \<lparr>width = 1, rows = [[Fin (- 3)]]\<rparr> \<lparr>width = 1, rows = [[Fin (- 1)]]\<rparr>
      \<lparr>width = 1, rows = [[Fin (- 2)]]\<rparr> \<lparr>width = 1, rows = [[Fin (- 1)]]\<rparr> (Fin 1) = Inr (A, D) \<and>
    mget A 0 0 = Fin a \<and> 0 \<le> a * 2 \<and> \<bar>a\<bar> \<le> 2"
proof -
  let ?m = "\<lambda>x. \<lparr>width = 1, rows = [[Fin x]]\<rparr> :: flt mat"
  obtain A D where AD: "compute_calibrated_opd_advantage (?m (- 3)) (?m (- 1)) (?m (- 2)) (?m (- 1)) (Fin 1) = Inr (A, D)"
    by (simp add: compute_calibrated_opd_advantage_def raise_if_def shape_def height_def)
  then show ?thesis
    using calibration_only_damps [OF AD, of 0 0 "- 3" "- 1" "- 2" "- 1"] by (auto simp: wf_mat_def height_def mget_def)
qed

text \<open>
  ExOPD on a token with finite log-probabilities is the extrapolated reward
  \<open>lambda * (teacher - reference) - (student - reference)\<close>; with lambda 1 the reference cancels
  and the advantage is the plain OPD advantage teacher minus student.
\<close>

theorem exopd_advantage_formula:
  assumes "compute_exopd_advantage S T R lam = Inr A" "wf_mat S" "wf_mat T" "wf_mat R"
    and "i < height S" "j < width S" "mget S i j = Fin s" "mget T i j = Fin t" "mget R i j = Fin r"
  shows "mget A i j = Fin (fval lam * (t - r) - (s - r)) \<and> (lam = Fin 1 \<longrightarrow> mget A i j = fsub (mget T i j) (mget S i j))"
proof -
  have sh: "shape S = shape T" "shape T = shape R" and lam: "is_finite lam"
    and A: "A = mmap2 (\<lambda>(s, t) r. exopd_token lam s t r) (mmap2 Pair S T) R"
    using assms(1) by (auto simp: compute_exopd_advantage_def raise_if_Inr)
  have "mget A i j = exopd_token lam (Fin s) (Fin t) (Fin r)"
    using assms sh by (simp add: A mat_simps shape_def)
  then show ?thesis using lam assms(7-9) by (auto simp: exopd_token_def is_finite_iff)
qed

lemma exopd_advantage_formula_witness:
  "\<exists>A. compute_exopd_advantage \<lparr>width = 1, rows = [[Fin (- 3)]]\<rparr> \<lparr>width = 1, rows = [[Fin (- 1)]]\<rparr>
      \<lparr>width = 1, rows = [[Fin (- 2)]]\<rparr> (Fin (5 / 4)) = Inr A \<and> mget A 0 0 = Fin (9 / 4)"
proof -
  let ?m = "\<lambda>x. \<lparr>width = 1, rows = [[Fin x]]\<rparr> :: flt mat"
  obtain A where A: "compute_exopd_advantage (?m (- 3)) (?m (- 1)) (?m (- 2)) (Fin (5 / 4)) = Inr A"
    by (simp add: compute_exopd_advantage_def raise_if_def shape_def height_def)
  then show ?thesis
    using exopd_advantage_formula [OF A, of 0 0 "- 3" "- 1" "- 2"] by (auto simp: wf_mat_def height_def mget_def)
qed

end
