(* ===== verification/Distill_Outcome.thy ===== *)
theory Distill_Outcome
  imports Distill_Variants
begin

text \<open>
  OA-OPD, PS-OPD, EOPD and Sol-OPD of \<open>verl/trainer/distillation/losses.py\<close>, with the
  sufficient statistics they report.
\<close>

section \<open>OA-OPD\<close>

definition sequence_field :: "distill_data \<Rightarrow> nat \<Rightarrow> string \<Rightarrow> flt list res" where
  "sequence_field d batch_size name =
     (case dict_get name (dd_values d) of
        None \<Rightarrow> Inl (RuntimeError (''OA-OPD actor input is missing '' @ name))
      | Some v \<Rightarrow> raise_if (length v \<noteq> batch_size)
          (ValueError (name @ '' must contain one value per trajectory'')) (Inr v))"

text \<open>The statistics of all rollouts, of the correct and of the wrong ones.\<close>

definition oa_statistics ::
  "flt list \<Rightarrow> flt list \<Rightarrow> flt list \<Rightarrow> bool list \<Rightarrow> bool mat \<Rightarrow> flt mat \<Rightarrow> flt mat \<Rightarrow> flt mat \<Rightarrow> (string \<times> flt) list" where
  "oa_statistics step_count active_step_count probe_failures correct valid weights absolute retained =
     (let active = mat_and valid (mmap (\<lambda>w. fless (Fin 0) w) weights);
          outcome = (\<lambda>name sel.
            let tokens = mask_rows valid sel in
            [(name @ ''_step_count'', fsum (vselect sel step_count)),
             (name @ ''_active_step_count'', fsum (vselect sel active_step_count)),
             (name @ ''_token_count'', count_true tokens),
             (name @ ''_active_token_count'', count_true (mat_and active tokens)),
             (name @ ''_weight_sum'', selected_sum tokens weights),
             (name @ ''_opd_adv_mass'', selected_sum tokens absolute),
             (name @ ''_oa_adv_mass'', selected_sum tokens retained)])
      in [(''step_count'', fsum step_count),
          (''active_step_count'', fsum active_step_count),
          (''token_count'', count_true valid),
          (''active_token_count'', count_true active),
          (''weight_sum'', selected_sum valid weights),
          (''opd_adv_mass'', selected_sum valid absolute),
          (''oa_adv_mass'', selected_sum valid retained),
          (''probe_failure_count'', fsum probe_failures)]
         @ outcome ''correct'' correct @ outcome ''wrong'' (map Not correct))"

text \<open>Weights are finite, in \<open>[0, 1)\<close> on response tokens and zero on padding.\<close>

definition check_oa_weights :: "flt mat \<Rightarrow> bool mat \<Rightarrow> unit res" where
  "check_oa_weights weights valid =
     (let valid_weights = mselect valid weights in
      raise_if (\<exists>w \<in> set valid_weights. \<not> is_finite w) (ValueError ''OA-OPD intervention weights must be finite'')
      (raise_if ((\<exists>w \<in> set valid_weights. fless w (Fin 0)) \<or> (\<exists>w \<in> set valid_weights. fle (Fin 1) w))
        (ValueError ''OA-OPD intervention weights must lie in [0, 1)'')
      (raise_if (\<exists>w \<in> set (mselect (mmap Not valid) weights). \<not> feq w (Fin 0))
        (ValueError ''OA-OPD padding positions must have zero intervention weight'')
      (Inr ()))))"

definition compute_outcome_aware_sampled_token_reverse_kl :: distill_loss_fn where
  "compute_outcome_aware_sampled_token_reverse_kl env c mo d =
     ebind (student_teacher mo d) (\<lambda>(student, teacher).
     let valid = dd_response_mask d in
     (case dict_get ''oa_opd_weights'' (dd_mats d) of
        None \<Rightarrow> Inl (RuntimeError ''OA-OPD actor input is missing oa_opd_weights'')
      | Some weights \<Rightarrow>
     raise_if (\<not> (shape student = shape teacher \<and> shape teacher = shape valid \<and> shape valid = shape weights))
       (ValueError ''OA-OPD tensors must have identical shapes'')
     (ebind (check_oa_weights weights valid) (\<lambda>_.
      let sampled_reverse_kl = mmap2 fsub student teacher;
          weighted_reverse_kl = mmap2 fmul sampled_reverse_kl weights in
      (case dict_get ''rm_scores'' (dd_mats d) of
         None \<Rightarrow> Inl (RuntimeError ''OA-OPD requires rm_scores for correct/wrong metrics'')
       | Some rm_scores \<Rightarrow>
      let correct = rollout_correct rm_scores; n = height student in
      raise_if (length correct \<noteq> n) (ValueError ''OA-OPD rm_scores batch dimension is misaligned'')
      (ebind (sequence_field d n ''oa_opd_num_steps'') (\<lambda>step_count.
       ebind (sequence_field d n ''oa_opd_active_steps'') (\<lambda>active_step_count.
       ebind (sequence_field d n ''oa_opd_probe_failures'') (\<lambda>probe_failures.
       raise_if ((\<exists>x \<in> set step_count. fless x (Fin 0)) \<or> (\<exists>x \<in> set active_step_count. fless x (Fin 0)))
         (ValueError ''OA-OPD step counts must be non-negative'')
       (raise_if (\<exists>(a, s) \<in> set (zip active_step_count step_count). fless s a)
         (ValueError ''OA-OPD active step count cannot exceed total step count'')
       (ebind (if dd_track_outcome d
               then compute_opd_outcome_statistics (mmap fneg weighted_reverse_kl) valid rm_scores
                      (dc_opd_statistics_threshold c) else Inr []) (\<lambda>outcome.
        Inr (weighted_reverse_kl,
          [mean_entry ''reverse_kl_estimate'' (selected_mean valid sampled_reverse_kl),
           mean_entry ''student_sampled_token_prob'' (selected_mean valid (mmap fexp student)),
           mean_entry ''teacher_sampled_token_prob'' (selected_mean valid (mmap fexp teacher))] @
          map (\<lambda>(name, v). (''distillation/oa_opd_stats/'' @ name, AggSum, v))
            (oa_statistics step_count active_step_count probe_failures correct valid weights
               (mmap fabs sampled_reverse_kl) (mmap fabs weighted_reverse_kl)) @ outcome)))))))))))))"

section \<open>EOPD\<close>

definition compute_eopd_sampled_token_reverse_kl :: distill_loss_fn where
  "compute_eopd_sampled_token_reverse_kl env c mo d =
     ebind (padded_tokens d (mo_tokens mo) ''log_probs'') (\<lambda>student.
     ebind (padded_tokens d (dd_tokens d) ''teacher_sampled_logprobs'') (\<lambda>teacher.
     ebind (padded_tokens d (dd_tokens d) ''teacher_entropy'') (\<lambda>entropy.
     ebind (padded_tokens d (mo_tokens mo) ''distillation_losses'') (\<lambda>forward_kl.
     let valid = dd_response_mask d in
     raise_if (\<not> (shape student = shape teacher \<and> shape teacher = shape entropy \<and>
                  shape entropy = shape forward_kl \<and> shape forward_kl = shape valid))
       (ValueError ''EOPD token tensors must have identical response shapes'')
     (let sampled_reverse_kl = mmap2 fsub student teacher;
          high_entropy = mat_and (mmap (\<lambda>h. fless (Fin (dc_eopd_entropy_threshold c)) h) entropy) valid
      in Inr (sampled_reverse_kl,
        [mean_entry ''reverse_kl_estimate'' (selected_mean valid sampled_reverse_kl),
         mean_entry ''student_sampled_token_prob'' (selected_mean valid (mmap fexp student)),
         mean_entry ''teacher_sampled_token_prob'' (selected_mean valid (mmap fexp teacher)),
         mean_entry ''eopd_teacher_entropy'' (selected_mean valid entropy),
         mean_entry ''eopd_high_entropy_token_ratio'' (selected_mean valid (mmap of_mask high_entropy)),
         mean_entry ''eopd_forward_kl_per_token'' (selected_mean valid forward_kl)]))))))"

section \<open>PS-OPD\<close>

text \<open>
  With diagnostics enabled the code also dumps its tensors to a file; that write is not
  modelled, the check in front of it is.
\<close>

definition compute_privilege_sensitive_reverse_kl :: "bool \<Rightarrow> distill_loss_fn" where
  "compute_privilege_sensitive_reverse_kl dump_stats env c mo d =
     ebind (student_teacher mo d) (\<lambda>(student, teacher).
     ebind (padded_tokens d (dd_tokens d) ''privileged_teacher_logprobs'') (\<lambda>privileged.
     ebind (case dict_get ''teacher_max_logprobs'' (dd_tokens d) of
              None \<Rightarrow> Inr None
            | Some xs \<Rightarrow> ebind (no_padding_2_padding xs (dd_batch d) (dd_max_len d)) (\<lambda>m. Inr (Some m)))
       (\<lambda>teacher_max.
     let valid = dd_response_mask d in
     raise_if (\<not> (shape teacher = shape privileged \<and> shape privileged = shape student \<and>
                  shape student = shape valid)) (AssertionError ''shape'')
     (let base_reverse_kl = clamp_signal (dc_loss_max_clamp c) (mmap2 fsub student teacher);
          sensitivity = mmap fabs (mmap2 fsub privileged teacher) in
      raise_if (dump_stats \<and> teacher_max = None)
        (RuntimeError ''Sensitivity diagnostics require teacher_max_logprobs'')
      (let sensitive_mask = mmap (\<lambda>v. fless (Fin (dc_sensitivity_threshold c)) v) sensitivity;
           weights = mmap (\<lambda>b. Fin (if b then dc_w_sens c else dc_w_stable c)) sensitive_mask;
           weighted_reverse_kl = mmap2 fmul base_reverse_kl weights
       in Inr (weighted_reverse_kl,
         [mean_entry ''reverse_kl_estimate'' (selected_mean valid base_reverse_kl),
          mean_entry ''student_sampled_token_prob'' (selected_mean valid (mmap fexp student)),
          mean_entry ''teacher_sampled_token_prob'' (selected_mean valid (mmap fexp teacher)),
          mean_entry ''ps_sensitive_token_ratio'' (selected_mean valid (mmap of_mask sensitive_mask)),
          mean_entry ''ps_sensitivity_mean'' (selected_mean valid sensitivity),
          mean_entry ''ps_gradient_signal_relative_change''
            (relative_change valid weighted_reverse_kl base_reverse_kl)]))))))"

section \<open>Sol-OPD comparison statistics\<close>

text \<open>The classification of one valid token by its two advantages.\<close>

definition sol_sign_flipped :: "real \<Rightarrow> flt \<Rightarrow> flt \<Rightarrow> bool" where
  "sol_sign_flipped eps a b =
     (fless (Fin eps) (fabs a) \<and> fless (Fin eps) (fabs b) \<and> fless (fmul a b) (Fin 0))"

definition sol_same_direction :: "real \<Rightarrow> flt \<Rightarrow> flt \<Rightarrow> bool" where
  "sol_same_direction eps a b =
     (fless (Fin eps) (fabs a) \<and> fless (Fin eps) (fabs b) \<and> \<not> sol_sign_flipped eps a b)"

definition sol_amplified :: "flt \<Rightarrow> flt \<Rightarrow> bool" where
  "sol_amplified a b = fless (fabs a) (fabs b)"

definition sol_reduced :: "flt \<Rightarrow> flt \<Rightarrow> bool" where
  "sol_reduced a b = fless (fabs b) (fabs a)"

definition sol_equal :: "flt \<Rightarrow> flt \<Rightarrow> bool" where
  "sol_equal a b = feq (fabs b) (fabs a)"

definition category_amplified :: "real \<Rightarrow> flt \<Rightarrow> flt \<Rightarrow> bool" where
  "category_amplified eps a b = (\<not> sol_sign_flipped eps a b \<and> fless (Fin eps) (fsub (fabs b) (fabs a)))"

definition category_reduced :: "real \<Rightarrow> flt \<Rightarrow> flt \<Rightarrow> bool" where
  "category_reduced eps a b = (\<not> sol_sign_flipped eps a b \<and> fless (fsub (fabs b) (fabs a)) (Fin (- eps)))"

definition category_unchanged :: "real \<Rightarrow> flt \<Rightarrow> flt \<Rightarrow> bool" where
  "category_unchanged eps a b =
     (\<not> (sol_sign_flipped eps a b \<or> category_amplified eps a b \<or> category_reduced eps a b))"

text \<open>The valid tokens of a class.\<close>

definition class_mask :: "(flt \<Rightarrow> flt \<Rightarrow> bool) \<Rightarrow> bool mat \<Rightarrow> flt mat \<Rightarrow> flt mat \<Rightarrow> bool mat" where
  "class_mask p valid a b = mat_and valid (mmap2 p a b)"

text \<open>Per rollout the share of tokens in a class, summed over the included rollouts.\<close>

definition rollout_rate_sum :: "bool mat \<Rightarrow> bool mat \<Rightarrow> flt" where
  "rollout_rate_sum selection base =
     (let counts = token_counts base;
          rates = map2 (\<lambda>s n. fdiv_real (count_flt s) (real (max n 1))) (token_counts selection) counts
      in fsum (vselect (map (\<lambda>n. n > 0) counts) rates))"

definition row_sums :: "flt mat \<Rightarrow> bool mat \<Rightarrow> flt list" where
  "row_sums m valid = map fsum (rows (mask_signal m valid))"

definition sol_comparison :: "real \<Rightarrow> flt mat \<Rightarrow> flt mat \<Rightarrow> bool mat \<Rightarrow> (string \<times> flt) list" where
  "sol_comparison eps opd sol valid =
     (let cls = (\<lambda>p. class_mask p valid opd sol);
          same = cls (sol_same_direction eps);
          amplified = cls sol_amplified; reduced = cls sol_reduced; equal = cls sol_equal;
          flipped = cls (sol_sign_flipped eps);
          same_amplified = mat_and same amplified; same_reduced = mat_and same reduced;
          cat_amplified = cls (category_amplified eps); cat_reduced = cls (category_reduced eps);
          cat_unchanged = cls (category_unchanged eps);
          valid_rollouts = map (\<lambda>n. n > 0) (token_counts valid);
          opd_rows = row_sums (mmap fabs opd) valid; sol_rows = row_sums (mmap fabs sol) valid;
          deviation_rows = row_sums (mmap fabs (mmap2 fsub sol opd)) valid;
          ratio_rollouts = map2 (\<lambda>v x. v \<and> fless (Fin eps) x) valid_rollouts opd_rows
      in [(''token_count'', count_true valid),
          (''rollout_count'', count_flt (vcount valid_rollouts)),
          (''ratio_rollout_count'', count_flt (vcount ratio_rollouts)),
          (''same_direction_token_count'', count_true same),
          (''same_direction_rollout_count'', count_flt (vcount (map (\<lambda>n. n > 0) (token_counts same)))),
          (''opd_advantage_sum'', selected_sum valid opd),
          (''sol_advantage_sum'', selected_sum valid sol),
          (''opd_abs_sum'', selected_sum valid (mmap fabs opd)),
          (''sol_abs_sum'', selected_sum valid (mmap fabs sol)),
          (''deviation_abs_sum'', selected_sum valid (mmap fabs (mmap2 fsub sol opd))),
          (''amplified_count'', count_true amplified),
          (''reduced_count'', count_true reduced),
          (''equal_count'', count_true equal),
          (''same_direction_amplified_count'', count_true same_amplified),
          (''same_direction_reduced_count'', count_true same_reduced),
          (''sign_flipped_count'', count_true flipped),
          (''category_amplified_count'', count_true cat_amplified),
          (''category_reduced_count'', count_true cat_reduced),
          (''category_sign_flipped_count'', count_true flipped),
          (''category_unchanged_count'', count_true cat_unchanged),
          (''rollout_magnitude_ratio_sum'',
             fsum (map2 fdiv (vselect ratio_rollouts sol_rows) (vselect ratio_rollouts opd_rows))),
          (''rollout_deviation_ratio_sum'',
             fsum (map2 fdiv (vselect ratio_rollouts deviation_rows) (vselect ratio_rollouts opd_rows))),
          (''rollout_amplification_rate_sum'', rollout_rate_sum amplified valid),
          (''rollout_reduction_rate_sum'', rollout_rate_sum reduced valid),
          (''rollout_equal_rate_sum'', rollout_rate_sum equal valid),
          (''rollout_same_direction_amplification_rate_sum'', rollout_rate_sum same_amplified same),
          (''rollout_same_direction_reduction_rate_sum'', rollout_rate_sum same_reduced same),
          (''rollout_sign_flip_rate_sum'', rollout_rate_sum flipped valid),
          (''rollout_category_amplified_rate_sum'', rollout_rate_sum cat_amplified valid),
          (''rollout_category_reduced_rate_sum'', rollout_rate_sum cat_reduced valid),
          (''rollout_category_sign_flipped_rate_sum'', rollout_rate_sum flipped valid),
          (''rollout_category_unchanged_rate_sum'', rollout_rate_sum cat_unchanged valid)])"

definition compute_sol_opd_comparison_statistics :: "flt mat \<Rightarrow> flt mat \<Rightarrow> bool mat \<Rightarrow> flt \<Rightarrow> (string \<times> flt) list res" where
  "compute_sol_opd_comparison_statistics opd sol valid epsilon =
     raise_if (\<not> (shape opd = shape sol \<and> shape sol = shape valid))
       (ValueError ''Sol-OPD comparison tensors must have identical shapes'')
     (raise_if (\<not> is_finite epsilon \<or> fle epsilon (Fin 0)) (ValueError ''Sol-OPD epsilon must be finite and positive'')
     (raise_if ((\<exists>v \<in> set (mselect valid opd). \<not> is_finite v) \<or> (\<exists>v \<in> set (mselect valid sol). \<not> is_finite v))
       (ValueError ''Sol-OPD advantages must be finite on valid response tokens'')
     (Inr (sol_comparison (fval epsilon) opd sol valid))))"

definition compute_solution_privileged_reverse_kl :: distill_loss_fn where
  "compute_solution_privileged_reverse_kl env c mo d =
     raise_if (dict_get ''sol_unprivileged_teacher_logprobs'' (dd_tokens d) = None)
       (RuntimeError ''actor input is missing sol_unprivileged_teacher_logprobs'')
     (ebind (student_teacher mo d) (\<lambda>(student, solution_teacher).
      ebind (padded_tokens d (dd_tokens d) ''sol_unprivileged_teacher_logprobs'') (\<lambda>unprivileged.
      let valid = dd_response_mask d in
      raise_if (\<not> (shape student = shape solution_teacher \<and> shape solution_teacher = shape unprivileged \<and>
                   shape unprivileged = shape valid)) (ValueError ''Sol-OPD tensors must have identical shapes'')
      (let solution_reverse_kl = mmap2 fsub student solution_teacher in
       ebind (select_opd_reverse_kl_tokens env solution_reverse_kl valid (dc_selection_ratio c)
                (dc_selection_method c)) (\<lambda>selected_mask.
       ebind (compute_sol_opd_comparison_statistics (mmap2 fsub unprivileged student)
                (mmap2 fsub solution_teacher student) valid (dc_sol_opd_epsilon c)) (\<lambda>stats.
       let gap = mmap fabs solution_reverse_kl;
           base_signal = clamp_signal (dc_loss_max_clamp c) solution_reverse_kl
       in Inr (mask_signal solution_reverse_kl selected_mask,
         map (\<lambda>(name, v). (''distillation/sol_stats/'' @ name, AggSum, v)) stats @
         [mean_entry ''reverse_kl_estimate'' (selected_mean valid solution_reverse_kl),
          mean_entry ''student_sampled_token_prob'' (selected_mean valid (mmap fexp student)),
          mean_entry ''teacher_sampled_token_prob'' (selected_mean valid (mmap fexp solution_teacher)),
          mean_entry ''sol_unprivileged_teacher_sampled_token_prob'' (selected_mean valid (mmap fexp unprivileged)),
          mean_entry ''selected_token_ratio'' (selected_mean valid (mmap of_mask selected_mask)),
          mean_entry ''selection_gap_mean'' (selected_mean valid gap),
          mean_entry ''selected_gap_mean'' (mean_or_zero (mselect selected_mask gap)),
          mean_entry ''selection_gradient_signal_relative_change''
            (relative_change valid (mask_signal base_signal selected_mask) base_signal)])))))))"

section \<open>The classes of the comparison\<close>

text \<open>The positions a mask selects; counting them is counting the mask.\<close>

definition selected_positions :: "bool mat \<Rightarrow> (nat \<times> nat) set" where
  "selected_positions m = {(i, j). i < height m \<and> j < width m \<and> mget m i j}"

lemma finite_selected_positions [simp]: "finite (selected_positions m)"
  by (rule finite_subset [of _ "{..< height m} \<times> {..< width m}"]) (auto simp: selected_positions_def)

lemma mcount_card: "wf_mat m \<Longrightarrow> mcount m = card (selected_positions m)"
proof -
  assume wf: "wf_mat m"
  have "selected_positions m = Sigma {..< height m} (\<lambda>i. {j. j < length (rows m ! i) \<and> rows m ! i ! j})"
    using wf by (auto simp: selected_positions_def mget_def height_def wf_mat_def)
  then have "card (selected_positions m) = (\<Sum>i < height m. vcount (rows m ! i))"
    by (simp add: vcount_card)
  also have "\<dots> = mcount m"
    by (simp add: mcount_def sum_list_sum_nth height_def atLeast0LessThan)
  finally show ?thesis ..
qed

definition class_positions :: "(flt \<Rightarrow> flt \<Rightarrow> bool) \<Rightarrow> bool mat \<Rightarrow> flt mat \<Rightarrow> flt mat \<Rightarrow> (nat \<times> nat) set" where
  "class_positions p valid a b = {(i, j) \<in> selected_positions valid. p (mget a i j) (mget b i j)}"

lemma count_class:
  assumes "wf_mat valid" "wf_mat a" "wf_mat b" "shape a = shape b" "shape b = shape valid"
  shows "mcount (class_mask p valid a b) = card (class_positions p valid a b)"
proof -
  have "wf_mat (class_mask p valid a b)"
    using assms by (simp add: class_mask_def mat_and_def mat_simps shape_def)
  moreover have "selected_positions (class_mask p valid a b) = class_positions p valid a b"
    using assms by (auto simp: class_positions_def selected_positions_def class_mask_def mat_and_def mat_simps shape_def)
  ultimately show ?thesis by (simp add: mcount_card)
qed

lemma card_classes:
  assumes "\<forall>(i, j) \<in> selected_positions valid. \<exists>!k. k \<in> set ks \<and> p k (mget a i j) (mget b i j)" "distinct ks"
  shows "(\<Sum>k \<leftarrow> ks. card (class_positions (p k) valid a b)) = card (selected_positions valid)"
proof -
  have "(\<Sum>k \<leftarrow> ks. card (class_positions (p k) valid a b)) = (\<Sum>k \<in> set ks. card (class_positions (p k) valid a b))"
    using assms(2) by (rule sum_list_distinct_conv_sum_set)
  also have "\<dots> = card (\<Union>k \<in> set ks. class_positions (p k) valid a b)"
  proof (rule card_UN_disjoint [symmetric])
    show "\<forall>k \<in> set ks. finite (class_positions (p k) valid a b)"
      by (intro ballI finite_subset [OF _ finite_selected_positions [of valid]]) (auto simp: class_positions_def)
    show "\<forall>k \<in> set ks. \<forall>l \<in> set ks. k \<noteq> l \<longrightarrow> class_positions (p k) valid a b \<inter> class_positions (p l) valid a b = {}"
      using assms(1) by (fastforce simp: class_positions_def)
  qed simp
  also have "(\<Union>k \<in> set ks. class_positions (p k) valid a b) = selected_positions valid"
    using assms(1) by (fastforce simp: class_positions_def)
  finally show ?thesis .
qed

text \<open>The class predicates as one family.\<close>

definition categories :: "real \<Rightarrow> (flt \<Rightarrow> flt \<Rightarrow> bool) list" where
  "categories eps = [sol_sign_flipped eps, category_amplified eps, category_reduced eps, category_unchanged eps]"

definition magnitudes :: "(flt \<Rightarrow> flt \<Rightarrow> bool) list" where
  "magnitudes = [sol_amplified, sol_reduced, sol_equal]"

lemma category_classes:
  assumes "0 < eps"
  shows "\<exists>!k. k \<in> set [0..<4] \<and> (categories eps ! k) a b"
proof -
  have "\<not> (category_amplified eps a b \<and> category_reduced eps a b)"
    using assms by (cases "fsub (fabs b) (fabs a)") (auto simp: category_amplified_def category_reduced_def)
  then have "\<exists>!k. k \<in> {0, 1, 2, 3} \<and> (categories eps ! k) a b"
    by (auto simp: categories_def category_unchanged_def category_amplified_def category_reduced_def nth_Cons')
  moreover have "set [0..<4] = {0, 1, 2, 3 :: nat}" by auto
  ultimately show ?thesis by simp
qed

lemma magnitude_classes:
  assumes "is_finite a" "is_finite b"
  shows "\<exists>!k. k \<in> set [0..<3] \<and> (magnitudes ! k) a b"
proof -
  obtain x y where xy: "a = Fin x" "b = Fin y" using assms by (auto simp: is_finite_iff)
  consider "\<bar>x\<bar> < \<bar>y\<bar>" | "\<bar>y\<bar> < \<bar>x\<bar>" | "\<bar>x\<bar> = \<bar>y\<bar>" by linarith
  then have "\<exists>!k. k \<in> {0, 1, 2} \<and> (magnitudes ! k) a b"
    by cases (auto simp: magnitudes_def sol_amplified_def sol_reduced_def sol_equal_def xy nth_Cons')
  moreover have "set [0..<3] = {0, 1, 2 :: nat}" by auto
  ultimately show ?thesis by simp
qed

text \<open>
  The Sol-OPD comparison classifies every response token exactly once, twice over: the
  counts of the four effect categories (sign flipped, amplified, reduced, unchanged) add up to
  the token count, and so do the counts of the three magnitude classes.
\<close>

theorem sol_classes_partition_tokens:
  assumes "compute_sol_opd_comparison_statistics opd sol valid epsilon = Inr stats"
    and "wf_mat opd" "wf_mat sol" "wf_mat valid"
  shows "\<exists>f a r u am re eq. dict_get ''token_count'' stats = Some (count_flt (mcount valid)) \<and>
    dict_get ''category_sign_flipped_count'' stats = Some (count_flt f) \<and>
    dict_get ''category_amplified_count'' stats = Some (count_flt a) \<and>
    dict_get ''category_reduced_count'' stats = Some (count_flt r) \<and>
    dict_get ''category_unchanged_count'' stats = Some (count_flt u) \<and> f + a + r + u = mcount valid \<and>
    dict_get ''amplified_count'' stats = Some (count_flt am) \<and>
    dict_get ''reduced_count'' stats = Some (count_flt re) \<and>
    dict_get ''equal_count'' stats = Some (count_flt eq) \<and> am + re + eq = mcount valid"
proof -
  have sh: "shape opd = shape sol" "shape sol = shape valid" and eps: "0 < fval epsilon"
    and fin: "\<forall>v \<in> set (mselect valid opd). is_finite v" "\<forall>v \<in> set (mselect valid sol). is_finite v"
    and stats: "stats = sol_comparison (fval epsilon) opd sol valid"
    using assms(1) by (auto simp: compute_sol_opd_comparison_statistics_def raise_if_Inr is_finite_iff)
  let ?e = "fval epsilon" and ?n = "\<lambda>p. mcount (class_mask p valid opd sol)"
  note count = count_class [OF assms(4,2,3) sh] and whole = mcount_card [OF assms(4)]
  have "\<forall>(i, j) \<in> selected_positions valid. is_finite (mget opd i j) \<and> is_finite (mget sol i j)"
    using fin list_all_mselect [OF assms(4,2), of is_finite] list_all_mselect [OF assms(4,3), of is_finite] sh
    by (auto simp: selected_positions_def shape_def)
  then have "\<forall>(i, j) \<in> selected_positions valid. \<exists>!k. k \<in> set [0..<3] \<and> (magnitudes ! k) (mget opd i j) (mget sol i j)"
    by (intro ballI) (clarify, rule magnitude_classes; fastforce)
  from card_classes [of _ _ "(!) magnitudes", OF this]
  have "(\<Sum>k \<leftarrow> [0..<3]. card (class_positions (magnitudes ! k) valid opd sol)) = mcount valid"
    by (simp add: whole)
  then have m: "?n sol_amplified + ?n sol_reduced + ?n sol_equal = mcount valid"
    unfolding count by (simp add: magnitudes_def upt_rec numeral_3_eq_3)
  have "(\<Sum>k \<leftarrow> [0..<4]. card (class_positions (categories ?e ! k) valid opd sol)) = mcount valid"
    unfolding whole using category_classes [OF eps] by (intro card_classes) auto
  then have c: "?n (sol_sign_flipped ?e) + ?n (category_amplified ?e) + ?n (category_reduced ?e)
      + ?n (category_unchanged ?e) = mcount valid"
    unfolding count by (simp add: categories_def upt_rec numeral_3_eq_3)
  show ?thesis
    by (rule exI [of _ "?n (sol_sign_flipped ?e)"], rule exI [of _ "?n (category_amplified ?e)"],
        rule exI [of _ "?n (category_reduced ?e)"], rule exI [of _ "?n (category_unchanged ?e)"],
        rule exI [of _ "?n sol_amplified"], rule exI [of _ "?n sol_reduced"], rule exI [of _ "?n sol_equal"])
       (use m c in \<open>simp add: stats sol_comparison_def dict_get_def Let_def count_true_def\<close>)
qed

lemma sol_classes_partition_tokens_witness:
  "\<exists>stats f a r u. compute_sol_opd_comparison_statistics \<lparr>width = 2, rows = [[Fin (- 3), Fin 1]]\<rparr>
      \<lparr>width = 2, rows = [[Fin (- 1), Fin 2]]\<rparr> \<lparr>width = 2, rows = [[True, True]]\<rparr> (Fin (1 / 100)) = Inr stats \<and>
    dict_get ''category_sign_flipped_count'' stats = Some (count_flt f) \<and>
    dict_get ''category_amplified_count'' stats = Some (count_flt a) \<and>
    dict_get ''category_reduced_count'' stats = Some (count_flt r) \<and>
    dict_get ''category_unchanged_count'' stats = Some (count_flt u) \<and> f + a + r + u = 2"
proof -
  let ?o = "\<lparr>width = 2, rows = [[Fin (- 3), Fin 1]]\<rparr>" and ?s = "\<lparr>width = 2, rows = [[Fin (- 1), Fin 2]]\<rparr>"
    and ?v = "\<lparr>width = 2, rows = [[True, True]]\<rparr>"
  obtain stats where stats: "compute_sol_opd_comparison_statistics ?o ?s ?v (Fin (1 / 100)) = Inr stats"
    by (simp add: compute_sol_opd_comparison_statistics_def raise_if_def shape_def height_def mselect_def)
  have "mcount ?v = 2" by (simp add: mcount_def)
  then show ?thesis using stats sol_classes_partition_tokens [OF stats] by (force simp: wf_mat_def)
qed

end
