(* ===== verification/Answer_Text.thy ===== *)
theory Answer_Text
  imports Regex
begin

text \<open>
  The text side of the answer verifier (\<open>utils/answer_verifier.py\<close>): repairing, balanced
  braces, the boxed answer of a response, presentation markup, option labels and the format
  report. The loops of the file that have no bound of their own carry their termination proofs.
\<close>

section \<open>Replacing\<close>

text \<open>\<open>text.replace(old, new)\<close> for a non-empty \<open>old\<close>.\<close>

function replace_all :: "ustr \<Rightarrow> ustr \<Rightarrow> ustr \<Rightarrow> ustr" where
  "replace_all old new t =
     (if t = [] \<or> old = [] then t
      else if starts_with t old then new @ replace_all old new (drop (length old) t)
      else hd t # replace_all old new (tl t))"
  by pat_completeness auto
termination by (relation "measure (\<lambda>(_, _, t). length t)") auto

declare replace_all.simps [simp del]

fun replace_each :: "(ustr \<times> ustr) list \<Rightarrow> ustr \<Rightarrow> ustr" where
  "replace_each [] t = t"
| "replace_each ((old, new) # rs) t = replace_each rs (replace_all old new t)"

definition latex :: "string \<Rightarrow> ustr" where
  "latex name = 92 # lit name"

definition repair :: "ustr \<Rightarrow> ustr" where
  "repair t = replace_each
     [([13, 10], [10]), ([13], [10]), ([8203], []), ([65279], []), ([65128], [92]), ([65340], [92]),
      ([8722], [45]), ([8211], [45]), ([65291], [43])] t"

section \<open>Balanced braces\<close>

fun backslash_run :: "ustr \<Rightarrow> nat \<Rightarrow> nat" where
  "backslash_run t 0 = 0"
| "backslash_run t (Suc p) = (if t ! p = 92 then Suc (backslash_run t p) else 0)"

definition is_escaped :: "ustr \<Rightarrow> nat \<Rightarrow> bool" where
  "is_escaped t position = odd (backslash_run t position)"

fun closing_brace :: "ustr \<Rightarrow> nat \<Rightarrow> nat list \<Rightarrow> nat option" where
  "closing_brace t depth [] = None"
| "closing_brace t depth (position # ps) =
     (if is_escaped t position then closing_brace t depth ps
      else if t ! position = 123 then closing_brace t (depth + 1) ps
      else if t ! position = 125 then
        (if depth - 1 = 0 then Some position else closing_brace t (depth - 1) ps)
      else closing_brace t depth ps)"

definition matching_brace :: "ustr \<Rightarrow> nat \<Rightarrow> nat option" where
  "matching_brace t opening =
     (if opening \<ge> length t \<or> t ! opening \<noteq> 123 then None
      else closing_brace t 1 [opening + 1..<length t])"

section \<open>Boxed answers\<close>

definition boxed_re :: re where
  "boxed_re = cat [one 92, word ''boxed'', many (Cls is_space), one 123]"

definition extract_final_answer :: "ustr \<Rightarrow> ustr \<times> bool" where
  "extract_final_answer response0 =
     (let response = repair response0; matches = re_finditer boxed_re response 0 in
      if matches = [] then ([], False) else
      let brace_start = fst (snd (last matches)) - 1 in
      (case matching_brace response brace_start of
         None \<Rightarrow> ([], False)
       | Some brace_end \<Rightarrow>
           let answer = strip (slice (brace_start + 1) brace_end response) in (answer, answer \<noteq> [])))"

definition extract_boxed_answers :: "ustr \<Rightarrow> ustr list" where
  "extract_boxed_answers response0 =
     (let response = repair response0 in
      concat (map (\<lambda>(i, j, gs). case matching_brace response (j - 1) of
                None \<Rightarrow> [] | Some brace_end \<Rightarrow> [strip (slice j brace_end response)])
        (re_finditer boxed_re response 0)))"

lemma closing_brace_in: "closing_brace t d ps = Some p \<Longrightarrow> p \<in> set ps \<and> t ! p = 125"
  by (induction t d ps rule: closing_brace.induct) (auto split: if_splits)

lemma matching_brace_bounds: "matching_brace t i = Some p \<Longrightarrow> i < p \<and> p < length t \<and> t ! i = 123 \<and> t ! p = 125"
  using closing_brace_in by (fastforce simp: matching_brace_def split: if_splits)

section \<open>Presentation markup\<close>

definition wrappers :: "(ustr \<times> ustr) list" where
  "wrappers = [(lit ''$$'', lit ''$$''), ([92, 91], [92, 93]), ([92, 40], [92, 41]), (lit ''$'', lit ''$''),
     (lit ''**'', lit ''**''), (lit ''__'', lit ''__''), (lit ''`'', lit ''`'')]"

definition unwrap :: "ustr \<Rightarrow> ustr \<times> bool" where
  "unwrap v =
     (case find (\<lambda>(left, right). starts_with v left \<and> ends_with v right) wrappers of
        None \<Rightarrow> (v, False)
      | Some (left, right) \<Rightarrow> (strip (slice (length left) (length v - length right) v), True))"

definition unbrace :: "ustr \<Rightarrow> ustr \<times> bool" where
  "unbrace v =
     (if starts_with v [123] \<and> matching_brace v 0 = Some (length v - 1)
      then (strip (slice 1 (length v - 1) v), True) else (v, False))"

lemma length_strip: "length (strip t) \<le> length t"
  using length_lstrip_by [of is_space "rstrip t"] length_rstrip_by [of is_space t]
  by (simp add: strip_def lstrip_def rstrip_def)

lemma unwrap_shorter: "unwrap v = (w, c) \<Longrightarrow> length w \<le> length v \<and> (c \<longrightarrow> v \<noteq> [] \<longrightarrow> length w < length v)"
proof -
  assume u: "unwrap v = (w, c)"
  show ?thesis
  proof (cases "find (\<lambda>(left, right). starts_with v left \<and> ends_with v right) wrappers")
    case (Some lr)
    then have "lr \<in> set wrappers" by (metis find_Some_iff nth_mem)
    then have "0 < length (fst lr)" by (auto simp: wrappers_def)
    moreover have "w = strip (slice (length (fst lr)) (length v - length (snd lr)) v)" using u Some
      by (simp add: unwrap_def split: prod.splits)
    ultimately have "length w \<le> length v - length (fst lr)" "0 < length (fst lr)"
      using length_strip [of "slice (length (fst lr)) (length v - length (snd lr)) v"] by auto
    moreover have "v \<noteq> [] \<Longrightarrow> length v - length (fst lr) < length v"
      using \<open>0 < length (fst lr)\<close> by (intro diff_less) simp_all
    ultimately show ?thesis by linarith
  qed (use u in \<open>simp add: unwrap_def\<close>)
qed

lemma unbrace_shorter: "unbrace v = (w, c) \<Longrightarrow> length w \<le> length v \<and> (c \<longrightarrow> v \<noteq> [] \<and> length w < length v)"
proof -
  assume u: "unbrace v = (w, c)"
  have "length (strip (slice 1 (length v - 1) v)) \<le> length v - 1 - 1"
    using length_strip [of "slice 1 (length v - 1) v"] by (simp del: One_nat_def)
  then show ?thesis using u by (cases v) (auto simp: unbrace_def split: if_splits)
qed

function strip_markup_loop :: "ustr \<Rightarrow> ustr" where
  "strip_markup_loop v =
     (if v = [] then v
      else let (v1, unwrapped) = unwrap v; (v2, unbraced) = unbrace v1 in
           if unwrapped \<or> unbraced then strip_markup_loop v2 else v2)"
  by pat_completeness auto
termination
proof (relation "measure length")
  fix v v1 v2 :: ustr and x y u b
  assume "v \<noteq> []" "x = unwrap v" "(v1, u) = x" "y = unbrace v1" "(v2, b) = y" "u \<or> b"
  then show "(v2, v) \<in> measure length"
    using unwrap_shorter [of v v1 u] unbrace_shorter [of v1 v2 b] by (cases u) auto
qed simp

declare strip_markup_loop.simps [simp del]

definition strip_surrounding_markup :: "ustr \<Rightarrow> ustr" where
  "strip_surrounding_markup t = strip_markup_loop (strip (repair t))"

definition style_command_re :: re where
  "style_command_re = cat [one 92,
     alts (map word [''text'', ''textrm'', ''textnormal'', ''mathrm'', ''mathbf'', ''mathit'', ''mathsf'', ''mathtt'',
       ''textbf'', ''operatorname'', ''mbox'']), many (Cls is_space), one 123]"

function replace_style_commands :: "ustr \<Rightarrow> ustr" where
  "replace_style_commands v =
     (case re_search style_command_re v 0 of
        None \<Rightarrow> v
      | Some (i, j, gs) \<Rightarrow>
          (case matching_brace v (j - 1) of
             None \<Rightarrow> v
           | Some closing \<Rightarrow> replace_style_commands (slice 0 i v @ slice j closing v @ drop (closing + 1) v)))"
  by pat_completeness auto
termination
proof (relation "measure length")
  fix v :: ustr and m i q j gs c
  assume "re_search style_command_re v 0 = Some m" "(i, q) = m" "(j, gs) = q" "matching_brace v (j - 1) = Some c"
  then show "(slice 0 i v @ slice j c v @ drop (c + 1) v, v) \<in> measure length"
    using re_search_bounds [of style_command_re v 0 i j gs] matching_brace_bounds [of v "j - 1" c] by auto
qed simp

declare replace_style_commands.simps [simp del]

section \<open>Option labels\<close>

text \<open>The letters A to J without regard to case; the engine adds the dotted and dotless i.\<close>

definition choice_letter :: "nat \<Rightarrow> bool" where
  "choice_letter c = (\<exists>l \<in> {97..<107}. same_letter l c)"

definition upper_letter :: "nat \<Rightarrow> nat" where
  "upper_letter c = (if is_ascii_lower c then c - 32 else if c = 305 then 73 else c)"

definition lower_letter :: "nat \<Rightarrow> bool" where
  "lower_letter c \<longleftrightarrow> is_ascii_lower c \<or> c = 305"

definition decoration :: "nat \<Rightarrow> bool" where
  "decoration c \<longleftrightarrow> is_space c \<or> any_of ''#>*'' c \<or> c = 9989 \<or> c = 9745 \<or> c = 127919"

definition answer_lead_re :: re where
  "answer_lead_re = cat [Text_Start,
     opt (cat [opt (cat [iword ''the'', some (Cls is_space)]), alts [iword ''final'', iword ''correct''], some (Cls is_space)]),
     alts [iword ''answer'', iword ''choice'', iword ''option''], many (Cls is_space),
     opt (alts [cat [iword ''is'', many (Cls is_space)], cat [Cls (any_of '':=-''), many (Cls is_space)]])]"

definition choice_re :: re where
  "choice_re = cat [Text_Start, opt (Cls (\<lambda>c. c = 91 \<or> c = 40)), many (Cls is_space), Grp ''label'' (Cls choice_letter),
     many (Cls is_space), opt (Cls (\<lambda>c. c = 93 \<or> c = 41)), many (Cls is_space),
     Ahead (alts [Text_End, Cls (\<lambda>c. any_of ''.:-'' c \<or> c = 65306), Cls is_space])]"

text \<open>\<open>re.sub\<close> of runs of whitespace by one blank.\<close>

fun collapse_spaces :: "bool \<Rightarrow> ustr \<Rightarrow> ustr" where
  "collapse_spaces inside [] = []"
| "collapse_spaces inside (c # cs) =
     (if is_space c then (if inside then collapse_spaces True cs else 32 # collapse_spaces True cs)
      else c # collapse_spaces False cs)"

definition extract_choice_label :: "ustr \<Rightarrow> ustr" where
  "extract_choice_label answer =
     (let v = strip_surrounding_markup answer;
          v = strip_surrounding_markup (replace_style_commands v);
          v = replace_each [(lit ''**'', []), (lit ''__'', []), (lit ''`'', [])] v;
          v = strip (dropWhile decoration v);
          v = collapse_spaces False v;
          v = strip (case re_match answer_lead_re v of None \<Rightarrow> v | Some (i, j, gs) \<Rightarrow> drop j v)
      in case re_match choice_re v of
           None \<Rightarrow> []
         | Some m \<Rightarrow> (case group v ''label'' m of
             Some [c] \<Rightarrow> if lower_letter c \<and> strip (drop (fst (snd m)) v) \<noteq> [] then [] else [upper_letter c]
           | _ \<Rightarrow> []))"

definition choice_line_re :: re where
  "choice_line_re = cat [Line_Start, many (Cls is_space), Grp ''label'' (Cls (\<lambda>c. 65 \<le> c \<and> c \<le> 74)), many (Cls is_space),
     Cls (\<lambda>c. any_of ''.):'' c \<or> c = 65306), some (Cls is_space), Cls (\<lambda>c. \<not> is_space c)]"

definition choice_labels :: "ustr \<Rightarrow> ustr list" where
  "choice_labels question =
     (let t = repair question;
          labels = ordered_unique (map (\<lambda>m. case group t ''label'' m of Some g \<Rightarrow> g | None \<Rightarrow> [])
                     (re_finditer choice_line_re t 0))
      in if length labels \<ge> 2 then labels else [])"

record answer_format =
  af_valid :: bool
  af_multiple_choice :: bool
  af_choice_labels :: "ustr list"
  af_box_count :: nat
  af_boxed_answer :: ustr
  af_normalized_choice_label :: ustr
  af_choice_label_valid :: bool

definition inspect_answer_format :: "ustr \<Rightarrow> ustr \<Rightarrow> answer_format" where
  "inspect_answer_format question response =
     (let labels = choice_labels question;
          (final_answer, valid) = extract_final_answer response;
          label = extract_choice_label final_answer;
          multiple_choice = (labels \<noteq> [])
      in \<lparr>af_valid = valid, af_multiple_choice = multiple_choice, af_choice_labels = labels,
          af_box_count = length (extract_boxed_answers response), af_boxed_answer = final_answer,
          af_normalized_choice_label = label, af_choice_label_valid = (\<not> multiple_choice \<or> label \<in> set labels)\<rparr>)"

end
