(* ===== verification/Answer_Verifier.thy ===== *)
theory Answer_Verifier
  imports Answer_Text Complex_Main
begin

text \<open>
  The value side of the answer verifier (\<open>utils/answer_verifier.py\<close>): normal forms,
  decimals, constant expressions, equivalence and the rewards. \<open>ast.parse\<close>,
  \<open>str.casefold\<close>, \<open>float\<close> on a string and the optional third-party
  \<open>math_verify\<close> are fields of the environment. Binary64 numbers are real numbers: rounding
  is not modelled, nor is the overflow of an intermediate float; a result too large for a double is
  rejected as the code does.
\<close>

section \<open>Environment\<close>

datatype ast_operator = Add | Sub | Mult | Div | Pow | Other_Operator

datatype ast =
    Expression ast
  | Constant_Int int
  | Constant_Float "rat option" \<comment> \<open>the value its text denotes, none for infinity\<close>
  | UnaryOp bool ast \<comment> \<open>true for minus; other unary operators are \<open>Unsupported\<close>\<close>
  | BinOp ast ast_operator ast
  | Name ustr
  | Call ast "ast list" nat \<comment> \<open>function, positional arguments, number of nodes of the keyword arguments\<close>
  | Unsupported nat \<comment> \<open>any other node, with its number of nodes\<close>

record verifier_env =
  ve_unicode :: unicode_data
  ve_casefold :: "ustr \<Rightarrow> ustr"
  ve_parse_ast :: "ustr \<Rightarrow> ast option" \<comment> \<open>\<open>ast.parse(text, mode="eval")\<close>, none for a syntax error\<close>
  ve_parse_float :: "ustr \<Rightarrow> real option" \<comment> \<open>\<open>float(text)\<close>, none for a ValueError or a non-finite value\<close>
  ve_math_verify :: "(ustr \<Rightarrow> ustr \<Rightarrow> bool) option" \<comment> \<open>prediction and target as math; an exception is false\<close>

section \<open>Normal forms\<close>

definition fractions :: "(ustr \<times> ustr) list" where
  "fractions = [(latex ''dfrac'', latex ''frac''), (latex ''tfrac'', latex ''frac'')]"

definition spacings :: "(ustr \<times> ustr) list" where
  "spacings = map (\<lambda>s. (s, [])) [latex '','', latex ''!'', latex '';'', latex '':'', latex ''quad'', latex ''qquad'']"

definition trailing_punctuation_re :: re where
  "trailing_punctuation_re = cat [some (Cls (\<lambda>c. any_of ''.,;!?'' c \<or> c = 65292 \<or> c = 12290)), Text_End]"

definition normalize_answer :: "verifier_env \<Rightarrow> ustr \<Rightarrow> ustr" where
  "normalize_answer ve t =
     (let v = strip_surrounding_markup t;
          v = replace_each [(latex ''left'', []), (latex ''right'', [])] v;
          v = replace_each fractions v;
          v = replace_all (latex ''displaystyle'') [] v;
          v = replace_style_commands v;
          v = strip_surrounding_markup v;
          v = replace_each spacings v;
          v = re_remove trailing_punctuation_re (strip v)
      in ve_casefold ve (filter (\<lambda>c. \<not> is_space c) v))"

definition math_payload :: "ustr \<Rightarrow> ustr" where
  "math_payload t = replace_each fractions (strip_surrounding_markup t)"

section \<open>Decimals\<close>

definition sign_class :: "nat \<Rightarrow> bool" where
  "sign_class c \<longleftrightarrow> c = 43 \<or> c = 45"

definition decimal_re :: "unicode_data \<Rightarrow> re" where
  "decimal_re ud =
     (let digit = Cls (is_decimal ud) in
      cat [opt (Cls sign_class),
        alts [cat [Grp ''int'' (some digit), opt (cat [one 46, Grp ''frac'' (many digit)])],
              cat [one 46, Grp ''frac'' (some digit)]],
        opt (cat [Cls (\<lambda>c. c = 101 \<or> c = 69), Grp ''exp'' (cat [opt (Cls sign_class), some digit])])])"

definition digits_value :: "unicode_data \<Rightarrow> ustr \<Rightarrow> int" where
  "digits_value ud t = foldl (\<lambda>n c. 10 * n + (case decimal_value ud c of Some d \<Rightarrow> int d | None \<Rightarrow> 0)) 0 t"

definition signed_value :: "unicode_data \<Rightarrow> ustr \<Rightarrow> int" where
  "signed_value ud t =
     (case t of [] \<Rightarrow> 0
      | c # cs \<Rightarrow> if c = 45 then - digits_value ud cs else if c = 43 then digits_value ud cs else digits_value ud t)"

text \<open>
  \<open>Decimal(text)\<close> on a text of that form, exactly. (Exponents beyond the limits of the
  decimal module, about \<open>10 ^ 18\<close>, are not rejected here.)
\<close>

definition decimal_number :: "verifier_env \<Rightarrow> ustr \<Rightarrow> rat option" where
  "decimal_number ve t =
     (let ud = ve_unicode ve in
      case filter (\<lambda>(j, gs). j = length t) (run (decimal_re ud) t (0, [])) of
        [] \<Rightarrow> None
      | (j, gs) # _ \<Rightarrow>
          let part = (\<lambda>name. case group t name (0, j, gs) of Some g \<Rightarrow> g | None \<Rightarrow> []);
              mantissa = digits_value ud (part ''int'' @ part ''frac'');
              exponent = signed_value ud (part ''exp'') - int (length (part ''frac''))
          in Some ((if t \<noteq> [] \<and> hd t = 45 then - 1 else 1) * of_int mantissa *
               (if exponent \<ge> 0 then 10 ^ nat exponent else 1 / 10 ^ nat (- exponent))))"

section \<open>Constant expressions\<close>

fun skip_spaces :: "ustr \<Rightarrow> nat \<Rightarrow> nat list \<Rightarrow> nat" where
  "skip_spaces t cursor [] = cursor"
| "skip_spaces t cursor (p # ps) = (if is_space (t ! p) then skip_spaces t (p + 1) ps else cursor)"

definition after_spaces :: "ustr \<Rightarrow> nat \<Rightarrow> nat" where
  "after_spaces t cursor = skip_spaces t cursor [cursor..<length t]"

definition construct_re :: "unicode_data \<Rightarrow> re" where
  "construct_re ud = cat [one 92, alts [word ''frac'', word ''sqrt''], Word_Boundary (is_word ud)]"

definition brace_at :: "ustr \<Rightarrow> nat \<Rightarrow> nat option" where
  "brace_at t cursor = (if cursor \<ge> length t \<or> t ! cursor \<noteq> 123 then None else matching_brace t cursor)"

definition rewrite_fraction :: "ustr \<Rightarrow> nat \<Rightarrow> nat \<Rightarrow> ustr option" where
  "rewrite_fraction t start cursor0 =
     (let cursor = after_spaces t cursor0 in
      case brace_at t cursor of None \<Rightarrow> None
      | Some numerator_end \<Rightarrow>
          let denominator_start = after_spaces t (numerator_end + 1) in
          (case brace_at t denominator_start of None \<Rightarrow> None
           | Some denominator_end \<Rightarrow>
               Some (take start t @ lit ''(('' @ slice (cursor + 1) numerator_end t @ lit '')/('' @
                 slice (denominator_start + 1) denominator_end t @ lit ''))'' @ drop (denominator_end + 1) t)))"

definition rewrite_root :: "ustr \<Rightarrow> nat \<Rightarrow> nat \<Rightarrow> ustr option" where
  "rewrite_root t start cursor0 =
     (let cursor = after_spaces t cursor0 in
      case brace_at t cursor of None \<Rightarrow> None
      | Some radicand_end \<Rightarrow>
          Some (take start t @ lit ''sqrt('' @ slice (cursor + 1) radicand_end t @ lit '')'' @ drop (radicand_end + 1) t))"

definition rewrite_construct :: "ustr \<Rightarrow> match_object \<Rightarrow> ustr option" where
  "rewrite_construct t m =
     (let (i, j, gs) = m in
      if slice (i + 1) j t = lit ''frac'' then rewrite_fraction t i j else rewrite_root t i j)"

lemma skip_spaces_cases: "skip_spaces t cursor ps = cursor \<or> (\<exists>p \<in> set ps. skip_spaces t cursor ps = p + 1)"
proof (induction t cursor ps rule: skip_spaces.induct)
  case (2 t cursor p ps)
  then show ?case by (cases "is_space (t ! p)") auto
qed simp

lemma after_spaces_ge: "cursor \<le> after_spaces t cursor"
  using skip_spaces_cases [of t cursor "[cursor..<length t]"] by (auto simp: after_spaces_def)

lemma brace_at_bounds: "brace_at t c = Some p \<Longrightarrow> c < p \<and> p < length t"
  using matching_brace_bounds by (auto simp: brace_at_def split: if_splits)

lemma rewrite_construct_shorter:
  assumes "rewrite_construct t (i, j, gs) = Some t'" "i + 5 \<le> j" "j \<le> length t"
  shows "length t' < length t"
proof (cases "slice (i + 1) j t = lit ''frac''")
  case True
  let ?c = "after_spaces t j"
  from True obtain p q where "brace_at t ?c = Some p" "brace_at t (after_spaces t (p + 1)) = Some q"
    and t': "t' = take i t @ lit ''(('' @ slice (?c + 1) p t @ lit '')/('' @
        slice (after_spaces t (p + 1) + 1) q t @ lit ''))'' @ drop (q + 1) t"
    using assms(1) unfolding rewrite_construct_def rewrite_fraction_def Let_def case_prod_conv if_P [OF True]
    by (auto split: option.splits)
  then have "?c < p" "p < after_spaces t (p + 1)" "after_spaces t (p + 1) < q" "q < length t" "j \<le> ?c"
    using brace_at_bounds after_spaces_ge [of "p + 1" t] after_spaces_ge [of j t] by (blast, simp, blast, blast, simp)
  then show ?thesis using assms(2) by (simp add: t')
next
  case False
  let ?c = "after_spaces t j"
  from False obtain p where "brace_at t ?c = Some p"
    and t': "t' = take i t @ lit ''sqrt('' @ slice (?c + 1) p t @ lit '')'' @ drop (p + 1) t"
    using assms(1) unfolding rewrite_construct_def rewrite_root_def Let_def case_prod_conv if_not_P [OF False]
    by (auto split: option.splits)
  then have "?c < p" "p < length t" "j \<le> ?c"
    using brace_at_bounds after_spaces_ge [of j t] by (blast, blast, simp)
  then show ?thesis using assms(2) by (simp add: t')
qed

lemma find_all_width: "(i, j, gs) \<in> set (find_all fuel r t pos) \<Longrightarrow> i + min_width r \<le> j \<and> j \<le> length t"
proof (induction fuel arbitrary: pos)
  case (Suc fuel)
  then show ?case using re_search_width [of r t pos, OF sym] re_search_bounds [of r t pos, OF sym] by (auto split: option.splits)
qed simp

function replace_constant_latex :: "unicode_data \<Rightarrow> ustr \<Rightarrow> ustr option" where
  "replace_constant_latex ud t =
     (let matches = re_finditer (construct_re ud) t 0 in
      if matches = [] then Some t else
      case rewrite_construct t (last matches) of
        None \<Rightarrow> None
      | Some t' \<Rightarrow> replace_constant_latex ud t')"
  by pat_completeness auto
termination
proof (relation "measure (\<lambda>(_, t). length t)")
  fix ud t ms t'
  assume ms: "ms = re_finditer (construct_re ud) t 0" "ms \<noteq> []" and t': "rewrite_construct t (last ms) = Some t'"
  obtain i j gs where m: "last ms = (i, j, gs)" by (cases "last ms") auto
  then have "(i, j, gs) \<in> set (find_all (Suc (length t)) (construct_re ud) t 0)"
    using ms last_in_set by (fastforce simp only: re_finditer_def)
  from find_all_width [OF this] have "i + 5 \<le> j" "j \<le> length t"
    by (simp_all add: construct_re_def word_def)
  then show "((ud, t'), ud, t) \<in> measure (\<lambda>(_, t). length t)"
    using rewrite_construct_shorter [of t i j gs t'] t' by (simp add: m)
qed simp

declare replace_constant_latex.simps [simp del]

text \<open>The text after the last equality sign.\<close>

definition after_last_equals :: "ustr \<Rightarrow> ustr" where
  "after_last_equals t = (if 61 \<in> set t then strip (rev (takeWhile (\<lambda>c. c \<noteq> 61) (rev t))) else t)"

definition decimal_at :: "unicode_data \<Rightarrow> ustr \<Rightarrow> nat \<Rightarrow> bool" where
  "decimal_at ud t i \<longleftrightarrow> (case char_at t i of Some c \<Rightarrow> is_decimal ud c | None \<Rightarrow> False)"

text \<open>A comma between a digit and exactly three more digits is a thousands separator.\<close>

definition thousands_comma :: "unicode_data \<Rightarrow> ustr \<Rightarrow> nat \<Rightarrow> bool" where
  "thousands_comma ud t i \<longleftrightarrow>
     t ! i = 44 \<and> 0 < i \<and> decimal_at ud t (i - 1) \<and> decimal_at ud t (i + 1) \<and> decimal_at ud t (i + 2) \<and>
     decimal_at ud t (i + 3) \<and> \<not> decimal_at ud t (i + 4)"

definition remove_thousands :: "unicode_data \<Rightarrow> ustr \<Rightarrow> ustr" where
  "remove_thousands ud t = map (\<lambda>i. t ! i) (filter (\<lambda>i. \<not> thousands_comma ud t i) [0..<length t])"

text \<open>Implicit products: a star after each position that satisfies \<open>p\<close>.\<close>

definition star_after :: "(nat \<Rightarrow> bool) \<Rightarrow> ustr \<Rightarrow> ustr" where
  "star_after p t = concat (map (\<lambda>i. if p i then [t ! i, 42] else [t ! i]) [0..<length t])"

definition product_before_function :: "unicode_data \<Rightarrow> ustr \<Rightarrow> nat \<Rightarrow> bool" where
  "product_before_function ud t i \<longleftrightarrow>
     (is_decimal ud (t ! i) \<or> t ! i = 41) \<and>
     (let rest = drop (i + 1) t in starts_with rest (lit ''sqrt'') \<or> starts_with rest (lit ''pi'') \<or> starts_with rest (lit ''(''))"

definition product_after_pi :: "unicode_data \<Rightarrow> ustr \<Rightarrow> nat \<Rightarrow> bool" where
  "product_after_pi ud t i \<longleftrightarrow>
     (t ! i = 41 \<or> (0 < i \<and> t ! (i - 1) = 112 \<and> t ! i = 105)) \<and>
     (decimal_at ud t (i + 1) \<or> char_at t (i + 1) = Some 40)"

definition constant_math_expression :: "verifier_env \<Rightarrow> ustr \<Rightarrow> ustr option" where
  "constant_math_expression ve t =
     (let ud = ve_unicode ve;
          v = after_last_equals (math_payload t);
          v = replace_each [(latex ''left'', []), (latex ''right'', []), (latex ''displaystyle'', []),
                (latex ''cdot'', lit ''*''), (latex ''times'', lit ''*''), (latex ''div'', lit ''/''), (latex ''pi'', lit ''pi''),
                (94 # latex ''circ'', []), (latex ''degree'', []), ([176], []), (latex ''approx'', []), (latex ''sim'', [])] v;
          v = replace_each spacings v in
      case replace_constant_latex ud v of None \<Rightarrow> None
      | Some converted \<Rightarrow>
          let v = replace_each [([123], lit ''(''), ([125], lit '')''), (lit ''^'', lit ''**''), (lit ''$'', []), (lit ''&'', [])] converted;
              v = remove_thousands ud v;
              v = filter (\<lambda>c. \<not> is_space c) v;
              v = star_after (product_before_function ud v) v;
              v = star_after (product_after_pi ud v) v
          in if v = [] \<or> length v > 512 \<or> 92 \<in> set v then None else Some v)"

section \<open>Evaluating constants\<close>

text \<open>A \<open>Fraction\<close> or a \<open>float\<close>.\<close>

datatype constant_value = Exact rat | Approx real

fun real_value :: "constant_value \<Rightarrow> real" where
  "real_value (Exact q) = of_rat q"
| "real_value (Approx x) = x"

fun arith :: "(rat \<Rightarrow> rat \<Rightarrow> rat) \<Rightarrow> (real \<Rightarrow> real \<Rightarrow> real) \<Rightarrow> constant_value \<Rightarrow> constant_value \<Rightarrow> constant_value" where
  "arith f g (Exact p) (Exact q) = Exact (f p q)"
| "arith f g u v = Approx (g (real_value u) (real_value v))"

fun negate :: "constant_value \<Rightarrow> constant_value" where
  "negate (Exact q) = Exact (- q)"
| "negate (Approx x) = Approx (- x)"

text \<open>\<open>left ** exponent\<close>: zero to a negative power raises.\<close>

definition power_int_value :: "constant_value \<Rightarrow> int \<Rightarrow> constant_value res" where
  "power_int_value left exponent =
     raise_if (real_value left = 0 \<and> exponent < 0) ZeroDivisionError
     (Inr (case left of
        Exact q \<Rightarrow> Exact (if exponent \<ge> 0 then q ^ nat exponent else 1 / q ^ nat (- exponent))
      | Approx x \<Rightarrow> Approx (if exponent \<ge> 0 then x ^ nat exponent else 1 / x ^ nat (- exponent))))"

fun apply_operator :: "ast_operator \<Rightarrow> constant_value \<Rightarrow> constant_value \<Rightarrow> constant_value res" where
  "apply_operator Add l r = Inr (arith (+) (+) l r)"
| "apply_operator Sub l r = Inr (arith (-) (-) l r)"
| "apply_operator Mult l r = Inr (arith (*) (*) l r)"
| "apply_operator Div l r = raise_if (real_value r = 0) (ValueError ''division by zero'') (Inr (arith (/) (/) l r))"
| "apply_operator Pow l (Exact q) =
     (let (numerator, denominator) = quotient_of q in
      raise_if (denominator \<noteq> 1) (ValueError ''non-integer power'')
      (raise_if (\<bar>numerator\<bar> > 1000) (ValueError ''exponent too large'') (power_int_value l numerator)))"
| "apply_operator Pow l (Approx x) = Inl (ValueError ''non-integer power'')"
| "apply_operator Other_Operator l r = Inl (ValueError ''unsupported operator'')"

text \<open>\<open>math.isqrt\<close>: the integer part of the square root.\<close>

fun isqrt_nat :: "nat \<Rightarrow> nat" where
  "isqrt_nat n =
     (if n = 0 then 0
      else let r = 2 * isqrt_nat (n div 4) in if (r + 1) * (r + 1) \<le> n then r + 1 else r)"

declare isqrt_nat.simps [simp del]

definition isqrt :: "int \<Rightarrow> int" where
  "isqrt n = int (isqrt_nat (nat n))"

lemma isqrt_nat_bounds: "isqrt_nat n * isqrt_nat n \<le> n \<and> n < (isqrt_nat n + 1) * (isqrt_nat n + 1)"
proof (induction n rule: isqrt_nat.induct)
  case (1 n)
  show ?case
  proof (cases "n = 0")
    case False
    let ?q = "isqrt_nat (n div 4)"
    have "?q * ?q \<le> n div 4" "n div 4 < (?q + 1) * (?q + 1)" using 1 False by simp_all
    then have "4 * (?q * ?q) \<le> n" "n < 4 * ((?q + 1) * (?q + 1))" by linarith+
    then show ?thesis using False by (simp add: isqrt_nat.simps [of n] Let_def algebra_simps)
  qed (simp add: isqrt_nat.simps)
qed

definition root_value :: "constant_value \<Rightarrow> constant_value res" where
  "root_value argument =
     raise_if (real_value argument < 0) (ValueError ''negative square root'')
     (Inr (case argument of
        Exact q \<Rightarrow>
          let (n, d) = quotient_of q; numerator = isqrt n; denominator = isqrt d in
          if numerator * numerator = n \<and> denominator * denominator = d
          then Exact (Fract numerator denominator) else Approx (sqrt (of_rat q))
      | Approx x \<Rightarrow> Approx (sqrt x)))"

fun evaluate_constant_node :: "ast \<Rightarrow> constant_value res" where
  "evaluate_constant_node (Expression body) = evaluate_constant_node body"
| "evaluate_constant_node (Constant_Int n) = Inr (Exact (of_int n))"
| "evaluate_constant_node (Constant_Float (Some q)) = Inr (Exact q)"
| "evaluate_constant_node (Constant_Float None) = Inl (ValueError ''unsupported constant'')"
| "evaluate_constant_node (UnaryOp is_minus operand) =
     ebind (evaluate_constant_node operand) (\<lambda>v. Inr (if is_minus then negate v else v))"
| "evaluate_constant_node (BinOp l op r) =
     ebind (evaluate_constant_node l) (\<lambda>left. ebind (evaluate_constant_node r) (\<lambda>right. apply_operator op left right))"
| "evaluate_constant_node (Name name) =
     (if name = lit ''pi'' then Inr (Approx pi) else Inl (ValueError ''unsupported expression''))"
| "evaluate_constant_node (Call (Name f) [argument] 0) =
     (if f = lit ''sqrt'' then ebind (evaluate_constant_node argument) root_value
      else Inl (ValueError ''unsupported expression''))"
| "evaluate_constant_node _ = Inl (ValueError ''unsupported expression'')"

text \<open>The number of nodes \<open>ast.walk\<close> visits, operators and expression contexts included.\<close>

fun ast_nodes :: "ast \<Rightarrow> nat" where
  "ast_nodes (Expression body) = 1 + ast_nodes body"
| "ast_nodes (Constant_Int n) = 1"
| "ast_nodes (Constant_Float q) = 1"
| "ast_nodes (UnaryOp is_minus operand) = 2 + ast_nodes operand"
| "ast_nodes (BinOp l op r) = 2 + ast_nodes l + ast_nodes r"
| "ast_nodes (Name name) = 2"
| "ast_nodes (Call f args keyword_nodes) = 1 + ast_nodes f + sum_list (map ast_nodes args) + keyword_nodes"
| "ast_nodes (Unsupported n) = n"

text \<open>\<open>float(value)\<close> neither overflows nor is infinite: round-to-nearest stays below \<open>2 ^ 1024\<close>.\<close>

definition fits_float :: "real \<Rightarrow> bool" where
  "fits_float x \<longleftrightarrow> \<bar>x\<bar> < 2 ^ 1024 - 2 ^ 970"

definition constant_math_value :: "verifier_env \<Rightarrow> ustr \<Rightarrow> constant_value option" where
  "constant_math_value ve t =
     (case constant_math_expression ve t of None \<Rightarrow> None
      | Some expression \<Rightarrow>
          (case ve_parse_ast ve expression of None \<Rightarrow> None
           | Some tree \<Rightarrow>
               if ast_nodes tree > 128 then None
               else (case evaluate_constant_node tree of
                       Inl _ \<Rightarrow> None
                     | Inr v \<Rightarrow> if fits_float (real_value v) then Some v else None)))"

definition isclose :: "real \<Rightarrow> real \<Rightarrow> real \<Rightarrow> real \<Rightarrow> bool" where
  "isclose rel_tol abs_tol a b \<longleftrightarrow> \<bar>a - b\<bar> \<le> max (rel_tol * max \<bar>a\<bar> \<bar>b\<bar>) abs_tol"

definition constant_math_equal :: "verifier_env \<Rightarrow> ustr \<Rightarrow> ustr \<Rightarrow> bool" where
  "constant_math_equal ve prediction target =
     (case (constant_math_value ve prediction, constant_math_value ve target) of
        (Some (Exact p), Some (Exact q)) \<Rightarrow> p = q
      | (Some u, Some v) \<Rightarrow> isclose (1 / 10 ^ 9) (1 / 10 ^ 12) (real_value u) (real_value v)
      | _ \<Rightarrow> False)"

definition symbolic_equal :: "verifier_env \<Rightarrow> ustr \<Rightarrow> ustr \<Rightarrow> bool" where
  "symbolic_equal ve prediction target =
     (case ve_math_verify ve of None \<Rightarrow> False
      | Some f \<Rightarrow> f (lit ''$'' @ math_payload prediction @ lit ''$'') (lit ''$'' @ math_payload target @ lit ''$''))"

section \<open>Rewards\<close>

definition answers_equivalent :: "verifier_env \<Rightarrow> ustr \<Rightarrow> ustr \<Rightarrow> bool" where
  "answers_equivalent ve prediction target =
     (let target_normalized = normalize_answer ve target; target_label = extract_choice_label target in
      if target_label \<noteq> [] \<and> ve_casefold ve target_normalized = ve_casefold ve target_label then
        let prediction_label = extract_choice_label prediction
        in prediction_label \<noteq> [] \<and> prediction_label = target_label
      else
        let prediction_normalized = normalize_answer ve prediction in
        if prediction_normalized = [] \<or> target_normalized = [] then False
        else if prediction_normalized = target_normalized then True
        else case (decimal_number ve prediction_normalized, decimal_number ve target_normalized) of
               (Some p, Some q) \<Rightarrow> p = q
             | _ \<Rightarrow> constant_math_equal ve prediction target \<or> symbolic_equal ve prediction target)"

definition verify_response_answer :: "verifier_env \<Rightarrow> ustr \<Rightarrow> ustr \<Rightarrow> real" where
  "verify_response_answer ve response answer =
     (let (prediction, valid_format) = extract_final_answer response in
      if \<not> valid_format then 0 else if answers_equivalent ve prediction answer then 1 else 0)"

text \<open>\<open>value.split()\<close>.\<close>

function split_words :: "ustr \<Rightarrow> ustr list" where
  "split_words t =
     (let r = dropWhile is_space t in
      if r = [] then [] else takeWhile (\<lambda>c. \<not> is_space c) r # split_words (dropWhile (\<lambda>c. \<not> is_space c) r))"
  by pat_completeness auto
termination
proof (relation "measure length")
  fix t r :: ustr assume r: "r = dropWhile is_space t" "r \<noteq> []"
  then have "\<not> is_space (hd r)" by (simp add: hd_dropWhile)
  then have "length (dropWhile (\<lambda>c. \<not> is_space c) r) < length r"
    using r(2) by (cases r) (auto simp: le_imp_less_Suc length_dropWhile_le)
  also have "\<dots> \<le> length t" by (simp add: r(1) length_dropWhile_le)
  finally show "(dropWhile (\<lambda>c. \<not> is_space c) r, t) \<in> measure length" by simp
qed simp

declare split_words.simps [simp del]

fun first_float :: "verifier_env \<Rightarrow> ustr list \<Rightarrow> real option" where
  "first_float ve [] = None"
| "first_float ve (c # cs) = (case ve_parse_float ve c of Some x \<Rightarrow> Some x | None \<Rightarrow> first_float ve cs)"

definition scibench_numeric_value :: "verifier_env \<Rightarrow> ustr \<Rightarrow> real option" where
  "scibench_numeric_value ve answer =
     (let v = strip (filter (\<lambda>c. c \<noteq> 44) (repair answer)); words = split_words v
      in first_float ve (v # (if words \<noteq> [] then [hd words] else [])))"

definition verify_scibench_response_answer :: "verifier_env \<Rightarrow> ustr \<Rightarrow> ustr \<Rightarrow> real" where
  "verify_scibench_response_answer ve response answer =
     (let (prediction, valid_format) = extract_final_answer response in
      if \<not> valid_format then 0 else
      case (scibench_numeric_value ve prediction, scibench_numeric_value ve answer) of
        (Some p, Some t) \<Rightarrow> if isclose (5 / 100) 0 p t then 1 else 0
      | _ \<Rightarrow> 0)"

definition verify_dataset_response_answer :: "verifier_env \<Rightarrow> ustr \<Rightarrow> ustr \<Rightarrow> ustr \<Rightarrow> real" where
  "verify_dataset_response_answer ve response answer data_source =
     (if ve_casefold ve (strip data_source) = lit ''scibench'' then verify_scibench_response_answer ve response answer
      else verify_response_answer ve response answer)"

end
