(* ===== verification/ERSR.thy ===== *)
theory ERSR
  imports Token_Alignment Answer_Verifier
begin

text \<open>
  Expected reasoning-step return (\<open>utils/ersr.py\<close>): the settings, the selection of
  interventions by reservoir sampling, the Monte-Carlo estimates and their aggregation. SHA-256,
  the generator of the \<open>random\<close> module and the asynchronous model calls are parameters.
  The calls of one \<open>gather\<close> run concurrently; the model lists them in order, which is the
  order of their results, so only the choice among several failures differs. Action types are a
  datatype, so the branches for an unknown action type have no case here.
\<close>

section \<open>Settings\<close>

datatype datasets_value = No_Datasets | One_Dataset ustr | Datasets "ustr list"

record ersr_config =
  ec_datasets :: datasets_value
  ec_max_steps_per_dataset :: "int option"
  ec_mc_k :: "int option"
  ec_seed :: "int option"
  ec_max_teacher_step_tokens :: "int option"
  ec_temperature :: "flt option"
  ec_top_p :: "flt option"
  ec_top_k :: "int option"

record ersr_settings =
  datasets :: "ustr list"
  max_steps_per_dataset :: int
  mc_k :: int
  seed :: int
  max_response_tokens :: int
  max_teacher_step_tokens :: int
  temperature :: flt
  top_p :: flt
  top_k :: int

definition read_or :: "'a \<Rightarrow> 'a option \<Rightarrow> 'a" where
  "read_or dflt v = (case v of None \<Rightarrow> dflt | Some x \<Rightarrow> x)"

definition parse_datasets :: "datasets_value \<Rightarrow> ustr list res" where
  "parse_datasets v =
     (case v of
        Datasets names \<Rightarrow>
          let ds = map strip names in
          raise_if (ds = [] \<or> [] \<in> set ds) (ValueError ''ersr.datasets must be a non-empty list'')
          (raise_if (\<not> distinct ds) (ValueError ''ersr.datasets must not contain duplicate names'') (Inr ds))
      | _ \<Rightarrow> Inl (ValueError ''ersr.datasets must be a non-empty list''))"

definition parse_ersr_settings :: "ersr_config \<Rightarrow> int \<Rightarrow> ersr_settings res" where
  "parse_ersr_settings config max_tokens =
     ebind (parse_datasets (ec_datasets config)) (\<lambda>ds.
     let s = \<lparr>datasets = ds, max_steps_per_dataset = read_or 0 (ec_max_steps_per_dataset config),
              mc_k = read_or 0 (ec_mc_k config), seed = read_or 0 (ec_seed config),
              max_response_tokens = max_tokens,
              max_teacher_step_tokens = read_or 0 (ec_max_teacher_step_tokens config),
              temperature = read_or (Fin (6 / 10)) (ec_temperature config),
              top_p = read_or (Fin 1) (ec_top_p config), top_k = read_or (- 1) (ec_top_k config)\<rparr> in
     raise_if (max_steps_per_dataset s \<le> 0) (ValueError ''ersr.max_steps_per_dataset must be positive'')
     (raise_if (mc_k s \<le> 0) (ValueError ''ersr.mc_k must be positive'')
     (raise_if (max_response_tokens s \<le> 0) (ValueError ''ERSR max_response_tokens must be positive'')
     (raise_if (max_teacher_step_tokens s \<le> 0) (ValueError ''ersr.max_teacher_step_tokens must be positive'')
     (raise_if (fless (temperature s) (Fin 0)) (ValueError ''ersr.temperature must be non-negative'')
     (raise_if (\<not> (fless (Fin 0) (top_p s) \<and> fle (top_p s) (Fin 1))) (ValueError ''ersr.top_p must lie in (0, 1]'')
     (Inr s)))))))"

definition validate_ersr_dataset_subset :: "ustr list \<Rightarrow> ustr list \<Rightarrow> unit res" where
  "validate_ersr_dataset_subset ersr_datasets val_datasets =
     raise_if (filter (\<lambda>name. name \<notin> set val_datasets) ersr_datasets \<noteq> [])
       (ValueError ''ersr.datasets must be a subset of data.val_datasets'') (Inr ())"

section \<open>Selecting interventions\<close>

datatype ersr_action = Student_Action | Teacher_Replace

fun action_name :: "ersr_action \<Rightarrow> ustr" where
  "action_name Student_Action = lit ''student_action''"
| "action_name Teacher_Replace = lit ''teacher_replace''"

record validation_record =
  vr_dataset :: ustr
  vr_correct :: bool
  vr_uid :: "ustr option"
  vr_answer :: ustr
  vr_prompt_ids :: "int list"
  vr_response_ids :: "int list"

record ersr_case =
  ca_dataset :: ustr
  ca_action_type :: ersr_action
  ca_record_index :: nat
  ca_uid :: ustr
  ca_answer :: ustr
  ca_prompt_ids :: "int list"
  ca_response_ids :: "int list"
  ca_step_index :: nat
  ca_step_token_start :: nat
  ca_step_token_end :: nat
  ca_step_text :: ustr

record selected_case = ersr_case +
  ca_case_index :: nat
  ca_case_id :: ustr
  ca_seed :: int

record 'r ersr_env =
  ee_unicode :: unicode_data
  ee_tokenizer :: tokenizer
  ee_sha256 :: "ustr \<Rightarrow> nat list" \<comment> \<open>digest bytes of the UTF-8 encoding\<close>
  ee_random :: "nat \<Rightarrow> 'r" \<comment> \<open>\<open>random.Random(seed)\<close>\<close>
  ee_randrange :: "nat \<Rightarrow> 'r \<Rightarrow> nat \<times> 'r"
  ee_shuffle :: "'r \<Rightarrow> ersr_case list \<Rightarrow> ersr_case list"
  ee_verifier :: verifier_env

type_synonym series = "ustr \<times> ersr_action"

record 'r ersr_state =
  es_candidates :: "(series \<times> ersr_case list) list"
  es_available_counts :: "(series \<times> nat) list"
  es_sampling_rngs :: "(series \<times> 'r) list"
  es_split_failures :: "(ustr \<times> nat) list"
  es_trajectories :: "(ustr \<times> nat) list"
  es_without_eligible :: "(ustr \<times> nat) list"

text \<open>Decimal notation.\<close>

fun show_nat :: "nat \<Rightarrow> ustr" where
  "show_nat n = (if n < 10 then [48 + n] else show_nat (n div 10) @ [48 + n mod 10])"

declare show_nat.simps [simp del]

definition show_int :: "int \<Rightarrow> ustr" where
  "show_int i = (if i < 0 then 45 # show_nat (nat (- i)) else show_nat (nat i))"

definition dataset_seed :: "'r ersr_env \<Rightarrow> int \<Rightarrow> ustr \<Rightarrow> ersr_action \<Rightarrow> nat" where
  "dataset_seed env s dataset action =
     foldl (\<lambda>n b. 256 * n + b) 0 (take 8 (ee_sha256 env (show_int s @ [0] @ dataset @ [0] @ action_name action)))"

definition bump :: "ustr \<Rightarrow> (ustr \<times> nat) list \<Rightarrow> (ustr \<times> nat) list" where
  "bump k d = dict_put k (dict_get_or 0 k d + 1) d"

definition candidate_of :: "nat \<Rightarrow> validation_record \<Rightarrow> ersr_action \<Rightarrow> token_step \<Rightarrow> ersr_case" where
  "candidate_of record_index r action st =
     \<lparr>ca_dataset = vr_dataset r, ca_action_type = action, ca_record_index = record_index,
      ca_uid = (case vr_uid r of Some u \<Rightarrow> u | None \<Rightarrow> show_nat record_index), ca_answer = vr_answer r,
      ca_prompt_ids = vr_prompt_ids r, ca_response_ids = vr_response_ids r, ca_step_index = step_index st,
      ca_step_token_start = token_start st, ca_step_token_end = token_end st, ca_step_text = step_text st\<rparr>"

text \<open>One eligible step: fill the reservoir, then replace a random entry.\<close>

definition consider_step :: "'r ersr_env \<Rightarrow> ersr_settings \<Rightarrow> nat \<Rightarrow> validation_record \<Rightarrow> ersr_action
    \<Rightarrow> token_step \<Rightarrow> 'r ersr_state \<Rightarrow> 'r ersr_state" where
  "consider_step env s record_index r action st z =
     (if token_end st \<le> token_start st then z else
      let key = (vr_dataset r, action);
          available = dict_get_or 0 key (es_available_counts z) + 1;
          z = z\<lparr>es_available_counts := dict_put key available (es_available_counts z)\<rparr>;
          candidate = candidate_of record_index r action st;
          reservoir = dict_get_or [] key (es_candidates z) in
      if int (length reservoir) < max_steps_per_dataset s
      then z\<lparr>es_candidates := dict_put key (reservoir @ [candidate]) (es_candidates z)\<rparr>
      else
        let rng = (case dict_get key (es_sampling_rngs z) of Some g \<Rightarrow> g
                   | None \<Rightarrow> ee_random env (dataset_seed env (seed s) (vr_dataset r) action));
            (replacement_index, rng) = ee_randrange env available rng;
            z = z\<lparr>es_sampling_rngs := dict_put key rng (es_sampling_rngs z)\<rparr> in
        if int replacement_index < max_steps_per_dataset s
        then z\<lparr>es_candidates := dict_put key (reservoir[replacement_index := candidate]) (es_candidates z)\<rparr>
        else z\<lparr>es_candidates := dict_put key reservoir (es_candidates z)\<rparr>)"

definition consider_record :: "'r ersr_env \<Rightarrow> ersr_settings \<Rightarrow> bool \<Rightarrow> bool \<Rightarrow> nat \<times> validation_record
    \<Rightarrow> 'r ersr_state \<Rightarrow> 'r ersr_state" where
  "consider_record env s include_student_action include_teacher_replace ir z =
     (let (record_index, r) = ir; dataset = vr_dataset r; correct = vr_correct r in
      if dataset \<notin> set (datasets s) then z
      else if correct \<and> \<not> include_student_action then z
      else if \<not> correct \<and> \<not> include_teacher_replace then z
      else
        let action = (if correct then Student_Action else Teacher_Replace);
            z = z\<lparr>es_trajectories := bump dataset (es_trajectories z)\<rparr> in
        case split_rollout_steps (ee_unicode env) (ee_tokenizer env) True (vr_response_ids r) of
          Inl _ \<Rightarrow> z\<lparr>es_split_failures := bump dataset (es_split_failures z)\<rparr>
        | Inr (_, steps) \<Rightarrow>
            let eligible_steps = butlast steps in
            if eligible_steps = [] then z\<lparr>es_without_eligible := bump dataset (es_without_eligible z)\<rparr>
            else fold (consider_step env s record_index r action) eligible_steps z)"

definition start_state :: "'r ersr_state" where
  "start_state = \<lparr>es_candidates = [], es_available_counts = [], es_sampling_rngs = [], es_split_failures = [],
     es_trajectories = [], es_without_eligible = []\<rparr>"

record ersr_summary =
  sm_trajectories :: "(ustr \<times> nat) list"
  sm_split_failures :: "(ustr \<times> nat) list"
  sm_without_eligible_steps :: "(ustr \<times> nat) list"
  sm_available_steps :: "(ustr \<times> (ersr_action \<times> nat) list) list"
  sm_selected_steps :: "(ustr \<times> (ersr_action \<times> nat) list) list"

definition put_count :: "series \<Rightarrow> nat \<Rightarrow> (ustr \<times> (ersr_action \<times> nat) list) list \<Rightarrow> (ustr \<times> (ersr_action \<times> nat) list) list" where
  "put_count k n d = dict_put (fst k) (dict_put (snd k) n (dict_get_or [] (fst k) d)) d"

definition number_case :: "ersr_settings \<Rightarrow> nat \<Rightarrow> ersr_case \<Rightarrow> selected_case" where
  "number_case s case_index c =
     ersr_case.extend c
       \<lparr>ca_case_index = case_index,
        ca_case_id = ca_dataset c @ lit '':'' @ ca_uid c @ lit '':'' @ show_nat (ca_record_index c) @ lit '':'' @
          show_nat (ca_step_index c) @ lit '':'' @ action_name (ca_action_type c),
        ca_seed = seed s + int case_index * 10000\<rparr>"

definition select_series :: "'r ersr_env \<Rightarrow> ersr_settings \<Rightarrow> 'r ersr_state \<Rightarrow> series
    \<Rightarrow> selected_case list \<times> ersr_summary \<Rightarrow> selected_case list \<times> ersr_summary" where
  "select_series env s z key acc =
     (let (selected, sm) = acc;
          rows = ee_shuffle env (ee_random env (dataset_seed env (seed s + 1) (fst key) (snd key)))
                   (dict_get_or [] key (es_candidates z))
      in (selected @ map (\<lambda>(i, c). number_case s (length selected + i) c) (py_enumerate rows),
          sm\<lparr>sm_available_steps := put_count key (dict_get_or 0 key (es_available_counts z)) (sm_available_steps sm),
             sm_selected_steps := put_count key (length rows) (sm_selected_steps sm)\<rparr>))"

definition ersr_series :: "ersr_settings \<Rightarrow> bool \<Rightarrow> bool \<Rightarrow> series list" where
  "ersr_series s include_student_action include_teacher_replace =
     concat (map (\<lambda>dataset. map (Pair dataset)
       ((if include_student_action then [Student_Action] else []) @
        (if include_teacher_replace then [Teacher_Replace] else []))) (datasets s))"

definition build_ersr_step_cases :: "'r ersr_env \<Rightarrow> validation_record list \<Rightarrow> ersr_settings \<Rightarrow> bool \<Rightarrow> bool
    \<Rightarrow> (selected_case list \<times> ersr_summary) res" where
  "build_ersr_step_cases env records s include_student_action include_teacher_replace =
     raise_if (\<not> include_student_action \<and> \<not> include_teacher_replace)
       (ValueError ''ERSR must enable at least one action type'')
     (let z = fold (consider_record env s include_student_action include_teacher_replace) (py_enumerate records) start_state
      in Inr (fold (select_series env s z) (ersr_series s include_student_action include_teacher_replace)
           ([], \<lparr>sm_trajectories = es_trajectories z, sm_split_failures = es_split_failures z,
                 sm_without_eligible_steps = es_without_eligible z, sm_available_steps = [], sm_selected_steps = []\<rparr>)))"

section \<open>Estimates\<close>

type_synonym generate = "int list \<Rightarrow> int \<Rightarrow> int \<Rightarrow> int list res" \<comment> \<open>prompt ids, max tokens, seed\<close>

definition first_replacement_step_ids :: "'r ersr_env \<Rightarrow> int list \<Rightarrow> int list res" where
  "first_replacement_step_ids env proposal_ids =
     ebind (split_rollout_steps (ee_unicode env) (ee_tokenizer env) True proposal_ids) (\<lambda>(_, steps).
     Inr (if steps = [] then [] else take (token_end (hd steps)) proposal_ids))"

definition reward_for_continuation :: "'r ersr_env \<Rightarrow> int list \<Rightarrow> int list \<Rightarrow> ustr \<Rightarrow> ustr option \<Rightarrow> real" where
  "reward_for_continuation env prefix continuation answer data_source =
     (let response = tok_decode (ee_tokenizer env) True (prefix @ continuation) in
      case data_source of
        Some ds \<Rightarrow> verify_dataset_response_answer (ee_verifier env) response answer ds
      | None \<Rightarrow> verify_response_answer (ee_verifier env) response answer)"

definition sample_seed :: "selected_case \<Rightarrow> int \<Rightarrow> nat \<Rightarrow> int" where
  "sample_seed c arm_offset sample_index = ca_seed c + arm_offset + int sample_index"

definition value_sample :: "'r ersr_env \<Rightarrow> selected_case \<Rightarrow> int list \<Rightarrow> ersr_settings \<Rightarrow> int \<Rightarrow> generate \<Rightarrow> nat
    \<Rightarrow> (real \<times> nat) res" where
  "value_sample env c prefix s arm_offset student_generate sample_index =
     (let remaining = max_response_tokens s - int (length prefix) in
      ebind (if remaining \<le> 0 then Inr []
             else student_generate (ca_prompt_ids c @ prefix) remaining (sample_seed c arm_offset sample_index))
        (\<lambda>continuation.
         Inr (reward_for_continuation env prefix continuation (ca_answer c) None, if continuation = [] then 1 else 0)))"

definition estimate_value :: "'r ersr_env \<Rightarrow> selected_case \<Rightarrow> int list \<Rightarrow> ersr_settings \<Rightarrow> int \<Rightarrow> generate
    \<Rightarrow> (real \<times> nat) res" where
  "estimate_value env c prefix s arm_offset student_generate =
     ebind (emap (value_sample env c prefix s arm_offset student_generate) [0..<nat (mc_k s)]) (\<lambda>samples.
     raise_if (mc_k s = 0) ZeroDivisionError
     (Inr (sum_list (map fst samples) / of_int (mc_k s), sum_list (map snd samples))))"

record ersr_values =
  ev_baseline_value :: real
  ev_action_value :: real
  ev_advantage :: real
  ev_mc_k :: int
  ev_baseline_empty_continuations :: nat
  ev_action_empty_continuations :: nat
  ev_replacement_num_tokens :: "nat option"

datatype ersr_outcome = Skipped ustr | Valued ersr_values

record ersr_result =
  rs_case_id :: ustr
  rs_dataset :: ustr
  rs_action_type :: ersr_action
  rs_outcome :: ersr_outcome

definition result_of :: "selected_case \<Rightarrow> ersr_outcome \<Rightarrow> ersr_result" where
  "result_of c outcome =
     \<lparr>rs_case_id = ca_case_id c, rs_dataset = ca_dataset c, rs_action_type = ca_action_type c, rs_outcome = outcome\<rparr>"

text \<open>The action to value: the original step, or the Teacher's first step; a string skips the case.\<close>

definition action_prefix :: "'r ersr_env \<Rightarrow> selected_case \<Rightarrow> ersr_settings \<Rightarrow> generate option
    \<Rightarrow> (ustr + int list \<times> nat option) res" where
  "action_prefix env c s teacher_generate =
     (let prior = take (ca_step_token_start c) (ca_response_ids c) in
      case ca_action_type c of
        Student_Action \<Rightarrow> Inr (Inr (take (ca_step_token_end c) (ca_response_ids c), None))
      | Teacher_Replace \<Rightarrow>
          (case teacher_generate of
             None \<Rightarrow> Inl (ValueError ''Teacher-replacement ERSR requires teacher_generate'')
           | Some generate \<Rightarrow>
               let teacher_budget = min (max_teacher_step_tokens s) (max_response_tokens s - int (length prior)) in
               if teacher_budget \<le> 0 then Inr (Inl (lit ''no_teacher_budget'')) else
               ebind (generate (ca_prompt_ids c @ prior) teacher_budget (ca_seed c + 5000)) (\<lambda>proposal_ids.
               ebind (first_replacement_step_ids env proposal_ids) (\<lambda>replacement_ids.
               Inr (if replacement_ids = [] then Inl (lit ''empty_teacher_replacement'')
                    else Inr (prior @ replacement_ids, Some (length replacement_ids)))))))"

definition evaluate_ersr_case :: "'r ersr_env \<Rightarrow> selected_case \<Rightarrow> ersr_settings \<Rightarrow> generate \<Rightarrow> generate option
    \<Rightarrow> ersr_result res" where
  "evaluate_ersr_case env c s student_generate teacher_generate =
     raise_if (\<not> (ca_step_token_start c < ca_step_token_end c \<and> ca_step_token_end c \<le> length (ca_response_ids c)))
       (ValueError ''Invalid ERSR step token span'')
     (let prior = take (ca_step_token_start c) (ca_response_ids c) in
      ebind (action_prefix env c s teacher_generate) (\<lambda>act. case act of
        Inl reason \<Rightarrow> Inr (result_of c (Skipped reason))
      | Inr (prefix, replaced) \<Rightarrow>
          ebind (estimate_value env c prior s 0 student_generate) (\<lambda>(baseline_value, baseline_empty).
          ebind (estimate_value env c prefix s 1000 student_generate) (\<lambda>(action_value, action_empty).
          Inr (result_of c (Valued
            \<lparr>ev_baseline_value = baseline_value, ev_action_value = action_value,
             ev_advantage = action_value - baseline_value, ev_mc_k = mc_k s,
             ev_baseline_empty_continuations = baseline_empty, ev_action_empty_continuations = action_empty,
             ev_replacement_num_tokens = replaced\<rparr>))))))"

section \<open>Aggregation\<close>

fun action_label :: "ersr_action \<Rightarrow> ustr" where
  "action_label Student_Action = lit ''Student Action''"
| "action_label Teacher_Replace = lit ''Teacher Replace''"

definition ersr_series_label :: "series \<Rightarrow> ustr" where
  "ersr_series_label key = fst key @ lit '' / '' @ action_label (snd key)"

definition group_result :: "ersr_result \<Rightarrow> (series \<times> real list) list \<times> (ustr \<times> nat) list
    \<Rightarrow> (series \<times> real list) list \<times> (ustr \<times> nat) list" where
  "group_result r acc =
     (let (grouped, skipped) = acc; key = (rs_dataset r, rs_action_type r) in
      case rs_outcome r of
        Skipped reason \<Rightarrow> (grouped, bump reason skipped)
      | Valued v \<Rightarrow> (dict_put key (dict_get_or [] key grouped @ [ev_advantage v]) grouped, skipped))"

definition aggregate_ersr_advantages :: "ersr_result list \<Rightarrow> ustr list \<Rightarrow> ersr_action list
    \<Rightarrow> (ustr \<times> real) list \<times> (ustr \<times> nat) list" where
  "aggregate_ersr_advantages results names action_types =
     (let (grouped, skipped) = fold group_result results ([], []);
          keys = concat (map (\<lambda>dataset. map (Pair dataset) action_types) names);
          mean = (\<lambda>values. if values = [] then 0 else sum_list values / real (length values))
      in (fold (\<lambda>key. dict_put (ersr_series_label key) (mean (dict_get_or [] key grouped))) keys [], skipped))"

end
