(* ===== verification/Verifier_Correct.thy ===== *)
theory Verifier_Correct
  imports Answer_Verifier "HOL-Library.Code_Target_Nat"
begin

text \<open>
  What the answer verifier promises: the brace matcher is the textbook one, the constant evaluator
  computes real arithmetic, and a gold answer in the final box of a response earns the reward.
\<close>

section \<open>Braces\<close>

definition brace_weight :: "ustr \<Rightarrow> nat \<Rightarrow> int" where
  "brace_weight t k = (if is_escaped t k then 0 else if t ! k = 123 then 1 else if t ! k = 125 then - 1 else 0)"

text \<open>The nesting depth after position \<open>k\<close>, counted from an opening brace at \<open>i\<close>.\<close>

definition brace_depth :: "ustr \<Rightarrow> nat \<Rightarrow> nat \<Rightarrow> int" where
  "brace_depth t i k = 1 + (\<Sum>j \<in> {i<..k}. brace_weight t j)"

lemma closing_brace_find:
  "0 < d \<Longrightarrow> closing_brace t d [a..<n] = find (\<lambda>k. int d + (\<Sum>j \<in> {a..k}. brace_weight t j) = 0) [a..<n]"
proof (induction "n - a" arbitrary: a d)
  case (Suc m)
  then have an: "a < n" by simp
  have up: "[a..<n] = a # [Suc a..<n]" using an by (rule upt_conv_Cons)
  have split: "(\<Sum>j \<in> {a..k}. brace_weight t j) = brace_weight t a + (\<Sum>j \<in> {Suc a..k}. brace_weight t j)"
    if "k \<in> set [Suc a..<n]" for k using that by (intro sum.atLeast_Suc_atMost) simp
  have IH: "closing_brace t e [Suc a..<n] = find (\<lambda>k. int d + (\<Sum>j \<in> {a..k}. brace_weight t j) = 0) [Suc a..<n]"
    if "0 < e" "int e = int d + brace_weight t a" for e
  proof -
    have "closing_brace t e [Suc a..<n] = find (\<lambda>k. int e + (\<Sum>j \<in> {Suc a..k}. brace_weight t j) = 0) [Suc a..<n]"
      using Suc that(1) by simp
    also have "\<dots> = find (\<lambda>k. int d + (\<Sum>j \<in> {a..k}. brace_weight t j) = 0) [Suc a..<n]"
      using split that(2) by (intro find_cong) (simp_all add: add.assoc)
    finally show ?thesis .
  qed
  show ?case unfolding up using Suc.prems IH [of d] IH [of "d + 1"] IH [of "d - 1"]
    by (auto simp: brace_weight_def of_nat_diff)
qed simp

lemma find_upt_Min: "find P [a..<n] = (if {k \<in> {a..<n}. P k} = {} then None else Some (Min {k \<in> {a..<n}. P k}))"
proof (induction "n - a" arbitrary: a)
  case (Suc m)
  then have an: "a < n" by simp
  have up: "[a..<n] = a # [Suc a..<n]" using an by (rule upt_conv_Cons)
  show ?case
  proof (cases "P a")
    case True
    have "Min {k \<in> {a..<n}. P k} = a" using True an by (intro Min_eqI) auto
    then show ?thesis using True an by (auto simp: up)
  next
    case False
    then have "{k \<in> {a..<n}. P k} = {k \<in> {Suc a..<n}. P k}" using Suc_le_eq le_neq_implies_less by fastforce
    then show ?thesis using False Suc by (simp add: up)
  qed
qed auto

text \<open>
  The brace matcher agrees with the definition of balanced braces: for an opening brace it
  returns the first later position at which the depth of unescaped braces has come back to zero,
  and nothing if there is no such position.
\<close>

theorem matching_brace_is_first_balanced:
  "matching_brace t i =
     (if i < length t \<and> t ! i = 123 \<and> {k \<in> {i<..<length t}. brace_depth t i k = 0} \<noteq> {}
      then Some (Min {k \<in> {i<..<length t}. brace_depth t i k = 0}) else None)"
proof -
  have same: "{k \<in> {i + 1..<length t}. int 1 + (\<Sum>j \<in> {i + 1..k}. brace_weight t j) = 0} =
      {k \<in> {i<..<length t}. brace_depth t i k = 0}"
    by (auto simp: brace_depth_def atLeastSucAtMost_greaterThanAtMost)
  show ?thesis unfolding matching_brace_def closing_brace_find [OF zero_less_one] find_upt_Min same by auto
qed

section \<open>Constants\<close>

text \<open>Real arithmetic on the expressions the evaluator supports.\<close>

fun apply_real :: "ast_operator \<Rightarrow> real \<Rightarrow> real \<Rightarrow> real" where
  "apply_real Add x y = x + y"
| "apply_real Sub x y = x - y"
| "apply_real Mult x y = x * y"
| "apply_real Div x y = x / y"
| "apply_real Pow x y = x powi \<lfloor>y\<rfloor>"
| "apply_real Other_Operator x y = 0"

fun denote :: "ast \<Rightarrow> real" where
  "denote (Expression body) = denote body"
| "denote (Constant_Int n) = of_int n"
| "denote (Constant_Float q) = (case q of Some r \<Rightarrow> of_rat r | None \<Rightarrow> 0)"
| "denote (UnaryOp is_minus operand) = (if is_minus then - denote operand else denote operand)"
| "denote (BinOp l op r) = apply_real op (denote l) (denote r)"
| "denote (Name name) = pi"
| "denote (Call f args keywords) = (case args of [argument] \<Rightarrow> sqrt (denote argument) | _ \<Rightarrow> 0)"
| "denote (Unsupported n) = 0"

lemma real_value_arith:
  "(\<And>p q. of_rat (f p q) = g (of_rat p) (of_rat q)) \<Longrightarrow> real_value (arith f g u v) = g (real_value u) (real_value v)"
  by (cases u; cases v) simp_all

lemma quotient_of_real: "quotient_of q = (n, d) \<Longrightarrow> (of_rat q :: real) = of_int n / of_int d"
  using quotient_of_div [of q n d] by (simp add: of_rat_divide)

lemma apply_operator_real: "apply_operator op u v = Inr w \<Longrightarrow> real_value w = apply_real op (real_value u) (real_value v)"
proof (induction op u v rule: apply_operator.induct)
  case (5 l q)
  obtain n d where nd: "quotient_of q = (n, d)" by (cases "quotient_of q")
  then have w: "power_int_value l n = Inr w" and d: "d = 1" using 5 by (auto simp: raise_if_Inr)
  have "(of_rat q :: real) = of_int n" using quotient_of_real [OF nd] d by simp
  moreover have "real_value w = real_value l powi n"
    using w by (cases l) (auto simp: power_int_value_def raise_if_Inr power_int_def of_rat_power of_rat_divide
        inverse_eq_divide power_one_over split: if_splits)
  ultimately show ?case by simp
qed (auto simp: real_value_arith raise_if_Inr of_rat_add of_rat_diff of_rat_mult of_rat_divide)

lemma root_value_real: "root_value u = Inr w \<Longrightarrow> real_value w = sqrt (real_value u)"
proof -
  assume w: "root_value u = Inr w"
  show ?thesis
  proof (cases u)
    case (Exact q)
    obtain n d where nd: "quotient_of q = (n, d)" by (cases "quotient_of q")
    have d: "0 < d" using quotient_of_denom_pos [OF nd] .
    show ?thesis
    proof (cases "isqrt n * isqrt n = n \<and> isqrt d * isqrt d = d")
      case True
      then have "isqrt d \<noteq> 0" using d by (metis mult_zero_left less_irrefl)
      moreover have "0 \<le> isqrt n" "0 \<le> isqrt d" by (simp_all add: isqrt_def)
      moreover from calculation have "sqrt (of_int n) = of_int (isqrt n)" "sqrt (of_int d) = of_int (isqrt d)"
        using True by (metis of_int_0_le_iff of_int_mult real_sqrt_mult_self abs_of_nonneg real_sqrt_mult)+
      moreover have "w = Exact (Fract (isqrt n) (isqrt d))"
        using w True by (simp add: root_value_def Exact nd raise_if_Inr Let_def)
      ultimately show ?thesis by (simp add: Exact quotient_of_real [OF nd] of_rat_rat real_sqrt_divide)
    qed (use w in \<open>auto simp: root_value_def Exact nd raise_if_Inr Let_def\<close>)
  qed (use w in \<open>auto simp: root_value_def raise_if_Inr\<close>)
qed

text \<open>
  C18: The constant evaluator computes real arithmetic: whenever it accepts an expression of a
  boxed answer, exactly as a fraction or as a float, the value is the one the expression denotes,
  with integer powers, quotients and square roots read as on the reals.
\<close>

theorem constant_evaluation_is_real_arithmetic:
  assumes "evaluate_constant_node n = Inr v"
  shows "real_value v = denote n"
  using assms
proof (induction n arbitrary: v rule: evaluate_constant_node.induct)
  case (5 is_minus operand)
  then obtain u where u: "evaluate_constant_node operand = Inr u" "v = (if is_minus then negate u else u)"
    by (auto simp: ebind_Inr)
  with 5 have "real_value u = denote operand" by simp
  then show ?case using u(2) by (cases u) (auto simp: of_rat_minus)
next
  case (6 l op r)
  then show ?case by (auto simp: ebind_Inr apply_operator_real)
next
  case (8 f argument)
  then show ?case by (auto simp: ebind_Inr root_value_real split: if_splits)
qed (auto split: if_splits)

lemma constant_evaluation_is_real_arithmetic_witness:
  "evaluate_constant_node (BinOp (Call (Name (lit ''sqrt'')) [Constant_Int 9] 0) Div (Constant_Int 2)) = Inr (Exact (3 / 2)) \<and>
   real_value (Exact (3 / 2)) = denote (BinOp (Call (Name (lit ''sqrt'')) [Constant_Int 9] 0) Div (Constant_Int 2))"
proof -
  have v: "evaluate_constant_node (BinOp (Call (Name (lit ''sqrt'')) [Constant_Int 9] 0) Div (Constant_Int 2)) = Inr (Exact (3 / 2))"
    by (simp add: root_value_def isqrt_def isqrt_nat.simps quotient_of_number raise_if_def Fract_of_int_quotient)
  then show ?thesis using constant_evaluation_is_real_arithmetic [OF v] by simp
qed

section \<open>The final box\<close>

lemma first_match_skip: "match_at r t i = None \<Longrightarrow> first_match r t (i # is) = first_match r t is"
  by simp

lemma re_search_at_most:
  assumes "match_at r t k = Some m" "pos \<le> k" "k \<le> length t"
  shows "\<exists>i j gs. re_search r t pos = Some (i, j, gs) \<and> match_at r t i = Some (i, j, gs) \<and> pos \<le> i \<and> i \<le> k"
proof -
  have "sorted is \<Longrightarrow> k \<in> set is \<Longrightarrow> \<forall>i \<in> set is. pos \<le> i \<Longrightarrow>
      \<exists>i j gs. first_match r t is = Some (i, j, gs) \<and> match_at r t i = Some (i, j, gs) \<and> pos \<le> i \<and> i \<le> k" for "is"
  proof (induction "is")
    case (Cons a as)
    show ?case
    proof (cases "match_at r t a")
      case None
      then have "k \<noteq> a" using assms(1) by auto
      then show ?thesis using Cons None by simp
    next
      case (Some m')
      then obtain j gs where "match_at r t a = Some (a, j, gs)"
        using match_at_bounds by (metis prod_cases3)
      then show ?thesis using Cons.prems Some by auto
    qed
  qed simp
  from this [of "[pos..<Suc (length t)]"] show ?thesis
    using assms(2,3) by (simp add: re_search_def less_Suc_eq_le del: upt_Suc)
qed

text \<open>A position where the pattern matches is a match of \<open>finditer\<close> or lies inside one.\<close>

lemma find_all_covers:
  assumes "match_at r t k = Some m" "k \<le> length t"
  shows "pos \<le> k \<Longrightarrow> k - pos < fuel \<Longrightarrow>
    \<exists>i j gs. (i, j, gs) \<in> set (find_all fuel r t pos) \<and> match_at r t i = Some (i, j, gs) \<and> (i = k \<or> i < k \<and> k < j)"
proof (induction fuel arbitrary: pos)
  case (Suc fuel)
  obtain i j gs where m: "re_search r t pos = Some (i, j, gs)" "match_at r t i = Some (i, j, gs)" "pos \<le> i" "i \<le> k"
    using re_search_at_most [OF assms(1) Suc.prems(1) assms(2)] by blast
  show ?case
  proof (cases "i = k \<or> k < j")
    case True
    then show ?thesis using m by (intro exI [of _ i] exI [of _ j] exI [of _ gs]) auto
  next
    case False
    then have "max j (Suc pos) \<le> k" "k - max j (Suc pos) < fuel" using m(3,4) Suc.prems by auto
    from Suc.IH [OF this] show ?thesis using m(1) by auto
  qed
qed simp

lemma find_all_ascending:
  assumes "0 < min_width r"
  shows "sorted_wrt (<) (map fst (find_all fuel r t pos)) \<and> (\<forall>m \<in> set (find_all fuel r t pos). pos \<le> fst m)"
proof (induction fuel arbitrary: pos)
  case (Suc fuel)
  show ?case
  proof (cases "re_search r t pos")
    case (Some m)
    obtain i j gs where m: "m = (i, j, gs)" by (cases m)
    have "pos \<le> i" "i < j" using re_search_bounds [of r t pos i j gs] re_search_width [of r t pos i j gs] assms Some m by auto
    moreover have "sorted_wrt (<) (map fst (find_all fuel r t (max j (Suc pos))))"
      "\<forall>m \<in> set (find_all fuel r t (max j (Suc pos))). max j (Suc pos) \<le> fst m" using Suc.IH by blast+
    ultimately show ?thesis using Some m by fastforce
  qed simp
qed simp

lemma last_ascending: "sorted_wrt (<) (map fst ms) \<Longrightarrow> m \<in> set ms \<Longrightarrow> (fst m :: nat) \<le> fst (last ms)"
  by (induction ms rule: rev_induct) (auto simp: sorted_wrt_append)

lemma find_all_matches: "(i, j, gs) \<in> set (find_all fuel r t pos) \<Longrightarrow> match_at r t i = Some (i, j, gs)"
proof (induction fuel arbitrary: pos)
  case (Suc fuel)
  have step: "match_at r t a = Some (a, b, h)" if "re_search r t pos = Some (a, b, h)" for a b h
    using first_match_in [of r t "[pos..<Suc (length t)]" "(a, b, h)"] that match_at_bounds [of r t]
    by (metis re_search_def)
  then show ?case using Suc step [OF sym] by (auto split: option.splits)
qed simp

lemma boxed_match:
  assumes "match_at boxed_re t i = Some (a, j, gs)"
  shows "a = i \<and> i < length t \<and> t ! i = 92 \<and> (\<forall>k. i < k \<and> k < j \<longrightarrow> t ! k \<noteq> 92)"
proof -
  have "(j, gs) \<in> set (run boxed_re t (i, []))" and a: "a = i"
    using assms by (auto simp: match_at_def split: list.splits)
  then obtain l gs' where c: "char_at t i = Some 92" "char_at t (i + 1) = Some 98" "char_at t (i + 2) = Some 111"
    "char_at t (i + 3) = Some 120" "char_at t (i + 4) = Some 101" "char_at t (i + 5) = Some 100"
    and l: "(l, gs') \<in> set (run (many (Cls is_space)) t (i + 6, []))" "char_at t l = Some 123" "j = l + 1"
    by (auto simp: boxed_re_def word_def numeral_eq_Suc simp del: run.simps(5) split: option.splits if_splits)
  from run_Cls_all [OF l(1)] have sp: "\<forall>k. i + 6 \<le> k \<and> k < l \<longrightarrow> k < length t \<and> is_space (t ! k)" by simp
  have "t ! k \<noteq> 92" if k: "i < k" "k < j" for k
  proof -
    consider "k = i + 1" | "k = i + 2" | "k = i + 3" | "k = i + 4" | "k = i + 5" | "i + 6 \<le> k" "k < l" | "k = l"
      using k l(3) by linarith
    then show ?thesis
      by cases (use c l(2) sp in \<open>auto simp: char_at_def is_space_def split: if_splits\<close>)
  qed
  then show ?thesis using a c(1) by (auto simp: char_at_def split: if_splits)
qed

lemma boxed_match_word:
  assumes "match_at boxed_re t i = Some m"
  shows "take 6 (drop i t) = latex ''boxed''"
proof -
  obtain l gs' where "(l, gs') \<in> set (run boxed_re t (i, []))"
    using assms by (auto simp: match_at_def split: list.splits)
  then have c: "char_at t i = Some 92" "char_at t (i + 1) = Some 98" "char_at t (i + 2) = Some 111"
    "char_at t (i + 3) = Some 120" "char_at t (i + 4) = Some 101" "char_at t (i + 5) = Some 100"
    by (auto simp: boxed_re_def word_def numeral_eq_Suc simp del: run.simps(5) split: option.splits if_splits)
  then have len: "i + 5 < length t" by (auto simp: char_at_def split: if_splits)
  show ?thesis
  proof (rule nth_equalityI)
    show "length (take 6 (drop i t)) = length (latex ''boxed'')" using len by (simp add: latex_def)
    fix k assume "k < length (take 6 (drop i t))"
    then have "k = 0 \<or> k = 1 \<or> k = 2 \<or> k = 3 \<or> k = 4 \<or> k = 5" by auto
    then show "take 6 (drop i t) ! k = latex ''boxed'' ! k"
      using c len by (elim disjE) (simp_all add: char_at_def latex_def)
  qed
qed

text \<open>
  Balanced braces, read from left to right: a backslash escapes the character after it, escaped
  braces do not count. The code looks backwards at every brace instead.
\<close>

fun balanced :: "bool \<Rightarrow> nat \<Rightarrow> ustr \<Rightarrow> bool" where
  "balanced escaped depth [] = (\<not> escaped \<and> depth = 0)"
| "balanced escaped depth (c # cs) =
     (if escaped then balanced False depth cs
      else if c = 92 then balanced True depth cs
      else if c = 123 then balanced False (Suc depth) cs
      else if c = 125 then 0 < depth \<and> balanced False (depth - 1) cs
      else balanced False depth cs)"

lemma is_escaped_Suc: "is_escaped t (Suc p) \<longleftrightarrow> t ! p = 92 \<and> \<not> is_escaped t p"
  by (simp add: is_escaped_def)

lemma closing_brace_balanced:
  assumes "\<forall>k < length gold. t ! (a + k) = gold ! k" "a + length gold < n" "t ! (a + length gold) = 125"
    and "balanced (is_escaped t a) d gold"
  shows "closing_brace t (Suc d) [a..<n] = Some (a + length gold)"
  using assms
proof (induction gold arbitrary: a d)
  case Nil
  then show ?case by (simp add: upt_conv_Cons)
next
  case (Cons c cs)
  have c: "t ! a = c" using Cons.prems(1) by force
  have at: "\<forall>k < length cs. t ! (Suc a + k) = cs ! k" using Cons.prems(1) by force
  have next_one: "closing_brace t (Suc e) [Suc a..<n] = Some (a + length (c # cs))" if "balanced (is_escaped t (Suc a)) e cs" for e
    using Cons.IH [OF at, of e] Cons.prems(2,3) that by simp
  have upt: "[a..<n] = a # [Suc a..<n]" using Cons.prems(2) by (simp add: upt_conv_Cons)
  show ?case
  proof (cases "is_escaped t a")
    case True
    then show ?thesis using next_one [of d] Cons.prems(4) by (simp add: upt is_escaped_Suc)
  next
    case False
    note bal = Cons.prems(4) and esc = is_escaped_Suc [of t a]
    consider "c = 92" | "c = 123" | "c = 125" | "c \<noteq> 92" "c \<noteq> 123" "c \<noteq> 125" by blast
    then show ?thesis
    proof cases
      case 3
      then have d: "0 < d" "balanced False (d - 1) cs" using bal False by simp_all
      then have "closing_brace t (Suc (d - 1)) [Suc a..<n] = Some (a + length (c # cs))"
        using next_one [of "d - 1"] esc c 3 by simp
      then show ?thesis using d(1) False c 3 by (simp add: upt)
    qed (use next_one bal False c esc in \<open>simp_all add: upt\<close>)
  qed
qed

text \<open>A balanced answer in the last box of a response is what the extraction returns.\<close>

lemma extract_last_box:
  assumes t: "repair response = pre @ latex ''boxed{'' @ gold @ [125] @ post" and gold: "balanced False 0 gold"
    and last_box: "\<And>x y. gold @ [125] @ post \<noteq> x @ latex ''boxed'' @ y"
  shows "extract_final_answer response = (strip gold, strip gold \<noteq> [])"
proof -
  define t where "t = repair response"
  let ?i = "length pre" and ?p = "length pre + 7 + length gold"
  note t = t [folded t_def]
  have nth: "t ! (?i + 7 + k) = (gold @ [125] @ post) ! k" "t ! ?i = 92" "t ! (?i + 6) = 123" for k
    unfolding t latex_def by (simp_all add: nth_append)
  have len: "length t = ?p + 1 + length post" by (simp add: t latex_def)
  have chars: "char_at t ?i = Some 92" "char_at t (Suc ?i) = Some 98" "char_at t (Suc (Suc ?i)) = Some 111"
    "char_at t (Suc (Suc (Suc ?i))) = Some 120" "char_at t (Suc (Suc (Suc (Suc ?i)))) = Some 101"
    "char_at t (Suc (Suc (Suc (Suc (Suc ?i))))) = Some 100" "char_at t (Suc (Suc (Suc (Suc (Suc (Suc ?i)))))) = Some 123"
    unfolding t latex_def char_at_def by (simp_all add: nth_append)
  have "run boxed_re t (?i, []) = [(?i + 7, [])]"
    using chars by (simp add: boxed_re_def word_def is_space_def)
  then have here: "match_at boxed_re t ?i = Some (?i, ?i + 7, [])" by (simp add: match_at_def)
  let ?ms = "find_all (Suc (length t)) boxed_re t 0"
  have w: "0 < min_width boxed_re" by (simp add: boxed_re_def word_def)
  obtain i j gs where m: "(i, j, gs) \<in> set ?ms" "match_at boxed_re t i = Some (i, j, gs)" "i = ?i \<or> i < ?i \<and> ?i < j"
    using find_all_covers [OF here, of 0 "Suc (length t)"] len by auto
  have "i = ?i" using m(3) boxed_match [OF m(2)] nth(2) by blast
  then have in_ms: "(?i, ?i + 7, []) \<in> set ?ms" using m(1,2) here by simp
  obtain i' j' gs' where last: "last ?ms = (i', j', gs')" "(i', j', gs') \<in> set ?ms"
    using in_ms by (metis emptyE last_in_set list.set(1) prod_cases3)
  have ge: "?i \<le> i'" using last_ascending [OF conjunct1 [OF find_all_ascending [OF w]] in_ms] last(1) by simp
  have at: "match_at boxed_re t i' = Some (i', j', gs')" using find_all_matches last(2) by blast
  have "i' = ?i"
  proof (rule ccontr)
    assume "i' \<noteq> ?i"
    with ge have "?i < i'" by simp
    moreover have "\<not> i' < ?i + 7"
      using boxed_match [OF here] boxed_match [OF at] \<open>?i < i'\<close> by blast
    ultimately obtain k where k: "i' = ?i + 7 + k" by (auto simp: not_less le_iff_add)
    have "drop (?i + 7) t = gold @ [125] @ post" by (simp add: t latex_def)
    then have "take 6 (drop k (gold @ [125] @ post)) = latex ''boxed''"
      using boxed_match_word [OF at] k by (metis add.commute drop_drop)
    then have "gold @ [125] @ post = take k (gold @ [125] @ post) @ latex ''boxed'' @ drop 6 (drop k (gold @ [125] @ post))"
      by (metis append_take_drop_id)
    then show False using last_box by blast
  qed
  then have last_match: "last ?ms = (?i, ?i + 7, [])" using last(1) at here by simp
  have "?i + 7 = Suc (?i + 6)" by simp
  then have "\<not> is_escaped t (?i + 7)" using is_escaped_Suc [of t "?i + 6"] nth(3) by (simp only:) simp
  moreover have "\<forall>k < length gold. t ! (?i + 7 + k) = gold ! k" by (simp add: nth(1) nth_append)
  moreover have "t ! ?p = 125" using nth(1) [of "length gold"] by (simp add: nth_append)
  ultimately have "closing_brace t 1 [?i + 7..<length t] = Some ?p"
    using closing_brace_balanced [of gold t "?i + 7" "length t" 0] gold len by simp
  then have brace: "matching_brace t (?i + 6) = Some ?p"
    using nth(3) len by (simp add: matching_brace_def add.commute add.left_commute)
  have inner: "slice (?i + 7) ?p t = gold" unfolding t latex_def by (simp add: slice_def)
  have ne: "re_finditer boxed_re t 0 \<noteq> []" and l: "last (re_finditer boxed_re t 0) = (?i, ?i + 7, [])"
    using in_ms last_match by (auto simp: re_finditer_def simp del: find_all.simps)
  have six: "?i + 7 - 1 = ?i + 6" "?i + 6 + 1 = ?i + 7" by simp_all
  show ?thesis unfolding extract_final_answer_def t_def [symmetric] Let_def if_not_P [OF ne] l fst_conv snd_conv six brace
      option.case inner by (rule refl)
qed

lemma answers_equivalent_refl: "normalize_answer ve a \<noteq> [] \<Longrightarrow> answers_equivalent ve a a"
  by (simp add: answers_equivalent_def Let_def)

text \<open>
  C19: A gold answer written in the last box of a response is rewarded. Take any response that, after
  the character repairs of the extraction, holds a box with the gold answer and no later
  box command, and any gold answer without surrounding blanks whose braces are balanced (LaTeX
  commands, nested groups and escaped braces included) and whose normal form is not empty: it is
  extracted whole and graded 1, in option mode and in open mode alike, without relying on the
  symbolic library. Not covered are gold answers with unbalanced braces, and those whose normal form
  is empty, for which the grade is left to the later comparisons.
\<close>

theorem boxed_gold_is_rewarded:
  assumes "repair t = pre @ latex ''boxed{'' @ gold @ [125] @ post" "strip gold = gold" "balanced False 0 gold"
    and "\<And>x y. gold @ [125] @ post \<noteq> x @ latex ''boxed'' @ y" "gold \<noteq> []" "normalize_answer ve gold \<noteq> []"
  shows "extract_final_answer t = (gold, True) \<and> verify_response_answer ve t gold = 1"
  using extract_last_box [OF assms(1,3,4)] assms(2,5) answers_equivalent_refl [OF assms(6)]
  by (simp add: verify_response_answer_def)

definition plain_env :: verifier_env where
  "plain_env = \<lparr>ve_unicode = \<lparr>ud_word = (\<lambda>_. False), ud_decimal = (\<lambda>_. None)\<rparr>, ve_casefold = map ascii_lower,
     ve_parse_ast = (\<lambda>_. None), ve_parse_float = (\<lambda>_. None), ve_math_verify = None\<rparr>"

lemma boxed_gold_is_rewarded_witness:
  "verify_response_answer plain_env (lit ''So '' @ latex ''boxed{'' @ latex ''frac{1}{2}'' @ [125] @ lit ''.'') (latex ''frac{1}{2}'') = 1"
proof -
  let ?gold = "latex ''frac{1}{2}''"
  let ?t = "lit ''So '' @ latex ''boxed{'' @ ?gold @ [125] @ lit ''.''"
  have g: "repair ?t = ?t" "strip ?gold = ?gold" "balanced False 0 ?gold" "normalize_answer plain_env ?gold \<noteq> []" by code_simp+
  have "?gold @ [125] @ lit ''.'' \<noteq> x @ latex ''boxed'' @ y" for x y
  proof
    let ?u = "?gold @ [125] @ lit ''.''"
    assume u: "?u = x @ latex ''boxed'' @ y"
    then have "length x < length ?u" "?u ! length x = 92" "?u ! Suc (length x) = 98"
      by (simp_all add: latex_def nth_append)
    moreover have "\<forall>k < length ?u. ?u ! k = 92 \<longrightarrow> ?u ! Suc k \<noteq> 98" by code_simp
    ultimately show False by blast
  qed
  then show ?thesis using boxed_gold_is_rewarded [OF g(1-3), of plain_env] g(4) by (simp add: latex_def)
qed

end
