(* ===== verification/ERSR_Correct.thy ===== *)
theory ERSR_Correct
  imports ERSR Verifier_Correct
begin

text \<open>
  The ERSR selection is sound and capped, its requests use distinct seeds, and every selected
  student action can be evaluated.
\<close>

section \<open>The selected steps\<close>

lemma steps_within:
  assumes "tok_decode tk skip [] = []" "split_rollout_steps ud tk skip ids = Inr (resp, steps)" "t \<in> set steps"
  shows "token_end t \<le> length ids"
proof -
  obtain tss where "split_text_steps ud (tok_decode tk skip ids) = Inr tss"
    using assms(2) by (auto simp: split_rollout_steps_def decode_ids_def Let_def ebind_Inr)
  from split_rollout_steps_ok [OF assms(1) this] obtain a where
    a: "steps = al_steps a" "aligned tk skip ids (tok_decode tk skip ids) a" using assms(2) by auto
  have "(int (token_start t), int (token_end t)) \<in> set (token_spans (al_steps a))" using assms(3) a(1) by simp
  from contiguous_bounds [OF _ this, of 0 "int (al_token_end a)"] show ?thesis using a(2) by (simp add: aligned_def)
qed

text \<open>
  What a candidate promises: it is a step of a recorded rollout of a wanted dataset, before the
  last step, and its action type is the one its verdict asks for.
\<close>

definition sound_case :: "'r ersr_env \<Rightarrow> ersr_settings \<Rightarrow> validation_record list \<Rightarrow> 'z ersr_case_scheme \<Rightarrow> bool" where
  "sound_case env s records c \<longleftrightarrow>
     ca_record_index c < length records \<and>
     (let r = records ! ca_record_index c in
      ca_dataset c = vr_dataset r \<and> vr_dataset r \<in> set (datasets s) \<and>
      ca_action_type c = (if vr_correct r then Student_Action else Teacher_Replace) \<and>
      ca_prompt_ids c = vr_prompt_ids r \<and> ca_response_ids c = vr_response_ids r \<and>
      (\<exists>resp steps. split_rollout_steps (ee_unicode env) (ee_tokenizer env) True (vr_response_ids r) = Inr (resp, steps) \<and>
         (ca_step_token_start c, ca_step_token_end c) \<in> set (map (\<lambda>st. (token_start st, token_end st)) (butlast steps)) \<and>
         ca_step_token_start c < ca_step_token_end c))"

definition sound_state :: "'r ersr_env \<Rightarrow> ersr_settings \<Rightarrow> validation_record list \<Rightarrow> 'r ersr_state \<Rightarrow> bool" where
  "sound_state env s records z \<longleftrightarrow>
     (\<forall>key. int (length (dict_get_or [] key (es_candidates z))) \<le> max_steps_per_dataset s \<and>
        (\<forall>c \<in> set (dict_get_or [] key (es_candidates z)). sound_case env s records c \<and> (ca_dataset c, ca_action_type c) = key))"

lemma consider_step_candidates:
  assumes "\<not> token_end st \<le> token_start st"
  shows "\<exists>xs. es_candidates (consider_step env s i r action st z) = dict_put (vr_dataset r, action) xs (es_candidates z) \<and>
    (length xs \<le> length (dict_get_or [] (vr_dataset r, action) (es_candidates z)) \<or> int (length xs) \<le> max_steps_per_dataset s) \<and>
    set xs \<subseteq> insert (candidate_of i r action st) (set (dict_get_or [] (vr_dataset r, action) (es_candidates z)))"
proof -
  let ?key = "(vr_dataset r, action)" and ?c = "candidate_of i r action st"
  let ?res = "dict_get_or [] ?key (es_candidates z)" and ?n = "dict_get_or 0 ?key (es_available_counts z) + 1"
  show ?thesis
  proof (cases "int (length ?res) < max_steps_per_dataset s")
    case True
    then show ?thesis using assms by (intro exI [of _ "?res @ [?c]"]) (auto simp: consider_step_def Let_def)
  next
    case False
    let ?rng = "case dict_get ?key (es_sampling_rngs z) of Some g \<Rightarrow> g
        | None \<Rightarrow> ee_random env (dataset_seed env (seed s) (vr_dataset r) action)"
    obtain k g where k: "ee_randrange env ?n ?rng = (k, g)" by (cases "ee_randrange env ?n ?rng")
    show ?thesis
    proof (cases "int k < max_steps_per_dataset s")
      case True
      then show ?thesis using assms False k set_update_subset_insert [of ?res k ?c]
        by (intro exI [of _ "?res[k := ?c]"]) (simp add: consider_step_def Let_def)
    next
      case other: False
      then show ?thesis using assms False k
        by (intro exI [of _ ?res]) (auto simp: consider_step_def Let_def)
    qed
  qed
qed

lemma consider_step_sound:
  assumes "sound_state env s records z" "i < length records"
    and "vr_dataset (records ! i) \<in> set (datasets s)" "action = (if vr_correct (records ! i) then Student_Action else Teacher_Replace)"
    and "split_rollout_steps (ee_unicode env) (ee_tokenizer env) True (vr_response_ids (records ! i)) = Inr (resp, steps)"
    and "st \<in> set (butlast steps)"
  shows "sound_state env s records (consider_step env s i (records ! i) action st z)"
proof (cases "token_end st \<le> token_start st")
  case False
  let ?r = "records ! i"
  let ?c = "candidate_of i ?r action st" and ?key = "(vr_dataset ?r, action)"
  have c: "sound_case env s records ?c" "(ca_dataset ?c, ca_action_type ?c) = ?key"
    using assms(2-6) False by (auto simp: sound_case_def candidate_of_def Let_def)
  obtain xs where xs: "es_candidates (consider_step env s i ?r action st z) = dict_put ?key xs (es_candidates z)"
    "length xs \<le> length (dict_get_or [] ?key (es_candidates z)) \<or> int (length xs) \<le> max_steps_per_dataset s"
    "set xs \<subseteq> insert ?c (set (dict_get_or [] ?key (es_candidates z)))"
    using consider_step_candidates [OF False, of env s i ?r action z] by blast
  note inv = assms(1) [unfolded sound_state_def, rule_format]
  have "int (length xs) \<le> max_steps_per_dataset s" using xs(2) inv [of ?key] by linarith
  moreover have "sound_case env s records d \<and> (ca_dataset d, ca_action_type d) = ?key" if "d \<in> set xs" for d
    using xs(3) that c inv [of ?key] by blast
  moreover have "dict_get_or [] key (es_candidates (consider_step env s i ?r action st z)) =
      (if key = ?key then xs else dict_get_or [] key (es_candidates z))" for key
    by (simp only: xs(1) dict_get_or_put)
  ultimately show ?thesis using inv unfolding sound_state_def by metis
qed (use assms(1) in \<open>simp add: consider_step_def\<close>)

lemma fold_sound: "(\<And>x z. x \<in> set xs \<Longrightarrow> I z \<Longrightarrow> I (f x z)) \<Longrightarrow> I z \<Longrightarrow> I (fold f xs z)"
  by (induction xs arbitrary: z) auto

lemma consider_record_cases:
  "\<exists>w. es_candidates w = es_candidates z \<and> (consider_record env s st te (i, r) z = w \<or>
     (\<exists>resp steps. split_rollout_steps (ee_unicode env) (ee_tokenizer env) True (vr_response_ids r) = Inr (resp, steps) \<and>
        vr_dataset r \<in> set (datasets s) \<and>
        consider_record env s st te (i, r) z =
          fold (consider_step env s i r (if vr_correct r then Student_Action else Teacher_Replace)) (butlast steps) w))"
proof (cases "vr_dataset r \<notin> set (datasets s) \<or> vr_correct r \<and> \<not> st \<or> \<not> vr_correct r \<and> \<not> te")
  case True
  then have "consider_record env s st te (i, r) z = z" by (auto simp: consider_record_def Let_def)
  then show ?thesis by blast
next
  case False
  let ?w = "z\<lparr>es_trajectories := bump (vr_dataset r) (es_trajectories z)\<rparr>"
  note unfold = consider_record_def Let_def prod.case
  show ?thesis
  proof (cases "split_rollout_steps (ee_unicode env) (ee_tokenizer env) True (vr_response_ids r)")
    case (Inl e)
    then show ?thesis using False
      by (intro exI [of _ "?w\<lparr>es_split_failures := bump (vr_dataset r) (es_split_failures ?w)\<rparr>"]) (auto simp: unfold)
  next
    case (Inr rs)
    obtain resp steps where rs: "rs = (resp, steps)" by (cases rs)
    show ?thesis
    proof (cases "butlast steps = []")
      case True
      then show ?thesis using False Inr rs
        by (intro exI [of _ "?w\<lparr>es_without_eligible := bump (vr_dataset r) (es_without_eligible ?w)\<rparr>"]) (auto simp: unfold)
    next
      case ne: False
      then show ?thesis using False Inr rs by (intro exI [of _ ?w]) (auto simp: unfold)
    qed
  qed
qed

lemma consider_record_sound:
  assumes "sound_state env s records z" "(i, r) \<in> set (py_enumerate records)"
  shows "sound_state env s records (consider_record env s st te (i, r) z)"
proof -
  have r: "i < length records" "r = records ! i" using assms(2) by (auto simp: set_py_enumerate)
  obtain w where w: "es_candidates w = es_candidates z" "consider_record env s st te (i, r) z = w \<or>
     (\<exists>resp steps. split_rollout_steps (ee_unicode env) (ee_tokenizer env) True (vr_response_ids r) = Inr (resp, steps) \<and>
        vr_dataset r \<in> set (datasets s) \<and>
        consider_record env s st te (i, r) z =
          fold (consider_step env s i r (if vr_correct r then Student_Action else Teacher_Replace)) (butlast steps) w)"
    using consider_record_cases by blast
  have sw: "sound_state env s records w" using assms(1) w(1) by (simp add: sound_state_def)
  from w(2) show ?thesis
  proof (elim disjE exE conjE)
    fix resp steps
    assume a: "split_rollout_steps (ee_unicode env) (ee_tokenizer env) True (vr_response_ids r) = Inr (resp, steps)"
      "vr_dataset r \<in> set (datasets s)"
      "consider_record env s st te (i, r) z =
          fold (consider_step env s i r (if vr_correct r then Student_Action else Teacher_Replace)) (butlast steps) w"
    show ?thesis unfolding a(3)
      by (rule fold_sound [where I = "sound_state env s records", OF _ sw], unfold r(2),
          rule consider_step_sound [OF _ r(1) a(2) [unfolded r(2)] refl a(1) [unfolded r(2)]])
  qed (use sw in simp)
qed

lemma select_fold:
  assumes "\<And>key c. c \<in> set (dict_get_or [] key (es_candidates z)) \<Longrightarrow> P c \<and> (ca_dataset c, ca_action_type c) = key"
    and "\<And>key. int (length (dict_get_or [] key (es_candidates z))) \<le> cap"
    and "\<And>g xs. mset (ee_shuffle env g xs) = mset xs" and "distinct keys"
    and "fold (select_series env s z) keys (sel0, sm0) = (sel, sm)"
    and "\<forall>i < length sel0. \<exists>c. sel0 ! i = number_case s i c \<and> P c"
    and "\<And>key. int (length (filter (\<lambda>c. (ca_dataset c, ca_action_type c) = key) sel0)) \<le> (if key \<in> set keys then 0 else cap)"
  shows "(\<forall>i < length sel. \<exists>c. sel ! i = number_case s i c \<and> P c) \<and>
    (\<forall>key. int (length (filter (\<lambda>c. (ca_dataset c, ca_action_type c) = key) sel)) \<le> cap)"
  using assms(4-7)
proof (induction keys arbitrary: sel0 sm0)
  case (Cons key keys)
  obtain sel1 sm1 where step: "select_series env s z key (sel0, sm0) = (sel1, sm1)" by (cases "select_series env s z key (sel0, sm0)")
  obtain g where sel1: "sel1 = sel0 @ map (\<lambda>(i, c). number_case s (length sel0 + i) c)
      (py_enumerate (ee_shuffle env g (dict_get_or [] key (es_candidates z))))"
    using step by (auto simp: select_series_def Let_def)
  let ?rows = "ee_shuffle env g (dict_get_or [] key (es_candidates z))"
  have rows: "set ?rows = set (dict_get_or [] key (es_candidates z))" "length ?rows = length (dict_get_or [] key (es_candidates z))"
    using assms(3) by (metis set_mset_mset, metis size_mset)
  have c: "P c \<and> (ca_dataset c, ca_action_type c) = key" if "c \<in> set ?rows" for c using that rows(1) assms(1) by blast
  have num: "(ca_dataset (number_case s i c), ca_action_type (number_case s i c)) = (ca_dataset c, ca_action_type c)" for i c
    by (simp add: number_case_def ersr_case.extend_def)
  have "\<forall>i < length sel1. \<exists>c. sel1 ! i = number_case s i c \<and> P c"
  proof (intro allI impI)
    fix i assume i: "i < length sel1"
    show "\<exists>c. sel1 ! i = number_case s i c \<and> P c"
    proof (cases "i < length sel0")
      case True
      then show ?thesis using Cons.prems(3) by (simp add: sel1 nth_append)
    next
      case False
      then have k: "i - length sel0 < length ?rows" using i by (simp add: sel1)
      then have "sel1 ! i = number_case s i (?rows ! (i - length sel0))" using False by (simp add: sel1 nth_append)
      then show ?thesis using c [OF nth_mem [OF k]] by blast
    qed
  qed
  moreover have "int (length (filter (\<lambda>c. (ca_dataset c, ca_action_type c) = k) sel1)) \<le> (if k \<in> set keys then 0 else cap)" for k
  proof -
    have "filter (\<lambda>c. (ca_dataset c, ca_action_type c) = k)
        (map (\<lambda>(i, c). number_case s (length sel0 + i) c) (py_enumerate ?rows)) =
      (if k = key then map (\<lambda>(i, c). number_case s (length sel0 + i) c) (py_enumerate ?rows) else [])"
      using c num by (auto simp: filter_map comp_def set_py_enumerate intro!: filter_False filter_True)
    then show ?thesis
      using Cons.prems(1) Cons.prems(4) [of k] assms(2) [of key] rows(2) by (auto simp: sel1 split: if_splits)
  qed
  ultimately show ?case using Cons.IH [of sel1 sm1] Cons.prems(1,2) step by simp
qed auto

lemma sound_case_numbered [simp]: "sound_case env s records (number_case s i c) = sound_case env s records c"
  by (simp add: sound_case_def number_case_def ersr_case.extend_def)

lemma numbered_fields [simp]:
  "ca_case_index (number_case s i c) = i" "ca_seed (number_case s i c) = seed s + int i * 10000"
  by (simp_all add: number_case_def ersr_case.extend_def)

lemma parse_ersr_settings_Inr:
  assumes "parse_ersr_settings config n = Inr s"
  shows "distinct (datasets s) \<and> 0 < max_steps_per_dataset s \<and> 0 < mc_k s \<and> max_response_tokens s = n"
  using assms
  by (auto simp: parse_ersr_settings_def ebind_Inr raise_if_Inr Let_def parse_datasets_def split: datasets_value.splits)

lemma distinct_pairs: "distinct acts \<Longrightarrow> distinct ds \<Longrightarrow> distinct (concat (map (\<lambda>d. map (Pair d) acts) ds))"
  by (induction ds) (auto simp: distinct_map inj_on_def)

lemma distinct_series: "distinct (datasets s) \<Longrightarrow> distinct (ersr_series s a b)"
  unfolding ersr_series_def by (rule distinct_pairs) auto

lemma selection_sound:
  assumes "build_ersr_step_cases env records s a b = Inr (cases, sm)" "parse_ersr_settings config n = Inr s"
    and "\<And>g xs. mset (ee_shuffle env g xs) = mset xs"
  shows "(\<forall>i < length cases. sound_case env s records (cases ! i) \<and> ca_case_index (cases ! i) = i \<and>
      ca_seed (cases ! i) = seed s + int i * 10000) \<and>
    (\<forall>key. int (length (filter (\<lambda>c. (ca_dataset c, ca_action_type c) = key) cases)) \<le> max_steps_per_dataset s)"
proof -
  note parsed = parse_ersr_settings_Inr [OF assms(2)]
  let ?z = "fold (consider_record env s a b) (py_enumerate records) start_state"
  have "sound_state env s records start_state" using parsed by (simp add: sound_state_def start_state_def dict_get_or_def)
  then have "sound_state env s records ?z"
    by (intro fold_sound [where I = "sound_state env s records"]) (auto intro: consider_record_sound)
  then have z: "\<And>key c. c \<in> set (dict_get_or [] key (es_candidates ?z)) \<Longrightarrow>
      sound_case env s records c \<and> (ca_dataset c, ca_action_type c) = key"
    "\<And>key. int (length (dict_get_or [] key (es_candidates ?z))) \<le> max_steps_per_dataset s"
    by (auto simp: sound_state_def)
  from assms(1) obtain sm0 where f: "fold (select_series env s ?z) (ersr_series s a b) ([], sm0) = (cases, sm)"
    by (auto simp: build_ersr_step_cases_def raise_if_Inr Let_def)
  have "(\<forall>i < length cases. \<exists>c. cases ! i = number_case s i c \<and> sound_case env s records c) \<and>
      (\<forall>key. int (length (filter (\<lambda>c. (ca_dataset c, ca_action_type c) = key) cases)) \<le> max_steps_per_dataset s)"
    by (rule select_fold [OF z assms(3) distinct_series f]) (use parsed in auto)
  then show ?thesis by (metis sound_case_numbered numbered_fields)
qed

text \<open>
  C25: The ERSR selection is sound: for validated settings and any shuffle that permutes, every
  selected case is a non-empty step before the last one of a rollout of a wanted dataset, student
  actions come from correct and teacher replacements from incorrect rollouts, the cases are
  numbered in order, and no series exceeds the cap.
\<close>

theorem ersr_selection_sound:
  assumes "build_ersr_step_cases env records s a b = Inr (cases, sm)" "parse_ersr_settings config n = Inr s"
    and "\<And>g xs. mset (ee_shuffle env g xs) = mset xs"
  shows "(\<forall>i < length cases. sound_case env s records (cases ! i) \<and> ca_case_index (cases ! i) = i) \<and>
    (\<forall>key. int (length (filter (\<lambda>c. (ca_dataset c, ca_action_type c) = key) cases)) \<le> max_steps_per_dataset s)"
  using selection_sound [OF assms] by blast

text \<open>The seeds of all requests a case makes: both arms of the student and the teacher.\<close>

definition case_seeds :: "ersr_settings \<Rightarrow> selected_case \<Rightarrow> int list" where
  "case_seeds s c =
     map (sample_seed c 0) [0..<nat (mc_k s)] @ map (sample_seed c 1000) [0..<nat (mc_k s)] @ [ca_seed c + 5000]"

lemma case_seeds_bounds:
  "mc_k s \<le> 1000 \<Longrightarrow> x \<in> set (case_seeds s c) \<Longrightarrow> ca_seed c \<le> x \<and> x < ca_seed c + 10000"
  by (auto simp: case_seeds_def sample_seed_def)

lemma length_case_seeds: "length (case_seeds s c) = 2 * nat (mc_k s) + 1"
  by (simp add: case_seeds_def)

lemma distinct_case_seeds: "mc_k s \<le> 1000 \<Longrightarrow> distinct (case_seeds s c)"
  by (auto simp: case_seeds_def sample_seed_def distinct_map inj_on_def)

text \<open>
  With at most 1000 Monte-Carlo samples per arm no two requests of an ERSR evaluation share
  a seed: the seeds of all samples, both arms and the teacher proposal of all selected cases are
  pairwise distinct.
\<close>

theorem ersr_seeds_distinct:
  assumes "build_ersr_step_cases env records s a b = Inr (cases, sm)" "parse_ersr_settings config n = Inr s"
    and "\<And>g xs. mset (ee_shuffle env g xs) = mset xs" "mc_k s \<le> 1000"
  shows "distinct (concat (map (case_seeds s) cases))"
proof -
  have seeds: "ca_seed (cases ! i) = seed s + int i * 10000" if "i < length cases" for i
    using selection_sound [OF assms(1-3)] that by blast
  have "distinct (concat (map (case_seeds s) (take k cases)))" if "k \<le> length cases" for k
    using that
  proof (induction k)
    case (Suc k)
    have "x \<noteq> y" if x: "x \<in> set (case_seeds s (cases ! j))" and y: "y \<in> set (case_seeds s (cases ! k))" and j: "j < k" for x y j
    proof -
      have "x < seed s + int j * 10000 + 10000" using case_seeds_bounds [OF assms(4) x] seeds [of j] j Suc.prems by simp
      moreover have "seed s + int k * 10000 \<le> y" using case_seeds_bounds [OF assms(4) y] seeds [of k] Suc.prems by simp
      moreover have "int j * 10000 + 10000 \<le> int k * 10000" using j by simp
      ultimately show ?thesis by linarith
    qed
    then have "set (concat (map (case_seeds s) (take k cases))) \<inter> set (case_seeds s (cases ! k)) = {}"
      by (fastforce simp: in_set_conv_nth)
    then show ?case using Suc distinct_case_seeds [OF assms(4)] by (simp add: take_Suc_conv_app_nth)
  qed simp
  from this [of "length cases"] show ?thesis by simp
qed

lemma verify_binary: "verify_response_answer ve response answer = 0 \<or> verify_response_answer ve response answer = 1"
  by (auto simp: verify_response_answer_def split: prod.split)

lemma estimate_value_total:
  assumes "0 < mc_k s" "\<forall>ids n sd. \<exists>xs. student ids n sd = Inr xs"
  shows "\<exists>v k. estimate_value env c prefix s arm student = Inr (v, k) \<and> 0 \<le> v \<and> v \<le> 1"
proof -
  define g where "g j = (SOME vk. value_sample env c prefix s arm student j = Inr vk)" for j
  have sample: "\<exists>v k. value_sample env c prefix s arm student j = Inr (v, k) \<and> 0 \<le> v \<and> v \<le> 1" for j
  proof -
    obtain xs where "(if max_response_tokens s - int (length prefix) \<le> 0 then Inr []
        else student (ca_prompt_ids c @ prefix) (max_response_tokens s - int (length prefix)) (sample_seed c arm j)) = Inr xs"
      using assms(2) [rule_format, of "ca_prompt_ids c @ prefix" "max_response_tokens s - int (length prefix)" "sample_seed c arm j"]
      by (cases "max_response_tokens s - int (length prefix) \<le> 0") auto
    then show ?thesis
      using verify_binary [of "ee_verifier env" "tok_decode (ee_tokenizer env) True (prefix @ xs)" "ca_answer c"]
      by (auto simp: value_sample_def Let_def reward_for_continuation_def)
  qed
  have g: "value_sample env c prefix s arm student j = Inr (g j) \<and> 0 \<le> fst (g j) \<and> fst (g j) \<le> 1" for j
  proof -
    obtain v k where vk: "value_sample env c prefix s arm student j = Inr (v, k)" "0 \<le> v" "v \<le> 1" using sample by blast
    then have "g j = (v, k)" by (simp add: g_def)
    then show ?thesis using vk by simp
  qed
  let ?is = "[0..<nat (mc_k s)]"
  have e: "emap (value_sample env c prefix s arm student) ?is = Inr (map g ?is)" using g by (intro emap_all_Inr) blast
  have "sum_list (map fst (map g ?is)) \<le> sum_list (map (\<lambda>_. 1) ?is)" "0 \<le> sum_list (map fst (map g ?is))"
    unfolding map_map comp_def using g by (intro sum_list_mono sum_list_nonneg; auto)+
  then have "0 \<le> sum_list (map fst (map g ?is)) / of_int (mc_k s)" "sum_list (map fst (map g ?is)) / of_int (mc_k s) \<le> 1"
    using assms(1) by (auto simp: sum_list_triv divide_le_eq)
  then show ?thesis using e assms(1) by (simp add: estimate_value_def raise_if_def)
qed

text \<open>
  Every selected student action can be evaluated: when the student always answers, the
  evaluation never raises (the span check in particular holds for every selected case), it is not
  skipped, both values lie between 0 and 1 and the advantage is their difference.
\<close>

theorem selected_student_action_evaluates:
  assumes "build_ersr_step_cases env records s a b = Inr (cases, sm)" "parse_ersr_settings config n = Inr s"
    and "\<And>g xs. mset (ee_shuffle env g xs) = mset xs" "\<And>skip. tok_decode (ee_tokenizer env) skip [] = []"
    and "\<forall>ids n sd. \<exists>xs. student ids n sd = Inr xs" "c \<in> set cases" "ca_action_type c = Student_Action"
  shows "\<exists>v. evaluate_ersr_case env c s student teacher = Inr (result_of c (Valued v)) \<and>
    0 \<le> ev_baseline_value v \<and> ev_baseline_value v \<le> 1 \<and> 0 \<le> ev_action_value v \<and> ev_action_value v \<le> 1 \<and>
    ev_advantage v = ev_action_value v - ev_baseline_value v"
proof -
  have "sound_case env s records c" using selection_sound [OF assms(1-3)] assms(6) by (auto simp: in_set_conv_nth)
  then obtain resp steps where
    "split_rollout_steps (ee_unicode env) (ee_tokenizer env) True (ca_response_ids c) = Inr (resp, steps)"
    "(ca_step_token_start c, ca_step_token_end c) \<in> set (map (\<lambda>st. (token_start st, token_end st)) (butlast steps))"
    "ca_step_token_start c < ca_step_token_end c"
    by (auto simp: sound_case_def Let_def)
  moreover from this obtain t where "t \<in> set steps" "ca_step_token_end c = token_end t"
    by (auto dest: in_set_butlastD)
  ultimately have span: "ca_step_token_start c < ca_step_token_end c" "ca_step_token_end c \<le> length (ca_response_ids c)"
    using steps_within [OF assms(4)] by auto
  have k: "0 < mc_k s" using parse_ersr_settings_Inr [OF assms(2)] by simp
  obtain v1 k1 where v1: "estimate_value env c (take (ca_step_token_start c) (ca_response_ids c)) s 0 student = Inr (v1, k1)"
    "0 \<le> v1" "v1 \<le> 1" using estimate_value_total [OF k assms(5)] by blast
  obtain v2 k2 where v2: "estimate_value env c (take (ca_step_token_end c) (ca_response_ids c)) s 1000 student = Inr (v2, k2)"
    "0 \<le> v2" "v2 \<le> 1" using estimate_value_total [OF k assms(5)] by blast
  show ?thesis using span v1 v2 assms(7)
    by (auto simp: evaluate_ersr_case_def raise_if_def action_prefix_def Let_def)
qed

definition example_ersr_env :: "unit ersr_env" where
  "example_ersr_env = \<lparr>ee_unicode = ascii_only, ee_tokenizer = character_tokenizer, ee_sha256 = (\<lambda>_. []), ee_random = (\<lambda>_. ()),
     ee_randrange = (\<lambda>n g. (0, g)), ee_shuffle = (\<lambda>g xs. xs), ee_verifier = plain_env\<rparr>"

definition example_ersr_config :: ersr_config where
  "example_ersr_config = \<lparr>ec_datasets = Datasets [lit ''math''], ec_max_steps_per_dataset = Some 4, ec_mc_k = Some 2, ec_seed = Some 7,
     ec_max_teacher_step_tokens = Some 16, ec_temperature = None, ec_top_p = None, ec_top_k = None\<rparr>"

definition example_record :: validation_record where
  "example_record = \<lparr>vr_dataset = lit ''math'', vr_correct = True, vr_uid = None, vr_answer = lit ''7'', vr_prompt_ids = [1],
     vr_response_ids = map int two_steps\<rparr>"

lemma first_cover_characters:
  assumes "b \<le> length t"
  shows "first_cover character_tokenizer True (map int t) b = b"
proof -
  have "shown character_tokenizer True (map int t) e = min e (length t)" for e
    by (simp add: shown_def character_tokenizer_def)
  then show ?thesis using assms unfolding first_cover_def by (intro Least_equality) auto
qed

lemma example_steps:
  obtains resp s1 s2 where "split_rollout_steps ascii_only character_tokenizer True (map int two_steps) = Inr (resp, [s1, s2])"
    "token_start s1 = 0" "token_end s1 = 2"
proof -
  let ?d = "tok_decode character_tokenizer True (map int two_steps)"
  have d: "?d = two_steps" by (simp add: character_tokenizer_def comp_def)
  have long: "2 < length two_steps" by (simp add: two_steps_def)
  have "case split_text_steps ascii_only two_steps of Inl _ \<Rightarrow> False | Inr tss \<Rightarrow> map ts_char_end tss = [2, length two_steps]"
    by code_simp
  then obtain tss where tss: "split_text_steps ascii_only ?d = Inr tss" "map ts_char_end tss = [2, length two_steps]"
    unfolding d by (auto split: sum.splits)
  obtain a where a: "split_rollout_steps ascii_only character_tokenizer True (map int two_steps) = Inr (?d, al_steps a)"
    "aligned character_tokenizer True (map int two_steps) ?d a"
    using split_rollout_steps_ok [OF _ tss(1)] by (auto simp: character_tokenizer_def)
  have "step_ends (al_steps a) = remdups_adj (map (\<lambda>b. (first_cover character_tokenizer True (map int two_steps) b,
      shown character_tokenizer True (map int two_steps) (first_cover character_tokenizer True (map int two_steps) b)))
      (map ts_char_end tss))"
    using rollout_covers [OF character_tokenizer_consistent tss(1) a(1)] by (simp add: comp_def)
  also have "map fst \<dots> = [2, length two_steps]"
    using first_cover_characters [of 2 two_steps] first_cover_characters [of "length two_steps" two_steps]
    by (simp add: tss(2) long less_imp_le [OF long] less_imp_neq [OF long])
  finally have ends: "map token_end (al_steps a) = [2, length two_steps]" by (simp add: comp_def)
  then obtain s1 s2 where s: "al_steps a = [s1, s2]" "token_end s1 = 2" by (auto simp: map_eq_Cons_conv)
  moreover have "token_start s1 = 0" using a(2) s by (simp add: aligned_def)
  ultimately show thesis using that a(1) by simp
qed

lemma example_selected:
  obtains s cases sm where "parse_ersr_settings example_ersr_config 100 = Inr s" "mc_k s = 2"
    "build_ersr_step_cases example_ersr_env [example_record] s True True = Inr (cases, sm)"
    "length cases = 1" "ca_action_type (hd cases) = Student_Action"
proof -
  obtain resp s1 s2 where st: "split_rollout_steps ascii_only character_tokenizer True (map int two_steps) = Inr (resp, [s1, s2])"
    "token_start s1 = 0" "token_end s1 = 2" using example_steps .
  have "strip (lit ''math'') = lit ''math''" by code_simp
  then obtain s where s: "parse_ersr_settings example_ersr_config 100 = Inr s" "mc_k s = 2" "datasets s = [lit ''math'']"
    "max_steps_per_dataset s = 4"
    by (auto simp: parse_ersr_settings_def example_ersr_config_def parse_datasets_def read_or_def raise_if_def Let_def lit_def)
  obtain cases sm where "build_ersr_step_cases example_ersr_env [example_record] s True True = Inr (cases, sm)"
    "length cases = 1" "ca_action_type (hd cases) = Student_Action"
    by (simp add: build_ersr_step_cases_def raise_if_def Let_def py_enumerate_def consider_record_def example_ersr_env_def
        example_record_def st s consider_step_def ersr_series_def select_series_def start_state_def dict_get_or_def
        candidate_of_def number_case_def ersr_case.extend_def)
  with s show thesis using that by blast
qed

lemma permuting_example: "mset (ee_shuffle example_ersr_env g xs) = mset xs"
  by (simp add: example_ersr_env_def)

theorem ersr_selection_sound_witness:
  "\<exists>s cases sm. build_ersr_step_cases example_ersr_env [example_record] s True True = Inr (cases, sm) \<and> length cases = 1 \<and>
     sound_case example_ersr_env s [example_record] (cases ! 0)"
proof -
  obtain s cases sm where e: "parse_ersr_settings example_ersr_config 100 = Inr s"
    "build_ersr_step_cases example_ersr_env [example_record] s True True = Inr (cases, sm)" "length cases = 1"
    using example_selected by metis
  have "sound_case example_ersr_env s [example_record] (cases ! 0)"
    using ersr_selection_sound [OF e(2,1) permuting_example, THEN conjunct1] e(3) by simp
  then show ?thesis using e by blast
qed

theorem ersr_seeds_distinct_witness:
  "\<exists>s cases sm. build_ersr_step_cases example_ersr_env [example_record] s True True = Inr (cases, sm) \<and>
     length (concat (map (case_seeds s) cases)) = 5 \<and> distinct (concat (map (case_seeds s) cases))"
proof -
  obtain s cases sm where e: "parse_ersr_settings example_ersr_config 100 = Inr s" "mc_k s = 2"
    "build_ersr_step_cases example_ersr_env [example_record] s True True = Inr (cases, sm)" "length cases = 1"
    using example_selected by metis
  have "distinct (concat (map (case_seeds s) cases))"
    by (rule ersr_seeds_distinct [OF e(3,1) permuting_example]) (use e(2) in simp)
  moreover have "length (concat (map (case_seeds s) cases)) = 5"
    using e(2,4) by (auto simp: length_Suc_conv length_case_seeds)
  ultimately show ?thesis using e(3) by blast
qed

theorem selected_student_action_evaluates_witness:
  "\<exists>s cases sm v. build_ersr_step_cases example_ersr_env [example_record] s True True = Inr (cases, sm) \<and>
     evaluate_ersr_case example_ersr_env (hd cases) s (\<lambda>_ _ _. Inr []) None = Inr (result_of (hd cases) (Valued v)) \<and>
     ev_advantage v \<le> 1"
proof -
  obtain s cases sm where e: "parse_ersr_settings example_ersr_config 100 = Inr s"
    "build_ersr_step_cases example_ersr_env [example_record] s True True = Inr (cases, sm)" "length cases = 1"
    "ca_action_type (hd cases) = Student_Action"
    using example_selected by metis
  have c: "hd cases \<in> set cases" using e(3) by (cases cases) auto
  have "\<And>skip. tok_decode (ee_tokenizer example_ersr_env) skip [] = []" by (simp add: example_ersr_env_def character_tokenizer_def)
  from selected_student_action_evaluates [OF e(2,1) permuting_example this _ c e(4), of "\<lambda>_ _ _. Inr []" None]
  obtain v where v: "evaluate_ersr_case example_ersr_env (hd cases) s (\<lambda>_ _ _. Inr []) None = Inr (result_of (hd cases) (Valued v))"
    "0 \<le> ev_baseline_value v" "ev_action_value v \<le> 1" "ev_advantage v = ev_action_value v - ev_baseline_value v" by auto
  then have "ev_advantage v \<le> 1" by simp
  then show ?thesis using e(2) v(1) by blast
qed

end
