(* ===== verification/Estimators.thy ===== *)
theory Estimators
  imports Distill_Base
begin

text \<open>
  The advantage estimators of \<open>verl/trainer/ppo/core_algos.py\<close> with the group statistics of
  \<open>verl/utils/groupwise.py\<close> and the whitening of \<open>verl/utils/torch_functional.py\<close>, the
  estimator registry and the KL controllers. \<open>token_level_rewards\<close>, \<open>values\<close> and
  \<open>response_mask\<close> have one shape, as the trainer builds them. The Pass@k, GDPO and optimal-baseline
  estimators are not modelled.
\<close>

section \<open>Registry and KL controllers\<close>

definition register_adv_est :: "string \<Rightarrow> 'f \<Rightarrow> (string \<times> 'f) list \<Rightarrow> (string \<times> 'f) list res" where
  "register_adv_est name fn registry =
     raise_if (case dict_get name registry of Some f \<Rightarrow> f \<noteq> fn | None \<Rightarrow> False)
       (ValueError ''Adv estimator has already been registered'') (Inr (dict_put name fn registry))"

definition get_adv_estimator_fn :: "string \<Rightarrow> (string \<times> 'f) list \<Rightarrow> 'f res" where
  "get_adv_estimator_fn name registry =
     (case dict_get name registry of Some f \<Rightarrow> Inr f | None \<Rightarrow> Inl (ValueError ''Unknown advantage estimator simply''))"

datatype kl_controller =
    Fixed_KL_Controller real
  | Adaptive_KL_Controller real real real \<comment> \<open>value, target, horizon\<close>

fun kl_value :: "kl_controller \<Rightarrow> real" where
  "kl_value (Fixed_KL_Controller v) = v"
| "kl_value (Adaptive_KL_Controller v target horizon) = v"

fun kl_update :: "kl_controller \<Rightarrow> real \<Rightarrow> real \<Rightarrow> kl_controller res" where
  "kl_update (Fixed_KL_Controller v) current_kl n_steps = Inr (Fixed_KL_Controller v)"
| "kl_update (Adaptive_KL_Controller v target horizon) current_kl n_steps =
     raise_if (target = 0 \<or> horizon = 0) ZeroDivisionError
     (let proportional_error = min (max (current_kl / target - 1) (- (1 / 5))) (1 / 5);
          mult = 1 + proportional_error * n_steps / horizon
      in Inr (Adaptive_KL_Controller (v * mult) target horizon))"

record kl_config =
  kc_type :: string
  kc_kl_coef :: real
  kc_target_kl :: real
  kc_horizon :: real

definition get_kl_controller :: "kl_config \<Rightarrow> kl_controller res" where
  "get_kl_controller c =
     (if kc_type c = ''fixed'' then Inr (Fixed_KL_Controller (kc_kl_coef c))
      else if kc_type c = ''adaptive'' then
        raise_if (\<not> kc_horizon c > 0) (AssertionError ''horizon must be larger than 0'')
          (Inr (Adaptive_KL_Controller (kc_kl_coef c) (kc_target_kl c) (kc_horizon c)))
      else Inl (NotImplementedError))"

section \<open>Whitening\<close>

fun frsqrt :: "flt \<Rightarrow> flt" where
  "frsqrt (Fin x) = (if x < 0 then NaN else if x = 0 then PInf else Fin (1 / sqrt x))"
| "frsqrt PInf = Fin 0"
| "frsqrt MInf = NaN"
| "frsqrt NaN = NaN"

definition tensor_masked_var :: "flt mat \<Rightarrow> bool mat \<Rightarrow> flt res" where
  "tensor_masked_var vals sel =
     (let mean = tensor_masked_mean vals sel;
          centered = mmap (\<lambda>x. fsub x mean) vals;
          variance = tensor_masked_mean (mmap fsquare centered) sel;
          mask_sum = mcount sel in
      raise_if (mask_sum = 0) (ValueError ''At least one element in the mask has to be 1.'')
      (raise_if (mask_sum = 1) (ValueError ''The sum of the mask is one, which can cause a division by zero.'')
      (Inr (fmul variance (Fin (real mask_sum / (real mask_sum - 1)))))))"

definition masked_whiten :: "flt mat \<Rightarrow> bool mat \<Rightarrow> flt mat res" where
  "masked_whiten vals sel =
     ebind (tensor_masked_var vals sel) (\<lambda>var.
     let mean = tensor_masked_mean vals sel
     in Inr (mmap (\<lambda>x. fmul (fsub x mean) (frsqrt (fadd var (Fin (1 / 10 ^ 8))))) vals))"

section \<open>Generalized advantage estimation\<close>

text \<open>
  The reversed loop over the columns, on one row: the state is \<open>nextvalues\<close> and
  \<open>lastgaelam\<close> behind the current column.
\<close>

definition gae_step :: "flt \<Rightarrow> flt \<Rightarrow> flt \<times> flt \<times> bool \<Rightarrow> flt \<times> flt \<Rightarrow> flt \<times> flt" where
  "gae_step gamma lam col st =
     (let (reward, val, m) = col; (nextvalues, lastgaelam) = st;
          delta = fsub (fadd reward (fmul gamma nextvalues)) val;
          new_lastgaelam = fadd delta (fmul (fmul gamma lam) lastgaelam);
          keep = (\<lambda>new old. fadd (fmul new (of_mask m)) (fmul (of_mask (\<not> m)) old))
      in (keep val nextvalues, keep new_lastgaelam lastgaelam))"

fun gae_row :: "flt \<Rightarrow> flt \<Rightarrow> (flt \<times> flt \<times> bool) list \<Rightarrow> flt list \<times> flt \<times> flt" where
  "gae_row gamma lam [] = ([], Fin 0, Fin 0)"
| "gae_row gamma lam (col # cols) =
     (let (advantages, st) = gae_row gamma lam cols; st = gae_step gamma lam col st
      in (snd st # advantages, st))"

definition gae_advantages :: "flt \<Rightarrow> flt \<Rightarrow> flt mat \<Rightarrow> flt mat \<Rightarrow> bool mat \<Rightarrow> flt mat" where
  "gae_advantages gamma lam rewards vals sel =
     \<lparr>width = width rewards,
      rows = map2 (\<lambda>r (v, m). fst (gae_row gamma lam (zip r (zip v m)))) (rows rewards) (zip (rows vals) (rows sel))\<rparr>"

definition compute_gae_advantage_return ::
  "flt mat \<Rightarrow> flt mat \<Rightarrow> bool mat \<Rightarrow> flt \<Rightarrow> flt \<Rightarrow> (flt mat \<times> flt mat) res" where
  "compute_gae_advantage_return rewards vals response_mask gamma lam =
     raise_if (width rewards = 0) (RuntimeError ''stack expects a non-empty TensorList'')
     (let advantages = gae_advantages gamma lam rewards vals response_mask;
          returns = mmap2 fadd advantages vals
      in ebind (masked_whiten advantages response_mask) (\<lambda>whitened. Inr (whitened, returns)))"

section \<open>Group statistics\<close>

definition outcome_scores :: "flt mat \<Rightarrow> flt list" where
  "outcome_scores rewards = map fsum (rows rewards)"

text \<open>\<open>scores.unsqueeze(-1) * response_mask\<close>\<close>

definition spread_scores :: "flt list \<Rightarrow> bool mat \<Rightarrow> flt mat" where
  "spread_scores scores response_mask = mmap2 fmul (col_bcast (width response_mask) scores) (mmap of_mask response_mask)"

text \<open>The dictionary of lists filled in batch order.\<close>

definition grouped :: "'g list \<Rightarrow> 'a list \<Rightarrow> ('g \<times> 'a list) list" where
  "grouped ids xs = fold (\<lambda>(k, x) d. dict_put k (dict_get_or [] k d @ [x]) d) (zip ids xs) []"

text \<open>\<open>torch.std\<close>, with the unbiased estimator.\<close>

definition fstd :: "flt list \<Rightarrow> flt" where
  "fstd xs = (let m = fmean xs
     in fsqrt (fdiv_real (fsum (map (\<lambda>x. fsquare (fsub x m)) xs)) (real (length xs) - 1)))"

definition group_mean :: "flt list \<Rightarrow> flt" where
  "group_mean xs = (if length xs = 1 then Fin 0 else fmean xs)"

definition group_std :: "flt list \<Rightarrow> flt" where
  "group_std xs = (if length xs = 1 then Fin 1 else fstd xs)"

definition outcome_estimator ::
  "(flt list \<Rightarrow> flt \<Rightarrow> flt) \<Rightarrow> flt mat \<Rightarrow> bool mat \<Rightarrow> 'g list \<Rightarrow> (flt mat \<times> flt mat) res" where
  "outcome_estimator advantage rewards response_mask ids =
     (let scores = outcome_scores rewards in
      raise_if (length ids < length scores) (IndexError ''index'')
      (let groups = grouped ids scores;
           result = spread_scores (map (\<lambda>(k, s). advantage (dict_get_or [] k groups) s) (zip ids scores)) response_mask
       in Inr (result, result)))"

definition compute_grpo_outcome_advantage ::
  "real \<Rightarrow> bool \<Rightarrow> flt mat \<Rightarrow> bool mat \<Rightarrow> 'g list \<Rightarrow> (flt mat \<times> flt mat) res" where
  "compute_grpo_outcome_advantage epsilon norm_adv_by_std_in_grpo =
     outcome_estimator (\<lambda>peers s.
       if norm_adv_by_std_in_grpo then fdiv (fsub s (group_mean peers)) (fadd (group_std peers) (Fin epsilon))
       else fsub s (group_mean peers))"

definition compute_rloo_outcome_advantage :: "flt mat \<Rightarrow> bool mat \<Rightarrow> 'g list \<Rightarrow> (flt mat \<times> flt mat) res" where
  "compute_rloo_outcome_advantage =
     outcome_estimator (\<lambda>peers s.
       let n = real (length peers) in
       if length peers > 1
       then fsub (fdiv_real (fmul s (Fin n)) (n - 1)) (fdiv_real (fmul (group_mean peers) (Fin n)) (n - 1))
       else s)"

definition compute_gpg_outcome_advantage :: "real \<Rightarrow> flt mat \<Rightarrow> bool mat \<Rightarrow> 'g list \<Rightarrow> (flt mat \<times> flt mat) res" where
  "compute_gpg_outcome_advantage f_norm rewards response_mask ids =
     (let scores = outcome_scores rewards;
          m = length (filter (\<lambda>s. \<not> feq s (Fin 0)) scores);
          alpha = real (length scores) / real (max m 1)
      in outcome_estimator (\<lambda>peers s. fdiv_real (fmul (Fin alpha) (fsub s (group_mean peers))) f_norm)
           rewards response_mask ids)"

definition compute_reinforce_plus_plus_baseline_outcome_advantage ::
  "flt mat \<Rightarrow> bool mat \<Rightarrow> 'g list \<Rightarrow> (flt mat \<times> flt mat) res" where
  "compute_reinforce_plus_plus_baseline_outcome_advantage rewards response_mask ids =
     ebind (outcome_estimator (\<lambda>peers s. fsub s (group_mean peers)) rewards response_mask ids) (\<lambda>(scores, _).
     ebind (masked_whiten scores response_mask) (\<lambda>whitened.
     let result = mask_signal whitened response_mask in Inr (result, result)))"

text \<open>OPO: the baseline weights the scores of the group by their lengths.\<close>

definition opo_baseline :: "(flt \<times> nat) list \<Rightarrow> flt" where
  "opo_baseline peers =
     (if length peers = 1 then Fin 0
      else fdiv_real (fsum (map (\<lambda>(s, n). fmul (Fin (real n)) s) peers)) (real (sum_list (map snd peers))))"

definition compute_opo_outcome_advantage :: "flt mat \<Rightarrow> bool mat \<Rightarrow> 'g list \<Rightarrow> (flt mat \<times> flt mat) res" where
  "compute_opo_outcome_advantage rewards response_mask ids =
     (let scores = zip (outcome_scores rewards) (token_counts response_mask) in
      raise_if (length ids < length scores) (IndexError ''index'')
      (let groups = grouped ids scores;
           result = spread_scores (map (\<lambda>(k, (s, _)). fsub s (opo_baseline (dict_get_or [] k groups))) (zip ids scores)) response_mask
       in Inr (result, result)))"

section \<open>Vectorized estimators\<close>

text \<open>
  \<open>as_torch_index\<close> on an array of labels: integers where the coercion of every label to int64
  succeeds, else the rank of the label among the distinct labels (\<open>np.unique\<close>).
\<close>

definition unique_inverse :: "'g::linorder list \<Rightarrow> nat list" where
  "unique_inverse ids = (let u = sorted_list_of_set (set ids) in map (\<lambda>x. length (filter (\<lambda>y. y < x) u)) ids)"

definition as_torch_index :: "('g::linorder \<Rightarrow> int option) \<Rightarrow> 'g list \<Rightarrow> int list" where
  "as_torch_index coerce ids =
     (if \<forall>x \<in> set ids. coerce x \<noteq> None then map (\<lambda>x. the (coerce x)) ids
      else map int (unique_inverse ids))"

definition members :: "'k list \<Rightarrow> 'a list \<Rightarrow> 'k \<Rightarrow> 'a list" where
  "members ks xs k = map snd (filter (\<lambda>(k', x). k' = k) (zip ks xs))"

definition group_mean_std_of :: "real \<Rightarrow> flt list \<Rightarrow> flt \<times> flt" where
  "group_mean_std_of eps xs =
     (let count = real (length xs);
          mean = fdiv_real (fsum xs) (max count 1);
          var_num = fsum (map (\<lambda>x. fsquare (fsub x mean)) xs);
          var = fdiv_real var_num (max (count - 1) 1)
      in if length xs \<le> 1 then (Fin 0, Fin 1) else (mean, fsqrt (fclamp_min eps var)))"

definition group_mean_std :: "flt list \<Rightarrow> int list \<Rightarrow> real \<Rightarrow> (flt \<times> flt) list res" where
  "group_mean_std scores gidx eps =
     raise_if (length scores \<noteq> length gidx) (ValueError ''scores and gidx length mismatch'')
     (raise_if (\<exists>g \<in> set gidx. g < 0) (IndexError ''index out of range in self'')
     (Inr (if gidx = [] then []
           else map (\<lambda>k. group_mean_std_of eps (members gidx scores (int k))) [0..<Suc (nat (Max (set gidx)))])))"

definition compute_grpo_vectorized_outcome_advantage ::
  "('g::linorder \<Rightarrow> int option) \<Rightarrow> real \<Rightarrow> bool \<Rightarrow> flt mat \<Rightarrow> bool mat \<Rightarrow> 'g list \<Rightarrow> (flt mat \<times> flt mat) res" where
  "compute_grpo_vectorized_outcome_advantage coerce epsilon norm_adv_by_std_in_grpo rewards response_mask ids =
     (let scores = outcome_scores rewards; g = as_torch_index coerce ids in
      ebind (group_mean_std scores g 0) (\<lambda>stats.
      let result = spread_scores (map2 (\<lambda>k s. let (mean, std) = stats ! nat k in
                     if norm_adv_by_std_in_grpo then fdiv (fsub s mean) (fadd std (Fin epsilon)) else fsub s mean)
                     g scores) response_mask
      in Inr (result, result)))"

definition compute_rloo_vectorized_outcome_advantage ::
  "flt mat \<Rightarrow> bool mat \<Rightarrow> 'g::linorder list \<Rightarrow> (flt mat \<times> flt mat) res" where
  "compute_rloo_vectorized_outcome_advantage rewards response_mask ids =
     (let scores = outcome_scores rewards; inv = unique_inverse ids in
      raise_if (length inv \<noteq> length scores) (RuntimeError ''The size of tensor a must match the size of tensor b'')
      (let adv = map2 (\<lambda>k s.
             let peers = members inv scores k; c = real (length peers)
             in fmul (fdiv_real (fsub (fmul (Fin c) s) (fsum peers)) (max (c - 1) 1)) (of_mask (c > 1))) inv scores;
           result = spread_scores adv response_mask
       in Inr (result, result)))"

section \<open>Returns\<close>

text \<open>REINFORCE++: the discounted return, carried through masked tokens unchanged.\<close>

fun return_row :: "flt \<Rightarrow> (flt \<times> bool) list \<Rightarrow> flt list \<times> flt" where
  "return_row gamma [] = ([], Fin 0)"
| "return_row gamma ((reward, m) # cols) =
     (let (returns, running_return) = return_row gamma cols;
          new_running_return = fadd reward (fmul gamma running_return)
      in (fmul new_running_return (of_mask m) # returns,
          fadd (fmul new_running_return (of_mask m)) (fmul running_return (of_mask (\<not> m)))))"

definition compute_reinforce_plus_plus_outcome_advantage ::
  "flt \<Rightarrow> flt mat \<Rightarrow> bool mat \<Rightarrow> (flt mat \<times> flt mat) res" where
  "compute_reinforce_plus_plus_outcome_advantage gamma rewards response_mask =
     (let returns = \<lparr>width = width rewards, rows = map2 (\<lambda>r m. fst (return_row gamma (zip r m))) (rows rewards) (rows response_mask)\<rparr>
      in ebind (masked_whiten returns response_mask) (\<lambda>advantages.
         Inr (mask_signal advantages response_mask, returns)))"

text \<open>ReMax: the undiscounted reward to go of the masked rewards.\<close>

fun suffix_sums :: "flt list \<Rightarrow> flt list" where
  "suffix_sums [] = []"
| "suffix_sums (x # xs) = (case suffix_sums xs of [] \<Rightarrow> [x] | s # ss \<Rightarrow> fadd x s # s # ss)"

definition compute_remax_outcome_advantage ::
  "flt mat \<Rightarrow> flt list \<Rightarrow> bool mat \<Rightarrow> flt mat \<times> flt mat" where
  "compute_remax_outcome_advantage rewards reward_baselines response_mask =
     (let returns = \<lparr>width = width rewards, rows = map suffix_sums (rows (mask_signal rewards response_mask))\<rparr>
      in (mmap2 fsub returns (spread_scores reward_baselines response_mask), returns))"

definition compute_rewards :: "flt mat \<Rightarrow> flt mat \<Rightarrow> flt mat \<Rightarrow> real \<Rightarrow> flt mat" where
  "compute_rewards token_level_scores old_log_prob ref_log_prob kl_ratio =
     mmap2 fsub token_level_scores (mmap (\<lambda>kl. fmul kl (Fin kl_ratio)) (mmap2 fsub old_log_prob ref_log_prob))"

end
