(* ===== verification/Estimators_Correct.thy ===== *)
theory Estimators_Correct
  imports Estimators
begin

text \<open>
  Equivalences of the advantage estimators: vectorized and looped GRPO, RLOO and the leave-one-out
  baseline, generalized advantage estimation and the discounted sum of TD errors of the valid
  tokens.
\<close>

section \<open>Groups\<close>

lemma grouped_members: "dict_get_or [] k (grouped ids xs) = members ids xs k"
proof -
  have "dict_get_or [] k (fold (\<lambda>(k, x) d. dict_put k (dict_get_or [] k d @ [x]) d) zs d) =
      dict_get_or [] k d @ map snd (filter (\<lambda>(k', x). k' = k) zs)" for zs :: "('b \<times> 'a) list" and d
    by (induction zs arbitrary: d) auto
  from this [of "zip ids xs" "[]"] show ?thesis by (simp add: grouped_def members_def dict_get_or_def)
qed

lemma members_nth:
  assumes "length ks = length xs"
  shows "members ks xs k = map ((!) xs) (filter (\<lambda>i. ks ! i = k) [0..<length xs])"
proof -
  have "zip ks xs = map (\<lambda>i. (ks ! i, xs ! i)) [0..<length xs]" using assms by (intro nth_equalityI) auto
  then show ?thesis by (simp add: members_def filter_map comp_def)
qed

lemma members_cong:
  assumes "length ks = length xs" "length ls = length xs" "i < length xs"
    and "\<And>i j. i < length xs \<Longrightarrow> j < length xs \<Longrightarrow> ks ! i = ks ! j \<longleftrightarrow> ls ! i = ls ! j"
  shows "members ks xs (ks ! i) = members ls xs (ls ! i)"
  using assms by (auto simp: members_nth intro!: arg_cong [where f = "map ((!) xs)"] filter_cong)

lemma members_self: "length ks = length xs \<Longrightarrow> i < length xs \<Longrightarrow> members ks xs (ks ! i) \<noteq> []"
  by (auto simp: members_nth filter_empty_conv)

lemma outcome_estimator_Inr:
  "outcome_estimator f rewards m ids = Inr (A, A') \<Longrightarrow>
    A = spread_scores (map (\<lambda>(k, s). f (members ids (outcome_scores rewards) k) s) (zip ids (outcome_scores rewards))) m"
  by (simp add: outcome_estimator_def raise_if_Inr Let_def grouped_members)

text \<open>The rank among the distinct labels separates them.\<close>

lemma length_unique_inverse [simp]: "length (unique_inverse ids) = length ids"
  by (simp add: unique_inverse_def)

lemma unique_inverse_iff:
  assumes "i < length ids" "j < length ids"
  shows "unique_inverse ids ! i = unique_inverse ids ! j \<longleftrightarrow> ids ! i = ids ! j"
proof -
  have rank: "length (filter (\<lambda>y. y < x) (sorted_list_of_set (set ids))) = card {y \<in> set ids. y < x}" for x
  proof -
    have "length (filter (\<lambda>y. y < x) (sorted_list_of_set (set ids))) = card ({y. y < x} \<inter> set (sorted_list_of_set (set ids)))"
      by (rule distinct_length_filter) simp
    also have "{y. y < x} \<inter> set (sorted_list_of_set (set ids)) = {y \<in> set ids. y < x}" by auto
    finally show ?thesis .
  qed
  have lt: "card {z \<in> set ids. z < x} < card {z \<in> set ids. z < y}" if "x < y" "x \<in> set ids" for x y
    using that by (intro psubset_card_mono) auto
  have "card {z \<in> set ids. z < ids ! i} = card {z \<in> set ids. z < ids ! j} \<longleftrightarrow> ids ! i = ids ! j"
  proof (cases rule: linorder_cases [of "ids ! i" "ids ! j"])
    case less
    then show ?thesis using assms nth_mem [of i ids] lt [of "ids ! i" "ids ! j"] by simp
  next
    case greater
    then show ?thesis using assms nth_mem [of j ids] lt [of "ids ! j" "ids ! i"] by simp
  qed simp
  then show ?thesis using assms by (simp add: unique_inverse_def rank)
qed

lemma as_torch_index_iff:
  assumes "\<forall>x \<in> set ids. \<forall>y \<in> set ids. coerce x = coerce y \<and> coerce x \<noteq> None \<longrightarrow> x = y"
    and "i < length ids" "j < length ids"
  shows "as_torch_index coerce ids ! i = as_torch_index coerce ids ! j \<longleftrightarrow> ids ! i = ids ! j"
proof (cases "\<forall>x \<in> set ids. coerce x \<noteq> None")
  case True
  then obtain a b where "coerce (ids ! i) = Some a" "coerce (ids ! j) = Some b" using assms(2,3) nth_mem by blast
  then show ?thesis using True assms nth_mem by (fastforce simp: as_torch_index_def)
next
  case False
  show ?thesis unfolding as_torch_index_def if_not_P [OF False] using assms(2,3) by (simp add: unique_inverse_iff)
qed

section \<open>GRPO\<close>

definition square_like :: "flt \<Rightarrow> bool" where
  "square_like v \<longleftrightarrow> v \<noteq> MInf \<and> (\<forall>x. v = Fin x \<longrightarrow> 0 \<le> x)"

lemma square_like_fsquare: "square_like (fsquare v)"
  by (cases v) (auto simp: square_like_def fsquare_def)

lemma square_like_fsum: "(\<And>x. x \<in> set xs \<Longrightarrow> square_like x) \<Longrightarrow> square_like (fsum xs)"
proof (induction xs)
  case (Cons x xs)
  have "square_like x" "square_like (fsum xs)" using Cons by simp_all
  then show ?case by (cases x; cases "fsum xs") (auto simp: square_like_def)
qed (simp add: square_like_def)

lemma clamp_square_like: "square_like v \<Longrightarrow> 0 < c \<Longrightarrow> fclamp_min 0 (fdiv_real v c) = fdiv_real v c"
  by (cases v) (auto simp: square_like_def)

lemma group_mean_std_of_grpo: "xs \<noteq> [] \<Longrightarrow> group_mean_std_of 0 xs = (group_mean xs, group_std xs)"
proof (cases "length xs = 1")
  case True
  then show ?thesis by (simp add: group_mean_std_of_def group_mean_def group_std_def)
next
  case False
  assume ne: "xs \<noteq> []"
  then have n: "1 < length xs" using False by (cases xs) auto
  then have "fmean xs = fdiv_real (fsum xs) (max (real (length xs)) 1)"
    using ne by (simp add: fmean_def fdiv_pos_real max_def)
  moreover have "square_like (fsum (map (\<lambda>x. fsquare (fsub x (fmean xs))) xs))"
    by (rule square_like_fsum) (auto simp: square_like_fsquare)
  moreover have "max (real (length xs) - 1) 1 = real (length xs) - 1" "0 < real (length xs) - 1" using n by auto
  ultimately show ?thesis using n False
    by (simp add: group_mean_std_of_def group_mean_def group_std_def fstd_def clamp_square_like Let_def)
qed

text \<open>
  C23: The vectorized GRPO estimator computes exactly the looped one, special values included: for
  one label per trajectory, when the integer coercion of the labels does not merge different
  labels and is not negative, both return the same advantages, with and without the normalization
  by the standard deviation.
\<close>

theorem grpo_vectorized_is_grpo:
  assumes "length ids = height rewards"
    and "\<forall>x \<in> set ids. \<forall>y \<in> set ids. coerce x = coerce y \<and> coerce x \<noteq> None \<longrightarrow> x = y"
    and "\<forall>x \<in> set ids. \<forall>n. coerce x = Some n \<longrightarrow> 0 \<le> n"
  shows "compute_grpo_vectorized_outcome_advantage coerce epsilon by_std rewards response_mask ids =
    compute_grpo_outcome_advantage epsilon by_std rewards response_mask ids"
proof -
  let ?s = "outcome_scores rewards" and ?g = "as_torch_index coerce ids"
  have len: "length ?s = length ids" "length ?g = length ids"
    using assms(1) by (simp_all add: outcome_scores_def height_def as_torch_index_def)
  have pos: "0 \<le> k" if "k \<in> set ?g" for k
    using that assms(3) by (auto simp: as_torch_index_def split: if_splits)
  let ?stats = "if ?g = [] then [] else map (\<lambda>k. group_mean_std_of 0 (members ?g ?s (int k))) [0..<Suc (nat (Max (set ?g)))]"
  have stats: "group_mean_std ?s ?g 0 = Inr ?stats"
  proof -
    have "\<not> (\<exists>k \<in> set ?g. k < 0)" using pos by (meson not_le)
    then show ?thesis unfolding group_mean_std_def using len by (simp only: raise_if_def if_False simp_thms)
  qed
  have at: "?stats ! nat (?g ! i) = (group_mean (members ids ?s (ids ! i)), group_std (members ids ?s (ids ! i)))"
    if i: "i < length ids" for i
  proof -
    have gi: "?g ! i \<in> set ?g" using i len by simp
    then have "nat (?g ! i) < Suc (nat (Max (set ?g)))" "0 \<le> ?g ! i" "?g \<noteq> []"
      using pos by (auto simp: less_Suc_eq_le nat_mono)
    then have "?stats ! nat (?g ! i) = group_mean_std_of 0 (members ?g ?s (?g ! i))" by (simp del: upt_Suc)
    also have "members ?g ?s (?g ! i) = members ids ?s (ids ! i)"
      using i len as_torch_index_iff [OF assms(2)] by (intro members_cong) simp_all
    finally show ?thesis using members_self [of ids ?s i] i len by (simp add: group_mean_std_of_grpo)
  qed
  have "map2 (\<lambda>k s. let (mean, std) = ?stats ! nat k in
        if by_std then fdiv (fsub s mean) (fadd std (Fin epsilon)) else fsub s mean) ?g ?s =
      map (\<lambda>(k, s). if by_std then fdiv (fsub s (group_mean (dict_get_or [] k (grouped ids ?s))))
             (fadd (group_std (dict_get_or [] k (grouped ids ?s))) (Fin epsilon))
           else fsub s (group_mean (dict_get_or [] k (grouped ids ?s)))) (zip ids ?s)"
    using len at by (intro nth_equalityI) (simp_all add: grouped_members)
  then show ?thesis using len
    by (simp add: compute_grpo_vectorized_outcome_advantage_def compute_grpo_outcome_advantage_def outcome_estimator_def
        stats raise_if_def Let_def)
qed

lemma grpo_vectorized_is_grpo_witness:
  "compute_grpo_vectorized_outcome_advantage (\<lambda>_ :: nat. None) (1 / 10 ^ 6) True
      \<lparr>width = 1, rows = [[Fin 1], [Fin 0], [Fin 1]]\<rparr> \<lparr>width = 1, rows = [[True], [True], [True]]\<rparr> [4 :: nat, 4, 7] =
    compute_grpo_outcome_advantage (1 / 10 ^ 6) True
      \<lparr>width = 1, rows = [[Fin 1], [Fin 0], [Fin 1]]\<rparr> \<lparr>width = 1, rows = [[True], [True], [True]]\<rparr> [4 :: nat, 4, 7]"
  by (rule grpo_vectorized_is_grpo) (simp_all add: height_def)

section \<open>RLOO\<close>

lemma mget_spread:
  assumes "wf_mat m" "length v = height m" "i < height m" "j < width m"
  shows "mget (spread_scores v m) i j = fmul (v ! i) (of_mask (mget m i j))"
  using assms by (simp add: spread_scores_def mat_simps)

lemma members_finite:
  assumes "length ks = length xs" "\<forall>x \<in> set xs. is_finite x"
  shows "fsum (members ks xs k) = Fin (\<Sum>i | i < length xs \<and> ks ! i = k. fval (xs ! i))"
    "length (members ks xs k) = card {i. i < length xs \<and> ks ! i = k}"
proof -
  let ?is = "filter (\<lambda>i. ks ! i = k) [0..<length xs]"
  have set: "set ?is = {i. i < length xs \<and> ks ! i = k}" by auto
  have "members ks xs k = map (\<lambda>i. Fin (fval (xs ! i))) ?is"
    using assms by (auto simp: members_nth)
  then show "fsum (members ks xs k) = Fin (\<Sum>i | i < length xs \<and> ks ! i = k. fval (xs ! i))"
    "length (members ks xs k) = card {i. i < length xs \<and> ks ! i = k}"
    using sum_list_distinct_conv_sum_set [of ?is "\<lambda>i. fval (xs ! i)"] distinct_card [of ?is] unfolding set
    by simp_all
qed

lemma leave_one_out:
  assumes "0 < (c :: real)"
  shows "y * (c + 1) / c - (y + z) / (c + 1) * (c + 1) / c = y - z / c" "((c + 1) * y - (y + z)) / c = y - z / c"
proof -
  have c: "c \<noteq> 0" "c + 1 \<noteq> 0" using assms by simp_all
  have q: "(y * c - z) / c = y - z / c" using c(1) by (simp add: diff_divide_distrib)
  have "y * (c + 1) - (y + z) = y * c - z" "(c + 1) * y - (y + z) = y * c - z" by (simp_all add: algebra_simps)
  moreover have "(y + z) / (c + 1) * (c + 1) = y + z" using c(2) by simp
  ultimately show "y * (c + 1) / c - (y + z) / (c + 1) * (c + 1) / c = y - z / c" "((c + 1) * y - (y + z)) / c = y - z / c"
    by (simp_all only: q diff_divide_distrib [symmetric])
qed

text \<open>
  RLOO subtracts from every finite reward the mean reward of the other trajectories of its
  prompt, and the vectorized variant agrees on every prompt with at least two trajectories. On a
  prompt with a single trajectory they differ: the looped one keeps the raw reward as the
  advantage, the vectorized one returns zero.
\<close>

theorem rloo_is_leave_one_out:
  assumes "compute_rloo_outcome_advantage rewards response_mask ids = Inr (A, A')"
    and "compute_rloo_vectorized_outcome_advantage rewards response_mask ids = Inr (V, V')"
    and "height response_mask = height rewards" "wf_mat response_mask" "\<forall>x \<in> set (outcome_scores rewards). is_finite x"
    and "i < height rewards" "j < width response_mask" "mget response_mask i j"
  shows "let s = (\<lambda>k. fval (outcome_scores rewards ! k)); others = {k. k < height rewards \<and> ids ! k = ids ! i} - {i} in
    if others = {} then mget A i j = Fin (s i) \<and> mget V i j = Fin 0
    else mget A i j = Fin (s i - (\<Sum>k \<in> others. s k) / real (card others)) \<and> mget V i j = mget A i j"
proof -
  let ?s = "outcome_scores rewards" and ?n = "height rewards" and ?inv = "unique_inverse ids"
  let ?x = "\<lambda>k. fval (?s ! k)" and ?G = "{k. k < ?n \<and> ids ! k = ids ! i}"
  have n: "length ?s = ?n" by (simp add: outcome_scores_def height_def)
  have ids: "length ids = ?n"
    using assms(2) n by (simp add: compute_rloo_vectorized_outcome_advantage_def raise_if_Inr Let_def)
  obtain y where x: "?s ! i = Fin y" and y: "?x i = y" using assms(5,6) n by (metis is_finite_iff fval.simps(1) nth_mem)
  let ?g = "members ids ?s (ids ! i)"
  have same: "members ?inv ?s (?inv ! i) = ?g"
    using ids n assms(6) by (intro members_cong) (simp_all add: unique_inverse_iff)
  have g: "fsum ?g = Fin (\<Sum>k \<in> ?G. ?x k)" "length ?g = card ?G"
    using members_finite [of ids ?s "ids ! i"] ids n assms(5) by simp_all
  have others: "card ?G = card (?G - {i}) + 1" "(\<Sum>k \<in> ?G. ?x k) = y + (\<Sum>k \<in> ?G - {i}. ?x k)"
    using assms(6) card.remove [of ?G i] by (simp_all add: sum.remove [of ?G i] y)
  define R where "R = map (\<lambda>(k, s). let n = real (length (members ids ?s k)) in if length (members ids ?s k) > 1
       then fsub (fdiv_real (fmul s (Fin n)) (n - 1)) (fdiv_real (fmul (group_mean (members ids ?s k)) (Fin n)) (n - 1))
       else s) (zip ids ?s)"
  define W where "W = map2 (\<lambda>k s. let c = real (length (members ?inv ?s k)) in
       fmul (fdiv_real (fsub (fmul (Fin c) s) (fsum (members ?inv ?s k))) (max (c - 1) 1)) (of_mask (c > 1))) ?inv ?s"
  have A: "A = spread_scores R response_mask"
    unfolding R_def by (rule outcome_estimator_Inr [OF assms(1) [unfolded compute_rloo_outcome_advantage_def]])
  have V: "V = spread_scores W response_mask"
    unfolding W_def using assms(2) by (auto simp: compute_rloo_vectorized_outcome_advantage_def raise_if_Inr Let_def)
  have len: "length R = ?n" "length W = ?n" using ids n by (simp_all add: R_def W_def)
  have AV: "mget A i j = R ! i" "mget V i j = W ! i"
    using assms(3,4,6-8) len by (simp_all add: A V mget_spread)
  have Ri: "R ! i = (let n = real (length ?g) in if length ?g > 1
       then fsub (fdiv_real (fmul (?s ! i) (Fin n)) (n - 1)) (fdiv_real (fmul (group_mean ?g) (Fin n)) (n - 1)) else ?s ! i)"
    and Wi: "W ! i = (let c = real (length ?g) in
       fmul (fdiv_real (fsub (fmul (Fin c) (?s ! i)) (fsum ?g)) (max (c - 1) 1)) (of_mask (c > 1)))"
    using ids n assms(6) same by (simp_all add: R_def W_def)
  show ?thesis
  proof (cases "?G - {i} = {}")
    case True
    then have "length ?g = 1" using others(1) g(2) by simp
    then show ?thesis using True g(1) others(2) unfolding Let_def AV Ri Wi x y by (simp add: of_mask_def)
  next
    case False
    define c where "c = real (card (?G - {i}))"
    define z where "z = (\<Sum>k \<in> ?G - {i}. ?x k)"
    have c: "0 < c" using False by (simp add: c_def card_gt_0_iff)
    then have c1: "1 \<le> c" by (simp add: c_def Suc_le_eq)
    have total: "(\<Sum>k \<in> ?G. ?x k) = y + z" using others(2) by (simp add: z_def)
    then have big: "length ?g > 1" "real (length ?g) = c + 1" using g(2) others(1) c by (simp_all add: c_def)
    then have mean: "group_mean ?g = Fin ((y + z) / (c + 1))"
      using g(1) total by (auto simp: group_mean_def fmean_def)
    have alg: "y * (c + 1) / c - (y + z) / (c + 1) * (c + 1) / c = y - z / c"
      "((c + 1) * y - (y + z)) / c = y - z / c"
      using leave_one_out [OF c] by simp_all
    have "R ! i = Fin (y - z / c)"
      unfolding Ri Let_def big(2) mean x if_P [OF big(1)] using c by (simp add: alg(1) [symmetric] del: of_nat_add)
    moreover have "W ! i = Fin (y - z / c)"
      using c c1 unfolding Wi Let_def big(2) g(1) total x by (simp add: alg(2) [symmetric] max_def of_mask_def)
    ultimately show ?thesis using False unfolding Let_def AV y c_def [symmetric] z_def [symmetric] by simp
  qed
qed

lemma rloo_is_leave_one_out_witness:
  "\<exists>A A' V V'. compute_rloo_outcome_advantage \<lparr>width = 1, rows = [[Fin 1], [Fin 0], [Fin 1]]\<rparr>
      \<lparr>width = 1, rows = [[True], [True], [True]]\<rparr> [4 :: nat, 4, 7] = Inr (A, A') \<and>
    compute_rloo_vectorized_outcome_advantage \<lparr>width = 1, rows = [[Fin 1], [Fin 0], [Fin 1]]\<rparr>
      \<lparr>width = 1, rows = [[True], [True], [True]]\<rparr> [4 :: nat, 4, 7] = Inr (V, V') \<and>
    mget A 2 0 = Fin 1 \<and> mget V 2 0 = Fin 0"
proof -
  let ?r = "\<lparr>width = 1, rows = [[Fin 1], [Fin 0], [Fin 1]]\<rparr>" and ?m = "\<lparr>width = 1, rows = [[True], [True], [True]]\<rparr>"
  obtain A A' where A: "compute_rloo_outcome_advantage ?r ?m [4 :: nat, 4, 7] = Inr (A, A')"
    by (simp add: compute_rloo_outcome_advantage_def outcome_estimator_def outcome_scores_def raise_if_def Let_def)
  obtain V V' where V: "compute_rloo_vectorized_outcome_advantage ?r ?m [4 :: nat, 4, 7] = Inr (V, V')"
    by (simp add: compute_rloo_vectorized_outcome_advantage_def outcome_scores_def raise_if_def Let_def)
  have h: "height ?r = 3" "outcome_scores ?r = [Fin 1, Fin 0, Fin 1]" by (simp_all add: height_def outcome_scores_def)
  have alone: "{k. k < (3 :: nat) \<and> [4 :: nat, 4, 7] ! k = [4, 4, 7] ! 2} - {2} = {}"
    by (auto simp: less_Suc_eq numeral_3_eq_3)
  show ?thesis
    using rloo_is_leave_one_out [OF A V, of 2 0, unfolded h Let_def if_P [OF alone]] A V
    by (auto simp: height_def wf_mat_def mget_def)
qed

section \<open>Generalized advantage estimation\<close>

text \<open>The discounted TD errors of a sequence of rewards and values, behind which the value is 0.\<close>

definition td_error :: "real \<Rightarrow> (real \<times> real) list \<Rightarrow> nat \<Rightarrow> real" where
  "td_error gamma rv k = fst (rv ! k) + gamma * (if Suc k < length rv then snd (rv ! Suc k) else 0) - snd (rv ! k)"

definition discounted_td :: "real \<Rightarrow> real \<Rightarrow> (real \<times> real) list \<Rightarrow> nat \<Rightarrow> real" where
  "discounted_td gamma lam rv k = (\<Sum>l < length rv - k. (gamma * lam) ^ l * td_error gamma rv (k + l))"

lemma td_error_Cons: "td_error gamma (x # rv) (Suc k) = td_error gamma rv k"
  by (simp add: td_error_def)

lemma discounted_td_Cons: "discounted_td gamma lam (x # rv) (Suc k) = discounted_td gamma lam rv k"
  by (simp add: discounted_td_def td_error_Cons)

lemma discounted_td_0:
  "discounted_td gamma lam (x # rv) 0 = td_error gamma (x # rv) 0 + gamma * lam * discounted_td gamma lam rv 0"
  by (simp add: discounted_td_def lessThan_Suc_atMost [symmetric] sum.lessThan_Suc_shift td_error_Cons sum_distrib_left
      mult.assoc del: sum.lessThan_Suc)

abbreviation finite_column :: "real \<times> real \<times> bool \<Rightarrow> flt \<times> flt \<times> bool" where
  "finite_column c \<equiv> (Fin (fst c), Fin (fst (snd c)), snd (snd c))"

definition valid_tokens :: "(real \<times> real \<times> bool) list \<Rightarrow> (real \<times> real) list" where
  "valid_tokens cols = map (\<lambda>(r, v, m). (r, v)) (filter (\<lambda>(r, v, m). m) cols)"

lemma gae_row_invariant:
  "\<exists>advs. gae_row (Fin gamma) (Fin lam) (map finite_column cols) =
      (advs, Fin (case valid_tokens cols of [] \<Rightarrow> 0 | c # _ \<Rightarrow> snd c), Fin (discounted_td gamma lam (valid_tokens cols) 0)) \<and>
    length advs = length cols \<and>
    vselect (map (\<lambda>(r, v, m). m) cols) advs =
      map (\<lambda>k. Fin (discounted_td gamma lam (valid_tokens cols) k)) [0..<length (valid_tokens cols)]"
proof (induction cols)
  case Nil
  then show ?case by (simp add: valid_tokens_def discounted_td_def)
next
  case (Cons c cols)
  obtain r v m where c: "c = (r, v, m)" by (cases c)
  let ?ts = "valid_tokens cols"
  let ?nv = "case ?ts of [] \<Rightarrow> 0 | c # _ \<Rightarrow> snd c"
  obtain advs where IH: "gae_row (Fin gamma) (Fin lam) (map finite_column cols) = (advs, Fin ?nv, Fin (discounted_td gamma lam ?ts 0))"
    "length advs = length cols" "vselect (map (\<lambda>(r, v, m). m) cols) advs =
      map (\<lambda>k. Fin (discounted_td gamma lam ?ts k)) [0..<length ?ts]" using Cons by blast
  show ?case
  proof (cases m)
    case True
    then have ts: "valid_tokens (c # cols) = (r, v) # ?ts" by (simp add: valid_tokens_def c)
    have "td_error gamma ((r, v) # ?ts) 0 = r + gamma * ?nv - v" by (cases ?ts) (simp_all add: td_error_def)
    then have d: "discounted_td gamma lam ((r, v) # ?ts) 0 = r + gamma * ?nv - v + gamma * lam * discounted_td gamma lam ?ts 0"
      by (simp add: discounted_td_0)
    have up: "map (\<lambda>k. Fin (discounted_td gamma lam ((r, v) # ?ts) k)) [0..<Suc (length ?ts)] =
        Fin (discounted_td gamma lam ((r, v) # ?ts) 0) # map (\<lambda>k. Fin (discounted_td gamma lam ?ts k)) [0..<length ?ts]"
      unfolding upt_conv_Cons [OF zero_less_Suc] list.map map_Suc_upt [symmetric] map_map comp_def discounted_td_Cons by (rule refl)
    show ?thesis unfolding ts using IH d up True
      by (intro exI [of _ "Fin (discounted_td gamma lam ((r, v) # ?ts) 0) # advs"])
        (simp add: c gae_step_def Let_def of_mask_def del: upt_Suc)
  next
    case False
    then have ts: "valid_tokens (c # cols) = ?ts" by (simp add: valid_tokens_def c)
    show ?thesis unfolding ts using IH False
      by (intro exI [of _ "Fin (discounted_td gamma lam ?ts 0) # advs"]) (simp add: c gae_step_def Let_def of_mask_def)
  qed
qed

text \<open>
  C24: On a row of finite rewards and values the reversed loop of generalized advantage estimation
  computes, for every valid token, the sum of the temporal-difference errors of the valid tokens
  from it on, discounted by gamma times lambda: masked observation tokens are transparent, their
  rewards and values do not enter.
\<close>

theorem gae_is_discounted_td_errors:
  "vselect (map (\<lambda>(r, v, m). m) cols) (fst (gae_row (Fin gamma) (Fin lam) (map finite_column cols))) =
    map (\<lambda>k. Fin (discounted_td gamma lam (valid_tokens cols) k)) [0..<length (valid_tokens cols)]"
  using gae_row_invariant [of gamma lam cols] by auto

end
