(* ===== verification/Dataset_Prompts.thy ===== *)
theory Dataset_Prompts
  imports R2OPL_Config ERSR
begin

text \<open>
  The question/answer data and the prompts built from it: the prompt templates and chat rendering of
  \<open>utils/prompts.py\<close>, the loader and the length-limited rendering of
  \<open>utils/custom_dataset.py\<close>, and the loader and renderer of the standalone evaluation
  (\<open>utils/evaluation.py\<close>).

  A parsed JSON document is a value of \<open>json\<close>; objects are dictionaries with distinct keys. What
  \<open>str\<close> and \<open>int\<close> make of numbers with a fraction and of containers is the parameter
  \<open>json_env\<close>, the chat template and the encoding of a tokenizer are the record
  \<open>chat_tokenizer\<close>.
\<close>

section \<open>Prompts\<close>

text \<open>The templates, with the placeholder and the doubled braces of \<open>str.format\<close>.\<close>

definition newline :: ustr where "newline = [10]"

definition backtick :: ustr where "backtick = [96]"

definition boxed_template :: "string \<Rightarrow> ustr" where
  "boxed_template content = backtick @ [92] @ lit ''boxed{{'' @ lit content @ lit ''}}'' @ backtick"

definition prompt_tail :: ustr where
  "prompt_tail = newline @ newline
     @ lit ''For a multiple-choice problem, put the option label (for example, '' @ boxed_template ''B''
     @ lit '') in the box rather than the option text. For a non-multiple-choice problem, put the final answer itself in the box.''
     @ newline @ newline @ lit ''### Problem'' @ newline @ lit ''{question}''"

definition CROSS_DOMAIN_PROMPT :: ustr where
  "CROSS_DOMAIN_PROMPT = lit ''Solve the problem step by step. Put the final answer in ''
     @ boxed_template ''...'' @ lit ''.'' @ prompt_tail"

definition EXPLICIT_STEP_PROMPT :: ustr where
  "EXPLICIT_STEP_PROMPT = lit ''Solve the problem step by step. Organize the reasoning with headings ''
     @ backtick @ lit ''### Step 1'' @ backtick @ lit '', '' @ backtick @ lit ''### Step 2'' @ backtick
     @ lit '', and so on. Put the final answer in '' @ boxed_template ''...'' @ lit ''.'' @ prompt_tail"

definition PROMPT_NAME :: ustr where "PROMPT_NAME = lit ''explicit_step_prompt''"

definition PROMPT_TEMPLATES :: "(ustr \<times> ustr) list" where
  "PROMPT_TEMPLATES = [(lit ''cross_domain_prompt'', CROSS_DOMAIN_PROMPT),
                       (lit ''explicit_step_prompt'', EXPLICIT_STEP_PROMPT)]"

text \<open>\<open>template.format(question=...)\<close>: characters, doubled braces and the one field.\<close>

datatype piece = Piece_Char nat | Piece_Question

function parse_template :: "ustr \<Rightarrow> piece list res" where
  "parse_template t =
     (if t = [] then Inr []
      else if starts_with t [123, 123] then ebind (parse_template (drop 2 t)) (\<lambda>ps. Inr (Piece_Char 123 # ps))
      else if starts_with t [125, 125] then ebind (parse_template (drop 2 t)) (\<lambda>ps. Inr (Piece_Char 125 # ps))
      else if starts_with t (lit ''{question}'')
        then ebind (parse_template (drop 10 t)) (\<lambda>ps. Inr (Piece_Question # ps))
      else if hd t = 123 \<or> hd t = 125 then Inl (ValueError ''format'')
      else ebind (parse_template (tl t)) (\<lambda>ps. Inr (Piece_Char (hd t) # ps)))"
  by pat_completeness auto
termination
  by (relation "measure length") (auto simp: neq_Nil_conv)

declare parse_template.simps [simp del]

fun piece_text :: "ustr \<Rightarrow> piece \<Rightarrow> ustr" where
  "piece_text question (Piece_Char c) = [c]"
| "piece_text question Piece_Question = question"

definition py_format :: "ustr \<Rightarrow> ustr \<Rightarrow> ustr res" where
  "py_format template question =
     ebind (parse_template template) (\<lambda>ps. Inr (concat (map (piece_text question) ps)))"

definition validated_question :: "ustr \<Rightarrow> ustr res" where
  "validated_question question =
     (let q = strip question in
      raise_if (q = []) (ValueError ''The reasoning prompt requires a non-empty question.'') (Inr q))"

definition build_prompt_messages :: "ustr \<Rightarrow> ustr \<Rightarrow> (ustr \<times> ustr) list res" where
  "build_prompt_messages question prompt_name =
     (case dict_get prompt_name PROMPT_TEMPLATES of
        None \<Rightarrow> Inl (ValueError ''Unknown prompt'')
      | Some template \<Rightarrow>
          ebind (validated_question question) (\<lambda>q.
          ebind (py_format template q) (\<lambda>content. Inr [(lit ''user'', content)])))"

definition render_prompt :: "ustr \<Rightarrow> ustr res" where
  "render_prompt question =
     ebind (validated_question question) (\<lambda>q. py_format EXPLICIT_STEP_PROMPT q)"

text \<open>
  \<open>ct_apply\<close> is \<open>apply_chat_template\<close> with \<open>tokenize=False\<close> and \<open>enable_thinking=False\<close>,
  a function of the messages and of \<open>add_generation_prompt\<close>; \<open>None\<close> when there is no such
  method. \<open>ct_encode\<close> is \<open>encode\<close> without special tokens.
\<close>

record chat_tokenizer =
  ct_apply :: "((ustr \<times> ustr) list \<Rightarrow> bool \<Rightarrow> ustr res) option"
  ct_encode :: "ustr \<Rightarrow> int list"

definition render_chat_prompt ::
    "(ustr \<Rightarrow> ustr) \<Rightarrow> chat_tokenizer \<Rightarrow> ustr \<Rightarrow> ustr \<Rightarrow> ustr \<Rightarrow> bool \<Rightarrow> ustr res" where
  "render_chat_prompt lower tk question model_family prompt_name add_generation_prompt =
     (case ct_apply tk of
        None \<Rightarrow> Inl (TypeError ''The tokenizer must provide apply_chat_template().'')
      | Some apply_chat_template \<Rightarrow>
          ebind (normalize_model_family lower model_family) (\<lambda>family.
          ebind (build_prompt_messages question prompt_name) (\<lambda>messages.
          apply_chat_template messages add_generation_prompt)))"

section \<open>Length limits\<close>

text \<open>
  The loop that both renderers share: \<open>candidate k\<close> renders the first \<open>k\<close> characters and
  says whether the result fits.
\<close>

function longest_fit :: "(nat \<Rightarrow> ('a \<times> bool) res) \<Rightarrow> int \<Rightarrow> int \<Rightarrow> 'a \<Rightarrow> 'a res" where
  "longest_fit candidate low high best =
     (if low \<le> high then
        (let middle = (low + high) div 2 in
         ebind (candidate (nat middle)) (\<lambda>(rendered, fits).
           if fits then longest_fit candidate (middle + 1) high rendered
           else longest_fit candidate low (middle - 1) best))
      else Inr best)"
  by pat_completeness auto
termination
  by (relation "measure (\<lambda>(candidate, low, high, best). nat (high + 1 - low))") auto

declare longest_fit.simps [simp del]

definition render_length_limited_chat_prompt ::
    "(ustr \<Rightarrow> ustr) \<Rightarrow> chat_tokenizer \<Rightarrow> ustr \<Rightarrow> ustr \<Rightarrow> int \<Rightarrow> (ustr \<times> bool) res" where
  "render_length_limited_chat_prompt lower tk raw_question model_family max_prompt_length =
     raise_if (max_prompt_length \<le> 0) (ValueError ''max_prompt_length must be positive'')
     (let question = strip raw_question;
          render = (\<lambda>candidate. ebind (render_chat_prompt lower tk candidate model_family PROMPT_NAME True)
            (\<lambda>prompt. Inr (prompt, length (ct_encode tk prompt)))) in
      ebind (render question) (\<lambda>(full_prompt, full_length).
      if int full_length \<le> max_prompt_length then Inr (full_prompt, False) else
      ebind (render (take 1 question)) (\<lambda>(first_prompt, first_length).
      if int first_length > max_prompt_length then Inr (full_prompt, True) else
      ebind (longest_fit (\<lambda>k. ebind (render (take k question))
               (\<lambda>(prompt, tokens). Inr (prompt, int tokens \<le> max_prompt_length)))
             1 (int (length question)) first_prompt) (\<lambda>best_prompt.
      Inr (best_prompt, True)))))"

text \<open>The evaluation's renderer takes the prompt name and does not strip the question.\<close>

definition render_length_limited_prompt ::
    "(ustr \<Rightarrow> ustr) \<Rightarrow> chat_tokenizer \<Rightarrow> ustr \<Rightarrow> ustr \<Rightarrow> ustr \<Rightarrow> int \<Rightarrow> (ustr \<times> bool) res" where
  "render_length_limited_prompt lower tk question model_family prompt_name max_prompt_length =
     raise_if (max_prompt_length \<le> 0) (ValueError ''max_prompt_length must be positive'')
     (let render = (\<lambda>candidate. ebind (render_chat_prompt lower tk candidate model_family prompt_name True)
            (\<lambda>prompt. Inr (prompt, length (ct_encode tk prompt)))) in
      ebind (render question) (\<lambda>(full_prompt, full_length).
      if int full_length \<le> max_prompt_length then Inr (full_prompt, False) else
      ebind (render (take 1 question)) (\<lambda>(first_prompt, first_length).
      if int first_length > max_prompt_length then Inr (full_prompt, True) else
      ebind (longest_fit (\<lambda>k. ebind (render (take k question))
               (\<lambda>(prompt, tokens). Inr (prompt, int tokens \<le> max_prompt_length)))
             1 (int (length question)) first_prompt) (\<lambda>best_prompt.
      Inr (best_prompt, True)))))"

text \<open>Student and Teacher prompts around the same prefix of the question.\<close>

record prompt_pair =
  pp_student_text :: ustr
  pp_teacher_text :: ustr
  pp_teacher_ids :: "int list"

definition render_pair :: "(ustr \<Rightarrow> ustr) \<Rightarrow> chat_tokenizer \<Rightarrow> chat_tokenizer \<Rightarrow> ustr \<Rightarrow> ustr \<Rightarrow> int \<Rightarrow> int \<Rightarrow> ustr
    \<Rightarrow> ustr \<Rightarrow> (prompt_pair \<times> bool) res" where
  "render_pair lower student_tk teacher_tk student_family teacher_family student_limit teacher_limit prompt_name candidate =
     ebind (render_chat_prompt lower student_tk candidate student_family prompt_name True) (\<lambda>student_text.
     ebind (render_chat_prompt lower teacher_tk candidate teacher_family prompt_name True) (\<lambda>teacher_text.
     let student_ids = ct_encode student_tk student_text;
         teacher_ids = ct_encode teacher_tk teacher_text in
     Inr (\<lparr>pp_student_text = student_text, pp_teacher_text = teacher_text, pp_teacher_ids = teacher_ids\<rparr>,
          int (length student_ids) \<le> student_limit \<and> int (length teacher_ids) \<le> teacher_limit)))"

definition render_distillation_prompt_pair ::
    "(ustr \<Rightarrow> ustr) \<Rightarrow> chat_tokenizer \<Rightarrow> chat_tokenizer \<Rightarrow> ustr \<Rightarrow> ustr \<Rightarrow> ustr \<Rightarrow> int \<Rightarrow> int \<Rightarrow> ustr
     \<Rightarrow> (prompt_pair \<times> bool) res" where
  "render_distillation_prompt_pair lower student_tk teacher_tk raw_question student_family teacher_family
       student_limit teacher_limit prompt_name =
     raise_if (min student_limit teacher_limit \<le> 0) (ValueError ''Student and Teacher prompt limits must be positive'')
     (let question = strip raw_question;
          render = render_pair lower student_tk teacher_tk student_family teacher_family student_limit teacher_limit prompt_name in
      ebind (render question) (\<lambda>(full, fits).
      if fits then Inr (full, False) else
      ebind (render (take 1 question)) (\<lambda>(best, fits).
      raise_if (\<not> fits) (ValueError ''PG-OPD prompt budget cannot fit both native chat templates and one question character'')
      (ebind (longest_fit (\<lambda>k. render (take k question)) 1 (int (length question)) best) (\<lambda>best.
      Inr (best, True))))))"

section \<open>Question and answer files\<close>

datatype json =
    J_Null
  | J_Bool bool
  | J_Int int
  | J_Real real
  | J_Str ustr
  | J_List "json list"
  | J_Obj "(ustr \<times> json) list"

record json_env =
  je_str :: "json \<Rightarrow> ustr" \<comment> \<open>\<open>str\<close> of a number with a fraction or a container\<close>
  je_int :: "json \<Rightarrow> int res" \<comment> \<open>\<open>int\<close> of anything but an integer or a truth value\<close>

fun py_str :: "json_env \<Rightarrow> json \<Rightarrow> ustr" where
  "py_str je J_Null = lit ''None''"
| "py_str je (J_Bool b) = (if b then lit ''True'' else lit ''False'')"
| "py_str je (J_Int i) = show_int i"
| "py_str je (J_Str s) = s"
| "py_str je (J_Real x) = je_str je (J_Real x)"
| "py_str je (J_List js) = je_str je (J_List js)"
| "py_str je (J_Obj d) = je_str je (J_Obj d)"

fun py_int :: "json_env \<Rightarrow> json \<Rightarrow> int res" where
  "py_int je (J_Int i) = Inr i"
| "py_int je (J_Bool b) = Inr (if b then 1 else 0)"
| "py_int je J_Null = Inl (TypeError ''int'')"
| "py_int je (J_Str s) = je_int je (J_Str s)"
| "py_int je (J_Real x) = je_int je (J_Real x)"
| "py_int je (J_List js) = je_int je (J_List js)"
| "py_int je (J_Obj d) = je_int je (J_Obj d)"

fun json_obj :: "json \<Rightarrow> (ustr \<times> json) list option" where
  "json_obj (J_Obj d) = Some d"
| "json_obj J_Null = None"
| "json_obj (J_Bool b) = None"
| "json_obj (J_Int i) = None"
| "json_obj (J_Real x) = None"
| "json_obj (J_Str s) = None"
| "json_obj (J_List js) = None"

fun json_list :: "json \<Rightarrow> json list option" where
  "json_list (J_List js) = Some js"
| "json_list J_Null = None"
| "json_list (J_Bool b) = None"
| "json_list (J_Int i) = None"
| "json_list (J_Real x) = None"
| "json_list (J_Str s) = None"
| "json_list (J_Obj d) = None"

fun json_text :: "json option \<Rightarrow> ustr option" where
  "json_text (Some (J_Str s)) = Some s"
| "json_text v = None"

record qa_record =
  qa_question :: ustr
  qa_answer :: ustr
  qa_data_source :: ustr
  qa_sample_id :: ustr
  qa_task_type :: ustr

definition validated_item :: "json_env \<Rightarrow> json \<Rightarrow> ustr \<Rightarrow> qa_record res" where
  "validated_item je item dataset_name =
     (case json_obj item of
        None \<Rightarrow> Inl (ValueError ''item must be an object'')
      | Some d \<Rightarrow>
          (case json_text (dict_get (lit ''question'') d) of
             None \<Rightarrow> Inl (ValueError ''item has an empty question'')
           | Some question \<Rightarrow>
               raise_if (strip question = []) (ValueError ''item has an empty question'')
               (case dict_get (lit ''answer'') d of
                  None \<Rightarrow> Inl (ValueError ''item has an empty answer'')
                | Some answer \<Rightarrow>
                    raise_if (answer = J_Null \<or> strip (py_str je answer) = []) (ValueError ''item has an empty answer'')
                    (Inr \<lparr>qa_question = strip question, qa_answer = strip (py_str je answer),
                          qa_data_source = dataset_name,
                          qa_sample_id = py_str je (dict_get_or (J_Str []) (lit ''id'') d),
                          qa_task_type = py_str je (dict_get_or (J_Str []) (lit ''type'') d)\<rparr>))))"

definition normalize_dataset_names :: "datasets_value \<Rightarrow> ustr list option res" where
  "normalize_dataset_names dataset_names =
     (let check = (\<lambda>given. let names = map strip given in
            raise_if (names = [] \<or> [] \<in> set names) (ValueError ''dataset_names must contain at least one non-empty name'')
            (raise_if (\<not> distinct names) (ValueError ''dataset_names contains duplicates'')
            (Inr (Some names)))) in
      case dataset_names of
        No_Datasets \<Rightarrow> Inr None
      | One_Dataset name \<Rightarrow> check [name]
      | Datasets names \<Rightarrow> check names)"

text \<open>\<open>by_name.setdefault(name, []).append(record)\<close> over the records.\<close>

definition group_records :: "qa_record list \<Rightarrow> (ustr \<times> qa_record list) list \<Rightarrow> (ustr \<times> qa_record list) list" where
  "group_records records by_name =
     fold (\<lambda>r d. dict_put (qa_data_source r) (dict_get_or [] (qa_data_source r) d @ [r]) d) records by_name"

definition select_dataset_records :: "qa_record list \<Rightarrow> datasets_value \<Rightarrow> qa_record list res" where
  "select_dataset_records records dataset_names =
     ebind (normalize_dataset_names dataset_names) (\<lambda>requested. case requested of
        None \<Rightarrow> Inr records
      | Some names \<Rightarrow>
          let by_name = group_records records [] in
          raise_if (filter (\<lambda>name. name \<notin> set (map fst by_name)) names \<noteq> []) (ValueError ''unknown dataset_names'')
          (Inr (concat (map (\<lambda>name. dict_get_or [] name by_name) names))))"

definition load_group :: "json_env \<Rightarrow> json \<Rightarrow> qa_record list res" where
  "load_group je grp =
     (case json_obj grp of
        None \<Rightarrow> Inl (ValueError ''group must be an object'')
      | Some g \<Rightarrow>
          let dataset_name = strip (py_str je (dict_get_or (J_Str []) (lit ''dataset_name'') g)) in
          (case (dataset_name = [], Option.bind (dict_get (lit ''items'') g) json_list) of
             (False, Some items) \<Rightarrow>
               ebind (py_int je (dict_get_or (J_Int (int (length items))) (lit ''num_samples'') g)) (\<lambda>declared_count.
               raise_if (declared_count \<noteq> int (length items)) (ValueError ''declared sample count'')
               (emap (\<lambda>item. validated_item je item dataset_name) items))
           | _ \<Rightarrow> Inl (ValueError ''group requires dataset_name and items'')))"

text \<open>One file: its stem and the document in it.\<close>

definition load_question_answer_records ::
    "json_env \<Rightarrow> ustr \<times> json \<Rightarrow> datasets_value \<Rightarrow> qa_record list res" where
  "load_question_answer_records je file dataset_names =
     (case json_list (snd file) of
        None \<Rightarrow> Inl (ValueError ''file must contain a JSON list'')
      | Some payload \<Rightarrow>
          let grouped = (payload \<noteq> [] \<and>
                (case json_obj (hd payload) of None \<Rightarrow> False | Some g \<Rightarrow> dict_get (lit ''items'') g \<noteq> None)) in
          ebind
            (if grouped then ebind (emap (load_group je) payload) (\<lambda>groups. Inr (concat groups))
             else emap (\<lambda>item.
               let own = (case json_obj item of None \<Rightarrow> []
                     | Some d \<Rightarrow> strip (py_str je (dict_get_or (J_Str []) (lit ''type'') d)))
               in validated_item je item (if own = [] then fst file else own)) payload)
            (\<lambda>records. select_dataset_records records dataset_names))"

section \<open>The questions of an evaluation\<close>

record eval_question =
  eq_dataset :: ustr
  eq_question_index :: nat
  eq_question :: ustr
  eq_answer :: ustr

definition load_question_records ::
    "json_env \<Rightarrow> (ustr \<times> json) list \<Rightarrow> ustr list \<Rightarrow> (eval_question list \<times> (ustr \<times> nat) list) res" where
  "load_question_records je val_files dataset_names =
     ebind (emap (\<lambda>file. load_question_answer_records je file (Datasets dataset_names)) val_files) (\<lambda>loaded.
     let by_dataset = group_records (concat loaded) (fold (\<lambda>name d. dict_put name [] d) dataset_names []) in
     raise_if (filter (\<lambda>name. dict_get_or [] name by_dataset = []) dataset_names \<noteq> [])
       (ValueError ''data.val_datasets selected benchmarks with no records'')
     (Inr (concat (map (\<lambda>dataset_name.
             map (\<lambda>(question_index, item). \<lparr>eq_dataset = dataset_name, eq_question_index = question_index,
                    eq_question = qa_question item, eq_answer = qa_answer item\<rparr>)
               (py_enumerate (dict_get_or [] dataset_name by_dataset))) dataset_names),
           fold (\<lambda>name d. dict_put name (length (dict_get_or [] name by_dataset)) d) dataset_names [])))"

record eval_task = eval_question +
  et_prompt :: ustr
  et_prompt_truncated :: bool
  et_prompt_token_ids :: "int list"

definition render_model_tasks ::
    "(ustr \<Rightarrow> ustr) \<Rightarrow> chat_tokenizer \<Rightarrow> ustr \<Rightarrow> ustr \<Rightarrow> int \<Rightarrow> int \<Rightarrow> eval_question list \<Rightarrow> eval_task list res" where
  "render_model_tasks lower tk family prompt_name max_model_len max_new_tokens questions =
     emap (\<lambda>q.
       ebind (render_length_limited_prompt lower tk (eq_question q) family prompt_name (max_model_len - max_new_tokens))
         (\<lambda>(prompt, truncated).
       Inr (eval_question.extend q
         \<lparr>et_prompt = prompt, et_prompt_truncated = truncated, et_prompt_token_ids = ct_encode tk prompt\<rparr>))) questions"

end
