(* ===== verification/Dataset_Correct.thy ===== *)
theory Dataset_Correct
  imports Dataset_Prompts
begin

text \<open>
  Correctness of the data and prompt components: the binary search finds a prefix that fits and whose
  extension does not, rendering a loaded question never raises, and the loaded evaluation questions
  are numbered without gaps or duplicates.
\<close>

section \<open>Stripped texts\<close>

lemma strip_ends:
  assumes "strip t \<noteq> []"
  shows "\<not> is_space (hd (strip t))" and "\<not> is_space (last (strip t))"
proof -
  define u where "u = rstrip t"
  have s: "strip t = dropWhile is_space u" by (simp add: strip_def lstrip_def lstrip_by_def u_def)
  show "\<not> is_space (hd (strip t))" using assms unfolding s by (rule hd_dropWhile)
  have u: "u \<noteq> []" using assms s by auto
  then have "\<not> is_space (last u)"
    using hd_dropWhile [of is_space "rev t"] by (simp add: u_def rstrip_def rstrip_by_def last_rev)
  moreover have "last (strip t) = last u" using assms unfolding s
    by (metis append_is_Nil_conv last_appendR takeWhile_dropWhile_id)
  ultimately show "\<not> is_space (last (strip t))" by simp
qed

lemma strip_fixed: "t = [] \<or> \<not> is_space (hd t) \<and> \<not> is_space (last t) \<Longrightarrow> strip t = t"
proof (elim disjE conjE)
  assume "\<not> is_space (hd t)" "\<not> is_space (last t)"
  then have "rstrip t = t" "lstrip t = t"
    by (simp_all add: rstrip_def rstrip_by_def lstrip_def lstrip_by_def dropWhile_eq_self_iff [THEN iffD2] hd_rev)
  then show ?thesis by (simp add: strip_def)
qed (simp add: strip_def lstrip_def rstrip_def lstrip_by_def rstrip_by_def)

lemma strip_strip [simp]: "strip (strip t) = strip t"
  using strip_ends [of t] by (intro strip_fixed) blast

text \<open>A non-empty prefix of a stripped text does not strip to nothing.\<close>

lemma dropWhile_all: "(\<forall>x \<in> set (dropWhile P xs). P x) \<longleftrightarrow> (\<forall>x \<in> set xs. P x)"
  by (induction xs) auto

lemma strip_eq_Nil: "strip t = [] \<longleftrightarrow> (\<forall>c \<in> set t. is_space c)"
  using dropWhile_all [of is_space "rev t"]
  by (simp add: strip_def lstrip_def rstrip_def lstrip_by_def rstrip_by_def dropWhile_eq_Nil_conv)

lemma strip_take_nonempty:
  assumes "strip t = t" "t \<noteq> []" "0 < k"
  shows "strip (take k t) \<noteq> []"
proof -
  have "\<not> is_space (hd t)" using strip_ends(1) [of t] assms by simp
  moreover have "hd t \<in> set (take k t)" using assms by (cases t; cases k) auto
  ultimately show ?thesis by (auto simp: strip_eq_Nil)
qed

section \<open>The binary search\<close>

lemma longest_fit_local:
  fixes p :: "nat \<Rightarrow> 'a"
  assumes cand: "\<And>k. 1 \<le> k \<Longrightarrow> k \<le> n \<Longrightarrow> candidate k = Inr (p k, f k)"
    and "1 \<le> lo" "hi \<le> n" "lo \<le> hi + 1" "1 \<le> n" "f 1"
    and "best = p (if lo = 1 then 1 else lo - 1)" "f (if lo = 1 then 1 else lo - 1)"
    and "hi = n \<or> \<not> f (hi + 1)"
  shows "\<exists>k. 1 \<le> k \<and> k \<le> n \<and> longest_fit candidate (int lo) (int hi) best = Inr (p k) \<and> f k \<and> (k = n \<or> \<not> f (k + 1))"
  using assms(2-)
proof (induction "hi + 1 - lo" arbitrary: lo hi best rule: less_induct)
  case less
  show ?case
  proof (cases "lo \<le> hi")
    case True
    define m where "m = (lo + hi) div 2"
    have m: "lo \<le> m" "m \<le> hi" "1 \<le> m" "m \<le> n" using True less.prems by (auto simp: m_def)
    have z: "(int lo + int hi) div 2 = int m" "int m - 1 = int (m - 1)" "int m + 1 = int (m + 1)"
      using m by (simp_all add: m_def)
    have eq: "longest_fit candidate (int lo) (int hi) best =
        (if f m then longest_fit candidate (int (m + 1)) (int hi) (p m)
         else longest_fit candidate (int lo) (int (m - 1)) best)"
      using True m by (subst longest_fit.simps) (simp add: z cand del: of_nat_Suc of_nat_add)
    show ?thesis
    proof (cases "f m")
      case fits: True
      have "\<exists>k. 1 \<le> k \<and> k \<le> n \<and> longest_fit candidate (int (m + 1)) (int hi) (p m) = Inr (p k) \<and> f k \<and> (k = n \<or> \<not> f (k + 1))"
        by (rule less.hyps) (use m fits less.prems in simp_all)
      then show ?thesis using fits by (simp only: eq if_True)
    next
      case False
      have "\<exists>k. 1 \<le> k \<and> k \<le> n \<and> longest_fit candidate (int lo) (int (m - 1)) best = Inr (p k) \<and> f k \<and> (k = n \<or> \<not> f (k + 1))"
        by (rule less.hyps) (use m False less.prems in \<open>auto simp: le_Suc_eq\<close>)
      then show ?thesis using False by (simp only: eq if_False)
    qed
  next
    case False
    then have lh: "lo = hi + 1" using less.prems by simp
    have "longest_fit candidate (int lo) (int hi) best = Inr best" using False by (subst longest_fit.simps) simp
    then show ?thesis using less.prems lh
      by (intro exI [of _ "if lo = 1 then 1 else lo - 1"]) auto
  qed
qed

section \<open>Rendering\<close>

text \<open>Both templates are well-formed, so they format every question.\<close>

lemma templates_parse:
  "\<exists>ps. parse_template CROSS_DOMAIN_PROMPT = Inr ps" "\<exists>ps. parse_template EXPLICIT_STEP_PROMPT = Inr ps"
proof -
  have "case parse_template CROSS_DOMAIN_PROMPT of Inl _ \<Rightarrow> False | Inr _ \<Rightarrow> True" by code_simp
  then show "\<exists>ps. parse_template CROSS_DOMAIN_PROMPT = Inr ps" by (auto split: sum.splits)
  have "case parse_template EXPLICIT_STEP_PROMPT of Inl _ \<Rightarrow> False | Inr _ \<Rightarrow> True" by code_simp
  then show "\<exists>ps. parse_template EXPLICIT_STEP_PROMPT = Inr ps" by (auto split: sum.splits)
qed

lemma prompt_template_cases:
  assumes "prompt_name \<in> set prompt_templates"
  shows "\<exists>template ps. dict_get prompt_name PROMPT_TEMPLATES = Some template \<and> parse_template template = Inr ps"
proof -
  have "lit ''cross_domain_prompt'' \<noteq> lit ''explicit_step_prompt''" by code_simp
  then show ?thesis using assms templates_parse
    by (auto simp: prompt_templates_def PROMPT_TEMPLATES_def dict_get_def)
qed

lemma PROMPT_NAME_known: "PROMPT_NAME \<in> set prompt_templates"
  by (simp add: PROMPT_NAME_def prompt_templates_def del: lit_Cons)

definition renders :: "(ustr \<Rightarrow> ustr) \<Rightarrow> chat_tokenizer \<Rightarrow> ustr \<Rightarrow> bool" where
  "renders lower tk family \<longleftrightarrow>
     (\<exists>fam. normalize_model_family lower family = Inr fam) \<and>
     (\<exists>render. ct_apply tk = Some render \<and> (\<forall>messages generation. \<exists>t. render messages generation = Inr t))"

lemma render_chat_prompt_total:
  assumes "renders lower tk family" "prompt_name \<in> set prompt_templates" "strip question \<noteq> []"
  shows "\<exists>t. render_chat_prompt lower tk question family prompt_name b = Inr t"
proof -
  obtain fam render where f: "normalize_model_family lower family = Inr fam" "ct_apply tk = Some render"
    "\<forall>messages generation. \<exists>t. render messages generation = Inr t"
    using assms(1) by (auto simp: renders_def)
  obtain template ps where "dict_get prompt_name PROMPT_TEMPLATES = Some template" "parse_template template = Inr ps"
    using prompt_template_cases [OF assms(2)] by blast
  then show ?thesis using f assms(3)
    by (simp add: render_chat_prompt_def build_prompt_messages_def validated_question_def py_format_def)
qed

lemma render_chat_prompt_empty:
  "strip question = [] \<Longrightarrow> \<nexists>t. render_chat_prompt lower tk question family prompt_name b = Inr t"
  by (auto simp: render_chat_prompt_def build_prompt_messages_def validated_question_def Let_def res_simps
      split: option.splits)

text \<open>The common body: what the limited rendering of a stripped question returns.\<close>

definition limited :: "(nat \<Rightarrow> ustr) \<Rightarrow> (ustr \<Rightarrow> nat) \<Rightarrow> nat \<Rightarrow> int \<Rightarrow> ustr \<times> bool \<Rightarrow> bool" where
  "limited text_of tokens n limit result \<longleftrightarrow>
     (let fits = (\<lambda>k. int (tokens (text_of k)) \<le> limit) in
      (\<exists>k. result = (text_of k, k < n) \<and> 1 \<le> k \<and> k \<le> n \<and> fits k \<and> (k < n \<longrightarrow> \<not> fits (k + 1)))
      \<or> (result = (text_of n, True) \<and> \<not> fits 1 \<and> \<not> fits n))"

lemma render_limited:
  assumes r: "renders lower tk family" and p: "prompt_name \<in> set prompt_templates"
    and q: "strip question = question" "question \<noteq> []" and limit: "0 < limit"
  obtains text_of result where
    "\<And>k. 1 \<le> k \<Longrightarrow> render_chat_prompt lower tk (take k question) family prompt_name True = Inr (text_of k)"
    and "render_length_limited_prompt lower tk question family prompt_name limit = Inr result"
    and "limited text_of (\<lambda>t. length (ct_encode tk t)) (length question) limit result"
proof -
  define text_of where "text_of k = (case render_chat_prompt lower tk (take k question) family prompt_name True of
      Inr t \<Rightarrow> t | Inl _ \<Rightarrow> [])" for k
  define n where "n = length question"
  define f where "f k = (int (length (ct_encode tk (text_of k))) \<le> limit)" for k
  have t: "render_chat_prompt lower tk (take k question) family prompt_name True = Inr (text_of k)" if "1 \<le> k" for k
  proof -
    have "strip (take k question) \<noteq> []" using strip_take_nonempty [OF q] that by simp
    from render_chat_prompt_total [OF r p this, of True] show ?thesis by (auto simp: text_of_def)
  qed
  have n: "1 \<le> n" "take n question = question" "length question = n" using q by (auto simp: n_def Suc_le_eq)
  have full: "render_chat_prompt lower tk question family prompt_name True = Inr (text_of n)"
    using t [OF n(1)] n by simp
  let ?cand = "\<lambda>k. ebind (ebind (render_chat_prompt lower tk (take k question) family prompt_name True)
      (\<lambda>prompt. Inr (prompt, length (ct_encode tk prompt)))) (\<lambda>(prompt, tokens). Inr (prompt, int tokens \<le> limit))"
  have cand: "?cand k = Inr (text_of k, f k)" if "1 \<le> k" for k using t [OF that] by (simp add: f_def)
  show ?thesis
  proof (cases "f n")
    case True
    then have "render_length_limited_prompt lower tk question family prompt_name limit = Inr (text_of n, False)"
      using limit full by (simp add: render_length_limited_prompt_def f_def)
    moreover have "limited text_of (\<lambda>t. length (ct_encode tk t)) n limit (text_of n, False)"
      using True n(1) by (auto simp: limited_def f_def)
    ultimately show ?thesis using that t by (simp add: n(3))
  next
    case full_long: False
    show ?thesis
    proof (cases "f 1")
      case True
      have "\<exists>k. 1 \<le> k \<and> k \<le> n \<and> longest_fit ?cand (int 1) (int n) (text_of 1) = Inr (text_of k) \<and> f k \<and> (k = n \<or> \<not> f (k + 1))"
        by (rule longest_fit_local) (use cand True n in simp_all)
      then obtain k where k: "1 \<le> k" "k \<le> n" "longest_fit ?cand 1 (int n) (text_of 1) = Inr (text_of k)" "f k"
        "k = n \<or> \<not> f (k + 1)" by auto
      then have "k < n" using full_long by (metis order_le_less)
      have "render_length_limited_prompt lower tk question family prompt_name limit = Inr (text_of k, True)"
        using limit full full_long True t [of 1] k(3)
        by (simp add: render_length_limited_prompt_def f_def n(3))
      moreover have "limited text_of (\<lambda>t. length (ct_encode tk t)) n limit (text_of k, True)"
        using k \<open>k < n\<close> by (auto simp: limited_def f_def)
      ultimately show ?thesis using that t by (simp add: n(3))
    next
      case False
      have "render_length_limited_prompt lower tk question family prompt_name limit = Inr (text_of n, True)"
        using limit full full_long False t [of 1]
        by (simp add: render_length_limited_prompt_def f_def n(3))
      moreover have "limited text_of (\<lambda>t. length (ct_encode tk t)) n limit (text_of n, True)"
        using full_long False by (auto simp: limited_def f_def)
      ultimately show ?thesis using that t by (simp add: n(3))
    qed
  qed
qed

lemma training_prompt_is_evaluation_prompt:
  "render_length_limited_chat_prompt lower tk question family limit =
     render_length_limited_prompt lower tk (strip question) family PROMPT_NAME limit"
  by (simp add: render_length_limited_chat_prompt_def render_length_limited_prompt_def Let_def)

section \<open>Loading\<close>

definition clean_record :: "qa_record \<Rightarrow> bool" where
  "clean_record r \<longleftrightarrow> qa_question r \<noteq> [] \<and> strip (qa_question r) = qa_question r
     \<and> qa_answer r \<noteq> [] \<and> strip (qa_answer r) = qa_answer r"

lemma validated_item_clean: "validated_item je item name = Inr r \<Longrightarrow> clean_record r \<and> qa_data_source r = name"
  by (auto simp: validated_item_def res_simps clean_record_def split: option.splits)

lemma emap_Inr_all:
  "emap f xs = Inr ys \<Longrightarrow> (\<And>x y. x \<in> set xs \<Longrightarrow> f x = Inr y \<Longrightarrow> P y) \<Longrightarrow> \<forall>y \<in> set ys. P y"
  by (auto simp: emap_Inr list_all2_conv_all_nth in_set_conv_nth) (metis nth_mem)

lemma dict_get_or_Nil [simp]: "dict_get_or z k [] = z"
  by (simp add: dict_get_or_def)

lemma load_group_clean: "load_group je g = Inr rs \<Longrightarrow> \<forall>r \<in> set rs. clean_record r"
  by (auto simp: load_group_def Let_def res_simps dest: validated_item_clean split: option.splits bool.splits prod.splits
      simp del: emap_Inr elim!: emap_Inr_all [THEN bspec])

text \<open>Grouping keeps the order of the file.\<close>

lemma group_records_get:
  "dict_get_or [] name (group_records rs d) = dict_get_or [] name d @ filter (\<lambda>r. qa_data_source r = name) rs"
proof (induction rs arbitrary: d)
  case (Cons r rs)
  then show ?case by (simp add: group_records_def)
qed (simp add: group_records_def)

lemma select_subset: "select_dataset_records rs names = Inr rs' \<Longrightarrow> set rs' \<subseteq> set rs"
  by (auto simp: select_dataset_records_def Let_def res_simps group_records_get split: option.splits)

lemma select_distinct: "select_dataset_records rs (Datasets names) = Inr rs' \<Longrightarrow> distinct names"
  by (auto simp: select_dataset_records_def normalize_dataset_names_def Let_def res_simps distinct_map
      split: option.splits)

lemma load_records_clean:
  assumes "load_question_answer_records je file names = Inr rs"
  shows "\<forall>r \<in> set rs. clean_record r"
proof -
  obtain payload rs0 where f: "json_list (snd file) = Some payload" and s: "select_dataset_records rs0 names = Inr rs"
    and l: "(\<exists>gs. emap (load_group je) payload = Inr gs \<and> rs0 = concat gs) \<or>
      (\<exists>name. emap (\<lambda>item. validated_item je item (name item)) payload = Inr rs0)"
    using assms by (fastforce simp: load_question_answer_records_def Let_def ebind_Inr split: option.splits if_splits)
  have "\<forall>r \<in> set rs0. clean_record r"
    using l
  proof
    assume "\<exists>gs. emap (load_group je) payload = Inr gs \<and> rs0 = concat gs"
    then obtain gs where "emap (load_group je) payload = Inr gs" "rs0 = concat gs" by blast
    moreover from this(1) have "\<forall>g \<in> set gs. \<forall>r \<in> set g. clean_record r"
      by (rule emap_Inr_all) (rule load_group_clean)
    ultimately show ?thesis by auto
  next
    assume "\<exists>name. emap (\<lambda>item. validated_item je item (name item)) payload = Inr rs0"
    then show ?thesis by (auto elim!: emap_Inr_all [THEN bspec] dest: validated_item_clean)
  qed
  then show ?thesis using select_subset [OF s] by blast
qed

lemma dict_put_new: "k \<notin> fst ` set d \<Longrightarrow> dict_put k v d = d @ [(k, v)]"
  by (induction d) auto

lemma fold_dict_put:
  "distinct names \<Longrightarrow> set names \<inter> fst ` set d = {} \<Longrightarrow>
     fold (\<lambda>name. dict_put name (g name)) names d = d @ map (\<lambda>name. (name, g name)) names"
  by (induction names arbitrary: d) (auto simp: dict_put_new)

text \<open>The key of a question, and the keys a table of counts asks for.\<close>

definition question_key :: "('a eval_question_scheme) \<Rightarrow> ustr \<times> nat" where
  "question_key q = (eq_dataset q, eq_question_index q)"

definition expected_keys :: "(ustr \<times> nat) list \<Rightarrow> (ustr \<times> nat) list" where
  "expected_keys counts = concat (map (\<lambda>(dataset, count). map (Pair dataset) [0..<count]) counts)"

lemma load_question_records_keys:
  assumes "load_question_records je files names = Inr (questions, counts)"
  shows "map question_key questions = expected_keys counts"
    and "map fst counts = names" and "distinct names" and "\<forall>c \<in> set counts. 0 < snd c"
    and "\<forall>q \<in> set questions. eq_question q \<noteq> [] \<and> strip (eq_question q) = eq_question q"
proof -
  obtain loaded where l: "emap (\<lambda>file. load_question_answer_records je file (Datasets names)) files = Inr loaded"
    using assms by (auto simp: load_question_records_def ebind_Inr)
  define by_dataset where "by_dataset = group_records (concat loaded) (fold (\<lambda>name. dict_put name []) names [])"
  define items where "items name = dict_get_or [] name by_dataset" for name
  have q: "questions = concat (map (\<lambda>name. map (\<lambda>(i, item). \<lparr>eq_dataset = name, eq_question_index = i,
              eq_question = qa_question item, eq_answer = qa_answer item\<rparr>) (py_enumerate (items name))) names)"
    and c: "counts = fold (\<lambda>name. dict_put name (length (items name))) names []"
    and ne: "\<forall>name \<in> set names. items name \<noteq> []"
    using assms l by (auto simp: load_question_records_def Let_def res_simps by_dataset_def [symmetric] items_def filter_empty_conv
        simp del: emap_Inr)
  have nil: "dict_get_or [] name (fold (\<lambda>name. dict_put name []) ns d) = []" if "dict_get_or [] name d = []"
    for name ns and d :: "(ustr \<times> qa_record list) list"
    using that by (induction ns arbitrary: d) auto
  have sub: "set (items name) \<subseteq> set (concat loaded)" for name
    using nil [of name "[]" names] by (auto simp: items_def by_dataset_def group_records_get)
  show d: "distinct names"
  proof (cases files)
    case Nil
    then have "names = []" using l ne sub by fastforce
    then show ?thesis by simp
  next
    case (Cons head_file fs)
    then obtain rs where "load_question_answer_records je head_file (Datasets names) = Inr rs" using l by (auto simp: ebind_Inr)
    then obtain rs0 where "select_dataset_records rs0 (Datasets names) = Inr rs"
      by (auto simp: load_question_answer_records_def Let_def ebind_Inr split: option.splits)
    then show ?thesis by (rule select_distinct)
  qed
  have cs: "counts = map (\<lambda>name. (name, length (items name))) names"
    using fold_dict_put [OF d, of "[]" "\<lambda>name. length (items name)"] by (simp add: c)
  then show "map fst counts = names" "\<forall>c \<in> set counts. 0 < snd c" using ne by (auto simp: comp_def)
  have "map question_key (map (\<lambda>(i, item). \<lparr>eq_dataset = name, eq_question_index = i,
              eq_question = qa_question item, eq_answer = qa_answer item\<rparr>) (py_enumerate xs)) = map (Pair name) [0..<length xs]"
    for name and xs :: "qa_record list" by (rule nth_equalityI) (auto simp: question_key_def)
  then show "map question_key questions = expected_keys counts"
    by (simp add: q cs expected_keys_def map_concat comp_def)
  have "\<forall>r \<in> set (concat loaded). clean_record r"
  proof -
    from l have "\<forall>rs \<in> set loaded. \<forall>r \<in> set rs. clean_record r"
      by (rule emap_Inr_all) (rule load_records_clean)
    then show ?thesis by auto
  qed
  then have "\<forall>item \<in> set (items name). clean_record item" for name using sub by blast
  moreover have "\<exists>name. \<exists>item \<in> set (items name). eq_question q = qa_question item" if "q \<in> set questions" for q
    using that by (auto simp: q set_py_enumerate) (metis nth_mem)
  ultimately show "\<forall>q \<in> set questions. eq_question q \<noteq> [] \<and> strip (eq_question q) = eq_question q"
    by (metis clean_record_def)
qed

section \<open>Properties\<close>

lemma distinct_expected_keys: "distinct (map fst counts) \<Longrightarrow> distinct (expected_keys counts)"
proof (induction counts)
  case (Cons c counts)
  then show ?case
    by (cases c) (auto simp: expected_keys_def distinct_map inj_on_def image_iff)
qed (simp add: expected_keys_def)


definition example_chat :: chat_tokenizer where
  "example_chat = \<lparr>ct_apply = Some (\<lambda>messages generation. Inr (concat (map snd messages))),
                   ct_encode = (\<lambda>t. map int t)\<rparr>"

definition example_file :: "ustr \<times> json" where
  "example_file = (lit ''gsm'', J_List [
     J_Obj [(lit ''question'', J_Str (lit '' 1+1? '')), (lit ''answer'', J_Int 2)],
     J_Obj [(lit ''question'', J_Str (lit ''2+2?'')), (lit ''answer'', J_Str (lit ''4''))]])"

definition example_json :: json_env where
  "example_json = \<lparr>je_str = (\<lambda>_. []), je_int = (\<lambda>_. Inl (TypeError ''int''))\<rparr>"

lemma example_renders: "renders (\<lambda>t. t) example_chat (lit ''qwen3-8b'')"
proof -
  have "case normalize_model_family (\<lambda>t. t) (lit ''qwen3-8b'') of Inl _ \<Rightarrow> False | Inr _ \<Rightarrow> True" by code_simp
  then have "\<exists>fam. normalize_model_family (\<lambda>t. t) (lit ''qwen3-8b'') = Inr fam" by (auto split: sum.splits)
  then show ?thesis by (simp add: renders_def example_chat_def)
qed




end
