(* ===== verification/Eval_Pool.thy ===== *)
theory Eval_Pool
  imports Prelude
begin

text \<open>
  The worker pool of the evaluation (\<open>utils/evaluation.py\<close>, \<open>_gpu_worker\<close>,
  \<open>_await_messages\<close>, \<open>_stop_workers\<close>, \<open>GpuPool\<close>): one process per GPU, a
  shared job queue, a shared result queue, and the driver that waits for the messages.

  The processes are a state machine. A state holds the worker states, both queues and the phase of
  the driver; an event is one step of one process. A message put by a worker reaches the driver in
  any order, so \<open>Receives k\<close> may pick any message under way, and \<open>Times_Out\<close> may
  happen whenever the driver waits: this covers every timing of the real queues. A worker may also
  die at any moment (\<open>Crashes\<close>). The job, its kind and what the worker computes for it are
  parameters, which \<open>Evaluation\<close> instantiates. Log lines and heartbeats are left out.
\<close>

section \<open>Processes, messages and events\<close>

datatype 'j worker = Loading | Idle | Busy nat 'j | Exited

text \<open>
  The message dictionaries: \<open>Ready\<close> and \<open>Ready_Failed\<close> have kind \<open>ready\<close>
  and \<open>ok\<close> true and false, \<open>Done\<close> and \<open>Failed\<close> the kind of the job. They
  carry the GPU, the batch id and the answer or the exception.
\<close>

datatype 'r message =
    Ready nat
  | Ready_Failed nat exn
  | Done string nat nat 'r
  | Failed string nat nat exn

fun message_kind :: "'r message \<Rightarrow> string" where
  "message_kind (Ready g) = ''ready''"
| "message_kind (Ready_Failed g e) = ''ready''"
| "message_kind (Done k g i r) = k"
| "message_kind (Failed k g i e) = k"

fun message_ok :: "'r message \<Rightarrow> bool" where
  "message_ok (Ready g) = True"
| "message_ok (Ready_Failed g e) = False"
| "message_ok (Done k g i r) = True"
| "message_ok (Failed k g i e) = False"

text \<open>\<open>message["batch_id"]\<close>.\<close>

fun message_batch_id :: "'r message \<Rightarrow> nat res" where
  "message_batch_id (Done k g i r) = Inr i"
| "message_batch_id (Failed k g i e) = Inr i"
| "message_batch_id (Ready g) = Inl (KeyError ''batch_id'')"
| "message_batch_id (Ready_Failed g e) = Inl (KeyError ''batch_id'')"

datatype 'r phase =
    Starting "'r message list"
  | Running string nat "'r message list"
  | Returned "'r message list"
  | Raised exn

record ('j, 'r) pool =
  pool_gpus :: "nat list"
  workers :: "'j worker list"
  job_queue :: "(nat \<times> 'j) option list"
  result_queue :: "'r message list"
  phase :: "'r phase"

datatype event =
    Loads nat
  | Load_Faults nat exn
  | Takes nat
  | Finishes nat
  | Faults nat exn
  | Crashes nat
  | Receives nat
  | Times_Out

section \<open>The worker process\<close>

definition worker_at :: "nat \<Rightarrow> ('j, 'r) pool \<Rightarrow> 'j worker option" where
  "worker_at w st = (if w < length (workers st) then Some (workers st ! w) else None)"

definition update_worker :: "nat \<Rightarrow> 'j worker \<Rightarrow> ('j, 'r) pool \<Rightarrow> ('j, 'r) pool" where
  "update_worker w x st = st\<lparr>workers := (workers st)[w := x]\<rparr>"

definition put_result :: "'r message \<Rightarrow> ('j, 'r) pool \<Rightarrow> ('j, 'r) pool" where
  "put_result m st = st\<lparr>result_queue := result_queue st @ [m]\<rparr>"

text \<open>Loading the model: a ready message, or a failure message and the end of the process.\<close>

definition worker_loads :: "nat \<Rightarrow> exn option \<Rightarrow> ('j, 'r) pool \<Rightarrow> ('j, 'r) pool option" where
  "worker_loads w fault st = (case worker_at w st of
      Some Loading \<Rightarrow> Some (case fault of
          None \<Rightarrow> put_result (Ready (pool_gpus st ! w)) (update_worker w Idle st)
        | Some e \<Rightarrow> put_result (Ready_Failed (pool_gpus st ! w) e) (update_worker w Exited st))
    | _ \<Rightarrow> None)"

text \<open>\<open>job = job_queue.get()\<close>: the end marker ends the process.\<close>

definition worker_takes :: "nat \<Rightarrow> ('j, 'r) pool \<Rightarrow> ('j, 'r) pool option" where
  "worker_takes w st = (case (worker_at w st, job_queue st) of
      (Some Idle, Some (i, j) # q) \<Rightarrow> Some ((update_worker w (Busy i j) st)\<lparr>job_queue := q\<rparr>)
    | (Some Idle, None # q) \<Rightarrow> Some ((update_worker w Exited st)\<lparr>job_queue := q\<rparr>)
    | _ \<Rightarrow> None)"

text \<open>The job's message: an exception is reported and ends the process.\<close>

definition worker_answers ::
    "('j \<Rightarrow> string) \<Rightarrow> nat \<Rightarrow> (nat \<Rightarrow> 'j \<Rightarrow> 'r res) \<Rightarrow> ('j, 'r) pool \<Rightarrow> ('j, 'r) pool option" where
  "worker_answers kind w handle st = (case worker_at w st of
      Some (Busy i j) \<Rightarrow> Some (case handle (pool_gpus st ! w) j of
          Inr r \<Rightarrow> put_result (Done (kind j) (pool_gpus st ! w) i r) (update_worker w Idle st)
        | Inl e \<Rightarrow> put_result (Failed (kind j) (pool_gpus st ! w) i e) (update_worker w Exited st))
    | _ \<Rightarrow> None)"

definition worker_crashes :: "nat \<Rightarrow> ('j, 'r) pool \<Rightarrow> ('j, 'r) pool option" where
  "worker_crashes w st = (case worker_at w st of
      None \<Rightarrow> None | Some Exited \<Rightarrow> None | Some _ \<Rightarrow> Some (update_worker w Exited st))"

section \<open>The driver\<close>

text \<open>\<open>_await_messages\<close>: what it does with one message, and when a wait times out.\<close>

definition accept_message :: "string \<Rightarrow> 'r message \<Rightarrow> 'r message list \<Rightarrow> 'r message list res" where
  "accept_message expected m messages =
     raise_if (message_kind m \<noteq> expected) (RuntimeError ''Unexpected worker message kind'')
    (raise_if (\<not> message_ok m) (RuntimeError ''GPU failed'')
    (Inr (messages @ [m])))"

definition unexpected_worker_exits :: "('j, 'r) pool \<Rightarrow> bool" where
  "unexpected_worker_exits st = (\<exists>w \<in> set (workers st). w = Exited)"

definition driver_times_out :: "('j, 'r) pool \<Rightarrow> ('j, 'r) pool option" where
  "driver_times_out st = (case phase st of
      Returned _ \<Rightarrow> None | Raised _ \<Rightarrow> None
    | _ \<Rightarrow> Some (if unexpected_worker_exits st
                then st\<lparr>phase := Raised (RuntimeError ''GPU workers exited before all messages arrived'')\<rparr>
                else st))"

text \<open>\<open>GpuPool.run\<close>: number the jobs, wait for as many messages, sort them by batch id.\<close>

definition start_run :: "('j \<Rightarrow> string) \<Rightarrow> 'j list \<Rightarrow> ('j, 'r) pool \<Rightarrow> ('j, 'r) pool" where
  "start_run kind jobs st = (case jobs of
      [] \<Rightarrow> st\<lparr>phase := Returned []\<rparr>
    | j # _ \<Rightarrow> st\<lparr>job_queue := job_queue st @ map Some (py_enumerate jobs),
                 phase := Running (kind j) (length jobs) []\<rparr>)"

definition sort_messages :: "'r message list \<Rightarrow> 'r message list res" where
  "sort_messages messages = ebind (emap message_batch_id messages) (\<lambda>ids.
     Inr (map snd (sort_key fst (zip ids messages))))"

definition finish_run :: "'r message list \<Rightarrow> 'r phase" where
  "finish_run messages = (case sort_messages messages of Inl e \<Rightarrow> Raised e | Inr ms \<Rightarrow> Returned ms)"

definition driver_receives ::
    "('j \<Rightarrow> string) \<Rightarrow> 'j list \<Rightarrow> nat \<Rightarrow> ('j, 'r) pool \<Rightarrow> ('j, 'r) pool option" where
  "driver_receives kind jobs k st =
     (if k < length (result_queue st) then
        (let m = result_queue st ! k;
             rest = st\<lparr>result_queue := take k (result_queue st) @ drop (Suc k) (result_queue st)\<rparr>
         in case phase st of
              Starting ms \<Rightarrow> Some (case accept_message ''ready'' m ms of
                  Inl e \<Rightarrow> rest\<lparr>phase := Raised e\<rparr>
                | Inr ms' \<Rightarrow> if length ms' < length (workers st) then rest\<lparr>phase := Starting ms'\<rparr>
                            else start_run kind jobs rest)
            | Running expected n ms \<Rightarrow> Some (case accept_message expected m ms of
                  Inl e \<Rightarrow> rest\<lparr>phase := Raised e\<rparr>
                | Inr ms' \<Rightarrow> if length ms' < n then rest\<lparr>phase := Running expected n ms'\<rparr>
                            else rest\<lparr>phase := finish_run ms'\<rparr>)
            | Returned _ \<Rightarrow> None
            | Raised _ \<Rightarrow> None)
      else None)"

section \<open>The pool\<close>

text \<open>\<open>GpuPool.__init__\<close> and \<open>__enter__\<close>: every process is started and loads the model.\<close>

definition initial_pool :: "('j \<Rightarrow> string) \<Rightarrow> 'j list \<Rightarrow> nat list \<Rightarrow> ('j, 'r) pool" where
  "initial_pool kind jobs gpus =
     (let st = \<lparr>pool_gpus = gpus, workers = replicate (length gpus) Loading, job_queue = [],
                result_queue = [], phase = Starting []\<rparr>
      in if gpus = [] then start_run kind jobs st else st)"

fun pool_step :: "('j \<Rightarrow> string) \<Rightarrow> (nat \<Rightarrow> 'j \<Rightarrow> 'r res) \<Rightarrow> 'j list \<Rightarrow> event \<Rightarrow>
    ('j, 'r) pool \<Rightarrow> ('j, 'r) pool option" where
  "pool_step kind handle jobs (Loads w) st = worker_loads w None st"
| "pool_step kind handle jobs (Load_Faults w e) st = worker_loads w (Some e) st"
| "pool_step kind handle jobs (Takes w) st = worker_takes w st"
| "pool_step kind handle jobs (Finishes w) st = worker_answers kind w handle st"
| "pool_step kind handle jobs (Faults w e) st = worker_answers kind w (\<lambda>_ _. Inl e) st"
| "pool_step kind handle jobs (Crashes w) st = worker_crashes w st"
| "pool_step kind handle jobs (Receives k) st = driver_receives kind jobs k st"
| "pool_step kind handle jobs Times_Out st = driver_times_out st"

fun pool_steps :: "('j \<Rightarrow> string) \<Rightarrow> (nat \<Rightarrow> 'j \<Rightarrow> 'r res) \<Rightarrow> 'j list \<Rightarrow> event list \<Rightarrow>
    ('j, 'r) pool \<Rightarrow> ('j, 'r) pool option" where
  "pool_steps kind handle jobs [] st = Some st"
| "pool_steps kind handle jobs (e # es) st = (case pool_step kind handle jobs e st of
      None \<Rightarrow> None | Some st' \<Rightarrow> pool_steps kind handle jobs es st')"

fun is_final :: "'r phase \<Rightarrow> bool" where
  "is_final (Returned ms) = True"
| "is_final (Raised e) = True"
| "is_final (Starting ms) = False"
| "is_final (Running k n ms) = False"

text \<open>
  \<open>with GpuPool(...) as pool: messages = pool.run(jobs)\<close> under one schedule: \<open>None\<close>
  when the schedule is impossible or ends before the driver does.
\<close>

definition run_pool :: "('j \<Rightarrow> string) \<Rightarrow> (nat \<Rightarrow> 'j \<Rightarrow> 'r res) \<Rightarrow> nat list \<Rightarrow> 'j list \<Rightarrow> event list \<Rightarrow>
    'r message list res option" where
  "run_pool kind handle gpus jobs schedule =
     (case pool_steps kind handle jobs schedule (initial_pool kind jobs gpus) of
        None \<Rightarrow> None
      | Some st \<Rightarrow> (case phase st of
            Returned ms \<Rightarrow> Some (Inr ms) | Raised e \<Rightarrow> Some (Inl e) | _ \<Rightarrow> None))"

text \<open>
  \<open>_stop_workers\<close>: at once after an exception; else one end marker per process, a wait during
  which the processes move, and termination of those still alive.
\<close>

definition terminate_all :: "('j, 'r) pool \<Rightarrow> ('j, 'r) pool" where
  "terminate_all st = st\<lparr>workers := map (\<lambda>_. Exited) (workers st)\<rparr>"

definition stop_workers :: "('j \<Rightarrow> string) \<Rightarrow> (nat \<Rightarrow> 'j \<Rightarrow> 'r res) \<Rightarrow> bool \<Rightarrow> event list \<Rightarrow>
    ('j, 'r) pool \<Rightarrow> ('j, 'r) pool option" where
  "stop_workers kind handle force_stop waited st =
     (if force_stop then Some (terminate_all st)
      else map_option terminate_all (pool_steps kind handle [] waited
        (st\<lparr>job_queue := job_queue st @ replicate (length (workers st)) None\<rparr>)))"

end
