(* ===== verification/Evaluation.thy ===== *)
theory Evaluation
  imports Eval_Pool Dataset_Prompts
begin

text \<open>
  The standalone evaluation (\<open>utils/evaluation.py\<close>): the checked numeric settings, batching,
  the jobs a GPU worker runs, post-hoc scoring at several token limits, the aggregation into Avg@n and
  Pass@n, and the two drivers \<open>evaluate_model\<close> and \<open>run_generation_phase\<close> over the pool of
  \<open>Eval_Pool\<close>.

  The language model is the parameter \<open>we_llm\<close>, from the engine arguments of a worker and the
  requests of one call (prompt ids and sampling parameters) to the completions of each; the tokenizer gives \<open>decode\<close>, the
  end-of-sequence ids and the padding id; the verifier is a function of response, answer and
  dataset. Token limits are positive by the configuration check. Times and log lines are left out.
\<close>

section \<open>Numeric settings\<close>

datatype yaml = Y_None | Y_Bool bool | Y_Int int | Y_Float flt | Y_Str ustr | Y_List "yaml list" | Y_Map "(ustr \<times> yaml) list"

fun yaml_map :: "yaml \<Rightarrow> (ustr \<times> yaml) list res" where
  "yaml_map (Y_Map d) = Inr d"
| "yaml_map v = Inl (ValueError ''must be a YAML mapping'')"

fun yaml_integer :: "int option \<Rightarrow> yaml \<Rightarrow> int res" where
  "yaml_integer minimum (Y_Int i) =
     raise_if (case minimum of None \<Rightarrow> False | Some m \<Rightarrow> i < m) (ValueError ''must be at least'') (Inr i)"
| "yaml_integer minimum v = Inl (ValueError ''must be an integer'')"

fun yaml_number :: "yaml \<Rightarrow> flt res" where
  "yaml_number (Y_Int i) = Inr (Fin (of_int i))"
| "yaml_number (Y_Float x) = Inr x"
| "yaml_number v = Inl (ValueError ''must be numeric'')"

fun yaml_boolean :: "yaml \<Rightarrow> bool res" where
  "yaml_boolean (Y_Bool b) = Inr b"
| "yaml_boolean v = Inl (ValueError ''must be true or false'')"

definition yaml_get :: "string \<Rightarrow> yaml \<Rightarrow> (ustr \<times> yaml) list \<Rightarrow> yaml" where
  "yaml_get key dflt d = dict_get_or dflt (lit key) d"

record sampling_settings =
  sa_temperature :: flt
  sa_top_p :: flt
  sa_top_k :: int
  sa_n :: int
  sa_max_new_tokens :: int

definition load_sampling :: "(ustr \<times> yaml) list \<Rightarrow> sampling_settings res" where
  "load_sampling raw =
     ebind (yaml_map (yaml_get ''sampling'' Y_None raw)) (\<lambda>sampling.
     ebind (yaml_number (yaml_get ''temperature'' (Y_Float (Fin (6 / 10))) sampling)) (\<lambda>t.
     raise_if (fless t (Fin 0)) (ValueError ''sampling.temperature must be non-negative.'')
     (ebind (yaml_number (yaml_get ''top_p'' (Y_Float (Fin (95 / 100))) sampling)) (\<lambda>p.
     raise_if (\<not> (fless (Fin 0) p \<and> fle p (Fin 1))) (ValueError ''sampling.top_p must lie in (0, 1].'')
     (ebind (yaml_integer None (yaml_get ''top_k'' (Y_Int (- 1)) sampling)) (\<lambda>k.
     ebind (yaml_integer (Some 1) (yaml_get ''n'' (Y_Int 16) sampling)) (\<lambda>n.
     ebind (yaml_integer (Some 1) (yaml_get ''max_new_tokens'' (Y_Int 20480) sampling)) (\<lambda>m.
     Inr \<lparr>sa_temperature = t, sa_top_p = p, sa_top_k = k, sa_n = n, sa_max_new_tokens = m\<rparr>))))))))"

definition load_lengths :: "(ustr \<times> yaml) list \<Rightarrow> int \<Rightarrow> int list res" where
  "load_lengths raw max_new_tokens =
     (case yaml_get ''length_control'' (Y_List [Y_Int max_new_tokens]) raw of
        Y_List raw_lengths \<Rightarrow>
          raise_if (raw_lengths = []) (ValueError ''length_control must be a non-empty list of token limits.'')
          (ebind (emap (yaml_integer (Some 1)) raw_lengths) (\<lambda>length_control.
           raise_if (sort (remdups length_control) \<noteq> length_control)
             (ValueError ''length_control values must be unique and strictly ascending.'')
           (raise_if (last length_control \<noteq> max_new_tokens)
             (ValueError ''The last length_control value must equal sampling.max_new_tokens.'')
           (Inr length_control))))
      | _ \<Rightarrow> Inl (ValueError ''length_control must be a non-empty list of token limits.''))"

definition DEFAULT_ROLLOUTS_PER_GPU_BATCH :: int where
  "DEFAULT_ROLLOUTS_PER_GPU_BATCH = 256"

record runtime_settings =
  rt_gpus :: "int list"
  rt_tensor_parallel_size :: int
  rt_rollouts_per_gpu_batch :: int
  rt_min_free_gib :: flt

definition load_runtime :: "(ustr \<times> yaml) list \<Rightarrow> int \<Rightarrow> runtime_settings res" where
  "load_runtime raw n =
     ebind (yaml_map (yaml_get ''runtime'' (Y_Map []) raw)) (\<lambda>runtime.
     case yaml_get ''gpus'' (Y_List (map (\<lambda>i. Y_Int (int i)) [0..<8])) runtime of
       Y_List raw_gpus \<Rightarrow>
         raise_if (raw_gpus = []) (ValueError ''runtime.gpus must be a non-empty list of GPU IDs.'')
         (ebind (emap (yaml_integer (Some 0)) raw_gpus) (\<lambda>gpus.
          raise_if (\<not> distinct gpus) (ValueError ''runtime.gpus must contain distinct GPU IDs.'')
          (ebind (yaml_integer (Some 1) (yaml_get ''tensor_parallel_size'' (Y_Int 1) runtime)) (\<lambda>tp.
          raise_if (tp \<noteq> 1) (ValueError ''runtime.tensor_parallel_size must be 1'')
          (ebind (yaml_integer (Some 1) (yaml_get ''rollouts_per_gpu_batch'' (Y_Int DEFAULT_ROLLOUTS_PER_GPU_BATCH) runtime)) (\<lambda>rollouts.
          raise_if (rollouts mod n \<noteq> 0) (ValueError ''runtime.rollouts_per_gpu_batch must be divisible by sampling.n'')
          (ebind (yaml_number (yaml_get ''min_free_gib'' (Y_Float (Fin 5)) runtime)) (\<lambda>free.
          raise_if (fless free (Fin 0)) (ValueError ''runtime.min_free_gib must be non-negative.'')
          (Inr \<lparr>rt_gpus = gpus, rt_tensor_parallel_size = tp, rt_rollouts_per_gpu_batch = rollouts,
                rt_min_free_gib = free\<rparr>)))))))))
     | _ \<Rightarrow> Inl (ValueError ''runtime.gpus must be a non-empty list of GPU IDs.''))"

record engine_settings =
  en_dtype :: ustr
  en_trust_remote_code :: bool
  en_gpu_memory_utilization :: flt
  en_max_model_len :: int
  en_enable_prefix_caching :: bool

definition load_engine :: "(ustr \<times> yaml) list \<Rightarrow> int \<Rightarrow> engine_settings res" where
  "load_engine raw max_new_tokens =
     ebind (yaml_map (yaml_get ''engine'' (Y_Map []) raw)) (\<lambda>engine.
     case yaml_get ''dtype'' (Y_Str (lit ''bfloat16'')) engine of
       Y_Str dtype \<Rightarrow>
         raise_if (dtype = []) (ValueError ''engine.dtype must be a non-empty string.'')
         (ebind (yaml_boolean (yaml_get ''trust_remote_code'' (Y_Bool True) engine)) (\<lambda>trust.
          ebind (yaml_number (yaml_get ''gpu_memory_utilization'' (Y_Float (Fin (9 / 10))) engine)) (\<lambda>util.
          raise_if (\<not> (fless (Fin 0) util \<and> fless util (Fin 1))) (ValueError ''engine.gpu_memory_utilization must lie in (0, 1).'')
          (ebind (yaml_integer (Some 1) (yaml_get ''max_model_len'' (Y_Int (2048 + max_new_tokens)) engine)) (\<lambda>len.
          raise_if (len \<le> max_new_tokens) (ValueError ''engine.max_model_len must exceed sampling.max_new_tokens'')
          (ebind (yaml_boolean (yaml_get ''enable_prefix_caching'' (Y_Bool True) engine)) (\<lambda>caching.
          Inr \<lparr>en_dtype = dtype, en_trust_remote_code = trust, en_gpu_memory_utilization = util,
               en_max_model_len = len, en_enable_prefix_caching = caching\<rparr>)))))))
     | _ \<Rightarrow> Inl (ValueError ''engine.dtype must be a non-empty string.''))"

text \<open>The part of the configuration that the evaluation of a model reads, in the order it is loaded.\<close>

record eval_config =
  ev_seed :: int
  ev_sampling :: sampling_settings
  ev_length_control :: "int list"
  ev_runtime :: runtime_settings
  ev_engine :: engine_settings

definition load_numeric_config :: "(ustr \<times> yaml) list \<Rightarrow> eval_config res" where
  "load_numeric_config raw =
     ebind (yaml_integer (Some 0) (yaml_get ''seed'' (Y_Int 42) raw)) (\<lambda>seed.
     ebind (load_sampling raw) (\<lambda>sampling.
     ebind (load_lengths raw (sa_max_new_tokens sampling)) (\<lambda>lengths.
     ebind (load_runtime raw (sa_n sampling)) (\<lambda>runtime.
     ebind (load_engine raw (sa_max_new_tokens sampling)) (\<lambda>engine.
     Inr \<lparr>ev_seed = seed, ev_sampling = sampling, ev_length_control = lengths, ev_runtime = runtime,
          ev_engine = engine\<rparr>)))))"

definition questions_per_gpu_batch :: "eval_config \<Rightarrow> int" where
  "questions_per_gpu_batch config = rt_rollouts_per_gpu_batch (ev_runtime config) div sa_n (ev_sampling config)"

section \<open>Scoring at several token limits\<close>

record length_score =
  ls_correct :: nat
  ls_tokens :: int
  ls_truncated :: bool

text \<open>\<open>int(bool(verify(...)))\<close>.\<close>

definition verdict :: "real \<Rightarrow> nat" where
  "verdict v = (if v \<noteq> 0 then 1 else 0)"

definition score_limit :: "int list \<Rightarrow> ustr \<Rightarrow> ustr option \<Rightarrow> ustr \<Rightarrow> (int list \<Rightarrow> ustr) \<Rightarrow> (ustr \<Rightarrow> ustr \<Rightarrow> real)
    \<Rightarrow> int \<Rightarrow> nat option \<times> (int \<times> length_score) list \<Rightarrow> nat option \<times> (int \<times> length_score) list" where
  "score_limit token_ids full_text finish_reason answer decode verify limit acc =
     (let (full_correct, values) = acc;
          cut_by_posthoc_limit = (int (length token_ids) > limit);
          (correct, full_correct) =
            (if cut_by_posthoc_limit then (verdict (verify (decode (py_slice 0 limit token_ids)) answer), full_correct)
             else (let c = (case full_correct of Some c \<Rightarrow> c | None \<Rightarrow> verdict (verify full_text answer)) in (c, Some c)))
      in (full_correct,
          dict_put limit \<lparr>ls_correct = correct, ls_tokens = min (int (length token_ids)) limit,
            ls_truncated = (cut_by_posthoc_limit \<or> finish_reason = Some (lit ''length''))\<rparr> values))"

definition score_completion_at_lengths :: "int list \<Rightarrow> ustr \<Rightarrow> ustr option \<Rightarrow> ustr \<Rightarrow> int list
    \<Rightarrow> (int list \<Rightarrow> ustr) \<Rightarrow> (ustr \<Rightarrow> ustr \<Rightarrow> real) \<Rightarrow> (int \<times> length_score) list" where
  "score_completion_at_lengths token_ids full_text finish_reason answer length_control decode verify =
     snd (fold (score_limit token_ids full_text finish_reason answer decode verify) length_control (None, []))"

section \<open>The jobs of a worker\<close>

datatype eos_ids = No_Eos | One_Eos int | Many_Eos "int list"

fun eos_token_ids :: "eos_ids \<Rightarrow> int list" where
  "eos_token_ids No_Eos = []"
| "eos_token_ids (One_Eos i) = [i]"
| "eos_token_ids (Many_Eos is) = is"

definition trim_generated_ids :: "int list \<Rightarrow> eos_ids \<Rightarrow> int option \<Rightarrow> int list" where
  "trim_generated_ids token_ids eos pad_id =
     (case find (\<lambda>(index, token_id). token_id \<in> set (eos_token_ids eos)) (py_enumerate token_ids) of
        Some (index, _) \<Rightarrow> take (index + 1) token_ids
      | None \<Rightarrow> (case pad_id of None \<Rightarrow> token_ids | Some pad \<Rightarrow> rev (dropWhile (\<lambda>t. t = pad) (rev token_ids))))"

record sampling_params =
  sp_n :: int
  sp_temperature :: flt
  sp_top_p :: flt
  sp_top_k :: int
  sp_max_tokens :: int
  sp_seed :: int

record completion =
  co_text :: ustr
  co_finish_reason :: "ustr option"
  co_token_ids :: "int list"

text \<open>The arguments of \<open>LLM(...)\<close> besides the model directory: they may change what the engine answers.\<close>

record llm_engine =
  le_tensor_parallel_size :: int
  le_settings :: engine_settings
  le_max_num_seqs :: int
  le_seed :: int

record worker_env =
  we_llm :: "llm_engine \<Rightarrow> (int list \<times> sampling_params) list \<Rightarrow> completion list list res"
  we_decode :: "int list \<Rightarrow> ustr"
  we_eos :: eos_ids
  we_pad :: "int option"
  we_verify :: "ustr \<Rightarrow> ustr \<Rightarrow> ustr \<Rightarrow> real"

record worker_config =
  wc_n :: int
  wc_sampling :: sampling_settings
  wc_seed :: int
  wc_length_control :: "int list"
  wc_tensor_parallel_size :: int
  wc_engine :: engine_settings
  wc_rollouts_per_gpu_batch :: int
  wc_questions_per_gpu_batch :: int
  wc_collect_ids_datasets :: "ustr list"

definition engine_kwargs :: "worker_config \<Rightarrow> llm_engine" where
  "engine_kwargs wc =
     \<lparr>le_tensor_parallel_size = wc_tensor_parallel_size wc, le_settings = wc_engine wc,
      le_max_num_seqs = wc_rollouts_per_gpu_batch wc, le_seed = wc_seed wc\<rparr>"

record batch_task =
  bt_dataset :: ustr
  bt_question_index :: nat
  bt_answer :: ustr
  bt_prompt_token_ids :: "int list"

record counters =
  ct_rollouts :: nat
  ct_correct_count :: nat
  ct_token_count :: int
  ct_truncated_count :: nat

record rollout =
  ro_response_token_ids :: "int list"
  ro_finish_reason :: "ustr option"
  ro_correct :: bool

record question_result =
  qr_dataset :: ustr
  qr_question_index :: nat
  qr_lengths :: "(int \<times> counters) list"
  qr_rollouts :: "rollout list option"

definition add_score :: "int \<times> length_score \<Rightarrow> (int \<times> counters) list \<Rightarrow> (int \<times> counters) list res" where
  "add_score lv d = (case dict_get (fst lv) d of
      None \<Rightarrow> Inl (KeyError ''limit'')
    | Some target \<Rightarrow> Inr (dict_put (fst lv)
        \<lparr>ct_rollouts = ct_rollouts target + 1,
         ct_correct_count = ct_correct_count target + ls_correct (snd lv),
         ct_token_count = ct_token_count target + ls_tokens (snd lv),
         ct_truncated_count = ct_truncated_count target + (if ls_truncated (snd lv) then 1 else 0)\<rparr> d))"

definition score_rollout :: "worker_env \<Rightarrow> worker_config \<Rightarrow> batch_task \<Rightarrow> completion
    \<Rightarrow> (int \<times> counters) list \<times> rollout list option \<Rightarrow> ((int \<times> counters) list \<times> rollout list option) res" where
  "score_rollout we wc task c acc =
     (let scored = score_completion_at_lengths (co_token_ids c) (co_text c) (co_finish_reason c) (bt_answer task)
            (wc_length_control wc) (we_decode we) (\<lambda>response answer. we_verify we response answer (bt_dataset task)) in
      raise_if (wc_length_control wc = []) (IndexError ''length_control'')
      (case dict_get (last (wc_length_control wc)) scored of
         None \<Rightarrow> Inl (KeyError ''length_control'')
       | Some full \<Rightarrow>
           ebind (efold add_score scored (fst acc)) (\<lambda>totals.
           Inr (totals, map_option (\<lambda>rs. rs @ [\<lparr>ro_response_token_ids = trim_generated_ids (co_token_ids c) (we_eos we) (we_pad we),
                ro_finish_reason = co_finish_reason c, ro_correct = (ls_correct full \<noteq> 0)\<rparr>]) (snd acc)))))"

definition score_question :: "worker_env \<Rightarrow> worker_config \<Rightarrow> batch_task \<times> completion list \<Rightarrow> question_result res" where
  "score_question we wc tc =
     (let (task, completions) = tc in
      raise_if (int (length completions) \<noteq> wc_n wc) (RuntimeError ''returned rollouts, expected n'')
      (ebind (efold (score_rollout we wc task) completions
          (fold (\<lambda>limit. dict_put limit \<lparr>ct_rollouts = 0, ct_correct_count = 0, ct_token_count = 0, ct_truncated_count = 0\<rparr>)
             (wc_length_control wc) [],
           if bt_dataset task \<in> set (wc_collect_ids_datasets wc) then Some [] else None)) (\<lambda>(totals, rollouts).
       Inr \<lparr>qr_dataset = bt_dataset task, qr_question_index = bt_question_index task, qr_lengths = totals,
            qr_rollouts = rollouts\<rparr>)))"

definition eval_params :: "worker_config \<Rightarrow> sampling_params" where
  "eval_params wc =
     \<lparr>sp_n = wc_n wc, sp_temperature = sa_temperature (wc_sampling wc), sp_top_p = sa_top_p (wc_sampling wc),
      sp_top_k = sa_top_k (wc_sampling wc), sp_max_tokens = sa_max_new_tokens (wc_sampling wc), sp_seed = wc_seed wc\<rparr>"

definition run_eval_batch_job :: "worker_env \<Rightarrow> worker_config \<Rightarrow> batch_task list \<Rightarrow> question_result list res" where
  "run_eval_batch_job we wc real_tasks =
     raise_if (\<not> (1 \<le> length real_tasks \<and> int (length real_tasks) \<le> wc_questions_per_gpu_batch wc))
       (ValueError ''Invalid question batch size'')
     (raise_if (int (length real_tasks) * wc_n wc > wc_rollouts_per_gpu_batch wc)
       (AssertionError ''Each GPU generate call must contain at most rollouts_per_gpu_batch rollouts'')
     (ebind (we_llm we (engine_kwargs wc) (map (\<lambda>task. (bt_prompt_token_ids task, eval_params wc)) real_tasks)) (\<lambda>outputs.
      raise_if (length outputs \<noteq> length real_tasks) (RuntimeError ''Expected request outputs'')
      (emap (score_question we wc) (zip real_tasks outputs)))))"

record generation_request =
  gr_ids :: "int list"
  gr_max_tokens :: int
  gr_seed :: int
  gr_temperature :: flt
  gr_top_p :: flt
  gr_top_k :: int
  gr_request_id :: ustr

definition request_params :: "generation_request \<Rightarrow> sampling_params" where
  "request_params r =
     \<lparr>sp_n = 1, sp_temperature = gr_temperature r, sp_top_p = gr_top_p r, sp_top_k = gr_top_k r,
      sp_max_tokens = gr_max_tokens r, sp_seed = gr_seed r\<rparr>"

definition first_ids :: "completion list \<Rightarrow> int list res" where
  "first_ids cs = (case cs of [] \<Rightarrow> Inl (IndexError ''outputs'') | c # _ \<Rightarrow> Inr (co_token_ids c))"

definition run_generate_job :: "worker_env \<Rightarrow> worker_config \<Rightarrow> generation_request list \<Rightarrow> int list list res" where
  "run_generate_job we wc requests =
     raise_if (\<not> (1 \<le> length requests \<and> length requests \<le> 10 ^ 9)) (ValueError ''Invalid generate job size'')
     (ebind (we_llm we (engine_kwargs wc) (map (\<lambda>r. (gr_ids r, request_params r)) requests)) (\<lambda>outputs.
      raise_if (length outputs \<noteq> length requests) (RuntimeError ''Expected continuation outputs'')
      (emap first_ids outputs)))"

record job =
  jb_kind :: string
  jb_tasks :: "batch_task list"
  jb_requests :: "generation_request list"

datatype reply = Questions "question_result list" | Outputs "int list list"

text \<open>The dispatch in the loop of \<open>_gpu_worker\<close>.\<close>

definition run_job :: "worker_env \<Rightarrow> worker_config \<Rightarrow> job \<Rightarrow> reply res" where
  "run_job we wc job =
     (if jb_kind job = ''eval_batch'' then ebind (run_eval_batch_job we wc (jb_tasks job)) (\<lambda>qs. Inr (Questions qs))
      else if jb_kind job = ''generate'' then ebind (run_generate_job we wc (jb_requests job)) (\<lambda>os. Inr (Outputs os))
      else Inl (ValueError ''Unknown worker job kind''))"

section \<open>Batches\<close>

text \<open>\<open>[xs[start : start + k] for start in range(0, len(xs), k)]\<close> for a positive \<open>k\<close>.\<close>

definition chunks :: "nat \<Rightarrow> 'a list \<Rightarrow> 'a list list" where
  "chunks k xs = map (\<lambda>i. take k (drop (i * k) xs)) [0..<(length xs + k - 1) div k]"

definition batch_task_of :: "eval_task \<Rightarrow> batch_task" where
  "batch_task_of t =
     \<lparr>bt_dataset = eq_dataset t, bt_question_index = eq_question_index t, bt_answer = eq_answer t,
      bt_prompt_token_ids = et_prompt_token_ids t\<rparr>"

definition make_batches :: "eval_task list \<Rightarrow> int \<Rightarrow> batch_task list list res" where
  "make_batches tasks questions_per_batch =
     raise_if (questions_per_batch < 1) (ValueError ''questions_per_batch must be positive.'')
     (raise_if (tasks = []) (ValueError ''Cannot batch an empty task list.'')
     (Inr (map (map batch_task_of) (chunks (nat questions_per_batch) tasks))))"

section \<open>Aggregation\<close>

record length_summary =
  lm_avg :: real
  lm_pass :: real
  lm_mean_length :: real
  lm_truncation_rate :: real
  lm_per_sample :: "(nat \<times> real) list"

record limit_totals =
  lt_correct_count :: nat
  lt_passed_questions :: nat
  lt_token_count :: int
  lt_truncated_count :: nat
  lt_per_sample :: "(nat \<times> real) list"

definition no_totals :: limit_totals where
  "no_totals = \<lparr>lt_correct_count = 0, lt_passed_questions = 0, lt_token_count = 0, lt_truncated_count = 0, lt_per_sample = []\<rparr>"

definition add_question :: "int \<Rightarrow> int \<Rightarrow> question_result \<Rightarrow> limit_totals \<Rightarrow> limit_totals res" where
  "add_question n limit r t = (case dict_get limit (qr_lengths r) of
      None \<Rightarrow> Inl (KeyError ''limit'')
    | Some c \<Rightarrow>
        raise_if (int (ct_rollouts c) \<noteq> n) (RuntimeError ''has rollouts, expected n'')
        (raise_if (\<not> int (ct_correct_count c) \<le> n) (RuntimeError ''Invalid correct_count in worker result.'')
        (raise_if (n = 0) ZeroDivisionError
        (Inr \<lparr>lt_correct_count = lt_correct_count t + ct_correct_count c,
              lt_passed_questions = lt_passed_questions t + (if ct_correct_count c > 0 then 1 else 0),
              lt_token_count = lt_token_count t + ct_token_count c,
              lt_truncated_count = lt_truncated_count t + ct_truncated_count c,
              lt_per_sample = dict_put (qr_question_index r) (real (ct_correct_count c) / of_int n) (lt_per_sample t)\<rparr>))))"

definition summarize_length :: "int \<Rightarrow> nat \<Rightarrow> question_result list \<Rightarrow> int \<Rightarrow> length_summary res" where
  "summarize_length n question_count records limit =
     ebind (efold (add_question n limit) records no_totals) (\<lambda>t.
     let rollout_count = int question_count * n in
     raise_if (rollout_count = 0) ZeroDivisionError
     (Inr \<lparr>lm_avg = real (lt_correct_count t) / of_int rollout_count,
           lm_pass = real (lt_passed_questions t) / real question_count,
           lm_mean_length = of_int (lt_token_count t) / of_int rollout_count,
           lm_truncation_rate = real (lt_truncated_count t) / of_int rollout_count,
           lm_per_sample = lt_per_sample t\<rparr>))"

definition summarize_dataset :: "question_result list \<Rightarrow> (ustr \<times> nat) list \<Rightarrow> int list \<Rightarrow> int \<Rightarrow> ustr
    \<Rightarrow> (int \<times> length_summary) list res" where
  "summarize_dataset question_results counts length_control n dataset =
     (let records = sort_key qr_question_index (filter (\<lambda>r. qr_dataset r = dataset) question_results) in
      case dict_get dataset counts of
        None \<Rightarrow> Inl (KeyError ''dataset'')
      | Some question_count \<Rightarrow>
          efold (\<lambda>limit d. ebind (summarize_length n question_count records limit) (\<lambda>s. Inr (dict_put limit s d)))
            length_control [])"

definition result_key :: "question_result \<Rightarrow> ustr \<times> nat" where
  "result_key r = (qr_dataset r, qr_question_index r)"

definition count_keys :: "(ustr \<times> nat) list \<Rightarrow> (ustr \<times> nat) list" where
  "count_keys counts = concat (map (\<lambda>(dataset, count). map (Pair dataset) [0..<count]) counts)"

definition aggregate_question_results :: "question_result list \<Rightarrow> (ustr \<times> nat) list \<Rightarrow> ustr list \<Rightarrow> int list \<Rightarrow> int
    \<Rightarrow> (ustr \<times> (int \<times> length_summary) list) list res" where
  "aggregate_question_results question_results counts dataset_order length_control n =
     (let actual_keys = map result_key question_results in
      raise_if (\<not> distinct actual_keys) (RuntimeError ''Evaluation returned duplicate question results.'')
      (raise_if (set actual_keys \<noteq> set (count_keys counts)) (RuntimeError ''Incomplete question results'')
      (efold (\<lambda>dataset d. ebind (summarize_dataset question_results counts length_control n dataset)
          (\<lambda>s. Inr (dict_put dataset s d))) dataset_order [])))"

section \<open>The drivers\<close>

definition worker_config_of :: "eval_config \<Rightarrow> ustr list \<Rightarrow> worker_config" where
  "worker_config_of config collect_ids =
     \<lparr>wc_n = sa_n (ev_sampling config), wc_sampling = ev_sampling config, wc_seed = ev_seed config,
      wc_length_control = ev_length_control config,
      wc_tensor_parallel_size = rt_tensor_parallel_size (ev_runtime config), wc_engine = ev_engine config,
      wc_rollouts_per_gpu_batch = rt_rollouts_per_gpu_batch (ev_runtime config),
      wc_questions_per_gpu_batch = questions_per_gpu_batch config, wc_collect_ids_datasets = collect_ids\<rparr>"

fun questions_of :: "reply message \<Rightarrow> question_result list res" where
  "questions_of (Done k g i (Questions qs)) = Inr qs"
| "questions_of (Done k g i (Outputs os)) = Inl (KeyError ''questions'')"
| "questions_of (Failed k g i e) = Inl (KeyError ''questions'')"
| "questions_of (Ready g) = Inl (KeyError ''questions'')"
| "questions_of (Ready_Failed g e) = Inl (KeyError ''questions'')"

fun outputs_of :: "reply message \<Rightarrow> int list list res" where
  "outputs_of (Done k g i (Outputs os)) = Inr os"
| "outputs_of (Done k g i (Questions qs)) = Inl (KeyError ''outputs'')"
| "outputs_of (Failed k g i e) = Inl (KeyError ''outputs'')"
| "outputs_of (Ready g) = Inl (KeyError ''outputs'')"
| "outputs_of (Ready_Failed g e) = Inl (KeyError ''outputs'')"

record eval_record = validation_record +
  er_question_index :: nat
  er_record_index :: nat

text \<open>The rollouts kept for ERSR, with the original token ids of prompt and response.\<close>

definition add_rollout :: "question_result \<Rightarrow> eval_task \<Rightarrow> nat \<times> rollout \<Rightarrow> eval_record list \<Rightarrow> eval_record list" where
  "add_rollout q task ir records =
     records @ [\<lparr>vr_dataset = qr_dataset q, vr_correct = ro_correct (snd ir),
       vr_uid = Some (qr_dataset q @ lit '':'' @ show_nat (qr_question_index q) @ lit '':'' @ show_nat (fst ir)),
       vr_answer = eq_answer task, vr_prompt_ids = et_prompt_token_ids task,
       vr_response_ids = ro_response_token_ids (snd ir),
       er_question_index = qr_question_index q, er_record_index = length records\<rparr>]"

definition add_question_records :: "((ustr \<times> nat) \<times> eval_task) list \<Rightarrow> question_result \<Rightarrow> eval_record list
    \<Rightarrow> eval_record list res" where
  "add_question_records tasks_by_key q records = (case qr_rollouts q of
      None \<Rightarrow> Inr records
    | Some rollouts \<Rightarrow> (case dict_get (result_key q) tasks_by_key of
          None \<Rightarrow> Inl (KeyError ''task'')
        | Some task \<Rightarrow> Inr (fold (add_rollout q task) (py_enumerate rollouts) records)))"

type_synonym evaluation = "(ustr \<times> (int \<times> length_summary) list) list \<times> eval_record list"

definition finish_evaluation :: "eval_config \<Rightarrow> ustr list \<Rightarrow> eval_task list \<Rightarrow> (ustr \<times> nat) list
    \<Rightarrow> question_result list \<Rightarrow> evaluation res" where
  "finish_evaluation config val_datasets tasks counts question_results =
     ebind (aggregate_question_results question_results counts val_datasets (ev_length_control config)
       (sa_n (ev_sampling config))) (\<lambda>datasets.
     ebind (efold (add_question_records (fold (\<lambda>t. dict_put (eq_dataset t, eq_question_index t) t) tasks []))
       question_results []) (\<lambda>records.
     Inr (datasets, records)))"

definition evaluate_model :: "worker_env \<Rightarrow> eval_config \<Rightarrow> ustr list \<Rightarrow> ustr list \<Rightarrow> eval_task list \<Rightarrow> (ustr \<times> nat) list
    \<Rightarrow> event list \<Rightarrow> evaluation res option" where
  "evaluate_model we config val_datasets collect_ids tasks counts schedule =
     (let gpus = rt_gpus (ev_runtime config) in
      if gpus = [] then Some (Inl ZeroDivisionError) else
      let batch_size = min (questions_per_gpu_batch config)
            (max 1 ((int (length tasks) + int (length gpus) - 1) div int (length gpus))) in
      case make_batches tasks batch_size of
        Inl e \<Rightarrow> Some (Inl e)
      | Inr batches \<Rightarrow>
          map_option (\<lambda>run. ebind run (\<lambda>messages.
            ebind (emap questions_of messages) (\<lambda>qss. finish_evaluation config val_datasets tasks counts (concat qss))))
          (run_pool jb_kind (\<lambda>g. run_job we (worker_config_of config collect_ids)) (map nat gpus)
            (map (\<lambda>batch. \<lparr>jb_kind = ''eval_batch'', jb_tasks = batch, jb_requests = []\<rparr>) batches) schedule))"

definition run_generation_phase :: "worker_env \<Rightarrow> eval_config \<Rightarrow> generation_request list \<Rightarrow> event list
    \<Rightarrow> (ustr \<times> int list) list res option" where
  "run_generation_phase we config requests schedule =
     (let gpus = rt_gpus (ev_runtime config) in
      if requests = [] then Some (Inr []) else
      if gpus = [] then Some (Inl ZeroDivisionError) else
      let cap = min (rt_rollouts_per_gpu_batch (ev_runtime config))
            ((int (length requests) + int (length gpus) - 1) div int (length gpus)) in
      if cap = 0 then Some (Inl (ValueError ''range() arg 3 must not be zero'')) else
      map_option (\<lambda>run. ebind run (\<lambda>messages.
          ebind (emap outputs_of messages) (\<lambda>outs.
          let flat_outputs = concat outs in
          raise_if (length flat_outputs \<noteq> length requests) (RuntimeError ''Generation phase returned outputs for requests'')
          (Inr (fold (\<lambda>(request, ids). dict_put (gr_request_id request) ids) (zip requests flat_outputs) [])))))
        (run_pool jb_kind (\<lambda>g. run_job we (worker_config_of config [])) (map nat gpus)
          (map (\<lambda>rs. \<lparr>jb_kind = ''generate'', jb_tasks = [], jb_requests = rs\<rparr>) (chunks (nat cap) requests)) schedule))"

end
