(* ===== verification/Pool_Correct.thy ===== *)
theory Pool_Correct
  imports Eval_Pool
begin

text \<open>
  Correctness of the worker pool: a state invariant that accounts for every job number, kept by
  every event; from it, what the driver returns, that it never deadlocks, and that only finitely
  many events can happen before it is done.
\<close>

section \<open>Accounting\<close>

text \<open>Sums over the worker list and the queues change locally.\<close>

lemma sum_list_list_update:
  fixes f :: "'a \<Rightarrow> 'b :: cancel_comm_monoid_add"
  assumes "i < length xs"
  shows "(\<Sum>x\<leftarrow>xs[i := y]. f x) + f (xs ! i) = (\<Sum>x\<leftarrow>xs. f x) + f y"
  using assms
proof (induction xs arbitrary: i)
  case (Cons x xs)
  then show ?case by (cases i) (auto simp: ac_simps)
qed simp

lemma sum_list_drop_nth:
  fixes f :: "'a \<Rightarrow> 'b :: cancel_comm_monoid_add"
  assumes "i < length xs"
  shows "(\<Sum>x\<leftarrow>take i xs @ drop (Suc i) xs. f x) + f (xs ! i) = (\<Sum>x\<leftarrow>xs. f x)"
proof -
  have "(\<Sum>x\<leftarrow>xs. f x) = (\<Sum>x\<leftarrow>take i xs @ xs ! i # drop (Suc i) xs. f x)"
    using assms by (simp add: id_take_nth_drop [symmetric])
  then show ?thesis by (simp add: ac_simps)
qed

fun worker_ids :: "'j worker \<Rightarrow> nat multiset" where
  "worker_ids (Busy i j) = {#i#}"
| "worker_ids Loading = {#}"
| "worker_ids Idle = {#}"
| "worker_ids Exited = {#}"

fun message_ids :: "'r message \<Rightarrow> nat multiset" where
  "message_ids (Done k g i r) = {#i#}"
| "message_ids (Failed k g i e) = {#i#}"
| "message_ids (Ready g) = {#}"
| "message_ids (Ready_Failed g e) = {#}"

fun entry_ids :: "(nat \<times> 'j) option \<Rightarrow> nat multiset" where
  "entry_ids None = {#}"
| "entry_ids (Some (i, j)) = {#i#}"

fun collected :: "'r phase \<Rightarrow> 'r message list" where
  "collected (Starting ms) = ms"
| "collected (Running k n ms) = ms"
| "collected (Returned ms) = ms"
| "collected (Raised e) = []"


fun is_loading :: "'j worker \<Rightarrow> nat" where
  "is_loading Loading = 1"
| "is_loading Idle = 0"
| "is_loading (Busy i j) = 0"
| "is_loading Exited = 0"

fun is_exited :: "'j worker \<Rightarrow> nat" where
  "is_exited Loading = 0"
| "is_exited Idle = 0"
| "is_exited (Busy i j) = 0"
| "is_exited Exited = 1"

fun is_startup :: "'r message \<Rightarrow> nat" where
  "is_startup (Ready g) = 1"
| "is_startup (Ready_Failed g e) = 1"
| "is_startup (Done k g i r) = 0"
| "is_startup (Failed k g i e) = 0"

definition loading :: "('j, 'r) pool \<Rightarrow> nat" where
  "loading st = (\<Sum>w\<leftarrow>workers st. is_loading w)"

definition exited :: "('j, 'r) pool \<Rightarrow> nat" where
  "exited st = (\<Sum>w\<leftarrow>workers st. is_exited w)"

definition startups :: "('j, 'r) pool \<Rightarrow> nat" where
  "startups st = (\<Sum>m\<leftarrow>result_queue st. is_startup m)"

definition open_ids :: "('j, 'r) pool \<Rightarrow> nat multiset" where
  "open_ids st = (\<Sum>q\<leftarrow>job_queue st. entry_ids q) + (\<Sum>w\<leftarrow>workers st. worker_ids w)
     + (\<Sum>m\<leftarrow>result_queue st. message_ids m)"

definition collected_ids :: "'r message list \<Rightarrow> nat multiset" where
  "collected_ids ms = (\<Sum>m\<leftarrow>ms. message_ids m)"

text \<open>The contents: entries, workers and messages speak of the jobs of the run.\<close>

fun good_entry :: "'j list \<Rightarrow> (nat \<times> 'j) option \<Rightarrow> bool" where
  "good_entry jobs None = True"
| "good_entry jobs (Some (i, j)) = (i < length jobs \<and> j = jobs ! i)"

fun good_worker :: "'j list \<Rightarrow> 'j worker \<Rightarrow> bool" where
  "good_worker jobs (Busy i j) = (i < length jobs \<and> j = jobs ! i)"
| "good_worker jobs Loading = True"
| "good_worker jobs Idle = True"
| "good_worker jobs Exited = True"

fun good_message :: "('j \<Rightarrow> string) \<Rightarrow> (nat \<Rightarrow> 'j \<Rightarrow> 'r res) \<Rightarrow> nat list \<Rightarrow> 'j list \<Rightarrow> 'r message \<Rightarrow> bool" where
  "good_message kind handle gpus jobs (Done k g i r) =
     (i < length jobs \<and> g \<in> set gpus \<and> k = kind (jobs ! i) \<and> handle g (jobs ! i) = Inr r)"
| "good_message kind handle gpus jobs (Failed k g i e) = (i < length jobs \<and> k = kind (jobs ! i))"
| "good_message kind handle gpus jobs (Ready g) = True"
| "good_message kind handle gpus jobs (Ready_Failed g e) = True"

fun is_done :: "'r message \<Rightarrow> bool" where
  "is_done (Done k g i r) = True"
| "is_done (Failed k g i e) = False"
| "is_done (Ready g) = False"
| "is_done (Ready_Failed g e) = False"

fun is_ready :: "'r message \<Rightarrow> bool" where
  "is_ready (Ready g) = True"
| "is_ready (Ready_Failed g e) = False"
| "is_ready (Done k g i r) = False"
| "is_ready (Failed k g i e) = False"

definition contents_ok :: "('j \<Rightarrow> string) \<Rightarrow> (nat \<Rightarrow> 'j \<Rightarrow> 'r res) \<Rightarrow> 'j list \<Rightarrow> ('j, 'r) pool \<Rightarrow> bool" where
  "contents_ok kind handle jobs st \<longleftrightarrow>
     length (workers st) = length (pool_gpus st)
     \<and> (\<forall>q \<in> set (job_queue st). good_entry jobs q)
     \<and> (\<forall>w \<in> set (workers st). good_worker jobs w)
     \<and> (\<forall>m \<in> set (result_queue st @ collected (phase st)). good_message kind handle (pool_gpus st) jobs m)"

text \<open>The accounts of each phase.\<close>

fun phase_ok :: "('j \<Rightarrow> string) \<Rightarrow> 'j list \<Rightarrow> ('j, 'r) pool \<Rightarrow> 'r phase \<Rightarrow> bool" where
  "phase_ok kind jobs st (Starting ms) \<longleftrightarrow>
     job_queue st = [] \<and> open_ids st = {#} \<and> list_all is_ready ms
     \<and> length ms < length (workers st)
     \<and> loading st + startups st + length ms \<le> length (workers st)
     \<and> length (workers st) \<le> loading st + length (result_queue st) + length ms + exited st"
| "phase_ok kind jobs st (Running k n ms) \<longleftrightarrow>
     n = length jobs \<and> jobs \<noteq> [] \<and> k = kind (hd jobs) \<and> list_all is_done ms \<and> length ms < n
     \<and> loading st = 0 \<and> startups st = 0
     \<and> open_ids st + collected_ids ms \<subseteq># mset [0..<n]
     \<and> n \<le> size (open_ids st + collected_ids ms) + exited st"
| "phase_ok kind jobs st (Returned ms) \<longleftrightarrow>
     list_all is_done ms \<and> map message_batch_id ms = map Inr [0..<length jobs]"
| "phase_ok kind jobs st (Raised e) \<longleftrightarrow> True"

definition pool_ok :: "('j \<Rightarrow> string) \<Rightarrow> (nat \<Rightarrow> 'j \<Rightarrow> 'r res) \<Rightarrow> 'j list \<Rightarrow> ('j, 'r) pool \<Rightarrow> bool" where
  "pool_ok kind handle jobs st \<longleftrightarrow>
     contents_ok kind handle jobs st \<and> phase_ok kind jobs st (phase st)"

lemmas account_defs = loading_def exited_def startups_def open_ids_def

section \<open>Every event keeps the invariant\<close>

text \<open>What replacing one worker does to the accounts.\<close>

lemma account_update_worker:
  assumes "w < length (workers st)"
  shows "loading (update_worker w x st) + is_loading (workers st ! w) = loading st + is_loading x"
    and "exited (update_worker w x st) + is_exited (workers st ! w) = exited st + is_exited x"
    and "startups (update_worker w x st) = startups st"
    and "open_ids (update_worker w x st) + worker_ids (workers st ! w) = open_ids st + worker_ids x"
proof -
  show "open_ids (update_worker w x st) + worker_ids (workers st ! w) = open_ids st + worker_ids x"
    using sum_list_list_update [OF assms, of worker_ids x]
    by (simp add: account_defs update_worker_def ac_simps)
qed (use sum_list_list_update [OF assms, of is_loading x] sum_list_list_update [OF assms, of is_exited x]
      in \<open>simp_all add: account_defs update_worker_def\<close>)

lemma account_put_result:
  "loading (put_result m st) = loading st"
  "exited (put_result m st) = exited st"
  "startups (put_result m st) = startups st + is_startup m"
  "open_ids (put_result m st) = open_ids st + message_ids m"
  by (simp_all add: account_defs put_result_def ac_simps)

lemma account_take:
  assumes "job_queue st = q # qs"
  shows "loading (st\<lparr>job_queue := qs\<rparr>) = loading st"
    and "exited (st\<lparr>job_queue := qs\<rparr>) = exited st"
    and "startups (st\<lparr>job_queue := qs\<rparr>) = startups st"
    and "open_ids (st\<lparr>job_queue := qs\<rparr>) + entry_ids q = open_ids st"
  using assms by (simp_all add: account_defs ac_simps)

lemma worker_simps [simp]:
  "workers (update_worker w x st) = (workers st)[w := x]"
  "job_queue (update_worker w x st) = job_queue st"
  "result_queue (update_worker w x st) = result_queue st"
  "phase (update_worker w x st) = phase st"
  "pool_gpus (update_worker w x st) = pool_gpus st"
  "workers (put_result m st) = workers st"
  "job_queue (put_result m st) = job_queue st"
  "result_queue (put_result m st) = result_queue st @ [m]"
  "phase (put_result m st) = phase st"
  "pool_gpus (put_result m st) = pool_gpus st"
  by (simp_all add: update_worker_def put_result_def)

lemma worker_at_Some [simp]:
  "worker_at w st = Some x \<longleftrightarrow> w < length (workers st) \<and> workers st ! w = x"
  by (auto simp: worker_at_def)

text \<open>The contents stay good when a good worker, entry or message is put in.\<close>

lemma contents_update_worker:
  "contents_ok kind handle jobs st \<Longrightarrow> good_worker jobs x \<Longrightarrow> contents_ok kind handle jobs (update_worker w x st)"
  by (auto simp: contents_ok_def dest!: set_update_subset_insert [THEN subsetD])

lemma contents_put_result:
  "contents_ok kind handle jobs st \<Longrightarrow> good_message kind handle (pool_gpus st) jobs m
    \<Longrightarrow> contents_ok kind handle jobs (put_result m st)"
  by (auto simp: contents_ok_def)

lemma contents_take:
  "contents_ok kind handle jobs st \<Longrightarrow> job_queue st = q # qs \<Longrightarrow> contents_ok kind handle jobs (st\<lparr>job_queue := qs\<rparr>)"
  by (auto simp: contents_ok_def)

lemma contents_worker:
  "contents_ok kind handle jobs st \<Longrightarrow> w < length (workers st) \<Longrightarrow> good_worker jobs (workers st ! w)"
  by (auto simp: contents_ok_def)

text \<open>The worker's steps.\<close>

lemma worker_loads_ok:
  fixes st :: "('j, 'r) pool"
  assumes "pool_ok kind handle jobs st" "worker_loads w f st = Some st'"
  shows "pool_ok kind handle jobs st'"
proof -
  have w: "w < length (workers st)" "workers st ! w = Loading"
    using assms(2) by (auto simp: worker_loads_def split: option.splits worker.splits)
  have c: "contents_ok kind handle jobs st" and p: "phase_ok kind jobs st (phase st)"
    using assms(1) by (auto simp: pool_ok_def)
  define x m where xm: "x = ((case f of None \<Rightarrow> Idle | Some _ \<Rightarrow> Exited) :: 'j worker)"
    "m = ((case f of None \<Rightarrow> Ready (pool_gpus st ! w) | Some e \<Rightarrow> Ready_Failed (pool_gpus st ! w) e) :: 'r message)"
  have st': "st' = put_result m (update_worker w x st)"
    using assms(2) w by (auto simp: worker_loads_def worker_at_def xm split: option.splits)
  have m: "is_startup m = 1" "message_ids m = {#}" "good_message kind handle g jobs m" for g
    by (auto simp: xm split: option.splits)
  have x: "is_loading x = 0" "worker_ids x = {#}" "good_worker jobs x"
    by (auto simp: xm split: option.splits)
  note a = account_update_worker [OF w(1), of x] account_put_result [of m "update_worker w x st"]
  have "contents_ok kind handle jobs st'" unfolding st'
    by (intro contents_put_result contents_update_worker c) (auto simp: m x)
  moreover have "phase_ok kind jobs st' (phase st')"
  proof (cases "phase st")
    case (Starting ms)
    then show ?thesis using p a w m x by (auto simp: st')
  next
    case (Running k n ms)
    then have "loading st = 0" using p by simp
    moreover have "loading st > 0" using a(1) w x by simp
    ultimately show ?thesis by simp
  qed (use p a in \<open>auto simp: st'\<close>)
  ultimately show ?thesis by (simp add: pool_ok_def)
qed

lemma worker_takes_ok:
  fixes st :: "('j, 'r) pool"
  assumes "pool_ok kind handle jobs st" "worker_takes w st = Some st'"
  shows "pool_ok kind handle jobs st'"
proof -
  obtain q qs where q: "job_queue st = q # qs" and w: "w < length (workers st)" "workers st ! w = Idle"
    using assms(2) by (auto simp: worker_takes_def split: option.splits worker.splits list.splits)
  define x where x: "x = (case q of None \<Rightarrow> Exited | Some (i, j) \<Rightarrow> Busy i j)"
  have st': "st' = update_worker w x (st\<lparr>job_queue := qs\<rparr>)"
    using assms(2) w q by (auto simp: worker_takes_def worker_at_def x update_worker_def split: option.splits)
  have c: "contents_ok kind handle jobs st" and p: "phase_ok kind jobs st (phase st)"
    using assms(1) by (auto simp: pool_ok_def)
  have gq: "good_entry jobs q" using c q by (auto simp: contents_ok_def)
  have xs: "is_loading x = 0" "worker_ids x = entry_ids q" "good_worker jobs x"
    using gq by (auto simp: x split: option.splits)
  note a = account_update_worker [of w "st\<lparr>job_queue := qs\<rparr>" x] account_take [OF q]
  have o: "open_ids st' = open_ids st" using a(4,8) w xs by (simp add: st' ac_simps)
  have "contents_ok kind handle jobs st'" unfolding st'
    by (intro contents_update_worker contents_take [OF c q] xs)
  moreover have "phase_ok kind jobs st' (phase st')"
    using p a w xs o q by (cases "phase st") (auto simp: st')
  ultimately show ?thesis by (simp add: pool_ok_def)
qed

lemma worker_answers_ok:
  fixes st :: "('j, 'r) pool"
  assumes "pool_ok kind handle jobs st" "worker_answers kind w h st = Some st'"
    and h: "\<And>g j r. h g j = Inr r \<Longrightarrow> handle g j = Inr r"
  shows "pool_ok kind handle jobs st'"
proof -
  obtain i j where w: "w < length (workers st)" "workers st ! w = Busy i j"
    using assms(2) by (auto simp: worker_answers_def split: option.splits worker.splits)
  define g where "g = pool_gpus st ! w"
  define x m where xm: "x = ((case h g j of Inr _ \<Rightarrow> Idle | Inl _ \<Rightarrow> Exited) :: 'j worker)"
    "m = (case h g j of Inr r \<Rightarrow> Done (kind j) g i r | Inl e \<Rightarrow> Failed (kind j) g i e)"
  have st': "st' = put_result m (update_worker w x st)"
    using assms(2) w by (auto simp: worker_answers_def worker_at_def xm g_def split: sum.splits)
  have c: "contents_ok kind handle jobs st" and p: "phase_ok kind jobs st (phase st)"
    using assms(1) by (auto simp: pool_ok_def)
  have g: "g \<in> set (pool_gpus st)" using c w by (auto simp: contents_ok_def g_def)
  have ij: "i < length jobs" "j = jobs ! i" using contents_worker [OF c w(1)] w by auto
  have m: "is_startup m = 0" "message_ids m = {#i#}" "good_message kind handle (pool_gpus st) jobs m"
    using g ij h by (auto simp: xm split: sum.splits)
  have x: "is_loading x = 0" "worker_ids x = {#}" "good_worker jobs x"
    by (auto simp: xm split: sum.splits)
  note a = account_update_worker [OF w(1), of x] account_put_result [of m "update_worker w x st"]
  have o: "open_ids st' = open_ids st" using a(4,8) w m x by (simp add: st')
  have "contents_ok kind handle jobs st'" unfolding st'
    by (intro contents_put_result contents_update_worker c) (auto simp: m x)
  moreover have "phase_ok kind jobs st' (phase st')"
    using p a w m x o by (cases "phase st") (auto simp: st')
  ultimately show ?thesis by (simp add: pool_ok_def)
qed

lemma worker_crashes_ok:
  fixes st :: "('j, 'r) pool"
  assumes "pool_ok kind handle jobs st" "worker_crashes w st = Some st'"
  shows "pool_ok kind handle jobs st'"
proof -
  have w: "w < length (workers st)" "workers st ! w \<noteq> Exited" and st': "st' = update_worker w Exited st"
    using assms(2) by (auto simp: worker_crashes_def worker_at_def split: if_splits worker.splits)
  have c: "contents_ok kind handle jobs st" and p: "phase_ok kind jobs st (phase st)"
    using assms(1) by (auto simp: pool_ok_def)
  note a = account_update_worker [OF w(1), of Exited]
  have e: "is_exited (workers st ! w) = 0" "size (worker_ids (workers st ! w)) \<le> 1" "is_loading (workers st ! w) \<le> 1"
    using w(2) by (cases "workers st ! w"; simp)+
  have o: "open_ids st = open_ids st' + worker_ids (workers st ! w)" using a(4) by (simp add: st')
  have sub: "open_ids st' \<subseteq># open_ids st" and siz: "size (open_ids st) \<le> size (open_ids st') + 1"
    using o e(2) by simp_all
  have "contents_ok kind handle jobs st'" unfolding st' by (rule contents_update_worker [OF c]) simp
  moreover have "phase_ok kind jobs st' (phase st')"
  proof (cases "phase st")
    case (Running k n ms)
    moreover have "open_ids st' + collected_ids ms \<subseteq># mset [0..<n]"
      using p Running sub by (auto intro: subset_mset.order_trans subset_mset.add_right_mono)
    ultimately show ?thesis using p a e siz by (auto simp: st')
  next
    case (Starting ms)
    then show ?thesis using p a e siz sub by (auto simp: st')
  qed (use p in \<open>auto simp: st'\<close>)
  ultimately show ?thesis by (simp add: pool_ok_def)
qed

text \<open>The driver's steps.\<close>

lemma account_receive:
  fixes st :: "('j, 'r) pool"
  assumes "k < length (result_queue st)"
  defines "st' \<equiv> st\<lparr>result_queue := take k (result_queue st) @ drop (Suc k) (result_queue st)\<rparr>"
  shows "loading st' = loading st" and "exited st' = exited st"
    and "startups st' + is_startup (result_queue st ! k) = startups st"
    and "open_ids st' + message_ids (result_queue st ! k) = open_ids st"
    and "length (result_queue st') + 1 = length (result_queue st)"
    and "set (result_queue st') \<subseteq> set (result_queue st)"
    and "workers st' = workers st" and "job_queue st' = job_queue st"
    and "pool_gpus st' = pool_gpus st" and "phase st' = phase st"
  using assms sum_list_drop_nth [of k "result_queue st" message_ids]
    sum_list_drop_nth [of k "result_queue st" is_startup]
  by (auto simp: account_defs ac_simps dest: in_set_takeD in_set_dropD)

lemma account_phase [simp]:
  "loading (st\<lparr>phase := p\<rparr>) = loading st" "exited (st\<lparr>phase := p\<rparr>) = exited st"
  "startups (st\<lparr>phase := p\<rparr>) = startups st" "open_ids (st\<lparr>phase := p\<rparr>) = open_ids st"
  by (simp_all add: account_defs)

lemma accept_message_Inr:
  "accept_message expected m ms = Inr ms' \<longleftrightarrow> message_kind m = expected \<and> message_ok m \<and> ms' = ms @ [m]"
  by (auto simp: accept_message_def raise_if_def)

fun done_id :: "'r message \<Rightarrow> nat" where
  "done_id (Done k g i r) = i"
| "done_id (Failed k g i e) = i"
| "done_id (Ready g) = 0"
| "done_id (Ready_Failed g e) = 0"

lemma is_done_batch_id: "is_done m \<Longrightarrow> message_batch_id m = Inr (done_id m)"
  by (cases m) auto

lemma collected_ids_done: "list_all is_done ms \<Longrightarrow> collected_ids ms = mset (map done_id ms)"
proof (induction ms)
  case (Cons m ms)
  then show ?case by (cases m) (auto simp: collected_ids_def)
qed (simp add: collected_ids_def)

text \<open>Sorting a complete set of answers restores the order of the jobs.\<close>

lemma sort_messages_done:
  assumes "list_all is_done ms" "mset (map done_id ms) = mset [0..<n]"
  shows "\<exists>ms'. sort_messages ms = Inr ms' \<and> mset ms' = mset ms \<and> map message_batch_id ms' = map Inr [0..<n]"
proof -
  define z where "z = sort_key fst (zip (map done_id ms) ms)"
  have e: "emap message_batch_id ms = Inr (map done_id ms)"
    using assms(1) by (intro emap_all_Inr) (auto simp: list_all_iff is_done_batch_id)
  have zs: "mset z = mset (zip (map done_id ms) ms)" by (simp add: z_def)
  have "mset (map fst z) = mset (map fst (zip (map done_id ms) ms))" using zs by (metis mset_map)
  then have "sort [0..<n] = map fst z" using assms(2)
    by (intro properties_for_sort) (simp_all add: z_def)
  then have "map fst z = [0..<n]" by (simp add: sorted_sort_id)
  have "message_batch_id (snd p) = Inr (fst p)" if "p \<in> set z" for p
  proof -
    have "p \<in> set (zip (map done_id ms) ms)" using that zs by (metis set_mset_mset)
    then show ?thesis using assms(1) by (auto simp: set_zip list_all_length is_done_batch_id)
  qed
  then have "map (\<lambda>p. message_batch_id (snd p)) z = map (\<lambda>p. Inr (fst p)) z" by simp
  then have ids: "map message_batch_id (map snd z) = map Inr (map fst z)" by (simp add: comp_def)
  moreover have "mset (map snd z) = mset ms" using zs by (metis length_map map_snd_zip mset_map)
  moreover have "sort_messages ms = Inr (map snd z)" by (simp add: sort_messages_def e z_def)
  ultimately show ?thesis using \<open>map fst z = [0..<n]\<close> ids by auto
qed

lemma finish_run_ok:
  assumes "list_all is_done ms" "length ms = n" "collected_ids ms \<subseteq># mset [0..<n]"
  shows "\<exists>ms'. finish_run ms = Returned ms' \<and> set ms' = set ms \<and> list_all is_done ms'
    \<and> map message_batch_id ms' = map Inr [0..<n]"
proof -
  have "mset (map done_id ms) = mset [0..<n]"
  proof (rule ccontr)
    assume "mset (map done_id ms) \<noteq> mset [0..<n]"
    moreover have "mset (map done_id ms) \<subseteq># mset [0..<n]"
      using assms(1,3) by (simp add: collected_ids_done)
    ultimately have "size (mset (map done_id ms)) < size (mset [0..<n])"
      by (intro mset_subset_size) (simp add: subset_mset.less_le)
    then show False using assms(2) by simp
  qed
  from sort_messages_done [OF assms(1) this] obtain ms' where
    m: "sort_messages ms = Inr ms'" "mset ms' = mset ms" "map message_batch_id ms' = map Inr [0..<n]" by blast
  have "set ms' = set ms" using m(2) by (metis set_mset_mset)
  then show ?thesis using m assms(1) by (auto simp: finish_run_def list_all_iff)
qed

lemma start_run_ok:
  assumes c: "contents_ok kind handle jobs st" and i: "job_queue st = []" "open_ids st = {#}"
    "loading st = 0" "startups st = 0"
  shows "pool_ok kind handle jobs (start_run kind jobs st)"
proof (cases jobs)
  case Nil
  then show ?thesis using c by (auto simp: start_run_def pool_ok_def contents_ok_def)
next
  case (Cons j js)
  define st' where "st' = start_run kind jobs st"
  have q: "job_queue st' = map Some (py_enumerate jobs)" and w: "workers st' = workers st"
    and r: "result_queue st' = result_queue st" and p: "phase st' = Running (kind j) (length jobs) []"
    and g: "pool_gpus st' = pool_gpus st"
    using i Cons by (simp_all add: st'_def start_run_def)
  have "(\<Sum>q\<leftarrow>map Some (py_enumerate xs). entry_ids q) = mset (map fst (py_enumerate xs))" for xs :: "'a list"
    by (induction xs rule: rev_induct) (auto simp: py_enumerate_append simp del: map_fst_py_enumerate, simp add: py_enumerate_def)
  then have "open_ids st' = mset [0..<length jobs]" using i(2) by (simp add: open_ids_def q w r)
  then have "phase_ok kind jobs st' (phase st')"
    using i Cons by (simp add: p account_defs w r collected_ids_def)
  moreover have "contents_ok kind handle jobs st'"
    using c by (auto simp: contents_ok_def q w r p g set_py_enumerate)
  ultimately show ?thesis by (simp add: pool_ok_def st'_def)
qed

lemma driver_receives_ok:
  fixes st :: "('j, 'r) pool"
  assumes ok: "pool_ok kind handle jobs st" and r: "driver_receives kind jobs k st = Some st'"
  shows "pool_ok kind handle jobs st'"
proof -
  have k: "k < length (result_queue st)" using r by (auto simp: driver_receives_def split: if_splits)
  define m where "m = result_queue st ! k"
  define st1 where "st1 = st\<lparr>result_queue := take k (result_queue st) @ drop (Suc k) (result_queue st)\<rparr>"
  note a = account_receive [OF k, folded st1_def m_def]
  have c: "contents_ok kind handle jobs st" and p: "phase_ok kind jobs st (phase st)"
    using ok by (auto simp: pool_ok_def)
  have gm: "good_message kind handle (pool_gpus st) jobs m" using c k by (auto simp: contents_ok_def m_def)
  have c1: "contents_ok kind handle jobs (st1\<lparr>phase := q\<rparr>)"
    if "\<forall>x \<in> set (collected q). good_message kind handle (pool_gpus st) jobs x" for q
    using c a(6) that by (auto simp: contents_ok_def a subset_iff)
  have gc: "\<forall>x \<in> set (collected (phase st)). good_message kind handle (pool_gpus st) jobs x"
    using c by (auto simp: contents_ok_def)
  have raised: "pool_ok kind handle jobs (st1\<lparr>phase := Raised e\<rparr>)" for e
    using c1 [of "Raised e"] by (simp add: pool_ok_def)
  show ?thesis
  proof (cases "phase st")
    case (Starting ms)
    show ?thesis
    proof (cases "accept_message ''ready'' m ms")
      case (Inl e)
      then have "st' = st1\<lparr>phase := Raised e\<rparr>"
        using r Starting k by (simp add: driver_receives_def Let_def m_def st1_def)
      then show ?thesis using raised by simp
    next
      case (Inr ms')
      then have ms': "ms' = ms @ [m]" and acc: "message_kind m = ''ready''" "message_ok m"
        by (auto simp: accept_message_Inr)
      have z: "open_ids st = {#}" "job_queue st = []" using p Starting by auto
      then have m: "is_ready m" using a(4) acc by (cases m) auto
      then have m1: "is_startup m = 1" by (cases m) auto
      have st': "st' = (if length ms' < length (workers st) then st1\<lparr>phase := Starting ms'\<rparr>
          else start_run kind jobs st1)"
        using r Starting k Inr by (auto simp: driver_receives_def Let_def m_def st1_def)
      show ?thesis
      proof (cases "length ms' < length (workers st)")
        case True
        then have "phase_ok kind jobs st' (phase st')"
          using p Starting a m m1 z by (auto simp: st' ms')
        moreover have "contents_ok kind handle jobs st'"
          using c1 [of "Starting ms'"] True gc Starting gm by (simp add: st' ms')
        ultimately show ?thesis by (simp add: pool_ok_def)
      next
        case False
        have "contents_ok kind handle jobs st1"
          using c a(6) by (auto simp: contents_ok_def a subset_iff)
        moreover have "loading st1 = 0" "startups st1 = 0" "job_queue st1 = []" "open_ids st1 = {#}"
          using p Starting False a z m1 by (auto simp: ms')
        ultimately show ?thesis using False start_run_ok by (simp add: st')
      qed
    qed
  next
    case (Running expected n ms)
    show ?thesis
    proof (cases "accept_message expected m ms")
      case (Inl e)
      then have "st' = st1\<lparr>phase := Raised e\<rparr>"
        using r Running k by (simp add: driver_receives_def Let_def m_def st1_def)
      then show ?thesis using raised by simp
    next
      case (Inr ms')
      then have ms': "ms' = ms @ [m]" and acc: "message_kind m = expected" "message_ok m"
        by (auto simp: accept_message_Inr)
      have "startups st = 0" using p Running by simp
      then have m: "is_done m" using a(3) acc by (cases m) auto
      have st': "st' = (if length ms' < n then st1\<lparr>phase := Running expected n ms'\<rparr>
          else st1\<lparr>phase := finish_run ms'\<rparr>)"
        using r Running k Inr by (auto simp: driver_receives_def Let_def m_def st1_def)
      have ids: "open_ids st1 + collected_ids ms' = open_ids st + collected_ids ms"
        using a(4) by (simp add: ms' collected_ids_def ac_simps)
      have d: "list_all is_done ms'" using p Running m by (simp add: ms')
      have sub: "open_ids st1 + collected_ids ms' \<subseteq># mset [0..<n]" using p Running ids by auto
      have g': "\<forall>x \<in> set ms'. good_message kind handle (pool_gpus st) jobs x"
        using gc gm Running by (simp add: ms')
      show ?thesis
      proof (cases "length ms' < n")
        case True
        then have "phase_ok kind jobs st' (phase st')"
          using p Running a d ids by (auto simp: st')
        moreover have "contents_ok kind handle jobs st'"
          using c1 [of "Running expected n ms'"] True g' by (simp add: st')
        ultimately show ?thesis by (simp add: pool_ok_def)
      next
        case False
        then have "length ms' = n" using p Running by (simp add: ms')
        moreover have "collected_ids ms' \<subseteq># mset [0..<n]"
          using sub by (metis mset_subset_eq_add_right subset_mset.order_trans)
        ultimately obtain ms'' where f: "finish_run ms' = Returned ms''" "set ms'' = set ms'"
          "list_all is_done ms''" "map message_batch_id ms'' = map Inr [0..<n]"
          using finish_run_ok d by blast
        then show ?thesis
          using False p Running c1 [of "Returned ms''"] g' by (simp add: st' pool_ok_def)
      qed
    qed
  qed (use r k in \<open>simp_all add: driver_receives_def Let_def\<close>)
qed

lemma driver_times_out_ok:
  "pool_ok kind handle jobs st \<Longrightarrow> driver_times_out st = Some st' \<Longrightarrow> pool_ok kind handle jobs st'"
  by (auto simp: driver_times_out_def pool_ok_def contents_ok_def split: phase.splits if_splits)

theorem pool_step_ok:
  "pool_ok kind handle jobs st \<Longrightarrow> pool_step kind handle jobs e st = Some st' \<Longrightarrow> pool_ok kind handle jobs st'"
  by (cases e) (auto intro: worker_loads_ok worker_takes_ok worker_answers_ok worker_crashes_ok
      driver_receives_ok driver_times_out_ok)

lemma pool_steps_ok:
  "pool_ok kind handle jobs st \<Longrightarrow> pool_steps kind handle jobs es st = Some st' \<Longrightarrow> pool_ok kind handle jobs st'"
proof (induction es arbitrary: st)
  case (Cons e es)
  then show ?case using pool_step_ok by (fastforce split: option.splits)
qed simp

lemma initial_pool_ok: "pool_ok kind handle jobs (initial_pool kind jobs gpus)"
proof (cases "gpus = []")
  case True
  then show ?thesis unfolding initial_pool_def Let_def
    by (simp, intro start_run_ok) (simp_all add: contents_ok_def account_defs)
next
  case False
  have "(\<Sum>w\<leftarrow>replicate n Loading. is_loading w) = n" "(\<Sum>w\<leftarrow>replicate n Loading. worker_ids w) = {#}" for n
    by (induction n) auto
  then show ?thesis using False
    by (auto simp: initial_pool_def Let_def pool_ok_def contents_ok_def account_defs)
qed

section \<open>What the driver returns\<close>

lemma pool_step_gpus: "pool_step kind handle jobs e st = Some st' \<Longrightarrow> pool_gpus st' = pool_gpus st"
  by (cases e) (auto simp: worker_loads_def worker_takes_def worker_answers_def worker_crashes_def
      driver_receives_def driver_times_out_def start_run_def Let_def
      split: option.splits worker.splits list.splits sum.splits phase.splits if_splits)

lemma pool_steps_gpus: "pool_steps kind handle jobs es st = Some st' \<Longrightarrow> pool_gpus st' = pool_gpus st"
proof (induction es arbitrary: st)
  case (Cons e es)
  then show ?case using pool_step_gpus by (fastforce split: option.splits)
qed simp

lemma initial_pool_gpus [simp]: "pool_gpus (initial_pool kind jobs gpus) = gpus"
  by (simp add: initial_pool_def start_run_def Let_def split: list.splits)

lemma run_pool_Inr:
  assumes "run_pool kind handle gpus jobs schedule = Some (Inr ms)"
  shows "length ms = length jobs"
    and "i < length jobs \<Longrightarrow> \<exists>g \<in> set gpus. \<exists>r. ms ! i = Done (kind (jobs ! i)) g i r \<and> handle g (jobs ! i) = Inr r"
proof -
  obtain st where st: "pool_steps kind handle jobs schedule (initial_pool kind jobs gpus) = Some st"
    and p: "phase st = Returned ms"
    using assms by (auto simp: run_pool_def split: option.splits phase.splits)
  have ok: "pool_ok kind handle jobs st" using pool_steps_ok [OF initial_pool_ok st] .
  have g: "pool_gpus st = gpus" using pool_steps_gpus [OF st] by simp
  have d: "list_all is_done ms" and b: "map message_batch_id ms = map Inr [0..<length jobs]"
    and c: "\<forall>m \<in> set ms. good_message kind handle gpus jobs m"
    using ok g by (auto simp: pool_ok_def p contents_ok_def)
  show l: "length ms = length jobs" using arg_cong [OF b, of length] by simp
  show "\<exists>g \<in> set gpus. \<exists>r. ms ! i = Done (kind (jobs ! i)) g i r \<and> handle g (jobs ! i) = Inr r" if "i < length jobs"
  proof -
    have "message_batch_id (ms ! i) = Inr i" "is_done (ms ! i)" "good_message kind handle gpus jobs (ms ! i)"
      using arg_cong [OF b, of "\<lambda>xs. xs ! i"] d c that l by (auto simp: list_all_length)
    then show ?thesis by (cases "ms ! i") auto
  qed
qed

section \<open>Termination\<close>

fun worker_work :: "'j worker \<Rightarrow> nat" where
  "worker_work Loading = 3"
| "worker_work Idle = 1"
| "worker_work (Busy i j) = 3"
| "worker_work Exited = 0"

fun entry_work :: "(nat \<times> 'j) option \<Rightarrow> nat" where
  "entry_work None = 0"
| "entry_work (Some p) = 3"

fun phase_work :: "nat \<Rightarrow> 'r phase \<Rightarrow> nat" where
  "phase_work n (Starting ms) = 3 * n + 1"
| "phase_work n (Running k m ms) = 1"
| "phase_work n (Returned ms) = 0"
| "phase_work n (Raised e) = 0"

definition work :: "'j list \<Rightarrow> ('j, 'r) pool \<Rightarrow> nat" where
  "work jobs st = (\<Sum>w\<leftarrow>workers st. worker_work w) + (\<Sum>q\<leftarrow>job_queue st. entry_work q)
     + length (result_queue st) + phase_work (length jobs) (phase st)"

lemma work_update_worker:
  "w < length (workers st) \<Longrightarrow>
     work jobs (update_worker w x st) + worker_work (workers st ! w) = work jobs st + worker_work x"
  using sum_list_list_update [of w "workers st" worker_work x] by (simp add: work_def)

lemma work_put_result: "work jobs (put_result m st) = work jobs st + 1"
  by (simp add: work_def)

lemma work_take: "job_queue st = q # qs \<Longrightarrow> work jobs (st\<lparr>job_queue := qs\<rparr>) + entry_work q = work jobs st"
  by (simp add: work_def)

lemma work_start_run: "work jobs (start_run kind jobs st) + 2 \<le> work jobs st + phase_work (length jobs) (Starting []) + 2
    - phase_work (length jobs) (phase st)"
proof -
  have "(\<Sum>q\<leftarrow>map Some xs. entry_work q) = 3 * length xs" for xs :: "(nat \<times> 'a) list"
    by (induction xs) auto
  from this [of "py_enumerate jobs"] show ?thesis
    by (cases jobs) (simp_all add: start_run_def work_def)
qed

lemma finish_run_work [simp]: "phase_work n (finish_run ms) = 0"
  by (simp add: finish_run_def split: sum.splits)

text \<open>Every event consumes work, except a wait that times out while every process is alive.\<close>

lemma pool_step_work:
  assumes "pool_step kind handle jobs e st = Some st'"
  shows "work jobs st' < work jobs st \<or> e = Times_Out \<and> st' = st"
proof (cases e)
  case (Receives k)
  then have r: "driver_receives kind jobs k st = Some st'" using assms by simp
  then have k: "k < length (result_queue st)" by (auto simp: driver_receives_def split: if_splits)
  define st1 where "st1 = st\<lparr>result_queue := take k (result_queue st) @ drop (Suc k) (result_queue st)\<rparr>"
  have w1: "work jobs st1 + 1 = work jobs st" using k by (simp add: st1_def work_def)
  have ph: "work jobs (st1\<lparr>phase := p\<rparr>) + phase_work (length jobs) (phase st) = work jobs st1 + phase_work (length jobs) p" for p
    by (simp add: work_def st1_def)
  have s: "phase st1 = phase st" by (simp add: st1_def)
  have p: "phase_work (length jobs) p \<le> phase_work (length jobs) (phase st) \<Longrightarrow> work jobs (st1\<lparr>phase := p\<rparr>) < work jobs st" for p
    using ph [of p] w1 by simp
  have "st' = start_run kind jobs st1 \<and> (\<exists>ms. phase st = Starting ms)
      \<or> (\<exists>p. st' = st1\<lparr>phase := p\<rparr> \<and> phase_work (length jobs) p \<le> phase_work (length jobs) (phase st))"
    using r k by (auto simp: driver_receives_def Let_def st1_def split: phase.splits sum.splits if_splits)
  then show ?thesis
  proof (elim disjE conjE exE)
    fix ms assume "st' = start_run kind jobs st1" "phase st = Starting ms"
    then show ?thesis using work_start_run [of jobs kind st1] w1 s by simp
  qed (auto dest: p)
next
  case (Takes w)
  obtain q qs where q: "job_queue st = q # qs" and w: "w < length (workers st)" "workers st ! w = Idle"
    using assms Takes by (auto simp: worker_takes_def split: option.splits worker.splits list.splits)
  define x where x: "x = (case q of None \<Rightarrow> Exited | Some (i, j) \<Rightarrow> Busy i j)"
  have st': "st' = update_worker w x (st\<lparr>job_queue := qs\<rparr>)" and x: "worker_work x = entry_work q"
    using assms Takes w q by (auto simp: worker_takes_def worker_at_def x update_worker_def split: option.splits)
  have "work jobs st' + 1 = work jobs st"
    using work_update_worker [of w "st\<lparr>job_queue := qs\<rparr>" jobs x] work_take [OF q, of jobs] w x
    by (simp add: st')
  then show ?thesis by simp
next
  case Times_Out
  then show ?thesis using assms
    by (auto simp: driver_times_out_def work_def split: phase.splits if_splits)
next
  case (Loads w)
  then have "w < length (workers st)" "workers st ! w = Loading"
    "st' = put_result (Ready (pool_gpus st ! w)) (update_worker w Idle st)"
    using assms by (auto simp: worker_loads_def split: option.splits worker.splits)
  then show ?thesis using work_update_worker [of w st jobs Idle] by (simp add: work_put_result)
next
  case (Load_Faults w e)
  then have "w < length (workers st)" "workers st ! w = Loading"
    "st' = put_result (Ready_Failed (pool_gpus st ! w) e) (update_worker w Exited st)"
    using assms by (auto simp: worker_loads_def split: option.splits worker.splits)
  then show ?thesis using work_update_worker [of w st jobs Exited] by (simp add: work_put_result)
next
  case (Crashes w)
  then have "w < length (workers st)" "workers st ! w \<noteq> Exited" "st' = update_worker w Exited st"
    using assms by (auto simp: worker_crashes_def worker_at_def split: if_splits worker.splits)
  then show ?thesis using work_update_worker [of w st jobs Exited] by (cases "workers st ! w") auto
next
  case (Finishes w)
  then obtain i j x m where "w < length (workers st)" "workers st ! w = Busy i j"
    "st' = put_result m (update_worker w x st)" "worker_work x \<le> 1"
    using assms by (auto simp: worker_answers_def split: option.splits worker.splits sum.splits)
  then show ?thesis using work_update_worker [of w st jobs x] by (simp add: work_put_result)
next
  case (Faults w e)
  then obtain i j m where "w < length (workers st)" "workers st ! w = Busy i j"
    "st' = put_result m (update_worker w Exited st)"
    using assms by (auto simp: worker_answers_def split: option.splits worker.splits sum.splits)
  then show ?thesis using work_update_worker [of w st jobs Exited] by (simp add: work_put_result)
qed

text \<open>
  The events that are the program's own steps: loading, taking, answering, receiving and waiting, but
  no failure from outside.
\<close>

fun healthy_event :: "event \<Rightarrow> bool" where
  "healthy_event (Load_Faults w e) = False"
| "healthy_event (Faults w e) = False"
| "healthy_event (Crashes w) = False"
| "healthy_event (Loads w) = True"
| "healthy_event (Takes w) = True"
| "healthy_event (Finishes w) = True"
| "healthy_event (Receives k) = True"
| "healthy_event Times_Out = True"

text \<open>While the driver waits, some step of the program that consumes work is possible.\<close>

lemma exited_pos: "(\<exists>w \<in> set (workers st). w = Exited) \<longleftrightarrow> exited st \<noteq> 0"
proof -
  have "is_exited w \<noteq> 0 \<longleftrightarrow> w = Exited" for w :: "'a worker" by (cases w) auto
  then show ?thesis by (auto simp: exited_def)
qed

lemma idle_accounts:
  "\<forall>w \<in> set ws. w = Idle \<Longrightarrow> (\<Sum>w\<leftarrow>ws. is_loading w) = 0 \<and> (\<Sum>w\<leftarrow>ws. worker_ids w) = {#}"
  by (induction ws) auto

lemma pool_progress:
  fixes st :: "('j, 'r) pool"
  assumes ok: "pool_ok kind handle jobs st" and g: "pool_gpus st \<noteq> []" and f: "\<not> is_final (phase st)"
  shows "\<exists>e st'. healthy_event e \<and> pool_step kind handle jobs e st = Some st' \<and> work jobs st' < work jobs st"
proof -
  have c: "contents_ok kind handle jobs st" and p: "phase_ok kind jobs st (phase st)"
    using ok by (auto simp: pool_ok_def)
  have step: ?thesis if "pool_step kind handle jobs e st = Some st'" "e \<noteq> Times_Out" "healthy_event e" for e st'
    using pool_step_work [OF that(1)] that by blast
  consider (receive) "result_queue st \<noteq> []" | (exit) "exited st \<noteq> 0"
    | (load) w where "w < length (workers st)" "workers st ! w = Loading"
    | (busy) w i j where "w < length (workers st)" "workers st ! w = Busy i j"
    | (idle) "result_queue st = []" "exited st = 0" "\<forall>w \<in> set (workers st). w = Idle"
  proof -
    have "\<exists>w < length (workers st). workers st ! w = x" if "x \<in> set (workers st)" for x
      using that by (auto simp: in_set_conv_nth)
    moreover have "w = Idle \<or> w = Loading \<or> w = Exited \<or> (\<exists>i j. w = Busy i j)" for w :: "'j worker"
      by (cases w) auto
    ultimately show ?thesis using that exited_pos [of st] by metis
  qed
  then show ?thesis
  proof cases
    case receive
    then have "\<exists>st'. driver_receives kind jobs 0 st = Some st'"
      using f by (cases "phase st") (auto simp: driver_receives_def Let_def)
    then show ?thesis using step [of "Receives 0"] by auto
  next
    case exit
    then have "driver_times_out st = Some (st\<lparr>phase := Raised (RuntimeError ''GPU workers exited before all messages arrived'')\<rparr>)"
      using f exited_pos [of st] by (cases "phase st") (auto simp: driver_times_out_def unexpected_worker_exits_def)
    moreover have "phase_work (length jobs) (phase st) > 0" using f by (cases "phase st") auto
    ultimately show ?thesis by (intro exI [of _ Times_Out]) (auto simp: work_def)
  next
    case (load w)
    then show ?thesis using step [of "Loads w"] by (simp add: worker_loads_def worker_at_def)
  next
    case (busy w i j)
    then show ?thesis using step [of "Finishes w"] by (simp add: worker_answers_def worker_at_def)
  next
    case idle
    have z: "loading st = 0" "(\<Sum>w\<leftarrow>workers st. worker_ids w) = {#}"
      using idle_accounts [OF idle(3)] by (auto simp: loading_def)
    show ?thesis
    proof (cases "phase st")
      case (Starting ms)
      then show ?thesis using p idle z by auto
    next
      case (Running k n ms)
      have "size (collected_ids ms) = length ms"
        using p Running by (simp add: collected_ids_done)
      then have "open_ids st \<noteq> {#}" using p Running idle(2) by auto
      then have "job_queue st \<noteq> []" using z idle by (auto simp: open_ids_def)
      moreover have "workers st \<noteq> []" using c g by (auto simp: contents_ok_def)
      moreover from this have "workers st ! 0 = Idle" using idle(3) by simp
      ultimately have "\<exists>st'. worker_takes 0 st = Some st'"
        by (cases "job_queue st"; cases "hd (job_queue st)") (auto simp: worker_takes_def worker_at_def)
      then obtain st' where "worker_takes 0 st = Some st'" by blast
      then show ?thesis using step [of "Takes 0"] by simp
    qed (use f in simp_all)
  qed
qed

lemma pool_steps_append:
  "pool_steps kind handle jobs (es @ es') st =
     Option.bind (pool_steps kind handle jobs es st) (pool_steps kind handle jobs es')"
  by (induction es arbitrary: st) (auto split: option.splits)

lemma pool_completes:
  assumes "pool_ok kind handle jobs st" "pool_gpus st \<noteq> []"
  shows "\<exists>es st'. list_all healthy_event es \<and> length es \<le> work jobs st \<and>
    pool_steps kind handle jobs es st = Some st' \<and> is_final (phase st')"
  using assms
proof (induction "work jobs st" arbitrary: st rule: less_induct)
  case less
  show ?case
  proof (cases "is_final (phase st)")
    case True
    then show ?thesis by (intro exI [of _ "[]"]) auto
  next
    case False
    obtain e st1 where e: "pool_step kind handle jobs e st = Some st1" "work jobs st1 < work jobs st" "healthy_event e"
      using pool_progress [OF less.prems False] by blast
    have "pool_ok kind handle jobs st1" "pool_gpus st1 \<noteq> []"
      using pool_step_ok [OF less.prems(1) e(1)] pool_step_gpus [OF e(1)] less.prems(2) by auto
    from less.hyps [OF e(2) this] obtain es st' where
      "list_all healthy_event es" "length es \<le> work jobs st1" "pool_steps kind handle jobs es st1 = Some st'" "is_final (phase st')" by blast
    then show ?thesis using e by (intro exI [of _ "e # es"] exI [of _ st']) auto
  qed
qed

lemma initial_work: "work jobs (initial_pool kind jobs gpus :: ('j, 'r) pool) \<le> 3 * length gpus + 3 * length jobs + 1"
proof (cases "gpus = []")
  case True
  then show ?thesis
    using work_start_run [of jobs kind "\<lparr>pool_gpus = [], workers = [], job_queue = [], result_queue = [], phase = Starting []\<rparr> :: ('j, 'r) pool"]
    by (simp add: initial_pool_def work_def)
next
  case False
  have "(\<Sum>w\<leftarrow>replicate n Loading. worker_work w) = 3 * n" for n by (induction n) auto
  then show ?thesis using False by (simp add: initial_pool_def work_def)
qed

text \<open>The events of a schedule that do something.\<close>

fun effective :: "event \<Rightarrow> bool" where
  "effective Times_Out = False"
| "effective (Loads w) = True"
| "effective (Load_Faults w e) = True"
| "effective (Takes w) = True"
| "effective (Finishes w) = True"
| "effective (Faults w e) = True"
| "effective (Crashes w) = True"
| "effective (Receives k) = True"

lemma pool_steps_bounded:
  "pool_steps kind handle jobs es st = Some st' \<Longrightarrow> length (filter effective es) + work jobs st' \<le> work jobs st"
proof (induction es arbitrary: st)
  case (Cons e es)
  then obtain st1 where s: "pool_step kind handle jobs e st = Some st1" "pool_steps kind handle jobs es st1 = Some st'"
    by (auto split: option.splits)
  have "work jobs st1 < work jobs st \<or> (\<not> effective e \<and> work jobs st1 = work jobs st)"
    using pool_step_work [OF s(1)] by auto
  then show ?case using Cons.IH [OF s(2)] by auto
qed simp

section \<open>Runs without faults\<close>

definition healthy :: "('j, 'r) pool \<Rightarrow> bool" where
  "healthy st \<longleftrightarrow> (\<forall>w \<in> set (workers st). w \<noteq> Exited) \<and> (\<forall>q \<in> set (job_queue st). q \<noteq> None)
     \<and> (\<forall>m \<in> set (result_queue st). message_ok m) \<and> (\<forall>e. phase st \<noteq> Raised e)"

lemma healthy_update_worker: "healthy st \<Longrightarrow> x \<noteq> Exited \<Longrightarrow> healthy (update_worker w x st)"
  by (auto simp: healthy_def dest!: set_update_subset_insert [THEN subsetD])

lemma healthy_put_result: "healthy st \<Longrightarrow> message_ok m \<Longrightarrow> healthy (put_result m st)"
  by (auto simp: healthy_def)

lemma finish_run_done: "list_all is_done ms \<Longrightarrow> \<exists>ms'. finish_run ms = Returned ms'"
proof -
  assume "list_all is_done ms"
  then have "emap message_batch_id ms = Inr (map done_id ms)"
    by (intro emap_all_Inr) (auto simp: list_all_iff is_done_batch_id)
  then show ?thesis by (simp add: finish_run_def sort_messages_def)
qed

lemma driver_receives_healthy:
  assumes ok: "pool_ok kind handle jobs st" and h: "healthy st"
    and same: "\<forall>j \<in> set jobs. kind j = kind (hd jobs)"
    and r: "driver_receives kind jobs k st = Some st'"
  shows "healthy st'"
proof -
  have k: "k < length (result_queue st)" using r by (auto simp: driver_receives_def split: if_splits)
  define m where "m = result_queue st ! k"
  define st1 where "st1 = st\<lparr>result_queue := take k (result_queue st) @ drop (Suc k) (result_queue st)\<rparr>"
  note a = account_receive [OF k, folded st1_def m_def]
  have c: "contents_ok kind handle jobs st" and p: "phase_ok kind jobs st (phase st)"
    using ok by (auto simp: pool_ok_def)
  have m: "message_ok m" "good_message kind handle (pool_gpus st) jobs m"
    using h k c by (auto simp: m_def healthy_def contents_ok_def)
  have h1: "healthy (st1\<lparr>phase := q\<rparr>)" if "\<forall>e. q \<noteq> Raised e" for q
    using h a(6,7,8) that by (auto simp: healthy_def)
  have hs: "healthy (start_run kind jobs st1)"
    using h a(6,7,8,10) by (auto simp: healthy_def start_run_def split: list.splits)
  show ?thesis
  proof (cases "phase st")
    case (Starting ms)
    have "message_kind m = ''ready''" using p Starting a(4) m by (cases m) auto
    then show ?thesis using r Starting k m h1 hs
      by (auto simp: driver_receives_def Let_def accept_message_def raise_if_def simp flip: m_def st1_def split: if_splits)
  next
    case (Running expected n ms)
    then have s: "startups st = 0" "expected = kind (hd jobs)" "list_all is_done ms" using p by auto
    then have d: "is_done m" using a(3) m by (cases m) auto
    moreover have "message_kind m = expected" using d m same s(2) by (cases m) auto
    moreover obtain ms' where "finish_run (ms @ [m]) = Returned ms'" using finish_run_done [of "ms @ [m]"] d s(3) by auto
    ultimately show ?thesis using r Running k m h1
      by (auto simp: driver_receives_def Let_def accept_message_def raise_if_def simp flip: m_def st1_def split: if_splits)
  qed (use r k in \<open>simp_all add: driver_receives_def Let_def\<close>)
qed

lemma pool_step_healthy:
  assumes ok: "pool_ok kind handle jobs st" and h: "healthy st"
    and same: "\<forall>j \<in> set jobs. kind j = kind (hd jobs)"
    and total: "\<And>g j. g \<in> set (pool_gpus st) \<Longrightarrow> j \<in> set jobs \<Longrightarrow> \<exists>r. handle g j = Inr r"
    and e: "healthy_event e" and s: "pool_step kind handle jobs e st = Some st'"
  shows "healthy st'"
proof (cases e)
  case (Loads w)
  then show ?thesis using s h
    by (auto simp: worker_loads_def intro!: healthy_put_result healthy_update_worker split: option.splits worker.splits)
next
  case (Takes w)
  then show ?thesis using s h
    by (auto simp: worker_takes_def healthy_def split: option.splits worker.splits list.splits
        dest!: set_update_subset_insert [THEN subsetD])
next
  case (Finishes w)
  then obtain i j where w: "w < length (workers st)" "workers st ! w = Busy i j"
    using s by (auto simp: worker_answers_def split: option.splits worker.splits)
  have c: "contents_ok kind handle jobs st" using ok by (simp add: pool_ok_def)
  have "j \<in> set jobs" using contents_worker [OF c w(1)] w by auto
  moreover have "pool_gpus st ! w \<in> set (pool_gpus st)" using c w by (auto simp: contents_ok_def)
  ultimately obtain r where "handle (pool_gpus st ! w) j = Inr r" using total by blast
  then have "st' = put_result (Done (kind j) (pool_gpus st ! w) i r) (update_worker w Idle st)"
    using s w Finishes by (simp add: worker_answers_def worker_at_def)
  then show ?thesis using h by (simp add: healthy_put_result healthy_update_worker)
next
  case (Receives k)
  then show ?thesis using driver_receives_healthy [OF ok h same] s by simp
next
  case Times_Out
  then have "st' = st" using s h
    by (auto simp: driver_times_out_def unexpected_worker_exits_def healthy_def split: phase.splits if_splits)
  then show ?thesis using h by simp
qed (use e in simp_all)

lemma pool_steps_healthy:
  assumes "pool_ok kind handle jobs st" "healthy st" "\<forall>j \<in> set jobs. kind j = kind (hd jobs)"
    and "\<And>g j. g \<in> set (pool_gpus st) \<Longrightarrow> j \<in> set jobs \<Longrightarrow> \<exists>r. handle g j = Inr r"
    and "list_all healthy_event es" "pool_steps kind handle jobs es st = Some st'"
  shows "healthy st'"
  using assms
proof (induction es arbitrary: st)
  case (Cons e es)
  then obtain st1 where s: "pool_step kind handle jobs e st = Some st1" "pool_steps kind handle jobs es st1 = Some st'"
    by (auto split: option.splits)
  have "healthy st1" using pool_step_healthy [OF Cons.prems(1-4) _ s(1)] Cons.prems(5) by simp
  then show ?case
    using Cons.IH [of st1] pool_step_ok [OF Cons.prems(1) s(1)] pool_step_gpus [OF s(1)] Cons.prems s by simp
qed simp

lemma initial_healthy: "healthy (initial_pool kind jobs gpus)"
  by (auto simp: healthy_def initial_pool_def start_run_def Let_def split: list.splits)

lemma run_pool_healthy:
  assumes "list_all healthy_event schedule"
    and "\<forall>j \<in> set jobs. kind j = kind (hd jobs)"
    and "\<forall>g \<in> set gpus. \<forall>j \<in> set jobs. \<exists>r. handle g j = Inr r"
    and "run_pool kind handle gpus jobs schedule = Some res"
  shows "\<exists>ms. res = Inr ms"
proof -
  obtain st where st: "pool_steps kind handle jobs schedule (initial_pool kind jobs gpus) = Some st"
    using assms(4) by (auto simp: run_pool_def split: option.splits)
  have "healthy st"
    using pool_steps_healthy [OF initial_pool_ok initial_healthy assms(2) _ assms(1) st] assms(3) by simp
  then show ?thesis using assms(4) st
    by (auto simp: run_pool_def healthy_def split: phase.splits)
qed

lemma run_pool_completes:
  assumes "gpus \<noteq> []"
    and "pool_steps kind handle jobs schedule (initial_pool kind jobs gpus) = Some st"
  shows "length (filter effective schedule) \<le> 3 * length gpus + 3 * length jobs + 1
    \<and> (\<exists>more res. list_all healthy_event more \<and> length more \<le> 3 * length gpus + 3 * length jobs + 1
        \<and> run_pool kind handle gpus jobs (schedule @ more) = Some res
        \<and> (list_all healthy_event schedule \<and> (\<forall>j \<in> set jobs. kind j = kind (hd jobs))
            \<and> (\<forall>g \<in> set gpus. \<forall>j \<in> set jobs. \<exists>r. handle g j = Inr r) \<longrightarrow> (\<exists>ms. res = Inr ms)))"
proof -
  have ok: "pool_ok kind handle jobs st" using pool_steps_ok [OF initial_pool_ok assms(2)] .
  have g: "pool_gpus st \<noteq> []" using pool_steps_gpus [OF assms(2)] assms(1) by simp
  have b: "length (filter effective schedule) + work jobs st \<le> 3 * length gpus + 3 * length jobs + 1"
    using pool_steps_bounded [OF assms(2)] initial_work [of jobs kind gpus] by (rule order_trans)
  obtain more st' where m: "list_all healthy_event more" "length more \<le> work jobs st"
    "pool_steps kind handle jobs more st = Some st'" "is_final (phase st')" using pool_completes [OF ok g] by blast
  then obtain res where r: "run_pool kind handle gpus jobs (schedule @ more) = Some res"
    by (cases "phase st'") (auto simp: run_pool_def pool_steps_append assms(2))
  have "\<exists>ms. res = Inr ms" if "list_all healthy_event schedule" "\<forall>j \<in> set jobs. kind j = kind (hd jobs)"
      "\<forall>g \<in> set gpus. \<forall>j \<in> set jobs. \<exists>r. handle g j = Inr r"
    by (rule run_pool_healthy [OF _ that(2,3) r]) (use that(1) m(1) in simp)
  then show ?thesis using b m(1,2) r by (intro conjI exI [of _ more] exI [of _ res]) (linarith | blast)+
qed

section \<open>The contract of the pool\<close>

text \<open>
  What the evaluation relies on: a finished run hands over the answers of its jobs, in the order of
  the jobs, whatever the schedule.
\<close>

lemma emap_append: "emap f (xs @ ys) = ebind (emap f xs) (\<lambda>us. ebind (emap f ys) (\<lambda>vs. Inr (us @ vs)))"
proof (induction xs)
  case Nil
  then show ?case by (cases "emap f ys") auto
next
  case (Cons x xs)
  then show ?case by (cases "f x"; cases "emap f xs"; cases "emap f ys") auto
qed

locale job_pool =
  fixes results :: "'j list \<Rightarrow> 'r list \<Rightarrow> bool"
    and answer :: "'j \<Rightarrow> 'r res"
  assumes results_answer: "results jobs rs \<Longrightarrow> emap answer jobs = Inr rs"
begin

lemma results_unique: "results jobs rs \<Longrightarrow> results jobs rs' \<Longrightarrow> rs = rs'"
  using results_answer [of jobs rs] results_answer [of jobs rs'] by simp

lemma results_length: "results jobs rs \<Longrightarrow> length rs = length jobs"
  using results_answer emap_Inr_length by blast

text \<open>Work that is done element by element does not depend on how it is cut into jobs.\<close>

lemma results_batched:
  assumes "results (map job batches) rs"
    and "\<And>b. b \<in> set batches \<Longrightarrow> answer (job b) = ebind (emap f b) (\<lambda>ys. Inr (reply ys))"
    and "\<And>ys. items (reply ys) = ys"
  shows "emap f (concat batches) = Inr (concat (map items rs))"
proof -
  have "emap answer (map job batches) = Inr rs" by (rule results_answer [OF assms(1)])
  then show ?thesis using assms(2)
  proof (induction batches arbitrary: rs)
    case (Cons b bs)
    then obtain ys rs' where b: "emap f b = Inr ys" "rs = reply ys # rs'" "emap answer (map job bs) = Inr rs'"
      by (auto simp: ebind_Inr)
    then show ?case using Cons.IH [of rs'] Cons.prems assms(3) by (simp add: emap_append)
  qed simp
qed

end

fun done_reply :: "'r message \<Rightarrow> 'r option" where
  "done_reply (Done k g i r) = Some r"
| "done_reply (Failed k g i e) = None"
| "done_reply (Ready g) = None"
| "done_reply (Ready_Failed g e) = None"

definition pool_results :: "('j \<Rightarrow> string) \<Rightarrow> (nat \<Rightarrow> 'j \<Rightarrow> 'r res) \<Rightarrow> nat list \<Rightarrow> 'j list \<Rightarrow> 'r list \<Rightarrow> bool" where
  "pool_results kind handle gpus jobs rs \<longleftrightarrow>
     (\<exists>schedule ms. run_pool kind handle gpus jobs schedule = Some (Inr ms) \<and> map done_reply ms = map Some rs)"

interpretation pool: job_pool "pool_results kind (\<lambda>g. answer) gpus" answer for kind gpus answer
proof
  fix jobs and rs :: "'b list"
  assume "pool_results kind (\<lambda>g. answer) gpus jobs rs"
  then obtain schedule ms where r: "run_pool kind (\<lambda>g. answer) gpus jobs schedule = Some (Inr ms)"
    and m: "map done_reply ms = map Some rs" by (auto simp: pool_results_def)
  have l: "length ms = length jobs" "length rs = length jobs"
    using run_pool_Inr(1) [OF r] arg_cong [OF m, of length] by auto
  have "answer (jobs ! i) = Inr (rs ! i)" if "i < length jobs" for i
    using run_pool_Inr(2) [OF r that] arg_cong [OF m, of "\<lambda>xs. xs ! i"] that l by auto
  then show "emap answer jobs = Inr rs" using l by (simp add: emap_Inr list_all2_conv_all_nth)
qed

section \<open>Properties\<close>

text \<open>
  C9: Whatever the order in which GPUs load, take batches, finish, fail or die, when
  \<open>GpuPool.run\<close> returns it returns one message per job, in the order of the jobs, each the
  successful answer some GPU computed for exactly that job; no job is lost, duplicated or swapped.
\<close>

theorem pool_returns_answers_in_order:
  assumes "run_pool kind handle gpus jobs schedule = Some (Inr ms)"
  shows "length ms = length jobs
    \<and> (\<forall>i < length jobs. \<exists>g \<in> set gpus. \<exists>r. ms ! i = Done (kind (jobs ! i)) g i r \<and> handle g (jobs ! i) = Inr r)"
  using run_pool_Inr [OF assms] by blast

lemma pool_returns_answers_in_order_witness:
  "\<exists>ms. run_pool (\<lambda>_. ''eval_batch'') (\<lambda>g j. Inr (j + 100 :: nat)) [4, 7] [10, 20, 30]
      [Loads 1, Loads 0, Receives 1, Times_Out, Receives 0, Takes 1, Takes 0, Finishes 0, Receives 0,
       Takes 0, Finishes 0, Finishes 1, Receives 0, Receives 0] = Some (Inr ms)
     \<and> length ms = 3 \<and> ms ! 2 = Done ''eval_batch'' 4 2 130"
proof -
  let ?run = "run_pool (\<lambda>_. ''eval_batch'') (\<lambda>g j. Inr (j + 100 :: nat)) [4, 7] [10, 20, 30 :: nat]
      [Loads 1, Loads 0, Receives 1, Times_Out, Receives 0, Takes 1, Takes 0, Finishes 0, Receives 0,
       Takes 0, Finishes 0, Finishes 1, Receives 0, Receives 0]"
  have r: "?run = Some (Inr [Done ''eval_batch'' 7 0 110, Done ''eval_batch'' 4 1 120, Done ''eval_batch'' 4 2 130])"
    by code_simp
  show ?thesis using pool_returns_answers_in_order [OF r] r by simp
qed

text \<open>
  C27: The driver never waits for ever. In every schedule at most
  \<open>3 * gpus + 3 * jobs + 1\<close> events other than timeouts happen. From every state that can be
  reached, whatever failed before, the program's own steps (loading, taking a job, answering,
  receiving, noticing dead processes at a timeout; no further failure) can end the run within as many
  events; and when nothing failed, the jobs have one kind and every job can be answered, it ends with
  the answers. A reply that is not put, a job that is not queued or an exit that is not noticed would
  leave a state in which no such step is possible.
\<close>

theorem pool_always_completes:
  assumes "gpus \<noteq> []"
    and "pool_steps kind handle jobs schedule (initial_pool kind jobs gpus) = Some st"
  shows "length (filter effective schedule) \<le> 3 * length gpus + 3 * length jobs + 1
    \<and> (\<exists>more res. list_all healthy_event more \<and> length more \<le> 3 * length gpus + 3 * length jobs + 1
        \<and> run_pool kind handle gpus jobs (schedule @ more) = Some res
        \<and> (list_all healthy_event schedule \<and> (\<forall>j \<in> set jobs. kind j = kind (hd jobs))
            \<and> (\<forall>g \<in> set gpus. \<forall>j \<in> set jobs. \<exists>r. handle g j = Inr r) \<longrightarrow> (\<exists>ms. res = Inr ms)))"
  using run_pool_completes [OF assms] .

lemma pool_always_completes_witness:
  "\<exists>more ms. list_all healthy_event more
     \<and> run_pool (\<lambda>_. ''generate'') (\<lambda>g j. Inr (j :: nat)) [0, 1] [5, 6, 7] ([Loads 0, Times_Out] @ more) = Some (Inr ms)"
proof -
  have "\<exists>st. pool_steps (\<lambda>_. ''generate'') (\<lambda>g j. Inr (j :: nat)) [5, 6, 7] [Loads 0, Times_Out]
      (initial_pool (\<lambda>_. ''generate'') [5, 6, 7] [0, 1]) = Some st"
    by (simp add: initial_pool_def worker_loads_def worker_at_def update_worker_def put_result_def driver_times_out_def
        unexpected_worker_exits_def)
  then obtain st where "pool_steps (\<lambda>_. ''generate'') (\<lambda>g j. Inr (j :: nat)) [5, 6, 7] [Loads 0, Times_Out]
      (initial_pool (\<lambda>_. ''generate'') [5, 6, 7] [0, 1]) = Some st" by blast
  from pool_always_completes [OF _ this] show ?thesis by auto
qed

end
