(* ===== verification/Evaluation_Correct.thy ===== *)
theory Evaluation_Correct
  imports Evaluation Pool_Correct Dataset_Correct "HOL-Library.Code_Target_Nat"
begin

text \<open>
  Correctness of the standalone evaluation: batching loses nothing, the counters of a question count
  what they say at every token limit, accepted settings never trip the guards of a worker, the result
  does not depend on GPU ids or scheduling, and the metrics are ordered fractions. Independence of
  the batch size is shown only for an engine that answers each request by itself.
\<close>

section \<open>Batches\<close>

lemma concat_chunks_prefix: "concat (map (\<lambda>i. take k (drop (i * k) xs)) [0..<m]) = take (m * k) xs"
proof (induction m)
  case (Suc m)
  have "take (m * k) xs @ take k (drop (m * k) xs) = take (m * k + k) xs" by (simp add: take_add)
  then show ?case using Suc by (simp add: add.commute)
qed simp

lemma concat_chunks: "0 < k \<Longrightarrow> concat (chunks k xs) = xs"
proof -
  assume k: "0 < k"
  have "length xs \<le> (length xs + k - 1) div k * k"
  proof -
    have "length xs + k - 1 = (length xs + k - 1) div k * k + (length xs + k - 1) mod k" by simp
    moreover have "(length xs + k - 1) mod k \<le> k - 1" using k by (metis Suc_pred' less_Suc_eq_le mod_less_divisor)
    ultimately show ?thesis using k by linarith
  qed
  then show ?thesis by (simp add: chunks_def concat_chunks_prefix)
qed

lemma chunk_size: "b \<in> set (chunks k xs) \<Longrightarrow> 0 < k \<Longrightarrow> 1 \<le> length b \<and> length b \<le> k"
proof -
  assume b: "b \<in> set (chunks k xs)" and k: "0 < k"
  then obtain i where i: "i < (length xs + k - 1) div k" "b = take k (drop (i * k) xs)" by (auto simp: chunks_def)
  have "Suc i * k \<le> length xs + k - 1"
    using i(1) by (metis Suc_leI div_times_less_eq_dividend mult_le_mono1 order_trans)
  then have "i * k < length xs" using k by simp
  then show ?thesis using i k by simp
qed

lemma chunks_subset: "b \<in> set (chunks k xs) \<Longrightarrow> x \<in> set b \<Longrightarrow> x \<in> set xs"
  by (auto simp: chunks_def dest: in_set_takeD in_set_dropD)

section \<open>Counters\<close>

text \<open>Dictionaries over a fixed list of keys.\<close>

lemma dict_put_map:
  "distinct ls \<Longrightarrow> l \<in> set ls \<Longrightarrow> dict_put l v (map (\<lambda>x. (x, c x)) ls) = map (\<lambda>x. (x, (c(l := v)) x)) ls"
  by (induction ls) auto

lemma dict_get_map: "l \<in> set ls \<Longrightarrow> dict_get l (map (\<lambda>x. (x, c x)) ls) = Some (c l)"
  by (induction ls) (auto simp: dict_get_def)

definition score_at :: "int list \<Rightarrow> ustr \<Rightarrow> ustr option \<Rightarrow> ustr \<Rightarrow> (int list \<Rightarrow> ustr) \<Rightarrow> (ustr \<Rightarrow> ustr \<Rightarrow> real) \<Rightarrow> int \<Rightarrow> length_score" where
  "score_at token_ids full_text finish_reason answer decode verify limit =
     (let shortened = int (length token_ids) > limit in
      \<lparr>ls_correct = verdict (verify (if shortened then decode (py_slice 0 limit token_ids) else full_text) answer),
       ls_tokens = min (int (length token_ids)) limit,
       ls_truncated = (shortened \<or> finish_reason = Some (lit ''length''))\<rparr>)"

text \<open>The cached verdict of the full text is invisible.\<close>

lemma score_completion:
  "score_completion_at_lengths token_ids full_text finish_reason answer limits decode verify =
     fold (\<lambda>l. dict_put l (score_at token_ids full_text finish_reason answer decode verify l)) limits []"
proof -
  have "fc = None \<or> fc = Some (verdict (verify full_text answer)) \<Longrightarrow>
      snd (fold (score_limit token_ids full_text finish_reason answer decode verify) limits (fc, d)) =
      fold (\<lambda>l. dict_put l (score_at token_ids full_text finish_reason answer decode verify l)) limits d" for fc d
  proof (induction limits arbitrary: fc d)
    case (Cons l limits)
    have "score_limit token_ids full_text finish_reason answer decode verify l (fc, d) =
        (if int (length token_ids) > l then fc else Some (verdict (verify full_text answer)),
         dict_put l (score_at token_ids full_text finish_reason answer decode verify l) d)"
      using Cons.prems by (auto simp: score_limit_def score_at_def Let_def)
    then show ?case using Cons.IH Cons.prems by auto
  qed simp
  then show ?thesis by (simp add: score_completion_at_lengths_def)
qed

lemma score_completion_distinct:
  "distinct limits \<Longrightarrow> score_completion_at_lengths token_ids full_text finish_reason answer limits decode verify =
     map (\<lambda>l. (l, score_at token_ids full_text finish_reason answer decode verify l)) limits"
  by (simp add: score_completion fold_dict_put)

definition add_counter :: "counters \<Rightarrow> length_score \<Rightarrow> counters" where
  "add_counter c s =
     \<lparr>ct_rollouts = ct_rollouts c + 1, ct_correct_count = ct_correct_count c + ls_correct s,
      ct_token_count = ct_token_count c + ls_tokens s,
      ct_truncated_count = ct_truncated_count c + (if ls_truncated s then 1 else 0)\<rparr>"

lemma add_scores:
  assumes "distinct limits" "distinct ls" "set ls \<subseteq> set limits"
  shows "efold add_score (map (\<lambda>l. (l, s l)) ls) (map (\<lambda>l. (l, c l)) limits) =
    Inr (map (\<lambda>l. (l, if l \<in> set ls then add_counter (c l) (s l) else c l)) limits)"
  using assms(2,3)
proof (induction ls arbitrary: c)
  case (Cons l ls)
  have "add_score (l, s l) (map (\<lambda>l. (l, c l)) limits) =
      Inr (map (\<lambda>x. (x, (c(l := add_counter (c l) (s l))) x)) limits)"
    using Cons.prems by (simp add: add_score_def dict_get_map dict_put_map [OF assms(1)] add_counter_def)
  then have "efold add_score (map (\<lambda>l. (l, s l)) (l # ls)) (map (\<lambda>l. (l, c l)) limits) =
      efold add_score (map (\<lambda>l. (l, s l)) ls) (map (\<lambda>x. (x, (c(l := add_counter (c l) (s l))) x)) limits)"
    by simp
  also have "\<dots> = Inr (map (\<lambda>x. (x, if x \<in> set ls then add_counter ((c(l := add_counter (c l) (s l))) x) (s x)
      else (c(l := add_counter (c l) (s l))) x)) limits)"
    using Cons.prems by (intro Cons.IH) auto
  finally show ?case using Cons.prems by (auto intro!: map_cong)
qed simp

text \<open>The score of one completion of a task.\<close>

definition completion_score :: "worker_env \<Rightarrow> batch_task \<Rightarrow> int \<Rightarrow> completion \<Rightarrow> length_score" where
  "completion_score we task limit c =
     score_at (co_token_ids c) (co_text c) (co_finish_reason c) (bt_answer task) (we_decode we)
       (\<lambda>response answer. we_verify we response answer (bt_dataset task)) limit"

definition kept_rollout :: "worker_env \<Rightarrow> batch_task \<Rightarrow> int \<Rightarrow> completion \<Rightarrow> rollout" where
  "kept_rollout we task limit c =
     \<lparr>ro_response_token_ids = trim_generated_ids (co_token_ids c) (we_eos we) (we_pad we),
      ro_finish_reason = co_finish_reason c, ro_correct = (ls_correct (completion_score we task limit c) \<noteq> 0)\<rparr>"

definition question_counters :: "worker_env \<Rightarrow> batch_task \<Rightarrow> completion list \<Rightarrow> int \<Rightarrow> counters" where
  "question_counters we task cs limit =
     \<lparr>ct_rollouts = length cs, ct_correct_count = (\<Sum>c\<leftarrow>cs. ls_correct (completion_score we task limit c)),
      ct_token_count = (\<Sum>c\<leftarrow>cs. min (int (length (co_token_ids c))) limit),
      ct_truncated_count = length (filter (\<lambda>c. ls_truncated (completion_score we task limit c)) cs)\<rparr>"

lemma ls_tokens_score [simp]: "ls_tokens (completion_score we task l c) = min (int (length (co_token_ids c))) l"
  by (simp add: completion_score_def score_at_def Let_def)

lemma ls_correct_le: "ls_correct (completion_score we task l c) \<le> 1"
  by (simp add: completion_score_def score_at_def Let_def verdict_def)

lemma question_counters_snoc:
  "question_counters we task (cs @ [c]) l = add_counter (question_counters we task cs l) (completion_score we task l c)"
  by (simp add: question_counters_def add_counter_def)

lemma score_rollouts:
  assumes d: "distinct (wc_length_control wc)" "wc_length_control wc \<noteq> []"
  shows "efold (score_rollout we wc task) cs
      (map (\<lambda>l. (l, question_counters we task [] l)) (wc_length_control wc), rs) =
    Inr (map (\<lambda>l. (l, question_counters we task cs l)) (wc_length_control wc),
         map_option (\<lambda>rs. rs @ map (kept_rollout we task (last (wc_length_control wc))) cs) rs)"
proof (induction cs rule: rev_induct)
  case (snoc c cs)
  let ?lc = "wc_length_control wc"
  have sc: "score_completion_at_lengths (co_token_ids c) (co_text c) (co_finish_reason c) (bt_answer task) ?lc
      (we_decode we) (\<lambda>response answer. we_verify we response answer (bt_dataset task)) =
      map (\<lambda>l. (l, completion_score we task l c)) ?lc"
    by (simp add: score_completion_distinct [OF d(1)] completion_score_def)
  have "score_rollout we wc task c (map (\<lambda>l. (l, question_counters we task cs l)) ?lc, rs') =
      Inr (map (\<lambda>l. (l, question_counters we task (cs @ [c]) l)) ?lc,
           map_option (\<lambda>rs. rs @ [kept_rollout we task (last ?lc) c]) rs')" for rs'
    using d by (simp add: score_rollout_def sc Let_def dict_get_map add_scores [OF d(1) d(1)] kept_rollout_def
        question_counters_snoc cong: map_cong)
  then show ?case using snoc by (simp add: efold_append option.map_comp comp_def)
qed (cases rs, simp_all)

lemma score_question_eq:
  assumes "distinct (wc_length_control wc)" "wc_length_control wc \<noteq> []" "int (length cs) = wc_n wc"
  shows "score_question we wc (task, cs) = Inr
    \<lparr>qr_dataset = bt_dataset task, qr_question_index = bt_question_index task,
     qr_lengths = map (\<lambda>l. (l, question_counters we task cs l)) (wc_length_control wc),
     qr_rollouts = (if bt_dataset task \<in> set (wc_collect_ids_datasets wc)
        then Some (map (kept_rollout we task (last (wc_length_control wc))) cs) else None)\<rparr>"
proof -
  have "fold (\<lambda>limit. dict_put limit \<lparr>ct_rollouts = 0, ct_correct_count = 0, ct_token_count = 0, ct_truncated_count = 0\<rparr>)
      (wc_length_control wc) [] = map (\<lambda>l. (l, question_counters we task [] l)) (wc_length_control wc)"
    using fold_dict_put [OF assms(1), of "[]" "\<lambda>l. \<lparr>ct_rollouts = 0, ct_correct_count = 0, ct_token_count = 0, ct_truncated_count = 0\<rparr>"]
    by (simp add: question_counters_def)
  then show ?thesis
    using assms(3) by (simp add: score_question_def score_rollouts [OF assms(1,2)])
qed

section \<open>Accepted settings\<close>

lemma yaml_integer_Inr: "yaml_integer m v = Inr i \<longleftrightarrow> v = Y_Int i \<and> (\<forall>k. m = Some k \<longrightarrow> k \<le> i)"
  by (cases v) (auto simp: raise_if_def split: option.splits)

lemma emap_integers: "emap (yaml_integer (Some k)) vs = Inr is \<Longrightarrow> length is = length vs \<and> (\<forall>i \<in> set is. k \<le> i)"
  by (auto simp: emap_Inr_length elim!: emap_Inr_all [THEN bspec] simp: yaml_integer_Inr)

definition config_ok :: "eval_config \<Rightarrow> bool" where
  "config_ok config \<longleftrightarrow>
     (let n = sa_n (ev_sampling config); rollouts = rt_rollouts_per_gpu_batch (ev_runtime config);
          lengths = ev_length_control config; gpus = rt_gpus (ev_runtime config) in
      1 \<le> n \<and> 1 \<le> rollouts \<and> n dvd rollouts
      \<and> lengths \<noteq> [] \<and> sorted lengths \<and> distinct lengths \<and> (\<forall>l \<in> set lengths. 1 \<le> l)
      \<and> last lengths = sa_max_new_tokens (ev_sampling config)
      \<and> gpus \<noteq> [] \<and> distinct gpus \<and> (\<forall>g \<in> set gpus. 0 \<le> g)
      \<and> sa_max_new_tokens (ev_sampling config) < en_max_model_len (ev_engine config))"

lemma load_sampling_ok: "load_sampling raw = Inr s \<Longrightarrow> 1 \<le> sa_n s \<and> 1 \<le> sa_max_new_tokens s"
  by (auto simp: load_sampling_def res_simps yaml_integer_Inr)

lemma yaml_case_Inr:
  "(case v of Y_List l \<Rightarrow> f l | _ \<Rightarrow> Inl e) = Inr r \<longleftrightarrow> (\<exists>l. v = Y_List l \<and> f l = Inr r)"
  "(case v of Y_Str t \<Rightarrow> g t | _ \<Rightarrow> Inl e) = Inr r \<longleftrightarrow> (\<exists>t. v = Y_Str t \<and> g t = Inr r)"
  by (cases v; auto)+

lemma load_lengths_ok:
  assumes "load_lengths raw m = Inr ls"
  shows "ls \<noteq> [] \<and> sorted ls \<and> distinct ls \<and> (\<forall>l \<in> set ls. 1 \<le> l) \<and> last ls = m"
proof -
  obtain vs where v: "vs \<noteq> []" "emap (yaml_integer (Some 1)) vs = Inr ls" "sort (remdups ls) = ls" "last ls = m"
    using assms by (auto simp: load_lengths_def ebind_Inr raise_if_Inr yaml_case_Inr)
  have "sorted ls" "distinct ls" using v(3) by (metis sorted_sort, metis distinct_remdups distinct_sort)
  then show ?thesis using emap_integers [OF v(2)] v by auto
qed

lemma load_runtime_ok:
  assumes "load_runtime raw n = Inr r"
  shows "rt_gpus r \<noteq> [] \<and> distinct (rt_gpus r) \<and> (\<forall>g \<in> set (rt_gpus r). 0 \<le> g)
    \<and> 1 \<le> rt_rollouts_per_gpu_batch r \<and> n dvd rt_rollouts_per_gpu_batch r"
proof -
  obtain vs where v: "vs \<noteq> []" "emap (yaml_integer (Some 0)) vs = Inr (rt_gpus r)" "distinct (rt_gpus r)"
    "1 \<le> rt_rollouts_per_gpu_batch r" "rt_rollouts_per_gpu_batch r mod n = 0"
    using assms by (auto simp: load_runtime_def ebind_Inr raise_if_Inr yaml_integer_Inr yaml_case_Inr)
  then show ?thesis using emap_integers [OF v(2)] by auto
qed

lemma load_engine_ok: "load_engine raw m = Inr e \<Longrightarrow> m < en_max_model_len e"
  by (auto simp: load_engine_def ebind_Inr raise_if_Inr yaml_case_Inr)

lemma load_numeric_config_ok: "load_numeric_config raw = Inr config \<Longrightarrow> config_ok config"
  by (auto simp: load_numeric_config_def ebind_Inr config_ok_def Let_def
      dest!: load_sampling_ok load_lengths_ok load_runtime_ok load_engine_ok)

lemma config_ok_batches:
  assumes "config_ok config"
  shows "1 \<le> questions_per_gpu_batch config"
    and "questions_per_gpu_batch config * sa_n (ev_sampling config) = rt_rollouts_per_gpu_batch (ev_runtime config)"
proof -
  define n r where "n = sa_n (ev_sampling config)" "r = rt_rollouts_per_gpu_batch (ev_runtime config)"
  have "1 \<le> n" "1 \<le> r" "n dvd r" using assms by (auto simp: config_ok_def Let_def n_r_def)
  then obtain k where k: "r = n * k" by (auto elim: dvdE)
  then have "0 < k" using \<open>1 \<le> n\<close> \<open>1 \<le> r\<close> by (smt (verit) mult_nonneg_nonpos)
  then have "questions_per_gpu_batch config = k"
    using \<open>1 \<le> n\<close> k by (simp add: questions_per_gpu_batch_def n_r_def [symmetric])
  then show "1 \<le> questions_per_gpu_batch config"
    "questions_per_gpu_batch config * sa_n (ev_sampling config) = rt_rollouts_per_gpu_batch (ev_runtime config)"
    using k \<open>0 < k\<close> by (simp_all add: n_r_def [symmetric] mult.commute)
qed

section \<open>One batch\<close>

text \<open>
  An engine that answers every request of a call, whatever the other requests are. Exact batch
  invariance is an assumption on the serving library, not a fact of the program.
\<close>

definition answers_each :: "worker_env \<Rightarrow> llm_engine \<Rightarrow> (int list \<times> sampling_params \<Rightarrow> completion list) \<Rightarrow> bool" where
  "answers_each we engine answer \<longleftrightarrow> (\<forall>requests. we_llm we engine requests = Inr (map answer requests))"

definition engine_of :: "eval_config \<Rightarrow> llm_engine" where
  "engine_of config = engine_kwargs (worker_config_of config [])"

lemma engine_kwargs_of [simp]: "engine_kwargs (worker_config_of config collect_ids) = engine_of config"
  by (simp add: engine_of_def engine_kwargs_def worker_config_of_def)

lemma emap_map: "emap f (map g xs) = emap (\<lambda>x. f (g x)) xs"
  by (induction xs) auto

lemma emap_cong_set: "(\<And>x. x \<in> set xs \<Longrightarrow> f x = g x) \<Longrightarrow> emap f xs = emap g xs"
  by (induction xs) auto

lemma zip_map_self: "zip xs (map f xs) = map (\<lambda>x. (x, f x)) xs"
  by (induction xs) auto

definition task_result :: "worker_env \<Rightarrow> worker_config \<Rightarrow> (int list \<times> sampling_params \<Rightarrow> completion list)
    \<Rightarrow> batch_task \<Rightarrow> question_result res" where
  "task_result we wc answer task = score_question we wc (task, answer (bt_prompt_token_ids task, eval_params wc))"

lemma run_eval_batch_job_eq:
  assumes "answers_each we (engine_kwargs wc) answer" "1 \<le> length batch" "int (length batch) \<le> wc_questions_per_gpu_batch wc"
    and "int (length batch) * wc_n wc \<le> wc_rollouts_per_gpu_batch wc"
  shows "run_eval_batch_job we wc batch = emap (task_result we wc answer) batch"
  using assms
  by (simp add: run_eval_batch_job_def answers_each_def zip_map_self emap_map task_result_def [abs_def] comp_def)

section \<open>What the pool hands over\<close>

lemma run_pool_results:
  assumes "run_pool kind (\<lambda>g. answer) gpus jobs schedule = Some (Inr ms)"
  obtains rs where "pool_results kind (\<lambda>g. answer) gpus jobs rs" "map done_reply ms = map Some rs"
proof -
  have "\<forall>m \<in> set ms. \<exists>r. done_reply m = Some r"
    using run_pool_Inr [OF assms] by (fastforce simp: in_set_conv_nth)
  then have m: "map done_reply ms = map Some (map (\<lambda>m. the (done_reply m)) ms)" by force
  then have "pool_results kind (\<lambda>g. answer) gpus jobs (map (\<lambda>m. the (done_reply m)) ms)"
    unfolding pool_results_def using assms by blast
  then show ?thesis using that m by blast
qed

text \<open>What a driver reads from the messages is what the jobs give one after the other.\<close>

lemma pool_reads:
  assumes run: "run_pool kind (\<lambda>g. answer) gpus jobs schedule = Some (Inr ms)"
    and read: "emap read ms = Inr yss"
    and job: "\<And>j k g i r ys. j \<in> set jobs \<Longrightarrow> answer j = Inr r \<Longrightarrow> read (Done k g i r) = Inr ys \<Longrightarrow> h j = Inr ys"
  shows "emap h jobs = Inr yss"
proof -
  have l: "length ms = length jobs" "length yss = length ms"
    using run_pool_Inr(1) [OF run] emap_Inr_length [OF read] by auto
  have "h (jobs ! i) = Inr (yss ! i)" if i: "i < length jobs" for i
  proof -
    obtain g r where "ms ! i = Done (kind (jobs ! i)) g i r" "answer (jobs ! i) = Inr r"
      using run_pool_Inr(2) [OF run i] by blast
    then show ?thesis using job [OF nth_mem [OF i]] emap_Inr_nth [OF read, of i] i l by auto
  qed
  then show ?thesis using l by (simp add: emap_Inr list_all2_conv_all_nth)
qed

text \<open>
  Batched work: \<open>mk\<close> makes the job of a batch, \<open>reply\<close> wraps the answers, \<open>read\<close> is what the
  driver reads from a message.
\<close>

lemma batched_pool:
  assumes run: "run_pool kind (\<lambda>g. answer) gpus (map mk batches) schedule = Some (Inr ms)"
    and job: "\<And>b. b \<in> set batches \<Longrightarrow> answer (mk b) = ebind (emap f b) (\<lambda>ys. Inr (reply ys))"
    and read: "\<And>k g i ys. read (Done k g i (reply ys)) = Inr ys"
    and inj: "\<And>ys. items (reply ys) = ys"
  shows "\<exists>yss. emap read ms = Inr yss \<and> emap f (concat batches) = Inr (concat yss)"
proof -
  obtain rs where r: "pool_results kind (\<lambda>g. answer) gpus (map mk batches) rs" and m: "map done_reply ms = map Some rs"
    using run_pool_results [OF run] by blast
  have e: "emap f (concat batches) = Inr (concat (map items rs))"
    by (rule pool.results_batched [OF r job inj])
  have a: "emap answer (map mk batches) = Inr rs" by (rule pool.results_answer [OF r])
  have reply: "\<forall>x \<in> set rs. x = reply (items x)"
    using a by (rule emap_Inr_all) (auto simp: job ebind_Inr inj)
  have "emap read ms = Inr (map items rs)"
    using m reply
  proof (induction ms arbitrary: rs)
    case (Cons m ms)
    then obtain x xs where rs: "rs = x # xs" "done_reply m = Some x" "map done_reply ms = map Some xs" by (cases rs) auto
    then obtain k g i where "m = Done k g i x" by (cases m) auto
    moreover have "x = reply (items x)" using Cons.prems rs by simp
    ultimately have "read m = Inr (items x)" using read by metis
    then show ?case using Cons rs by simp
  qed simp
  then show ?thesis using e by blast
qed

section \<open>The evaluation of a model\<close>

text \<open>
  The reference: one question after the other, no batches, no pool.
\<close>

definition reference_evaluation :: "worker_env \<Rightarrow> (int list \<times> sampling_params \<Rightarrow> completion list) \<Rightarrow> eval_config
    \<Rightarrow> ustr list \<Rightarrow> ustr list \<Rightarrow> eval_task list \<Rightarrow> (ustr \<times> nat) list \<Rightarrow> evaluation res" where
  "reference_evaluation we answer config val_datasets collect_ids tasks counts =
     ebind (emap (\<lambda>t. task_result we (worker_config_of config collect_ids) answer (batch_task_of t)) tasks)
       (finish_evaluation config val_datasets tasks counts)"

definition eval_job :: "batch_task list \<Rightarrow> job" where
  "eval_job batch = \<lparr>jb_kind = ''eval_batch'', jb_tasks = batch, jb_requests = []\<rparr>"

fun reply_questions :: "reply \<Rightarrow> question_result list" where
  "reply_questions (Questions qs) = qs"
| "reply_questions (Outputs os) = []"

fun reply_outputs :: "reply \<Rightarrow> int list list" where
  "reply_outputs (Outputs os) = os"
| "reply_outputs (Questions qs) = []"

definition eval_batch_size :: "eval_config \<Rightarrow> eval_task list \<Rightarrow> int" where
  "eval_batch_size config tasks =
     (let gpus = int (length (rt_gpus (ev_runtime config))) in
      min (questions_per_gpu_batch config) (max 1 ((int (length tasks) + gpus - 1) div gpus)))"

definition eval_batches :: "eval_config \<Rightarrow> eval_task list \<Rightarrow> batch_task list list" where
  "eval_batches config tasks = map (map batch_task_of) (chunks (nat (eval_batch_size config tasks)) tasks)"

lemma evaluate_model_eq:
  assumes "config_ok config" "tasks \<noteq> []"
  shows "evaluate_model we config val_datasets collect_ids tasks counts schedule =
      map_option (\<lambda>run. ebind run (\<lambda>messages.
            ebind (emap questions_of messages) (\<lambda>qss. finish_evaluation config val_datasets tasks counts (concat qss))))
        (run_pool jb_kind (\<lambda>g. run_job we (worker_config_of config collect_ids)) (map nat (rt_gpus (ev_runtime config)))
          (map eval_job (eval_batches config tasks)) schedule)"
    and "concat (eval_batches config tasks) = map batch_task_of tasks"
    and "b \<in> set (eval_batches config tasks) \<Longrightarrow> 1 \<le> length b \<and> int (length b) \<le> questions_per_gpu_batch config
      \<and> int (length b) * sa_n (ev_sampling config) \<le> rt_rollouts_per_gpu_batch (ev_runtime config)"
proof -
  have q: "1 \<le> questions_per_gpu_batch config" using config_ok_batches(1) [OF assms(1)] .
  then have s: "1 \<le> eval_batch_size config tasks" "eval_batch_size config tasks \<le> questions_per_gpu_batch config"
    by (auto simp: eval_batch_size_def Let_def)
  have g: "rt_gpus (ev_runtime config) \<noteq> []" "0 \<le> sa_n (ev_sampling config)"
    using assms(1) by (auto simp: config_ok_def Let_def)
  have "make_batches tasks (eval_batch_size config tasks) = Inr (eval_batches config tasks)"
    using s assms(2) by (simp add: make_batches_def eval_batches_def)
  then show "evaluate_model we config val_datasets collect_ids tasks counts schedule =
      map_option (\<lambda>run. ebind run (\<lambda>messages.
            ebind (emap questions_of messages) (\<lambda>qss. finish_evaluation config val_datasets tasks counts (concat qss))))
        (run_pool jb_kind (\<lambda>g. run_job we (worker_config_of config collect_ids)) (map nat (rt_gpus (ev_runtime config)))
          (map eval_job (eval_batches config tasks)) schedule)"
    using g by (simp add: evaluate_model_def eval_batch_size_def Let_def eval_job_def [abs_def])
  show "concat (eval_batches config tasks) = map batch_task_of tasks"
    using concat_chunks [of "nat (eval_batch_size config tasks)" tasks] s
    by (simp add: eval_batches_def map_concat [symmetric])
  assume "b \<in> set (eval_batches config tasks)"
  then have b: "1 \<le> length b" "int (length b) \<le> questions_per_gpu_batch config"
    using chunk_size [of _ "nat (eval_batch_size config tasks)" tasks] s by (fastforce simp: eval_batches_def)+
  moreover have "int (length b) * sa_n (ev_sampling config) \<le> rt_rollouts_per_gpu_batch (ev_runtime config)"
    using mult_right_mono [OF b(2) g(2)] config_ok_batches(2) [OF assms(1)] by simp
  ultimately show "1 \<le> length b \<and> int (length b) \<le> questions_per_gpu_batch config
      \<and> int (length b) * sa_n (ev_sampling config) \<le> rt_rollouts_per_gpu_batch (ev_runtime config)" by blast
qed

lemma eval_job_result:
  assumes "config_ok config" "tasks \<noteq> []" "answers_each we (engine_of config) answer" "b \<in> set (eval_batches config tasks)"
  shows "run_job we (worker_config_of config collect_ids) (eval_job b) =
    ebind (emap (task_result we (worker_config_of config collect_ids) answer) b) (\<lambda>qs. Inr (Questions qs))"
proof -
  let ?wc = "worker_config_of config collect_ids"
  have "run_eval_batch_job we ?wc b = emap (task_result we ?wc answer) b"
    by (rule run_eval_batch_job_eq) (use assms(3) evaluate_model_eq(3) [OF assms(1,2,4)] in \<open>simp_all, simp_all add: worker_config_of_def\<close>)
  then show ?thesis by (simp add: run_job_def eval_job_def)
qed

lemma evaluate_model_reference:
  assumes ok: "config_ok config" "tasks \<noteq> []" and llm: "answers_each we (engine_of config) answer"
    and run: "evaluate_model we config val_datasets collect_ids tasks counts schedule = Some (Inr result)"
  shows "reference_evaluation we answer config val_datasets collect_ids tasks counts = Inr result"
proof -
  let ?wc = "worker_config_of config collect_ids"
  obtain ms qss where m: "run_pool jb_kind (\<lambda>g. run_job we ?wc) (map nat (rt_gpus (ev_runtime config)))
      (map eval_job (eval_batches config tasks)) schedule = Some (Inr ms)"
    and q: "emap questions_of ms = Inr qss"
    and f: "finish_evaluation config val_datasets tasks counts (concat qss) = Inr result"
    using run by (auto simp: evaluate_model_eq(1) [OF ok] ebind_Inr simp del: emap_Inr)
  from batched_pool [OF m eval_job_result [OF ok llm], of questions_of reply_questions]
  obtain yss where "emap questions_of ms = Inr yss"
    "emap (task_result we ?wc answer) (concat (eval_batches config tasks)) = Inr (concat yss)" by auto
  then show ?thesis using q f
    by (simp add: reference_evaluation_def evaluate_model_eq(2) [OF ok] emap_map)
qed

text \<open>Without a pool: the batches of a configuration, one after the other.\<close>

definition sequential_evaluation :: "worker_env \<Rightarrow> eval_config \<Rightarrow> ustr list \<Rightarrow> ustr list \<Rightarrow> eval_task list \<Rightarrow> (ustr \<times> nat) list
    \<Rightarrow> evaluation res" where
  "sequential_evaluation we config val_datasets collect_ids tasks counts =
     ebind (make_batches tasks (eval_batch_size config tasks)) (\<lambda>batches.
     ebind (emap (run_eval_batch_job we (worker_config_of config collect_ids)) batches) (\<lambda>qss.
     finish_evaluation config val_datasets tasks counts (concat qss)))"

lemma evaluate_model_sequential:
  assumes "evaluate_model we config val_datasets collect_ids tasks counts schedule = Some (Inr result)"
  shows "sequential_evaluation we config val_datasets collect_ids tasks counts = Inr result"
proof -
  let ?wc = "worker_config_of config collect_ids"
  obtain batches ms qss where b: "make_batches tasks (eval_batch_size config tasks) = Inr batches"
    and m: "run_pool jb_kind (\<lambda>g. run_job we ?wc) (map nat (rt_gpus (ev_runtime config))) (map eval_job batches) schedule = Some (Inr ms)"
    and q: "emap questions_of ms = Inr qss"
    and f: "finish_evaluation config val_datasets tasks counts (concat qss) = Inr result"
    using assms
    by (auto simp: evaluate_model_def Let_def eval_batch_size_def eval_job_def [abs_def] ebind_Inr
        simp del: emap_Inr split: if_splits sum.splits)
  have "emap (\<lambda>j. run_eval_batch_job we ?wc (jb_tasks j)) (map eval_job batches) = Inr qss"
  proof (rule pool_reads [OF m q])
    fix j k g i r ys
    assume "j \<in> set (map eval_job batches)" "run_job we ?wc j = Inr r" "questions_of (Done k g i r) = Inr ys"
    then show "run_eval_batch_job we ?wc (jb_tasks j) = Inr ys"
      by (cases r) (auto simp: run_job_def eval_job_def ebind_Inr)
  qed
  then have "emap (run_eval_batch_job we ?wc) batches = Inr qss" by (simp add: emap_map eval_job_def)
  then show ?thesis using b f by (simp add: sequential_evaluation_def)
qed

lemma sequential_gpus:
  assumes "length gpus = length (rt_gpus (ev_runtime config))"
  shows "sequential_evaluation we (config\<lparr>ev_runtime := (ev_runtime config)\<lparr>rt_gpus := gpus\<rparr>\<rparr>) val_datasets collect_ids tasks counts =
    sequential_evaluation we config val_datasets collect_ids tasks counts"
proof -
  let ?config = "config\<lparr>ev_runtime := (ev_runtime config)\<lparr>rt_gpus := gpus\<rparr>\<rparr>"
  have "worker_config_of ?config collect_ids = worker_config_of config collect_ids"
    by (simp add: worker_config_of_def questions_per_gpu_batch_def)
  moreover have "eval_batch_size ?config tasks = eval_batch_size config tasks"
    using assms by (simp add: eval_batch_size_def questions_per_gpu_batch_def)
  moreover have "finish_evaluation ?config = finish_evaluation config"
    by (intro ext) (simp add: finish_evaluation_def)
  ultimately show ?thesis by (simp add: sequential_evaluation_def)
qed

section \<open>Metrics\<close>

lemma set_dict_put: "set (dict_put k v d) \<subseteq> insert (k, v) (set d)"
  by (induction k v d rule: dict_put.induct) auto

lemma efold_dict:
  "efold (\<lambda>x d. ebind (f x) (\<lambda>s. Inr (dict_put x s d))) xs d0 = Inr d \<Longrightarrow> (k, v) \<in> set d
    \<Longrightarrow> (k, v) \<in> set d0 \<or> k \<in> set xs \<and> f k = Inr v"
proof (induction xs arbitrary: d0)
  case (Cons x xs)
  then obtain s where s: "f x = Inr s" "efold (\<lambda>x d. ebind (f x) (\<lambda>s. Inr (dict_put x s d))) xs (dict_put x s d0) = Inr d"
    by (auto simp: ebind_Inr)
  then show ?case using Cons.IH [OF s(2) Cons.prems(2)] set_dict_put [of x s d0] by auto
qed simp

lemma efold_dict_total:
  "(\<And>x. x \<in> set xs \<Longrightarrow> \<exists>s. f x = Inr s) \<Longrightarrow> \<exists>d. efold (\<lambda>x d. ebind (f x) (\<lambda>s. Inr (dict_put x s d))) xs d0 = Inr d"
  by (induction xs arbitrary: d0) fastforce+

definition totals_ok :: "int \<Rightarrow> nat \<Rightarrow> limit_totals \<Rightarrow> bool" where
  "totals_ok n k t \<longleftrightarrow> int (lt_correct_count t) \<le> n * int (lt_passed_questions t)
     \<and> lt_passed_questions t \<le> lt_correct_count t \<and> lt_passed_questions t \<le> k"

lemma add_questions_ok:
  "efold (add_question n limit) rs t0 = Inr t \<Longrightarrow> totals_ok n k t0 \<Longrightarrow> totals_ok n (k + length rs) t"
proof (induction rs arbitrary: t0 k)
  case (Cons r rs)
  then obtain t1 where t1: "add_question n limit r t0 = Inr t1" "efold (add_question n limit) rs t1 = Inr t"
    by (auto simp: ebind_Inr)
  have "totals_ok n (Suc k) t1"
    using t1(1) Cons.prems(2)
    by (auto simp: add_question_def totals_ok_def res_simps algebra_simps split: option.splits)
  then show ?case using Cons.IH [OF t1(2), of "Suc k"] by simp
qed simp

lemma expected_keys_dataset:
  assumes "distinct (map fst counts)" "dict_get dataset counts = Some c"
  shows "{k \<in> set (expected_keys counts). fst k = dataset} = Pair dataset ` {0..<c}"
proof -
  have "(dataset, c') \<in> set counts \<longleftrightarrow> c' = c" for c'
    using assms by (metis dict_get_def eq_key_imp_eq_value map_of_SomeD)
  moreover have "set (expected_keys counts) = {(d, i). \<exists>c'. (d, c') \<in> set counts \<and> i < c'}"
    by (auto simp: expected_keys_def)
  ultimately show ?thesis by auto
qed

lemma count_keys_expected: "count_keys = expected_keys"
  by (intro ext) (simp add: count_keys_def expected_keys_def)

lemma dataset_result_count:
  assumes d: "distinct (map fst counts)" and c: "dict_get dataset counts = Some c"
    and k: "distinct (map result_key qs)" "set (map result_key qs) = set (count_keys counts)"
  shows "length (filter (\<lambda>r. qr_dataset r = dataset) qs) = c"
proof -
  let ?f = "filter (\<lambda>r. qr_dataset r = dataset) qs"
  have "distinct (map result_key ?f)" using k(1) by (simp add: distinct_map_filter)
  moreover have "set (map result_key ?f) = Pair dataset ` {0..<c}"
  proof -
    have "set (map result_key ?f) = {k \<in> set (map result_key qs). fst k = dataset}" by (auto simp: result_key_def)
    then show ?thesis using expected_keys_dataset [OF d c] k(2) by (simp add: count_keys_expected)
  qed
  moreover have "card (Pair dataset ` {0..<c}) = c" by (simp add: card_image inj_on_def)
  ultimately show ?thesis by (metis distinct_card length_map)
qed

lemma summary_bounds:
  assumes a: "aggregate_question_results qs counts names limits n = Inr summaries"
    and d: "distinct (map fst counts)" and m: "(dataset, lens) \<in> set summaries" "(limit, s) \<in> set lens" and n: "0 < n"
  shows "0 \<le> lm_avg s \<and> lm_avg s \<le> lm_pass s \<and> lm_pass s \<le> 1 \<and> lm_pass s \<le> of_int n * lm_avg s"
proof -
  from a have k: "distinct (map result_key qs)" "set (map result_key qs) = set (count_keys counts)"
    and e: "efold (\<lambda>dataset d. ebind (summarize_dataset qs counts limits n dataset)
          (\<lambda>s. Inr (dict_put dataset s d))) names [] = Inr summaries"
    by (auto simp: aggregate_question_results_def Let_def raise_if_Inr)
  from efold_dict [OF e m(1)] have sd: "summarize_dataset qs counts limits n dataset = Inr lens" by simp
  then obtain c where c: "dict_get dataset counts = Some c" by (auto simp: summarize_dataset_def split: option.splits)
  define rs where "rs = sort_key qr_question_index (filter (\<lambda>r. qr_dataset r = dataset) qs)"
  have len: "length rs = c" using dataset_result_count [OF d c k] by (simp add: rs_def)
  have "efold (\<lambda>limit d. ebind (summarize_length n c rs limit) (\<lambda>s. Inr (dict_put limit s d))) limits [] = Inr lens"
    using sd c by (simp add: summarize_dataset_def rs_def)
  from efold_dict [OF this m(2)] have "summarize_length n c rs limit = Inr s" by simp
  then obtain t where t: "efold (add_question n limit) rs no_totals = Inr t" and c0: "int c * n \<noteq> 0"
    and s: "lm_avg s = real (lt_correct_count t) / of_int (int c * n)" "lm_pass s = real (lt_passed_questions t) / real c"
    by (auto simp: summarize_length_def Let_def ebind_Inr raise_if_Inr)
  have "totals_ok n (0 + length rs) t" by (rule add_questions_ok [OF t]) (simp add: totals_ok_def no_totals_def)
  then have ok: "int (lt_correct_count t) \<le> n * int (lt_passed_questions t)"
    "lt_passed_questions t \<le> lt_correct_count t" "lt_passed_questions t \<le> c"
    by (simp_all add: totals_ok_def len)
  have pos: "0 < real c" "0 < real_of_int n" using c0 n by auto
  have "real (lt_correct_count t) \<le> of_int n * real (lt_passed_questions t)"
    using ok(1) by (metis of_int_le_iff of_int_mult of_int_of_nat_eq)
  then have "lm_avg s \<le> lm_pass s" using pos by (simp add: s field_simps)
  moreover have "lm_pass s \<le> of_int n * lm_avg s" using ok(2) pos by (simp add: s field_simps)
  moreover have "0 \<le> lm_avg s" "lm_pass s \<le> 1" using pos ok(3) by (simp_all add: s)
  ultimately show ?thesis by blast
qed

section \<open>Total correctness\<close>

definition question_ok :: "int \<Rightarrow> int list \<Rightarrow> question_result \<Rightarrow> bool" where
  "question_ok n limits r \<longleftrightarrow>
     (\<forall>l \<in> set limits. \<exists>c. dict_get l (qr_lengths r) = Some c \<and> int (ct_rollouts c) = n \<and> int (ct_correct_count c) \<le> n)"

lemma question_counters_le: "ct_correct_count (question_counters we task cs l) \<le> length cs"
proof (induction cs)
  case (Cons c cs)
  then show ?case using ls_correct_le [of we task l c] by (simp add: question_counters_def)
qed (simp add: question_counters_def)

lemma question_counters_rollouts [simp]: "ct_rollouts (question_counters we task cs l) = length cs"
  by (simp add: question_counters_def)

lemma task_result_ok:
  assumes "distinct (wc_length_control wc)" "wc_length_control wc \<noteq> []"
    and "\<And>ids. int (length (answer (ids, eval_params wc))) = wc_n wc"
  shows "\<exists>r. task_result we wc answer task = Inr r \<and> result_key r = (bt_dataset task, bt_question_index task)
    \<and> question_ok (wc_n wc) (wc_length_control wc) r"
proof -
  let ?cs = "answer (bt_prompt_token_ids task, eval_params wc)"
  have "int (ct_correct_count (question_counters we task ?cs l)) \<le> wc_n wc" for l
    using question_counters_le [of we task ?cs l] assms(3) by (metis of_nat_le_iff)
  then show ?thesis
    using score_question_eq [OF assms(1,2), of ?cs we task] assms(3) [of "bt_prompt_token_ids task"]
    by (simp add: task_result_def result_key_def question_ok_def dict_get_map)
qed

lemma summarize_length_total:
  assumes "\<forall>r \<in> set rs. question_ok n limits r" "l \<in> set limits" "0 < n" "0 < c"
  shows "\<exists>s. summarize_length n c rs l = Inr s"
proof -
  have "\<exists>t. efold (add_question n l) rs t0 = Inr t" for t0
    using assms(1)
  proof (induction rs arbitrary: t0)
    case (Cons r rs)
    then obtain k where "dict_get l (qr_lengths r) = Some k" "int (ct_rollouts k) = n" "int (ct_correct_count k) \<le> n"
      using assms(2) by (auto simp: question_ok_def)
    then obtain t1 where "add_question n l r t0 = Inr t1" using assms(3) by (simp add: add_question_def)
    then show ?case using Cons by auto
  qed simp
  then obtain t where "efold (add_question n l) rs no_totals = Inr t" by blast
  then show ?thesis using assms(3,4) by (simp add: summarize_length_def Let_def)
qed

lemma aggregate_total:
  assumes k: "map result_key qs = expected_keys counts" and d: "distinct (map fst counts)"
    and c: "\<forall>c \<in> set counts. 0 < snd c" and n: "0 < n" and q: "\<forall>r \<in> set qs. question_ok n limits r"
    and v: "set names \<subseteq> fst ` set counts"
  shows "\<exists>summaries. aggregate_question_results qs counts names limits n = Inr summaries"
proof -
  have "\<exists>s. summarize_dataset qs counts limits n dataset = Inr s" if "dataset \<in> set names" for dataset
  proof -
    have "map_of counts dataset \<noteq> None" using v that by (auto simp: map_of_eq_None_iff)
    then obtain k where k: "dict_get dataset counts = Some k" by (auto simp: dict_get_def)
    then have "(dataset, k) \<in> set counts" by (simp add: dict_get_def map_of_SomeD)
    then have "0 < k" using c by fastforce
    define rs where "rs = sort_key qr_question_index (filter (\<lambda>r. qr_dataset r = dataset) qs)"
    have "\<forall>r \<in> set rs. question_ok n limits r" using q by (simp add: rs_def)
    then have "\<exists>s. efold (\<lambda>limit d. ebind (summarize_length n k rs limit) (\<lambda>s. Inr (dict_put limit s d))) limits [] = Inr s"
      using summarize_length_total [OF _ _ n \<open>0 < k\<close>] by (intro efold_dict_total)
    then show ?thesis using k by (simp add: summarize_dataset_def rs_def)
  qed
  then have "\<exists>summaries. efold (\<lambda>dataset d. ebind (summarize_dataset qs counts limits n dataset)
      (\<lambda>s. Inr (dict_put dataset s d))) names [] = Inr summaries" by (rule efold_dict_total)
  moreover have "set (map result_key qs) = set (count_keys counts)" "distinct (map result_key qs)"
    using distinct_expected_keys [OF d] k by (simp_all only: count_keys_expected)
  ultimately show ?thesis by (simp only: aggregate_question_results_def Let_def raise_if_False simp_thms)
qed

lemma finish_evaluation_total:
  assumes k: "map result_key qs = map question_key tasks" "map question_key tasks = expected_keys counts"
    and d: "distinct (map fst counts)" and c: "\<forall>c \<in> set counts. 0 < snd c" and ok: "config_ok config"
    and q: "\<forall>r \<in> set qs. question_ok (sa_n (ev_sampling config)) (ev_length_control config) r"
    and v: "set names \<subseteq> fst ` set counts"
  shows "\<exists>result. finish_evaluation config names tasks counts qs = Inr result"
proof -
  have "0 < sa_n (ev_sampling config)" using ok by (simp add: config_ok_def Let_def)
  from aggregate_total [OF _ d c this q v] k obtain summaries where
    s: "aggregate_question_results qs counts names (ev_length_control config) (sa_n (ev_sampling config)) = Inr summaries"
    by auto
  let ?by_key = "fold (\<lambda>t. dict_put (eq_dataset t, eq_question_index t) t) tasks []"
  have keys: "\<exists>t. dict_get key (fold (\<lambda>t. dict_put (eq_dataset t, eq_question_index t) t) ts d) = Some t"
    if "key \<in> question_key ` set ts \<or> (\<exists>t. dict_get key d = Some t)" for key and ts :: "eval_task list" and d
    using that by (induction ts arbitrary: d) (auto simp: question_key_def)
  have "\<exists>records. efold (add_question_records ?by_key) rs records0 = Inr records" if "set rs \<subseteq> set qs" for rs records0
    using that
  proof (induction rs arbitrary: records0)
    case (Cons r rs)
    have "result_key r \<in> set (map question_key tasks)" using Cons.prems k(1) by (metis image_eqI list.set_intros(1) list.set_map subsetD)
    then obtain t where "dict_get (result_key r) ?by_key = Some t" using keys [of "result_key r" tasks "[]"] by auto
    then obtain records1 where "add_question_records ?by_key r records0 = Inr records1"
      by (cases "qr_rollouts r") (simp_all add: add_question_records_def)
    then show ?case using Cons by auto
  qed simp
  from this [of qs "[]"] s show ?thesis by (auto simp: finish_evaluation_def)
qed

lemma reference_total:
  assumes ok: "config_ok config" and k: "map question_key tasks = expected_keys counts"
    and d: "distinct (map fst counts)" and c: "\<forall>c \<in> set counts. 0 < snd c" and v: "set names \<subseteq> fst ` set counts"
    and a: "\<And>request. 1 \<le> sp_n (snd request) \<Longrightarrow> int (length (answer request)) = sp_n (snd request)"
  shows "\<exists>result. reference_evaluation we answer config names collect_ids tasks counts = Inr result"
    and "\<exists>r. task_result we (worker_config_of config collect_ids) answer task = Inr r"
proof -
  let ?wc = "worker_config_of config collect_ids"
  have lc: "distinct (wc_length_control ?wc)" "wc_length_control ?wc \<noteq> []"
    using ok by (auto simp: config_ok_def Let_def worker_config_of_def)
  have n: "int (length (answer (ids, eval_params ?wc))) = wc_n ?wc" for ids
    using a [of "(ids, eval_params ?wc)"] ok by (simp add: eval_params_def config_ok_def Let_def worker_config_of_def)
  have r: "\<exists>r. task_result we ?wc answer t = Inr r \<and> result_key r = (bt_dataset t, bt_question_index t)
      \<and> question_ok (wc_n ?wc) (wc_length_control ?wc) r" for t by (rule task_result_ok [where answer = answer, OF lc n])
  then show "\<exists>r. task_result we ?wc answer task = Inr r" by blast
  define g where "g t = (case task_result we ?wc answer t of Inr r \<Rightarrow> r)" for t
  have g: "task_result we ?wc answer t = Inr (g t)" "result_key (g t) = (bt_dataset t, bt_question_index t)"
    "question_ok (wc_n ?wc) (wc_length_control ?wc) (g t)" for t
    using r [of t] by (auto simp: g_def)
  have e: "emap (\<lambda>t. task_result we ?wc answer (batch_task_of t)) tasks = Inr (map (\<lambda>t. g (batch_task_of t)) tasks)"
    by (rule emap_all_Inr) (rule g(1))
  have key: "map result_key (map (\<lambda>t. g (batch_task_of t)) tasks) = map question_key tasks"
    by (simp add: g(2) batch_task_of_def question_key_def)
  have "\<forall>r \<in> set (map (\<lambda>t. g (batch_task_of t)) tasks). question_ok (sa_n (ev_sampling config)) (ev_length_control config) r"
    using g(3) by (auto simp: worker_config_of_def)
  from finish_evaluation_total [OF key k d c ok this v]
  show "\<exists>result. reference_evaluation we answer config names collect_ids tasks counts = Inr result"
    by (simp add: reference_evaluation_def e)
qed

lemma evaluate_model_total:
  assumes ok: "config_ok config" "tasks \<noteq> []" and llm: "answers_each we (engine_of config) answer"
    and k: "map question_key tasks = expected_keys counts"
    and d: "distinct (map fst counts)" and c: "\<forall>c \<in> set counts. 0 < snd c" and v: "set names \<subseteq> fst ` set counts"
    and a: "\<And>request. 1 \<le> sp_n (snd request) \<Longrightarrow> int (length (answer request)) = sp_n (snd request)"
    and h: "list_all healthy_event schedule"
    and run: "evaluate_model we config names collect_ids tasks counts schedule = Some res"
  shows "\<exists>result. res = Inr result \<and> reference_evaluation we answer config names collect_ids tasks counts = Inr result"
proof -
  let ?wc = "worker_config_of config collect_ids" and ?jobs = "map eval_job (eval_batches config tasks)"
  obtain pool_res where p: "run_pool jb_kind (\<lambda>g. run_job we ?wc) (map nat (rt_gpus (ev_runtime config))) ?jobs schedule = Some pool_res"
    and res: "res = ebind pool_res (\<lambda>messages. ebind (emap questions_of messages)
      (\<lambda>qss. finish_evaluation config names tasks counts (concat qss)))"
    using run by (auto simp: evaluate_model_eq(1) [OF ok])
  have job: "\<exists>r. run_job we ?wc (eval_job b) = Inr r" if "b \<in> set (eval_batches config tasks)" for b
  proof -
    have "\<exists>rs. emap (task_result we ?wc answer) xs = Inr rs" for xs
      using reference_total(2) [OF ok(1) k d c v a] by (induction xs) (auto, metis ebind.simps(2))
    then obtain rs where "emap (task_result we ?wc answer) b = Inr rs" by blast
    then show ?thesis using eval_job_result [OF ok llm that, of collect_ids] by simp
  qed
  have kinds: "\<forall>j \<in> set ?jobs. jb_kind j = jb_kind (hd ?jobs)"
    by (cases "eval_batches config tasks") (auto simp: eval_job_def)
  have "\<exists>ms. pool_res = Inr ms"
    by (rule run_pool_healthy [OF h kinds _ p]) (use job in auto)
  then obtain ms where ms: "pool_res = Inr ms" by blast
  from batched_pool [OF p [unfolded ms] eval_job_result [OF ok llm], of questions_of reply_questions]
  obtain yss where y: "emap questions_of ms = Inr yss"
    "emap (task_result we ?wc answer) (concat (eval_batches config tasks)) = Inr (concat yss)" by auto
  have "res = finish_evaluation config names tasks counts (concat yss)" by (simp add: res ms y(1))
  moreover have "reference_evaluation we answer config names collect_ids tasks counts =
      finish_evaluation config names tasks counts (concat yss)"
    using y(2) by (simp add: reference_evaluation_def evaluate_model_eq(2) [OF ok] emap_map)
  ultimately show ?thesis using reference_total(1) [OF ok(1) k d c v a, of we collect_ids] by metis
qed

section \<open>Properties\<close>

text \<open>
  C10: Scheduling does not show in the result. When \<open>evaluate_model\<close> returns, its metrics and kept
  rollouts are those of one process that runs the same batches one after the other, for any language
  model (a function of engine arguments and the requests of a call; nothing is assumed about how it
  treats the requests of one call). So two runs with the same number of GPUs, other GPU ids and any
  schedules, timeouts, crashes and message orders return the same, whenever both return. The number
  of GPUs and the engine settings are kept: they decide the batches and the answers.
\<close>

theorem evaluation_independent_of_schedule:
  assumes "evaluate_model we config names collect_ids tasks counts schedule = Some (Inr result)"
    and "length gpus = length (rt_gpus (ev_runtime config))"
    and "evaluate_model we (config\<lparr>ev_runtime := (ev_runtime config)\<lparr>rt_gpus := gpus\<rparr>\<rparr>) names collect_ids tasks counts schedule'
      = Some (Inr result')"
  shows "sequential_evaluation we config names collect_ids tasks counts = Inr result \<and> result' = result"
  using evaluate_model_sequential [OF assms(1)] evaluate_model_sequential [OF assms(3)] sequential_gpus [OF assms(2)]
  by simp

definition example_sampling :: sampling_settings where
  "example_sampling = \<lparr>sa_temperature = Fin 1, sa_top_p = Fin 1, sa_top_k = - 1, sa_n = 1, sa_max_new_tokens = 3\<rparr>"

definition example_eval_config :: "int list \<Rightarrow> int \<Rightarrow> eval_config" where
  "example_eval_config gpus rollouts =
     \<lparr>ev_seed = 42, ev_sampling = example_sampling, ev_length_control = [2, 3],
      ev_runtime = \<lparr>rt_gpus = gpus, rt_tensor_parallel_size = 1, rt_rollouts_per_gpu_batch = rollouts, rt_min_free_gib = Fin 5\<rparr>,
      ev_engine = \<lparr>en_dtype = lit ''bfloat16'', en_trust_remote_code = True, en_gpu_memory_utilization = Fin (9 / 10),
        en_max_model_len = 10, en_enable_prefix_caching = True\<rparr>\<rparr>"

definition example_answer :: "int list \<times> sampling_params \<Rightarrow> completion list" where
  "example_answer request = replicate (nat (sp_n (snd request)))
     \<lparr>co_text = lit ''ab'', co_finish_reason = None, co_token_ids = fst request\<rparr>"

definition example_worker :: worker_env where
  "example_worker = \<lparr>we_llm = (\<lambda>engine requests. Inr (map example_answer requests)), we_decode = map nat,
     we_eos = One_Eos 7, we_pad = None, we_verify = (\<lambda>response answer dataset. if response = answer then 1 else 0)\<rparr>"

definition example_task :: "nat \<Rightarrow> int list \<Rightarrow> eval_task" where
  "example_task i ids = \<lparr>eq_dataset = lit ''d'', eq_question_index = i, eq_question = lit ''q'', eq_answer = lit ''ab'',
     et_prompt = lit ''p'', et_prompt_truncated = False, et_prompt_token_ids = ids\<rparr>"

lemma example_answers_each: "answers_each example_worker engine example_answer"
  by (simp add: answers_each_def example_worker_def)

lemma evaluation_independent_of_schedule_witness:
  "\<exists>result.
     evaluate_model example_worker (example_eval_config [0, 1] 1) [lit ''d''] [lit ''d''] [example_task 0 [1, 2], example_task 1 [1, 2, 3]]
       [(lit ''d'', 2)] [Loads 0, Receives 0, Loads 1, Receives 0, Takes 0, Finishes 0, Takes 0, Finishes 0, Receives 1, Receives 0]
       = Some (Inr result)
   \<and> evaluate_model example_worker (example_eval_config [3, 5] 1) [lit ''d''] [lit ''d''] [example_task 0 [1, 2], example_task 1 [1, 2, 3]]
       [(lit ''d'', 2)] [Loads 1, Loads 0, Receives 0, Receives 0, Takes 0, Takes 1, Finishes 1, Receives 0, Finishes 0, Receives 0]
       = Some (Inr result)"
proof -
  let ?tasks = "[example_task 0 [1, 2], example_task 1 [1, 2, 3]]"
  let ?one = "evaluate_model example_worker (example_eval_config [0, 1] 1) [lit ''d''] [lit ''d''] ?tasks
       [(lit ''d'', 2)] [Loads 0, Receives 0, Loads 1, Receives 0, Takes 0, Finishes 0, Takes 0, Finishes 0, Receives 1, Receives 0]"
  let ?two = "evaluate_model example_worker (example_eval_config [3, 5] 1) [lit ''d''] [lit ''d''] ?tasks
       [(lit ''d'', 2)] [Loads 1, Loads 0, Receives 0, Receives 0, Takes 0, Takes 1, Finishes 1, Receives 0, Finishes 0, Receives 0]"
  have "case ?one of Some (Inr _) \<Rightarrow> True | _ \<Rightarrow> False" by code_simp
  then obtain result where one: "?one = Some (Inr result)" by (auto split: option.splits sum.splits)
  have "case ?two of Some (Inr _) \<Rightarrow> True | _ \<Rightarrow> False" by code_simp
  then obtain result' where two: "?two = Some (Inr result')" by (auto split: option.splits sum.splits)
  have eq: "example_eval_config [3, 5] 1 = (example_eval_config [0, 1] 1)
      \<lparr>ev_runtime := (ev_runtime (example_eval_config [0, 1] 1))\<lparr>rt_gpus := [3, 5]\<rparr>\<rparr>"
    by (simp add: example_eval_config_def)
  have "result' = result"
    by (rule conjunct2 [OF evaluation_independent_of_schedule [OF one _ two [unfolded eq]]]) (simp add: example_eval_config_def)
  then show ?thesis using one two by blast
qed

lemma render_tasks_keys:
  "render_model_tasks lower tk family name m k questions = Inr tasks \<Longrightarrow> map question_key tasks = map question_key questions"
proof (induction questions arbitrary: tasks)
  case (Cons q questions)
  then show ?case
    by (auto simp: render_model_tasks_def ebind_Inr question_key_def eval_question.defs split: prod.splits)
qed (simp add: render_model_tasks_def)


definition example_yaml :: "(ustr \<times> yaml) list" where
  "example_yaml = [(lit ''sampling'', Y_Map [(lit ''n'', Y_Int 1), (lit ''max_new_tokens'', Y_Int 3)]),
     (lit ''length_control'', Y_List [Y_Int 2, Y_Int 3]),
     (lit ''runtime'', Y_Map [(lit ''gpus'', Y_List [Y_Int 0]), (lit ''rollouts_per_gpu_batch'', Y_Int 4)])]"

definition example_silent_chat :: chat_tokenizer where
  "example_silent_chat = \<lparr>ct_apply = Some (\<lambda>messages generation. Inr []), ct_encode = (\<lambda>t. [1, 2])\<rparr>"

lemma case_Inr_True: "(case x of Inl _ \<Rightarrow> False | Inr y \<Rightarrow> P y) \<longleftrightarrow> (\<exists>y. x = Inr y \<and> P y)"
  by (cases x) auto


text \<open>
  The metrics are consistent fractions: for every dataset and token limit of an accepted
  aggregation, Avg@n lies between 0 and Pass@n, Pass@n is at most 1 and at most n times Avg@n.
\<close>

theorem metrics_are_ordered:
  assumes "aggregate_question_results qs counts names limits n = Inr summaries"
    and "distinct (map fst counts)" "0 < n" "(dataset, lens) \<in> set summaries" "(limit, s) \<in> set lens"
  shows "0 \<le> lm_avg s \<and> lm_avg s \<le> lm_pass s \<and> lm_pass s \<le> 1 \<and> lm_pass s \<le> of_int n * lm_avg s"
  by (rule summary_bounds [OF assms(1,2,4,5,3)])

definition example_results :: "question_result list" where
  "example_results = [\<lparr>qr_dataset = lit ''d'', qr_question_index = 0,
     qr_lengths = [(8, \<lparr>ct_rollouts = 4, ct_correct_count = 1, ct_token_count = 20, ct_truncated_count = 2\<rparr>)], qr_rollouts = None\<rparr>]"

lemma metrics_are_ordered_witness:
  "\<exists>s. aggregate_question_results example_results [(lit ''d'', 1)] [lit ''d''] [8] 4 = Inr [(lit ''d'', [(8, s)])]
     \<and> lm_avg s = 1 / 4 \<and> lm_avg s \<le> lm_pass s"
proof -
  let ?s = "\<lparr>lm_avg = 1 / 4, lm_pass = 1, lm_mean_length = 5, lm_truncation_rate = 1 / 2, lm_per_sample = [(0, 1 / 4)]\<rparr>"
  have a: "aggregate_question_results example_results [(lit ''d'', 1)] [lit ''d''] [8] 4 = Inr [(lit ''d'', [(8, ?s)])]"
    by (simp add: aggregate_question_results_def example_results_def result_key_def count_keys_def summarize_dataset_def
        summarize_length_def add_question_def no_totals_def dict_get_def)
  then show ?thesis using metrics_are_ordered [OF a, of "lit ''d''" "[(8, ?s)]" 8 ?s] by simp
qed

text \<open>
  C30: Post-hoc truncation counts what it says. The counters a worker reports for a question at a token
  limit are the numbers of its rollouts, of the rollouts whose text, re-decoded from the first
  \<open>limit\<close> tokens when it is longer, is verified, the sum of the capped lengths, and the number
  of rollouts that are cut by the limit or by the generation.
\<close>

theorem posthoc_counters_count:
  assumes "distinct (wc_length_control wc)" "limit \<in> set (wc_length_control wc)" "int (length cs) = wc_n wc"
  shows "\<exists>r c. score_question we wc (task, cs) = Inr r \<and> dict_get limit (qr_lengths r) = Some c
    \<and> ct_rollouts c = length cs
    \<and> ct_correct_count c = length (filter (\<lambda>x. we_verify we
          (if limit < int (length (co_token_ids x)) then we_decode we (py_slice 0 limit (co_token_ids x)) else co_text x)
          (bt_answer task) (bt_dataset task) \<noteq> 0) cs)
    \<and> ct_token_count c = (\<Sum>x\<leftarrow>cs. min (int (length (co_token_ids x))) limit)
    \<and> ct_truncated_count c = length (filter (\<lambda>x. limit < int (length (co_token_ids x))
          \<or> co_finish_reason x = Some (lit ''length'')) cs)"
proof -
  have "(\<Sum>c\<leftarrow>cs. ls_correct (completion_score we task limit c)) = length (filter (\<lambda>x. we_verify we
          (if limit < int (length (co_token_ids x)) then we_decode we (py_slice 0 limit (co_token_ids x)) else co_text x)
          (bt_answer task) (bt_dataset task) \<noteq> 0) cs)"
    by (induction cs) (auto simp: completion_score_def score_at_def verdict_def Let_def)
  moreover have "filter (\<lambda>c. ls_truncated (completion_score we task limit c)) cs =
      filter (\<lambda>x. limit < int (length (co_token_ids x)) \<or> co_finish_reason x = Some (lit ''length'')) cs"
    by (rule filter_cong) (auto simp: completion_score_def score_at_def Let_def)
  moreover have "wc_length_control wc \<noteq> []" using assms(2) by auto
  ultimately show ?thesis
    using score_question_eq [OF assms(1) _ assms(3), of we task]
    by (simp add: dict_get_map [OF assms(2)] question_counters_def)
qed

definition example_worker_config :: worker_config where
  "example_worker_config = worker_config_of (example_eval_config [0] 2) []"

lemma posthoc_counters_count_witness:
  "\<exists>r c. score_question example_worker example_worker_config (batch_task_of (example_task 0 [1]),
       [\<lparr>co_text = lit ''ab'', co_finish_reason = None, co_token_ids = [97, 98, 99]\<rparr>]) = Inr r
     \<and> dict_get 2 (qr_lengths r) = Some c \<and> ct_rollouts c = 1 \<and> ct_correct_count c = 1 \<and> ct_truncated_count c = 1"
proof -
  let ?c = "\<lparr>co_text = lit ''ab'', co_finish_reason = None, co_token_ids = [97, 98, 99]\<rparr>"
  have w: "distinct (wc_length_control example_worker_config)" "2 \<in> set (wc_length_control example_worker_config)"
    "int (length [?c]) = wc_n example_worker_config"
    by (simp_all add: example_worker_config_def worker_config_of_def example_eval_config_def example_sampling_def)
  have v: "we_verify example_worker (we_decode example_worker (py_slice 0 2 [97, 98, 99]))
      (bt_answer (batch_task_of (example_task 0 [1]))) (bt_dataset (batch_task_of (example_task 0 [1]))) \<noteq> 0"
    by (simp add: example_worker_def batch_task_of_def example_task_def py_slice_def clamp_index_def)
  show ?thesis
    using posthoc_counters_count [OF w, of example_worker "batch_task_of (example_task 0 [1])"] v by auto
qed

end
