(* ===== verification/ERSR_Offline.thy ===== *)
theory ERSR_Offline
  imports Evaluation
begin

text \<open>
  The ERSR phases of the standalone evaluation (\<open>utils/evaluation.py\<close>, \<open>prepare_ersr\<close>,
  \<open>generate_ersr_replacements\<close>, \<open>evaluate_ersr_student\<close>, \<open>evaluate_ersr\<close>): the
  interventions are selected first, then each Teacher proposes all replacements in one generation
  phase, then the Student continues all samples of both arms in another. The work of a checkpoint is
  a record that the phases update; results of a phase are looked up by request id.

  A value of type \<open>'a res option\<close> is the outcome under the given schedules, \<open>None\<close> when a
  schedule does not finish its run. The JSON document is reduced to its computed parts.
\<close>

record model_spec =
  ms_name :: ustr
  ms_path :: ustr
  ms_family :: ustr

record ersr_part =
  ep_actions :: "ersr_action list"
  ep_teacher :: "model_spec option"
  ep_teachers :: "model_spec list"
  ep_settings :: ersr_settings
  ep_gpu_memory_utilization :: flt

record offline_config =
  oc_eval :: eval_config
  oc_ersr :: "ersr_part option"

text \<open>\<open>ersr_teacher_for_model\<close>.\<close>

definition ersr_teacher_for_model :: "offline_config \<Rightarrow> model_spec \<Rightarrow> model_spec option res" where
  "ersr_teacher_for_model config model = (case oc_ersr config of
      None \<Rightarrow> Inr None
    | Some ersr \<Rightarrow>
        if Teacher_Replace \<notin> set (ep_actions ersr) then Inr None else
        (let teacher = (case ep_teacher ersr of Some t \<Rightarrow> Some t
               | None \<Rightarrow> find (\<lambda>item. ms_family item = ms_family model) (ep_teachers ersr)) in
         case teacher of
           None \<Rightarrow> Inl (ValueError ''ERSR teacher_replace requires a teacher'')
         | Some t \<Rightarrow> raise_if (ms_family t \<noteq> ms_family model) (ValueError ''ERSR teacher_replace requires a teacher'')
             (Inr (Some t))))"

record 'r ersr_work =
  wk_model :: model_spec
  wk_env :: "'r ersr_env"
  wk_cases :: "selected_case list"
  wk_selection :: ersr_summary
  wk_teacher :: "model_spec option"
  wk_replacements :: "(ustr \<times> int list) list"
  wk_invalid :: "(ustr \<times> ersr_result) list"
  wk_teacher_complete :: bool

definition prepare_ersr :: "offline_config \<Rightarrow> model_spec \<Rightarrow> eval_record list \<Rightarrow> 'r ersr_env \<Rightarrow> 'r ersr_work res" where
  "prepare_ersr config model records env = (case oc_ersr config of
      None \<Rightarrow> Inl (ValueError ''ERSR is not enabled in this evaluation config.'')
    | Some ersr \<Rightarrow>
        ebind (build_ersr_step_cases env (map validation_record.truncate records) (ep_settings ersr)
          (Student_Action \<in> set (ep_actions ersr)) (Teacher_Replace \<in> set (ep_actions ersr))) (\<lambda>(cases, selection).
        ebind (ersr_teacher_for_model config model) (\<lambda>teacher.
        Inr \<lparr>wk_model = model, wk_env = env, wk_cases = cases, wk_selection = selection, wk_teacher = teacher,
             wk_replacements = [], wk_invalid = [], wk_teacher_complete = False\<rparr>)))"

section \<open>Teacher proposals\<close>

text \<open>A request with the index of its work and its case; groups are keyed by the Teacher.\<close>

type_synonym teacher_row = "nat \<times> selected_case \<times> generation_request"
type_synonym 'r teacher_state = "'r ersr_work list \<times> (model_spec \<times> teacher_row list) list"

definition put_invalid :: "nat \<Rightarrow> selected_case \<Rightarrow> string \<Rightarrow> 'r ersr_work list \<Rightarrow> 'r ersr_work list" where
  "put_invalid w c reason works =
     works[w := (works ! w)\<lparr>wk_invalid := dict_put (ca_case_id c) (result_of c (Skipped (lit reason))) (wk_invalid (works ! w))\<rparr>]"

definition teacher_request :: "ersr_settings \<Rightarrow> nat \<Rightarrow> model_spec \<Rightarrow> selected_case \<Rightarrow> int list \<Rightarrow> int \<Rightarrow> generation_request" where
  "teacher_request s w model c prior budget =
     \<lparr>gr_ids = ca_prompt_ids c @ prior, gr_max_tokens = budget, gr_seed = ca_seed c + 5000,
      gr_temperature = temperature s, gr_top_p = top_p s, gr_top_k = top_k s,
      gr_request_id = lit ''teacher:'' @ show_nat w @ lit '':'' @ ms_name model @ lit '':'' @ ca_case_id c\<rparr>"

definition plan_case :: "ersr_settings \<Rightarrow> model_spec \<Rightarrow> nat \<Rightarrow> selected_case \<Rightarrow> 'r teacher_state \<Rightarrow> 'r teacher_state" where
  "plan_case s teacher w c st =
     (let (works, groups) = st in
      if ca_action_type c \<noteq> Teacher_Replace then st else
      let prior = take (ca_step_token_start c) (ca_response_ids c);
          budget = min (max_teacher_step_tokens s) (max_response_tokens s - int (length prior)) in
      if budget \<le> 0 then (put_invalid w c ''no_teacher_budget'' works, groups)
      else (works, dict_put teacher (dict_get_or [] teacher groups
              @ [(w, c, teacher_request s w (wk_model (works ! w)) c prior budget)]) groups))"

definition plan_work :: "offline_config \<Rightarrow> ersr_settings \<Rightarrow> nat \<times> 'r ersr_work \<Rightarrow> 'r teacher_state \<Rightarrow> 'r teacher_state res" where
  "plan_work config s iw st =
     ebind (ersr_teacher_for_model config (wk_model (snd iw))) (\<lambda>teacher. case teacher of
       None \<Rightarrow> Inr ((fst st)[fst iw := (fst st ! fst iw)\<lparr>wk_teacher_complete := True\<rparr>], snd st)
     | Some t \<Rightarrow> Inr (fold (plan_case s t (fst iw)) (wk_cases (snd iw)) st))"

definition keep_proposal :: "(ustr \<times> int list) list \<Rightarrow> teacher_row \<Rightarrow> 'r ersr_work list \<Rightarrow> 'r ersr_work list res" where
  "keep_proposal proposal_outputs row works =
     (let (w, c, request) = row in
      case dict_get (gr_request_id request) proposal_outputs of
        None \<Rightarrow> Inl (KeyError ''request_id'')
      | Some proposal_ids \<Rightarrow>
          ebind (first_replacement_step_ids (wk_env (works ! w)) proposal_ids) (\<lambda>replacement.
          Inr (if replacement = [] then put_invalid w c ''empty_teacher_replacement'' works
               else works[w := (works ! w)\<lparr>wk_replacements := dict_put (ca_case_id c) replacement (wk_replacements (works ! w))\<rparr>])))"

fun obind :: "'a res option \<Rightarrow> ('a \<Rightarrow> 'b res option) \<Rightarrow> 'b res option" where
  "obind None f = None"
| "obind (Some (Inl e)) f = Some (Inl e)"
| "obind (Some (Inr x)) f = f x"

definition teacher_config :: "eval_config \<Rightarrow> ersr_part \<Rightarrow> eval_config" where
  "teacher_config config ersr =
     config\<lparr>ev_engine := (ev_engine config)\<lparr>en_gpu_memory_utilization := ep_gpu_memory_utilization ersr\<rparr>\<rparr>"

definition run_teacher :: "(model_spec \<Rightarrow> worker_env) \<Rightarrow> (model_spec \<Rightarrow> event list) \<Rightarrow> offline_config \<Rightarrow> ersr_part
    \<Rightarrow> model_spec \<times> teacher_row list \<Rightarrow> 'r ersr_work list \<Rightarrow> 'r ersr_work list res option" where
  "run_teacher we_of schedules config ersr tr works =
     obind (run_generation_phase (we_of (fst tr)) (teacher_config (oc_eval config) ersr)
       (map (\<lambda>(w, c, request). request) (snd tr)) (schedules (fst tr))) (\<lambda>proposal_outputs.
     Some (efold (keep_proposal proposal_outputs) (snd tr) works))"

fun run_teachers :: "(model_spec \<Rightarrow> worker_env) \<Rightarrow> (model_spec \<Rightarrow> event list) \<Rightarrow> offline_config \<Rightarrow> ersr_part
    \<Rightarrow> (model_spec \<times> teacher_row list) list \<Rightarrow> 'r ersr_work list \<Rightarrow> 'r ersr_work list res option" where
  "run_teachers we_of schedules config ersr [] works = Some (Inr works)"
| "run_teachers we_of schedules config ersr (tr # trs) works =
     obind (run_teacher we_of schedules config ersr tr works) (run_teachers we_of schedules config ersr trs)"

definition generate_ersr_replacements :: "(model_spec \<Rightarrow> worker_env) \<Rightarrow> (model_spec \<Rightarrow> event list) \<Rightarrow> offline_config
    \<Rightarrow> 'r ersr_work list \<Rightarrow> 'r ersr_work list res option" where
  "generate_ersr_replacements we_of schedules config works = (case oc_ersr config of
      None \<Rightarrow> Some (Inl (AssertionError ''config.ersr''))
    | Some ersr \<Rightarrow>
        obind (Some (efold (plan_work config (ep_settings ersr)) (py_enumerate works) (works, []))) (\<lambda>(works, groups).
        obind (run_teachers we_of schedules config ersr groups works) (\<lambda>works.
        Some (Inr (map (\<lambda>work. work\<lparr>wk_teacher_complete := True\<rparr>) works)))))"

section \<open>Student continuations\<close>

record arm =
  ar_prefix :: "int list"
  ar_requests :: "generation_request list"

definition arm_requests :: "ersr_settings \<Rightarrow> selected_case \<Rightarrow> int list \<Rightarrow> int \<Rightarrow> generation_request list" where
  "arm_requests s c prefix arm_offset =
     (let remaining = max_response_tokens s - int (length prefix) in
      if remaining \<le> 0 then [] else
      map (\<lambda>sample_index. \<lparr>gr_ids = ca_prompt_ids c @ prefix, gr_max_tokens = remaining,
         gr_seed = ca_seed c + arm_offset + int sample_index,
         gr_temperature = temperature s, gr_top_p = top_p s, gr_top_k = top_k s,
         gr_request_id = ca_case_id c @ lit '':'' @ show_int arm_offset @ lit '':'' @ show_nat sample_index\<rparr>)
       [0..<nat (mc_k s)])"

definition make_arm :: "ersr_settings \<Rightarrow> selected_case \<Rightarrow> int list \<Rightarrow> int \<Rightarrow> arm" where
  "make_arm s c prefix arm_offset = \<lparr>ar_prefix = prefix, ar_requests = arm_requests s c prefix arm_offset\<rparr>"

text \<open>Baseline and action arm of a case that is not skipped.\<close>

definition case_prefix :: "'r ersr_work \<Rightarrow> selected_case \<Rightarrow> int list option" where
  "case_prefix work c =
     (if dict_get (ca_case_id c) (wk_invalid work) \<noteq> None then None
      else if ca_action_type c = Student_Action then Some (take (ca_step_token_end c) (ca_response_ids c))
      else (case dict_get (ca_case_id c) (wk_replacements work) of
              None \<Rightarrow> None
            | Some replacement \<Rightarrow> Some (take (ca_step_token_start c) (ca_response_ids c) @ replacement)))"

definition plan_arms :: "ersr_settings \<Rightarrow> 'r ersr_work \<Rightarrow> selected_case
    \<Rightarrow> (ustr \<times> arm \<times> arm) list \<times> generation_request list \<Rightarrow> (ustr \<times> arm \<times> arm) list \<times> generation_request list" where
  "plan_arms s work c acc = (case case_prefix work c of
      None \<Rightarrow> acc
    | Some prefix \<Rightarrow>
        let baseline = make_arm s c (take (ca_step_token_start c) (ca_response_ids c)) 0;
            action = make_arm s c prefix 1000 in
        (dict_put (ca_case_id c) (baseline, action) (fst acc),
         snd acc @ ar_requests baseline @ ar_requests action))"

definition lookup_continuation :: "(ustr \<times> int list) list \<Rightarrow> generation_request \<Rightarrow> int list res" where
  "lookup_continuation outputs request = (case dict_get (gr_request_id request) outputs of
      None \<Rightarrow> Inl (KeyError ''request_id'') | Some ids \<Rightarrow> Inr ids)"

text \<open>Value of an arm and its number of empty continuations.\<close>

definition arm_value :: "'r ersr_env \<Rightarrow> ersr_settings \<Rightarrow> selected_case \<Rightarrow> (ustr \<times> int list) list \<Rightarrow> arm \<Rightarrow> (real \<times> nat) res" where
  "arm_value env s c outputs a =
     ebind (emap (lookup_continuation outputs) (ar_requests a)) (\<lambda>continuations.
     let reward = (\<lambda>continuation. reward_for_continuation env (ar_prefix a) continuation (ca_answer c) (Some (ca_dataset c)));
         empty = (if ar_requests a \<noteq> [] then length (filter (\<lambda>ids. ids = []) continuations) else nat (mc_k s)) in
     if continuations \<noteq> [] then
       raise_if (mc_k s = 0) ZeroDivisionError (Inr (sum_list (map reward continuations) / of_int (mc_k s), empty))
     else Inr (reward [], empty))"

definition case_result :: "'r ersr_work \<Rightarrow> ersr_settings \<Rightarrow> (ustr \<times> arm \<times> arm) list \<Rightarrow> (ustr \<times> int list) list
    \<Rightarrow> selected_case \<Rightarrow> ersr_result option res" where
  "case_result work s case_arms outputs c = (case dict_get (ca_case_id c) case_arms of
      None \<Rightarrow> Inr None
    | Some (baseline, action) \<Rightarrow>
        ebind (arm_value (wk_env work) s c outputs baseline) (\<lambda>(baseline_value, baseline_empty).
        ebind (arm_value (wk_env work) s c outputs action) (\<lambda>(action_value, action_empty).
        ebind (if ca_action_type c = Teacher_Replace then
                 (case dict_get (ca_case_id c) (wk_replacements work) of
                    None \<Rightarrow> Inl (KeyError ''case_id'') | Some ids \<Rightarrow> Inr (Some (length ids)))
               else Inr None) (\<lambda>replaced.
        Inr (Some (result_of c (Valued
          \<lparr>ev_baseline_value = baseline_value, ev_action_value = action_value,
           ev_advantage = action_value - baseline_value, ev_mc_k = mc_k s,
           ev_baseline_empty_continuations = baseline_empty, ev_action_empty_continuations = action_empty,
           ev_replacement_num_tokens = replaced\<rparr>)))))))"

record ersr_document =
  ed_results :: "ersr_result list"
  ed_means :: "(ustr \<times> real) list"
  ed_skipped :: "(ustr \<times> nat) list"
  ed_replacements :: "(ustr \<times> int list) list"

definition evaluate_ersr_student :: "worker_env \<Rightarrow> event list \<Rightarrow> offline_config \<Rightarrow> 'r ersr_work \<Rightarrow> ersr_document res option" where
  "evaluate_ersr_student we schedule config work = (case oc_ersr config of
      None \<Rightarrow> Some (Inl (AssertionError ''config.ersr''))
    | Some ersr \<Rightarrow>
        if \<not> wk_teacher_complete work
        then Some (Inl (RuntimeError ''Teacher replacements must complete before student continuations.'')) else
        let s = ep_settings ersr;
            (case_arms, student_requests) = fold (plan_arms s work) (wk_cases work) ([], []) in
        obind (run_generation_phase we (oc_eval config) student_requests schedule) (\<lambda>outputs.
        Some (ebind (emap (case_result work s case_arms outputs) (wk_cases work)) (\<lambda>valued.
          let results = map snd (wk_invalid work) @ List.map_filter id valued;
              (means, skipped) = aggregate_ersr_advantages results (ERSR.datasets s) (ep_actions ersr) in
          Inr \<lparr>ed_results = results, ed_means = means, ed_skipped = skipped, ed_replacements = wk_replacements work\<rparr>))))"

definition evaluate_ersr :: "(model_spec \<Rightarrow> worker_env) \<Rightarrow> (model_spec \<Rightarrow> event list) \<Rightarrow> event list \<Rightarrow> offline_config
    \<Rightarrow> model_spec \<Rightarrow> eval_record list \<Rightarrow> 'r ersr_env \<Rightarrow> ersr_document res option" where
  "evaluate_ersr we_of schedules schedule config model records env =
     obind (Some (prepare_ersr config model records env)) (\<lambda>work.
     obind (generate_ersr_replacements we_of schedules config [work]) (\<lambda>works.
     evaluate_ersr_student (we_of model) schedule config (hd works)))"

end
