(* ===== verification/ERSR_Ids.thy ===== *)
theory ERSR_Ids
  imports ERSR_Correct "HOL-Library.Code_Target_Nat"
begin

text \<open>
  The case ids of an ERSR selection are distinct: a case is determined by its record, its step and
  its action, and its id can be read back into them from the right.
\<close>

section \<open>Identifiers with separators\<close>

lemma show_nat_digits: "c \<in> set (show_nat n) \<Longrightarrow> 48 \<le> c \<and> c \<le> 57"
proof (induction n rule: show_nat.induct)
  case (1 n)
  then show ?case by (subst (asm) (2) show_nat.simps) (auto split: if_splits)
qed

lemma show_nat_inject: "show_nat m = show_nat n \<Longrightarrow> m = n"
proof (induction m arbitrary: n rule: show_nat.induct)
  case (1 m)
  have ne: "show_nat k \<noteq> []" for k by (subst show_nat.simps) simp
  have s: "show_nat k = (if k < 10 then [] else show_nat (k div 10)) @ [48 + k mod 10]" for k
    by (subst show_nat.simps) simp
  from 1 s [of m] s [of n] have e: "(if m < 10 then [] else show_nat (m div 10)) = (if n < 10 then [] else show_nat (n div 10))"
    "m mod 10 = n mod 10" by auto
  have "m div 10 = n div 10"
  proof (cases "m < 10")
    case True
    then show ?thesis using e(1) ne [of "n div 10"] by (auto split: if_splits)
  next
    case False
    then have "show_nat (m div 10) = show_nat (n div 10)" using e(1) ne [of "m div 10"] by (auto split: if_splits)
    then show ?thesis using "1.IH" False by blast
  qed
  then show ?case using e(2) by (metis div_mult_mod_eq)
qed

lemma append_sep:
  assumes "58 \<notin> set b" "58 \<notin> set d" "a @ (58 :: nat) # b = c @ 58 # d"
  shows "a = c \<and> b = d"
proof -
  have t: "takeWhile (\<lambda>x. x \<noteq> 58) (rev (x @ 58 # y)) = rev y" if "58 \<notin> set y" for x y :: "nat list"
  proof -
    have "takeWhile (\<lambda>x. x \<noteq> 58) (rev y @ 58 # rev x) = rev y @ takeWhile (\<lambda>x. x \<noteq> 58) (58 # rev x)"
      using that by (intro takeWhile_append2) auto
    then show ?thesis by simp
  qed
  have "rev b = rev d" using t [OF assms(1), of a] t [OF assms(2), of c] assms(3) by metis
  then show ?thesis using assms(3) by simp
qed

lemma show_no_colon: "58 \<notin> set (show_nat n)"
  using show_nat_digits [of 58 n] by auto

section \<open>Where a candidate comes from\<close>

definition place :: "'z ersr_case_scheme \<Rightarrow> nat \<times> nat" where
  "place c = (ca_record_index c, ca_step_index c)"

definition earlier :: "nat \<times> nat \<Rightarrow> nat \<times> nat \<Rightarrow> bool" where
  "earlier p m \<longleftrightarrow> fst p < fst m \<or> fst p = fst m \<and> snd p < snd m"

text \<open>All candidates come from before a point of the scan, no place twice in a series.\<close>

definition placed_state :: "nat \<times> nat \<Rightarrow> 'r ersr_state \<Rightarrow> bool" where
  "placed_state m z \<longleftrightarrow> (\<forall>key. let cs = dict_get_or [] key (es_candidates z) in
     distinct (map place cs) \<and> (\<forall>c \<in> set cs. earlier (place c) m \<and> (ca_dataset c, ca_action_type c) = key))"

lemma placed_state_mono: "placed_state m z \<Longrightarrow> (\<And>p. earlier p m \<Longrightarrow> earlier p m') \<Longrightarrow> placed_state m' z"
  by (auto simp: placed_state_def Let_def)

lemma consider_step_list:
  assumes "\<not> token_end st \<le> token_start st"
  shows "\<exists>xs. es_candidates (consider_step env s i r action st z) = dict_put (vr_dataset r, action) xs (es_candidates z) \<and>
    (let res = dict_get_or [] (vr_dataset r, action) (es_candidates z); c = candidate_of i r action st in
     xs = res @ [c] \<or> xs = res \<or> (\<exists>k. xs = res[k := c]))"
proof -
  let ?key = "(vr_dataset r, action)" and ?c = "candidate_of i r action st"
  let ?res = "dict_get_or [] ?key (es_candidates z)" and ?n = "dict_get_or 0 ?key (es_available_counts z) + 1"
  let ?rng = "case dict_get ?key (es_sampling_rngs z) of Some g \<Rightarrow> g
      | None \<Rightarrow> ee_random env (dataset_seed env (seed s) (vr_dataset r) action)"
  obtain k g where k: "ee_randrange env ?n ?rng = (k, g)" by (cases "ee_randrange env ?n ?rng")
  consider "int (length ?res) < max_steps_per_dataset s"
    | "\<not> int (length ?res) < max_steps_per_dataset s" "int k < max_steps_per_dataset s"
    | "\<not> int (length ?res) < max_steps_per_dataset s" "\<not> int k < max_steps_per_dataset s" by blast
  then show ?thesis
  proof cases
    case 1
    then show ?thesis using assms by (intro exI [of _ "?res @ [?c]"]) (auto simp: consider_step_def Let_def)
  next
    case 2
    then show ?thesis using assms k by (intro exI [of _ "?res[k := ?c]"]) (auto simp: consider_step_def Let_def)
  next
    case 3
    then show ?thesis using assms k by (intro exI [of _ ?res]) (auto simp: consider_step_def Let_def)
  qed
qed

lemma consider_step_placed:
  assumes "placed_state (i, j) z" "step_index st = j"
  shows "placed_state (i, Suc j) (consider_step env s i r action st z)"
proof (cases "token_end st \<le> token_start st")
  case True
  have "placed_state (i, Suc j) z" by (rule placed_state_mono [OF assms(1)]) (auto simp: earlier_def)
  then show ?thesis using True by (simp add: consider_step_def)
next
  case False
  let ?key = "(vr_dataset r, action)" and ?c = "candidate_of i r action st"
  let ?res = "dict_get_or [] ?key (es_candidates z)"
  obtain xs where xs: "es_candidates (consider_step env s i r action st z) = dict_put ?key xs (es_candidates z)"
    "xs = ?res @ [?c] \<or> xs = ?res \<or> (\<exists>k. xs = ?res[k := ?c])"
    using consider_step_list [OF False, of env s i r action z] by (auto simp: Let_def)
  have inv: "distinct (map place (dict_get_or [] key (es_candidates z)))"
    "\<And>c. c \<in> set (dict_get_or [] key (es_candidates z)) \<Longrightarrow> earlier (place c) (i, j) \<and> (ca_dataset c, ca_action_type c) = key" for key
    using assms(1) unfolding placed_state_def Let_def by blast+
  have c: "place ?c = (i, j)" "(ca_dataset ?c, ca_action_type ?c) = ?key"
    using assms(2) by (simp_all add: place_def candidate_of_def)
  have new: "place ?c \<notin> set (map place ?res)" using inv(2) [of _ ?key] c(1) unfolding earlier_def by (metis (no_types, lifting) fst_conv image_iff list.set_map nat_neq_iff snd_conv)
  have "distinct (map place xs)" using xs(2) inv(1) [of ?key] new
    by (auto simp: map_update intro!: distinct_list_update)
  moreover have "set xs \<subseteq> insert ?c (set ?res)" using xs(2) set_update_subset_insert by fastforce
  then have "earlier (place d) (i, Suc j) \<and> (ca_dataset d, ca_action_type d) = ?key" if "d \<in> set xs" for d
    using that inv(2) [of d ?key] c by (auto simp: earlier_def)
  moreover have "dict_get_or [] key (es_candidates (consider_step env s i r action st z)) =
      (if key = ?key then xs else dict_get_or [] key (es_candidates z))" for key
    by (simp only: xs(1) dict_get_or_put)
  moreover have "earlier p (i, j) \<Longrightarrow> earlier p (i, Suc j)" for p by (auto simp: earlier_def)
  ultimately show ?thesis using inv unfolding placed_state_def Let_def by metis
qed

lemma consider_steps_placed:
  "map step_index sts = [j..<n] \<Longrightarrow> j \<le> n \<Longrightarrow> placed_state (i, j) z \<Longrightarrow>
    placed_state (i, n) (fold (consider_step env s i r action) sts z)"
proof (induction sts arbitrary: j z)
  case (Cons st sts)
  then have "j < n" by (cases "j < n") auto
  then have "step_index st = j" "map step_index sts = [Suc j..<n]" using Cons.prems(1) by (simp_all add: upt_conv_Cons)
  then show ?case using Cons.IH [of "Suc j"] consider_step_placed [OF Cons.prems(3)] \<open>j < n\<close> by simp
next
  case Nil
  then have "j = n" by (cases "j < n") (simp_all add: upt_conv_Cons)
  then show ?case using Nil by simp
qed

lemma split_step_indices:
  assumes "\<And>skip. tok_decode (ee_tokenizer env) skip [] = []"
    and "split_rollout_steps (ee_unicode env) (ee_tokenizer env) True ids = Inr (resp, steps)"
  shows "map step_index (butlast steps) = [0..<length steps - 1]"
proof -
  obtain tss where "split_text_steps (ee_unicode env) (tok_decode (ee_tokenizer env) True ids) = Inr tss"
    using assms(2) by (auto simp: split_rollout_steps_def decode_ids_def Let_def ebind_Inr)
  from split_rollout_steps_ok [OF assms(1) this] have "map step_index steps = [0..<length steps]"
    using assms(2) by (auto simp: aligned_def)
  then show ?thesis by (cases steps rule: rev_cases) (simp_all add: butlast_append)
qed

lemma consider_record_placed:
  assumes tok: "\<And>skip. tok_decode (ee_tokenizer env) skip [] = []" and p: "placed_state (i, 0) z"
  shows "placed_state (Suc i, 0) (consider_record env s st te (i, r) z)"
proof -
  obtain w where w: "es_candidates w = es_candidates z" "consider_record env s st te (i, r) z = w \<or>
     (\<exists>resp steps. split_rollout_steps (ee_unicode env) (ee_tokenizer env) True (vr_response_ids r) = Inr (resp, steps) \<and>
        vr_dataset r \<in> set (datasets s) \<and>
        consider_record env s st te (i, r) z =
          fold (consider_step env s i r (if vr_correct r then Student_Action else Teacher_Replace)) (butlast steps) w)"
    using consider_record_cases by blast
  have pw: "placed_state (i, 0) w" using p w(1) by (simp add: placed_state_def)
  have moved: "placed_state (i, n) y \<Longrightarrow> placed_state (Suc i, 0) y" for n and y :: "'a ersr_state"
    by (rule placed_state_mono) (auto simp: earlier_def)
  from w(2) show ?thesis
  proof (elim disjE exE conjE)
    fix resp steps
    assume a: "split_rollout_steps (ee_unicode env) (ee_tokenizer env) True (vr_response_ids r) = Inr (resp, steps)"
      "consider_record env s st te (i, r) z =
          fold (consider_step env s i r (if vr_correct r then Student_Action else Teacher_Replace)) (butlast steps) w"
    show ?thesis unfolding a(2)
      by (rule moved, rule consider_steps_placed [OF split_step_indices [OF tok a(1)] _ pw]) simp
  qed (simp add: moved [OF pw])
qed

lemma consider_records_placed:
  assumes "\<And>skip. tok_decode (ee_tokenizer env) skip [] = []"
  shows "placed_state (length records, 0) (fold (consider_record env s st te) (py_enumerate records) start_state)"
proof (induction records rule: rev_induct)
  case Nil
  then show ?case by (simp add: placed_state_def start_state_def py_enumerate_def dict_get_or_def)
next
  case (snoc r records)
  then show ?case using consider_record_placed [OF assms] by (simp add: py_enumerate_append)
qed

section \<open>The selection\<close>

definition id_of :: "'z ersr_case_scheme \<Rightarrow> ustr" where
  "id_of c = ca_dataset c @ lit '':'' @ ca_uid c @ lit '':'' @ show_nat (ca_record_index c) @ lit '':'' @
     show_nat (ca_step_index c) @ lit '':'' @ action_name (ca_action_type c)"

lemma truncate_number_case [simp]: "ersr_case.truncate (number_case s i c) = c"
  by (simp add: number_case_def ersr_case.extend_def ersr_case.truncate_def)

lemma id_of_truncate [simp]: "id_of (ersr_case.truncate c) = id_of c"
  by (simp add: id_of_def ersr_case.truncate_def)

lemma case_id_number_case [simp]: "ca_case_id (number_case s i c) = id_of c"
  by (simp add: number_case_def ersr_case.extend_def id_of_def)

lemma select_series_rows:
  assumes "\<And>g xs. mset (ee_shuffle env g xs) = mset xs"
    and "fold (select_series env s z) keys (sel0, sm0) = (sel, sm)"
    and "\<forall>c \<in> set sel0. ca_case_id c = id_of c"
  shows "(\<forall>c \<in> set sel. ca_case_id c = id_of c) \<and> mset (map ersr_case.truncate sel) =
    mset (map ersr_case.truncate sel0) + mset (concat (map (\<lambda>key. dict_get_or [] key (es_candidates z)) keys))"
  using assms(2,3)
proof (induction keys arbitrary: sel0 sm0)
  case (Cons key keys)
  obtain sel1 sm1 where step: "select_series env s z key (sel0, sm0) = (sel1, sm1)" by (cases "select_series env s z key (sel0, sm0)")
  obtain g where sel1: "sel1 = sel0 @ map (\<lambda>(i, c). number_case s (length sel0 + i) c)
      (py_enumerate (ee_shuffle env g (dict_get_or [] key (es_candidates z))))"
    using step by (auto simp: select_series_def Let_def)
  have "map ersr_case.truncate sel1 = map ersr_case.truncate sel0 @ ee_shuffle env g (dict_get_or [] key (es_candidates z))"
    by (simp add: sel1 comp_def split_beta)
  moreover have "\<forall>c \<in> set sel1. ca_case_id c = id_of c"
  proof -
    have "id_of (number_case s i c) = id_of c" for i c
      using id_of_truncate [of "number_case s i c"] by simp
    then show ?thesis using Cons.prems(2) by (auto simp: sel1)
  qed
  ultimately show ?case using Cons.IH [of sel1 sm1] Cons.prems(1) step assms(1) by (simp add: mset_append)
qed simp

lemma concat_distinct_keys:
  assumes "distinct keys" "\<And>key. distinct (map f (g key))" "\<And>key c. key \<in> set keys \<Longrightarrow> c \<in> set (g key) \<Longrightarrow> h c = key"
  shows "distinct (map (\<lambda>c. (h c, f c)) (concat (map g keys)))"
  using assms(1,3)
proof (induction keys)
  case (Cons key keys)
  have "distinct (map (\<lambda>c. (h c, f c)) (g key))"
    using assms(2) [of key] by (simp add: distinct_map inj_on_def)
  moreover have "distinct (map (\<lambda>c. (h c, f c)) (concat (map g keys)))" using Cons by simp
  moreover have "h c \<noteq> h d" if c: "c \<in> set (g key)" and d: "d \<in> set (concat (map g keys))" for c d
  proof -
    obtain k where "k \<in> set keys" "d \<in> set (g k)" using d by auto
    then have "h c = key" "h d = k" "key \<noteq> k" using Cons.prems c by auto
    then show ?thesis by simp
  qed
  then have "(\<lambda>c. (h c, f c)) ` set (g key) \<inter> (\<lambda>c. (h c, f c)) ` set (concat (map g keys)) = {}" by blast
  ultimately show ?case by simp
qed simp

lemma action_name_no_colon: "58 \<notin> set (action_name a)"
proof -
  have "58 \<notin> set (action_name Student_Action) \<and> 58 \<notin> set (action_name Teacher_Replace)" by code_simp
  then show ?thesis by (cases a) simp_all
qed

lemma action_name_inject: "action_name a = action_name b \<longleftrightarrow> a = b"
proof -
  have "action_name Student_Action \<noteq> action_name Teacher_Replace" by code_simp
  then show ?thesis by (cases a; cases b) auto
qed

lemma id_of_inject:
  assumes "id_of c = id_of d"
  shows "place c = place d \<and> ca_action_type c = ca_action_type d"
proof -
  have e: "((((ca_dataset c @ 58 # ca_uid c) @ 58 # show_nat (ca_record_index c)) @ 58 # show_nat (ca_step_index c)) @ 58 # action_name (ca_action_type c))
      = ((((ca_dataset d @ 58 # ca_uid d) @ 58 # show_nat (ca_record_index d)) @ 58 # show_nat (ca_step_index d)) @ 58 # action_name (ca_action_type d))"
    using assms by (simp add: id_of_def)
  from append_sep [OF action_name_no_colon action_name_no_colon e]
  have 1: "((ca_dataset c @ 58 # ca_uid c) @ 58 # show_nat (ca_record_index c)) @ 58 # show_nat (ca_step_index c) =
      ((ca_dataset d @ 58 # ca_uid d) @ 58 # show_nat (ca_record_index d)) @ 58 # show_nat (ca_step_index d)"
    "ca_action_type c = ca_action_type d" using action_name_inject by blast+
  from append_sep [OF show_no_colon show_no_colon 1(1)]
  have 2: "(ca_dataset c @ 58 # ca_uid c) @ 58 # show_nat (ca_record_index c) = (ca_dataset d @ 58 # ca_uid d) @ 58 # show_nat (ca_record_index d)"
    "ca_step_index c = ca_step_index d" using show_nat_inject by blast+
  from append_sep [OF show_no_colon show_no_colon 2(1)] show ?thesis
    using 1(2) 2(2) show_nat_inject by (auto simp: place_def)
qed

lemma selection_ids_distinct:
  assumes build: "build_ersr_step_cases env records s a b = Inr (cases, sm)" and parsed: "parse_ersr_settings config n = Inr s"
    and shuffle: "\<And>g xs. mset (ee_shuffle env g xs) = mset xs" and tok: "\<And>skip. tok_decode (ee_tokenizer env) skip [] = []"
  shows "distinct (map ca_case_id cases)"
proof -
  let ?z = "fold (consider_record env s a b) (py_enumerate records) start_state"
  let ?cands = "\<lambda>key. dict_get_or [] key (es_candidates ?z)"
  from build obtain sm0 where f: "fold (select_series env s ?z) (ersr_series s a b) ([], sm0) = (cases, sm)"
    by (auto simp: build_ersr_step_cases_def raise_if_Inr Let_def)
  from select_series_rows [OF shuffle f]
  have ids: "\<forall>c \<in> set cases. ca_case_id c = id_of c"
    and rows: "mset (map ersr_case.truncate cases) = mset (concat (map ?cands (ersr_series s a b)))" by simp_all
  let ?ident = "\<lambda>c. ((ca_dataset c, ca_action_type c), place c)"
  have p: "distinct (map place (?cands key))" "\<And>c. c \<in> set (?cands key) \<Longrightarrow> (ca_dataset c, ca_action_type c) = key" for key
    using consider_records_placed [OF tok, of records s a b] unfolding placed_state_def Let_def by blast+
  have "distinct (map ?ident (concat (map ?cands (ersr_series s a b))))"
    by (rule concat_distinct_keys [OF distinct_series p(1) p(2)]) (use parse_ersr_settings_Inr [OF parsed] in auto)
  then have "distinct (map ?ident (map ersr_case.truncate cases))"
    by (subst mset_eq_imp_distinct_iff [where ys = "map ?ident (concat (map ?cands (ersr_series s a b)))"])
      (simp_all only: mset_map [of ?ident] rows)
  then have d: "distinct (map ?ident cases)" by (simp add: comp_def ersr_case.truncate_def place_def)
  have "?ident c = ?ident e" if "c \<in> set cases" "e \<in> set cases" "ca_case_id c = ca_case_id e" for c e
  proof -
    have "place c = place e" "ca_action_type c = ca_action_type e" using that ids id_of_inject by metis+
    moreover have "ca_dataset x = vr_dataset (records ! fst (place x))" if "x \<in> set cases" for x
      using selection_sound [OF build parsed shuffle] that by (auto simp: in_set_conv_nth sound_case_def place_def Let_def)
    ultimately show ?thesis using that by simp
  qed
  then have "inj_on ca_case_id (set cases)"
    using d unfolding distinct_map inj_on_def by (metis (no_types, lifting))
  moreover have "distinct cases" using d by (auto simp: distinct_map)
  ultimately show ?thesis by (simp add: distinct_map)
qed

text \<open>
  C26: The case ids of an ERSR selection are distinct, so the dictionaries keyed by them (invalid
  cases, replacements, arms) never merge two cases: for validated settings, any shuffle that
  permutes and a tokenizer that decodes nothing to the empty text, whatever the dataset names and
  user ids contain.
\<close>

theorem ersr_case_ids_distinct:
  assumes "build_ersr_step_cases env records s a b = Inr (cases, sm)" "parse_ersr_settings config n = Inr s"
    and "\<And>g xs. mset (ee_shuffle env g xs) = mset xs" "\<And>skip. tok_decode (ee_tokenizer env) skip [] = []"
  shows "distinct (map ca_case_id cases)"
  using assms by (rule selection_ids_distinct)

text \<open>A concrete selection: one correct rollout, and a second one of verdict \<open>b\<close>.\<close>

definition example_settings :: ersr_settings where
  "example_settings = \<lparr>datasets = [lit ''math''], max_steps_per_dataset = 4, mc_k = 2, seed = 7, max_response_tokens = 100,
     max_teacher_step_tokens = 16, temperature = Fin (6 / 10), top_p = Fin 1, top_k = - 1\<rparr>"

definition example_case :: "ustr \<Rightarrow> bool \<Rightarrow> nat \<Rightarrow> ersr_case" where
  "example_case words correct i = \<lparr>ca_dataset = lit ''math'',
     ca_action_type = (if correct then Student_Action else Teacher_Replace), ca_record_index = i,
     ca_uid = show_nat i, ca_answer = lit ''7'', ca_prompt_ids = [1], ca_response_ids = map int two_steps, ca_step_index = 0,
     ca_step_token_start = 0, ca_step_token_end = 2, ca_step_text = words\<rparr>"

definition example_cases :: "ustr \<Rightarrow> bool \<Rightarrow> selected_case list" where
  "example_cases words b =
     [number_case example_settings 0 (example_case words True 0), number_case example_settings 1 (example_case words b 1)]"

lemma example_settings_parse: "parse_ersr_settings example_ersr_config 100 = Inr example_settings"
proof -
  have "strip (lit ''math'') = lit ''math''" by code_simp
  then show ?thesis
    by (simp add: parse_ersr_settings_def example_ersr_config_def parse_datasets_def read_or_def raise_if_def Let_def lit_def
        example_settings_def)
qed

lemma example_tokenizer_empty: "tok_decode (ee_tokenizer example_ersr_env) skip [] = []"
  by (simp add: example_ersr_env_def character_tokenizer_def)

lemma example_build:
  obtains words sm where "build_ersr_step_cases example_ersr_env [example_record, example_record\<lparr>vr_correct := b\<rparr>]
    example_settings True True = Inr (example_cases words b, sm)"
proof -
  obtain resp s1 s2 where st: "split_rollout_steps ascii_only character_tokenizer True (map int two_steps) = Inr (resp, [s1, s2])"
    "token_start s1 = 0" "token_end s1 = 2" using example_steps .
  have "map step_index (butlast [s1, s2]) = [0..<length [s1, s2] - 1]"
    by (rule split_step_indices [of example_ersr_env]) (use st in \<open>simp_all add: example_ersr_env_def character_tokenizer_def\<close>)
  then have i: "step_index s1 = 0" by simp
  show thesis
    by (cases b; rule that [of "step_text s1"];
      simp add: build_ersr_step_cases_def raise_if_def Let_def py_enumerate_def consider_record_def example_ersr_env_def
        example_record_def st i example_settings_def consider_step_def ersr_series_def select_series_def start_state_def
        dict_get_or_def candidate_of_def example_cases_def example_case_def)
qed

theorem ersr_case_ids_distinct_witness:
  "\<exists>s cases sm. build_ersr_step_cases example_ersr_env [example_record, example_record] s True True = Inr (cases, sm) \<and>
     length cases = 2 \<and> distinct (map ca_case_id cases)"
proof -
  obtain words sm where b: "build_ersr_step_cases example_ersr_env [example_record, example_record\<lparr>vr_correct := True\<rparr>]
    example_settings True True = Inr (example_cases words True, sm)" using example_build .
  have "example_record\<lparr>vr_correct := True\<rparr> = example_record" by (simp add: example_record_def)
  with b have e: "build_ersr_step_cases example_ersr_env [example_record, example_record] example_settings True True =
    Inr (example_cases words True, sm)" by simp
  from ersr_case_ids_distinct [OF e example_settings_parse permuting_example example_tokenizer_empty]
  have "distinct (map ca_case_id (example_cases words True))" .
  moreover have "length (example_cases words True) = 2" by (simp add: example_cases_def)
  ultimately show ?thesis using e by blast
qed

end
