(* ===== verification/Offline_Correct.thy ===== *)
theory Offline_Correct
  imports ERSR_Offline Evaluation_Correct ERSR_Ids
begin

text \<open>
  The offline ERSR evaluation computes what the online one does: a generation phase hands every
  request an answer the engine gave to it, the requests of a phase are told apart by token budget and
  seed, and planning all Teacher proposals, then all Student continuations, gives the per-case results
  of the online evaluation with these answers, up to the grading by data set (\<open>source_case\<close>).
\<close>

section \<open>Generation phases\<close>

text \<open>
  What a model answers: \<open>ids\<close> is its answer to exactly this request in some call of the engine,
  where the answer may depend on the other requests of the call. A generator serves from a model when
  everything it returns is such an answer for the sampling parameters of the settings.
\<close>

definition served :: "worker_env \<Rightarrow> llm_engine \<Rightarrow> int list \<times> sampling_params \<Rightarrow> int list \<Rightarrow> bool" where
  "served we engine request ids \<longleftrightarrow> (\<exists>call outs i. we_llm we engine call = Inr outs \<and> i < length call \<and> i < length outs \<and>
     call ! i = request \<and> first_ids (outs ! i) = Inr ids)"

definition ersr_params :: "ersr_settings \<Rightarrow> int \<Rightarrow> int \<Rightarrow> sampling_params" where
  "ersr_params s n sd = \<lparr>sp_n = 1, sp_temperature = temperature s, sp_top_p = top_p s, sp_top_k = top_k s,
     sp_max_tokens = n, sp_seed = sd\<rparr>"

definition serves :: "worker_env \<Rightarrow> llm_engine \<Rightarrow> ersr_settings \<Rightarrow> generate \<Rightarrow> bool" where
  "serves we engine s gen \<longleftrightarrow> (\<forall>ids n sd out. gen ids n sd = Inr out \<longrightarrow> served we engine (ids, ersr_params s n sd) out)"

text \<open>An engine that answers each request by itself leaves a generator no choice.\<close>

lemma serves_answers_each:
  assumes "answers_each we engine answer" "serves we engine s gen" "gen ids n sd = Inr out"
  shows "first_ids (answer (ids, ersr_params s n sd)) = Inr out"
  using assms by (fastforce simp: answers_each_def serves_def served_def)

text \<open>A generator's answer to a request of the phases.\<close>

definition continuation_of :: "generate \<Rightarrow> generation_request \<Rightarrow> int list res" where
  "continuation_of gen r = gen (gr_ids r) (gr_max_tokens r) (gr_seed r)"

lemma fold_dict_other:
  "key \<notin> k ` fst ` set ps \<Longrightarrow> dict_get key (fold (\<lambda>(r, x). dict_put (k r) x) ps d) = dict_get key d"
  by (induction ps arbitrary: d) auto

lemma fold_dict_zip:
  assumes "length xs = length rs" "distinct (map k rs)" "i < length rs"
  shows "dict_get (k (rs ! i)) (fold (\<lambda>(r, x). dict_put (k r) x) (zip rs xs) d) = Some (xs ! i)"
  using assms
proof (induction rs arbitrary: xs i d)
  case (Cons r rs)
  then obtain x xs' where xs: "xs = x # xs'" "length xs' = length rs" by (cases xs) auto
  show ?case
  proof (cases i)
    case 0
    have "k r \<notin> k ` fst ` set (zip rs xs')" using Cons.prems(2) by (auto dest: set_zip_leftD)
    then show ?thesis using 0 xs by (simp add: fold_dict_other)
  next
    case (Suc j)
    then show ?thesis using Cons xs by simp
  qed
qed simp

lemma list_all2_concat: "list_all2 (list_all2 P) xss yss \<Longrightarrow> list_all2 P (concat xss) (concat yss)"
  by (induction xss yss rule: list_all2_induct) (auto intro: list_all2_appendI)

lemma generate_job_serves:
  assumes "run_generate_job we wc requests = Inr os"
  shows "list_all2 (\<lambda>r ids. served we (engine_kwargs wc) (gr_ids r, request_params r) ids) requests os"
proof -
  let ?call = "map (\<lambda>r. (gr_ids r, request_params r)) requests"
  obtain outs where o: "we_llm we (engine_kwargs wc) ?call = Inr outs" "length outs = length requests" "emap first_ids outs = Inr os"
    using assms by (auto simp: run_generate_job_def ebind_Inr raise_if_Inr)
  have "served we (engine_kwargs wc) (gr_ids (requests ! i), request_params (requests ! i)) (os ! i)" if "i < length requests" for i
    unfolding served_def using o that emap_Inr_nth [OF o(3), of i]
    by (intro exI [of _ ?call] exI [of _ outs] exI [of _ i]) simp
  then show ?thesis using emap_Inr_length [OF o(3)] o(2) by (simp add: list_all2_conv_all_nth)
qed

lemma generation_phase_outputs:
  assumes d: "distinct (map gr_request_id requests)"
    and run: "run_generation_phase we config requests schedule = Some (Inr outputs)"
    and r: "r \<in> set requests"
  shows "\<exists>ids. dict_get (gr_request_id r) outputs = Some ids \<and> served we (engine_of config) (gr_ids r, request_params r) ids"
proof -
  let ?mk = "\<lambda>rs. \<lparr>jb_kind = ''generate'', jb_tasks = [], jb_requests = rs\<rparr>" and ?wc = "worker_config_of config []"
  have ne: "requests \<noteq> []" using r by auto
  obtain cap ms outs where m: "run_pool jb_kind (\<lambda>g. run_job we ?wc) (map nat (rt_gpus (ev_runtime config)))
      (map ?mk (chunks cap requests)) schedule = Some (Inr ms)"
    and outs: "emap outputs_of ms = Inr outs" "length (concat outs) = length requests"
    and o: "outputs = fold (\<lambda>(request, ids). dict_put (gr_request_id request) ids) (zip requests (concat outs)) []"
    using run ne by (auto simp: run_generation_phase_def Let_def ebind_Inr raise_if_Inr simp del: emap_Inr split: if_splits)
  have "emap (\<lambda>j. run_generate_job we ?wc (jb_requests j)) (map ?mk (chunks cap requests)) = Inr outs"
  proof (rule pool_reads [OF m outs(1)])
    fix j k g i r ys
    assume "j \<in> set (map ?mk (chunks cap requests))" "run_job we ?wc j = Inr r" "outputs_of (Done k g i r) = Inr ys"
    then show "run_generate_job we ?wc (jb_requests j) = Inr ys"
      by (cases r) (auto simp: run_job_def ebind_Inr)
  qed
  then have e: "emap (run_generate_job we ?wc) (chunks cap requests) = Inr outs" by (simp add: emap_map)
  then have "list_all2 (list_all2 (\<lambda>r ids. served we (engine_of config) (gr_ids r, request_params r) ids)) (chunks cap requests) outs"
    by (auto simp: emap_Inr elim!: list_all2_mono dest: generate_job_serves)
  then have all: "list_all2 (\<lambda>r ids. served we (engine_of config) (gr_ids r, request_params r) ids) (concat (chunks cap requests)) (concat outs)"
    by (rule list_all2_concat)
  have "0 < cap"
  proof (rule ccontr)
    assume "\<not> 0 < cap"
    then have "chunks cap requests = []" by (simp add: chunks_def)
    then show False using e outs(2) ne by simp
  qed
  then have all: "list_all2 (\<lambda>r ids. served we (engine_of config) (gr_ids r, request_params r) ids) requests (concat outs)"
    using all by (simp add: concat_chunks)
  obtain i where i: "i < length requests" "r = requests ! i" using r by (auto simp: in_set_conv_nth)
  have "dict_get (gr_request_id r) outputs = Some (concat outs ! i)"
    unfolding o i(2) by (rule fold_dict_zip [OF outs(2) d i(1)])
  moreover have "served we (engine_of config) (gr_ids r, request_params r) (concat outs ! i)"
    using all i by (simp add: list_all2_conv_all_nth)
  ultimately show ?thesis by blast
qed

text \<open>
  The generator that replays a phase: it looks an online call up by its token budget and seed, which
  name one request of the phase.
\<close>

definition replay :: "generation_request list \<Rightarrow> (ustr \<times> int list) list \<Rightarrow> generate" where
  "replay requests outputs ids n sd =
     (case find (\<lambda>r. gr_ids r = ids \<and> (gr_max_tokens r, gr_seed r) = (n, sd)) requests of
        None \<Rightarrow> Inl (KeyError ''request_id'') | Some r \<Rightarrow> lookup_continuation outputs r)"

definition call_key :: "generation_request \<Rightarrow> int \<times> int" where
  "call_key r = (gr_max_tokens r, gr_seed r)"

lemma replay_request:
  assumes "inj_on call_key (set requests)" "r \<in> set requests"
  shows "continuation_of (replay requests outputs) r = lookup_continuation outputs r"
proof -
  let ?P = "\<lambda>q. gr_ids q = gr_ids r \<and> (gr_max_tokens q, gr_seed q) = (gr_max_tokens r, gr_seed r)"
  have "q = r" if "q \<in> set requests" "?P q" for q
    using that assms by (auto simp: inj_on_def call_key_def)
  then have "find ?P requests = Some r"
  proof (cases "find ?P requests")
    case None
    then show ?thesis using assms(2) by (auto simp: find_None_iff)
  next
    case (Some q)
    then have "q \<in> set requests" "?P q" by (auto simp: find_Some_iff)
    then show ?thesis using Some \<open>\<And>q. q \<in> set requests \<Longrightarrow> ?P q \<Longrightarrow> q = r\<close> by simp
  qed
  then show ?thesis by (simp add: continuation_of_def replay_def)
qed

lemma replay_serves:
  assumes "\<And>r. r \<in> set requests \<Longrightarrow> \<exists>ids. dict_get (gr_request_id r) outputs = Some ids \<and>
      served we engine (gr_ids r, request_params r) ids"
    and "\<And>r. r \<in> set requests \<Longrightarrow> request_params r = ersr_params s (gr_max_tokens r) (gr_seed r)"
  shows "serves we engine s (replay requests outputs)"
  unfolding serves_def
proof (intro allI impI)
  fix ids n sd out assume "replay requests outputs ids n sd = Inr out"
  then obtain r where r: "find (\<lambda>r. gr_ids r = ids \<and> (gr_max_tokens r, gr_seed r) = (n, sd)) requests = Some r"
    "lookup_continuation outputs r = Inr out" by (auto simp: replay_def split: option.splits)
  then have "r \<in> set requests" "gr_ids r = ids" "gr_max_tokens r = n" "gr_seed r = sd" by (auto simp: find_Some_iff)
  then show "served we engine (ids, ersr_params s n sd) out"
    using assms(1) [of r] assms(2) [of r] r(2) by (auto simp: lookup_continuation_def split: option.splits)
qed

section \<open>Request identifiers\<close>

definition arm_id :: "selected_case \<Rightarrow> int \<Rightarrow> nat \<Rightarrow> ustr" where
  "arm_id c arm_offset j = ca_case_id c @ lit '':'' @ show_int arm_offset @ lit '':'' @ show_nat j"

lemma arm_id_inject:
  assumes "arm_id c off j = arm_id c' off' j'" "0 \<le> off" "0 \<le> off'"
  shows "ca_case_id c = ca_case_id c' \<and> off = off' \<and> j = j'"
proof -
  have e: "(ca_case_id c @ 58 # show_nat (nat off)) @ 58 # show_nat j = (ca_case_id c' @ 58 # show_nat (nat off')) @ 58 # show_nat j'"
    using assms by (simp add: arm_id_def show_int_def)
  from append_sep [OF show_no_colon show_no_colon e]
  have a: "ca_case_id c @ 58 # show_nat (nat off) = ca_case_id c' @ 58 # show_nat (nat off')" "show_nat j = show_nat j'" by auto
  from append_sep [OF show_no_colon show_no_colon a(1)] a(2) show ?thesis
    using assms(2,3) by (auto dest!: show_nat_inject)
qed

section \<open>Teacher proposals\<close>

definition prior_ids :: "selected_case \<Rightarrow> int list" where
  "prior_ids c = take (ca_step_token_start c) (ca_response_ids c)"

definition teacher_budget :: "ersr_settings \<Rightarrow> selected_case \<Rightarrow> int" where
  "teacher_budget s c = min (max_teacher_step_tokens s) (max_response_tokens s - int (length (prior_ids c)))"

definition unaffordable :: "ersr_settings \<Rightarrow> selected_case \<Rightarrow> bool" where
  "unaffordable s c \<longleftrightarrow> ca_action_type c = Teacher_Replace \<and> teacher_budget s c \<le> 0"

definition asked :: "ersr_settings \<Rightarrow> selected_case \<Rightarrow> bool" where
  "asked s c \<longleftrightarrow> ca_action_type c = Teacher_Replace \<and> \<not> teacher_budget s c \<le> 0"

definition skip_entry :: "string \<Rightarrow> selected_case \<Rightarrow> ustr \<times> ersr_result" where
  "skip_entry reason c = (ca_case_id c, result_of c (Skipped (lit reason)))"

definition case_request :: "ersr_settings \<Rightarrow> model_spec \<Rightarrow> selected_case \<Rightarrow> generation_request" where
  "case_request s model c = teacher_request s 0 model c (prior_ids c) (teacher_budget s c)"

definition groups_of :: "model_spec \<Rightarrow> teacher_row list \<Rightarrow> (model_spec \<times> teacher_row list) list" where
  "groups_of t asks = (if asks = [] then [] else [(t, asks)])"

lemma plan_cases:
  assumes "distinct (map ca_case_id cs)" "\<forall>c \<in> set cs. ca_case_id c \<notin> fst ` set (wk_invalid w)"
  shows "fold (plan_case s t 0) cs ([w], groups_of t asks) =
    ([w\<lparr>wk_invalid := wk_invalid w @ map (skip_entry ''no_teacher_budget'') (filter (unaffordable s) cs)\<rparr>],
     groups_of t (asks @ map (\<lambda>c. (0, c, case_request s (wk_model w) c)) (filter (asked s) cs)))"
  using assms
proof (induction cs arbitrary: w asks)
  case (Cons c cs)
  consider (student) "ca_action_type c \<noteq> Teacher_Replace" | (poor) "unaffordable s c" | (ask) "asked s c"
    by (auto simp: unaffordable_def asked_def)
  then show ?case
  proof cases
    case student
    then show ?thesis using Cons by (simp add: plan_case_def unaffordable_def asked_def)
  next
    case poor
    then have t: "ca_action_type c = Teacher_Replace" "teacher_budget s c \<le> 0" "\<not> asked s c"
      by (auto simp: unaffordable_def asked_def)
    let ?w = "w\<lparr>wk_invalid := wk_invalid w @ [skip_entry ''no_teacher_budget'' c]\<rparr>"
    have "plan_case s t 0 c ([w], groups_of t asks) = ([?w], groups_of t asks)"
      using t Cons.prems(2) by (simp add: plan_case_def put_invalid_def skip_entry_def dict_put_new teacher_budget_def prior_ids_def)
    moreover have "\<forall>d \<in> set cs. ca_case_id d \<notin> fst ` set (wk_invalid ?w)"
      using Cons.prems by (simp add: skip_entry_def image_iff) metis
    ultimately show ?thesis using Cons.IH [of ?w asks] Cons.prems t poor by simp
  next
    case ask
    then have t: "ca_action_type c = Teacher_Replace" "\<not> teacher_budget s c \<le> 0" "\<not> unaffordable s c"
      by (auto simp: unaffordable_def asked_def)
    have "plan_case s t 0 c ([w], groups_of t asks) =
        ([w], groups_of t (asks @ [(0, c, case_request s (wk_model w) c)]))"
      using t by (simp add: plan_case_def groups_of_def teacher_budget_def prior_ids_def case_request_def Let_def dict_get_or_def)
    then show ?thesis using Cons.IH [of w "asks @ [(0, c, case_request s (wk_model w) c)]"] Cons.prems t ask by simp
  qed
qed simp

text \<open>The replacement a Teacher's answer contains, empty when there is none.\<close>

definition proposed :: "'r ersr_env \<Rightarrow> generate \<Rightarrow> generation_request \<Rightarrow> int list" where
  "proposed env answer r = (case ebind (continuation_of answer r) (first_replacement_step_ids env) of
     Inl _ \<Rightarrow> [] | Inr ids \<Rightarrow> ids)"

definition with_proposal :: "selected_case \<Rightarrow> int list \<Rightarrow> 'r ersr_work \<Rightarrow> 'r ersr_work" where
  "with_proposal c r w =
     (if r = [] then w\<lparr>wk_invalid := wk_invalid w @ [skip_entry ''empty_teacher_replacement'' c]\<rparr>
      else w\<lparr>wk_replacements := wk_replacements w @ [(ca_case_id c, r)]\<rparr>)"

lemma keep_proposal_step:
  assumes "dict_get (gr_request_id r) outputs = Some ids" "first_replacement_step_ids (wk_env w) ids = Inr repl"
    and "ca_case_id c \<notin> fst ` set (wk_invalid w)" "ca_case_id c \<notin> fst ` set (wk_replacements w)"
  shows "keep_proposal outputs (0, c, r) [w] = Inr [with_proposal c repl w]"
  using assms by (simp add: keep_proposal_def with_proposal_def put_invalid_def dict_put_new skip_entry_def)

lemma keep_proposal_replaces:
  "keep_proposal outputs (0, c, r) [w] = Inr works \<Longrightarrow> dict_get (gr_request_id r) outputs = Some ids
    \<Longrightarrow> \<exists>repl. first_replacement_step_ids (wk_env w) ids = Inr repl"
  by (auto simp: keep_proposal_def ebind_Inr)

lemma keep_proposals:
  assumes "distinct (map ca_case_id cs)"
    and "\<forall>c \<in> set cs. ca_case_id c \<notin> fst ` set (wk_invalid w) \<and> ca_case_id c \<notin> fst ` set (wk_replacements w)"
    and "\<forall>c \<in> set cs. \<exists>ids. continuation_of answer (req c) = Inr ids \<and> dict_get (gr_request_id (req c)) outputs = Some ids"
    and "efold (keep_proposal outputs) (map (\<lambda>c. (0, c, req c)) cs) [w] = Inr works"
  shows "works = [w\<lparr>wk_invalid := wk_invalid w @ map (skip_entry ''empty_teacher_replacement'')
              (filter (\<lambda>c. proposed (wk_env w) answer (req c) = []) cs),
            wk_replacements := wk_replacements w @ map (\<lambda>c. (ca_case_id c, proposed (wk_env w) answer (req c)))
              (filter (\<lambda>c. proposed (wk_env w) answer (req c) \<noteq> []) cs)\<rparr>]"
    and "\<forall>c \<in> set cs. ebind (continuation_of answer (req c)) (first_replacement_step_ids (wk_env w)) =
      Inr (proposed (wk_env w) answer (req c))"
  using assms
proof (induction cs arbitrary: w)
  case (Cons c cs)
  have step: "\<exists>r. ebind (continuation_of answer (req c)) (first_replacement_step_ids (wk_env w)) = Inr r
      \<and> proposed (wk_env w) answer (req c) = r
      \<and> efold (keep_proposal outputs) (map (\<lambda>c. (0, c, req c)) cs) [with_proposal c r w] = Inr works
      \<and> (\<forall>d \<in> set cs. ca_case_id d \<notin> fst ` set (wk_invalid (with_proposal c r w))
          \<and> ca_case_id d \<notin> fst ` set (wk_replacements (with_proposal c r w)))
      \<and> wk_env (with_proposal c r w) = wk_env w"
    if d: "distinct (map ca_case_id (c # cs))"
      and n: "\<forall>c \<in> set (c # cs). ca_case_id c \<notin> fst ` set (wk_invalid w) \<and> ca_case_id c \<notin> fst ` set (wk_replacements w)"
      and l: "\<forall>c \<in> set (c # cs). \<exists>ids. continuation_of answer (req c) = Inr ids \<and> dict_get (gr_request_id (req c)) outputs = Some ids"
      and e: "efold (keep_proposal outputs) (map (\<lambda>c. (0, c, req c)) (c # cs)) [w] = Inr works"
    for w
  proof -
    obtain ids where ids: "continuation_of answer (req c) = Inr ids" "dict_get (gr_request_id (req c)) outputs = Some ids"
      using l by auto
    obtain works1 where "keep_proposal outputs (0, c, req c) [w] = Inr works1" using e by (auto simp: ebind_Inr)
    then obtain r where r: "first_replacement_step_ids (wk_env w) ids = Inr r"
      using keep_proposal_replaces [OF _ ids(2)] by blast
    have "keep_proposal outputs (0, c, req c) [w] = Inr [with_proposal c r w]"
      using n by (intro keep_proposal_step [OF ids(2) r]) auto
    then have "efold (keep_proposal outputs) (map (\<lambda>c. (0, c, req c)) cs) [with_proposal c r w] = Inr works"
      using e by simp
    moreover have "ca_case_id x \<notin> fst ` set (wk_invalid (with_proposal c r w))
          \<and> ca_case_id x \<notin> fst ` set (wk_replacements (with_proposal c r w))" if "x \<in> set cs" for x
    proof -
      have "ca_case_id x \<noteq> ca_case_id c" using d that by (auto simp: image_iff)
      then show ?thesis using n that by (simp add: with_proposal_def skip_entry_def)
    qed
    moreover have "ebind (continuation_of answer (req c)) (first_replacement_step_ids (wk_env w)) = Inr r"
      by (simp add: ids r)
    moreover have "proposed (wk_env w) answer (req c) = r" by (simp add: proposed_def ids r)
    moreover have "wk_env (with_proposal c r w) = wk_env w" by (simp add: with_proposal_def)
    ultimately show ?thesis by blast
  qed
  {
    case 1
    from step [OF 1] obtain r where r: "proposed (wk_env w) answer (req c) = r"
      "efold (keep_proposal outputs) (map (\<lambda>c. (0, c, req c)) cs) [with_proposal c r w] = Inr works"
      "\<forall>d \<in> set cs. ca_case_id d \<notin> fst ` set (wk_invalid (with_proposal c r w))
          \<and> ca_case_id d \<notin> fst ` set (wk_replacements (with_proposal c r w))"
      "wk_env (with_proposal c r w) = wk_env w" by blast
    show ?case using Cons.IH(1) [OF _ r(3) _ r(2)] 1 r by (simp add: with_proposal_def)
  next
    case 2
    from step [OF 2] obtain r where r: "ebind (continuation_of answer (req c)) (first_replacement_step_ids (wk_env w)) = Inr r"
      "proposed (wk_env w) answer (req c) = r"
      "efold (keep_proposal outputs) (map (\<lambda>c. (0, c, req c)) cs) [with_proposal c r w] = Inr works"
      "\<forall>d \<in> set cs. ca_case_id d \<notin> fst ` set (wk_invalid (with_proposal c r w))
          \<and> ca_case_id d \<notin> fst ` set (wk_replacements (with_proposal c r w))"
      "wk_env (with_proposal c r w) = wk_env w" by blast
    show ?case using Cons.IH(2) [OF _ r(4) _ r(3)] 2 r by simp
  }
qed auto

text \<open>The whole Teacher phase for one checkpoint.\<close>

lemma obind_Some_Inr: "obind m f = Some (Inr y) \<longleftrightarrow> (\<exists>x. m = Some (Inr x) \<and> f x = Some (Inr y))"
proof (cases m)
  case (Some r)
  then show ?thesis by (cases r) auto
qed simp

definition planned_invalid :: "'r ersr_env \<Rightarrow> ersr_settings \<Rightarrow> generate \<Rightarrow> model_spec
    \<Rightarrow> selected_case list \<Rightarrow> (ustr \<times> ersr_result) list" where
  "planned_invalid env s answer model cases =
     map (skip_entry ''no_teacher_budget'') (filter (unaffordable s) cases)
     @ map (skip_entry ''empty_teacher_replacement'')
         (filter (\<lambda>c. proposed env answer (case_request s model c) = []) (filter (asked s) cases))"

definition planned_replacements :: "'r ersr_env \<Rightarrow> ersr_settings \<Rightarrow> generate \<Rightarrow> model_spec
    \<Rightarrow> selected_case list \<Rightarrow> (ustr \<times> int list) list" where
  "planned_replacements env s answer model cases =
     map (\<lambda>c. (ca_case_id c, proposed env answer (case_request s model c)))
       (filter (\<lambda>c. proposed env answer (case_request s model c) \<noteq> []) (filter (asked s) cases))"

lemma case_request_distinct:
  assumes "distinct (map ca_case_id cs)"
  shows "distinct (map (\<lambda>c. gr_request_id (case_request s model c)) cs)"
proof -
  have "gr_request_id (case_request s model c) = gr_request_id (case_request s model d) \<longleftrightarrow> ca_case_id c = ca_case_id d" for c d
    by (simp add: case_request_def teacher_request_def)
  then show ?thesis using assms by (simp add: distinct_map inj_on_def)
qed

lemma case_request_serves:
  assumes "distinct (map ca_seed cs)"
  shows "inj_on call_key (set (map (case_request s model) cs))"
    and "r \<in> set (map (case_request s model) cs) \<Longrightarrow> request_params r = ersr_params s (gr_max_tokens r) (gr_seed r)"
  using assms
  by (auto simp: inj_on_def call_key_def case_request_def teacher_request_def distinct_map request_params_def ersr_params_def)

lemma teacher_phase:
  assumes ersr: "oc_ersr config = Some ersr" and s: "s = ep_settings ersr"
    and t: "ersr_teacher_for_model config (wk_model w) = Inr teacher"
    and none: "teacher = None \<Longrightarrow> \<forall>c \<in> set (wk_cases w). ca_action_type c = Student_Action"
    and d: "distinct (map ca_case_id (wk_cases w))" "distinct (map ca_seed (wk_cases w))"
    and fresh: "wk_invalid w = []" "wk_replacements w = []"
    and run: "generate_ersr_replacements we_of schedules config [w] = Some (Inr works)"
  obtains ta where "\<forall>t. teacher = Some t \<longrightarrow> serves (we_of t) (engine_of (teacher_config (oc_eval config) ersr)) s ta"
    "works = [w\<lparr>wk_invalid := planned_invalid (wk_env w) s ta (wk_model w) (wk_cases w),
      wk_replacements := planned_replacements (wk_env w) s ta (wk_model w) (wk_cases w), wk_teacher_complete := True\<rparr>]"
    "\<forall>c \<in> set (wk_cases w). asked s c \<longrightarrow>
      ebind (continuation_of ta (case_request s (wk_model w) c)) (first_replacement_step_ids (wk_env w)) =
      Inr (proposed (wk_env w) ta (case_request s (wk_model w) c))"
proof (cases teacher)
  case None
  have a: "filter (asked s) (wk_cases w) = []" "filter (unaffordable s) (wk_cases w) = []"
    using none [OF None] by (auto simp: asked_def unaffordable_def filter_empty_conv)
  have same: "w\<lparr>wk_invalid := [], wk_replacements := [], wk_teacher_complete := True\<rparr> = w\<lparr>wk_teacher_complete := True\<rparr>"
    using fresh by (cases w) simp
  have works: "works = [w\<lparr>wk_teacher_complete := True\<rparr>]"
    using run t None by (simp add: generate_ersr_replacements_def ersr plan_work_def py_enumerate_def)
  have "works = [w\<lparr>wk_invalid := planned_invalid (wk_env w) s ta (wk_model w) (wk_cases w),
      wk_replacements := planned_replacements (wk_env w) s ta (wk_model w) (wk_cases w), wk_teacher_complete := True\<rparr>]" for ta
    by (simp only: works planned_invalid_def planned_replacements_def a filter.simps list.map append.simps same)
  moreover have "serves we engine s (replay [] [])" for we engine by (simp add: serves_def replay_def)
  ultimately show thesis using that [of "replay [] []"] a by (auto simp: filter_empty_conv)
next
  case (Some t)
  let ?cs = "filter (asked s) (wk_cases w)" and ?req = "case_request s (wk_model w)"
  let ?w = "w\<lparr>wk_invalid := map (skip_entry ''no_teacher_budget'') (filter (unaffordable s) (wk_cases w))\<rparr>"
  let ?engine = "engine_of (teacher_config (oc_eval config) ersr)"
  have plan: "efold (plan_work config s) (py_enumerate [w]) ([w], []) = Inr ([?w], groups_of t (map (\<lambda>c. (0, c, ?req c)) ?cs))"
    using plan_cases [OF d(1), of w s t "[]"] fresh assms(3) Some
    by (simp add: plan_work_def py_enumerate_def groups_of_def)
  obtain works1 where r: "run_teachers we_of schedules config ersr (groups_of t (map (\<lambda>c. (0, c, ?req c)) ?cs)) [?w] = Some (Inr works1)"
    and works: "works = map (\<lambda>wk. wk\<lparr>wk_teacher_complete := True\<rparr>) works1"
    using run plan by (auto simp: generate_ersr_replacements_def ersr s [symmetric] obind_Some_Inr)
  have dcs: "distinct (map ca_case_id ?cs)" "distinct (map ca_seed ?cs)" using d by (simp_all add: distinct_map_filter)
  have inv: "\<forall>c \<in> set ?cs. ca_case_id c \<notin> fst ` set (wk_invalid ?w) \<and> ca_case_id c \<notin> fst ` set (wk_replacements ?w)"
  proof
    fix c assume c: "c \<in> set ?cs"
    have "ca_case_id c \<noteq> ca_case_id x" if "x \<in> set (wk_cases w)" "unaffordable s x" for x
      using d(1) c that by (metis (no_types, lifting) distinct_map inj_on_def asked_def unaffordable_def mem_Collect_eq set_filter)
    then show "ca_case_id c \<notin> fst ` set (wk_invalid ?w) \<and> ca_case_id c \<notin> fst ` set (wk_replacements ?w)"
      using fresh by (simp add: skip_entry_def image_iff)
  qed
  have "\<exists>outputs ta. serves (we_of t) ?engine s ta
      \<and> (\<forall>c \<in> set ?cs. \<exists>ids. continuation_of ta (?req c) = Inr ids \<and> dict_get (gr_request_id (?req c)) outputs = Some ids)
      \<and> efold (keep_proposal outputs) (map (\<lambda>c. (0, c, ?req c)) ?cs) [?w] = Inr works1"
  proof (cases "?cs = []")
    case True
    then have "works1 = [?w]" using r by (simp add: groups_of_def)
    then show ?thesis using True by (intro exI [of _ "[]"] exI [of _ "replay [] []"]) (simp add: serves_def replay_def)
  next
    case False
    then obtain outputs where g: "run_generation_phase (we_of t) (teacher_config (oc_eval config) ersr)
        (map ?req ?cs) (schedules t) = Some (Inr outputs)"
      and e: "efold (keep_proposal outputs) (map (\<lambda>c. (0, c, ?req c)) ?cs) [?w] = Inr works1"
      using r by (auto simp: groups_of_def run_teacher_def obind_Some_Inr comp_def)
    have "distinct (map gr_request_id (map ?req ?cs))" using case_request_distinct [OF dcs(1)] by (simp add: comp_def)
    note l = generation_phase_outputs [OF this g]
    have "continuation_of (replay (map ?req ?cs) outputs) (?req c) = lookup_continuation outputs (?req c)" if "c \<in> set ?cs" for c
      using that by (intro replay_request [OF case_request_serves(1) [OF dcs(2)]]) auto
    then have "\<forall>c \<in> set ?cs. \<exists>ids. continuation_of (replay (map ?req ?cs) outputs) (?req c) = Inr ids \<and>
        dict_get (gr_request_id (?req c)) outputs = Some ids"
      using l by (fastforce simp: lookup_continuation_def)
    moreover have "serves (we_of t) ?engine s (replay (map ?req ?cs) outputs)"
      by (rule replay_serves [OF l case_request_serves(2) [OF dcs(2)]])
    ultimately show ?thesis using e by blast
  qed
  then obtain outputs ta where sv: "serves (we_of t) ?engine s ta"
    and l: "\<forall>c \<in> set ?cs. \<exists>ids. continuation_of ta (?req c) = Inr ids \<and> dict_get (gr_request_id (?req c)) outputs = Some ids"
    and e: "efold (keep_proposal outputs) (map (\<lambda>c. (0, c, ?req c)) ?cs) [?w] = Inr works1" by blast
  show thesis
  proof (rule that [of ta])
    show "\<forall>t'. teacher = Some t' \<longrightarrow> serves (we_of t') ?engine s ta" using sv Some by simp
    show "works = [w\<lparr>wk_invalid := planned_invalid (wk_env w) s ta (wk_model w) (wk_cases w),
        wk_replacements := planned_replacements (wk_env w) s ta (wk_model w) (wk_cases w), wk_teacher_complete := True\<rparr>]"
      using keep_proposals(1) [OF dcs(1) inv l e] fresh
      by (simp add: works planned_invalid_def planned_replacements_def)
    show "\<forall>c \<in> set (wk_cases w). asked s c \<longrightarrow>
        ebind (continuation_of ta (?req c)) (first_replacement_step_ids (wk_env w)) = Inr (proposed (wk_env w) ta (?req c))"
      using keep_proposals(2) [OF dcs(1) inv l e] by simp
  qed
qed

section \<open>Student continuations\<close>

lemma dict_get_filter:
  assumes "distinct (map ca_case_id cs)" "c \<in> set cs"
  shows "dict_get (ca_case_id c) (map (\<lambda>c. (ca_case_id c, f c)) (filter P cs)) = (if P c then Some (f c) else None)"
  using assms
proof (induction cs)
  case (Cons d cs)
  then show ?case
  proof (cases "c = d")
    case True
    have "ca_case_id d \<notin> ca_case_id ` set cs" using Cons.prems(1) by simp
    then have "map_of (map (\<lambda>c. (ca_case_id c, f c)) (filter P cs)) (ca_case_id d) = None"
      by (auto simp: map_of_eq_None_iff)
    then show ?thesis using True by (simp add: dict_get_def)
  next
    case False
    then have "c \<in> set cs" using Cons.prems(2) by simp
    then have "c \<in> set cs" "ca_case_id c \<noteq> ca_case_id d" using Cons.prems(1) by (simp_all add: image_iff) metis
    then show ?thesis using Cons by (simp add: dict_get_def)
  qed
qed simp

definition case_reqs :: "ersr_settings \<Rightarrow> selected_case \<Rightarrow> int list \<Rightarrow> generation_request list" where
  "case_reqs s c prefix = arm_requests s c (prior_ids c) 0 @ arm_requests s c prefix 1000"

lemma plan_arms_fold:
  assumes "distinct (map ca_case_id cs)" "\<forall>c \<in> set cs. ca_case_id c \<notin> fst ` set (fst acc)"
  shows "fold (plan_arms s wk) cs acc =
    (fst acc @ map (\<lambda>c. (ca_case_id c, make_arm s c (prior_ids c) 0, make_arm s c (the (case_prefix wk c)) 1000))
        (filter (\<lambda>c. case_prefix wk c \<noteq> None) cs),
     snd acc @ concat (map (\<lambda>c. case_reqs s c (the (case_prefix wk c))) (filter (\<lambda>c. case_prefix wk c \<noteq> None) cs)))"
  using assms
proof (induction cs arbitrary: acc)
  case (Cons c cs)
  show ?case
  proof (cases "case_prefix wk c")
    case None
    then have "plan_arms s wk c acc = acc" by (simp add: plan_arms_def)
    then show ?thesis using Cons None by simp
  next
    case (Some prefix)
    let ?entry = "(ca_case_id c, make_arm s c (prior_ids c) 0, make_arm s c prefix 1000)"
    have p: "plan_arms s wk c acc = (fst acc @ [?entry], snd acc @ case_reqs s c prefix)"
      using Cons.prems(2) Some
      by (simp add: plan_arms_def Let_def prior_ids_def dict_put_new case_reqs_def make_arm_def)
    have "\<forall>d \<in> set cs. ca_case_id d \<notin> fst ` set (fst acc @ [?entry])"
      using Cons.prems by (simp add: image_iff) metis
    then show ?thesis using Cons.IH [of "(fst acc @ [?entry], snd acc @ case_reqs s c prefix)"] Cons.prems(1) p Some by simp
  qed
qed simp

lemma arm_request_ids: "map gr_request_id (arm_requests s c prefix off) =
    (if max_response_tokens s - int (length prefix) \<le> 0 then [] else map (arm_id c off) [0..<nat (mc_k s)])"
  by (simp add: arm_requests_def arm_id_def Let_def)

lemma distinct_case_reqs:
  assumes "distinct (map ca_case_id cs)"
  shows "distinct (map gr_request_id (concat (map (\<lambda>c. case_reqs s c (prefix c)) cs)))"
  using assms
proof (induction cs)
  case (Cons c cs)
  have ids: "x \<in> gr_request_id ` set (case_reqs s d p) \<Longrightarrow> \<exists>off j. x = arm_id d off j \<and> 0 \<le> off" for x d p
  proof -
    assume "x \<in> gr_request_id ` set (case_reqs s d p)"
    then have "x \<in> set (map gr_request_id (arm_requests s d (prior_ids d) 0)) \<union> set (map gr_request_id (arm_requests s d p 1000))"
      by (auto simp: case_reqs_def)
    then show ?thesis unfolding arm_request_ids by (fastforce split: if_splits)
  qed
  have own: "distinct (map gr_request_id (case_reqs s c p))" for p
  proof -
    have "distinct (map (arm_id c off) [0..<n])" if "0 \<le> off" for off n
      using that by (auto simp: distinct_map inj_on_def dest: arm_id_inject)
    moreover have "set (map (arm_id c 0) [0..<n]) \<inter> set (map (arm_id c 1000) [0..<m]) = {}" for n m
      by (auto dest: arm_id_inject)
    ultimately show ?thesis by (simp add: case_reqs_def arm_request_ids)
  qed
  have "gr_request_id ` set (case_reqs s c (prefix c)) \<inter> gr_request_id ` set (concat (map (\<lambda>c. case_reqs s c (prefix c)) cs)) = {}"
  proof (rule ccontr)
    assume "\<not> ?thesis"
    then obtain x d where x: "x \<in> gr_request_id ` set (case_reqs s c (prefix c))" "d \<in> set cs"
      "x \<in> gr_request_id ` set (case_reqs s d (prefix d))" by auto
    from ids [OF x(1)] ids [OF x(3)] have "ca_case_id c = ca_case_id d" by (auto dest: arm_id_inject)
    then show False using Cons.prems x(2) by auto
  qed
  then show ?case using Cons own [of "prefix c"] by auto
qed simp

section \<open>Values of the arms\<close>

lemma continuation_of_arm:
  assumes "j < nat (mc_k s)" "\<not> max_response_tokens s - int (length prefix) \<le> 0"
  shows "continuation_of gen (arm_requests s c prefix off ! j) =
    gen (ca_prompt_ids c @ prefix) (max_response_tokens s - int (length prefix)) (sample_seed c off j)"
  using assms by (simp add: arm_requests_def continuation_of_def sample_seed_def Let_def)

lemma continuation_of_teacher:
  "continuation_of gen (case_request s model c) = gen (ca_prompt_ids c @ prior_ids c) (teacher_budget s c) (ca_seed c + 5000)"
  by (simp add: case_request_def teacher_request_def continuation_of_def)

lemma sum_list_indicator: "sum_list (map (\<lambda>x. if P x then 1 else 0) xs) = length (filter P xs)"
  by (induction xs) auto

lemma emap_lookup:
  assumes "\<And>r. r \<in> set rs \<Longrightarrow> \<exists>ids. f r = Inr ids \<and> dict_get (gr_request_id r) outputs = Some ids"
  shows "\<exists>xs. emap (lookup_continuation outputs) rs = Inr xs \<and> emap f rs = Inr xs"
  using assms
proof (induction rs)
  case (Cons r rs)
  obtain xs where "emap (lookup_continuation outputs) rs = Inr xs" "emap f rs = Inr xs" using Cons by auto
  moreover obtain ids where "f r = Inr ids" "dict_get (gr_request_id r) outputs = Some ids" using Cons.prems by auto
  moreover from this have "lookup_continuation outputs r = Inr ids" by (simp add: lookup_continuation_def)
  ultimately show ?case by simp
qed simp

lemma emap_then_Inr: "emap f xs = Inr ys \<Longrightarrow> emap (\<lambda>x. ebind (f x) (\<lambda>y. Inr (g y))) xs = Inr (map g ys)"
  by (induction xs arbitrary: ys) (auto simp: ebind_Inr)

text \<open>
  The online evaluation with the grading of a data source; without a source it is
  \<open>estimate_value\<close> and \<open>evaluate_ersr_case\<close>. The offline phases grade by data set, which
  differs for SciBench (a relative tolerance) and only there.
\<close>

definition source_value :: "ustr option \<Rightarrow> 'r ersr_env \<Rightarrow> selected_case \<Rightarrow> int list \<Rightarrow> ersr_settings \<Rightarrow> int \<Rightarrow> generate
    \<Rightarrow> (real \<times> nat) res" where
  "source_value source env c prefix s arm_offset gen =
     (let remaining = max_response_tokens s - int (length prefix) in
      ebind (emap (\<lambda>j. ebind (if remaining \<le> 0 then Inr []
               else gen (ca_prompt_ids c @ prefix) remaining (sample_seed c arm_offset j)) (\<lambda>ids.
             Inr (reward_for_continuation env prefix ids (ca_answer c) source, if ids = [] then 1 else 0)))
          [0..<nat (mc_k s)]) (\<lambda>samples.
      raise_if (mc_k s = 0) ZeroDivisionError
      (Inr (sum_list (map fst samples) / of_int (mc_k s), sum_list (map snd samples)))))"

definition source_case :: "ustr option \<Rightarrow> 'r ersr_env \<Rightarrow> selected_case \<Rightarrow> ersr_settings \<Rightarrow> generate \<Rightarrow> generate option
    \<Rightarrow> ersr_result res" where
  "source_case source env c s student_generate teacher_generate =
     raise_if (\<not> (ca_step_token_start c < ca_step_token_end c \<and> ca_step_token_end c \<le> length (ca_response_ids c)))
       (ValueError ''Invalid ERSR step token span'')
     (ebind (ERSR.action_prefix env c s teacher_generate) (\<lambda>act. case act of
        Inl reason \<Rightarrow> Inr (result_of c (Skipped reason))
      | Inr (prefix, replaced) \<Rightarrow>
          ebind (source_value source env c (prior_ids c) s 0 student_generate) (\<lambda>(baseline_value, baseline_empty).
          ebind (source_value source env c prefix s 1000 student_generate) (\<lambda>(action_value, action_empty).
          Inr (result_of c (Valued
            \<lparr>ev_baseline_value = baseline_value, ev_action_value = action_value,
             ev_advantage = action_value - baseline_value, ev_mc_k = mc_k s,
             ev_baseline_empty_continuations = baseline_empty, ev_action_empty_continuations = action_empty,
             ev_replacement_num_tokens = replaced\<rparr>))))))"

definition scibench_source :: "'r ersr_env \<Rightarrow> ustr \<Rightarrow> bool" where
  "scibench_source env ds \<longleftrightarrow> ve_casefold (ee_verifier env) (strip ds) = lit ''scibench''"

lemma source_value_None: "source_value None env c prefix s off gen = estimate_value env c prefix s off gen"
  by (simp add: source_value_def estimate_value_def value_sample_def [abs_def] Let_def)

lemma source_case_None: "source_case None env c s sg tg = evaluate_ersr_case env c s sg tg"
  unfolding source_case_def evaluate_ersr_case_def source_value_None prior_ids_def Let_def by (rule refl)

lemma plain_reward:
  "\<not> scibench_source env ds \<Longrightarrow>
    reward_for_continuation env prefix ids answer (Some ds) = reward_for_continuation env prefix ids answer None"
  by (simp add: scibench_source_def reward_for_continuation_def verify_dataset_response_answer_def)

lemma source_case_plain:
  assumes "\<not> scibench_source env ds"
  shows "source_case (Some ds) env c s sg tg = evaluate_ersr_case env c s sg tg"
proof -
  have "source_value (Some ds) env c prefix s off gen = source_value None env c prefix s off gen" for prefix off gen
    by (simp add: source_value_def plain_reward [OF assms])
  then show ?thesis unfolding source_case_None [symmetric] source_case_def by simp
qed

lemma arm_value_estimate:
  assumes k: "0 < mc_k s"
    and l: "\<And>r. r \<in> set (arm_requests s c prefix off) \<Longrightarrow>
      \<exists>ids. continuation_of gen r = Inr ids \<and> dict_get (gr_request_id r) outputs = Some ids"
  shows "\<exists>v. arm_value env s c outputs (make_arm s c prefix off) = Inr v \<and>
    source_value (Some (ca_dataset c)) env c prefix s off gen = Inr v"
proof -
  let ?reward = "\<lambda>ids. reward_for_continuation env prefix ids (ca_answer c) (Some (ca_dataset c))"
  let ?rest = "max_response_tokens s - int (length prefix)"
  let ?sample = "\<lambda>j. ebind (if ?rest \<le> 0 then Inr [] else gen (ca_prompt_ids c @ prefix) ?rest (sample_seed c off j))
      (\<lambda>ids. Inr (?reward ids, if ids = [] then 1 else 0))"
  have v: "source_value (Some (ca_dataset c)) env c prefix s off gen =
      ebind (emap ?sample [0..<nat (mc_k s)]) (\<lambda>samples. raise_if (mc_k s = 0) ZeroDivisionError
      (Inr (sum_list (map fst samples) / of_int (mc_k s), sum_list (map snd samples))))"
    by (simp add: source_value_def Let_def)
  show ?thesis
  proof (cases "?rest \<le> 0")
    case True
    have e: "emap ?sample [0..<nat (mc_k s)] = Inr (map (\<lambda>_. (?reward [], 1)) [0..<nat (mc_k s)])"
      using True by (intro emap_all_Inr) simp
    show ?thesis unfolding v e using True k
      by (simp add: arm_value_def make_arm_def arm_requests_def raise_if_def comp_def sum_list_triv)
  next
    case False
    let ?rs = "arm_requests s c prefix off"
    have len: "length ?rs = nat (mc_k s)" using False by (simp add: arm_requests_def Let_def)
    obtain xs where xs: "emap (lookup_continuation outputs) ?rs = Inr xs" "emap (continuation_of gen) ?rs = Inr xs"
      using emap_lookup [of ?rs "continuation_of gen" outputs] l by blast
    have lx: "length xs = nat (mc_k s)" using emap_Inr_length [OF xs(2)] len by simp
    have "emap ?sample [0..<nat (mc_k s)] =
        emap (\<lambda>j. ebind (continuation_of gen (?rs ! j)) (\<lambda>ids. Inr (?reward ids, if ids = [] then 1 else 0))) [0..<nat (mc_k s)]"
      using False by (intro emap_cong_set) (simp add: continuation_of_arm)
    also have "\<dots> = emap (\<lambda>r. ebind (continuation_of gen r) (\<lambda>ids. Inr (?reward ids, if ids = [] then 1 else 0)))
        (map ((!) ?rs) [0..<nat (mc_k s)])"
      by (simp add: emap_map)
    also have "map ((!) ?rs) [0..<nat (mc_k s)] = ?rs" using map_nth [of ?rs] len by simp
    also have "emap (\<lambda>r. ebind (continuation_of gen r) (\<lambda>ids. Inr (?reward ids, if ids = [] then 1 else 0))) ?rs =
        Inr (map (\<lambda>ids. (?reward ids, if ids = [] then 1 else 0)) xs)" by (rule emap_then_Inr [OF xs(2)])
    finally have e: "emap ?sample [0..<nat (mc_k s)] = Inr (map (\<lambda>ids. (?reward ids, if ids = [] then 1 else 0)) xs)" .
    have ne: "xs \<noteq> []" "?rs \<noteq> []" using lx len k by auto
    show ?thesis unfolding v e using xs(1) ne k
      by (simp add: arm_value_def make_arm_def raise_if_def comp_def sum_list_indicator)
  qed
qed

section \<open>Cases\<close>

text \<open>Checkpoint work after the Teacher phase, and the online value of a case against it.\<close>

definition planned_work :: "'r ersr_work \<Rightarrow> ersr_settings \<Rightarrow> generate \<Rightarrow> 'r ersr_work" where
  "planned_work w s answer =
     w\<lparr>wk_invalid := planned_invalid (wk_env w) s answer (wk_model w) (wk_cases w),
       wk_replacements := planned_replacements (wk_env w) s answer (wk_model w) (wk_cases w), wk_teacher_complete := True\<rparr>"

lemma planned_invalid_get:
  assumes d: "distinct (map ca_case_id (wk_cases w))" and c: "c \<in> set (wk_cases w)"
  shows "dict_get (ca_case_id c) (wk_invalid (planned_work w s answer)) =
    (if unaffordable s c then Some (result_of c (Skipped (lit ''no_teacher_budget'')))
     else if asked s c \<and> proposed (wk_env w) answer (case_request s (wk_model w) c) = []
     then Some (result_of c (Skipped (lit ''empty_teacher_replacement''))) else None)"
proof -
  have f: "planned_invalid (wk_env w) s answer (wk_model w) (wk_cases w) =
      map (\<lambda>c. (ca_case_id c, result_of c (Skipped (lit ''no_teacher_budget'')))) (filter (unaffordable s) (wk_cases w))
      @ map (\<lambda>c. (ca_case_id c, result_of c (Skipped (lit ''empty_teacher_replacement''))))
          (filter (\<lambda>c. asked s c \<and> proposed (wk_env w) answer (case_request s (wk_model w) c) = []) (wk_cases w))"
    by (simp add: planned_invalid_def skip_entry_def [abs_def] conj_commute)
  show ?thesis
    using dict_get_filter [OF d c, of "\<lambda>c. result_of c (Skipped (lit ''no_teacher_budget''))" "unaffordable s"]
      dict_get_filter [OF d c, of "\<lambda>c. result_of c (Skipped (lit ''empty_teacher_replacement''))"
        "\<lambda>c. asked s c \<and> proposed (wk_env w) answer (case_request s (wk_model w) c) = []"]
    by (simp add: planned_work_def f dict_get_def map_of_append map_add_def)
qed

lemma planned_replacement_get:
  assumes d: "distinct (map ca_case_id (wk_cases w))" and c: "c \<in> set (wk_cases w)"
  shows "dict_get (ca_case_id c) (wk_replacements (planned_work w s answer)) =
    (let r = proposed (wk_env w) answer (case_request s (wk_model w) c) in
     if asked s c \<and> r \<noteq> [] then Some r else None)"
  using dict_get_filter [OF d c, of "\<lambda>c. proposed (wk_env w) answer (case_request s (wk_model w) c)"
        "\<lambda>c. asked s c \<and> proposed (wk_env w) answer (case_request s (wk_model w) c) \<noteq> []"]
  by (simp add: planned_work_def planned_replacements_def conj_commute Let_def)

text \<open>What the online evaluation does with the case's action.\<close>

lemma action_prefix_planned:
  assumes d: "distinct (map ca_case_id (wk_cases w))" and c: "c \<in> set (wk_cases w)"
    and p: "asked s c \<Longrightarrow> ebind (continuation_of answer (case_request s (wk_model w) c)) (first_replacement_step_ids (wk_env w)) =
      Inr (proposed (wk_env w) answer (case_request s (wk_model w) c))"
  shows "ERSR.action_prefix (wk_env w) c s (Some answer) = Inr (
    case case_prefix (planned_work w s answer) c of
      None \<Rightarrow> Inl (if unaffordable s c then lit ''no_teacher_budget'' else lit ''empty_teacher_replacement'')
    | Some prefix \<Rightarrow> Inr (prefix, if ca_action_type c = Teacher_Replace
        then Some (length (the (dict_get (ca_case_id c) (wk_replacements (planned_work w s answer))))) else None))"
proof (cases "ca_action_type c")
  case Student_Action
  then show ?thesis
    using planned_invalid_get [OF d c, of s answer]
    by (simp add: ERSR.action_prefix_def case_prefix_def unaffordable_def asked_def)
next
  case Teacher_Replace
  show ?thesis
  proof (cases "asked s c")
    case False
    then have "unaffordable s c" "teacher_budget s c \<le> 0" using Teacher_Replace by (auto simp: unaffordable_def asked_def)
    then show ?thesis using planned_invalid_get [OF d c, of s answer] Teacher_Replace
      by (simp add: ERSR.action_prefix_def case_prefix_def teacher_budget_def prior_ids_def Let_def)
  next
    case True
    define r where "r = proposed (wk_env w) answer (case_request s (wk_model w) c)"
    have b: "\<not> teacher_budget s c \<le> 0" "\<not> unaffordable s c" using True by (auto simp: asked_def unaffordable_def)
    have "ERSR.action_prefix (wk_env w) c s (Some answer) =
        Inr (if r = [] then Inl (lit ''empty_teacher_replacement'') else Inr (prior_ids c @ r, Some (length r)))"
      using Teacher_Replace b p [OF True]
      by (auto simp: ERSR.action_prefix_def continuation_of_teacher teacher_budget_def prior_ids_def Let_def ebind_Inr r_def)
    then show ?thesis
      using planned_invalid_get [OF d c, of s answer] planned_replacement_get [OF d c, of s answer] Teacher_Replace True b
      by (simp add: case_prefix_def prior_ids_def r_def [symmetric] Let_def)
  qed
qed

lemma case_prefix_None:
  assumes "distinct (map ca_case_id (wk_cases w))" "c \<in> set (wk_cases w)"
  shows "case_prefix (planned_work w s answer) c = None \<longleftrightarrow>
    unaffordable s c \<or> asked s c \<and> proposed (wk_env w) answer (case_request s (wk_model w) c) = []"
  using planned_invalid_get [OF assms, of s answer] planned_replacement_get [OF assms, of s answer]
  by (cases "ca_action_type c") (auto simp: case_prefix_def unaffordable_def asked_def Let_def)

definition case_arms_of :: "'r ersr_work \<Rightarrow> ersr_settings \<Rightarrow> (ustr \<times> arm \<times> arm) list" where
  "case_arms_of w s = map (\<lambda>c. (ca_case_id c, make_arm s c (prior_ids c) 0, make_arm s c (the (case_prefix w c)) 1000))
     (filter (\<lambda>c. case_prefix w c \<noteq> None) (wk_cases w))"

lemma case_result_online:
  assumes d: "distinct (map ca_case_id (wk_cases w))" and c: "c \<in> set (wk_cases w)"
    and p: "asked s c \<Longrightarrow> ebind (continuation_of ta (case_request s (wk_model w) c)) (first_replacement_step_ids (wk_env w)) =
      Inr (proposed (wk_env w) ta (case_request s (wk_model w) c))"
    and span: "ca_step_token_start c < ca_step_token_end c" "ca_step_token_end c \<le> length (ca_response_ids c)"
    and k: "0 < mc_k s"
    and l: "\<And>prefix r. case_prefix (planned_work w s ta) c = Some prefix \<Longrightarrow> r \<in> set (case_reqs s c prefix) \<Longrightarrow>
      \<exists>ids. continuation_of sa r = Inr ids \<and> dict_get (gr_request_id r) outputs = Some ids"
  shows "\<exists>r. source_case (Some (ca_dataset c)) (wk_env w) c s sa (Some ta) = Inr r \<and>
    case_result (planned_work w s ta) s (case_arms_of (planned_work w s ta) s) outputs c =
      Inr (if case_prefix (planned_work w s ta) c = None then None else Some r) \<and>
    (case_prefix (planned_work w s ta) c = None \<longrightarrow> r = result_of c (Skipped
       (if unaffordable s c then lit ''no_teacher_budget'' else lit ''empty_teacher_replacement'')))"
proof -
  let ?w = "planned_work w s ta"
  have arms: "dict_get (ca_case_id c) (case_arms_of ?w s) =
      (if case_prefix ?w c \<noteq> None then Some (make_arm s c (prior_ids c) 0, make_arm s c (the (case_prefix ?w c)) 1000) else None)"
    using dict_get_filter [of "wk_cases ?w" c "\<lambda>c. (make_arm s c (prior_ids c) 0, make_arm s c (the (case_prefix ?w c)) 1000)"
        "\<lambda>c. case_prefix ?w c \<noteq> None"] d c
    by (simp add: case_arms_of_def planned_work_def)
  have env: "wk_env ?w = wk_env w" by (simp add: planned_work_def)
  note action = action_prefix_planned [OF d c p]
  show ?thesis
  proof (cases "case_prefix ?w c")
    case None
    then show ?thesis using span arms action
      by (simp add: source_case_def raise_if_def case_result_def Let_def)
  next
    case (Some prefix)
    have b: "\<And>r. r \<in> set (arm_requests s c (prior_ids c) 0) \<Longrightarrow>
          \<exists>ids. continuation_of sa r = Inr ids \<and> dict_get (gr_request_id r) outputs = Some ids"
      "\<And>r. r \<in> set (arm_requests s c prefix 1000) \<Longrightarrow>
          \<exists>ids. continuation_of sa r = Inr ids \<and> dict_get (gr_request_id r) outputs = Some ids"
      using l [OF Some] by (auto simp: case_reqs_def)
    obtain bv bk where bv: "arm_value (wk_env w) s c outputs (make_arm s c (prior_ids c) 0) = Inr (bv, bk)"
      "source_value (Some (ca_dataset c)) (wk_env w) c (prior_ids c) s 0 sa = Inr (bv, bk)"
      using arm_value_estimate [of s c "prior_ids c" 0 sa outputs "wk_env w", OF k b(1)] by auto
    obtain av ak where av: "arm_value (wk_env w) s c outputs (make_arm s c prefix 1000) = Inr (av, ak)"
      "source_value (Some (ca_dataset c)) (wk_env w) c prefix s 1000 sa = Inr (av, ak)"
      using arm_value_estimate [of s c prefix 1000 sa outputs "wk_env w", OF k b(2)] by auto
    have "dict_get (ca_case_id c) (wk_replacements ?w) \<noteq> None" if "ca_action_type c = Teacher_Replace"
      using Some that by (auto simp: case_prefix_def split: if_splits option.splits)
    then show ?thesis using span arms action Some bv av
      by (auto simp: source_case_def raise_if_def case_result_def env split: option.split)
  qed
qed

lemma map_filter_if: "List.map_filter id (map (\<lambda>x. if P x then None else Some (f x)) xs) = map f (filter (\<lambda>x. \<not> P x) xs)"
  by (induction xs) auto

lemma mset_filters:
  assumes "\<And>x. x \<in> set xs \<Longrightarrow> P x \<longleftrightarrow> Q x \<or> R x" "\<And>x. Q x \<Longrightarrow> \<not> R x"
  shows "mset (map f (filter Q xs)) + mset (map f (filter R xs)) + mset (map f (filter (\<lambda>x. \<not> P x) xs)) = mset (map f xs)"
  using assms by (induction xs) auto

text \<open>What the Student phase of planned work relies on; the seeds of the cases lie 10000 apart.\<close>

definition spaced_seeds :: "selected_case list \<Rightarrow> bool" where
  "spaced_seeds cs \<longleftrightarrow> distinct (map ca_seed cs) \<and> (\<forall>c \<in> set cs. \<forall>d \<in> set cs. 10000 dvd ca_seed c - ca_seed d)"

definition phase_ready :: "offline_config \<Rightarrow> ersr_settings \<Rightarrow> 'r ersr_work \<Rightarrow> generate \<Rightarrow> bool" where
  "phase_ready config s w ta \<longleftrightarrow>
     (\<exists>ersr. oc_ersr config = Some ersr \<and> ep_settings ersr = s) \<and> distinct (map ca_case_id (wk_cases w)) \<and>
     spaced_seeds (wk_cases w) \<and> 0 < mc_k s \<and> mc_k s \<le> 9000 \<and>
     (\<forall>c \<in> set (wk_cases w).
        (asked s c \<longrightarrow> ebind (continuation_of ta (case_request s (wk_model w) c)) (first_replacement_step_ids (wk_env w)) =
           Inr (proposed (wk_env w) ta (case_request s (wk_model w) c))) \<and>
        ca_step_token_start c < ca_step_token_end c \<and> ca_step_token_end c \<le> length (ca_response_ids c))"

lemma seed_of_case:
  assumes "spaced_seeds cs" "c \<in> set cs" "d \<in> set cs" "ca_seed c + x = ca_seed d + y" "0 \<le> x" "x < 10000" "0 \<le> y" "y < 10000"
  shows "c = d"
proof -
  have "10000 dvd ca_seed c - ca_seed d" using assms(1-3) unfolding spaced_seeds_def by blast
  then obtain k where k: "ca_seed c - ca_seed d = 10000 * k" by (rule dvdE)
  have "k = 0" using k assms(4-8) by linarith
  then have "ca_seed c = ca_seed d" using k by simp
  then show ?thesis using assms(1-3) by (auto simp: spaced_seeds_def distinct_map inj_on_def)
qed

lemma arm_requests_facts:
  assumes "r \<in> set (arm_requests s c prefix off)"
  shows "\<exists>j < nat (mc_k s). gr_seed r = ca_seed c + off + int j \<and> r = arm_requests s c prefix off ! j"
    and "gr_max_tokens r = max_response_tokens s - int (length prefix)"
    and "request_params r = ersr_params s (gr_max_tokens r) (gr_seed r)"
proof -
  have rest: "\<not> max_response_tokens s - int (length prefix) \<le> 0" using assms by (auto simp: arm_requests_def Let_def split: if_splits)
  then have len: "length (arm_requests s c prefix off) = nat (mc_k s)" by (simp add: arm_requests_def Let_def)
  obtain j where j: "j < nat (mc_k s)" "r = arm_requests s c prefix off ! j" using assms len by (auto simp: in_set_conv_nth)
  have r: "gr_seed r = ca_seed c + off + int j \<and> gr_max_tokens r = max_response_tokens s - int (length prefix) \<and>
      request_params r = ersr_params s (gr_max_tokens r) (gr_seed r)"
    unfolding j(2) using rest j(1) by (simp add: arm_requests_def Let_def request_params_def ersr_params_def)
  show "\<exists>j < nat (mc_k s). gr_seed r = ca_seed c + off + int j \<and> r = arm_requests s c prefix off ! j"
    using j r by blast
  show "gr_max_tokens r = max_response_tokens s - int (length prefix)"
    "request_params r = ersr_params s (gr_max_tokens r) (gr_seed r)" using r by simp_all
qed

lemma case_reqs_facts:
  assumes "r \<in> set (case_reqs s c prefix)"
  obtains off j where "j < nat (mc_k s)" "gr_seed r = ca_seed c + off + int j" "0 \<le> off" "off \<le> 1000"
    "off = 0 \<and> r = arm_requests s c (prior_ids c) 0 ! j \<and> gr_max_tokens r = max_response_tokens s - int (length (prior_ids c)) \<or>
       off = 1000 \<and> r = arm_requests s c prefix 1000 ! j \<and> gr_max_tokens r = max_response_tokens s - int (length prefix)"
proof -
  from assms consider "r \<in> set (arm_requests s c (prior_ids c) 0)" | "r \<in> set (arm_requests s c prefix 1000)"
    by (auto simp: case_reqs_def)
  then show thesis
  proof cases
    case 1
    with arm_requests_facts(1) [OF 1] arm_requests_facts(2) [OF 1] show thesis using that [of _ 0] by auto
  next
    case 2
    with arm_requests_facts(1) [OF 2] arm_requests_facts(2) [OF 2] show thesis using that [of _ 1000] by auto
  qed
qed

lemma case_reqs_params: "r \<in> set (case_reqs s c prefix) \<Longrightarrow> request_params r = ersr_params s (gr_max_tokens r) (gr_seed r)"
  by (auto simp: case_reqs_def dest: arm_requests_facts(3))

lemma case_reqs_keys:
  assumes "spaced_seeds cs" "mc_k s \<le> 9000" "\<And>c. c \<in> set cs \<Longrightarrow> length (prior_ids c) < length (prefix c)"
  shows "inj_on call_key (set (concat (map (\<lambda>c. case_reqs s c (prefix c)) cs)))"
proof (rule inj_onI)
  fix r q
  assume "r \<in> set (concat (map (\<lambda>c. case_reqs s c (prefix c)) cs))" "q \<in> set (concat (map (\<lambda>c. case_reqs s c (prefix c)) cs))"
    and key: "call_key r = call_key q"
  then obtain c d where c: "c \<in> set cs" "r \<in> set (case_reqs s c (prefix c))" and d: "d \<in> set cs" "q \<in> set (case_reqs s d (prefix d))"
    by auto
  obtain off j where r: "j < nat (mc_k s)" "gr_seed r = ca_seed c + off + int j" "0 \<le> off" "off \<le> 1000"
    "off = 0 \<and> r = arm_requests s c (prior_ids c) 0 ! j \<and> gr_max_tokens r = max_response_tokens s - int (length (prior_ids c)) \<or>
       off = 1000 \<and> r = arm_requests s c (prefix c) 1000 ! j \<and> gr_max_tokens r = max_response_tokens s - int (length (prefix c))"
    by (rule case_reqs_facts [OF c(2)])
  obtain off' k where q: "k < nat (mc_k s)" "gr_seed q = ca_seed d + off' + int k" "0 \<le> off'" "off' \<le> 1000"
    "off' = 0 \<and> q = arm_requests s d (prior_ids d) 0 ! k \<and> gr_max_tokens q = max_response_tokens s - int (length (prior_ids d)) \<or>
       off' = 1000 \<and> q = arm_requests s d (prefix d) 1000 ! k \<and> gr_max_tokens q = max_response_tokens s - int (length (prefix d))"
    by (rule case_reqs_facts [OF d(2)])
  have "c = d"
    by (rule seed_of_case [OF assms(1) c(1) d(1), of "off + int j" "off' + int k"])
      (use key r(1-4) q(1-4) assms(2) in \<open>auto simp: call_key_def\<close>)
  have "gr_max_tokens r = gr_max_tokens q" using key by (simp add: call_key_def)
  then have "off = off'" using r(5) q(5) assms(3) [OF c(1)] \<open>c = d\<close> by auto
  moreover have "j = k" using key r(2) q(2) \<open>c = d\<close> \<open>off = off'\<close> by (simp add: call_key_def)
  ultimately show "r = q" using r(5) q(5) \<open>c = d\<close> by auto
qed

lemma case_prefix_longer:
  assumes "distinct (map ca_case_id (wk_cases w))" "c \<in> set (wk_cases w)"
    and "ca_step_token_start c < ca_step_token_end c" "ca_step_token_end c \<le> length (ca_response_ids c)"
    and "case_prefix (planned_work w s ta) c = Some prefix"
  shows "length (prior_ids c) < length prefix"
  using assms(3-5) planned_replacement_get [OF assms(1,2), of s ta]
  by (auto simp: case_prefix_def prior_ids_def Let_def split: if_splits option.splits)

definition student_requests_of :: "ersr_settings \<Rightarrow> 'r ersr_work \<Rightarrow> generation_request list" where
  "student_requests_of s w = snd (fold (plan_arms s w) (wk_cases w) ([], []))"

lemma planned_arms:
  assumes "distinct (map ca_case_id (wk_cases w))"
  shows "fold (plan_arms s w) (wk_cases w) ([], []) = (case_arms_of w s, student_requests_of s w)"
    and "student_requests_of s w =
      concat (map (\<lambda>c. case_reqs s c (the (case_prefix w c))) (filter (\<lambda>c. case_prefix w c \<noteq> None) (wk_cases w)))"
  using plan_arms_fold [OF assms, of "([], [])" s w] by (simp_all add: case_arms_of_def student_requests_of_def)

text \<open>The Student phase of planned work gives the online results, in another order.\<close>

lemma student_values:
  assumes ready: "phase_ready config s w ta"
    and g: "run_generation_phase we (oc_eval config) (student_requests_of s (planned_work w s ta)) schedule = Some (Inr outputs)"
  obtains f sa where "serves we (engine_of (oc_eval config)) s sa"
    "\<And>c. c \<in> set (wk_cases w) \<Longrightarrow> source_case (Some (ca_dataset c)) (wk_env w) c s sa (Some ta) = Inr (f c)"
    "emap (case_result (planned_work w s ta) s (case_arms_of (planned_work w s ta) s) outputs) (wk_cases w) =
      Inr (map (\<lambda>c. if case_prefix (planned_work w s ta) c = None then None else Some (f c)) (wk_cases w))"
    "mset (map snd (wk_invalid (planned_work w s ta)))
      + mset (map f (filter (\<lambda>c. case_prefix (planned_work w s ta) c \<noteq> None) (wk_cases w))) = mset (map f (wk_cases w))"
proof -
  let ?w = "planned_work w s ta" and ?cs = "wk_cases w"
  let ?none = "\<lambda>c. case_prefix ?w c = None" and ?prefix = "\<lambda>c. the (case_prefix (planned_work w s ta) c)"
  let ?fs = "filter (\<lambda>c. case_prefix ?w c \<noteq> None) ?cs" and ?reqs = "student_requests_of s (planned_work w s ta)"
  define sa where "sa = replay ?reqs outputs"
  let ?eval = "\<lambda>c. source_case (Some (ca_dataset c)) (wk_env w) c s sa (Some ta)"
  have d: "distinct (map ca_case_id ?cs)" using ready by (simp add: phase_ready_def)
  have reqs: "?reqs = concat (map (\<lambda>c. case_reqs s c (?prefix c)) ?fs)"
    using planned_arms(2) [of ?w s] d by (simp add: planned_work_def)
  have dr: "distinct (map gr_request_id ?reqs)"
    unfolding reqs by (rule distinct_case_reqs) (use d in \<open>simp add: distinct_map_filter\<close>)
  have keys: "inj_on call_key (set ?reqs)" unfolding reqs
  proof (rule case_reqs_keys)
    show "spaced_seeds ?fs" using ready by (simp add: phase_ready_def spaced_seeds_def distinct_map_filter)
    show "mc_k s \<le> 9000" using ready by (simp add: phase_ready_def)
    show "length (prior_ids c) < length (?prefix c)" if "c \<in> set ?fs" for c
      using that ready case_prefix_longer [OF d, of c s ta "?prefix c"] by (auto simp: phase_ready_def)
  qed
  note out = generation_phase_outputs [OF dr g]
  have sv: "serves we (engine_of (oc_eval config)) s sa" unfolding sa_def
  proof (rule replay_serves [OF out])
    show "request_params r = ersr_params s (gr_max_tokens r) (gr_seed r)" if "r \<in> set ?reqs" for r
      using that case_reqs_params unfolding reqs by auto
  qed
  have l: "\<exists>ids. continuation_of sa r = Inr ids \<and> dict_get (gr_request_id r) outputs = Some ids"
    if "c \<in> set ?cs" "case_prefix ?w c = Some prefix" "r \<in> set (case_reqs s c prefix)" for c prefix r
  proof -
    have "r \<in> set ?reqs" unfolding reqs using that by (auto intro!: bexI [of _ c])
    then show ?thesis using replay_request [OF keys] out by (fastforce simp: sa_def lookup_continuation_def)
  qed
  define f where "f c = projr (?eval c)" for c
  have step: "?eval c = Inr (f c) \<and> case_result ?w s (case_arms_of ?w s) outputs c = Inr (if ?none c then None else Some (f c)) \<and>
      (?none c \<longrightarrow> f c = result_of c (Skipped (if unaffordable s c then lit ''no_teacher_budget'' else lit ''empty_teacher_replacement'')))"
    if "c \<in> set ?cs" for c
    using case_result_online [OF d that, of s ta sa outputs] ready l [OF that] that by (auto simp: f_def phase_ready_def)
  let ?R = "\<lambda>c. asked s c \<and> proposed (wk_env w) ta (case_request s (wk_model w) c) = []"
  have "map snd (wk_invalid ?w) = map f (filter (unaffordable s) ?cs) @ map f (filter ?R ?cs)"
    using step case_prefix_None [OF d, of _ s ta]
    by (auto simp: planned_work_def planned_invalid_def skip_entry_def comp_def asked_def unaffordable_def intro!: map_cong filter_cong)
  moreover have "mset (map f (filter (unaffordable s) ?cs)) + mset (map f (filter ?R ?cs))
      + mset (map f (filter (\<lambda>c. \<not> ?none c) ?cs)) = mset (map f ?cs)"
    by (rule mset_filters) (use case_prefix_None [OF d, of _ s ta] in \<open>auto simp: asked_def unaffordable_def\<close>)
  moreover have "emap (case_result ?w s (case_arms_of ?w s) outputs) ?cs = Inr (map (\<lambda>c. if ?none c then None else Some (f c)) ?cs)"
    using step by (intro emap_all_Inr) blast
  ultimately show thesis using that [of sa f] sv step by simp
qed

definition student_document :: "ersr_settings \<Rightarrow> ersr_action list \<Rightarrow> 'r ersr_work \<Rightarrow> ersr_result option list \<Rightarrow> ersr_document" where
  "student_document s actions w valued =
     (let results = map snd (wk_invalid w) @ List.map_filter id valued;
          (means, skipped) = aggregate_ersr_advantages results (ERSR.datasets s) actions in
      \<lparr>ed_results = results, ed_means = means, ed_skipped = skipped, ed_replacements = wk_replacements w\<rparr>)"

lemma student_document_results:
  "ed_results (student_document s actions w valued) = map snd (wk_invalid w) @ List.map_filter id valued"
  by (simp add: student_document_def Let_def split_beta)

lemma evaluate_student_planned:
  assumes "phase_ready config s w ta"
  shows "evaluate_ersr_student we schedule config (planned_work w s ta) =
    obind (run_generation_phase we (oc_eval config) (student_requests_of s (planned_work w s ta)) schedule) (\<lambda>outputs.
      Some (ebind (emap (case_result (planned_work w s ta) s (case_arms_of (planned_work w s ta) s) outputs) (wk_cases w)) (\<lambda>valued.
        Inr (student_document s (ep_actions (the (oc_ersr config))) (planned_work w s ta) valued))))"
proof -
  have "wk_cases (planned_work w s ta) = wk_cases w" "wk_teacher_complete (planned_work w s ta)" by (simp_all add: planned_work_def)
  then show ?thesis using assms planned_arms(1) [of "planned_work w s ta" s]
    by (auto simp: evaluate_ersr_student_def phase_ready_def student_document_def Let_def split_beta)
qed

lemma student_phase:
  assumes ready: "phase_ready config s w ta"
    and run: "evaluate_ersr_student we schedule config (planned_work w s ta) = Some (Inr doc)"
  shows "\<exists>sa results. serves we (engine_of (oc_eval config)) s sa \<and>
      emap (\<lambda>c. source_case (Some (ca_dataset c)) (wk_env w) c s sa (Some ta)) (wk_cases w) = Inr results \<and>
      mset (ed_results doc) = mset results"
proof -
  obtain outputs where g: "run_generation_phase we (oc_eval config) (student_requests_of s (planned_work w s ta)) schedule = Some (Inr outputs)"
    using run unfolding evaluate_student_planned [OF ready] obind_Some_Inr by blast
  obtain f sa where f: "serves we (engine_of (oc_eval config)) s sa"
    "\<And>c. c \<in> set (wk_cases w) \<Longrightarrow> source_case (Some (ca_dataset c)) (wk_env w) c s sa (Some ta) = Inr (f c)"
    "emap (case_result (planned_work w s ta) s (case_arms_of (planned_work w s ta) s) outputs) (wk_cases w) =
      Inr (map (\<lambda>c. if case_prefix (planned_work w s ta) c = None then None else Some (f c)) (wk_cases w))"
    "mset (map snd (wk_invalid (planned_work w s ta)))
      + mset (map f (filter (\<lambda>c. case_prefix (planned_work w s ta) c \<noteq> None) (wk_cases w))) = mset (map f (wk_cases w))"
    using student_values [OF ready g] by blast
  have e: "evaluate_ersr_student we schedule config (planned_work w s ta) =
      Some (Inr (student_document s (ep_actions (the (oc_ersr config))) (planned_work w s ta)
        (map (\<lambda>c. if case_prefix (planned_work w s ta) c = None then None else Some (f c)) (wk_cases w))))"
    unfolding evaluate_student_planned [OF ready] g obind.simps f(3) ebind.simps by (rule refl)
  have "doc = student_document s (ep_actions (the (oc_ersr config))) (planned_work w s ta)
      (map (\<lambda>c. if case_prefix (planned_work w s ta) c = None then None else Some (f c)) (wk_cases w))"
    using trans [OF run [symmetric] e] unfolding option.inject sum.inject .
  then have "ed_results doc = map snd (wk_invalid (planned_work w s ta)) @
      map f (filter (\<lambda>c. case_prefix (planned_work w s ta) c \<noteq> None) (wk_cases w))"
    by (simp only: student_document_results map_filter_if)
  then have "mset (ed_results doc) = mset (map f (wk_cases w))" using f(4) by simp
  moreover have "emap (\<lambda>c. source_case (Some (ca_dataset c)) (wk_env w) c s sa (Some ta)) (wk_cases w) = Inr (map f (wk_cases w))"
    using f(2) by (intro emap_all_Inr)
  ultimately show ?thesis using f(1) by blast
qed

lemma student_phase_returns:
  assumes ready: "phase_ready config s w ta"
    and g: "run_generation_phase we (oc_eval config) (student_requests_of s (planned_work w s ta)) schedule = Some (Inr outputs)"
  shows "\<exists>doc. evaluate_ersr_student we schedule config (planned_work w s ta) = Some (Inr doc)"
proof -
  obtain f where f: "emap (case_result (planned_work w s ta) s (case_arms_of (planned_work w s ta) s) outputs) (wk_cases w) =
      Inr (map (\<lambda>c. if case_prefix (planned_work w s ta) c = None then None else Some (f c)) (wk_cases w))"
    by (rule student_values [OF ready g])
  show ?thesis unfolding evaluate_student_planned [OF ready] g obind.simps f ebind.simps by (intro exI) (rule refl)
qed

section \<open>The whole offline evaluation\<close>

text \<open>What the selection gives the phases.\<close>

lemma selected_action:
  assumes build: "build_ersr_step_cases env records s a b = Inr (cases, sm)"
    and shuffle: "\<And>g xs. mset (ee_shuffle env g xs) = mset xs" and tok: "\<And>skip. tok_decode (ee_tokenizer env) skip [] = []"
    and c: "c \<in> set cases"
  shows "(ca_dataset c, ca_action_type c) \<in> set (ersr_series s a b)"
proof -
  let ?z = "fold (consider_record env s a b) (py_enumerate records) start_state"
  let ?cands = "\<lambda>key. dict_get_or [] key (es_candidates ?z)"
  from build obtain sm0 where f: "fold (select_series env s ?z) (ersr_series s a b) ([], sm0) = (cases, sm)"
    by (auto simp: build_ersr_step_cases_def raise_if_Inr Let_def)
  from select_series_rows [OF shuffle f]
  have "mset (map ersr_case.truncate cases) = mset (concat (map ?cands (ersr_series s a b)))" by simp
  then have "ersr_case.truncate c \<in> set (concat (map ?cands (ersr_series s a b)))"
    using c by (metis image_eqI list.set_map mset_eq_setD)
  then obtain key where key: "key \<in> set (ersr_series s a b)" "ersr_case.truncate c \<in> set (?cands key)" by auto
  have "(ca_dataset (ersr_case.truncate c), ca_action_type (ersr_case.truncate c)) = key"
    using consider_records_placed [OF tok, of records s a b] key(2) unfolding placed_state_def Let_def by blast
  then show ?thesis using key(1) by (simp add: ersr_case.truncate_def)
qed

lemma selected_facts:
  assumes build: "build_ersr_step_cases env records s a b = Inr (cases, sm)" and parsed: "parse_ersr_settings ec n = Inr s"
    and shuffle: "\<And>g xs. mset (ee_shuffle env g xs) = mset xs" and tok: "\<And>skip. tok_decode (ee_tokenizer env) skip [] = []"
  shows "spaced_seeds cases"
    and "c \<in> set cases \<Longrightarrow> ca_step_token_start c < ca_step_token_end c \<and> ca_step_token_end c \<le> length (ca_response_ids c)"
proof -
  note sound = selection_sound [OF build parsed shuffle, THEN conjunct1]
  have seeds: "map ca_seed cases = map (\<lambda>i. seed s + int i * 10000) [0..<length cases]"
    using sound by (intro nth_equalityI) simp_all
  have "distinct (map ca_seed cases)" unfolding seeds by (simp add: distinct_map inj_on_def)
  moreover have "10000 dvd ca_seed c - ca_seed d" if c: "c \<in> set cases" and d: "d \<in> set cases" for c d
  proof -
    obtain i j where "i < length cases" "c = cases ! i" "j < length cases" "d = cases ! j"
      using c d by (auto simp: in_set_conv_nth)
    then have "ca_seed c = seed s + int i * 10000" "ca_seed d = seed s + int j * 10000" using sound by simp_all
    then have "ca_seed c - ca_seed d = 10000 * (int i - int j)" by simp
    then show ?thesis by simp
  qed
  ultimately show "spaced_seeds cases" by (simp add: spaced_seeds_def)
  assume "c \<in> set cases"
  then have "sound_case env s records c" using sound by (auto simp: in_set_conv_nth)
  then obtain resp steps where st:
    "split_rollout_steps (ee_unicode env) (ee_tokenizer env) True (ca_response_ids c) = Inr (resp, steps)"
    "(ca_step_token_start c, ca_step_token_end c) \<in> set (map (\<lambda>st. (token_start st, token_end st)) (butlast steps))"
    "ca_step_token_start c < ca_step_token_end c"
    by (auto simp: sound_case_def Let_def)
  from st(2) obtain u where "u \<in> set steps" "ca_step_token_end c = token_end u" by (auto dest: in_set_butlastD)
  then show "ca_step_token_start c < ca_step_token_end c \<and> ca_step_token_end c \<le> length (ca_response_ids c)"
    using steps_within [of "ee_tokenizer env", OF tok st(1)] st(3) by auto
qed

lemma prepared_work_ready:
  assumes ersr: "oc_ersr config = Some ersr" and parsed: "parse_ersr_settings ec n = Inr (ep_settings ersr)"
    and k: "mc_k (ep_settings ersr) \<le> 9000"
    and shuffle: "\<And>g xs. mset (ee_shuffle env g xs) = mset xs" and tok: "\<And>skip. tok_decode (ee_tokenizer env) skip [] = []"
    and prep: "prepare_ersr config model records env = Inr w"
    and gen: "generate_ersr_replacements we_of schedules config [w] = Some (Inr works)"
  obtains ta sm where
    "\<forall>t. ersr_teacher_for_model config model = Inr (Some t) \<longrightarrow>
      serves (we_of t) (engine_of (teacher_config (oc_eval config) ersr)) (ep_settings ersr) ta"
    "works = [planned_work w (ep_settings ersr) ta]" "phase_ready config (ep_settings ersr) w ta" "wk_env w = env"
    "build_ersr_step_cases env (map validation_record.truncate records) (ep_settings ersr)
       (Student_Action \<in> set (ep_actions ersr)) (Teacher_Replace \<in> set (ep_actions ersr)) = Inr (wk_cases w, sm)"
proof -
  let ?s = "ep_settings ersr"
  obtain sm teacher where b: "build_ersr_step_cases env (map validation_record.truncate records) ?s
        (Student_Action \<in> set (ep_actions ersr)) (Teacher_Replace \<in> set (ep_actions ersr)) = Inr (wk_cases w, sm)"
    and t: "ersr_teacher_for_model config model = Inr teacher"
    and w: "wk_env w = env" "wk_model w = model" "wk_invalid w = []" "wk_replacements w = []"
    using prep by (auto simp: prepare_ersr_def ersr ebind_Inr)
  have d: "distinct (map ca_case_id (wk_cases w))" by (rule selection_ids_distinct [OF b parsed shuffle tok])
  note facts = selected_facts [OF b parsed shuffle tok]
  have ds: "distinct (map ca_seed (wk_cases w))" using facts(1) by (simp add: spaced_seeds_def)
  have none: "\<forall>c \<in> set (wk_cases w). ca_action_type c = Student_Action" if "teacher = None"
  proof
    fix c assume "c \<in> set (wk_cases w)"
    have "Teacher_Replace \<notin> set (ep_actions ersr)"
      using t that by (auto simp: ersr_teacher_for_model_def ersr Let_def raise_if_def split: if_splits option.splits)
    then show "ca_action_type c = Student_Action"
      using selected_action [OF b shuffle tok \<open>c \<in> set (wk_cases w)\<close>] by (auto simp: ersr_series_def split: if_splits)
  qed
  obtain ta where ta: "\<forall>t. teacher = Some t \<longrightarrow> serves (we_of t) (engine_of (teacher_config (oc_eval config) ersr)) ?s ta"
    "works = [w\<lparr>wk_invalid := planned_invalid (wk_env w) ?s ta (wk_model w) (wk_cases w),
      wk_replacements := planned_replacements (wk_env w) ?s ta (wk_model w) (wk_cases w), wk_teacher_complete := True\<rparr>]"
    "\<forall>c \<in> set (wk_cases w). asked ?s c \<longrightarrow>
      ebind (continuation_of ta (case_request ?s (wk_model w) c)) (first_replacement_step_ids (wk_env w)) =
      Inr (proposed (wk_env w) ta (case_request ?s (wk_model w) c))"
    by (rule teacher_phase [OF ersr refl, of w teacher we_of schedules works]) (use t none d ds w gen in simp_all)
  have "0 < mc_k ?s" using parse_ersr_settings_Inr [OF parsed] by simp
  then have "phase_ready config ?s w ta" using ta(3) ersr d facts k by (simp add: phase_ready_def)
  then show thesis using that [of ta sm] ta(1,2) t w(1) b by (simp add: planned_work_def)
qed

text \<open>
  C11: The offline ERSR evaluation is a refinement of the online one. When it returns a document,
  there are a Student and a Teacher generator, which return only answers the engines give to exactly
  the prompt, budget and seed they are asked for, such that evaluating every selected case online (baseline, Teacher proposal and action
  in turn, with the same prompts, budgets, sampling parameters and seeds) succeeds, and the document
  holds exactly these results, whatever the GPU schedules were. The language models are arbitrary;
  an answer may depend on the batch it was computed in. The rewards are graded by data set
  (\<open>source_case\<close>): outside SciBench the results are those of \<open>evaluate_ersr_case\<close>,
  while SciBench answers get the relative tolerance that the online evaluation does not apply.
  Assumed are parsed settings, at most 9000 samples per arm (so that the seeds of two cases never
  meet), a shuffle that permutes and a tokenizer that decodes nothing to the empty text.
\<close>

theorem offline_ersr_is_online_ersr:
  assumes "oc_ersr config = Some ersr" "parse_ersr_settings ec n = Inr (ep_settings ersr)" "mc_k (ep_settings ersr) \<le> 9000"
    and "\<And>g xs. mset (ee_shuffle env g xs) = mset xs" "\<And>skip. tok_decode (ee_tokenizer env) skip [] = []"
    and "evaluate_ersr we_of schedules schedule config model records env = Some (Inr doc)"
  shows "\<exists>cases sm sg tg results.
    build_ersr_step_cases env (map validation_record.truncate records) (ep_settings ersr)
      (Student_Action \<in> set (ep_actions ersr)) (Teacher_Replace \<in> set (ep_actions ersr)) = Inr (cases, sm) \<and>
    serves (we_of model) (engine_of (oc_eval config)) (ep_settings ersr) sg \<and>
    (\<forall>t. ersr_teacher_for_model config model = Inr (Some t) \<longrightarrow>
       serves (we_of t) (engine_of (teacher_config (oc_eval config) ersr)) (ep_settings ersr) tg) \<and>
    emap (\<lambda>c. source_case (Some (ca_dataset c)) env c (ep_settings ersr) sg (Some tg)) cases = Inr results \<and>
    mset (ed_results doc) = mset results \<and>
    (\<forall>c. \<not> scibench_source env (ca_dataset c) \<longrightarrow>
       source_case (Some (ca_dataset c)) env c (ep_settings ersr) sg (Some tg) =
       evaluate_ersr_case env c (ep_settings ersr) sg (Some tg))"
proof -
  obtain w works where w: "prepare_ersr config model records env = Inr w"
    and gen: "generate_ersr_replacements we_of schedules config [w] = Some (Inr works)"
    and run: "evaluate_ersr_student (we_of model) schedule config (hd works) = Some (Inr doc)"
    using assms(6) by (auto simp: evaluate_ersr_def obind_Some_Inr)
  obtain tg sm where p: "\<forall>t. ersr_teacher_for_model config model = Inr (Some t) \<longrightarrow>
      serves (we_of t) (engine_of (teacher_config (oc_eval config) ersr)) (ep_settings ersr) tg"
    "works = [planned_work w (ep_settings ersr) tg]" "phase_ready config (ep_settings ersr) w tg" "wk_env w = env"
    "build_ersr_step_cases env (map validation_record.truncate records) (ep_settings ersr)
       (Student_Action \<in> set (ep_actions ersr)) (Teacher_Replace \<in> set (ep_actions ersr)) = Inr (wk_cases w, sm)"
    by (rule prepared_work_ready [OF assms(1-5) w gen])
  have "evaluate_ersr_student (we_of model) schedule config (planned_work w (ep_settings ersr) tg) = Some (Inr doc)"
    using run p(2) by simp
  from student_phase [OF p(3) this] obtain sg results where q:
    "serves (we_of model) (engine_of (oc_eval config)) (ep_settings ersr) sg"
    "emap (\<lambda>c. source_case (Some (ca_dataset c)) env c (ep_settings ersr) sg (Some tg)) (wk_cases w) = Inr results"
    "mset (ed_results doc) = mset results" unfolding p(4) by blast
  show ?thesis
    by (rule exI [of _ "wk_cases w"], rule exI [of _ sm], rule exI [of _ sg], rule exI [of _ tg], rule exI [of _ results],
        intro conjI allI impI p(5) q p(1), rule source_case_plain)
qed

definition example_teacher :: model_spec where
  "example_teacher = \<lparr>ms_name = lit ''t'', ms_path = lit ''t'', ms_family = lit ''q''\<rparr>"

definition example_checkpoint :: model_spec where
  "example_checkpoint = \<lparr>ms_name = lit ''m'', ms_path = lit ''m'', ms_family = lit ''q''\<rparr>"

definition example_part :: ersr_part where
  "example_part = \<lparr>ep_actions = [Student_Action, Teacher_Replace], ep_teacher = Some example_teacher, ep_teachers = [],
     ep_settings = example_settings, ep_gpu_memory_utilization = Fin (1 / 2)\<rparr>"

definition example_offline :: offline_config where
  "example_offline = \<lparr>oc_eval = example_eval_config [0] 4, oc_ersr = Some example_part\<rparr>"

definition example_eval_records :: "eval_record list" where
  "example_eval_records =
     [validation_record.extend example_record \<lparr>er_question_index = 0, er_record_index = 0\<rparr>,
      validation_record.extend (example_record\<lparr>vr_correct := False\<rparr>) \<lparr>er_question_index = 1, er_record_index = 0\<rparr>]"

lemma case_Inr_ex: "(case r of Inl _ \<Rightarrow> False | Inr x \<Rightarrow> P x) \<longleftrightarrow> (\<exists>x. r = Inr x \<and> P x)"
  by (cases r) auto

lemma case_Some_ex: "(case m of None \<Rightarrow> False | Some x \<Rightarrow> P x) \<longleftrightarrow> (\<exists>x. m = Some x \<and> P x)"
  by (cases m) auto

definition example_work :: "ustr \<Rightarrow> ersr_summary \<Rightarrow> unit ersr_work" where
  "example_work words sm = \<lparr>wk_model = example_checkpoint, wk_env = example_ersr_env, wk_cases = example_cases words False,
     wk_selection = sm, wk_teacher = Some example_teacher, wk_replacements = [], wk_invalid = [], wk_teacher_complete = False\<rparr>"

lemma example_phases:
  "case generate_ersr_replacements (\<lambda>_. example_worker) (\<lambda>_. [Loads 0, Receives 0, Takes 0, Finishes 0, Receives 0])
      example_offline [example_work words sm] of
     None \<Rightarrow> False | Some r \<Rightarrow> (case r of Inl _ \<Rightarrow> False | Inr works \<Rightarrow>
       (case run_generation_phase example_worker (oc_eval example_offline) (student_requests_of example_settings (hd works))
          [Loads 0, Receives 0, Takes 0, Finishes 0, Receives 0, Takes 0, Finishes 0, Receives 0] of
        None \<Rightarrow> False | Some r \<Rightarrow> (case r of Inl _ \<Rightarrow> False | Inr _ \<Rightarrow> True)))"
  by code_simp

text \<open>A concrete run with a correct and a wrong rollout: a Student action and a Teacher replacement.\<close>

theorem offline_ersr_is_online_ersr_witness:
  "\<exists>doc cases sm sg tg results.
     evaluate_ersr (\<lambda>_. example_worker) (\<lambda>_. [Loads 0, Receives 0, Takes 0, Finishes 0, Receives 0])
       [Loads 0, Receives 0, Takes 0, Finishes 0, Receives 0, Takes 0, Finishes 0, Receives 0]
       example_offline example_checkpoint example_eval_records example_ersr_env = Some (Inr doc)
   \<and> build_ersr_step_cases example_ersr_env (map validation_record.truncate example_eval_records) example_settings True True = Inr (cases, sm)
   \<and> length cases = 2
   \<and> serves example_worker (engine_of (oc_eval example_offline)) example_settings sg
   \<and> emap (\<lambda>c. source_case (Some (ca_dataset c)) example_ersr_env c example_settings sg (Some tg)) cases = Inr results
   \<and> mset (ed_results doc) = mset results"
proof -
  let ?schedule = "[Loads 0, Receives 0, Takes 0, Finishes 0, Receives 0]"
  let ?schedule' = "[Loads 0, Receives 0, Takes 0, Finishes 0, Receives 0, Takes 0, Finishes 0, Receives 0]"
  let ?run = "\<lambda>w. run_generation_phase example_worker (oc_eval example_offline) (student_requests_of example_settings w) ?schedule'"
  let ?generate = "\<lambda>w. generate_ersr_replacements (\<lambda>_. example_worker) (\<lambda>_. ?schedule) example_offline [w]"
  obtain words sm where b0: "build_ersr_step_cases example_ersr_env [example_record, example_record\<lparr>vr_correct := False\<rparr>]
    example_settings True True = Inr (example_cases words False, sm)" using example_build .
  have "map validation_record.truncate example_eval_records = [example_record, example_record\<lparr>vr_correct := False\<rparr>]"
    by (simp add: example_eval_records_def validation_record.truncate_def validation_record.extend_def)
  with b0 have b: "build_ersr_step_cases example_ersr_env (map validation_record.truncate example_eval_records) example_settings
      True True = Inr (example_cases words False, sm)" by simp
  define w where "w = example_work words sm"
  have w: "prepare_ersr example_offline example_checkpoint example_eval_records example_ersr_env = Inr w" "length (wk_cases w) = 2"
    "wk_cases w = example_cases words False"
    using b by (simp_all add: w_def example_work_def example_cases_def prepare_ersr_def example_offline_def example_part_def
        ersr_teacher_for_model_def example_teacher_def example_checkpoint_def raise_if_def)
  obtain works outputs where gen: "?generate w = Some (Inr works)" and run: "?run (hd works) = Some (Inr outputs)"
    using example_phases [of words sm] unfolding w_def case_Some_ex case_Inr_ex by blast
  have ersr: "oc_ersr example_offline = Some example_part" "ep_settings example_part = example_settings"
    "set (ep_actions example_part) = {Student_Action, Teacher_Replace}" "mc_k example_settings \<le> 9000"
    by (simp_all add: example_offline_def example_part_def example_settings_def)
  note ok = ersr(1) example_settings_parse [folded ersr(2)] ersr(4) [folded ersr(2)] permuting_example example_tokenizer_empty
  obtain ta where p: "works = [planned_work w example_settings ta]" "phase_ready example_offline example_settings w ta"
    by (rule prepared_work_ready [OF ok w(1) gen]) (simp add: ersr(2))
  obtain doc where "evaluate_ersr_student example_worker ?schedule' example_offline (planned_work w example_settings ta) = Some (Inr doc)"
    using student_phase_returns [OF p(2), of example_worker ?schedule'] run p(1) by auto
  then have doc: "evaluate_ersr (\<lambda>_. example_worker) (\<lambda>_. ?schedule) ?schedule' example_offline example_checkpoint
      example_eval_records example_ersr_env = Some (Inr doc)"
    using w(1) gen p(1) by (simp add: evaluate_ersr_def)
  from offline_ersr_is_online_ersr [OF ok doc] obtain cases sm' sg tg results where
    r: "build_ersr_step_cases example_ersr_env (map validation_record.truncate example_eval_records) example_settings
      True True = Inr (cases, sm')"
    "serves example_worker (engine_of (oc_eval example_offline)) example_settings sg"
    "emap (\<lambda>c. source_case (Some (ca_dataset c)) example_ersr_env c example_settings sg (Some tg)) cases = Inr results"
    "mset (ed_results doc) = mset results" by (auto simp: ersr(2,3))
  have "length cases = 2" using r(1) b w(2,3) by simp
  show ?thesis
    by (rule exI [of _ doc], rule exI [of _ cases], rule exI [of _ sm'], rule exI [of _ sg], rule exI [of _ tg],
        rule exI [of _ results], intro conjI doc r) fact
qed

end
