(* ===== verification/Spec2Isabelle.thy ===== *)
theory Spec2Isabelle
  imports Micro_Batches Replay_Buffer R2OPL_Probe R2OPL_V2 R2OPL_Config Distill_Outcome ERSR_Correct
    Estimators_Correct Dataset_Correct Evaluation_Correct Offline_Correct
begin

text \<open>
  Verification development of R2OPL, a reinforcement-learning and on-policy-distillation trainer.
  Paths below are relative to \<open>src/\<close>.

  The program. A rollout (prompt and response token ids) is generated by the Student. Its text is
  split into semantic reasoning steps (\<open>utils/conservative_step_splitter.py\<close>); the token ends
  of the steps and a fixed answer probe become probe metadata (\<open>utils/r2opl_probe.py\<close>,
  \<open>utils/answer_probe.py\<close>). The actor packs prompt, response and one copy of the probe per
  step boundary into one sequence with a branch-causal attention mask, reads off the probability of
  the gold answer after every step, turns the increments into per-token gates, and combines them
  with the verifier's verdicts into a token advantage and a policy-gradient loss
  (\<open>utils/r2opl.py\<close>). \<open>algorithms/\<close> holds the variants of the objective. Around
  it, the trainer's replay buffer decides which rollouts form a batch
  (\<open>verl/verl/trainer/ppo/v1/replay_buffer.py\<close>) and the sequence-length balancer how a
  batch is cut into micro-batches and partitions (\<open>verl/verl/utils/seqlen_balancing.py\<close>). In
  the worker the losses are reached through the registry and the reducer of
  \<open>verl/verl/trainer/distillation/losses.py\<close> and the loss engine of
  \<open>verl/verl/trainer/ppo/core_algos.py\<close>. The reward is the verdict of
  \<open>utils/answer_verifier.py\<close>. Validation values single reasoning steps by resampling
  (\<open>utils/ersr.py\<close>). The standalone evaluation (\<open>utils/evaluation.py\<close>) loads the
  questions and prompts (\<open>utils/custom_dataset.py\<close>, \<open>utils/prompts.py\<close>), spreads them
  over a pool of worker processes, one per GPU, scores the answers at several lengths and can run the
  step valuation in phases, Teacher first.

  The theories.
  \<^item> \<open>Prelude\<close>: Python exceptions as the sum type \<open>res\<close> with \<open>ebind\<close>,
    \<open>raise_if\<close>, \<open>emap\<close>, \<open>efold\<close>, \<open>ewrap\<close> (sequence, guard, comprehension,
    loop, try/except), slices, \<open>enumerate\<close>, insertion-ordered dictionaries. The collection
    \<open>res_simps\<close> inverts successful computations into the guards they passed.
  \<^item> \<open>Tensors\<close>: floats as finite reals or IEEE specials, vectors as lists, matrices as records;
    \<open>mat_simps\<close> collects their shape and entry facts.
  \<^item> \<open>Text\<close>: Python strings as lists of code points with \<open>strip\<close>, \<open>find\<close>,
    \<open>splitlines\<close>. \<open>Regex\<close>: a backtracking matcher with the constructs of \<open>re\<close>
    the splitter uses; a match list is ordered as the engine tries, so its head is the match.
  \<^item> \<open>Step_Data\<close>, \<open>Step_Splitter\<close>, \<open>Split_Correct\<close>: the text splitter, every
    pattern, protected range and boundary detector, and its correctness: the locale
    \<open>marker_detector\<close> states what the detectors share and is interpreted on each of them.
  \<^item> \<open>Token_Alignment\<close>: text steps to spans of original ids, with the prefix cache as explicit
    state. \<open>R2OPL_Probe\<close>: the metadata and its agreement with the layout builder.
  \<^item> \<open>Answer_Probe\<close>: template, tokenizer offsets, scored positions, scoring.
  \<^item> \<open>Probe_Layout\<close>, \<open>Layout_Correct\<close>: packed layout, its validation, attention mask and
    probabilities; \<open>layout_ok\<close> is the specification that the validator decides exactly and
    the builder establishes.
  \<^item> \<open>Modulation\<close>, \<open>Advantage\<close>: gates and multipliers, batch statistics, token
    advantage, loss. \<open>Probe_Metrics\<close>: the sufficient statistics the reducers sum.
  \<^item> \<open>Batches\<close>: the variants of \<open>algorithms/\<close> (Correct-R2OPL, R2OPL-base, the
    controller, OPDVR, GRPD, PG-OPD) and their relation to the kernel.
  \<^item> \<open>Policy_Loss\<close>, \<open>Actor_Losses\<close>: padding and un-padding, masked reductions,
    \<open>agg_loss\<close>, the clipped and REINFORCE policy losses, the value loss, the KL penalties and
    the worker's \<open>ppo_loss\<close>. \<open>Estimators\<close>, \<open>Estimators_Correct\<close>: the advantage
    estimators of the same engine, their registry and the KL controllers.
  \<^item> \<open>Distill_Base\<close>, \<open>Distill_R2OPL\<close>, \<open>Distill_Variants\<close>,
    \<open>Distill_Outcome\<close>: the distillation losses, the reducer they are called through and the
    statistics they report; the R2OPL losses are proved equal to the kernel losses.
    \<open>R2OPL_Actor\<close>, \<open>R2OPL_Config\<close>: controller fields, hyperparameters and the
    configuration checks, joined with the actor.
  \<^item> \<open>R2OPL_V2\<close>: the probe of truncated rollouts.
  \<^item> \<open>Answer_Text\<close>, \<open>Answer_Verifier\<close>, \<open>Verifier_Correct\<close>: extraction, normal
    forms, the evaluator of constant expressions, equivalence and rewards.
  \<^item> \<open>ERSR\<close>, \<open>ERSR_Correct\<close>, \<open>ERSR_Ids\<close>: settings, reservoir selection, Monte-Carlo
    values and aggregation of reasoning steps; soundness of the selection and its identifiers.
  \<^item> \<open>Dataset_Prompts\<close>, \<open>Dataset_Correct\<close>: question files, prompt templates, rendering
    under a token limit.
  \<^item> \<open>Eval_Pool\<close>, \<open>Pool_Correct\<close>: the worker pool as a state machine over events of the
    processes. A schedule is a list of events, so a statement over all schedules covers every timing;
    the locale \<open>job_pool\<close> is what its clients rely on and is interpreted on the model.
  \<^item> \<open>Evaluation\<close>, \<open>Evaluation_Correct\<close>: checked numeric settings, batches, the jobs of
    a worker, post-hoc scoring, aggregation and the two drivers over the pool.
  \<^item> \<open>ERSR_Offline\<close>, \<open>Offline_Correct\<close>: the phased step valuation, and the simulation of
    the case-by-case one by it; \<open>source_case\<close> is the latter with the grading by data set that
    the phases use, equal to it outside SciBench. The seeds of two cases lie 10000 apart, so the
    simulation bounds the samples of an arm by 9000.
  \<^item> \<open>Heapq\<close>: the binary heap of the standard library, with the locale
    \<open>priority_queue\<close> of its contract and \<open>strict_weak_order\<close> as a sublocale of it.
    \<open>Seqlen_Balancing\<close>: both partitioners over it, interpreted on the state order.
    \<open>Micro_Batches\<close>: dynamic micro-batches, the search for their number and the inverse.
  \<^item> \<open>Replay_Buffer\<close>: the buffer as a record, its synchronous and asynchronous sampling as
    steps over a sequence of polls, and \<open>polling\<close> as an inductive relation over histories.

  What the lemmas show. Every fallible operation has an inversion lemma (\<open>..._Inr\<close>) that lists
  its guards; data invariants (\<open>layout_ok\<close>, \<open>probe_wf\<close>, \<open>aligned\<close>,
  \<open>cache_ok\<close>, heap order, balance of the refill account, \<open>pool_ok\<close> of the worker
  pool, \<open>placed_state\<close> of the reservoirs) are established by the constructors
  and kept by every step; entry lemmas give each tensor result position by position. The properties
  rest on them and say what a component promises to the next one.

  Parameters. The tokenizer is any pair of functions; a theorem that needs more says so (decoding
  nothing gives nothing, prefix consistency). The serving client is the function from a sequence to
  its scores, softmax and logits enter as probabilities, the Unicode database beyond ASCII is the
  record \<open>unicode_data\<close>, TransferQueue is the sequence of snapshots it returns, iteration over a
  Python set is any enumeration of it, and collectives are the answers of the peers. \<open>ast.parse\<close>,
  \<open>math_verify\<close>, case folding, SHA-256, the \<open>random\<close> generator, \<open>torch.rand\<close>,
  \<open>torch.topk\<close>, the chat template and the call of the language model (\<open>vLLM\<close>) are
  functions in environment records; parsed YAML and JSON documents are inputs. The language model is a
  function from the engine arguments and all requests of a call to their answers. Independence of the
  schedule and the offline step valuation assume nothing about it; only the totality of an accepted
  evaluation assumes an engine that does not fail and answers each request by itself, with as many
  completions as requested (\<open>answers_each\<close>), which \<open>vLLM\<close> does not promise.

  Bounds and fuel. Loops over a text consume at least one character per round, so the delimiter,
  environment, box and \<open>finditer\<close> loops run with one unit of fuel per character and one more.
  A repetition in a pattern needs its minimum count plus one unit per character. The count search of
  the micro-batches stops at the number of samples, the synchronous loop takes one unit per poll.
  \<open>int\<close> accepts at most 4300 decimal digits, the default limit of the interpreter; the
  totality of the splitter is proved under that bound on the text.

  Not modelled. Rounding, overflow and signed zeros of floats, devices, dtypes and gradients (a
  detached value is its value); Ray, RPC, sleeping and logging. Of the loss engine: the Pass@k, GDPO
  and optimal-baseline estimators and the policy losses no algorithm of the repository selects; of
  the distillation losses: the top-k loss over full-vocabulary logits (\<open>compute_topk_loss\<close>)
  and the validator of \<open>DistillationLossConfig\<close>; of \<open>algorithms/\<close>: the
  configuration validators other than R2OPL's, the trainer subclasses (they hand rows between Ray
  actors and TransferQueue) and \<open>eopd.py\<close>, \<open>grpo.py\<close>, \<open>gspo.py\<close>, which are
  configuration and trainer glue over modelled losses. Of the evaluation: discovery and merging of
  checkpoints, the patches of \<open>vLLM\<close>, result files and the command line;
  \<open>utils/ersr_evaluation.py\<close> is a second copy of the evaluation with other file handling. The
  rest of \<open>verl\<close> is the upstream framework; data preparation, tests and shell scripts.
\<close>

end
